(* ===== verification/PyPrelude.thy ===== *)
theory PyPrelude
  imports Complex_Main
begin

text \<open>
  The Python runtime as far as the modelled sources use it: JSON-like values, exceptions as
  values, floats with their special values, dictionaries with insertion order, truthiness, the
  \<^verbatim>\<open>str\<close>, \<^verbatim>\<open>int\<close> and \<^verbatim>\<open>float\<close> conversions and the string methods.

  Floats are exact rationals plus the two infinities and NaN. The comparisons and the arithmetic
  of the special values are those of IEEE 754, in particular every comparison with NaN is false;
  rounding, overflow to infinity and signed zero are not modelled. Strings are lists of
  characters; the string methods are modelled on ASCII.
\<close>

named_theorems pydefs \<open>definitions of the Python runtime model\<close>

section \<open>Exceptions and results\<close>

datatype pyexc =
    ValueError string
  | TypeError string
  | KeyError string
  | RuntimeError string
  | OSError string
  | TimeoutError string
  | IndexError string
  | OverflowError string
  | AssertionError string
  | ZeroDivisionError

type_synonym 'a res = "pyexc + 'a"

definition res_bind :: "'a res \<Rightarrow> ('a \<Rightarrow> 'b res) \<Rightarrow> 'b res" where
  "res_bind m f = (case m of Inl e \<Rightarrow> Inl e | Inr x \<Rightarrow> f x)"

lemma res_bind_simps [simp]:
  "res_bind (Inl e) f = Inl e"
  "res_bind (Inr x) f = f x"
  by (simp_all add: res_bind_def)

lemma res_bind_Inr_iff: "res_bind m f = Inr y \<longleftrightarrow> (\<exists>x. m = Inr x \<and> f x = Inr y)"
  by (cases m) auto

lemma res_bind_Inl_iff: "res_bind m f = Inl e \<longleftrightarrow> m = Inl e \<or> (\<exists>x. m = Inr x \<and> f x = Inl e)"
  by (cases m) auto

lemma res_bind_assoc: "res_bind (res_bind m f) g = res_bind m (\<lambda>x. res_bind (f x) g)"
  by (cases m) simp_all

text \<open>A list comprehension whose element expression may raise: the first exception wins.\<close>

fun res_map :: "('a \<Rightarrow> 'b res) \<Rightarrow> 'a list \<Rightarrow> 'b list res" where
  "res_map f [] = Inr []"
| "res_map f (x # xs) = res_bind (f x) (\<lambda>y. res_bind (res_map f xs) (\<lambda>ys. Inr (y # ys)))"

lemma res_map_Inr_length: "res_map f xs = Inr ys \<Longrightarrow> length ys = length xs"
  by (induction xs arbitrary: ys) (auto simp: res_bind_Inr_iff)

lemma res_map_Inr_iff: "res_map f xs = Inr ys \<longleftrightarrow> list_all2 (\<lambda>x y. f x = Inr y) xs ys"
  by (induction xs arbitrary: ys) (auto simp: res_bind_Inr_iff list_all2_Cons1)

section \<open>Floats\<close>

datatype pyfloat = Fin rat | PInf | NInf | NaN

instantiation pyfloat :: "{plus, minus, uminus, times, ord, zero, one}"
begin

definition zero_pyfloat :: pyfloat where "zero_pyfloat = Fin 0"

definition one_pyfloat :: pyfloat where "one_pyfloat = Fin 1"

fun uminus_pyfloat :: "pyfloat \<Rightarrow> pyfloat" where
  "uminus_pyfloat (Fin a) = Fin (- a)"
| "uminus_pyfloat PInf = NInf"
| "uminus_pyfloat NInf = PInf"
| "uminus_pyfloat NaN = NaN"

fun plus_pyfloat :: "pyfloat \<Rightarrow> pyfloat \<Rightarrow> pyfloat" where
  "plus_pyfloat (Fin a) (Fin b) = Fin (a + b)"
| "plus_pyfloat NaN y = NaN"
| "plus_pyfloat x NaN = NaN"
| "plus_pyfloat PInf NInf = NaN"
| "plus_pyfloat NInf PInf = NaN"
| "plus_pyfloat PInf y = PInf"
| "plus_pyfloat NInf y = NInf"
| "plus_pyfloat x PInf = PInf"
| "plus_pyfloat x NInf = NInf"

definition minus_pyfloat :: "pyfloat \<Rightarrow> pyfloat \<Rightarrow> pyfloat" where
  "minus_pyfloat x y = x + (- y)"

fun times_pyfloat :: "pyfloat \<Rightarrow> pyfloat \<Rightarrow> pyfloat" where
  "times_pyfloat (Fin a) (Fin b) = Fin (a * b)"
| "times_pyfloat NaN y = NaN"
| "times_pyfloat x NaN = NaN"
| "times_pyfloat (Fin a) PInf = (if a = 0 then NaN else if 0 < a then PInf else NInf)"
| "times_pyfloat (Fin a) NInf = (if a = 0 then NaN else if 0 < a then NInf else PInf)"
| "times_pyfloat PInf (Fin b) = (if b = 0 then NaN else if 0 < b then PInf else NInf)"
| "times_pyfloat NInf (Fin b) = (if b = 0 then NaN else if 0 < b then NInf else PInf)"
| "times_pyfloat PInf PInf = PInf"
| "times_pyfloat PInf NInf = NInf"
| "times_pyfloat NInf PInf = NInf"
| "times_pyfloat NInf NInf = PInf"

fun less_pyfloat :: "pyfloat \<Rightarrow> pyfloat \<Rightarrow> bool" where
  "less_pyfloat (Fin a) (Fin b) = (a < b)"
| "less_pyfloat (Fin a) PInf = True"
| "less_pyfloat NInf (Fin b) = True"
| "less_pyfloat NInf PInf = True"
| "less_pyfloat x y = False"

definition less_eq_pyfloat :: "pyfloat \<Rightarrow> pyfloat \<Rightarrow> bool" where
  "less_eq_pyfloat x y = (x < y \<or> (x = y \<and> x \<noteq> NaN))"

instance ..

end

lemma pyfloat_le_simps [simp]:
  "Fin a \<le> Fin b \<longleftrightarrow> a \<le> b"
  "NaN \<le> y \<longleftrightarrow> False"
  "x \<le> NaN \<longleftrightarrow> False"
  "Fin a \<le> PInf \<longleftrightarrow> True"
  "PInf \<le> Fin a \<longleftrightarrow> False"
  "NInf \<le> Fin a \<longleftrightarrow> True"
  "Fin a \<le> NInf \<longleftrightarrow> False"
  by (cases x; auto simp: less_eq_pyfloat_def)+

lemma pyfloat_minus_simps [simp]:
  "Fin a - Fin b = Fin (a - b)"
  "NaN - y = NaN"
  "x - NaN = NaN"
  "PInf - Fin b = PInf"
  "NInf - Fin b = NInf"
  "Fin a - PInf = NInf"
  "Fin a - NInf = PInf"
  by (cases x; simp add: minus_pyfloat_def)+

lemma pyfloat_less_NaN [simp]:
  "NaN < y \<longleftrightarrow> False"
  "x < NaN \<longleftrightarrow> False"
  by (cases y; simp) (cases x; simp)

lemma pyfloat_zero_one [simp]: "(0::pyfloat) = Fin 0" "(1::pyfloat) = Fin 1"
  by (simp_all add: zero_pyfloat_def one_pyfloat_def)

lemma pyfloat_less_trans: "(x::pyfloat) < y \<Longrightarrow> y < z \<Longrightarrow> x < z"
  by (cases x; cases y; cases z) auto

lemma pyfloat_not_less: "x \<noteq> NaN \<Longrightarrow> y \<noteq> NaN \<Longrightarrow> \<not> x < y \<longleftrightarrow> y \<le> (x::pyfloat)"
  by (cases x; cases y) (auto simp: less_eq_pyfloat_def)

definition isfinite :: "pyfloat \<Rightarrow> bool" where
  "isfinite x = (case x of Fin _ \<Rightarrow> True | _ \<Rightarrow> False)"

definition fabs :: "pyfloat \<Rightarrow> pyfloat" where
  "fabs x = (case x of Fin a \<Rightarrow> Fin \<bar>a\<bar> | PInf \<Rightarrow> PInf | NInf \<Rightarrow> PInf | NaN \<Rightarrow> NaN)"

text \<open>Python's equality of floats: NaN differs from itself.\<close>

definition feq :: "pyfloat \<Rightarrow> pyfloat \<Rightarrow> bool" where
  "feq x y = (x = y \<and> x \<noteq> NaN)"

text \<open>The built-ins \<^verbatim>\<open>max(a, b)\<close> and \<^verbatim>\<open>min(a, b)\<close> keep the first argument unless the second
  compares strictly better, also on NaN.\<close>

definition pymax :: "'a::ord \<Rightarrow> 'a \<Rightarrow> 'a" where
  "pymax a b = (if a < b then b else a)"

definition pymin :: "'a::ord \<Rightarrow> 'a \<Rightarrow> 'a" where
  "pymin a b = (if b < a then b else a)"

text \<open>True division; the caller's divisor is never zero in the modelled code.\<close>

fun fdiv :: "pyfloat \<Rightarrow> pyfloat \<Rightarrow> pyfloat res" where
  "fdiv x (Fin b) = (if b = 0 then Inl ZeroDivisionError
     else Inr (x * Fin (1 / b)))"
| "fdiv (Fin a) PInf = Inr (Fin 0)"
| "fdiv (Fin a) NInf = Inr (Fin 0)"
| "fdiv x y = Inr NaN"

declare isfinite_def [pydefs] fabs_def [pydefs] feq_def [pydefs] pymax_def [pydefs] pymin_def [pydefs]

lemma pymax_ge: "x \<noteq> NaN \<Longrightarrow> y \<noteq> NaN \<Longrightarrow> x \<le> pymax x y \<and> y \<le> pymax x (y::pyfloat)"
  by (cases x; cases y) (auto simp: pymax_def less_eq_pyfloat_def)

section \<open>Values\<close>

datatype pyval =
    PNone
  | PBool bool
  | PInt int
  | PFloat pyfloat
  | PStr string
  | PList "pyval list"
  | PDict "(string \<times> pyval) list"

type_synonym pydict = "(string \<times> pyval) list"

text \<open>\<^verbatim>\<open>d.get(k, default)\<close>, \<^verbatim>\<open>d.get(k)\<close> and \<^verbatim>\<open>d[k] = v\<close>, which keeps the position of a key that is
  already there.\<close>

definition dget_or :: "pydict \<Rightarrow> string \<Rightarrow> pyval \<Rightarrow> pyval" where
  "dget_or d k v = (case map_of d k of None \<Rightarrow> v | Some x \<Rightarrow> x)"

abbreviation dget :: "pydict \<Rightarrow> string \<Rightarrow> pyval" where
  "dget d k \<equiv> dget_or d k PNone"

fun dset :: "('k \<times> 'v) list \<Rightarrow> 'k \<Rightarrow> 'v \<Rightarrow> ('k \<times> 'v) list" where
  "dset [] k v = [(k, v)]"
| "dset ((k', v') # d) k v = (if k' = k then (k', v) # d else (k', v') # dset d k v)"

fun dict_update :: "('k \<times> 'v) list \<Rightarrow> ('k \<times> 'v) list \<Rightarrow> ('k \<times> 'v) list" where
  "dict_update d [] = d"
| "dict_update d ((k, v) # e) = dict_update (dset d k v) e"

definition ddel :: "('k \<times> 'v) list \<Rightarrow> 'k \<Rightarrow> ('k \<times> 'v) list" where
  "ddel d k = filter (\<lambda>e. fst e \<noteq> k) d"

lemma map_of_dset [simp]: "map_of (dset d k v) = (map_of d)(k \<mapsto> v)"
  by (induction d k v rule: dset.induct) auto

lemma keys_dset: "map fst (dset d k v) = (if k \<in> fst ` set d then map fst d else map fst d @ [k])"
  by (induction d k v rule: dset.induct) auto

lemma set_keys_dset: "fst ` set (dset d k v) = insert k (fst ` set d)"
  by (induction d k v rule: dset.induct) auto

lemma distinct_dset: "distinct (map fst d) \<Longrightarrow> distinct (map fst (dset d k v))"
  by (auto simp: keys_dset)

lemma map_of_ddel: "map_of (ddel d k) = (map_of d)(k := None)"
  by (induction d) (auto simp: ddel_def)

lemma distinct_ddel: "distinct (map fst d) \<Longrightarrow> distinct (map fst (ddel d k))"
  by (simp add: ddel_def distinct_map_filter)

lemma set_ddel: "set (ddel d k) = {e \<in> set d. fst e \<noteq> k}"
  by (simp add: ddel_def)

lemma dget_or_dset [simp]: "dget_or (dset d k v) k' w = (if k' = k then v else dget_or d k' w)"
  by (simp add: dget_or_def)

lemma dget_or_Nil [simp]: "dget_or [] k v = v"
  by (simp add: dget_or_def)

lemma dget_or_Cons [simp]: "dget_or ((k', x) # d) k v = (if k = k' then x else dget_or d k v)"
  by (simp add: dget_or_def)

text \<open>Truthiness and the type tests.\<close>

fun truthy :: "pyval \<Rightarrow> bool" where
  "truthy PNone = False"
| "truthy (PBool b) = b"
| "truthy (PInt i) = (i \<noteq> 0)"
| "truthy (PFloat f) = (f \<noteq> Fin 0)"
| "truthy (PStr s) = (s \<noteq> [])"
| "truthy (PList xs) = (xs \<noteq> [])"
| "truthy (PDict d) = (d \<noteq> [])"

text \<open>\<^verbatim>\<open>a or b\<close>.\<close>

definition py_or :: "pyval \<Rightarrow> pyval \<Rightarrow> pyval" where
  "py_or a b = (if truthy a then a else b)"

definition is_dict :: "pyval \<Rightarrow> bool" where
  "is_dict v = (case v of PDict _ \<Rightarrow> True | _ \<Rightarrow> False)"

text \<open>\<^verbatim>\<open>value if isinstance(value, dict) else {}\<close>.\<close>

definition as_dict :: "pyval \<Rightarrow> pydict" where
  "as_dict v = (case v of PDict d \<Rightarrow> d | _ \<Rightarrow> [])"

definition is_str :: "pyval \<Rightarrow> bool" where
  "is_str v = (case v of PStr _ \<Rightarrow> True | _ \<Rightarrow> False)"

definition is_bool :: "pyval \<Rightarrow> bool" where
  "is_bool v = (case v of PBool _ \<Rightarrow> True | _ \<Rightarrow> False)"

text \<open>\<^verbatim>\<open>isinstance(v, int)\<close> holds of booleans too, with their integer value.\<close>

definition int_value :: "pyval \<Rightarrow> int option" where
  "int_value v = (case v of PInt i \<Rightarrow> Some i | PBool b \<Rightarrow> Some (if b then 1 else 0) | _ \<Rightarrow> None)"

text \<open>\<^verbatim>\<open>isinstance(v, (int, float))\<close> with \<^verbatim>\<open>float(v)\<close>; the strict form excludes booleans.\<close>

definition num_value :: "pyval \<Rightarrow> pyfloat option" where
  "num_value v = (case v of PInt i \<Rightarrow> Some (Fin (of_int i)) | PFloat f \<Rightarrow> Some f
     | PBool b \<Rightarrow> Some (Fin (if b then 1 else 0)) | _ \<Rightarrow> None)"

definition strict_num :: "pyval \<Rightarrow> pyfloat option" where
  "strict_num v = (case v of PInt i \<Rightarrow> Some (Fin (of_int i)) | PFloat f \<Rightarrow> Some f | _ \<Rightarrow> None)"

text \<open>Values that a set or dict lookup can hash: lists and dicts raise \<^verbatim>\<open>TypeError\<close>.\<close>

definition hashable :: "pyval \<Rightarrow> bool" where
  "hashable v = (case v of PList _ \<Rightarrow> False | PDict _ \<Rightarrow> False | _ \<Rightarrow> True)"

text \<open>\<^verbatim>\<open>v in {"a", "b"}\<close>: a set of string literals, with the exception an unhashable value raises.\<close>

definition in_str_set :: "pyval \<Rightarrow> string list \<Rightarrow> bool res" where
  "in_str_set v ws = (if hashable v then Inr (case v of PStr s \<Rightarrow> s \<in> set ws | _ \<Rightarrow> False)
     else Inl (TypeError ''unhashable type''))"

declare dget_or_def [pydefs] py_or_def [pydefs] is_dict_def [pydefs] as_dict_def [pydefs]
  is_str_def [pydefs] is_bool_def [pydefs] int_value_def [pydefs] num_value_def [pydefs]
  strict_num_def [pydefs] hashable_def [pydefs] in_str_set_def [pydefs]

lemma as_dict_PDict [simp]: "as_dict (PDict d) = d"
  by (simp add: as_dict_def)

lemma is_dict_iff: "is_dict v \<longleftrightarrow> (\<exists>d. v = PDict d)"
  by (cases v) (auto simp: is_dict_def)

lemma in_str_set_PStr [simp]: "in_str_set (PStr s) ws = Inr (s \<in> set ws)"
  by (simp add: in_str_set_def hashable_def)

lemma in_str_set_True_iff: "in_str_set v ws = Inr True \<longleftrightarrow> (\<exists>s. v = PStr s \<and> s \<in> set ws)"
  by (cases v) (auto simp: in_str_set_def hashable_def)

lemma in_str_set_Inl_iff:
  "in_str_set v ws = Inl e \<longleftrightarrow> \<not> hashable v \<and> e = TypeError ''unhashable type''"
  by (auto simp: in_str_set_def)

section \<open>Strings\<close>

text \<open>ASCII white space as \<^verbatim>\<open>str.strip\<close> removes it, lower case, and decimal digits.\<close>

definition is_space :: "char \<Rightarrow> bool" where
  "is_space c = (let n = (of_char c :: nat) in (9 \<le> n \<and> n \<le> 13) \<or> (28 \<le> n \<and> n \<le> 32))"

definition py_strip :: "string \<Rightarrow> string" where
  "py_strip s = rev (dropWhile is_space (rev (dropWhile is_space s)))"

definition lower_char :: "char \<Rightarrow> char" where
  "lower_char c = (let n = (of_char c :: nat) in if 65 \<le> n \<and> n \<le> 90 then char_of (n + 32) else c)"

definition py_lower :: "string \<Rightarrow> string" where
  "py_lower s = map lower_char s"

definition is_digit :: "char \<Rightarrow> bool" where
  "is_digit c = (let n = (of_char c :: nat) in 48 \<le> n \<and> n \<le> 57)"

definition digit_val :: "char \<Rightarrow> nat" where
  "digit_val c = of_char c - 48"

definition digit_char :: "nat \<Rightarrow> char" where
  "digit_char n = char_of (48 + n)"

definition startswith :: "string \<Rightarrow> string \<Rightarrow> bool" where
  "startswith s p = (take (length p) s = p)"

text \<open>Decimal notation.\<close>

fun nat_str :: "nat \<Rightarrow> string" where
  "nat_str n = (if n < 10 then [digit_char n] else nat_str (n div 10) @ [digit_char (n mod 10)])"

declare nat_str.simps [simp del]

definition int_str :: "int \<Rightarrow> string" where
  "int_str i = (if i < 0 then CHR ''-'' # nat_str (nat (- i)) else nat_str (nat i))"

definition digits_val :: "string \<Rightarrow> nat" where
  "digits_val s = foldl (\<lambda>a c. 10 * a + digit_val c) 0 s"

lemma digit_char_digit [simp]: "n < 10 \<Longrightarrow> is_digit (digit_char n)"
  by (simp add: is_digit_def digit_char_def)

lemma digit_val_char [simp]: "n < 10 \<Longrightarrow> digit_val (digit_char n) = n"
  by (simp add: digit_val_def digit_char_def)

lemma nat_str_digits: "list_all is_digit (nat_str n)"
proof (induction n rule: nat_str.induct)
  case (1 n)
  then show ?case by (subst nat_str.simps) simp
qed

lemma nat_str_nonempty [simp]: "nat_str n \<noteq> []"
  by (subst nat_str.simps) simp

lemma digits_val_nat_str [simp]: "digits_val (nat_str n) = n"
proof (induction n rule: nat_str.induct)
  case (1 n)
  show ?case
  proof (cases "n < 10")
    case True
    then show ?thesis by (subst nat_str.simps) (simp add: digits_val_def)
  next
    case False
    with "1.IH" have "digits_val (nat_str (n div 10)) = n div 10" by simp
    with False show ?thesis by (subst nat_str.simps) (simp add: digits_val_def)
  qed
qed

text \<open>\<^verbatim>\<open>int(text)\<close>: surrounding white space, one sign, digits with single underscores between them.\<close>

fun digit_groups :: "bool \<Rightarrow> string \<Rightarrow> string option" where
  "digit_groups after_digit [] = (if after_digit then Some [] else None)"
| "digit_groups after_digit (c # cs) =
     (if is_digit c then map_option (Cons c) (digit_groups True cs)
      else if c = CHR ''_'' \<and> after_digit then digit_groups False cs
      else None)"

definition unsigned_of_str :: "string \<Rightarrow> nat option" where
  "unsigned_of_str s = map_option digits_val (digit_groups False s)"

definition int_of_str :: "string \<Rightarrow> int res" where
  "int_of_str text =
     (let s = py_strip text;
          r = (case s of
                 [] \<Rightarrow> None
               | c # cs \<Rightarrow>
                   if c = CHR ''-'' then map_option (\<lambda>n. - int n) (unsigned_of_str cs)
                   else if c = CHR ''+'' then map_option int (unsigned_of_str cs)
                   else map_option int (unsigned_of_str s))
      in case r of None \<Rightarrow> Inl (ValueError ''invalid literal for int() with base 10'')
         | Some i \<Rightarrow> Inr i)"

lemma digit_groups_digits: "list_all is_digit s \<Longrightarrow> s \<noteq> [] \<or> b \<Longrightarrow> digit_groups b s = Some s"
  by (induction s arbitrary: b) auto

lemma digit_not_space: "is_digit c \<Longrightarrow> \<not> is_space c"
  by (simp add: is_digit_def is_space_def Let_def)

lemma digit_not_sign: "is_digit c \<Longrightarrow> c \<noteq> CHR ''-'' \<and> c \<noteq> CHR ''+'' \<and> c \<noteq> CHR '':''"
  by (auto simp: is_digit_def)

lemma py_strip_no_space: "list_all (\<lambda>c. \<not> is_space c) s \<Longrightarrow> py_strip s = s"
proof -
  have id: "dropWhile is_space t = t" if "list_all (\<lambda>c. \<not> is_space c) t" for t
    using that by (cases t) auto
  assume "list_all (\<lambda>c. \<not> is_space c) s"
  then show ?thesis by (simp add: py_strip_def id)
qed

lemma list_all_mono': "list_all P xs \<Longrightarrow> (\<And>x. P x \<Longrightarrow> Q x) \<Longrightarrow> list_all Q xs"
  by (auto simp: list_all_iff)

lemma int_of_str_digits:
  assumes dig: "list_all is_digit s" and "s \<noteq> []"
  shows "int_of_str s = Inr (int (digits_val s))"
proof -
  have strip: "py_strip s = s"
    using dig by (intro py_strip_no_space) (auto elim: list_all_mono' dest: digit_not_space)
  obtain c cs where cs: "s = c # cs" using assms(2) by (cases s) auto
  with dig have "is_digit c" by simp
  then have "c \<noteq> CHR ''-''" "c \<noteq> CHR ''+''" using digit_not_sign by auto
  moreover have "unsigned_of_str s = Some (digits_val s)"
    using assms by (simp add: unsigned_of_str_def digit_groups_digits)
  ultimately show ?thesis
    using strip cs by (simp add: int_of_str_def Let_def)
qed

lemma int_of_str_nat_str: "int_of_str (nat_str n) = Inr (int n)"
  using int_of_str_digits [OF nat_str_digits nat_str_nonempty] by simp

lemma digits_val_zeros: "digits_val (replicate k (CHR ''0'') @ d) = digits_val d"
  by (induction k) (simp_all add: digits_val_def digit_val_def)

text \<open>\<^verbatim>\<open>repr\<close> and \<^verbatim>\<open>str\<close>. Finite floats are printed in positional decimal notation with at most
  seventeen fractional digits; Python's exponent notation for very large and very small
  magnitudes is not reproduced.\<close>

definition hex_digit :: "nat \<Rightarrow> char" where
  "hex_digit n = (if n < 10 then char_of (48 + n) else char_of (87 + n))"

definition repr_char :: "char \<Rightarrow> char \<Rightarrow> string" where
  "repr_char q c =
     (let n = (of_char c :: nat) in
      if c = q \<or> n = 92 then [char_of (92::nat), c]
      else if n = 10 then [char_of (92::nat), CHR ''n'']
      else if n = 13 then [char_of (92::nat), CHR ''r'']
      else if n = 9 then [char_of (92::nat), CHR ''t'']
      else if n < 32 \<or> n = 127 then [char_of (92::nat), CHR ''x'', hex_digit (n div 16), hex_digit (n mod 16)]
      else [c])"

definition repr_str :: "string \<Rightarrow> string" where
  "repr_str s =
     (let sq = char_of (39::nat); dq = char_of (34::nat);
          q = (if sq \<in> set s \<and> dq \<notin> set s then dq else sq)
      in q # concat (map (repr_char q) s) @ [q])"

text \<open>\<^verbatim>\<open>type(exc).__name__\<close> and \<^verbatim>\<open>str(exc)\<close>.\<close>

definition exc_name :: "pyexc \<Rightarrow> string" where
  "exc_name e = (case e of
      ValueError _ \<Rightarrow> ''ValueError'' | TypeError _ \<Rightarrow> ''TypeError'' | KeyError _ \<Rightarrow> ''KeyError''
    | RuntimeError _ \<Rightarrow> ''RuntimeError'' | OSError _ \<Rightarrow> ''OSError'' | TimeoutError _ \<Rightarrow> ''TimeoutError''
    | IndexError _ \<Rightarrow> ''IndexError'' | OverflowError _ \<Rightarrow> ''OverflowError'' | AssertionError _ \<Rightarrow> ''AssertionError''
    | ZeroDivisionError \<Rightarrow> ''ZeroDivisionError'')"

definition exc_str :: "pyexc \<Rightarrow> string" where
  "exc_str e = (case e of ValueError m \<Rightarrow> m | TypeError m \<Rightarrow> m | KeyError m \<Rightarrow> repr_str m | RuntimeError m \<Rightarrow> m
     | OSError m \<Rightarrow> m | TimeoutError m \<Rightarrow> m | IndexError m \<Rightarrow> m | OverflowError m \<Rightarrow> m | AssertionError m \<Rightarrow> m
     | ZeroDivisionError \<Rightarrow> ''float division by zero'')"

fun frac_digits :: "nat \<Rightarrow> rat \<Rightarrow> string" where
  "frac_digits 0 q = []"
| "frac_digits (Suc k) q =
     (if q = 0 then [] else digit_char (nat \<lfloor>q * 10\<rfloor>) # frac_digits k (q * 10 - of_int \<lfloor>q * 10\<rfloor>))"

definition ufloat_str :: "rat \<Rightarrow> string" where
  "ufloat_str q =
     (let f = frac_digits 17 (q - of_int \<lfloor>q\<rfloor>)
      in nat_str (nat \<lfloor>q\<rfloor>) @ CHR ''.'' # (if f = [] then ''0'' else f))"

fun float_str :: "pyfloat \<Rightarrow> string" where
  "float_str (Fin q) = (if q < 0 then CHR ''-'' # ufloat_str (- q) else ufloat_str q)"
| "float_str PInf = ''inf''"
| "float_str NInf = ''-inf''"
| "float_str NaN = ''nan''"

fun join :: "string \<Rightarrow> string list \<Rightarrow> string" where
  "join sep [] = []"
| "join sep [x] = x"
| "join sep (x # xs) = x @ sep @ join sep xs"

fun py_repr :: "pyval \<Rightarrow> string" where
  "py_repr PNone = ''None''"
| "py_repr (PBool b) = (if b then ''True'' else ''False'')"
| "py_repr (PInt i) = int_str i"
| "py_repr (PFloat f) = float_str f"
| "py_repr (PStr s) = repr_str s"
| "py_repr (PList xs) = ''['' @ join '', '' (map py_repr xs) @ '']''"
| "py_repr (PDict d) = CHR ''{'' # join '', '' (map (\<lambda>e. repr_str (fst e) @ '': '' @ py_repr (snd e)) d) @ ''}''"

definition py_str :: "pyval \<Rightarrow> string" where
  "py_str v = (case v of PStr s \<Rightarrow> s | _ \<Rightarrow> py_repr v)"

text \<open>The text of a value that is not a string starts with a digit, a sign, a bracket or one of
  the five words below. A word that starts otherwise can only come from that very string.\<close>

definition plain_word :: "string \<Rightarrow> bool" where
  "plain_word w = (case w of [] \<Rightarrow> True
     | c # _ \<Rightarrow> \<not> is_digit c \<and> c \<notin> set ''-[{''
          \<and> w \<notin> {''None'', ''True'', ''False'', ''inf'', ''nan''})"

lemma int_str_head: "\<exists>c cs. int_str i = c # cs \<and> (is_digit c \<or> c = CHR ''-'')"
proof (cases "i < 0")
  case False
  obtain c cs where "nat_str (nat i) = c # cs" by (cases "nat_str (nat i)") auto
  with nat_str_digits [of "nat i"] have "is_digit c" by simp
  with \<open>nat_str (nat i) = c # cs\<close> False show ?thesis by (simp add: int_str_def)
qed (simp add: int_str_def)

lemma ufloat_str_head: "\<exists>c cs. ufloat_str q = c # cs \<and> is_digit c"
proof -
  obtain c cs where "nat_str (nat \<lfloor>q\<rfloor>) = c # cs" by (cases "nat_str (nat \<lfloor>q\<rfloor>)") auto
  with nat_str_digits [of "nat \<lfloor>q\<rfloor>"] show ?thesis by (simp add: ufloat_str_def Let_def)
qed

lemma py_str_plain_word: "plain_word w \<Longrightarrow> py_str v = w \<longleftrightarrow> v = PStr w"
proof (cases v)
  case (PInt i)
  assume "plain_word w"
  with int_str_head [of i] PInt show ?thesis
    by (auto simp: py_str_def plain_word_def split: list.splits)
next
  case (PFloat f)
  assume "plain_word w"
  moreover have "\<exists>c cs. py_str v = c # cs \<and> (is_digit c \<or> c = CHR ''-'') \<or> py_str v \<in> {''inf'', ''nan''}"
    using PFloat ufloat_str_head by (cases f) (auto simp: py_str_def)
  ultimately show ?thesis using PFloat
    by (auto simp: plain_word_def split: list.splits)
qed (auto simp: py_str_def plain_word_def split: list.splits)

text \<open>\<^verbatim>\<open>float(text)\<close>: sign, the names of the special values, digits with an optional point and an
  optional exponent.\<close>

definition digits_or_empty :: "string \<Rightarrow> string option" where
  "digits_or_empty s = (if s = [] then Some [] else digit_groups False s)"

definition mantissa_of_str :: "string \<Rightarrow> rat option" where
  "mantissa_of_str s =
     (let ip = takeWhile (\<lambda>c. c \<noteq> CHR ''.'') s;
          fp = drop 1 (dropWhile (\<lambda>c. c \<noteq> CHR ''.'') s)
      in if ip = [] \<and> fp = [] then None
         else case (digits_or_empty ip, digits_or_empty fp) of
                (Some i, Some f) \<Rightarrow> Some (of_nat (digits_val (i @ f)) / 10 ^ length f)
              | _ \<Rightarrow> None)"

definition exponent_of_str :: "string \<Rightarrow> rat option" where
  "exponent_of_str s =
     (case s of
        [] \<Rightarrow> None
      | c # cs \<Rightarrow>
          if c = CHR ''-'' then map_option (\<lambda>n. 1 / 10 ^ n) (unsigned_of_str cs)
          else map_option (\<lambda>n. 10 ^ n) (unsigned_of_str (if c = CHR ''+'' then cs else s)))"

definition ufloat_of_str :: "string \<Rightarrow> pyfloat option" where
  "ufloat_of_str s =
     (let low = py_lower s;
          is_e = (\<lambda>c. c = CHR ''e'');
          m = takeWhile (\<lambda>c. \<not> is_e c) low; e = dropWhile (\<lambda>c. \<not> is_e c) low
      in if low \<in> {''inf'', ''infinity''} then Some PInf
         else if low = ''nan'' then Some NaN
         else case mantissa_of_str m of
                None \<Rightarrow> None
              | Some q \<Rightarrow> if e = [] then Some (Fin q) else map_option (\<lambda>x. Fin (q * x)) (exponent_of_str (tl e)))"

definition float_of_str :: "string \<Rightarrow> pyfloat res" where
  "float_of_str text =
     (let s = py_strip text;
          r = (case s of
                 [] \<Rightarrow> None
               | c # cs \<Rightarrow>
                   if c = CHR ''-'' then map_option uminus (ufloat_of_str cs)
                   else ufloat_of_str (if c = CHR ''+'' then cs else s))
      in case r of None \<Rightarrow> Inl (ValueError ''could not convert string to float'') | Some f \<Rightarrow> Inr f)"

fun py_float :: "pyval \<Rightarrow> pyfloat res" where
  "py_float (PInt i) = Inr (Fin (of_int i))"
| "py_float (PBool b) = Inr (Fin (if b then 1 else 0))"
| "py_float (PFloat f) = Inr f"
| "py_float (PStr s) = float_of_str s"
| "py_float v = Inl (TypeError ''float() argument must be a string or a real number'')"

text \<open>\<^verbatim>\<open>float(v)\<close> of an integer raises \<^verbatim>\<open>OverflowError\<close> from the midpoint above the largest double on.\<close>

definition float_overflows :: "pyval \<Rightarrow> bool" where
  "float_overflows v = (case v of PInt i \<Rightarrow> 2 ^ 1024 - 2 ^ 970 \<le> \<bar>i\<bar> | _ \<Rightarrow> False)"

definition float_checked :: "pyval \<Rightarrow> pyfloat res" where
  "float_checked v = (if float_overflows v then Inl (OverflowError ''int too large to convert to float'') else py_float v)"

text \<open>\<^verbatim>\<open>int(v)\<close>: truncation of a finite float; the infinities and NaN raise.\<close>

fun py_int :: "pyval \<Rightarrow> int res" where
  "py_int (PInt i) = Inr i"
| "py_int (PBool b) = Inr (if b then 1 else 0)"
| "py_int (PFloat (Fin q)) = Inr (if q < 0 then - \<lfloor>- q\<rfloor> else \<lfloor>q\<rfloor>)"
| "py_int (PFloat NaN) = Inl (ValueError ''cannot convert float NaN to integer'')"
| "py_int (PFloat f) = Inl (OverflowError ''cannot convert float infinity to integer'')"
| "py_int (PStr s) = int_of_str s"
| "py_int v = Inl (TypeError ''int() argument must be a string or a real number'')"

text \<open>\<^verbatim>\<open>v == i\<close> for an integer \<open>i\<close>.\<close>

definition py_eq_int :: "pyval \<Rightarrow> int \<Rightarrow> bool" where
  "py_eq_int v i = (case v of PInt j \<Rightarrow> j = i | PBool b \<Rightarrow> (if b then 1 else 0) = i
     | PFloat (Fin q) \<Rightarrow> q = of_int i | _ \<Rightarrow> False)"

text \<open>Rounding half to even, and the format \<^verbatim>\<open>{:.nf}\<close>.\<close>

definition round_half_even :: "rat \<Rightarrow> int" where
  "round_half_even q =
     (let f = \<lfloor>q\<rfloor>; r = q - of_int f
      in if r < 1/2 then f else if 1/2 < r then f + 1 else if even f then f else f + 1)"

definition pad_zeros :: "nat \<Rightarrow> string \<Rightarrow> string" where
  "pad_zeros n s = replicate (n - length s) (CHR ''0'') @ s"

fun fmt_fixed :: "nat \<Rightarrow> pyfloat \<Rightarrow> string" where
  "fmt_fixed n (Fin q) =
     (let u = nat (round_half_even (\<bar>q\<bar> * 10 ^ n));
          ip = nat_str (u div 10 ^ n);
          s = (if n = 0 then ip else ip @ CHR ''.'' # pad_zeros n (nat_str (u mod 10 ^ n)))
      in if q < 0 then CHR ''-'' # s else s)"
| "fmt_fixed n f = float_str f"

definition py_replace_char :: "char \<Rightarrow> char \<Rightarrow> string \<Rightarrow> string" where
  "py_replace_char a b s = map (\<lambda>c. if c = a then b else c) s"

section \<open>Lists\<close>

lemma take_split_nth:
  assumes "take n es = pre @ e # fs" and "n < length es"
  shows "length pre < n" and "es ! length pre = e"
    and "length pre \<le> j \<Longrightarrow> j < n \<Longrightarrow> es ! j \<in> set (e # fs)"
proof -
  have n: "n = length pre + Suc (length fs)"
    using arg_cong [OF assms(1), of length] assms(2) by simp
  have nth: "es ! j = (pre @ e # fs) ! j" if "j < n" for j
    using that assms(1) by (metis nth_take)
  show "length pre < n" using n by simp
  then show "es ! length pre = e" using nth by simp
  assume j: "length pre \<le> j" "j < n"
  then have "es ! j = (e # fs) ! (j - length pre)" and "j - length pre < length (e # fs)"
    using nth n by (auto simp: nth_append)
  then show "es ! j \<in> set (e # fs)" by (metis nth_mem)
qed

text \<open>\<^verbatim>\<open>str(v or "")\<close>.\<close>

definition str_or_empty :: "pyval \<Rightarrow> string" where
  "str_or_empty v = (if truthy v then py_str v else [])"

lemma foldl_max_ge: "(x :: 'a :: linorder) \<le> foldl max x ys"
proof (induction ys arbitrary: x)
  case (Cons y ys)
  show ?case using order_trans [OF max.cobounded1 Cons.IH [of "max x y"]] by simp
qed simp

lemma foldl_max_ge_elem: "(y :: 'a :: linorder) \<in> set ys \<Longrightarrow> y \<le> foldl max x ys"
proof (induction ys arbitrary: x)
  case (Cons z zs)
  then show ?case
    using order_trans [OF _ foldl_max_ge [of "max x z" zs]] by auto
qed simp

end
