(* ===== verification/Machines.thy ===== *)
theory Machines
  imports PyPrelude
begin

text \<open>
  Runs of a component over a sequence of calls. A component is a step function from its state and
  the arguments of one call to the new state and the call's result. The locale \<open>history_machine\<close>
  is the contract under which a property that relates the state to the whole sequence of calls so
  far holds after every run; \<open>state_machine\<close> is its special case for a property of the state alone.
\<close>

fun run :: "('s \<Rightarrow> 'e \<Rightarrow> 's \<times> 'o) \<Rightarrow> 's \<Rightarrow> 'e list \<Rightarrow> 's \<times> 'o list" where
  "run step s [] = (s, [])"
| "run step s (e # es) =
     (let (s', out) = step s e; (s'', outs) = run step s' es in (s'', out # outs))"

definition state_after :: "('s \<Rightarrow> 'e \<Rightarrow> 's \<times> 'o) \<Rightarrow> 's \<Rightarrow> 'e list \<Rightarrow> 's" where
  "state_after step s es = fst (run step s es)"

definition outputs :: "('s \<Rightarrow> 'e \<Rightarrow> 's \<times> 'o) \<Rightarrow> 's \<Rightarrow> 'e list \<Rightarrow> 'o list" where
  "outputs step s es = snd (run step s es)"

lemma state_after_simps [simp]:
  "state_after step s [] = s"
  "state_after step s (e # es) = state_after step (fst (step s e)) es"
  by (simp_all add: state_after_def split: prod.splits)

lemma outputs_simps [simp]:
  "outputs step s [] = []"
  "outputs step s (e # es) = snd (step s e) # outputs step (fst (step s e)) es"
  by (simp_all add: outputs_def split: prod.splits)

lemma length_outputs [simp]: "length (outputs step s es) = length es"
  by (induction es arbitrary: s) simp_all

lemma state_after_append: "state_after step s (es @ fs) = state_after step (state_after step s es) fs"
  by (induction es arbitrary: s) simp_all

lemma state_after_snoc [simp]: "state_after step s (es @ [e]) = fst (step (state_after step s es) e)"
  by (simp add: state_after_append)

lemma outputs_append: "outputs step s (es @ fs) = outputs step s es @ outputs step (state_after step s es) fs"
  by (induction es arbitrary: s) simp_all

lemma outputs_nth: "n < length es \<Longrightarrow> outputs step s es ! n = snd (step (state_after step s (take n es)) (es ! n))"
proof (induction es arbitrary: s n)
  case (Cons e es)
  then show ?case by (cases n) simp_all
qed simp

locale history_machine =
  fixes step :: "'s \<Rightarrow> 'e \<Rightarrow> 's \<times> 'o"
    and start :: 's
    and hinv :: "'e list \<Rightarrow> 's \<Rightarrow> bool"
  assumes hinv_start: "hinv [] start"
    and hinv_step: "hinv h s \<Longrightarrow> hinv (h @ [e]) (fst (step s e))"
begin

lemma hinv_run: "hinv h (state_after step start h)"
proof (induction h rule: rev_induct)
  case Nil
  show ?case using hinv_start by simp
next
  case (snoc e h)
  then show ?case using hinv_step by simp
qed

lemma hinv_before_output:
  assumes "n < length h"
  shows "hinv (take n h) (state_after step start (take n h))
         \<and> outputs step start h ! n = snd (step (state_after step start (take n h)) (h ! n))"
  using assms by (simp add: hinv_run outputs_nth)

end

locale state_machine =
  fixes step :: "'s \<Rightarrow> 'e \<Rightarrow> 's \<times> 'o"
    and inv :: "'s \<Rightarrow> bool"
  assumes inv_step: "inv s \<Longrightarrow> inv (fst (step s e))"
begin

lemma inv_run: "inv s \<Longrightarrow> inv (state_after step s es)"
  by (induction es arbitrary: s) (simp_all add: inv_step)

end

text \<open>A run all of whose calls satisfy a condition on their arguments and result, for instance that none of them
  raised.\<close>

definition calls_ok :: "('e \<Rightarrow> 'o \<Rightarrow> bool) \<Rightarrow> ('s \<Rightarrow> 'e \<Rightarrow> 's \<times> 'o) \<Rightarrow> 's \<Rightarrow> 'e list \<Rightarrow> bool" where
  "calls_ok ok step s es = list_all2 ok es (outputs step s es)"

lemma calls_ok_simps [simp]:
  "calls_ok ok step s []"
  "calls_ok ok step s (e # es) \<longleftrightarrow> ok e (snd (step s e)) \<and> calls_ok ok step (fst (step s e)) es"
  by (simp_all add: calls_ok_def)

lemma calls_ok_snoc:
  "calls_ok ok step s (es @ [e]) \<longleftrightarrow> calls_ok ok step s es \<and> ok e (snd (step (state_after step s es) e))"
  by (induction es arbitrary: s) auto

lemma calls_ok_mono: "calls_ok ok step s es \<Longrightarrow> (\<And>e x. ok e x \<Longrightarrow> ok' e x) \<Longrightarrow> calls_ok ok' step s es"
  by (induction es arbitrary: s) auto

locale guarded_machine =
  fixes step :: "'s \<Rightarrow> 'e \<Rightarrow> 's \<times> 'o"
    and inv :: "'s \<Rightarrow> bool"
    and ok :: "'e \<Rightarrow> 'o \<Rightarrow> bool"
  assumes inv_ok_step: "inv s \<Longrightarrow> ok e (snd (step s e)) \<Longrightarrow> inv (fst (step s e))"
begin

lemma inv_ok_run: "inv s \<Longrightarrow> calls_ok ok step s es \<Longrightarrow> inv (state_after step s es)"
  by (induction es arbitrary: s) (simp_all add: inv_ok_step)

end

end
