(* ===== verification/StateClient.thy ===== *)
theory StateClient
  imports Machines
begin

text \<open>
  The robot state stream as \<^verbatim>\<open>policy_runner/robot_state_client.py\<close> reads it: UDP endpoints, the
  state snapshot and its age, the readbacks of one state message (command-source lease, latched
  fault, joint-limit clamp, region-of-interest exit), the two trackers that turn per-tick readbacks
  into events, and the loop that waits for a lease to be confirmed.
\<close>

section \<open>Data\<close>

record UdpEndpoint =
  host :: string
  port :: int

record StateSnapshot =
  payload :: pydict
  received_monotonic :: pyfloat

definition is_stale :: "StateSnapshot \<Rightarrow> pyfloat \<Rightarrow> pyfloat \<Rightarrow> bool" where
  "is_stale s now_monotonic stale_timeout_sec = (stale_timeout_sec < now_monotonic - received_monotonic s)"

record CommandSourceLeaseReadback =
  lr_active :: bool
  lr_expired :: bool
  lr_enforce_lease :: bool
  lr_active_source_id :: "string option"
  lr_active_session_id :: "string option"
  lr_active_lease_token :: "string option"
  lr_verdict :: "string option"
  lr_reason :: "string option"
  lr_command_requires_lease :: "bool option"
  lr_command_has_lease :: "bool option"

definition lease_matches :: "CommandSourceLeaseReadback \<Rightarrow> string \<Rightarrow> string \<Rightarrow> string option \<Rightarrow> bool" where
  "lease_matches r source_id session_id lease_token =
     (if \<not> lr_active r \<or> lr_expired r then False
      else if lr_active_source_id r \<noteq> Some source_id \<or> lr_active_session_id r \<noteq> Some session_id then False
      else lease_token = None \<or> lr_active_lease_token r = lease_token)"

record FaultLatchReadback =
  fl_latched :: bool
  fl_motion_state :: "string option"
  fl_latched_fault_reason :: "string option"
  fl_reason :: "string option"

record JointLimitStallReadback =
  js_blocked :: bool
  js_arm :: "string option"
  js_joint_index :: "int option"
  js_q_actual_deg :: "pyfloat option"
  js_pos_err_m :: "pyfloat option"
  js_ori_err_rad :: "pyfloat option"

record RoiExitReadback =
  re_outside :: "bool option"
  re_min_margin_m :: "pyfloat option"
  re_closest_face :: "string option"

section \<open>Field readers\<close>

definition optional_str :: "pyval \<Rightarrow> string option" where
  "optional_str v = (case v of PStr s \<Rightarrow> if s = [] then None else Some s | _ \<Rightarrow> None)"

definition optional_bool :: "pyval \<Rightarrow> bool option" where
  "optional_bool v = (case v of PBool b \<Rightarrow> Some b | _ \<Rightarrow> None)"

definition optional_float :: "pyval \<Rightarrow> pyfloat option" where
  "optional_float v = strict_num v"

section \<open>Endpoints\<close>

text \<open>\<^verbatim>\<open>text.rpartition(":")\<close>: what is before and after the last colon, \<open>None\<close> without one.\<close>

definition rpartition_colon :: "string \<Rightarrow> (string \<times> string) option" where
  "rpartition_colon s =
     (let r = rev s; back = dropWhile (\<lambda>c. c \<noteq> CHR '':'') r
      in case back of [] \<Rightarrow> None
         | _ # front \<Rightarrow> Some (rev front, rev (takeWhile (\<lambda>c. c \<noteq> CHR '':'') r)))"

definition parse_udp_endpoint :: "string \<Rightarrow> UdpEndpoint res" where
  "parse_udp_endpoint endpoint =
     (let pre = ''udp://'' in
      if \<not> startswith endpoint pre then Inl (ValueError (''only udp:// endpoints are supported: '' @ endpoint))
      else let rest = drop (length pre) endpoint in
        case rpartition_colon rest of
          None \<Rightarrow> Inl (ValueError (''invalid UDP endpoint: '' @ endpoint))
        | Some (h, port_text) \<Rightarrow>
            if h = [] then Inl (ValueError (''invalid UDP endpoint: '' @ endpoint))
            else res_bind (int_of_str port_text) (\<lambda>p.
              if p < 0 \<or> 65535 < p then Inl (ValueError (''UDP port out of range: '' @ endpoint))
              else Inr \<lparr>host = (if h = ''localhost'' then ''127.0.0.1'' else h), port = p\<rparr>))"

section \<open>Readbacks of one state message\<close>

definition command_source_lease_from_snapshot :: "StateSnapshot \<Rightarrow> CommandSourceLeaseReadback" where
  "command_source_lease_from_snapshot s =
     (let raw = as_dict (dget_or (payload s) ''command_source'' (PDict [])) in
      \<lparr>lr_active = truthy (dget_or raw ''active'' (PBool False)),
       lr_expired = truthy (dget_or raw ''expired'' (PBool False)),
       lr_enforce_lease = truthy (dget_or raw ''enforce_lease'' (PBool False)),
       lr_active_source_id = optional_str (dget raw ''active_source_id''),
       lr_active_session_id = optional_str (dget raw ''active_session_id''),
       lr_active_lease_token = optional_str (dget raw ''active_lease_token''),
       lr_verdict = optional_str (dget raw ''verdict''),
       lr_reason = optional_str (dget raw ''reason''),
       lr_command_requires_lease = optional_bool (dget raw ''command_requires_lease''),
       lr_command_has_lease = optional_bool (dget raw ''command_has_lease'')\<rparr>)"

definition LATCHED_STATES :: "string list" where
  "LATCHED_STATES = [''FaultLatched'', ''EmergencyLatched'']"

definition in_latched_states :: "string option \<Rightarrow> bool" where
  "in_latched_states m = (case m of None \<Rightarrow> False | Some s \<Rightarrow> s \<in> set LATCHED_STATES)"

definition fault_latch_from_snapshot :: "StateSnapshot \<Rightarrow> FaultLatchReadback" where
  "fault_latch_from_snapshot s =
     (let p = payload s;
          raw_context = dget p ''fault_context'';
          top_level_motion_state = optional_str (dget p ''motion_state'');
          top_level_latched = (optional_bool (dget p ''fault_latched'') = Some True);
          (context_latched, ms, lfr, rsn) =
            (case raw_context of
               PDict c \<Rightarrow>
                 (optional_bool (dget c ''latched'') = Some True,
                  (case optional_str (dget c ''motion_state'') of Some m \<Rightarrow> Some m
                     | None \<Rightarrow> top_level_motion_state),
                  optional_str (dget c ''latched_fault_reason''),
                  optional_str (dget c ''reason''))
             | _ \<Rightarrow> (False, top_level_motion_state, None, None))
      in \<lparr>fl_latched = (context_latched \<or> top_level_latched
                        \<or> in_latched_states ms \<or> in_latched_states top_level_motion_state),
          fl_motion_state = ms, fl_latched_fault_reason = lfr, fl_reason = rsn\<rparr>)"

text \<open>One arm's clamp; \<open>None\<close> is the loop's \<^verbatim>\<open>continue\<close>.\<close>

definition stall_of_arm :: "pydict \<Rightarrow> string \<Rightarrow> JointLimitStallReadback option" where
  "stall_of_arm p arm =
     (case dget p arm of
        PDict arm_payload \<Rightarrow>
          (case dget arm_payload ''cartesian_solve'' of
             PDict solve \<Rightarrow>
               if optional_bool (dget solve ''safety_joint_limit_clamped'') \<noteq> Some True then None
               else let joint_index = int_value (dget solve ''safety_joint_limit_limited_joint'');
                        q_actual = (case (joint_index, dget arm_payload ''q_actual_deg'') of
                            (Some i, PList joints) \<Rightarrow>
                               if 0 \<le> i \<and> i < int (length joints) then num_value (joints ! nat i) else None
                          | _ \<Rightarrow> None)
                    in Some \<lparr>js_blocked = True, js_arm = Some arm, js_joint_index = joint_index,
                         js_q_actual_deg = q_actual,
                         js_pos_err_m = optional_float (dget_or solve ''position_error_m'' (dget solve ''pos_err_m'')),
                         js_ori_err_rad = optional_float (dget_or solve ''orientation_error_rad'' (dget solve ''ori_err_rad''))\<rparr>
           | _ \<Rightarrow> None)
      | _ \<Rightarrow> None)"

definition no_stall :: JointLimitStallReadback where
  "no_stall = \<lparr>js_blocked = False, js_arm = None, js_joint_index = None, js_q_actual_deg = None,
     js_pos_err_m = None, js_ori_err_rad = None\<rparr>"

definition joint_limit_stall_from_snapshot :: "StateSnapshot \<Rightarrow> JointLimitStallReadback" where
  "joint_limit_stall_from_snapshot s =
     (case stall_of_arm (payload s) ''left'' of
        Some r \<Rightarrow> r
      | None \<Rightarrow> (case stall_of_arm (payload s) ''right'' of Some r \<Rightarrow> r | None \<Rightarrow> no_stall))"

definition roi_unknown :: RoiExitReadback where
  "roi_unknown = \<lparr>re_outside = None, re_min_margin_m = None, re_closest_face = None\<rparr>"

definition roi_exit_of_arm :: "pydict \<Rightarrow> string \<Rightarrow> RoiExitReadback" where
  "roi_exit_of_arm p arm =
     (case dget p ''roi_box'' of
        PDict roi \<Rightarrow>
          (case dget roi arm of
             PDict arm_block \<Rightarrow>
               (case dget arm_block ''measured'' of
                  PDict measured \<Rightarrow>
                    if dget roi ''enabled'' = PBool True \<and> dget measured ''checked'' = PBool True then
                      (case dget measured ''violated'' of
                         PBool violated \<Rightarrow>
                           \<lparr>re_outside = Some violated,
                            re_min_margin_m = optional_float (dget measured ''min_margin_m''),
                            re_closest_face = (case dget measured ''closest_face'' of PStr f \<Rightarrow> Some f | _ \<Rightarrow> None)\<rparr>
                       | _ \<Rightarrow> roi_unknown)
                    else roi_unknown
                | _ \<Rightarrow> roi_unknown)
           | _ \<Rightarrow> roi_unknown)
      | _ \<Rightarrow> roi_unknown)"

definition roi_exit_from_snapshot :: "StateSnapshot \<Rightarrow> (string \<times> RoiExitReadback) list" where
  "roi_exit_from_snapshot s =
     [(''left'', roi_exit_of_arm (payload s) ''left''), (''right'', roi_exit_of_arm (payload s) ''right'')]"

section \<open>The region-of-interest tracker\<close>

record RoiExitTracker =
  rt_outside :: bool
  rt_streak :: nat

definition CONFIRM_SAMPLES :: nat where "CONFIRM_SAMPLES = 2"

definition roi_tracker_init :: RoiExitTracker where
  "roi_tracker_init = \<lparr>rt_outside = False, rt_streak = 0\<rparr>"

definition roi_update :: "RoiExitTracker \<Rightarrow> RoiExitReadback \<Rightarrow> RoiExitTracker \<times> bool" where
  "roi_update t readback =
     (case re_outside readback of
        None \<Rightarrow> (t, False)
      | Some out \<Rightarrow>
          if \<not> out then (t\<lparr>rt_outside := False, rt_streak := 0\<rparr>, False)
          else if rt_outside t then (t, False)
          else let streak = rt_streak t + 1 in
            if streak < CONFIRM_SAMPLES then (t\<lparr>rt_streak := streak\<rparr>, False)
            else (t\<lparr>rt_outside := True, rt_streak := 0\<rparr>, True))"

definition roi_reset :: "RoiExitTracker \<Rightarrow> RoiExitTracker" where
  "roi_reset t = t\<lparr>rt_outside := False, rt_streak := 0\<rparr>"

section \<open>The joint-limit stall tracker\<close>

record JointLimitStallTracker =
  jt_hold_sec :: pyfloat
  jt_converged_pos_err_m :: pyfloat
  jt_converged_ori_err_rad :: pyfloat
  jt_converged_hold_sec :: pyfloat
  jt_since :: "pyfloat option"
  jt_key :: "(string option \<times> int option) option"
  jt_converged_since :: "pyfloat option"

definition stall_tracker_init :: "pyfloat \<Rightarrow> pyfloat \<Rightarrow> pyfloat \<Rightarrow> pyfloat \<Rightarrow> JointLimitStallTracker" where
  "stall_tracker_init hold pos_err ori_err conv_hold =
     \<lparr>jt_hold_sec = hold, jt_converged_pos_err_m = pos_err, jt_converged_ori_err_rad = ori_err,
      jt_converged_hold_sec = conv_hold, jt_since = None, jt_key = None, jt_converged_since = None\<rparr>"

definition stall_converged :: "JointLimitStallTracker \<Rightarrow> JointLimitStallReadback \<Rightarrow> bool" where
  "stall_converged t r =
     (case (js_pos_err_m r, js_ori_err_rad r) of
        (Some p, Some q) \<Rightarrow> p < jt_converged_pos_err_m t \<and> q < jt_converged_ori_err_rad t
      | _ \<Rightarrow> False)"

definition stall_enabled :: "JointLimitStallTracker \<Rightarrow> bool" where
  "stall_enabled t = (0 < jt_hold_sec t)"

definition stall_held_for :: "JointLimitStallTracker \<Rightarrow> pyfloat \<Rightarrow> pyfloat" where
  "stall_held_for t now = (case jt_since t of None \<Rightarrow> 0 | Some s \<Rightarrow> now - s)"

definition stall_reset :: "JointLimitStallTracker \<Rightarrow> JointLimitStallTracker" where
  "stall_reset t = t\<lparr>jt_since := None, jt_key := None, jt_converged_since := None\<rparr>"

definition stall_key :: "JointLimitStallReadback \<Rightarrow> string option \<times> int option" where
  "stall_key r = (js_arm r, js_joint_index r)"

text \<open>The last part of \<^verbatim>\<open>update\<close>: report once the hold time has passed, and restart the episode.\<close>

definition stall_report :: "JointLimitStallTracker \<Rightarrow> pyfloat \<Rightarrow> pyfloat \<Rightarrow> JointLimitStallTracker \<times> pyfloat option" where
  "stall_report t since now =
     (let held = now - since in
      if held < jt_hold_sec t then (t, None) else (stall_reset t, Some held))"

definition stall_update ::
  "JointLimitStallTracker \<Rightarrow> JointLimitStallReadback \<Rightarrow> pyfloat \<Rightarrow> JointLimitStallTracker \<times> pyfloat option" where
  "stall_update t r now =
     (if \<not> stall_enabled t \<or> \<not> js_blocked r then (stall_reset t, None)
      else if jt_key t \<noteq> Some (stall_key r) then
        (t\<lparr>jt_key := Some (stall_key r), jt_since := Some now, jt_converged_since := None\<rparr>, None)
      else case jt_since t of
        None \<Rightarrow> (t\<lparr>jt_since := Some now, jt_converged_since := None\<rparr>, None)
      | Some since \<Rightarrow>
          if stall_converged t r then
            (case jt_converged_since t of
               None \<Rightarrow> stall_report (t\<lparr>jt_converged_since := Some now\<rparr>) since now
             | Some cs \<Rightarrow>
                 if jt_converged_hold_sec t \<le> now - cs
                 then (t\<lparr>jt_since := Some now, jt_converged_since := None\<rparr>, None)
                 else stall_report t since now)
          else stall_report (t\<lparr>jt_converged_since := None\<rparr>) since now)"

section \<open>Waiting for a lease\<close>

text \<open>
  \<^verbatim>\<open>wait_for_active_lease\<close> reads the clock once for the deadline and once per iteration, and the
  latest snapshot once per iteration. The environment is two functions of the iteration number:
  \<open>latest i\<close> is the snapshot the i-th iteration sees and \<open>clock i\<close> the time it reads after that.
  Not returning is \<open>None\<close>.
\<close>

definition opt_str :: "string option \<Rightarrow> string" where
  "opt_str v = (case v of None \<Rightarrow> ''None'' | Some s \<Rightarrow> s)"

definition bool_str :: "bool \<Rightarrow> string" where
  "bool_str b = (if b then ''True'' else ''False'')"

definition lease_timeout_message :: "string \<Rightarrow> string \<Rightarrow> CommandSourceLeaseReadback option \<Rightarrow> string" where
  "lease_timeout_message source_id session_id last_readback =
     (case last_readback of
        None \<Rightarrow> ''command source lease readback timed out: '' @
          ''no state command_source observed for source_id='' @ source_id @ '' session_id='' @ session_id
      | Some r \<Rightarrow> ''command source lease readback timed out: '' @
          ''wanted source_id='' @ source_id @ '' session_id='' @ session_id @ '', '' @
          ''last_active='' @ bool_str (lr_active r) @ '' expired='' @ bool_str (lr_expired r) @ '' '' @
          ''active_source_id='' @ opt_str (lr_active_source_id r) @ '' '' @
          ''active_session_id='' @ opt_str (lr_active_session_id r) @ '' '' @
          ''verdict='' @ opt_str (lr_verdict r) @ '' reason='' @ opt_str (lr_reason r))"

partial_function (option) lease_wait_loop ::
  "string \<Rightarrow> string \<Rightarrow> string option \<Rightarrow> pyfloat \<Rightarrow> (nat \<Rightarrow> StateSnapshot option) \<Rightarrow> (nat \<Rightarrow> pyfloat)
   \<Rightarrow> nat \<Rightarrow> CommandSourceLeaseReadback option \<Rightarrow> CommandSourceLeaseReadback res option" where
  "lease_wait_loop source_id session_id lease_token deadline latest clock i last_readback =
     (let readback = (case latest i of None \<Rightarrow> last_readback
                      | Some s \<Rightarrow> Some (command_source_lease_from_snapshot s))
      in if latest i \<noteq> None \<and> lease_matches (the readback) source_id session_id lease_token
         then Some (Inr (the readback))
         else if deadline \<le> clock i
         then Some (Inl (TimeoutError (lease_timeout_message source_id session_id readback)))
         else lease_wait_loop source_id session_id lease_token deadline latest clock (Suc i) readback)"

definition wait_for_active_lease ::
  "string \<Rightarrow> string \<Rightarrow> string option \<Rightarrow> pyfloat \<Rightarrow> pyfloat \<Rightarrow> (nat \<Rightarrow> StateSnapshot option) \<Rightarrow> (nat \<Rightarrow> pyfloat)
   \<Rightarrow> CommandSourceLeaseReadback res option" where
  "wait_for_active_lease source_id session_id lease_token timeout_sec start_time latest clock =
     lease_wait_loop source_id session_id lease_token (start_time + pymax timeout_sec 0) latest clock 0 None"


section \<open>Endpoints: correctness\<close>

lemma rpartition_colon_last: "CHR '':'' \<notin> set t \<Longrightarrow> rpartition_colon (h @ CHR '':'' # t) = Some (h, t)"
proof -
  assume t: "CHR '':'' \<notin> set t"
  then have "takeWhile (\<lambda>c. c \<noteq> CHR '':'') (rev t @ CHR '':'' # rev h) = rev t"
    by (subst takeWhile_append2) auto
  moreover from t have "dropWhile (\<lambda>c. c \<noteq> CHR '':'') (rev t @ CHR '':'' # rev h) = CHR '':'' # rev h"
    by (subst dropWhile_append2) auto
  ultimately show ?thesis by (simp add: rpartition_colon_def)
qed

lemma nat_str_no_colon: "CHR '':'' \<notin> set (nat_str n)"
  using nat_str_digits [of n] digit_not_sign by (auto simp: list_all_iff)

lemma parse_endpoint_text:
  assumes "h \<noteq> []" and "p \<le> 65535"
  shows "parse_udp_endpoint (''udp://'' @ h @ CHR '':'' # nat_str p)
         = Inr \<lparr>host = (if h = ''localhost'' then ''127.0.0.1'' else h), port = int p\<rparr>"
  using assms
  by (simp add: parse_udp_endpoint_def startswith_def Let_def rpartition_colon_last nat_str_no_colon
      int_of_str_nat_str)

lemma parse_endpoint_in_range:
  "parse_udp_endpoint e = Inr u \<Longrightarrow> host u \<noteq> [] \<and> host u \<noteq> ''localhost'' \<and> 0 \<le> port u \<and> port u \<le> 65535"
  by (auto simp: parse_udp_endpoint_def Let_def res_bind_Inr_iff split: if_splits option.splits prod.splits)

section \<open>The region-of-interest tracker: correctness\<close>

text \<open>
  The reference: the number of outside readings since the last inside reading, where unknown
  readings do not count either way. The arm is confirmed outside when that number reaches two.
\<close>

fun outside_run :: "bool option list \<Rightarrow> nat" where
  "outside_run [] = 0"
| "outside_run (None # rs) = outside_run rs"
| "outside_run (Some False # rs) = 0"
| "outside_run (Some True # rs) = Suc (outside_run rs)"

definition roi_inv :: "RoiExitReadback list \<Rightarrow> RoiExitTracker \<Rightarrow> bool" where
  "roi_inv h t =
     (let n = outside_run (rev (map re_outside h))
      in rt_outside t = (2 \<le> n) \<and> rt_streak t = (if 2 \<le> n then 0 else n))"

lemma roi_inv_step: "roi_inv h t \<Longrightarrow> roi_inv (h @ [r]) (fst (roi_update t r))"
  by (cases "re_outside r")
    (auto simp: roi_inv_def roi_update_def CONFIRM_SAMPLES_def Let_def split: if_splits bool.splits)

interpretation roi: history_machine roi_update roi_tracker_init roi_inv
  by unfold_locales (simp_all add: roi_inv_step, simp add: roi_inv_def roi_tracker_init_def)

lemma roi_update_fires:
  "roi_inv h t \<Longrightarrow> snd (roi_update t r) \<longleftrightarrow>
     re_outside r = Some True \<and> outside_run (rev (map re_outside h)) = 1"
  by (cases "re_outside r") (auto simp: roi_inv_def roi_update_def CONFIRM_SAMPLES_def Let_def split: if_splits)

section \<open>The stall tracker: correctness\<close>

type_synonym stall_event = "JointLimitStallReadback \<times> pyfloat"

definition stall_step :: "JointLimitStallTracker \<Rightarrow> stall_event \<Rightarrow> JointLimitStallTracker \<times> pyfloat option" where
  "stall_step t e = stall_update t (fst e) (snd e)"

text \<open>\<open>blocked_on k\<close>: the clamp is active on joint \<open>k\<close> in this readback.\<close>

definition blocked_on :: "string option \<times> int option \<Rightarrow> stall_event \<Rightarrow> bool" where
  "blocked_on k e = (js_blocked (fst e) \<and> stall_key (fst e) = k)"

text \<open>The clock was started by an event after which the clamp has stayed on the same joint.\<close>

definition stall_inv :: "pyfloat \<Rightarrow> stall_event list \<Rightarrow> JointLimitStallTracker \<Rightarrow> bool" where
  "stall_inv hold h t =
     (jt_hold_sec t = hold \<and>
      (\<forall>since k. jt_since t = Some since \<and> jt_key t = Some k \<longrightarrow>
         (\<exists>pre e es. h = pre @ e # es \<and> snd e = since \<and> (\<forall>x \<in> set (e # es). blocked_on k x))))"

lemma stall_report_simps:
  "fst (stall_report t since now) = (if now - since < jt_hold_sec t then t else stall_reset t)"
  "snd (stall_report t since now) = (if now - since < jt_hold_sec t then None else Some (now - since))"
  by (simp_all add: stall_report_def Let_def)

lemma stall_invI_restart:
  assumes "jt_hold_sec t = hold" and "jt_since t = Some (snd e)" and "jt_key t = Some (stall_key (fst e))"
    and "js_blocked (fst e)"
  shows "stall_inv hold (h @ [e]) t"
proof -
  have "\<exists>pre x es. h @ [e] = pre @ x # es \<and> snd x = snd e \<and> (\<forall>y \<in> set (x # es). blocked_on (stall_key (fst e)) y)"
    using assms(4) by (intro exI [of _ h] exI [of _ e] exI [of _ "[]"]) (simp add: blocked_on_def)
  with assms(1-3) show ?thesis unfolding stall_inv_def by (metis option.inject)
qed

lemma stall_invI_extend:
  assumes "stall_inv hold h t" and "jt_key t = Some (stall_key (fst e))" and "js_blocked (fst e)"
    and "jt_hold_sec t' = hold" and "jt_since t' = jt_since t" and "jt_key t' = jt_key t"
  shows "stall_inv hold (h @ [e]) t'"
proof -
  have "\<exists>pre x es. h @ [e] = pre @ x # es \<and> snd x = since \<and> (\<forall>y \<in> set (x # es). blocked_on k y)"
    if "jt_since t' = Some since" and "jt_key t' = Some k" for since k
  proof -
    from that assms obtain pre x es where "h = pre @ x # es" "snd x = since"
      "\<forall>y \<in> set (x # es). blocked_on k y"
      unfolding stall_inv_def by metis
    moreover from that assms have "blocked_on k e" by (simp add: blocked_on_def)
    ultimately show ?thesis
      by (intro exI [of _ pre] exI [of _ x] exI [of _ "es @ [e]"]) auto
  qed
  with assms(4) show ?thesis by (simp add: stall_inv_def)
qed

lemma stall_inv_none: "jt_hold_sec t = hold \<Longrightarrow> jt_since t = None \<Longrightarrow> stall_inv hold h t"
  by (simp add: stall_inv_def)

lemma stall_inv_step:
  assumes "stall_inv hold h t"
  shows "stall_inv hold (h @ [e]) (fst (stall_step t e))"
proof -
  have hold: "hold = jt_hold_sec t" using assms by (simp add: stall_inv_def)
  have report: "stall_inv (jt_hold_sec t) (h @ [e]) (fst (stall_report t' since (snd e)))"
    if "jt_key t = Some (stall_key (fst e))" "js_blocked (fst e)"
      "jt_since t' = jt_since t" "jt_key t' = jt_key t" "jt_hold_sec t' = jt_hold_sec t" for t' since
  proof -
    have "stall_inv (jt_hold_sec t) (h @ [e]) t'"
      by (rule stall_invI_extend [OF assms [unfolded hold]]) (use that in simp_all)
    with that(5) show ?thesis
      by (auto simp: stall_report_simps stall_reset_def intro: stall_inv_none)
  qed
  show ?thesis unfolding hold
    by (auto simp: stall_step_def stall_update_def stall_reset_def
        intro: stall_inv_none stall_invI_restart report split: option.splits)
qed

lemma stall_step_report:
  assumes "snd (stall_step t e) = Some held"
  shows "\<exists>since. jt_since t = Some since \<and> jt_key t = Some (stall_key (fst e)) \<and> js_blocked (fst e)
           \<and> held = snd e - since \<and> \<not> held < jt_hold_sec t \<and> stall_enabled t"
  using assms
  by (auto simp: stall_step_def stall_update_def stall_report_simps split: if_splits option.splits)

lemma stall_step_report_restarts:
  "snd (stall_step t e) = Some held \<Longrightarrow>
     jt_key (fst (stall_step t e)) = None \<and> jt_hold_sec (fst (stall_step t e)) = jt_hold_sec t"
  by (auto simp: stall_step_def stall_update_def stall_report_simps stall_reset_def
      split: if_splits option.splits)

lemma stall_machine: "history_machine stall_step (stall_tracker_init hold p q c) (stall_inv hold)"
  by unfold_locales (simp_all add: stall_inv_step, simp add: stall_inv_def stall_tracker_init_def)

interpretation stall: history_machine stall_step "stall_tracker_init hold p q c" "stall_inv hold"
  for hold p q c
  by (rule stall_machine)

section \<open>Waiting for a lease: correctness\<close>

lemma lease_wait_loop_returns:
  assumes "deadline \<le> clock n" and "i \<le> n"
  shows "\<exists>r. lease_wait_loop src ses tok deadline latest clock i lst = Some r"
  using assms(2)
proof (induction "n - i" arbitrary: i lst)
  case 0
  then show ?case using assms(1) by (subst lease_wait_loop.simps) (simp add: Let_def)
next
  case (Suc m)
  then have IH: "\<exists>r. lease_wait_loop src ses tok deadline latest clock (Suc i) l = Some r" for l
    by (intro Suc.hyps(1)) auto
  show ?case by (subst lease_wait_loop.simps) (simp add: Let_def IH)
qed

lemma lease_wait_loop_sound:
  assumes ret: "lease_wait_loop src ses tok deadline latest clock i lst = Some (Inr r)"
  shows "lease_matches r src ses tok \<and>
    (\<exists>j s. i \<le> j \<and> latest j = Some s \<and> r = command_source_lease_from_snapshot s)"
proof -
  let ?P = "\<lambda>src ses tok (deadline :: pyfloat) latest (clock :: nat \<Rightarrow> pyfloat) i
      (lst :: CommandSourceLeaseReadback option) (x :: CommandSourceLeaseReadback res). \<forall>r. x = Inr r \<longrightarrow> lease_matches r src ses tok \<and>
      (\<exists>j s. i \<le> (j::nat) \<and> latest j = Some s \<and> r = command_source_lease_from_snapshot s)"
  have "?P src ses tok deadline latest clock i lst (Inr r)"
  proof (rule lease_wait_loop.raw_induct [where P = ?P, OF _ ret])
    fix f src ses tok deadline latest clock i lst x
    assume IH: "\<And>src ses tok deadline latest clock i lst x.
        f src ses tok deadline latest clock i lst = Some x \<Longrightarrow> ?P src ses tok deadline latest clock i lst x"
      and eq: "(let readback = case latest i of None \<Rightarrow> lst
                      | Some s \<Rightarrow> Some (command_source_lease_from_snapshot s)
      in if latest i \<noteq> None \<and> lease_matches (the readback) src ses tok then Some (Inr (the readback))
         else if deadline \<le> clock i
         then Some (Inl (TimeoutError (lease_timeout_message src ses readback)))
         else f src ses tok deadline latest clock (Suc i) readback) = Some x"
    then show "?P src ses tok deadline latest clock i lst x"
      by (fastforce simp: Let_def split: if_splits option.splits dest: Suc_leD)
  qed
  then show ?thesis by blast
qed

section \<open>Properties\<close>

text \<open>Endpoint round trip: a non-empty host and a port of at most 65535 printed as
  \<^verbatim>\<open>udp://host:port\<close> parse back to that host and port; the host may itself contain colons, and
  \<^verbatim>\<open>localhost\<close> becomes the loopback address.\<close>

theorem parse_udp_endpoint_roundtrip:
  assumes "h \<noteq> []" and "p \<le> 65535"
  shows "parse_udp_endpoint (''udp://'' @ h @ '':'' @ nat_str p)
         = Inr \<lparr>host = (if h = ''localhost'' then ''127.0.0.1'' else h), port = int p\<rparr>"
  using parse_endpoint_text [OF assms] by simp

theorem parse_udp_endpoint_roundtrip_witness:
  "parse_udp_endpoint (''udp://'' @ ''localhost'' @ '':'' @ nat_str 50010)
   = Inr \<lparr>host = ''127.0.0.1'', port = 50010\<rparr>"
  using parse_udp_endpoint_roundtrip [of "''localhost''" 50010] by simp

text \<open>Every endpoint the parser accepts has a non-empty host that is not the name
  \<^verbatim>\<open>localhost\<close>, and a port in the 16-bit range.\<close>

theorem parse_udp_endpoint_range:
  assumes "parse_udp_endpoint e = Inr u"
  shows "host u \<noteq> [] \<and> host u \<noteq> ''localhost'' \<and> 0 \<le> port u \<and> port u \<le> 65535"
  by (rule parse_endpoint_in_range [OF assms])

theorem parse_udp_endpoint_range_witness:
  "parse_udp_endpoint ''udp://0.0.0.0:7'' = Inr \<lparr>host = ''0.0.0.0'', port = 7\<rparr>
   \<and> host \<lparr>host = ''0.0.0.0'', port = 7\<rparr> \<noteq> ''localhost''"
proof -
  have "parse_udp_endpoint ''udp://0.0.0.0:7'' = Inr \<lparr>host = ''0.0.0.0'', port = 7\<rparr>"
    by code_simp
  then show ?thesis using parse_udp_endpoint_range by blast
qed

text \<open>The region-of-interest tracker is an edge detector with a two-sample debounce: after any
  sequence of readbacks, the next one fires exactly when it reads outside and exactly one outside
  reading was seen since the last inside reading, unknown readings being ignored. In particular it
  fires once per excursion.\<close>

theorem roi_tracker_confirms_exit:
  "snd (roi_update (state_after roi_update roi_tracker_init h) r) \<longleftrightarrow>
     re_outside r = Some True \<and> outside_run (rev (map re_outside h)) = 1"
  by (rule roi_update_fires [OF roi.hinv_run])

text \<open>A stall report is sound: if the n-th call reports a stall of length \<open>held\<close>, then the
  clamp has been active on one and the same joint in every readback from some earlier call \<open>i\<close> to
  this one, \<open>held\<close> is the time between the two calls, and it is not below the configured hold.\<close>

theorem stall_report_sound:
  assumes "n < length es"
    and "outputs stall_step (stall_tracker_init hold p q c) es ! n = Some held"
  shows "\<exists>i k. i < n \<and> held = snd (es ! n) - snd (es ! i) \<and> \<not> held < hold
           \<and> (\<forall>j. i \<le> j \<and> j \<le> n \<longrightarrow> blocked_on k (es ! j))"
proof -
  let ?s = "state_after stall_step (stall_tracker_init hold p q c) (take n es)"
  from stall.hinv_before_output [OF assms(1)] assms(2)
  have inv: "stall_inv hold (take n es) ?s" and out: "snd (stall_step ?s (es ! n)) = Some held"
    by metis+
  from stall_step_report [OF out] obtain since where
    s: "jt_since ?s = Some since" "jt_key ?s = Some (stall_key (fst (es ! n)))" "js_blocked (fst (es ! n))"
      "held = snd (es ! n) - since" "\<not> held < jt_hold_sec ?s"
    by blast
  with inv obtain pre e fs where h: "take n es = pre @ e # fs" "snd e = since"
      "\<forall>x \<in> set (e # fs). blocked_on (stall_key (fst (es ! n))) x" and hold: "jt_hold_sec ?s = hold"
    unfolding stall_inv_def by metis
  note split = take_split_nth [OF h(1) assms(1)]
  have "blocked_on (stall_key (fst (es ! n))) (es ! j)" if "length pre \<le> j" "j \<le> n" for j
  proof (cases "j = n")
    case True
    with s(3) show ?thesis by (simp add: blocked_on_def)
  next
    case False
    with that h(3) split(3) [of j] show ?thesis by auto
  qed
  then show ?thesis using split(1,2) h(2) s(4,5) hold
    by (intro exI [of _ "length pre"] exI [of _ "stall_key (fst (es ! n))"]) simp
qed

theorem stall_report_sound_witness:
  "let es = [(no_stall\<lparr>js_blocked := True\<rparr>, Fin 0), (no_stall\<lparr>js_blocked := True\<rparr>, Fin 2),
             (no_stall\<lparr>js_blocked := True\<rparr>, Fin 5)]
   in \<exists>i k. i < 2 \<and> Fin 5 = snd (es ! 2) - snd (es ! i) \<and> \<not> Fin 5 < Fin 4
        \<and> (\<forall>j. i \<le> j \<and> j \<le> 2 \<longrightarrow> blocked_on k (es ! j))"
  unfolding Let_def
  by (rule stall_report_sound [where p = "Fin 0" and q = "Fin 0" and c = "Fin 0"])
    (simp_all add: stall_step_def stall_update_def stall_enabled_def stall_tracker_init_def no_stall_def
      stall_key_def stall_converged_def stall_report_simps numeral_2_eq_2)

text \<open>The tracker reports again without the clamp ever clearing: after a report, two further
  readbacks clamped on one joint whose times are at least the hold apart make it report the second
  time. The method's comment promises a repeat only after the clamp clears.\<close>

theorem stall_reports_again:
  assumes "snd (stall_step t e0) = Some held"
    and "blocked_on k e1" and "blocked_on k e2" and "\<not> snd e2 - snd e1 < jt_hold_sec t"
  shows "snd (stall_step (fst (stall_step (fst (stall_step t e0)) e1)) e2) = Some (snd e2 - snd e1)"
proof -
  from stall_step_report [OF assms(1)] have en: "stall_enabled t" by blast
  let ?t0 = "fst (stall_step t e0)"
  have t0: "jt_key ?t0 = None" "jt_hold_sec ?t0 = jt_hold_sec t" "stall_enabled ?t0"
    using stall_step_report_restarts [OF assms(1)] en by (simp_all add: stall_enabled_def)
  let ?t1 = "?t0\<lparr>jt_key := Some k, jt_since := Some (snd e1), jt_converged_since := None\<rparr>"
  have t1: "fst (stall_step ?t0 e1) = ?t1"
    using t0 assms(2) by (simp add: stall_step_def stall_update_def blocked_on_def)
  show ?thesis
    unfolding t1 using t0 assms(3,4)
    by (simp add: stall_step_def stall_update_def blocked_on_def stall_enabled_def stall_report_simps)
qed

definition clamped_readback :: JointLimitStallReadback where
  "clamped_readback = no_stall\<lparr>js_blocked := True, js_arm := Some ''left'', js_joint_index := Some 2\<rparr>"

theorem stall_reports_again_witness:
  "let t = \<lparr>jt_hold_sec = Fin 4, jt_converged_pos_err_m = Fin (1/1000), jt_converged_ori_err_rad = Fin (1/100),
            jt_converged_hold_sec = Fin (1/2), jt_since = Some (Fin 0), jt_key = Some (Some ''left'', Some 2),
            jt_converged_since = None\<rparr>
   in snd (stall_step (fst (stall_step (fst (stall_step t (clamped_readback, Fin 4))) (clamped_readback, Fin 5)))
            (clamped_readback, Fin 9)) = Some (Fin 4)"
  unfolding Let_def
  by (subst stall_reports_again [where k = "(Some ''left'', Some 2)" and held = "Fin 4"])
    (simp_all add: stall_step_def stall_update_def stall_enabled_def clamped_readback_def no_stall_def
      stall_key_def blocked_on_def stall_converged_def stall_report_simps)



end
