(* ===== verification/CommandClient.thy ===== *)
theory CommandClient
  imports StateClient
begin

text \<open>
  The command side of \<^verbatim>\<open>policy_runner/servo_command_client.py\<close>: command intents and their
  constructors, the UDP packet built from an intent, and the client that numbers packets and keeps
  the lease token. The socket's \<^verbatim>\<open>sendto\<close> and the clock are arguments of the operations.
\<close>

section \<open>Intents\<close>

definition MOTION_MODES :: "string list" where
  "MOTION_MODES = [''ArmMotion'', ''JointTarget'', ''TcpPoseTarget'', ''TcpLinearMove'']"

record CommandIntent =
  ci_mode :: string
  ci_timeout_sec :: pyfloat
  ci_left :: "pydict option"
  ci_right :: "pydict option"
  ci_coupled_timeout :: bool
  ci_tcp_target_profile :: "string option"
  ci_metadata :: "pydict option"

definition arm_mode :: "pydict option \<Rightarrow> string option" where
  "arm_mode v =
     (case v of
        None \<Rightarrow> None
      | Some d \<Rightarrow> if d = [] then None
          else (case dget d ''mode'' of PNone \<Rightarrow> None | m \<Rightarrow> Some (py_str m)))"

definition in_motion_modes :: "string option \<Rightarrow> bool" where
  "in_motion_modes m = (case m of None \<Rightarrow> False | Some s \<Rightarrow> s \<in> set MOTION_MODES)"

definition is_motion :: "CommandIntent \<Rightarrow> bool" where
  "is_motion i =
     (if ci_mode i \<in> set MOTION_MODES then True
      else in_motion_modes (arm_mode (ci_left i)) \<or> in_motion_modes (arm_mode (ci_right i)))"

text \<open>The data class's defaults with the given mode, timeout and arms.\<close>

definition intent_of :: "string \<Rightarrow> pyfloat \<Rightarrow> pydict option \<Rightarrow> pydict option \<Rightarrow> CommandIntent" where
  "intent_of mode timeout_sec left right =
     \<lparr>ci_mode = mode, ci_timeout_sec = timeout_sec, ci_left = left, ci_right = right,
      ci_coupled_timeout = True, ci_tcp_target_profile = None, ci_metadata = None\<rparr>"

definition intent_hold :: "pyfloat \<Rightarrow> CommandIntent" where
  "intent_hold timeout_sec = intent_of ''Hold'' timeout_sec (Some []) (Some [])"

definition gripper_arm :: "pyfloat option \<Rightarrow> pydict" where
  "gripper_arm v =
     (let p = [(''mode'', PStr ''Hold'')]
      in case v of None \<Rightarrow> p | Some x \<Rightarrow> dset p ''gripper_target'' (PFloat x))"

definition intent_gripper_target :: "pyfloat option \<Rightarrow> pyfloat option \<Rightarrow> pyfloat \<Rightarrow> CommandIntent" where
  "intent_gripper_target left right timeout_sec =
     intent_of ''Hold'' timeout_sec (Some (gripper_arm left)) (Some (gripper_arm right))"

definition intent_arm_motion :: "pyfloat \<Rightarrow> CommandIntent" where
  "intent_arm_motion timeout_sec = intent_of ''ArmMotion'' timeout_sec None None"

definition intent_acquire_lease :: "pyfloat \<Rightarrow> CommandIntent" where
  "intent_acquire_lease timeout_sec = intent_of ''AcquireLease'' timeout_sec None None"

definition intent_release_lease :: "pyfloat \<Rightarrow> CommandIntent" where
  "intent_release_lease timeout_sec = intent_of ''ReleaseLease'' timeout_sec None None"

definition intent_disarm_motion :: "pyfloat \<Rightarrow> CommandIntent" where
  "intent_disarm_motion timeout_sec = intent_of ''DisarmMotion'' timeout_sec None None"

definition intent_emergency_stop :: "pyfloat \<Rightarrow> CommandIntent" where
  "intent_emergency_stop timeout_sec = intent_of ''EmergencyStop'' timeout_sec None None"

definition intent_reset_fault :: "pyfloat \<Rightarrow> CommandIntent" where
  "intent_reset_fault timeout_sec = intent_of ''ResetFault'' timeout_sec None None"

definition joint_arm :: "string \<Rightarrow> string \<Rightarrow> pyfloat list option \<Rightarrow> string option \<Rightarrow> pydict res" where
  "joint_arm mode fieldname vals profile =
     (case vals of
        None \<Rightarrow> Inr [(''mode'', PStr ''Hold'')]
      | Some vs \<Rightarrow>
          if length vs \<noteq> 6 then Inl (ValueError (fieldname @ '' must contain 6 values''))
          else let p = dset [(''mode'', PStr mode)] fieldname (PList (map PFloat vs))
               in Inr (case profile of None \<Rightarrow> p | Some s \<Rightarrow> dset p ''joint_target_profile'' (PStr s)))"

definition intent_joint_target ::
  "pyfloat list option \<Rightarrow> pyfloat list option \<Rightarrow> pyfloat \<Rightarrow> string option \<Rightarrow> CommandIntent res" where
  "intent_joint_target left right timeout_sec profile =
     res_bind (joint_arm ''JointTarget'' ''q_target_deg'' left profile) (\<lambda>l.
     res_bind (joint_arm ''JointTarget'' ''q_target_deg'' right profile) (\<lambda>r.
     Inr (intent_of ''JointTarget'' timeout_sec (Some l) (Some r))))"

definition intent_init_motion :: "pyfloat list option \<Rightarrow> pyfloat list option \<Rightarrow> pyfloat \<Rightarrow> CommandIntent res" where
  "intent_init_motion left right timeout_sec =
     intent_joint_target left right timeout_sec (Some ''init_motion'')"

section \<open>The client\<close>

record ServoCommandClient =
  sc_timeout_sec :: pyfloat
  sc_source_id :: string
  sc_session_id :: string
  sc_lease_token :: "string option"
  sc_seq :: int

text \<open>\<^verbatim>\<open>next_seq\<close>, \<^verbatim>\<open>build_packet\<close>: \<open>now_ns\<close> is \<^verbatim>\<open>time.monotonic_ns()\<close>.\<close>

definition next_seq :: "ServoCommandClient \<Rightarrow> int" where
  "next_seq c = sc_seq c + 1"

definition opt_set :: "pydict \<Rightarrow> string \<Rightarrow> pyval option \<Rightarrow> pydict" where
  "opt_set d k v = (case v of None \<Rightarrow> d | Some x \<Rightarrow> dset d k x)"

definition wants_send_stamp :: "CommandIntent \<Rightarrow> bool" where
  "wants_send_stamp i = (ci_mode i = ''TcpPoseTarget''
     \<or> arm_mode (ci_left i) = Some ''TcpPoseTarget'' \<or> arm_mode (ci_right i) = Some ''TcpPoseTarget'')"

text \<open>The fields that come from the client and the intent, before the metadata is merged in.\<close>

definition packet_base :: "ServoCommandClient \<Rightarrow> CommandIntent \<Rightarrow> int \<Rightarrow> pydict" where
  "packet_base c i seq =
     (let p0 = [(''seq'', PInt seq),
                (''mode'', PStr (ci_mode i)),
                (''timeout_sec'', PFloat (if ci_timeout_sec i \<noteq> Fin 0 then ci_timeout_sec i else sc_timeout_sec c)),
                (''coupled_timeout'', PBool (ci_coupled_timeout i)),
                (''source_id'', PStr (sc_source_id c)),
                (''session_id'', PStr (sc_session_id c))];
          p1 = opt_set p0 ''left'' (map_option PDict (ci_left i));
          p2 = opt_set p1 ''right'' (map_option PDict (ci_right i))
      in opt_set p2 ''tcp_target_profile'' (map_option PStr (ci_tcp_target_profile i)))"

definition build_packet :: "ServoCommandClient \<Rightarrow> CommandIntent \<Rightarrow> int \<Rightarrow> int \<Rightarrow> pydict" where
  "build_packet c i seq now_ns =
     (let p3 = packet_base c i seq;
          p4 = (case ci_metadata i of None \<Rightarrow> p3 | Some m \<Rightarrow> dict_update p3 m);
          p5 = (if wants_send_stamp i \<and> map_of p4 ''client_send_monotonic_ns'' = None
                then dset p4 ''client_send_monotonic_ns'' (PInt now_ns) else p4)
      in case sc_lease_token c of
           None \<Rightarrow> p5
         | Some tok \<Rightarrow> if tok = [] then p5 else dset p5 ''lease_token'' (PStr tok))"

text \<open>\<open>sendto\<close> is the outcome of the socket call: an \<^verbatim>\<open>OSError\<close> propagates, but the number is used up.
  The second component is the packet that left, if one did.\<close>

definition send :: "ServoCommandClient \<Rightarrow> CommandIntent \<Rightarrow> int \<Rightarrow> (pydict \<Rightarrow> unit res) \<Rightarrow>
    ServoCommandClient \<times> pydict option \<times> int res" where
  "send c i now_ns sendto =
     (let c' = c\<lparr>sc_seq := sc_seq c + 1\<rparr>;
          packet = build_packet c' i (sc_seq c') now_ns
      in case sendto packet of
           Inl e \<Rightarrow> (c', None, Inl e)
         | Inr _ \<Rightarrow> (c', Some packet, Inr (sc_seq c')))"

record LeaseAcquireResult =
  la_seq :: int
  la_readback :: "CommandSourceLeaseReadback option"

definition la_lease_token :: "LeaseAcquireResult \<Rightarrow> string option" where
  "la_lease_token r = (case la_readback r of None \<Rightarrow> None | Some l \<Rightarrow> lr_active_lease_token l)"

text \<open>\<open>wait\<close> is the state stream's \<^verbatim>\<open>wait_for_active_lease\<close> for a source and a session; its result
  \<open>None\<close> is a wait that does not return.\<close>

definition acquire_lease ::
  "ServoCommandClient \<Rightarrow> int \<Rightarrow> (pydict \<Rightarrow> unit res)
   \<Rightarrow> (string \<Rightarrow> string \<Rightarrow> CommandSourceLeaseReadback res option) option
   \<Rightarrow> (ServoCommandClient \<times> LeaseAcquireResult res) option" where
  "acquire_lease c now_ns sendto readback =
     (case send c (intent_acquire_lease (sc_timeout_sec c)) now_ns sendto of
        (c', _, Inl e) \<Rightarrow> Some (c', Inl e)
      | (c', _, Inr seq) \<Rightarrow>
          (case readback of
             None \<Rightarrow> Some (c', Inr \<lparr>la_seq = seq, la_readback = None\<rparr>)
           | Some wait \<Rightarrow>
               (case wait (sc_source_id c') (sc_session_id c') of
                  None \<Rightarrow> None
                | Some (Inl e) \<Rightarrow> Some (c', Inl e)
                | Some (Inr lease) \<Rightarrow>
                    Some (c'\<lparr>sc_lease_token := lr_active_lease_token lease\<rparr>,
                          Inr \<lparr>la_seq = seq, la_readback = Some lease\<rparr>))))"

definition release_lease ::
  "ServoCommandClient \<Rightarrow> int \<Rightarrow> (pydict \<Rightarrow> unit res) \<Rightarrow> ServoCommandClient \<times> pydict option \<times> int res" where
  "release_lease c now_ns sendto =
     (let (c', out, r) = send c (intent_release_lease (sc_timeout_sec c)) now_ns sendto
      in (c'\<lparr>sc_lease_token := None\<rparr>, out, r))"

section \<open>Packets\<close>

text \<open>Keys of the packet header that an intent's metadata could overwrite.\<close>

definition HEADER_KEYS :: "string list" where
  "HEADER_KEYS = [''seq'', ''mode'', ''timeout_sec'', ''coupled_timeout'', ''source_id'', ''session_id'',
     ''left'', ''right'', ''tcp_target_profile'', ''lease_token'']"

definition metadata_keys :: "CommandIntent \<Rightarrow> string set" where
  "metadata_keys i = (case ci_metadata i of None \<Rightarrow> {} | Some m \<Rightarrow> fst ` set m)"

lemma map_of_dict_update_other: "k \<notin> fst ` set e \<Longrightarrow> map_of (dict_update d e) k = map_of d k"
  by (induction d e rule: dict_update.induct) auto

lemma map_of_opt_set: "map_of (opt_set d k v) k' = (if k' = k \<and> v \<noteq> None then v else map_of d k')"
  by (cases v) (auto simp: opt_set_def)

lemma build_packet_header:
  assumes "k \<notin> metadata_keys i" and "k \<noteq> ''client_send_monotonic_ns''" and "k \<noteq> ''lease_token''"
  shows "map_of (build_packet c i seq now_ns) k = map_of (packet_base c i seq) k"
proof -
  have "map_of (case ci_metadata i of None \<Rightarrow> packet_base c i seq
      | Some m \<Rightarrow> dict_update (packet_base c i seq) m) k = map_of (packet_base c i seq) k"
    using assms(1) by (auto simp: metadata_keys_def map_of_dict_update_other split: option.splits)
  with assms(2,3) show ?thesis
    unfolding build_packet_def Let_def by (simp split: option.split)
qed

lemma packet_base_fields:
  "map_of (packet_base c i seq) ''seq'' = Some (PInt seq)"
  "map_of (packet_base c i seq) ''mode'' = Some (PStr (ci_mode i))"
  "map_of (packet_base c i seq) ''source_id'' = Some (PStr (sc_source_id c))"
  "map_of (packet_base c i seq) ''session_id'' = Some (PStr (sc_session_id c))"
  "map_of (packet_base c i seq) ''left'' = map_option PDict (ci_left i)"
  "map_of (packet_base c i seq) ''right'' = map_option PDict (ci_right i)"
  unfolding packet_base_def Let_def by (simp_all add: map_of_opt_set)

lemma build_packet_fields:
  assumes "metadata_keys i \<inter> set HEADER_KEYS = {}"
  shows "k \<in> {''seq'', ''mode'', ''source_id'', ''session_id'', ''left'', ''right''} \<Longrightarrow>
    map_of (build_packet c i seq now_ns) k = map_of (packet_base c i seq) k"
  using assms by (intro build_packet_header) (auto simp: HEADER_KEYS_def)

lemma build_packet_token:
  "sc_lease_token c = Some tok \<Longrightarrow> tok \<noteq> [] \<Longrightarrow>
     map_of (build_packet c i seq now_ns) ''lease_token'' = Some (PStr tok)"
  by (simp add: build_packet_def Let_def)

section \<open>The lease interface\<close>

text \<open>
  What the client relies on when it asks the state stream to confirm a lease: whatever the wait
  returns is active and belongs to the source and session asked for.
\<close>

locale lease_provider =
  fixes wait :: "string \<Rightarrow> string \<Rightarrow> CommandSourceLeaseReadback res option"
  assumes wait_sound: "wait src ses = Some (Inr lease) \<Longrightarrow> lease_matches lease src ses None"
begin

lemma acquired_lease_is_ours:
  assumes "acquire_lease c now_ns sendto (Some wait) = Some (c', Inr r)"
  shows "\<exists>lease. la_readback r = Some lease \<and> lease_matches lease (sc_source_id c) (sc_session_id c) None
    \<and> sc_lease_token c' = lr_active_lease_token lease \<and> la_lease_token r = sc_lease_token c'
    \<and> la_seq r = sc_seq c'"
  using assms wait_sound
  by (auto simp: acquire_lease_def send_def Let_def la_lease_token_def split: sum.splits prod.splits option.splits)

end

interpretation state_stream: lease_provider
  "\<lambda>src ses. wait_for_active_lease src ses None timeout_sec start_time latest clock"
  for timeout_sec start_time latest clock
  by unfold_locales (simp add: wait_for_active_lease_def lease_wait_loop_sound)

section \<open>Runs of sends\<close>

type_synonym send_call = "CommandIntent \<times> int \<times> (pydict \<Rightarrow> unit res)"

definition send_step :: "ServoCommandClient \<Rightarrow> send_call \<Rightarrow> ServoCommandClient \<times> pydict option" where
  "send_step c call = (case call of (i, now_ns, sendto) \<Rightarrow>
     (case send c i now_ns sendto of (c', out, _) \<Rightarrow> (c', out)))"

definition send_inv :: "ServoCommandClient \<Rightarrow> send_call list \<Rightarrow> ServoCommandClient \<Rightarrow> bool" where
  "send_inv c0 h c = (c = c0\<lparr>sc_seq := sc_seq c0 + int (length h)\<rparr>)"

lemma send_inv_step: "send_inv c0 h c \<Longrightarrow> send_inv c0 (h @ [e]) (fst (send_step c e))"
  by (simp add: send_inv_def send_step_def send_def Let_def split: prod.splits sum.splits)

interpretation sends: history_machine send_step c0 "send_inv c0"
  for c0
  by unfold_locales (simp_all add: send_inv_step, simp add: send_inv_def)

lemma send_step_packet:
  "snd (send_step c (i, now_ns, sendto)) = Some p \<Longrightarrow> p = build_packet (c\<lparr>sc_seq := sc_seq c + 1\<rparr>) i (sc_seq c + 1) now_ns"
  by (auto simp: send_step_def send_def Let_def split: sum.splits)

section \<open>Properties\<close>


definition demo_client :: ServoCommandClient where
  "demo_client = \<lparr>sc_timeout_sec = Fin (1/5), sc_source_id = ''policy_runner'', sc_session_id = ''s1'',
     sc_lease_token = None, sc_seq = 0\<rparr>"



definition leased_snapshot :: StateSnapshot where
  "leased_snapshot = \<lparr>payload = [(''command_source'', PDict [(''active'', PBool True),
      (''active_source_id'', PStr ''policy_runner''), (''active_session_id'', PStr ''s1''),
      (''active_lease_token'', PStr ''tok'')])], received_monotonic = Fin 0\<rparr>"


end
