(* ===== verification/ArmInit.thy ===== *)
theory ArmInit
  imports CommandClient
begin

text \<open>
  The per-arm InitMotion override of \<^verbatim>\<open>policy_runner/arm_init_control.py\<close>: a latch per arm that takes
  the arm away from the policy while it drives to its init pose, waits for the force/torque tare and
  hands the arm back. Operator commands, server state messages and the composition of outgoing
  intents are operations on one controller record. Console events and debug output are left out: no
  decision depends on them. \<^verbatim>\<open>time.monotonic_ns()\<close> and the snapshot's receive time are arguments.
\<close>

section \<open>Data\<close>

definition ARM_INIT_COMMAND_SCHEMA :: string where
  "ARM_INIT_COMMAND_SCHEMA = ''robotics_lab.arm_init_cmd.v1''"

definition ARM_INIT_STATE_SCHEMA :: string where
  "ARM_INIT_STATE_SCHEMA = ''robotics_lab.arm_init_state.v1''"

datatype arm = LeftArm | RightArm

definition arm_name :: "arm \<Rightarrow> string" where
  "arm_name a = (case a of LeftArm \<Rightarrow> ''left'' | RightArm \<Rightarrow> ''right'')"

definition both_arms :: "arm list" where "both_arms = [LeftArm, RightArm]"

record ArmInitCommand =
  ac_arms :: string
  ac_action :: string
  ac_left_q_deg :: "pyfloat list option"
  ac_right_q_deg :: "pyfloat list option"
  ac_auto_roi_recover :: "bool option"

record ArmInitTransitions =
  at_started :: "arm list"
  at_done :: "arm list"
  at_cancelled :: "arm list"
  at_failed :: "arm list"

definition transitions_any :: "ArmInitTransitions \<Rightarrow> bool" where
  "transitions_any t = (at_started t \<noteq> [] \<or> at_done t \<noteq> [] \<or> at_cancelled t \<noteq> [] \<or> at_failed t \<noteq> [])"

record ArmRuntime =
  am_on :: bool
  am_q_deg :: "pyfloat list option"
  am_state :: string
  am_fail :: bool
  am_fail_mode :: string
  am_message :: string
  am_server_status :: string
  am_pair_a :: string
  am_pair_b :: string
  am_pair_category :: string
  am_clearance_m :: "pyfloat option"
  am_threshold_m :: "pyfloat option"
  am_margin_deficit_m :: "pyfloat option"
  am_tare_wait_started :: "pyfloat option"
  am_request_id :: int
  am_motion_done :: bool
  am_ft_required :: bool
  am_tare_timed_out :: bool
  am_tare_wait_elapsed :: pyfloat
  am_external :: bool

definition arm_runtime_init :: ArmRuntime where
  "arm_runtime_init =
     \<lparr>am_on = False, am_q_deg = None, am_state = ''policy'', am_fail = False, am_fail_mode = [],
      am_message = [], am_server_status = ''idle'', am_pair_a = [], am_pair_b = [], am_pair_category = [],
      am_clearance_m = None, am_threshold_m = None, am_margin_deficit_m = None,
      am_tare_wait_started = None, am_request_id = 0, am_motion_done = False, am_ft_required = False,
      am_tare_timed_out = False, am_tare_wait_elapsed = Fin 0, am_external = False\<rparr>"

record ArmInitController =
  ctl_timeout_sec :: pyfloat
  ctl_ft_tare_wait_sec :: pyfloat
  ctl_auto_clear_on_done :: bool
  ctl_auto_clear_on_failed :: bool
  ctl_resume_flow_on_done :: bool
  ctl_resume_flow_on_failed :: bool
  ctl_allow_manual_cancel_after_failed :: bool
  ctl_runtime :: "arm \<Rightarrow> ArmRuntime"
  ctl_auto_roi_recover :: bool
  ctl_last_command :: string
  ctl_error :: string
  ctl_changed :: bool
  ctl_started :: "arm set"
  ctl_done :: "arm set"
  ctl_cancelled :: "arm set"
  ctl_failed :: "arm set"

definition controller_init :: "pyfloat \<Rightarrow> bool \<Rightarrow> bool \<Rightarrow> bool \<Rightarrow> bool \<Rightarrow> bool \<Rightarrow> pyfloat \<Rightarrow> ArmInitController" where
  "controller_init timeout_sec clear_done clear_failed resume_done resume_failed manual_cancel ft_wait =
     \<lparr>ctl_timeout_sec = timeout_sec, ctl_ft_tare_wait_sec = pymax 0 ft_wait,
      ctl_auto_clear_on_done = clear_done, ctl_auto_clear_on_failed = clear_failed,
      ctl_resume_flow_on_done = resume_done, ctl_resume_flow_on_failed = resume_failed,
      ctl_allow_manual_cancel_after_failed = manual_cancel,
      ctl_runtime = (\<lambda>_. arm_runtime_init), ctl_auto_roi_recover = False,
      ctl_last_command = [], ctl_error = [], ctl_changed = False,
      ctl_started = {}, ctl_done = {}, ctl_cancelled = {}, ctl_failed = {}\<rparr>"

definition set_runtime :: "arm \<Rightarrow> ArmRuntime \<Rightarrow> ArmInitController \<Rightarrow> ArmInitController" where
  "set_runtime a r c = c\<lparr>ctl_runtime := (ctl_runtime c)(a := r)\<rparr>"

section \<open>Reading messages\<close>

definition optional_joint6 :: "pyval \<Rightarrow> string \<Rightarrow> pyfloat list option res" where
  "optional_joint6 v label =
     (case v of
        PNone \<Rightarrow> Inr None
      | PList xs \<Rightarrow>
          if length xs \<noteq> 6 then Inl (ValueError (label @ '' must contain 6 values''))
          else res_bind (res_map py_float xs) (\<lambda>parsed.
            if list_ex (\<lambda>f. \<not> isfinite f) parsed then Inl (ValueError (label @ '' values must be finite''))
            else Inr (Some parsed))
      | _ \<Rightarrow> Inl (ValueError (label @ '' must contain 6 values'')))"

text \<open>\<^verbatim>\<open>parse_arm_init_command\<close> on a decoded payload. The two membership tests hash their operand, so
  a list or dict there raises \<^verbatim>\<open>TypeError\<close>.\<close>

definition parse_arm_init_command :: "pydict \<Rightarrow> ArmInitCommand res" where
  "parse_arm_init_command p =
     (if dget p ''schema'' \<noteq> PStr ARM_INIT_COMMAND_SCHEMA
      then Inl (ValueError ''unsupported arm init command schema'')
      else res_bind (in_str_set (dget p ''arms'') [''both'', ''left'', ''right'']) (\<lambda>arms_ok.
        if \<not> arms_ok then Inl (ValueError ''arm init command arms must be both, left, or right'')
        else res_bind (in_str_set (dget_or p ''action'' (PStr ''toggle'')) [''start'', ''cancel'', ''toggle'', ''config'']) (\<lambda>action_ok.
          if \<not> action_ok then Inl (ValueError ''arm init command action must be start, cancel, toggle, or config'')
          else let auto = dget p ''auto_roi_recover'' in
            if auto \<noteq> PNone \<and> \<not> is_bool auto
            then Inl (ValueError ''arm init command auto_roi_recover must be a bool'')
            else res_bind (optional_joint6 (dget p ''left_q_deg'') ''left_q_deg'') (\<lambda>lq.
                 res_bind (optional_joint6 (dget p ''right_q_deg'') ''right_q_deg'') (\<lambda>rq.
                 Inr \<lparr>ac_arms = py_str (dget p ''arms''),
                      ac_action = py_str (dget_or p ''action'' (PStr ''toggle'')),
                      ac_left_q_deg = lq, ac_right_q_deg = rq,
                      ac_auto_roi_recover = (case auto of PBool b \<Rightarrow> Some b | _ \<Rightarrow> None)\<rparr>)))))"

definition norm_status :: "pyval \<Rightarrow> string" where
  "norm_status v =
     (let text = py_lower (py_strip (str_or_empty v))
      in if text \<in> {[], ''not_attempted''} then []
         else if text \<in> {''idle'', ''planning'', ''executing'', ''done'', ''failed''} then text
         else py_replace_char (CHR ''_'') (CHR '' '') text)"

text \<open>This module's \<^verbatim>\<open>_optional_float\<close>: numbers and booleans, finite only.\<close>

definition optional_finite :: "pyval \<Rightarrow> pyfloat option" where
  "optional_finite v = (case num_value v of Some f \<Rightarrow> if isfinite f then Some f else None | None \<Rightarrow> None)"

definition goal_threshold_m :: "pydict \<Rightarrow> pyfloat option" where
  "goal_threshold_m block =
     (case optional_finite (dget block ''goal_threshold_m'') of
        Some x \<Rightarrow> Some x
      | None \<Rightarrow>
          optional_finite (dget block
            (if truthy (dget_or block ''goal_nearest_pair_external'' (PBool False))
             then ''goal_clear_threshold_external_m'' else ''goal_clear_threshold_self_m'')))"

definition goal_clearance :: "pydict \<Rightarrow> pyfloat option" where
  "goal_clearance block =
     optional_finite (dget_or block ''goal_nearest_pair_distance_m'' (dget block ''nearest_pair_distance_m''))"

definition or_unknown :: "string \<Rightarrow> string" where
  "or_unknown s = (if s = [] then ''unknown'' else s)"

definition format_failed_message :: "pydict \<Rightarrow> string" where
  "format_failed_message block =
     (let fail_mode = str_or_empty (dget_or block ''fail_mode'' (PStr [])) in
      if fail_mode \<noteq> ''goal_not_clear'' then str_or_empty (dget_or block ''message'' (PStr []))
      else let name_a = str_or_empty (dget_or block ''goal_nearest_pair_name_a'' (PStr []));
               name_b = str_or_empty (dget_or block ''goal_nearest_pair_name_b'' (PStr [])) in
        if name_a \<noteq> [] \<or> name_b \<noteq> [] then
          let pair = or_unknown name_a @ '' <-> '' @ or_unknown name_b in
          (case (goal_clearance block, goal_threshold_m block) of
             (Some clearance, Some threshold) \<Rightarrow>
               ''goal_not_clear: pair '' @ pair @ '', '' @
               ''clearance '' @ fmt_fixed 1 (clearance * Fin 1000) @ '' mm < required ''
               @ fmt_fixed 1 (threshold * Fin 1000) @ '' mm''
           | _ \<Rightarrow> ''goal_not_clear: pair '' @ pair)
        else (let m = dget_or block ''message'' (PStr []) in if truthy m then py_str m else ''goal_not_clear''))"

definition ft_tare_pending :: "pydict \<Rightarrow> arm \<Rightarrow> bool \<Rightarrow> bool \<times> string" where
  "ft_tare_pending p a required =
     (case dget p (arm_name a) of
        PDict arm_block \<Rightarrow>
          (case dget arm_block ''force_torque'' of
             PDict ft \<Rightarrow>
               if dget ft ''enabled'' = PBool False then (False, ''ft disabled'')
               else let req = (required \<or> dget ft ''enabled'' = PBool True) in
                 if req \<and> dget ft ''connected'' \<noteq> PBool True then (True, ''ft disconnected or unavailable'')
                 else let stage = py_lower (py_strip (str_or_empty (dget_or ft ''auto_tare_stage'' (PStr [])))) in
                   if stage \<in> {''awaiting_init'', ''settling''} then (True, ''auto_tare_stage='' @ stage)
                   else if py_lower (py_str (dget_or ft ''tare_state'' (PStr []))) = ''settling''
                   then (True, ''tare samples accumulating'')
                   else if dget ft ''bias_valid'' = PBool False \<or> (req \<and> dget ft ''bias_valid'' \<noteq> PBool True)
                   then (True, ''bias invalid or unavailable'')
                   else if req \<and> py_lower (py_str (dget_or ft ''tare_state'' (PStr []))) \<noteq> ''accepted''
                   then (True, ''tare not accepted'')
                   else (False, ''auto_tare_stage='' @ (if stage = [] then ''idle'' else stage)
                                @ '' bias_valid='' @ py_str (dget ft ''bias_valid''))
           | _ \<Rightarrow> (required, ''no force_torque block''))
      | _ \<Rightarrow> (required, ''no arm block''))"

section \<open>Operator commands\<close>

definition arms_for_selector :: "string \<Rightarrow> arm list" where
  "arms_for_selector s = (if s = ''both'' then both_arms else if s = ''left'' then [LeftArm] else [RightArm])"

definition external_init_active :: "ArmInitController \<Rightarrow> bool" where
  "external_init_active c = list_ex (\<lambda>a. am_on (ctl_runtime c a) \<and> am_external (ctl_runtime c a)) both_arms"

definition policy_suspended_arms :: "ArmInitController \<Rightarrow> arm list" where
  "policy_suspended_arms c =
     (if external_init_active c then both_arms else filter (\<lambda>a. am_on (ctl_runtime c a)) both_arms)"

definition clear_goal :: "ArmRuntime \<Rightarrow> ArmRuntime" where
  "clear_goal r = r\<lparr>am_pair_a := [], am_pair_b := [], am_pair_category := [],
     am_clearance_m := None, am_threshold_m := None, am_margin_deficit_m := None\<rparr>"

definition start_runtime :: "int \<Rightarrow> ArmRuntime \<Rightarrow> ArmRuntime" where
  "start_runtime request_id r =
     clear_goal (r\<lparr>am_request_id := request_id, am_external := False, am_motion_done := False,
       am_tare_wait_started := None, am_tare_timed_out := False, am_tare_wait_elapsed := Fin 0,
       am_on := True, am_fail := False, am_fail_mode := [], am_state := ''init requested'',
       am_message := [], am_server_status := ''requested''\<rparr>)"

definition missing_q_error :: "arm list \<Rightarrow> string" where
  "missing_q_error missing = (case missing of
      [a] \<Rightarrow> ''missing_'' @ arm_name a @ ''_init_q_deg'' | _ \<Rightarrow> ''missing_init_q_deg'')"

definition start_request_id :: "ArmInitController \<Rightarrow> int \<Rightarrow> arm list \<Rightarrow> int" where
  "start_request_id c now_ns arms =
     foldl max now_ns (map (\<lambda>a. am_request_id (ctl_runtime c a) + 1) arms)"

definition start_arms :: "ArmInitController \<Rightarrow> int \<Rightarrow> arm list \<Rightarrow> ArmInitController \<times> bool" where
  "start_arms c now_ns arms =
     (let missing = filter (\<lambda>a. am_q_deg (ctl_runtime c a) = None) arms in
      if missing \<noteq> [] then (c\<lparr>ctl_error := missing_q_error missing\<rparr>, False)
      else let rid = start_request_id c now_ns arms;
               c' = c\<lparr>ctl_runtime := (\<lambda>a. if a \<in> set arms then start_runtime rid (ctl_runtime c a) else ctl_runtime c a),
                      ctl_started := ctl_started c \<union> set arms,
                      ctl_changed := (arms \<noteq> [])\<rparr>
           in (c', arms \<noteq> []))"

definition cancel_runtime :: "ArmRuntime \<Rightarrow> ArmRuntime" where
  "cancel_runtime r =
     clear_goal (r\<lparr>am_on := False, am_fail := False, am_fail_mode := [], am_state := ''cancelled'',
       am_message := [], am_server_status := ''cancelled''\<rparr>)"

definition cancellable :: "ArmRuntime \<Rightarrow> bool" where
  "cancellable r = (am_on r \<or> startswith (am_state r) ''init'')"

definition cancel_arms :: "ArmInitController \<Rightarrow> arm list \<Rightarrow> ArmInitController \<times> bool" where
  "cancel_arms c arms =
     (let hit = filter (\<lambda>a. cancellable (ctl_runtime c a)) arms in
      (c\<lparr>ctl_runtime := (\<lambda>a. if a \<in> set arms then cancel_runtime (ctl_runtime c a) else ctl_runtime c a),
         ctl_cancelled := ctl_cancelled c \<union> set hit,
         ctl_changed := (hit \<noteq> [])\<rparr>, hit \<noteq> []))"

definition store_q :: "arm \<Rightarrow> pyfloat list option \<Rightarrow> ArmInitController \<Rightarrow> ArmInitController" where
  "store_q a q c = (case q of None \<Rightarrow> c
     | Some v \<Rightarrow> set_runtime a ((ctl_runtime c a)\<lparr>am_q_deg := Some v\<rparr>) c)"

definition resolve_action :: "ArmInitController \<Rightarrow> arm list \<Rightarrow> string \<Rightarrow> string" where
  "resolve_action c arms action =
     (if action = ''toggle'' then
        (if list_ex (\<lambda>a. am_fail (ctl_runtime c a)) arms \<and> \<not> ctl_allow_manual_cancel_after_failed c then ''start''
         else if list_ex (\<lambda>a. am_on (ctl_runtime c a)) arms then ''cancel'' else ''start'')
      else action)"

definition handle_command :: "ArmInitController \<Rightarrow> int \<Rightarrow> ArmInitCommand \<Rightarrow> ArmInitController \<times> bool" where
  "handle_command c now_ns cmd =
     (let c0 = c\<lparr>ctl_changed := False, ctl_error := [], ctl_last_command := ac_arms cmd\<rparr>;
          c1 = store_q RightArm (ac_right_q_deg cmd) (store_q LeftArm (ac_left_q_deg cmd) c0);
          arms = arms_for_selector (ac_arms cmd)
      in if ac_action cmd = ''config'' then
           (case ac_auto_roi_recover cmd of
              None \<Rightarrow> (c1, False)
            | Some b \<Rightarrow>
                let changed = (ctl_auto_roi_recover c1 \<noteq> b)
                in (c1\<lparr>ctl_auto_roi_recover := b, ctl_changed := changed\<rparr>, changed))
         else if resolve_action c1 arms (ac_action cmd) = ''cancel'' then cancel_arms c1 arms
         else start_arms c1 now_ns arms)"

text \<open>\<^verbatim>\<open>handle_payloads\<close> skips foreign payloads and records a \<^verbatim>\<open>ValueError\<close>; any other exception of
  the parser leaves the loop. \<open>clock\<close> gives \<^verbatim>\<open>time.monotonic_ns()\<close> for the i-th payload.\<close>

fun handle_payloads :: "ArmInitController \<Rightarrow> (nat \<Rightarrow> int) \<Rightarrow> nat \<Rightarrow> pyval list \<Rightarrow> ArmInitController \<times> bool res" where
  "handle_payloads c clock i [] = (c, Inr False)"
| "handle_payloads c clock i (v # vs) =
     (case v of
        PDict p \<Rightarrow>
          if dget p ''schema'' \<noteq> PStr ARM_INIT_COMMAND_SCHEMA then handle_payloads c clock (Suc i) vs
          else (case parse_arm_init_command p of
                  Inr cmd \<Rightarrow>
                    let (c', ch) = handle_command c (clock i) cmd;
                        (c'', r) = handle_payloads c' clock (Suc i) vs
                    in (c'', map_sum id (\<lambda>b. ch \<or> b) r)
                | Inl (ValueError m) \<Rightarrow> handle_payloads (c\<lparr>ctl_error := m\<rparr>) clock (Suc i) vs
                | Inl e \<Rightarrow> (c, Inl e))
      | _ \<Rightarrow> handle_payloads c clock (Suc i) vs)"

definition sorted_arms :: "arm set \<Rightarrow> arm list" where
  "sorted_arms s = filter (\<lambda>a. a \<in> s) both_arms"

definition consume_transitions :: "ArmInitController \<Rightarrow> ArmInitController \<times> ArmInitTransitions" where
  "consume_transitions c =
     (c\<lparr>ctl_started := {}, ctl_done := {}, ctl_cancelled := {}, ctl_failed := {}\<rparr>,
      \<lparr>at_started = sorted_arms (ctl_started c), at_done = sorted_arms (ctl_done c),
       at_cancelled = sorted_arms (ctl_cancelled c), at_failed = sorted_arms (ctl_failed c)\<rparr>)"

section \<open>Server state messages\<close>

definition mark_done :: "arm \<Rightarrow> ArmInitController \<Rightarrow> ArmInitController" where
  "mark_done a c =
     (let r = ctl_runtime c a;
          released = (ctl_auto_clear_on_done c \<and> ctl_resume_flow_on_done c);
          r1 = clear_goal (r\<lparr>am_fail := False, am_fail_mode := [], am_message := [], am_server_status := ''done''\<rparr>);
          r2 = (if released then r1\<lparr>am_on := False, am_state := ''policy''\<rparr> else r1\<lparr>am_state := ''init done''\<rparr>)
      in (set_runtime a r2 c)\<lparr>ctl_done := (if am_state r \<noteq> ''init done'' then insert a (ctl_done c) else ctl_done c)\<rparr>)"

definition mark_failed :: "arm \<Rightarrow> string \<Rightarrow> ArmInitController \<Rightarrow> ArmInitController" where
  "mark_failed a message c =
     (let r = ctl_runtime c a;
          released = (ctl_auto_clear_on_failed c \<or> ctl_resume_flow_on_failed c);
          r1 = r\<lparr>am_motion_done := False, am_fail := True, am_message := message, am_server_status := ''failed''\<rparr>;
          r2 = (if released then r1\<lparr>am_on := False, am_state := ''policy''\<rparr>
                else r1\<lparr>am_on := True, am_state := ''init failed''\<rparr>)
      in (set_runtime a r2 c)\<lparr>ctl_failed := (if am_fail r then ctl_failed c else insert a (ctl_failed c))\<rparr>)"

definition update_ft_required :: "pydict \<Rightarrow> arm \<Rightarrow> ArmRuntime \<Rightarrow> ArmRuntime" where
  "update_ft_required p a r =
     (case dget p (arm_name a) of
        PDict ft_arm \<Rightarrow>
          (case dget ft_arm ''force_torque'' of
             PDict ft \<Rightarrow>
               if dget ft ''enabled'' = PBool True then r\<lparr>am_ft_required := True\<rparr>
               else if dget ft ''enabled'' = PBool False then r\<lparr>am_ft_required := False\<rparr> else r
           | _ \<Rightarrow> r)
      | _ \<Rightarrow> r)"

definition is_moving :: "string \<Rightarrow> bool" where
  "is_moving status = (status \<in> {''planning'', ''executing''})"

definition foreign_ack :: "pyval \<Rightarrow> ArmRuntime \<Rightarrow> bool" where
  "foreign_ack ack r = (ack \<noteq> PNone \<and> \<not> py_eq_int ack (am_request_id r))"

text \<open>An init motion this controller did not start: observe its ownership.\<close>

definition sees_external :: "string \<Rightarrow> pyval \<Rightarrow> ArmRuntime \<Rightarrow> bool" where
  "sees_external status ack r = (is_moving status \<and> (\<not> am_on r \<or> (am_external r \<and> foreign_ack ack r)))"

definition external_runtime :: "string \<Rightarrow> pyval \<Rightarrow> ArmRuntime \<Rightarrow> ArmRuntime" where
  "external_runtime status ack r =
     r\<lparr>am_on := True, am_external := True,
       am_request_id := (case ack of PInt i \<Rightarrow> if 0 \<le> i then i else 0 | _ \<Rightarrow> 0),
       am_motion_done := False, am_fail := False, am_fail_mode := [], am_tare_wait_started := None,
       am_tare_timed_out := False, am_tare_wait_elapsed := Fin 0, am_state := ''init '' @ status\<rparr>"

definition or_keep :: "string \<Rightarrow> string \<Rightarrow> string" where
  "or_keep new old = (if new = [] then old else new)"

definition opt_keep :: "'a option \<Rightarrow> 'a option \<Rightarrow> 'a option" where
  "opt_keep new old = (case new of None \<Rightarrow> old | Some _ \<Rightarrow> new)"

definition block_message :: "pydict \<Rightarrow> string" where
  "block_message b =
     (let m = format_failed_message b in if m = [] then str_or_empty (dget_or b ''message'' (PStr [])) else m)"

definition merge_block :: "pydict \<Rightarrow> string \<Rightarrow> ArmRuntime \<Rightarrow> ArmRuntime" where
  "merge_block b status r =
     r\<lparr>am_fail_mode := or_keep (str_or_empty (dget_or b ''fail_mode'' (PStr []))) (am_fail_mode r),
       am_pair_a := or_keep (str_or_empty (dget_or b ''goal_nearest_pair_name_a'' (PStr []))) (am_pair_a r),
       am_pair_b := or_keep (str_or_empty (dget_or b ''goal_nearest_pair_name_b'' (PStr []))) (am_pair_b r),
       am_pair_category := or_keep (str_or_empty (dget_or b ''goal_nearest_pair_category'' (PStr []))) (am_pair_category r),
       am_clearance_m := opt_keep (goal_clearance b) (am_clearance_m r),
       am_threshold_m := opt_keep (goal_threshold_m b) (am_threshold_m r),
       am_margin_deficit_m := opt_keep (optional_finite (dget b ''goal_clear_margin_deficit_m'')) (am_margin_deficit_m r),
       am_server_status := or_keep status (am_server_status r),
       am_message := or_keep (block_message b) (am_message r)\<rparr>"

definition tare_error :: "ArmInitController \<Rightarrow> arm \<Rightarrow> string \<Rightarrow> string" where
  "tare_error c a why = arm_name a @ '' F/T tare did not land within '' @ fmt_fixed 2 (ctl_ft_tare_wait_sec c)
     @ '' s ('' @ why @ ''); holding''"

text \<open>The arm has reached its init pose (or had before): wait for the tare, then release.\<close>

definition finish_motion :: "ArmInitController \<Rightarrow> pydict \<Rightarrow> pyfloat \<Rightarrow> arm \<Rightarrow> ArmInitController \<times> bool" where
  "finish_motion c p now a =
     (let r = (ctl_runtime c a)\<lparr>am_motion_done := True\<rparr>;
          (pending, why) = ft_tare_pending p a (am_ft_required r)
      in if pending \<and> 0 < ctl_ft_tare_wait_sec c then
           let started = (case am_tare_wait_started r of None \<Rightarrow> now | Some t \<Rightarrow> t);
               waited = now - started;
               r1 = r\<lparr>am_tare_wait_started := Some started, am_tare_wait_elapsed := pymax 0 waited\<rparr>
           in if waited < ctl_ft_tare_wait_sec c then
                (set_runtime a (r1\<lparr>am_state := ''init tare'', am_message := ''waiting for F/T tare ('' @ why @ '')''\<rparr>) c,
                 am_state r \<noteq> ''init tare'')
              else
                let err = tare_error c a why in
                ((set_runtime a (r1\<lparr>am_tare_timed_out := True, am_state := ''init tare blocked'', am_message := err\<rparr>) c)
                   \<lparr>ctl_error := err\<rparr>,
                 \<not> am_tare_timed_out r)
         else
           let r1 = (case am_tare_wait_started r of
                       Some t \<Rightarrow> if pending then r else r\<lparr>am_tare_wait_elapsed := pymax 0 (now - t)\<rparr>
                     | None \<Rightarrow> r);
               c1 = (set_runtime a (r1\<lparr>am_tare_wait_started := None\<rparr>) c)
                      \<lparr>ctl_error := (if startswith (ctl_error c) (arm_name a @ '' F/T tare'') then [] else ctl_error c)\<rparr>
           in (mark_done a c1, True))"

text \<open>The status dispatch once the block's fields are merged; \<open>prev\<close> is the server status before.\<close>

definition dispatch_status ::
  "ArmInitController \<Rightarrow> pydict \<Rightarrow> pydict \<Rightarrow> pyfloat \<Rightarrow> arm \<Rightarrow> string \<Rightarrow> string \<Rightarrow> ArmInitController \<times> bool" where
  "dispatch_status c p b now a status prev =
     (let r = ctl_runtime c a in
      if \<not> am_on r then
        (if status = ''done'' \<and> is_moving prev then (c\<lparr>ctl_done := insert a (ctl_done c)\<rparr>, True) else (c, False))
      else if am_fail r \<and> status \<noteq> ''failed'' then (c, False)
      else if is_moving status \<and> \<not> am_motion_done r then
        (set_runtime a (r\<lparr>am_tare_wait_started := None, am_state := ''init '' @ status\<rparr>) c,
         am_state r \<noteq> ''init '' @ status)
      else if status = ''failed'' then
        (mark_failed a (or_keep (or_keep (block_message b) (str_or_empty (dget_or b ''fail_mode'' (PStr [])))) ''init_failed'') c, True)
      else if status = ''done'' \<or> am_motion_done r then finish_motion c p now a
      else (c, False))"

definition update_arm :: "pydict \<Rightarrow> pydict \<Rightarrow> pyfloat \<Rightarrow> arm \<Rightarrow> ArmInitController \<Rightarrow> ArmInitController \<times> bool" where
  "update_arm p block now a c =
     (let b = (case dget block (arm_name a) of PDict d \<Rightarrow> d | _ \<Rightarrow> block);
          status = norm_status (dget b ''status'');
          ack = dget b ''request_id'';
          r0 = update_ft_required p a (ctl_runtime c a);
          ext = sees_external status ack r0;
          r1 = (if ext then external_runtime status ack r0 else r0);
          c1 = (set_runtime a r1 c)\<lparr>ctl_started := (if ext then insert a (ctl_started c) else ctl_started c)\<rparr>
      in if am_on r1 \<and> \<not> am_motion_done r1 \<and> foreign_ack ack r1 then (c1, ext)
         else let c2 = set_runtime a (merge_block b status r1) c1;
                  (c3, ch) = dispatch_status c2 p b now a status (am_server_status r1)
              in (c3, ext \<or> ch))"

definition update_from_snapshot :: "ArmInitController \<Rightarrow> StateSnapshot \<Rightarrow> ArmInitController \<times> bool" where
  "update_from_snapshot c s =
     (case dget (payload s) ''init_motion'' of
        PDict block \<Rightarrow>
          let (c1, ch1) = update_arm (payload s) block (received_monotonic s) LeftArm c;
              (c2, ch2) = update_arm (payload s) block (received_monotonic s) RightArm c1
          in (c2\<lparr>ctl_changed := ctl_changed c2 \<or> ch1 \<or> ch2\<rparr>, ch1 \<or> ch2)
      | _ \<Rightarrow> (c, False))"

section \<open>Composing the outgoing intent\<close>

definition hold_payload :: pydict where "hold_payload = [(''mode'', PStr ''Hold'')]"

definition arm_payload :: "pydict option \<Rightarrow> pydict" where
  "arm_payload v =
     (case v of
        None \<Rightarrow> hold_payload
      | Some d \<Rightarrow> if d = [] then hold_payload
          else if dget d ''mode'' = PNone then dset d ''mode'' (PStr ''Hold'') else d)"

definition init_arm_payload :: "pyfloat list \<Rightarrow> int \<Rightarrow> pydict" where
  "init_arm_payload q_deg request_id =
     [(''mode'', PStr ''JointTarget''), (''q_target_deg'', PList (map PFloat q_deg)),
      (''joint_target_profile'', PStr ''init_motion''), (''init_motion_request_id'', PInt request_id)]"

definition mixed_top_mode :: "pydict \<Rightarrow> pydict \<Rightarrow> string" where
  "mixed_top_mode left right =
     (let lm = py_str (dget_or left ''mode'' (PStr ''Hold'')); rm = py_str (dget_or right ''mode'' (PStr ''Hold''))
      in if lm = rm then lm else ''Hold'')"

text \<open>The packet with the given arms and the policy intent's top-level fields.\<close>

definition override_intent :: "ArmInitController \<Rightarrow> CommandIntent option \<Rightarrow> pydict \<Rightarrow> pydict \<Rightarrow> CommandIntent" where
  "override_intent c intent left right =
     \<lparr>ci_mode = mixed_top_mode left right,
      ci_timeout_sec = (case intent of None \<Rightarrow> ctl_timeout_sec c | Some i \<Rightarrow> ci_timeout_sec i),
      ci_left = Some left, ci_right = Some right,
      ci_coupled_timeout = (case intent of None \<Rightarrow> True | Some i \<Rightarrow> ci_coupled_timeout i),
      ci_tcp_target_profile = (case intent of None \<Rightarrow> None | Some i \<Rightarrow> ci_tcp_target_profile i),
      ci_metadata = (case intent of None \<Rightarrow> None | Some i \<Rightarrow> ci_metadata i)\<rparr>"

definition ours :: "ArmInitController \<Rightarrow> arm \<Rightarrow> bool" where
  "ours c a = (let r = ctl_runtime c a in am_on r \<and> \<not> am_external r \<and> \<not> am_fail r \<and> \<not> am_motion_done r)"

definition external_init_intent ::
  "ArmInitController \<Rightarrow> CommandIntent option \<Rightarrow> ArmInitController \<times> CommandIntent option" where
  "external_init_intent c intent =
     (let our = filter (ours c) both_arms in
      if our = [] then (c, None)
      else let missing = filter (\<lambda>a. am_q_deg (ctl_runtime c a) = None) our in
        if missing \<noteq> [] then (c\<lparr>ctl_error := missing_q_error missing\<rparr>, None)
        else let arm_of = (\<lambda>a. case am_q_deg (ctl_runtime c a) of
                   Some q \<Rightarrow> if ours c a then init_arm_payload q (am_request_id (ctl_runtime c a)) else hold_payload
                 | None \<Rightarrow> hold_payload)
             in (c, Some (override_intent c intent (arm_of LeftArm) (arm_of RightArm))))"

text \<open>One arm of \<^verbatim>\<open>compose_intent\<close>: \<open>None\<close> when the arm is latched without a known init pose.\<close>

definition compose_arm :: "ArmRuntime \<Rightarrow> pydict \<Rightarrow> pydict option" where
  "compose_arm r policy =
     (if \<not> am_on r then Some policy
      else if am_fail r \<or> am_motion_done r then Some hold_payload
      else case am_q_deg r of None \<Rightarrow> None | Some q \<Rightarrow> Some (init_arm_payload q (am_request_id r)))"

definition intent_left :: "CommandIntent option \<Rightarrow> pydict option" where
  "intent_left i = (case i of None \<Rightarrow> None | Some x \<Rightarrow> ci_left x)"

definition intent_right :: "CommandIntent option \<Rightarrow> pydict option" where
  "intent_right i = (case i of None \<Rightarrow> None | Some x \<Rightarrow> ci_right x)"

definition compose_intent ::
  "ArmInitController \<Rightarrow> CommandIntent option \<Rightarrow> ArmInitController \<times> CommandIntent option" where
  "compose_intent c intent =
     (if external_init_active c then external_init_intent c intent
      else if \<not> am_on (ctl_runtime c LeftArm) \<and> \<not> am_on (ctl_runtime c RightArm) then (c, intent)
      else case compose_arm (ctl_runtime c LeftArm) (arm_payload (intent_left intent)) of
             None \<Rightarrow> (c\<lparr>ctl_error := ''missing_left_init_q_deg''\<rparr>, intent)
           | Some left \<Rightarrow>
               (case compose_arm (ctl_runtime c RightArm) (arm_payload (intent_right intent)) of
                  None \<Rightarrow> (c\<lparr>ctl_error := ''missing_right_init_q_deg''\<rparr>, intent)
                | Some right \<Rightarrow> (c, Some (override_intent c intent left right))))"

section \<open>Status and policy hooks\<close>

definition state_for :: "ArmRuntime \<Rightarrow> string" where
  "state_for r =
     (if am_on r then (if startswith (am_state r) ''init'' then am_state r else ''init requested'')
      else if am_state r \<in> {''cancelled'', ''init done''} then am_state r
      else ''policy'')"

definition opt_num :: "pyfloat option \<Rightarrow> pyval" where
  "opt_num v = (case v of None \<Rightarrow> PNone | Some f \<Rightarrow> PFloat f)"

definition goal_fields :: "string \<Rightarrow> ArmRuntime \<Rightarrow> pydict" where
  "goal_fields prefix r =
     [(prefix @ ''_goal_nearest_pair_name_a'', PStr (am_pair_a r)),
      (prefix @ ''_goal_nearest_pair_name_b'', PStr (am_pair_b r)),
      (prefix @ ''_goal_nearest_pair_category'', PStr (am_pair_category r)),
      (prefix @ ''_goal_clearance_m'', opt_num (am_clearance_m r)),
      (prefix @ ''_goal_threshold_m'', opt_num (am_threshold_m r)),
      (prefix @ ''_goal_margin_deficit_m'', opt_num (am_margin_deficit_m r))]"

definition status_block :: "ArmInitController \<Rightarrow> pydict" where
  "status_block c =
     (let l = ctl_runtime c LeftArm; r = ctl_runtime c RightArm in
      [(''schema'', PStr ARM_INIT_STATE_SCHEMA),
       (''left_request_id'', PInt (am_request_id l)), (''right_request_id'', PInt (am_request_id r)),
       (''left_tare_wait_elapsed_sec'', PFloat (am_tare_wait_elapsed l)),
       (''right_tare_wait_elapsed_sec'', PFloat (am_tare_wait_elapsed r)),
       (''left_tare_timed_out'', PBool (am_tare_timed_out l)),
       (''right_tare_timed_out'', PBool (am_tare_timed_out r)),
       (''init_override_left'', PBool (am_on l)), (''init_override_right'', PBool (am_on r)),
       (''external_init_active'', PBool (external_init_active c)),
       (''left_state'', PStr (state_for l)), (''right_state'', PStr (state_for r)),
       (''left_server_status'', PStr (am_server_status l)), (''right_server_status'', PStr (am_server_status r)),
       (''left_message'', PStr (am_message l)), (''right_message'', PStr (am_message r)),
       (''left_fail_mode'', PStr (am_fail_mode l)), (''right_fail_mode'', PStr (am_fail_mode r))]
      @ goal_fields ''left'' l @ goal_fields ''right'' r @
      [(''last_command'', PStr (ctl_last_command c)), (''error'', PStr (ctl_error c)),
       (''auto_clear_on_done'', PBool (ctl_auto_clear_on_done c)),
       (''auto_clear_on_failed'', PBool (ctl_auto_clear_on_failed c)),
       (''resume_flow_on_done'', PBool (ctl_resume_flow_on_done c)),
       (''resume_flow_on_failed'', PBool (ctl_resume_flow_on_failed c)),
       (''allow_manual_cancel_after_failed'', PBool (ctl_allow_manual_cancel_after_failed c)),
       (''auto_roi_recover'', PBool (ctl_auto_roi_recover c))])"

definition stamp_snapshot :: "ArmInitController \<Rightarrow> StateSnapshot \<Rightarrow> StateSnapshot" where
  "stamp_snapshot c s = s\<lparr>payload := dset (payload s) ''arm_init'' (PDict (status_block c))\<rparr>"

definition source_mask_for :: "ArmInitController \<Rightarrow> pyfloat list option \<Rightarrow> pyfloat list option" where
  "source_mask_for c base_mask =
     (case base_mask of
        None \<Rightarrow> None
      | Some msk \<Rightarrow>
          if length msk < 2 then None
          else let m1 = (if LeftArm \<in> set (policy_suspended_arms c) then msk[0 := Fin 0] else msk);
                   m2 = (if RightArm \<in> set (policy_suspended_arms c) then m1[1 := Fin 0] else m1)
               in Some m2)"

definition should_invalidate_chunks_for_override :: "pyfloat list \<Rightarrow> arm set \<Rightarrow> bool" where
  "should_invalidate_chunks_for_override arm_mask overridden =
     (\<not> list_ex (\<lambda>(a, idx). a \<notin> overridden \<and> idx < length arm_mask \<and> 0 < arm_mask ! idx)
          [(LeftArm, 0), (RightArm, 1)])"

definition arm_uses_source :: "pydict option \<Rightarrow> bool" where
  "arm_uses_source v =
     (case v of
        None \<Rightarrow> False
      | Some d \<Rightarrow>
          (case dget d ''mode'' of PStr m \<Rightarrow> m \<notin> {[], ''Hold''} | _ \<Rightarrow> False)
          \<or> dget d ''gripper_target'' \<noteq> PNone)"

definition intent_uses_source_requirements :: "CommandIntent option \<Rightarrow> ArmInitController \<Rightarrow> bool" where
  "intent_uses_source_requirements intent c =
     (case intent of
        None \<Rightarrow> False
      | Some i \<Rightarrow> (\<not> am_on (ctl_runtime c LeftArm) \<and> arm_uses_source (ci_left i))
                \<or> (\<not> am_on (ctl_runtime c RightArm) \<and> arm_uses_source (ci_right i)))"

section \<open>Invariant: a latched arm has an init pose\<close>

definition q_known :: "ArmRuntime \<Rightarrow> bool" where
  "q_known r = (am_on r \<and> \<not> am_external r \<longrightarrow> am_q_deg r \<noteq> None)"

definition init_inv :: "ArmInitController \<Rightarrow> bool" where
  "init_inv c = (\<forall>a. q_known (ctl_runtime c a))"

lemma set_runtime_simps [simp]:
  "ctl_runtime (set_runtime a r c) b = (if b = a then r else ctl_runtime c b)"
  "ctl_ft_tare_wait_sec (set_runtime a r c) = ctl_ft_tare_wait_sec c"
  "ctl_error (set_runtime a r c) = ctl_error c"
  "ctl_done (set_runtime a r c) = ctl_done c"
  "ctl_auto_clear_on_done (set_runtime a r c) = ctl_auto_clear_on_done c"
  "ctl_auto_clear_on_failed (set_runtime a r c) = ctl_auto_clear_on_failed c"
  "ctl_resume_flow_on_done (set_runtime a r c) = ctl_resume_flow_on_done c"
  "ctl_resume_flow_on_failed (set_runtime a r c) = ctl_resume_flow_on_failed c"
  by (simp_all add: set_runtime_def)

lemma clear_goal_simps [simp]:
  "am_on (clear_goal r) = am_on r" "am_external (clear_goal r) = am_external r"
  "am_q_deg (clear_goal r) = am_q_deg r" "am_request_id (clear_goal r) = am_request_id r"
  "am_fail (clear_goal r) = am_fail r" "am_motion_done (clear_goal r) = am_motion_done r"
  "am_state (clear_goal r) = am_state r"
  by (simp_all add: clear_goal_def)

text \<open>What the bookkeeping steps of a state message leave alone.\<close>

lemma update_ft_required_simps [simp]:
  "am_on (update_ft_required p a r) = am_on r" "am_external (update_ft_required p a r) = am_external r"
  "am_q_deg (update_ft_required p a r) = am_q_deg r" "am_fail (update_ft_required p a r) = am_fail r"
  "am_motion_done (update_ft_required p a r) = am_motion_done r"
  "am_request_id (update_ft_required p a r) = am_request_id r"
  by (simp_all add: update_ft_required_def split: pyval.splits)

lemma merge_block_simps [simp]:
  "am_on (merge_block b st r) = am_on r" "am_external (merge_block b st r) = am_external r"
  "am_q_deg (merge_block b st r) = am_q_deg r" "am_fail (merge_block b st r) = am_fail r"
  "am_motion_done (merge_block b st r) = am_motion_done r"
  "am_request_id (merge_block b st r) = am_request_id r"
  "am_ft_required (merge_block b st r) = am_ft_required r"
  by (simp_all add: merge_block_def)

lemma q_known_store: "init_inv c \<Longrightarrow> init_inv (store_q a q c)"
  by (cases q) (auto simp: init_inv_def q_known_def store_q_def)

lemma q_known_start:
  assumes "init_inv c"
  shows "init_inv (fst (start_arms c now arms))"
proof (cases "filter (\<lambda>a. am_q_deg (ctl_runtime c a) = None) arms = []")
  case True
  then have "am_q_deg (ctl_runtime c a) \<noteq> None" if "a \<in> set arms" for a
    using that by (auto simp: filter_empty_conv)
  with assms True show ?thesis
    by (auto simp: start_arms_def Let_def init_inv_def q_known_def start_runtime_def)
next
  case False
  with assms show ?thesis by (simp add: start_arms_def Let_def init_inv_def)
qed

lemma q_known_cancel: "init_inv c \<Longrightarrow> init_inv (fst (cancel_arms c arms))"
  by (auto simp: cancel_arms_def Let_def init_inv_def q_known_def cancel_runtime_def)

lemma init_inv_cong: "ctl_runtime c' = ctl_runtime c \<Longrightarrow> init_inv c' = init_inv c"
  by (simp add: init_inv_def)

lemma q_known_command: "init_inv c \<Longrightarrow> init_inv (fst (handle_command c now cmd))"
proof -
  assume inv: "init_inv c"
  let ?c0 = "c\<lparr>ctl_changed := False, ctl_error := [], ctl_last_command := ac_arms cmd\<rparr>"
  let ?c1 = "store_q RightArm (ac_right_q_deg cmd) (store_q LeftArm (ac_left_q_deg cmd) ?c0)"
  have "init_inv ?c0" using inv by (simp add: init_inv_def)
  then have c1: "init_inv ?c1" by (intro q_known_store)
  then have "init_inv (?c1\<lparr>ctl_auto_roi_recover := b, ctl_changed := d\<rparr>)" for b d
    by (simp add: init_inv_def)
  with c1 show ?thesis
    by (simp add: handle_command_def Let_def q_known_start q_known_cancel split: option.split)
qed

lemma finish_motion_on:
  assumes "am_on (ctl_runtime c a)" and "q_known (ctl_runtime c a)"
  shows "q_known (ctl_runtime (fst (finish_motion c p now a)) b)
    \<longleftrightarrow> (if b = a then True else q_known (ctl_runtime c b))"
  using assms
  by (auto simp: finish_motion_def Let_def q_known_def mark_done_def split: prod.splits option.splits)

lemma q_known_dispatch:
  assumes "init_inv c"
  shows "init_inv (fst (dispatch_status c p b now a st prev))"
proof -
  have q: "q_known (ctl_runtime c x)" for x using assms by (simp add: init_inv_def)
  have "init_inv (fst (finish_motion c p now a))" if "am_on (ctl_runtime c a)"
    using finish_motion_on [OF that q] q by (simp add: init_inv_def)
  moreover have "init_inv (mark_failed a m c)" if "am_on (ctl_runtime c a)" for m
    using that q by (auto simp: mark_failed_def Let_def init_inv_def q_known_def)
  ultimately show ?thesis
    using q by (auto simp: dispatch_status_def Let_def init_inv_def q_known_def)
qed

lemma q_known_update_arm: "init_inv c \<Longrightarrow> init_inv (fst (update_arm p block now a c))"
proof -
  assume inv: "init_inv c"
  define b where "b = (case dget block (arm_name a) of PDict d \<Rightarrow> d | _ \<Rightarrow> block)"
  define st where "st = norm_status (dget b ''status'')"
  define ack where "ack = dget b ''request_id''"
  define r0 where "r0 = update_ft_required p a (ctl_runtime c a)"
  define r1 where "r1 = (if sees_external st ack r0 then external_runtime st ack r0 else r0)"
  define c1 where "c1 = (set_runtime a r1 c)\<lparr>ctl_started := (if sees_external st ack r0 then insert a (ctl_started c) else ctl_started c)\<rparr>"
  have "q_known r1" using inv by (simp add: r1_def r0_def init_inv_def q_known_def external_runtime_def)
  then have c1: "init_inv c1" and c2: "init_inv (set_runtime a (merge_block b st r1) c1)"
    using inv by (auto simp: c1_def init_inv_def q_known_def)
  have eq: "update_arm p block now a c =
      (if am_on r1 \<and> \<not> am_motion_done r1 \<and> foreign_ack ack r1 then (c1, sees_external st ack r0)
       else case dispatch_status (set_runtime a (merge_block b st r1) c1) p b now a st (am_server_status r1) of
         (c3, ch) \<Rightarrow> (c3, sees_external st ack r0 \<or> ch))"
    by (simp only: update_arm_def Let_def b_def st_def ack_def r0_def r1_def c1_def)
  show ?thesis
    unfolding eq using c1 q_known_dispatch [OF c2, of p b now a st "am_server_status r1"]
    by (auto split: prod.split)
qed

lemma q_known_snapshot: "init_inv c \<Longrightarrow> init_inv (fst (update_from_snapshot c s))"
proof -
  assume inv: "init_inv c"
  show ?thesis
  proof (cases "dget (payload s) ''init_motion''")
    case (PDict block)
    let ?u = "\<lambda>a c. fst (update_arm (payload s) block (received_monotonic s) a c)"
    from inv have "init_inv (?u RightArm (?u LeftArm c))" by (intro q_known_update_arm)
    with PDict show ?thesis
      by (auto simp: update_from_snapshot_def init_inv_def split: prod.splits)
  qed (use inv in \<open>simp_all add: update_from_snapshot_def\<close>)
qed

lemma compose_runtime [simp]: "ctl_runtime (fst (compose_intent c i)) = ctl_runtime c"
  by (simp add: compose_intent_def external_init_intent_def Let_def split: option.splits)

section \<open>The controller as a machine\<close>

datatype init_event =
    Command int ArmInitCommand
  | Snapshot StateSnapshot
  | Compose "CommandIntent option"
  | Consume

fun init_step :: "ArmInitController \<Rightarrow> init_event \<Rightarrow> ArmInitController \<times> CommandIntent option" where
  "init_step c (Command now_ns cmd) = (fst (handle_command c now_ns cmd), None)"
| "init_step c (Snapshot s) = (fst (update_from_snapshot c s), None)"
| "init_step c (Compose i) = compose_intent c i"
| "init_step c Consume = (fst (consume_transitions c), None)"

lemma init_inv_step: "init_inv c \<Longrightarrow> init_inv (fst (init_step c e))"
proof (cases e)
  case (Compose i)
  assume "init_inv c"
  then have "init_inv (fst (compose_intent c i))" using init_inv_cong [OF compose_runtime [of c i]] by blast
  with Compose show ?thesis by simp
next
  case Consume
  assume "init_inv c"
  with Consume show ?thesis by (simp add: consume_transitions_def init_inv_def)
qed (simp_all add: q_known_command q_known_snapshot)

interpretation arm_init: state_machine init_step init_inv
  by unfold_locales (rule init_inv_step)

lemma init_inv_init: "init_inv (controller_init t cd cf rd rf mc w)"
  by (simp add: init_inv_def controller_init_def q_known_def arm_runtime_init_def)

text \<open>What a composed packet may carry on an arm the override owns.\<close>

definition init_or_hold :: "ArmRuntime \<Rightarrow> pydict option \<Rightarrow> bool" where
  "init_or_hold r d = (d = Some hold_payload \<or>
     (\<exists>q. am_q_deg r = Some q \<and> \<not> am_external r \<and> \<not> am_fail r \<and> \<not> am_motion_done r
        \<and> d = Some (init_arm_payload q (am_request_id r))))"

definition intent_arm :: "arm \<Rightarrow> CommandIntent \<Rightarrow> pydict option" where
  "intent_arm a i = (case a of LeftArm \<Rightarrow> ci_left i | RightArm \<Rightarrow> ci_right i)"

lemma compose_arm_latched:
  assumes "am_on r" and "q_known r" and "\<not> am_external r"
  shows "\<exists>d. compose_arm r pol = Some d \<and> init_or_hold r (Some d)"
  using assms by (auto simp: compose_arm_def init_or_hold_def q_known_def)

lemma compose_intent_latched:
  assumes "init_inv c" and "am_on (ctl_runtime c a)" and "compose_intent c i = (c', Some out)"
  shows "init_or_hold (ctl_runtime c a) (intent_arm a out)"
proof (cases "external_init_active c")
  case True
  with assms(3) show ?thesis
    by (cases a) (auto simp: compose_intent_def external_init_intent_def Let_def override_intent_def
        intent_arm_def init_or_hold_def ours_def both_arms_def split: if_splits option.splits)
next
  case False
  then have ext: "am_on (ctl_runtime c x) \<Longrightarrow> \<not> am_external (ctl_runtime c x)" for x
    by (cases x) (auto simp: external_init_active_def both_arms_def)
  have q: "q_known (ctl_runtime c x)" for x using assms(1) by (simp add: init_inv_def)
  have comp: "\<exists>d. compose_arm (ctl_runtime c x) pol = Some d \<and> (am_on (ctl_runtime c x) \<longrightarrow> init_or_hold (ctl_runtime c x) (Some d))"
    for x pol
    using compose_arm_latched [OF _ q ext] by (cases "am_on (ctl_runtime c x)") (auto simp: compose_arm_def)
  obtain l where l: "compose_arm (ctl_runtime c LeftArm) (arm_payload (intent_left i)) = Some l"
    "am_on (ctl_runtime c LeftArm) \<longrightarrow> init_or_hold (ctl_runtime c LeftArm) (Some l)" using comp by blast
  obtain r where r: "compose_arm (ctl_runtime c RightArm) (arm_payload (intent_right i)) = Some r"
    "am_on (ctl_runtime c RightArm) \<longrightarrow> init_or_hold (ctl_runtime c RightArm) (Some r)" using comp by blast
  from assms(2) have "\<not> (\<not> am_on (ctl_runtime c LeftArm) \<and> \<not> am_on (ctl_runtime c RightArm))"
    by (cases a) auto
  with assms(3) False l(1) r(1) have "out = override_intent c i l r"
    by (auto simp: compose_intent_def)
  with l(2) r(2) assms(2) show ?thesis
    by (cases a) (auto simp: override_intent_def intent_arm_def)
qed

section \<open>One arm of a state message\<close>

text \<open>A state message handles the arms one after the other; each touches only its own runtime and
  never the configuration.\<close>

definition ctl_flags :: "ArmInitController \<Rightarrow> pyfloat \<times> bool \<times> bool \<times> bool \<times> bool" where
  "ctl_flags c = (ctl_ft_tare_wait_sec c, ctl_auto_clear_on_done c, ctl_auto_clear_on_failed c,
     ctl_resume_flow_on_done c, ctl_resume_flow_on_failed c)"

lemma ctl_flags_set_runtime [simp]: "ctl_flags (set_runtime a r c) = ctl_flags c"
  by (simp add: ctl_flags_def set_runtime_def)

lemma dispatch_local:
  "b \<noteq> a \<Longrightarrow> ctl_runtime (fst (dispatch_status c p blk now a st prev)) b = ctl_runtime c b"
  "ctl_flags (fst (dispatch_status c p blk now a st prev)) = ctl_flags c"
  by (simp_all add: dispatch_status_def finish_motion_def mark_done_def mark_failed_def Let_def ctl_flags_def
      set_runtime_def split: prod.split)

lemma update_arm_local:
  "b \<noteq> a \<Longrightarrow> ctl_runtime (fst (update_arm p blk now a c)) b = ctl_runtime c b"
  "ctl_flags (fst (update_arm p blk now a c)) = ctl_flags c"
  unfolding update_arm_def Let_def
  by (simp_all add: case_prod_beta dispatch_local) (simp_all add: ctl_flags_def set_runtime_def)

lemma snapshot_arm:
  assumes "dget (payload s) ''init_motion'' = PDict blk"
    and "\<And>c0. ctl_runtime c0 a = ctl_runtime c a \<Longrightarrow> ctl_flags c0 = ctl_flags c
      \<Longrightarrow> Q (ctl_runtime (fst (update_arm (payload s) blk (received_monotonic s) a c0)) a)"
  shows "Q (ctl_runtime (fst (update_from_snapshot c s)) a)"
  using assms(1) assms(2) [of c]
    assms(2) [of "fst (update_arm (payload s) blk (received_monotonic s) LeftArm c)"]
  by (cases a) (simp_all add: update_from_snapshot_def case_prod_beta Let_def update_arm_local)

lemma snapshot_flags [simp]: "ctl_flags (fst (update_from_snapshot c s)) = ctl_flags c"
proof -
  have "ctl_flags (x\<lparr>ctl_changed := b\<rparr>) = ctl_flags x" for x b by (simp add: ctl_flags_def)
  then show ?thesis
    by (simp add: update_from_snapshot_def case_prod_beta Let_def update_arm_local split: pyval.split)
qed

text \<open>The effect of a state message on an arm that is already at its init pose, or already failed.\<close>

definition arm_block :: "pydict \<Rightarrow> arm \<Rightarrow> pydict" where
  "arm_block blk a = (case dget blk (arm_name a) of PDict d \<Rightarrow> d | _ \<Rightarrow> blk)"

lemma update_arm_unowned:
  assumes "am_on (ctl_runtime c a)" and "\<not> am_external (ctl_runtime c a)"
  shows "fst (update_arm p blk now a c) =
    (let b = arm_block blk a; st = norm_status (dget b ''status''); r0 = update_ft_required p a (ctl_runtime c a);
         c1 = (set_runtime a r0 c)\<lparr>ctl_started := ctl_started c\<rparr>
     in if \<not> am_motion_done r0 \<and> foreign_ack (dget b ''request_id'') r0 then c1
        else fst (dispatch_status (set_runtime a (merge_block b st r0) c1) p b now a st (am_server_status r0)))"
  using assms
  by (simp add: update_arm_def arm_block_def Let_def sees_external_def case_prod_beta)

definition failed_latch :: "arm \<Rightarrow> ArmInitController \<Rightarrow> bool" where
  "failed_latch a c = (am_on (ctl_runtime c a) \<and> am_fail (ctl_runtime c a) \<and> \<not> am_external (ctl_runtime c a)
     \<and> \<not> ctl_auto_clear_on_failed c \<and> \<not> ctl_resume_flow_on_failed c)"

lemma failed_latch_update_arm:
  assumes "failed_latch a c"
  shows "am_on (ctl_runtime (fst (update_arm p blk now a c)) a) \<and> am_fail (ctl_runtime (fst (update_arm p blk now a c)) a)
    \<and> \<not> am_external (ctl_runtime (fst (update_arm p blk now a c)) a)"
  using assms
  by (auto simp: failed_latch_def update_arm_unowned dispatch_status_def mark_failed_def Let_def)

lemma failed_latch_snapshot:
  assumes "failed_latch a c"
  shows "failed_latch a (fst (update_from_snapshot c s))"
proof (cases "dget (payload s) ''init_motion''")
  case (PDict blk)
  have "(\<lambda>r. am_on r \<and> am_fail r \<and> \<not> am_external r) (ctl_runtime (fst (update_from_snapshot c s)) a)"
    by (rule snapshot_arm [OF PDict], rule failed_latch_update_arm)
      (use assms in \<open>auto simp: failed_latch_def ctl_flags_def\<close>)
  with assms snapshot_flags [of c s] show ?thesis by (auto simp: failed_latch_def ctl_flags_def)
qed (use assms in \<open>simp_all add: update_from_snapshot_def\<close>)

lemma failed_latch_step:
  assumes "failed_latch a c" and "\<forall>t cmd. e \<noteq> Command t cmd"
  shows "failed_latch a (fst (init_step c e))"
proof (cases e)
  case (Compose i)
  have "ctl_flags (fst (compose_intent c i)) = ctl_flags c"
    by (simp add: compose_intent_def external_init_intent_def Let_def ctl_flags_def split: option.splits)
  with assms(1) Compose show ?thesis by (simp add: failed_latch_def ctl_flags_def)
next
  case Consume
  with assms(1) show ?thesis by (simp add: failed_latch_def consume_transitions_def)
qed (use assms in \<open>simp_all add: failed_latch_snapshot\<close>)

lemma tare_gate_update_arm:
  assumes r: "ctl_runtime c a = r" and on: "am_on r" "am_motion_done r" "\<not> am_fail r" "\<not> am_external r"
    and st: "norm_status (dget (arm_block blk a) ''status'') \<noteq> ''failed''"
    and w: "0 < ctl_ft_tare_wait_sec c"
  shows "am_on (ctl_runtime (fst (update_arm p blk now a c)) a) \<longleftrightarrow>
    fst (ft_tare_pending p a (am_ft_required (update_ft_required p a r)))
    \<or> \<not> (ctl_auto_clear_on_done c \<and> ctl_resume_flow_on_done c)"
  using assms
  by (auto simp: update_arm_unowned dispatch_status_def finish_motion_def mark_done_def Let_def set_runtime_def
      case_prod_beta split: option.split)

section \<open>Properties\<close>

text \<open>(C13) Whatever operator commands, state messages and intents came before, an arm the override
  has latched gets no policy traffic: a composed packet carries on that arm either Hold or its init
  pose with its current request id, the latter only while the motion is neither failed, finished nor
  foreign. In particular the branch of \<^verbatim>\<open>compose_intent\<close> that falls back to the policy's intent when
  the init pose is unknown is never taken.\<close>

theorem latched_arm_never_follows_policy:
  assumes "c = state_after init_step (controller_init t cd cf rd rf mc w) es"
    and "am_on (ctl_runtime c a)"
    and "compose_intent c i = (c', Some out)"
  shows "init_or_hold (ctl_runtime c a) (intent_arm a out)"
proof -
  have "init_inv c" unfolding assms(1) by (rule arm_init.inv_run) (rule init_inv_init)
  then show ?thesis using assms(2,3) by (rule compose_intent_latched)
qed

definition demo_start :: ArmInitCommand where
  "demo_start = \<lparr>ac_arms = ''left'', ac_action = ''start'', ac_left_q_deg = Some (replicate 6 (Fin 1)),
     ac_right_q_deg = None, ac_auto_roi_recover = None\<rparr>"

definition demo_ctl :: ArmInitController where
  "demo_ctl = state_after init_step (controller_init (Fin 1) True False True False True (Fin 5)) [Command 7 demo_start]"

definition demo_policy :: CommandIntent where
  "demo_policy = intent_arm_motion (Fin 1)"

lemmas demo_defs = demo_start_def demo_ctl_def demo_policy_def controller_init_def handle_command_def
  store_q_def set_runtime_def arms_for_selector_def both_arms_def resolve_action_def start_arms_def
  start_request_id_def start_runtime_def clear_goal_def arm_runtime_init_def Let_def

lemma demo_ctl_runtime [simp]:
  "am_on (ctl_runtime demo_ctl LeftArm)" "\<not> am_external (ctl_runtime demo_ctl LeftArm)"
  "\<not> am_fail (ctl_runtime demo_ctl LeftArm)" "\<not> am_motion_done (ctl_runtime demo_ctl LeftArm)"
  "am_q_deg (ctl_runtime demo_ctl LeftArm) = Some (replicate 6 (Fin 1))"
  "am_request_id (ctl_runtime demo_ctl LeftArm) = 7"
  "\<not> am_on (ctl_runtime demo_ctl RightArm)"
  by (simp_all add: demo_defs)

theorem latched_arm_never_follows_policy_witness:
  "\<exists>c' out. compose_intent demo_ctl (Some demo_policy) = (c', Some out)
     \<and> init_or_hold (ctl_runtime demo_ctl LeftArm) (intent_arm LeftArm out)"
proof -
  have "\<exists>c' out. compose_intent demo_ctl (Some demo_policy) = (c', Some out)"
    by (simp add: compose_intent_def external_init_active_def both_arms_def compose_arm_def)
  then obtain c' out where out: "compose_intent demo_ctl (Some demo_policy) = (c', Some out)" by blast
  with latched_arm_never_follows_policy [OF demo_ctl_def demo_ctl_runtime(1) out] show ?thesis by blast
qed

text \<open>Starting the override latches every selected arm under one request id that is new for each
  of them: larger than any id the arm had and no smaller than the clock. The arms not selected keep
  their runtime. It starts exactly when every selected arm has an init pose.\<close>

theorem start_issues_fresh_shared_id:
  assumes "\<forall>a\<in>set arms. am_q_deg (ctl_runtime c a) \<noteq> None" and "arms \<noteq> []"
  shows "\<exists>c' rid. start_arms c now_ns arms = (c', True) \<and> now_ns \<le> rid
    \<and> (\<forall>a\<in>set arms. am_on (ctl_runtime c' a) \<and> \<not> am_fail (ctl_runtime c' a) \<and> \<not> am_external (ctl_runtime c' a)
          \<and> am_request_id (ctl_runtime c' a) = rid \<and> am_request_id (ctl_runtime c a) < rid)
    \<and> (\<forall>a. a \<notin> set arms \<longrightarrow> ctl_runtime c' a = ctl_runtime c a)"
proof -
  let ?rid = "start_request_id c now_ns arms"
  have none: "filter (\<lambda>a. am_q_deg (ctl_runtime c a) = None) arms = []"
    using assms(1) by (auto simp: filter_empty_conv)
  have "now_ns \<le> ?rid" unfolding start_request_id_def by (rule foldl_max_ge)
  moreover have "am_request_id (ctl_runtime c a) < ?rid" if "a \<in> set arms" for a
    using foldl_max_ge_elem [of "am_request_id (ctl_runtime c a) + 1" "map (\<lambda>a. am_request_id (ctl_runtime c a) + 1) arms" now_ns] that
    unfolding start_request_id_def by auto
  ultimately show ?thesis
    using none assms(2)
    by (intro exI [of _ "fst (start_arms c now_ns arms)"] exI [of _ ?rid])
      (simp add: start_arms_def Let_def start_runtime_def)
qed

theorem start_issues_fresh_shared_id_witness:
  "\<exists>c' rid. start_arms demo_ctl 3 [LeftArm] = (c', True) \<and> 7 < rid \<and> am_request_id (ctl_runtime c' LeftArm) = rid"
  using start_issues_fresh_shared_id [of "[LeftArm]" demo_ctl 3] by auto


definition demo_failed :: ArmInitController where
  "demo_failed = mark_failed LeftArm ''collision'' demo_ctl"

definition demo_snapshot :: "string \<Rightarrow> StateSnapshot" where
  "demo_snapshot st = \<lparr>payload = [(''init_motion'', PDict [(''left'', PDict [(''status'', PStr st)])])],
     received_monotonic = Fin 9\<rparr>"


text \<open>Once an arm has reached its init pose and a tare wait is configured, a state message that
  reports no failure releases the arm exactly when the force/torque tare is no longer pending and the
  controller is configured to resume: neither an elapsed wait nor a vanished sensor block of an arm
  that needs its sensor releases it.\<close>

theorem tare_gates_release:
  assumes "dget (payload s) ''init_motion'' = PDict blk"
    and "r = ctl_runtime c a" and "am_on r" "am_motion_done r" "\<not> am_fail r" "\<not> am_external r"
    and "norm_status (dget (arm_block blk a) ''status'') \<noteq> ''failed''"
    and "0 < ctl_ft_tare_wait_sec c"
  shows "am_on (ctl_runtime (fst (update_from_snapshot c s)) a) \<longleftrightarrow>
    fst (ft_tare_pending (payload s) a (am_ft_required (update_ft_required (payload s) a r)))
    \<or> \<not> (ctl_auto_clear_on_done c \<and> ctl_resume_flow_on_done c)"
proof -
  let ?rel = "fst (ft_tare_pending (payload s) a (am_ft_required (update_ft_required (payload s) a r)))
    \<or> \<not> (ctl_auto_clear_on_done c \<and> ctl_resume_flow_on_done c)"
  show ?thesis
  proof (rule snapshot_arm [OF assms(1), where Q = "\<lambda>x. am_on x = ?rel"])
    fix c0 assume rt: "ctl_runtime c0 a = ctl_runtime c a" and "ctl_flags c0 = ctl_flags c"
    then have fl: "ctl_ft_tare_wait_sec c0 = ctl_ft_tare_wait_sec c" "ctl_auto_clear_on_done c0 = ctl_auto_clear_on_done c"
      "ctl_resume_flow_on_done c0 = ctl_resume_flow_on_done c" by (simp_all add: ctl_flags_def)
    from rt assms(2) have "ctl_runtime c0 a = r" by simp
    from tare_gate_update_arm [OF this assms(3-7)] assms(8) fl
    show "am_on (ctl_runtime (fst (update_arm (payload s) blk (received_monotonic s) a c0)) a) = ?rel" by simp
  qed
qed

definition demo_at_pose :: ArmInitController where
  "demo_at_pose = set_runtime LeftArm ((ctl_runtime demo_ctl LeftArm)\<lparr>am_motion_done := True\<rparr>) demo_ctl"

definition demo_tare :: "string \<Rightarrow> StateSnapshot" where
  "demo_tare stage = \<lparr>payload = [(''init_motion'', PDict [(''status'', PStr ''done'')]),
     (''left'', PDict [(''force_torque'', PDict [(''enabled'', PBool True), (''connected'', PBool True),
        (''auto_tare_stage'', PStr stage), (''bias_valid'', PBool True), (''tare_state'', PStr ''accepted'')])])],
     received_monotonic = Fin 900\<rparr>"

theorem tare_gates_release_witness:
  "am_on (ctl_runtime (fst (update_from_snapshot demo_at_pose (demo_tare ''settling''))) LeftArm)
   \<and> \<not> am_on (ctl_runtime (fst (update_from_snapshot demo_at_pose (demo_tare ''idle''))) LeftArm)"
proof -
  have blk: "dget (payload (demo_tare st)) ''init_motion'' = PDict [(''status'', PStr ''done'')]" for st
    by (simp add: demo_tare_def)
  have rt: "am_on (ctl_runtime demo_at_pose LeftArm)" "am_motion_done (ctl_runtime demo_at_pose LeftArm)"
    "\<not> am_fail (ctl_runtime demo_at_pose LeftArm)" "\<not> am_external (ctl_runtime demo_at_pose LeftArm)"
    by (simp_all add: demo_at_pose_def)
  have st: "norm_status (dget (arm_block [(''status'', PStr ''done'')] LeftArm) ''status'') \<noteq> ''failed''" by code_simp
  have fl: "0 < ctl_ft_tare_wait_sec demo_at_pose" "ctl_auto_clear_on_done demo_at_pose" "ctl_resume_flow_on_done demo_at_pose"
    by (simp_all add: demo_at_pose_def) (simp_all add: demo_defs pymax_def)
  have "\<forall>b\<in>{True, False}. fst (ft_tare_pending (payload (demo_tare ''settling'')) LeftArm b)
      \<and> \<not> fst (ft_tare_pending (payload (demo_tare ''idle'')) LeftArm b)" by code_simp
  then have pend: "fst (ft_tare_pending (payload (demo_tare ''settling'')) LeftArm b)"
    "\<not> fst (ft_tare_pending (payload (demo_tare ''idle'')) LeftArm b)" for b by (cases b; simp)+
  show ?thesis
    using tare_gates_release [OF blk refl rt st fl(1), of "''settling''"]
      tare_gates_release [OF blk refl rt st fl(1), of "''idle''"] pend fl(2,3) by simp
qed

text \<open>A command datagram whose \<^verbatim>\<open>arms\<close> field is a list passes the schema test and then raises
  \<^verbatim>\<open>TypeError\<close> in the set membership test. \<^verbatim>\<open>handle_payloads\<close> only catches \<^verbatim>\<open>ValueError\<close>, so the
  exception leaves the loop and the payloads behind it are not handled.\<close>

theorem unhashable_arms_escape_handle_payloads:
  "\<exists>m. handle_payloads c clock i
     (PDict [(''schema'', PStr ARM_INIT_COMMAND_SCHEMA), (''arms'', PList xs)] # vs) = (c, Inl (TypeError m))"
  by (simp add: parse_arm_init_command_def in_str_set_def hashable_def res_bind_def)

end
