(* ===== verification/SafetyGate.thy ===== *)
theory SafetyGate
  imports CommandClient
begin

text \<open>
  The client-side readiness gate: the safety section of the configuration
  (\<^verbatim>\<open>policy_runner/config.py\<close>), the calibration geometry (\<^verbatim>\<open>policy_runner/geometry.py\<close>) and the gate
  that every command intent passes (\<^verbatim>\<open>policy_runner/safety.py\<close>).
\<close>

section \<open>Safety configuration\<close>

record SafetyConfig =
  allow_real_motion :: bool
  allow_real_gripper_motion :: bool
  allow_rbpodo_controller_simulation_cartesian :: bool
  allow_configured_estimate_geometry_in_controller_simulation :: bool
  selected_arm :: string
  selected_arms :: "string list"
  retarget_status :: string
  collision_model_status :: string
  minimum_inter_arm_distance_m :: "pyfloat option"
  workspace_envelope_status :: string
  measured_retarget_available :: bool
  measured_collision_model_available :: bool
  measured_gripper_available :: bool
  allow_selected_arm_checkpoint_mismatch_readonly :: bool
  require_valid_joint_state :: bool
  joint_limit_stall_abort_sec :: pyfloat
  kinematics_available :: bool
  camera_available :: bool
  camera_stale :: bool
  camera_stale_timeout_sec :: pyfloat
  allow_configured_estimate_geometry_in_simulation :: bool
  allow_configured_estimate_geometry_in_real :: bool

definition default_safety_config :: SafetyConfig where
  "default_safety_config =
     \<lparr>allow_real_motion = False, allow_real_gripper_motion = False,
      allow_rbpodo_controller_simulation_cartesian = False,
      allow_configured_estimate_geometry_in_controller_simulation = True,
      selected_arm = ''both'', selected_arms = [], retarget_status = ''missing'',
      collision_model_status = ''missing'', minimum_inter_arm_distance_m = None,
      workspace_envelope_status = ''missing'', measured_retarget_available = False,
      measured_collision_model_available = False, measured_gripper_available = False,
      allow_selected_arm_checkpoint_mismatch_readonly = False, require_valid_joint_state = True,
      joint_limit_stall_abort_sec = Fin 4, kinematics_available = False, camera_available = False,
      camera_stale = False, camera_stale_timeout_sec = Fin (1/2),
      allow_configured_estimate_geometry_in_simulation = True,
      allow_configured_estimate_geometry_in_real = False\<rparr>"

definition safety_config_post_init :: "SafetyConfig \<Rightarrow> SafetyConfig res" where
  "safety_config_post_init c =
     (if selected_arm c \<notin> {''left'', ''right'', ''both''}
      then Inl (ValueError ''safety.selected_arm must be left, right, or both'')
      else if filter (\<lambda>arm. arm \<notin> {''left'', ''right''}) (selected_arms c) \<noteq> []
      then Inl (ValueError ''safety.selected_arms entries must be left or right'')
      else if retarget_status c \<notin> {''missing'', ''configured_estimate'', ''measured'', ''accepted''}
      then Inl (ValueError ''safety.retarget_status must be missing, configured_estimate, measured, or accepted'')
      else if collision_model_status c \<notin> {''missing'', ''configured_estimate'', ''measured'', ''validated''}
      then Inl (ValueError ''safety.collision_model_status must be missing, configured_estimate, measured, or validated'')
      else if workspace_envelope_status c \<notin> {''missing'', ''configured_estimate'', ''measured'', ''validated''}
      then Inl (ValueError ''safety.workspace_envelope_status must be missing, configured_estimate, measured, or validated'')
      else if (case minimum_inter_arm_distance_m c of None \<Rightarrow> False | Some d \<Rightarrow> d < 0)
      then Inl (ValueError ''safety.minimum_inter_arm_distance_m must be non-negative'')
      else if camera_stale_timeout_sec c \<le> 0
      then Inl (ValueError ''safety.camera_stale_timeout_sec must be positive'')
      else Inr c)"

section \<open>Geometry\<close>

record GeometryStatus =
  gs_calibration_id :: "string option"
  gs_setup_id :: "string option"
  gs_status :: string
  gs_geometry_valid_for_real_policy :: bool
  gs_left_robot_mount_available :: bool
  gs_right_robot_mount_available :: bool
  gs_left_robot_mount_status :: string
  gs_right_robot_mount_status :: string
  gs_camera_intrinsics_status :: "(string \<times> string) list"
  gs_camera_extrinsics_status :: "(string \<times> string) list"
  gs_load_error :: "string option"

definition is_measured_status :: "string \<Rightarrow> bool" where
  "is_measured_status status = (py_lower (py_strip status) \<in> {''measured'', ''calibrated'', ''accepted''})"

definition robot_mounts_available :: "GeometryStatus \<Rightarrow> bool" where
  "robot_mounts_available g = (gs_left_robot_mount_available g \<and> gs_right_robot_mount_available g)"

definition camera_geometry_available :: "GeometryStatus \<Rightarrow> bool" where
  "camera_geometry_available g =
     (if gs_camera_intrinsics_status g = [] \<or> gs_camera_extrinsics_status g = [] then False
      else list_all (\<lambda>e. is_measured_status (snd e)) (gs_camera_intrinsics_status g)
         \<and> list_all (\<lambda>e. is_measured_status (snd e)) (gs_camera_extrinsics_status g))"

definition geometry_unavailable :: "string \<Rightarrow> GeometryStatus" where
  "geometry_unavailable why =
     \<lparr>gs_calibration_id = None, gs_setup_id = None, gs_status = ''unavailable'',
      gs_geometry_valid_for_real_policy = False, gs_left_robot_mount_available = False,
      gs_right_robot_mount_available = False, gs_left_robot_mount_status = ''unavailable'',
      gs_right_robot_mount_status = ''unavailable'', gs_camera_intrinsics_status = [],
      gs_camera_extrinsics_status = [], gs_load_error = Some why\<rparr>"

definition optional_string :: "pyval \<Rightarrow> string option" where
  "optional_string v = (case v of PStr s \<Rightarrow> Some s | _ \<Rightarrow> None)"

definition status_value :: "pydict \<Rightarrow> string \<Rightarrow> string \<Rightarrow> string" where
  "status_value raw key dflt =
     (case dget_or raw key (PStr dflt) of PNone \<Rightarrow> dflt | v \<Rightarrow> py_lower (py_strip (py_str v)))"

definition mount_status :: "pyval \<Rightarrow> bool \<times> string" where
  "mount_status value =
     (let mount = as_dict value;
          status = status_value mount ''status'' ''unknown'';
          available = (is_str (dget mount ''parent'') \<and> is_str (dget mount ''child'')
            \<and> (case dget mount ''xyz_rpy'' of PList xs \<Rightarrow> length xs = 6 | _ \<Rightarrow> False)
            \<and> status \<notin> {''missing'', ''unavailable'', ''unknown'', ''unmeasured'', ''invalid''})
      in (available, status))"

definition extrinsics_of_camera :: "pydict \<Rightarrow> string" where
  "extrinsics_of_camera camera =
     (if map_of camera ''extrinsics_status'' \<noteq> None then status_value camera ''extrinsics_status'' ''unknown''
      else if map_of camera ''hand_eye_status'' \<noteq> None then status_value camera ''hand_eye_status'' ''unknown''
      else ''unknown'')"

definition geometry_status_from_mapping :: "pydict \<Rightarrow> GeometryStatus" where
  "geometry_status_from_mapping raw =
     (let robot = as_dict (dget raw ''robot'');
          left_mount = mount_status (dget robot ''T_stand_left_base'');
          right_mount = mount_status (dget robot ''T_stand_right_base'');
          cameras = as_dict (dget raw ''cameras'')
      in \<lparr>gs_calibration_id = optional_string (dget raw ''calibration_id''),
          gs_setup_id = optional_string (dget raw ''setup_id''),
          gs_status = status_value raw ''status'' ''unknown'',
          gs_geometry_valid_for_real_policy = truthy (dget_or raw ''geometry_valid_for_real_policy'' (PBool False)),
          gs_left_robot_mount_available = fst left_mount,
          gs_right_robot_mount_available = fst right_mount,
          gs_left_robot_mount_status = snd left_mount,
          gs_right_robot_mount_status = snd right_mount,
          gs_camera_intrinsics_status =
            map (\<lambda>(name, v). (name, status_value (as_dict v) ''intrinsics_status'' ''unknown'')) cameras,
          gs_camera_extrinsics_status = map (\<lambda>(name, v). (name, extrinsics_of_camera (as_dict v))) cameras,
          gs_load_error = None\<rparr>)"

text \<open>The outcome of reading the calibration file: missing, unreadable with the exception's text, or
  a mapping.\<close>

datatype load_outcome = FileMissing | FileInvalid string | Loaded pydict

fun load_geometry_status :: "load_outcome \<Rightarrow> GeometryStatus" where
  "load_geometry_status FileMissing = geometry_unavailable ''geometry_file_missing''"
| "load_geometry_status (FileInvalid exc) = geometry_unavailable (''geometry_file_invalid: '' @ exc)"
| "load_geometry_status (Loaded raw) = geometry_status_from_mapping raw"

section \<open>The gate\<close>

record SafetyDecision =
  allowed :: bool
  reason :: string

definition allow :: SafetyDecision where "allow = \<lparr>allowed = True, reason = ''ok''\<rparr>"

definition deny :: "string \<Rightarrow> SafetyDecision" where "deny why = \<lparr>allowed = False, reason = why\<rparr>"

record ActionRequirements =
  requires_camera :: bool
  ar_camera_stale_timeout_sec :: "pyfloat option"
  requires_kinematics :: bool
  requires_geometry :: bool
  requires_camera_geometry :: bool
  requires_valid_tcp_pose :: bool
  requires_valid_joint_state :: bool
  simulation_only :: bool
  requires_observed_simulation :: bool
  ar_allow_rbpodo_controller_simulation_cartesian :: bool
  cartesian_motion :: bool

definition default_requirements :: ActionRequirements where
  "default_requirements =
     \<lparr>requires_camera = False, ar_camera_stale_timeout_sec = None, requires_kinematics = False,
      requires_geometry = False, requires_camera_geometry = False, requires_valid_tcp_pose = False,
      requires_valid_joint_state = True, simulation_only = False, requires_observed_simulation = False,
      ar_allow_rbpodo_controller_simulation_cartesian = False, cartesian_motion = False\<rparr>"

definition requirements_post_init :: "ActionRequirements \<Rightarrow> ActionRequirements res" where
  "requirements_post_init r =
     (case ar_camera_stale_timeout_sec r of
        Some t \<Rightarrow> if t \<le> 0 then Inl (ValueError ''camera_stale_timeout_sec must be positive'') else Inr r
      | None \<Rightarrow> Inr r)"

record CameraReadiness =
  cr_available :: bool
  cr_last_observed_monotonic_sec :: "pyfloat option"
  cr_stale :: bool

record SafetyGate =
  sg_mode :: string
  sg_config :: SafetyConfig
  sg_stale_timeout_sec :: pyfloat
  sg_geometry_status :: "GeometryStatus option"
  sg_camera_readiness :: "CameraReadiness option"

definition is_true :: "pyval \<Rightarrow> bool" where "is_true v = (v = PBool True)"

definition is_false :: "pyval \<Rightarrow> bool" where "is_false v = (v = PBool False)"

definition camera_readiness_missing :: "pydict \<Rightarrow> bool" where
  "camera_readiness_missing raw =
     (if list_ex (\<lambda>key. is_true (dget raw key)) [''missing'', ''required_missing'', ''required_camera_missing''] then True
      else if is_false (dget raw ''complete'') then True
      else if is_false (dget raw ''required_present'') then True
      else False)"

fun first_number :: "pydict \<Rightarrow> string list \<Rightarrow> pyfloat option" where
  "first_number raw [] = None"
| "first_number raw (key # keys) =
     (case strict_num (dget raw key) of Some f \<Rightarrow> Some f | None \<Rightarrow> first_number raw keys)"

definition camera_last_observed_monotonic :: "pydict \<Rightarrow> pyfloat \<Rightarrow> pyfloat option" where
  "camera_last_observed_monotonic raw now_monotonic =
     (case strict_num (dget raw ''last_observed_monotonic_sec'') of
        Some f \<Rightarrow> Some f
      | None \<Rightarrow>
          (case first_number raw [''latest_observation_age_sec'', ''last_observation_age_sec'',
                                  ''bundle_age_sec'', ''latest_bundle_age_sec''] of
             Some age \<Rightarrow> Some (now_monotonic - age)
           | None \<Rightarrow>
               (case first_number raw [''latest_observation_age_ms'', ''last_observation_age_ms'',
                                       ''bundle_age_ms'', ''latest_bundle_age_ms''] of
                  Some age \<Rightarrow> Some (now_monotonic - age * Fin (1 / 1000))
                | None \<Rightarrow> None)))"

definition camera_readiness_from_snapshot :: "StateSnapshot \<Rightarrow> pyfloat \<Rightarrow> CameraReadiness option" where
  "camera_readiness_from_snapshot s now =
     (let raw0 = dget (payload s) ''camera_readiness'';
          raw1 = (if raw0 = PNone then dget (payload s) ''camera'' else raw0)
      in case raw1 of
           PDict raw \<Rightarrow>
             if camera_readiness_missing raw
             then Some \<lparr>cr_available = False, cr_last_observed_monotonic_sec = None, cr_stale = False\<rparr>
             else Some \<lparr>cr_available = truthy (dget_or raw ''available'' (dget_or raw ''healthy'' (PBool False))),
                        cr_last_observed_monotonic_sec = camera_last_observed_monotonic raw now,
                        cr_stale = truthy (dget_or raw ''stale'' (PBool False))\<rparr>
         | _ \<Rightarrow> None)"

definition arm_has_valid_joint_state :: "pydict \<Rightarrow> string \<Rightarrow> bool" where
  "arm_has_valid_joint_state p arm =
     (case dget_or p arm (PDict []) of
        PDict arm_payload \<Rightarrow>
          truthy (dget_or arm_payload ''has_valid_joint_state'' (PBool False)) \<and>
          (case dget arm_payload ''q_actual_deg'' of PList q \<Rightarrow> length q = 6 | _ \<Rightarrow> False)
      | _ \<Rightarrow> False)"

definition has_valid_joint_state :: "pydict \<Rightarrow> bool" where
  "has_valid_joint_state p = list_all (arm_has_valid_joint_state p) [''left'', ''right'']"

definition arm_has_valid_tcp_pose :: "pydict \<Rightarrow> string \<Rightarrow> bool" where
  "arm_has_valid_tcp_pose p arm =
     (case dget_or p arm (PDict []) of
        PDict arm_payload \<Rightarrow> truthy (dget_or arm_payload ''has_valid_tcp_pose'' (PBool False))
      | _ \<Rightarrow> False)"

definition has_valid_tcp_pose :: "pydict \<Rightarrow> bool" where
  "has_valid_tcp_pose p = list_all (arm_has_valid_tcp_pose p) [''left'', ''right'']"

text \<open>\<^verbatim>\<open>requirements.camera_stale_timeout_sec or self.config.camera_stale_timeout_sec\<close>.\<close>

definition camera_timeout :: "SafetyGate \<Rightarrow> ActionRequirements \<Rightarrow> pyfloat" where
  "camera_timeout g req =
     (case ar_camera_stale_timeout_sec req of
        Some t \<Rightarrow> if t \<noteq> Fin 0 then t else camera_stale_timeout_sec (sg_config g)
      | None \<Rightarrow> camera_stale_timeout_sec (sg_config g))"

definition evaluate_camera_requirements ::
  "SafetyGate \<Rightarrow> ActionRequirements \<Rightarrow> StateSnapshot \<Rightarrow> pyfloat \<Rightarrow> SafetyDecision" where
  "evaluate_camera_requirements g req s now =
     (if \<not> requires_camera req then allow
      else let timeout_sec = camera_timeout g req;
               readiness = (case camera_readiness_from_snapshot s now of
                              Some r \<Rightarrow> Some r | None \<Rightarrow> sg_camera_readiness g)
           in case readiness of
                None \<Rightarrow>
                  if \<not> camera_available (sg_config g) then deny ''camera_unavailable''
                  else if camera_stale (sg_config g) then deny ''camera_stale''
                  else allow
              | Some r \<Rightarrow>
                  if \<not> cr_available r then deny ''camera_unavailable''
                  else if cr_stale r then deny ''camera_stale''
                  else case cr_last_observed_monotonic_sec r of
                         None \<Rightarrow> deny ''camera_unavailable''
                       | Some t \<Rightarrow> if timeout_sec < now - t then deny ''camera_stale'' else allow)"

definition evaluate_geometry_requirements :: "SafetyGate \<Rightarrow> ActionRequirements \<Rightarrow> pydict \<Rightarrow> SafetyDecision" where
  "evaluate_geometry_requirements g req p =
     (if requires_valid_tcp_pose req \<and> \<not> has_valid_tcp_pose p then deny ''invalid_tcp_pose''
      else if requires_camera_geometry req
        \<and> (case sg_geometry_status g of None \<Rightarrow> True | Some gs \<Rightarrow> \<not> camera_geometry_available gs)
      then deny ''camera_geometry_unavailable''
      else allow)"

definition evaluate ::
  "SafetyGate \<Rightarrow> StateSnapshot option \<Rightarrow> CommandIntent option \<Rightarrow> ActionRequirements option \<Rightarrow> pyfloat \<Rightarrow> SafetyDecision" where
  "evaluate g snapshot intent requirements now =
     (case intent of
        None \<Rightarrow> allow
      | Some _ \<Rightarrow>
        let req = (case requirements of None \<Rightarrow> default_requirements | Some r \<Rightarrow> r) in
        case snapshot of
          None \<Rightarrow> deny ''state_stream_absent''
        | Some s \<Rightarrow>
          if is_stale s now (sg_stale_timeout_sec g) then deny ''state_stream_stale''
          else let p = payload s in
          if truthy (dget_or p ''fault_latched'' (PBool False)) then deny ''fault_latched''
          else if py_str (dget_or p ''motion_state'' (PStr [])) \<in> {''FaultLatched'', ''EmergencyLatched''}
          then deny ''motion_state_latched''
          else if require_valid_joint_state (sg_config g) \<and> requires_valid_joint_state req
            \<and> \<not> has_valid_joint_state p
          then deny ''invalid_joint_state''
          else let camera_decision = evaluate_camera_requirements g req s now in
          if \<not> allowed camera_decision then camera_decision
          else if requires_kinematics req \<and> \<not> kinematics_available (sg_config g)
          then deny ''kinematics_unavailable''
          else if cartesian_motion req \<and> py_str (dget_or p ''safety_verdict'' (PStr [])) = ''CartesianUnavailable''
          then deny ''cartesian_unavailable''
          else let geometry_decision = evaluate_geometry_requirements g req p in
          if \<not> allowed geometry_decision then geometry_decision
          else allow)"

lemma decision_simps [simp]: "allowed allow" "\<not> allowed (deny r)" "reason allow = ''ok''" "reason (deny r) = r"
  by (simp_all add: allow_def deny_def)

section \<open>Lemmas\<close>

lemma evaluate_allowedE:
  assumes "allowed (evaluate g snapshot (Some i) requirements now)"
  obtains s req where "snapshot = Some s" and "req = (case requirements of None \<Rightarrow> default_requirements | Some r \<Rightarrow> r)"
    and "\<not> is_stale s now (sg_stale_timeout_sec g)"
    and "\<not> truthy (dget_or (payload s) ''fault_latched'' (PBool False))"
    and "py_str (dget_or (payload s) ''motion_state'' (PStr [])) \<notin> {''FaultLatched'', ''EmergencyLatched''}"
    and "require_valid_joint_state (sg_config g) \<Longrightarrow> requires_valid_joint_state req \<Longrightarrow> has_valid_joint_state (payload s)"
    and "allowed (evaluate_camera_requirements g req s now)"
    and "requires_kinematics req \<Longrightarrow> kinematics_available (sg_config g)"
    and "cartesian_motion req \<Longrightarrow> py_str (dget_or (payload s) ''safety_verdict'' (PStr [])) \<noteq> ''CartesianUnavailable''"
    and "allowed (evaluate_geometry_requirements g req (payload s))"
proof (cases snapshot)
  case None
  with assms show ?thesis by (simp add: evaluate_def Let_def)
next
  case (Some s)
  with assms show ?thesis
    by (intro that [of s "case requirements of None \<Rightarrow> default_requirements | Some r \<Rightarrow> r"])
      (simp_all add: evaluate_def Let_def split: if_splits)
qed

lemma plain_latched [simp]: "plain_word ''FaultLatched''" "plain_word ''EmergencyLatched''" "plain_word ''CartesianUnavailable''"
  by (simp_all add: plain_word_def is_digit_def)

lemma top_level_not_latched:
  assumes "\<not> truthy (dget_or p ''fault_latched'' (PBool False))"
    and "py_str (dget_or p ''motion_state'' (PStr [])) \<notin> {''FaultLatched'', ''EmergencyLatched''}"
  shows "optional_bool (dget p ''fault_latched'') \<noteq> Some True"
    and "\<not> in_latched_states (optional_str (dget p ''motion_state''))"
proof -
  show "optional_bool (dget p ''fault_latched'') \<noteq> Some True"
    using assms(1)
    by (auto simp: optional_bool_def dget_or_def split: option.splits pyval.splits)
  show "\<not> in_latched_states (optional_str (dget p ''motion_state''))"
    using assms(2)
    by (auto simp: in_latched_states_def LATCHED_STATES_def optional_str_def dget_or_def py_str_def
        split: option.splits pyval.splits if_splits)
qed

lemma camera_fresh:
  assumes "allowed (evaluate_camera_requirements g req s now)" and "requires_camera req"
    and "camera_readiness_from_snapshot s now = Some r"
  shows "cr_available r \<and> \<not> cr_stale r \<and>
    (\<exists>t. cr_last_observed_monotonic_sec r = Some t \<and> \<not> camera_timeout g req < now - t)"
  using assms by (auto simp: evaluate_camera_requirements_def Let_def split: if_splits option.splits)

lemma camera_geometry_fails_closed:
  assumes "allowed (evaluate_geometry_requirements g req p)" and "requires_camera_geometry req"
  shows "\<exists>gs. sg_geometry_status g = Some gs \<and> camera_geometry_available gs"
  using assms by (auto simp: evaluate_geometry_requirements_def split: if_splits option.splits)

section \<open>Properties\<close>


definition ready_arm :: pydict where
  "ready_arm = [(''has_valid_joint_state'', PBool True), (''q_actual_deg'', PList (replicate 6 (PFloat (Fin 0))))]"

definition ready_snapshot :: StateSnapshot where
  "ready_snapshot = \<lparr>payload = [(''left'', PDict ready_arm), (''right'', PDict ready_arm)], received_monotonic = Fin 10\<rparr>"

definition demo_gate :: SafetyGate where
  "demo_gate = \<lparr>sg_mode = ''real'', sg_config = default_safety_config, sg_stale_timeout_sec = Fin (1/2),
     sg_geometry_status = None, sg_camera_readiness = None\<rparr>"

lemmas demo_gate_defs = demo_gate_def ready_snapshot_def ready_arm_def default_safety_config_def
  default_requirements_def evaluate_def evaluate_camera_requirements_def evaluate_geometry_requirements_def
  has_valid_joint_state_def arm_has_valid_joint_state_def is_stale_def py_str_def


text \<open>The gate agrees with the fault readback: if an intent is let through, then the fault
  readback of the same snapshot is latched only through the nested \<^verbatim>\<open>fault_context\<close> block, never
  through the top-level flag or motion state.\<close>

theorem gate_blocks_top_level_faults:
  assumes "allowed (evaluate g (Some s) (Some i) requirements now)"
    and "fl_latched (fault_latch_from_snapshot s)"
  shows "\<exists>c. dget (payload s) ''fault_context'' = PDict c \<and>
    (dget c ''latched'' = PBool True \<or> in_latched_states (optional_str (dget c ''motion_state'')))"
  using assms(1)
proof (cases rule: evaluate_allowedE)
  case (1 s' req)
  then have "s' = s" by simp
  with 1 have top: "optional_bool (dget (payload s) ''fault_latched'') \<noteq> Some True"
      "\<not> in_latched_states (optional_str (dget (payload s) ''motion_state''))"
    using top_level_not_latched [of "payload s"] by simp_all
  show ?thesis
  proof (cases "dget (payload s) ''fault_context''")
    case (PDict c)
    with assms(2) top show ?thesis
      by (auto simp: fault_latch_from_snapshot_def Let_def optional_bool_def split: pyval.splits option.splits)
  qed (use assms(2) top in \<open>simp_all add: fault_latch_from_snapshot_def Let_def\<close>)
qed

definition context_latched_snapshot :: StateSnapshot where
  "context_latched_snapshot = ready_snapshot\<lparr>payload :=
     (''fault_context'', PDict [(''latched'', PBool True)]) # payload ready_snapshot\<rparr>"

theorem gate_blocks_top_level_faults_witness:
  "fl_latched (fault_latch_from_snapshot context_latched_snapshot)
   \<and> (\<exists>c. dget (payload context_latched_snapshot) ''fault_context'' = PDict c)"
proof -
  have l: "fl_latched (fault_latch_from_snapshot context_latched_snapshot)"
    by (simp add: fault_latch_from_snapshot_def context_latched_snapshot_def Let_def optional_bool_def)
  have a: "allowed (evaluate demo_gate (Some context_latched_snapshot) (Some (intent_hold (Fin 1))) None (Fin 10))"
    by (simp add: demo_gate_defs context_latched_snapshot_def)
  from gate_blocks_top_level_faults [OF a l] l show ?thesis by blast
qed

text \<open>A NaN observation time defeats the camera freshness check: whatever the timeout and the
  current time, a readiness block that is complete, available, not flagged stale and whose
  \<^verbatim>\<open>last_observed_monotonic_sec\<close> is NaN passes the camera requirement.\<close>

theorem nan_camera_stamp_is_never_stale:
  assumes "dget (payload s) ''camera_readiness'' = PDict raw" and "\<not> camera_readiness_missing raw"
    and "truthy (dget raw ''available'')" and "\<not> truthy (dget raw ''stale'')"
    and "dget raw ''last_observed_monotonic_sec'' = PFloat NaN"
  shows "allowed (evaluate_camera_requirements g req s now)"
proof -
  have "truthy (dget_or raw ''available'' (dget_or raw ''healthy'' (PBool False)))"
    using assms(3) by (auto simp: dget_or_def split: option.splits)
  moreover have "\<not> truthy (dget_or raw ''stale'' (PBool False))"
    using assms(4) by (auto simp: dget_or_def split: option.splits)
  ultimately show ?thesis
    using assms
    by (simp add: evaluate_camera_requirements_def Let_def camera_readiness_from_snapshot_def
        camera_last_observed_monotonic_def strict_num_def)
qed

theorem nan_camera_stamp_is_never_stale_witness:
  "allowed (evaluate_camera_requirements demo_gate (default_requirements\<lparr>requires_camera := True\<rparr>)
     \<lparr>payload = [(''camera_readiness'', PDict [(''available'', PBool True), (''last_observed_monotonic_sec'', PFloat NaN)])],
      received_monotonic = Fin 0\<rparr> (Fin 1000000))"
  by (rule nan_camera_stamp_is_never_stale [where raw =
        "[(''available'', PBool True), (''last_observed_monotonic_sec'', PFloat NaN)]"]) (simp_all add: camera_readiness_missing_def is_true_def is_false_def)

text \<open>Camera geometry fails closed: an intent that requires camera geometry is let through only
  if the calibration file was loaded, lists at least one camera, and gives every camera measured
  intrinsics and measured extrinsics (or hand-eye) status.\<close>

theorem camera_geometry_requires_measured_calibration:
  assumes "sg_geometry_status g = Some (load_geometry_status outcome)" and "requires_camera_geometry req"
    and "allowed (evaluate g (Some s) (Some i) (Some req) now)"
  shows "\<exists>raw. outcome = Loaded raw \<and> as_dict (dget raw ''cameras'') \<noteq> [] \<and>
    (\<forall>(name, v) \<in> set (as_dict (dget raw ''cameras'')).
       is_measured_status (status_value (as_dict v) ''intrinsics_status'' ''unknown'')
       \<and> is_measured_status (extrinsics_of_camera (as_dict v)))"
  using assms(3)
proof (cases rule: evaluate_allowedE)
  case (1 s' req')
  with assms(2) have "allowed (evaluate_geometry_requirements g req (payload s))" by simp
  with camera_geometry_fails_closed [OF this assms(2)] assms(1)
  have "camera_geometry_available (load_geometry_status outcome)" by simp
  then show ?thesis
    by (cases outcome)
      (auto simp: camera_geometry_available_def geometry_unavailable_def geometry_status_from_mapping_def
        Let_def list_all_iff split: if_splits)
qed

definition measured_calibration :: pydict where
  "measured_calibration = [(''cameras'', PDict [(''left_realsense'', PDict
     [(''intrinsics_status'', PStr ''measured''), (''hand_eye_status'', PStr ''Accepted '')])])]"

theorem camera_geometry_requires_measured_calibration_witness:
  "\<exists>raw. Loaded measured_calibration = Loaded raw \<and> as_dict (dget raw ''cameras'') \<noteq> []"
proof -
  let ?g = "demo_gate\<lparr>sg_geometry_status := Some (load_geometry_status (Loaded measured_calibration))\<rparr>"
  let ?req = "default_requirements\<lparr>requires_camera_geometry := True\<rparr>"
  have "camera_geometry_available (load_geometry_status (Loaded measured_calibration))"
    by code_simp
  then have "allowed (evaluate ?g (Some ready_snapshot) (Some (intent_hold (Fin 1))) (Some ?req) (Fin 10))"
    by (simp add: demo_gate_defs)
  from camera_geometry_requires_measured_calibration [OF _ _ this, where outcome = "Loaded measured_calibration"]
  have "\<exists>raw. Loaded measured_calibration = Loaded raw \<and> as_dict (dget raw ''cameras'') \<noteq> [] \<and>
    (\<forall>(name, v) \<in> set (as_dict (dget raw ''cameras'')).
       is_measured_status (status_value (as_dict v) ''intrinsics_status'' ''unknown'')
       \<and> is_measured_status (extrinsics_of_camera (as_dict v)))" by simp
  then show ?thesis by blast
qed

end
