(* ===== verification/RolloutModes.thy ===== *)
theory RolloutModes
  imports SafetyGate "HOL-Library.List_Lexorder" "HOL-Library.Char_ord"
begin

text \<open>
  Rollout modes of \<^verbatim>\<open>policy_runner/rollout_modes.py\<close>: which mode may send commands, what a runner
  configuration must declare before a mode is accepted, and the summary recorder that counts
  decisions, sent and dropped commands. The configuration object is a record of the attributes the
  module reads; an action source is a record of the optional attributes \<^verbatim>\<open>getattr\<close> looks for.
  \<^verbatim>\<open>RolloutModeValidationError\<close> is a \<^verbatim>\<open>ValueError\<close>.
\<close>

section \<open>Modes\<close>

datatype RolloutMode = OFFLINE_EVAL | SIM_DRYRUN | CONTROLLER_SIM | REAL_READONLY | REAL_POLICY

definition mode_value :: "RolloutMode \<Rightarrow> string" where
  "mode_value m = (case m of
      OFFLINE_EVAL \<Rightarrow> ''offline_eval'' | SIM_DRYRUN \<Rightarrow> ''sim_dryrun'' | CONTROLLER_SIM \<Rightarrow> ''controller_sim''
    | REAL_READONLY \<Rightarrow> ''real_readonly'' | REAL_POLICY \<Rightarrow> ''real_policy'')"

definition all_modes :: "RolloutMode list" where
  "all_modes = [OFFLINE_EVAL, SIM_DRYRUN, CONTROLLER_SIM, REAL_READONLY, REAL_POLICY]"

definition mode_choices :: "string list" where "mode_choices = map mode_value all_modes"

definition parse_rollout_mode :: "string \<Rightarrow> RolloutMode res" where
  "parse_rollout_mode v =
     (case filter (\<lambda>m. mode_value m = v) all_modes of
        m # _ \<Rightarrow> Inr m
      | [] \<Rightarrow> Inl (ValueError (''invalid rollout-mode '' @ repr_str v @ ''; expected one of: '' @ join '', '' mode_choices)))"

record RolloutModePolicy =
  rp_mode :: RolloutMode
  rp_send_dryrun_commands :: bool

definition policy_from_value :: "string \<Rightarrow> bool \<Rightarrow> RolloutModePolicy res" where
  "policy_from_value v send_dryrun =
     res_bind (parse_rollout_mode v) (\<lambda>m. Inr \<lparr>rp_mode = m, rp_send_dryrun_commands = send_dryrun\<rparr>)"

definition may_send_commands :: "RolloutModePolicy \<Rightarrow> bool" where
  "may_send_commands p =
     (if rp_mode p = OFFLINE_EVAL then False
      else if rp_mode p = SIM_DRYRUN then rp_send_dryrun_commands p
      else if rp_mode p = REAL_READONLY then False
      else rp_mode p \<in> {CONTROLLER_SIM, REAL_POLICY})"

definition allows_controller_simulation_cartesian :: "RolloutModePolicy \<Rightarrow> bool" where
  "allows_controller_simulation_cartesian p = (rp_mode p = CONTROLLER_SIM)"

definition allows_physical_real_motion :: "RolloutModePolicy \<Rightarrow> bool" where
  "allows_physical_real_motion p = (rp_mode p = REAL_POLICY)"

definition requires_live_state :: "RolloutModePolicy \<Rightarrow> bool" where
  "requires_live_state p = (rp_mode p \<noteq> OFFLINE_EVAL)"

definition cameras_required_if_checkpoint_expects :: "RolloutModePolicy \<Rightarrow> bool" where
  "cameras_required_if_checkpoint_expects p = (rp_mode p \<noteq> OFFLINE_EVAL)"

definition report_fields :: "RolloutModePolicy \<Rightarrow> pydict" where
  "report_fields p =
     [(''rollout_mode'', PStr (mode_value (rp_mode p))),
      (''may_send_commands'', PBool (may_send_commands p)),
      (''allows_controller_simulation_cartesian'', PBool (allows_controller_simulation_cartesian p)),
      (''allows_physical_real_motion'', PBool (allows_physical_real_motion p)),
      (''cameras_required_if_checkpoint_expects'', PBool (cameras_required_if_checkpoint_expects p))]"

section \<open>Validation of a runner configuration\<close>

record RolloutConfig =
  rc_mode :: string
  rc_safety :: "SafetyConfig option"
  rc_camera_enable :: "bool option"

definition arm_words :: "string list" where "arm_words = [''left'', ''right'']"

definition selected_arms_from_safety :: "SafetyConfig \<Rightarrow> string list" where
  "selected_arms_from_safety s =
     (if selected_arms s \<noteq> [] then filter (\<lambda>arm. arm \<in> set (selected_arms s)) arm_words
      else let sel = (if selected_arm s = [] then ''both'' else selected_arm s) in
        if sel = ''left'' then [''left''] else if sel = ''right'' then [''right''] else arm_words)"

definition arms_from_checkpoint_mask :: "pyfloat list \<Rightarrow> string list" where
  "arms_from_checkpoint_mask values =
     (let arms = (if 1 \<le> length values \<and> 0 < values ! 0 then [''left''] else [])
               @ (if 2 \<le> length values \<and> 0 < values ! 1 then [''right''] else [])
      in if arms = [] then arm_words else arms)"

definition require :: "bool \<Rightarrow> string \<Rightarrow> unit res" where
  "require ok msg = (if ok then Inr () else Inl (ValueError msg))"

definition and_then :: "unit res \<Rightarrow> unit res \<Rightarrow> unit res" where
  "and_then a b = (case a of Inl e \<Rightarrow> Inl e | Inr _ \<Rightarrow> b)"

definition or_missing :: "string \<Rightarrow> string" where
  "or_missing s = (if s = [] then ''missing'' else s)"

definition geometry_accepted :: "SafetyConfig \<Rightarrow> GeometryStatus \<Rightarrow> unit res" where
  "geometry_accepted s g =
     (let status = py_lower (py_strip (gs_status g)) in
      and_then
        (require (status \<in> {''measured'', ''calibrated'', ''accepted''}
             \<or> (status = ''configured_estimate'' \<and> allow_configured_estimate_geometry_in_real s))
           (''real_policy requires measured geometry; got geometry status='' @ (if status = [] then ''unknown'' else status)
            @ '' (configured_estimate is accepted only with safety.allow_configured_estimate_geometry_in_real=true)''))
        (require (gs_geometry_valid_for_real_policy g \<or> allow_configured_estimate_geometry_in_real s)
           ''real_policy requires geometry_valid_for_real_policy=true''))"

definition checkpoint_arms_match :: "SafetyConfig \<Rightarrow> pyfloat list option \<Rightarrow> unit res" where
  "checkpoint_arms_match s checkpoint_arm_mask =
     (case checkpoint_arm_mask of
        None \<Rightarrow> Inr ()
      | Some msk \<Rightarrow>
          require (selected_arms_from_safety s = arms_from_checkpoint_mask msk)
            (''real_policy selected_arm/selected_arms must match checkpoint arm_mask; selected_arms=''
             @ py_repr (PList (map PStr (selected_arms_from_safety s)))
             @ '' checkpoint_arm_mask='' @ py_repr (PList (map PFloat msk))))"

text \<open>\<^verbatim>\<open>_validate_real_policy\<close>; \<open>env_gripper\<close> is \<^verbatim>\<open>os.environ.get("RB_ALLOW_REAL_GRIPPER")\<close>.\<close>

definition validate_real_policy ::
  "string option \<Rightarrow> RolloutConfig \<Rightarrow> SafetyConfig \<Rightarrow> GeometryStatus option \<Rightarrow> pyfloat list option \<Rightarrow> bool \<Rightarrow> unit res" where
  "validate_real_policy env_gripper config s geometry_status checkpoint_arm_mask nonzero_gripper =
     and_then (require (py_lower (rc_mode config) = ''real'') ''real_policy requires config mode=real'')
     (and_then (require (allow_real_motion s) ''real_policy requires safety.allow_real_motion=true plus physical gates'')
     (and_then (require (\<not> allow_rbpodo_controller_simulation_cartesian s)
        ''real_policy must not rely on controller_simulation Cartesian approval'')
     (and_then (case geometry_status of None \<Rightarrow> Inl (ValueError ''real_policy requires measured runtime geometry'')
                | Some g \<Rightarrow> geometry_accepted s g)
     (and_then (require (or_missing (retarget_status s) \<in> {''measured'', ''accepted''})
        (''real_policy requires retarget_status=measured or accepted; got '' @ or_missing (retarget_status s)))
     (and_then (require (measured_retarget_available s) ''real_policy requires measured_retarget_available=true'')
     (and_then (require (or_missing (collision_model_status s) \<in> {''measured'', ''validated''})
        (''real_policy requires collision_model_status measured or validated; got '' @ or_missing (collision_model_status s)))
     (and_then (require (measured_collision_model_available s) ''real_policy requires measured_collision_model_available=true'')
     (and_then (require (or_missing (workspace_envelope_status s) \<in> {''measured'', ''validated''})
        (''real_policy requires workspace_envelope_status measured or validated; got '' @ or_missing (workspace_envelope_status s)))
     (and_then (require (minimum_inter_arm_distance_m s \<noteq> None) ''real_policy requires minimum_inter_arm_distance_m'')
     (and_then (checkpoint_arms_match s checkpoint_arm_mask)
     (and_then (require (measured_gripper_available s)
        ''real_policy requires measured_gripper_available=true for flow-policy gripper channels'')
     (if nonzero_gripper
      then and_then (require (allow_real_gripper_motion s)
             ''real_policy checkpoint has nonzero gripper commands; requires allow_real_gripper_motion=true'')
           (require (env_gripper = Some ''1'')
             ''real_policy checkpoint has nonzero gripper commands; requires RB_ALLOW_REAL_GRIPPER=1'')
      else Inr ()))))))))))))"

definition validate_config ::
  "RolloutModePolicy \<Rightarrow> string option \<Rightarrow> RolloutConfig \<Rightarrow> string list \<Rightarrow> GeometryStatus option \<Rightarrow> pyfloat list option
   \<Rightarrow> bool \<Rightarrow> unit res" where
  "validate_config p env_gripper config checkpoint_camera_names geometry_status checkpoint_arm_mask nonzero_gripper =
     (case rc_safety config of
        None \<Rightarrow> Inl (ValueError ''policy_runner config is missing safety settings'')
      | Some s \<Rightarrow>
          let mode = py_lower (rc_mode config) in
          and_then
            (require (\<not> (checkpoint_camera_names \<noteq> [] \<and> cameras_required_if_checkpoint_expects p)
                      \<or> rc_camera_enable config = Some True)
               ''checkpoint expects cameras, so live rollout requires camera.enable=true'')
            (case rp_mode p of
               OFFLINE_EVAL \<Rightarrow> Inr ()
             | SIM_DRYRUN \<Rightarrow>
                 require (mode \<noteq> ''real'') ''sim_dryrun must not use config mode=real; use controller_sim or real_readonly''
             | CONTROLLER_SIM \<Rightarrow>
                 and_then (require (mode = ''real'')
                   ''controller_sim requires config mode=real because it connects to rbpodo controllers'')
                 (and_then (require (\<not> allow_real_motion s)
                   ''controller_sim must keep safety.allow_real_motion=false; use the controller_simulation carve-out instead of physical real approval'')
                 (require (allow_rbpodo_controller_simulation_cartesian s)
                   ''controller_sim requires safety.allow_rbpodo_controller_simulation_cartesian=true''))
             | REAL_READONLY \<Rightarrow> require (mode = ''real'') ''real_readonly requires config mode=real''
             | REAL_POLICY \<Rightarrow>
                 validate_real_policy env_gripper config s geometry_status checkpoint_arm_mask nonzero_gripper))"

section \<open>Summary recorder\<close>

definition ROLLOUT_SUMMARY_SCHEMA :: string where
  "ROLLOUT_SUMMARY_SCHEMA = ''robotics_lab.policy_runner.rollout_summary.v1''"

type_synonym counter = "(string \<times> int) list"

definition count_of :: "counter \<Rightarrow> string \<Rightarrow> int" where
  "count_of m k = (case map_of m k of None \<Rightarrow> 0 | Some n \<Rightarrow> n)"

definition counter_inc :: "counter \<Rightarrow> string \<Rightarrow> counter" where
  "counter_inc m k = dset m k (count_of m k + 1)"

record RolloutSummaryRecorder =
  rs_policy :: RolloutModePolicy
  rs_checkpoint_path :: string
  rs_config_path :: string
  rs_command_family :: string
  rs_camera_names :: "string list"
  rs_safety_decisions :: counter
  rs_dropped_reasons :: counter
  rs_sent_command_count :: int
  rs_dropped_command_count :: int
  rs_proposed_intent_count :: int
  rs_image_decode_count :: int
  rs_missing_camera_count :: int
  rs_state_seen_count :: int
  rs_backend_seen :: "string option"
  rs_run_mode_seen :: "string option"
  rs_operation_mode_seen :: "string option"
  rs_physical_motion_expected :: "bool option"
  rs_selected_arm :: "string option"
  rs_selected_arms :: "string list"
  rs_left_arm_mask :: "pyfloat option"
  rs_right_arm_mask :: "pyfloat option"
  rs_gripper_command_count :: int
  rs_gripper_dropped_count :: int
  rs_allow_real_gripper_motion :: bool
  rs_collision_model_status :: string
  rs_camera_runtime :: pydict
  rs_inference_diagnostics :: pydict
  rs_diagnostics_refresh_sec :: pyfloat
  rs_diag_next_refresh :: pyfloat

definition recorder_init :: "RolloutModePolicy \<Rightarrow> string \<Rightarrow> string \<Rightarrow> RolloutSummaryRecorder" where
  "recorder_init p checkpoint_path config_path =
     \<lparr>rs_policy = p, rs_checkpoint_path = checkpoint_path, rs_config_path = config_path,
      rs_command_family = ''unknown'', rs_camera_names = [], rs_safety_decisions = [], rs_dropped_reasons = [],
      rs_sent_command_count = 0, rs_dropped_command_count = 0, rs_proposed_intent_count = 0,
      rs_image_decode_count = 0, rs_missing_camera_count = 0, rs_state_seen_count = 0,
      rs_backend_seen = None, rs_run_mode_seen = None, rs_operation_mode_seen = None,
      rs_physical_motion_expected = None, rs_selected_arm = None, rs_selected_arms = [],
      rs_left_arm_mask = None, rs_right_arm_mask = None, rs_gripper_command_count = 0,
      rs_gripper_dropped_count = 0, rs_allow_real_gripper_motion = False,
      rs_collision_model_status = ''missing'', rs_camera_runtime = [], rs_inference_diagnostics = [],
      rs_diagnostics_refresh_sec = Fin (1/2), rs_diag_next_refresh = Fin 0\<rparr>"

definition command_family_of_arm :: "pydict option \<Rightarrow> string option" where
  "command_family_of_arm arm =
     (case arm of
        None \<Rightarrow> None
      | Some d \<Rightarrow>
          (case dget d ''mode'' of
             PStr m \<Rightarrow> if m = ''TcpPoseTarget'' then Some ''tcp_target_pose''
                       else if m \<noteq> [] \<and> m \<noteq> ''Hold'' then Some m else None
           | _ \<Rightarrow> None))"

definition command_family_from_intent :: "CommandIntent option \<Rightarrow> string" where
  "command_family_from_intent intent =
     (case intent of
        None \<Rightarrow> ''unknown''
      | Some i \<Rightarrow>
          if ci_mode i = ''TcpPoseTarget'' then ''tcp_target_pose''
          else if ci_mode i \<noteq> [] \<and> ci_mode i \<noteq> ''Hold'' then ci_mode i
          else (case command_family_of_arm (ci_left i) of
                  Some f \<Rightarrow> f
                | None \<Rightarrow>
                    (case command_family_of_arm (ci_right i) of
                       Some f \<Rightarrow> f
                     | None \<Rightarrow> if ci_mode i = [] then ''unknown'' else ci_mode i)))"

fun first_str :: "pydict \<Rightarrow> string list \<Rightarrow> string option \<Rightarrow> string option" where
  "first_str p [] current = current"
| "first_str p (k # ks) current =
     (case dget p k of PStr v \<Rightarrow> if v \<noteq> [] then Some v else first_str p ks current | _ \<Rightarrow> first_str p ks current)"

fun first_bool :: "pydict \<Rightarrow> string list \<Rightarrow> bool option" where
  "first_bool p [] = None"
| "first_bool p (k # ks) = (case dget p k of PBool b \<Rightarrow> Some b | _ \<Rightarrow> first_bool p ks)"

text \<open>The order in which the nested lookups search: the payload, each arm and its gate, the gate.\<close>

definition nested_blocks :: "pydict \<Rightarrow> pydict list" where
  "nested_blocks p =
     (let sub = (\<lambda>q k. case dget q k of PDict d \<Rightarrow> [d] | _ \<Rightarrow> []) in
      p # concat (map (\<lambda>arm. concat (map (\<lambda>b. b # sub b ''cartesian_gate'') (sub p arm))) arm_words)
        @ sub p ''cartesian_gate'')"

fun first_some :: "('a \<Rightarrow> 'b option) \<Rightarrow> 'a list \<Rightarrow> 'b option \<Rightarrow> 'b option" where
  "first_some f [] current = current"
| "first_some f (x # xs) current = (case f x of Some v \<Rightarrow> Some v | None \<Rightarrow> first_some f xs current)"

definition first_nested_str :: "pydict \<Rightarrow> string list \<Rightarrow> string option \<Rightarrow> string option" where
  "first_nested_str p ks current = first_some (\<lambda>b. first_str b ks None) (nested_blocks p) current"

definition first_nested_bool :: "pydict \<Rightarrow> string list \<Rightarrow> bool option \<Rightarrow> bool option" where
  "first_nested_bool p ks current = first_some (\<lambda>b. first_bool b ks) (nested_blocks p) current"

definition record_state :: "RolloutSummaryRecorder \<Rightarrow> StateSnapshot \<Rightarrow> RolloutSummaryRecorder" where
  "record_state r s =
     (let p = payload s in
      r\<lparr>rs_state_seen_count := rs_state_seen_count r + 1,
        rs_backend_seen := first_str p [''observed_backend'', ''backend_type'', ''backend''] (rs_backend_seen r),
        rs_run_mode_seen := first_str p [''observed_mode'', ''run_mode'', ''mode''] (rs_run_mode_seen r),
        rs_operation_mode_seen :=
          first_nested_str p [''operation_mode'', ''controller_operation_mode''] (rs_operation_mode_seen r),
        rs_physical_motion_expected :=
          first_nested_bool p [''physical_motion_expected''] (rs_physical_motion_expected r)\<rparr>)"

text \<open>What \<^verbatim>\<open>record_source\<close> reads from a source; \<open>None\<close> is a missing attribute. The two callables
  are given by what calling them yields.\<close>

record SourceView =
  sv_image_decode_count :: "int option"
  sv_missing_camera_count :: "int option"
  sv_camera_names :: "string list option"
  sv_command_family :: "string option"
  sv_checkpoint_selected_arms :: "string list option"
  sv_checkpoint_arm_mask :: "pyfloat list option"
  sv_gripper_command_count :: "int option"
  sv_gripper_dropped_count :: "int option"
  sv_camera_runtime_status :: "pydict res option"
  sv_inference_diagnostics :: "pydict res option"

definition opt_or :: "'a option \<Rightarrow> 'a \<Rightarrow> 'a" where
  "opt_or v d = (case v of None \<Rightarrow> d | Some x \<Rightarrow> x)"

definition selected_arm_label :: "string list \<Rightarrow> string option" where
  "selected_arm_label sel =
     (let arms = filter (\<lambda>arm. arm \<in> set sel) arm_words in
      if arms = [''left''] then Some ''left'' else if arms = [''right''] then Some ''right''
      else if arms = arm_words then Some ''both'' else None)"

definition record_source_counts :: "RolloutSummaryRecorder \<Rightarrow> SourceView \<Rightarrow> RolloutSummaryRecorder" where
  "record_source_counts r v =
     (let fam = opt_or (sv_command_family v) (rs_command_family r);
          sel = opt_or (sv_checkpoint_selected_arms v) (rs_selected_arms r);
          msk = opt_or (sv_checkpoint_arm_mask v) [] in
      r\<lparr>rs_image_decode_count := opt_or (sv_image_decode_count v) (rs_image_decode_count r),
        rs_missing_camera_count := opt_or (sv_missing_camera_count v) (rs_missing_camera_count r),
        rs_camera_names := opt_or (sv_camera_names v) (rs_camera_names r),
        rs_command_family := (if fam = [] then rs_command_family r else fam),
        rs_selected_arms := sel,
        rs_selected_arm := (if sv_checkpoint_selected_arms v = None then rs_selected_arm r else selected_arm_label sel),
        rs_left_arm_mask := (if 1 \<le> length msk then Some (msk ! 0) else rs_left_arm_mask r),
        rs_right_arm_mask := (if 2 \<le> length msk then Some (msk ! 1) else rs_right_arm_mask r),
        rs_gripper_command_count := opt_or (sv_gripper_command_count v) (rs_gripper_command_count r),
        rs_gripper_dropped_count := opt_or (sv_gripper_dropped_count v) (rs_gripper_dropped_count r)\<rparr>)"

definition record_source ::
  "RolloutSummaryRecorder \<Rightarrow> SourceView \<Rightarrow> pyfloat \<Rightarrow> bool \<Rightarrow> RolloutSummaryRecorder \<times> unit res" where
  "record_source r v now force =
     (let r1 = record_source_counts r v in
      if \<not> force \<and> now < rs_diag_next_refresh r1 then (r1, Inr ())
      else let r2 = r1\<lparr>rs_diag_next_refresh := now + pymax 0 (rs_diagnostics_refresh_sec r1)\<rparr> in
        (case sv_camera_runtime_status v of
           Some (Inl e) \<Rightarrow> (r2, Inl e)
         | cam \<Rightarrow>
             let r3 = (case cam of Some (Inr d) \<Rightarrow> r2\<lparr>rs_camera_runtime := d\<rparr> | _ \<Rightarrow> r2) in
             (case sv_inference_diagnostics v of
                Some (Inr d) \<Rightarrow> (r3\<lparr>rs_inference_diagnostics := d\<rparr>, Inr ())
              | _ \<Rightarrow> (r3, Inr ()))))"

definition with_family :: "CommandIntent option \<Rightarrow> RolloutSummaryRecorder \<Rightarrow> RolloutSummaryRecorder" where
  "with_family intent r =
     (let family = command_family_from_intent intent in
      if family \<noteq> ''unknown'' then r\<lparr>rs_command_family := family\<rparr> else r)"

definition record_decision :: "RolloutSummaryRecorder \<Rightarrow> SafetyDecision \<Rightarrow> RolloutSummaryRecorder" where
  "record_decision r d =
     r\<lparr>rs_safety_decisions := counter_inc (rs_safety_decisions r) (if reason d = [] then ''ok'' else reason d)\<rparr>"

definition record_sent :: "RolloutSummaryRecorder \<Rightarrow> CommandIntent \<Rightarrow> RolloutSummaryRecorder" where
  "record_sent r i = with_family (Some i) (r\<lparr>rs_sent_command_count := rs_sent_command_count r + 1\<rparr>)"

definition record_dropped :: "RolloutSummaryRecorder \<Rightarrow> string \<Rightarrow> CommandIntent option \<Rightarrow> RolloutSummaryRecorder" where
  "record_dropped r why i =
     with_family i (r\<lparr>rs_dropped_command_count := rs_dropped_command_count r + 1,
       rs_dropped_reasons := counter_inc (rs_dropped_reasons r) why\<rparr>)"

definition record_proposed_intent :: "RolloutSummaryRecorder \<Rightarrow> CommandIntent option \<Rightarrow> RolloutSummaryRecorder" where
  "record_proposed_intent r i =
     (case i of None \<Rightarrow> r
      | Some _ \<Rightarrow> with_family i (r\<lparr>rs_proposed_intent_count := rs_proposed_intent_count r + 1\<rparr>))"

definition counter_dict :: "counter \<Rightarrow> pyval" where
  "counter_dict m = PDict (map (\<lambda>(k, n). (k, PInt n)) (sort_key fst m))"

definition opt_str :: "string option \<Rightarrow> pyval" where
  "opt_str v = (case v of None \<Rightarrow> PNone | Some s \<Rightarrow> PStr s)"

definition opt_float :: "pyfloat option \<Rightarrow> pyval" where
  "opt_float v = (case v of None \<Rightarrow> PNone | Some f \<Rightarrow> PFloat f)"

definition summary_dict :: "RolloutSummaryRecorder \<Rightarrow> pydict" where
  "summary_dict r =
     report_fields (rs_policy r) @
     [(''checkpoint_path'', PStr (rs_checkpoint_path r)), (''config_path'', PStr (rs_config_path r)),
      (''command_family'', PStr (rs_command_family r)), (''camera_names'', PList (map PStr (rs_camera_names r))),
      (''missing_camera_count'', PInt (rs_missing_camera_count r)),
      (''image_decode_count'', PInt (rs_image_decode_count r)),
      (''safety_decision_counts'', counter_dict (rs_safety_decisions r)),
      (''sent_command_count'', PInt (rs_sent_command_count r)),
      (''dropped_command_count'', PInt (rs_dropped_command_count r)),
      (''dropped_reason_counts'', counter_dict (rs_dropped_reasons r)),
      (''proposed_intent_count'', PInt (rs_proposed_intent_count r)),
      (''physical_motion_expected'', case rs_physical_motion_expected r of None \<Rightarrow> PNone | Some b \<Rightarrow> PBool b),
      (''state_seen_count'', PInt (rs_state_seen_count r)),
      (''backend_seen'', opt_str (rs_backend_seen r)), (''run_mode_seen'', opt_str (rs_run_mode_seen r)),
      (''operation_mode_seen'', opt_str (rs_operation_mode_seen r)),
      (''selected_arm'', opt_str (case rs_selected_arm r of
          Some a \<Rightarrow> if a = [] then selected_arm_label (rs_selected_arms r) else Some a
        | None \<Rightarrow> selected_arm_label (rs_selected_arms r))),
      (''selected_arms'', PList (map PStr (rs_selected_arms r))),
      (''left_arm_mask'', opt_float (rs_left_arm_mask r)), (''right_arm_mask'', opt_float (rs_right_arm_mask r)),
      (''arm_mask'', PDict [(''left'', opt_float (rs_left_arm_mask r)), (''right'', opt_float (rs_right_arm_mask r))]),
      (''gripper_command_count'', PInt (rs_gripper_command_count r)),
      (''gripper_dropped_count'', PInt (rs_gripper_dropped_count r)),
      (''allow_real_gripper_motion'', PBool (rs_allow_real_gripper_motion r)),
      (''collision_model_status'', PStr (rs_collision_model_status r)),
      (''camera_runtime'', PDict (rs_camera_runtime r)),
      (''inference_diagnostics'', PDict (rs_inference_diagnostics r))]"

definition to_dict ::
  "RolloutSummaryRecorder \<Rightarrow> SourceView option \<Rightarrow> pyfloat \<Rightarrow> RolloutSummaryRecorder \<times> pydict res" where
  "to_dict r src now =
     (case src of
        None \<Rightarrow> (r, Inr (summary_dict r))
      | Some v \<Rightarrow> let (r', res) = record_source r v now True in (r', res_bind res (\<lambda>_. Inr (summary_dict r'))))"

definition to_document ::
  "RolloutSummaryRecorder \<Rightarrow> SourceView option \<Rightarrow> pyfloat \<Rightarrow> RolloutSummaryRecorder \<times> pydict res" where
  "to_document r src now =
     (let (r', res) = to_dict r src now in
      (r', res_bind res (\<lambda>d. Inr [(''schema'', PStr ROLLOUT_SUMMARY_SCHEMA), (''rollout_summary'', PDict d)])))"

text \<open>\<^verbatim>\<open>ReadOnlyActionSource.next_intent\<close>: the wrapped source's answer, after recording it.\<close>

definition read_only_next_intent ::
  "RolloutSummaryRecorder \<Rightarrow> CommandIntent option \<Rightarrow> SourceView \<Rightarrow> pyfloat
   \<Rightarrow> RolloutSummaryRecorder \<times> CommandIntent option res" where
  "read_only_next_intent r intent v now =
     (let (r', res) = record_source (record_proposed_intent r intent) v now False
      in (r', res_bind res (\<lambda>_. Inr intent)))"

section \<open>Properties\<close>

lemma require_ok [simp]: "require b m = Inr u \<longleftrightarrow> b"
  by (simp add: require_def)

lemma and_then_ok [simp]: "and_then a b = Inr u \<longleftrightarrow> a = Inr () \<and> b = Inr ()"
  by (cases a) (simp_all add: and_then_def)


lemma or_missing_eq: "w \<noteq> ''missing'' \<Longrightarrow> w \<noteq> [] \<Longrightarrow> or_missing x = w \<longleftrightarrow> x = w"
  by (auto simp: or_missing_def)

lemma checkpoint_arms_match_ok:
  "checkpoint_arms_match s msk = Inr () \<longleftrightarrow>
     (case msk of None \<Rightarrow> True | Some m \<Rightarrow> selected_arms_from_safety s = arms_from_checkpoint_mask m)"
  by (cases msk) (simp_all add: checkpoint_arms_match_def)

text \<open>(C15) A runner configuration accepted for \<^verbatim>\<open>real_policy\<close> declares mode real and real motion, does
  not lean on the controller-simulation approval, has measured (or explicitly accepted) geometry,
  retargeting, collision model, workspace envelope, inter-arm distance and gripper, selects the arms
  of the checkpoint, and a checkpoint with gripper commands has both gripper approvals.\<close>

theorem real_policy_needs_every_gate:
  assumes "validate_config p env config cams geo msk grip = Inr ()" and "rp_mode p = REAL_POLICY"
  shows "\<exists>s g. rc_safety config = Some s \<and> geo = Some g \<and> py_lower (rc_mode config) = ''real''
    \<and> allow_real_motion s \<and> \<not> allow_rbpodo_controller_simulation_cartesian s
    \<and> (is_measured_status (gs_status g) \<and> gs_geometry_valid_for_real_policy g
        \<or> allow_configured_estimate_geometry_in_real s)
    \<and> retarget_status s \<in> {''measured'', ''accepted''} \<and> measured_retarget_available s
    \<and> collision_model_status s \<in> {''measured'', ''validated''} \<and> measured_collision_model_available s
    \<and> workspace_envelope_status s \<in> {''measured'', ''validated''}
    \<and> minimum_inter_arm_distance_m s \<noteq> None \<and> measured_gripper_available s
    \<and> (case msk of None \<Rightarrow> True | Some m \<Rightarrow> selected_arms_from_safety s = arms_from_checkpoint_mask m)
    \<and> (grip \<longrightarrow> allow_real_gripper_motion s \<and> env = Some ''1'')
    \<and> (cams \<noteq> [] \<longrightarrow> rc_camera_enable config = Some True)"
proof -
  from assms obtain s where s: "rc_safety config = Some s"
    and v: "validate_real_policy env config s geo msk grip = Inr ()"
    and cam: "cams \<noteq> [] \<longrightarrow> rc_camera_enable config = Some True"
    by (auto simp: validate_config_def Let_def cameras_required_if_checkpoint_expects_def split: option.splits)
  from v obtain g where g: "geo = Some g" and ga: "geometry_accepted s g = Inr ()"
    by (cases geo) (simp_all add: validate_real_policy_def)
  have geom: "is_measured_status (gs_status g) \<and> gs_geometry_valid_for_real_policy g
      \<or> allow_configured_estimate_geometry_in_real s"
    using ga by (auto simp: geometry_accepted_def Let_def is_measured_status_def)
  from v g have "py_lower (rc_mode config) = ''real'' \<and> allow_real_motion s
      \<and> \<not> allow_rbpodo_controller_simulation_cartesian s
      \<and> retarget_status s \<in> {''measured'', ''accepted''} \<and> measured_retarget_available s
      \<and> collision_model_status s \<in> {''measured'', ''validated''} \<and> measured_collision_model_available s
      \<and> workspace_envelope_status s \<in> {''measured'', ''validated''}
      \<and> minimum_inter_arm_distance_m s \<noteq> None \<and> measured_gripper_available s
      \<and> (case msk of None \<Rightarrow> True | Some m \<Rightarrow> selected_arms_from_safety s = arms_from_checkpoint_mask m)
      \<and> (grip \<longrightarrow> allow_real_gripper_motion s \<and> env = Some ''1'')"
    by (simp add: validate_real_policy_def or_missing_eq checkpoint_arms_match_ok split: if_split_asm)
  with s g geom cam show ?thesis by blast
qed

definition demo_safety :: SafetyConfig where
  "demo_safety = default_safety_config\<lparr>allow_real_motion := True, retarget_status := ''measured'',
     collision_model_status := ''validated'', minimum_inter_arm_distance_m := Some (Fin (1/5)),
     workspace_envelope_status := ''measured'', measured_retarget_available := True,
     measured_collision_model_available := True, measured_gripper_available := True\<rparr>"

definition demo_geometry :: GeometryStatus where
  "demo_geometry = geometry_unavailable ''none''\<lparr>gs_status := ''Measured'', gs_geometry_valid_for_real_policy := True\<rparr>"

definition demo_config :: RolloutConfig where
  "demo_config = \<lparr>rc_mode = ''real'', rc_safety = Some demo_safety, rc_camera_enable = Some True\<rparr>"

lemma demo_validates:
  "validate_config \<lparr>rp_mode = REAL_POLICY, rp_send_dryrun_commands = False\<rparr> None demo_config [''top''] (Some demo_geometry)
     (Some [Fin 1, Fin 1]) False = Inr ()"
  by code_simp

theorem real_policy_needs_every_gate_witness:
  "\<exists>s g. rc_safety demo_config = Some s \<and> Some demo_geometry = Some g \<and> minimum_inter_arm_distance_m s \<noteq> None"
  using real_policy_needs_every_gate [OF demo_validates] by auto

text \<open>A validated mode that may send commands reaches real hardware with real motion enabled only
  as \<^verbatim>\<open>real_policy\<close>; \<^verbatim>\<open>controller_sim\<close> keeps real motion off and \<^verbatim>\<open>sim_dryrun\<close> never runs on a real
  configuration. The read-only and offline modes never send.\<close>

theorem only_real_policy_moves_hardware:
  assumes "validate_config p env config cams geo msk grip = Inr ()" and "may_send_commands p"
    and "rc_safety config = Some s"
  shows "py_lower (rc_mode config) = ''real'' \<and> allow_real_motion s \<longleftrightarrow> allows_physical_real_motion p"
  using assms
  by (cases "rp_mode p")
    (auto simp: validate_config_def validate_real_policy_def Let_def may_send_commands_def allows_physical_real_motion_def)

theorem only_real_policy_moves_hardware_witness:
  "allows_physical_real_motion \<lparr>rp_mode = REAL_POLICY, rp_send_dryrun_commands = False\<rparr>"
  using only_real_policy_moves_hardware [OF demo_validates, of demo_safety]
  by (simp add: may_send_commands_def demo_config_def demo_safety_def py_lower_def lower_char_def)

text \<open>Parsing a rollout mode inverts its printed value, and every other text is rejected.\<close>

theorem parse_rollout_mode_roundtrip:
  "parse_rollout_mode v = Inr m \<longleftrightarrow> v = mode_value m"
proof
  show "v = mode_value m" if "parse_rollout_mode v = Inr m"
  proof -
    from that have "m \<in> set (filter (\<lambda>m. mode_value m = v) all_modes)"
      by (cases "filter (\<lambda>m. mode_value m = v) all_modes") (simp_all only: parse_rollout_mode_def list.case sum.simps list.set_intros)
    then show ?thesis by simp
  qed
  show "parse_rollout_mode v = Inr m" if "v = mode_value m"
    using that by (cases m) (simp_all add: parse_rollout_mode_def all_modes_def mode_value_def)
qed

section \<open>The summary is an exact tally\<close>

datatype recorder_call =
    RecState StateSnapshot
  | RecSource SourceView pyfloat bool
  | RecDecision SafetyDecision
  | RecSent CommandIntent
  | RecDropped string "CommandIntent option"
  | RecProposed "CommandIntent option"

fun recorder_step :: "RolloutSummaryRecorder \<Rightarrow> recorder_call \<Rightarrow> RolloutSummaryRecorder \<times> unit res" where
  "recorder_step r (RecState s) = (record_state r s, Inr ())"
| "recorder_step r (RecSource v now force) = record_source r v now force"
| "recorder_step r (RecDecision d) = (record_decision r d, Inr ())"
| "recorder_step r (RecSent i) = (record_sent r i, Inr ())"
| "recorder_step r (RecDropped why i) = (record_dropped r why i, Inr ())"
| "recorder_step r (RecProposed i) = (record_proposed_intent r i, Inr ())"

definition calls_where :: "(recorder_call \<Rightarrow> bool) \<Rightarrow> recorder_call list \<Rightarrow> int" where
  "calls_where P h = int (length (filter P h))"

lemma calls_where_simps [simp]:
  "calls_where P [] = 0"
  "calls_where P (h @ [e]) = calls_where P h + (if P e then 1 else 0)"
  by (simp_all add: calls_where_def)

definition decision_reason :: "SafetyDecision \<Rightarrow> string" where
  "decision_reason d = (if reason d = [] then ''ok'' else reason d)"

definition tally :: "recorder_call list \<Rightarrow> RolloutSummaryRecorder \<Rightarrow> bool" where
  "tally h r =
     ((\<forall>k. count_of (rs_safety_decisions r) k = calls_where (\<lambda>e. \<exists>d. e = RecDecision d \<and> decision_reason d = k) h)
      \<and> (\<forall>k. count_of (rs_dropped_reasons r) k = calls_where (\<lambda>e. \<exists>i. e = RecDropped k i) h)
      \<and> rs_dropped_command_count r = calls_where (\<lambda>e. \<exists>k i. e = RecDropped k i) h
      \<and> rs_sent_command_count r = calls_where (\<lambda>e. \<exists>i. e = RecSent i) h
      \<and> rs_proposed_intent_count r = calls_where (\<lambda>e. \<exists>i. e = RecProposed (Some i)) h
      \<and> rs_state_seen_count r = calls_where (\<lambda>e. \<exists>s. e = RecState s) h)"

lemma count_of_inc [simp]: "count_of (counter_inc m k) j = count_of m j + (if j = k then 1 else 0)"
  by (simp add: count_of_def counter_inc_def)

lemma with_family_counts [simp]:
  "rs_safety_decisions (with_family i r) = rs_safety_decisions r"
  "rs_dropped_reasons (with_family i r) = rs_dropped_reasons r"
  "rs_dropped_command_count (with_family i r) = rs_dropped_command_count r"
  "rs_sent_command_count (with_family i r) = rs_sent_command_count r"
  "rs_proposed_intent_count (with_family i r) = rs_proposed_intent_count r"
  "rs_state_seen_count (with_family i r) = rs_state_seen_count r"
  by (simp_all add: with_family_def Let_def)

lemma record_source_counts_kept [simp]:
  "rs_safety_decisions (fst (record_source r v now f)) = rs_safety_decisions r"
  "rs_dropped_reasons (fst (record_source r v now f)) = rs_dropped_reasons r"
  "rs_dropped_command_count (fst (record_source r v now f)) = rs_dropped_command_count r"
  "rs_sent_command_count (fst (record_source r v now f)) = rs_sent_command_count r"
  "rs_proposed_intent_count (fst (record_source r v now f)) = rs_proposed_intent_count r"
  "rs_state_seen_count (fst (record_source r v now f)) = rs_state_seen_count r"
  by (simp_all add: record_source_def record_source_counts_def Let_def split: option.split sum.split)

lemma tally_step: "tally h r \<Longrightarrow> tally (h @ [e]) (fst (recorder_step r e))"
  by (cases e)
    (auto simp: tally_def record_state_def record_decision_def record_sent_def record_dropped_def
      record_proposed_intent_def decision_reason_def Let_def split: option.split)

interpretation summary: history_machine recorder_step "recorder_init p cp cfg" tally for p cp cfg
  by unfold_locales (simp_all add: tally_step, simp add: tally_def recorder_init_def count_of_def)

text \<open>(C16) After any sequence of recorder calls the summary's counters are exact: for every reason the
  number of decisions and of drops with that reason, and the numbers of sent, dropped and proposed
  commands and of states seen.\<close>

theorem rollout_summary_is_exact:
  "tally h (state_after recorder_step (recorder_init p cp cfg) h)"
  by (rule summary.hinv_run)

end
