(* ===== verification/EpisodeRecording.thy ===== *)
theory EpisodeRecording
  imports StateClient "HOL-Library.List_Lexorder" "HOL-Library.Char_ord"
begin

text \<open>
  The episode recorders of \<^verbatim>\<open>policy_runner/recording.py\<close>. \<^verbatim>\<open>EpisodeRecorder\<close> writes state and action
  samples as JSON lines; \<^verbatim>\<open>Hdf5EpisodeRecorder\<close> buffers one column per signal in memory and writes the
  episode on \<^verbatim>\<open>end_episode\<close>. The parallel lists of \<^verbatim>\<open>_EpisodeBuffer\<close> are a dictionary from column name
  to list, and a frame is the sequence of \<^verbatim>\<open>append\<close> calls of \<^verbatim>\<open>record_frame\<close> in program order, each
  with the value it computes or the exception it raises. The clocks, the camera client's bundle, the
  SHA-256 of a JSON value and the outcome of writing the HDF5 file are arguments.
\<close>

section \<open>JSON-lines recorder\<close>

record EpisodeRecorder =
  er_state_lines :: "pydict list"
  er_action_lines :: "pydict list"
  er_last_state_key :: "(pyval \<times> pyval) option"
  er_last_state_payload :: "pydict option"

definition episode_recorder_init :: EpisodeRecorder where
  "episode_recorder_init = \<lparr>er_state_lines = [], er_action_lines = [], er_last_state_key = None, er_last_state_payload = None\<rparr>"

definition state_key :: "pydict \<Rightarrow> pyval \<times> pyval" where
  "state_key p = (dget p ''tick'', dget p ''host_time_ns'')"

definition jsonl_record_state :: "EpisodeRecorder \<Rightarrow> StateSnapshot \<Rightarrow> int \<Rightarrow> EpisodeRecorder" where
  "jsonl_record_state r s wall_ns =
     (let key = state_key (payload s) in
      if er_last_state_key r = Some key then r
      else r\<lparr>er_last_state_key := Some key, er_last_state_payload := Some (payload s),
             er_state_lines := er_state_lines r @
               [[(''schema'', PStr ''robotics_lab.policy_runner.robot_state_sample.v1''),
                 (''received_wall_time_ns'', PInt wall_ns),
                 (''received_monotonic_sec'', PFloat (received_monotonic s)),
                 (''payload'', PDict (payload s))]]\<rparr>)"

definition jsonl_record_action :: "EpisodeRecorder \<Rightarrow> pydict \<Rightarrow> int \<Rightarrow> EpisodeRecorder" where
  "jsonl_record_action r packet wall_ns =
     (let state = (case er_last_state_payload r of None \<Rightarrow> [] | Some p \<Rightarrow> p) in
      r\<lparr>er_action_lines := er_action_lines r @
          [[(''schema'', PStr ''robotics_lab.policy_runner.action_sample.v1''),
            (''sent_wall_time_ns'', PInt wall_ns),
            (''nearest_state_tick'', dget state ''tick''),
            (''nearest_state_host_time_ns'', dget state ''host_time_ns''),
            (''packet'', PDict packet)]]\<rparr>)"

section \<open>Reading a frame\<close>

definition float_list :: "pyval \<Rightarrow> nat \<Rightarrow> pyval res" where
  "float_list v n =
     (case v of
        PList xs \<Rightarrow> res_bind (res_map py_float (take n xs)) (\<lambda>out.
          Inr (PList (map PFloat (out @ replicate (n - length out) (Fin 0)))))
      | _ \<Rightarrow> Inr (PList (map PFloat (replicate n (Fin 0)))))"

definition dict_or_empty :: "pyval \<Rightarrow> pydict" where
  "dict_or_empty v = (case v of PDict d \<Rightarrow> d | _ \<Rightarrow> [])"

fun first_present :: "pydict \<Rightarrow> string list \<Rightarrow> pyval" where
  "first_present m [] = PNone"
| "first_present m (k # ks) = (if dget m k \<noteq> PNone then dget m k else first_present m ks)"

definition float_or :: "pydict \<Rightarrow> string \<Rightarrow> pyfloat \<Rightarrow> pyfloat res" where
  "float_or d k f = py_float (py_or (dget_or d k (PFloat f)) (PFloat f))"

definition extract_tcp_pose_7 :: "pydict \<Rightarrow> string \<Rightarrow> string option \<Rightarrow> pyval res" where
  "extract_tcp_pose_7 arm_state key fallback_key =
     (let tcp0 = dget arm_state key;
          tcp = (if \<not> is_dict tcp0 then (case fallback_key of None \<Rightarrow> tcp0 | Some k \<Rightarrow> dget arm_state k) else tcp0)
      in case tcp of
           PDict t \<Rightarrow>
             res_bind (float_or t ''x'' 0) (\<lambda>x. res_bind (float_or t ''y'' 0) (\<lambda>y. res_bind (float_or t ''z'' 0) (\<lambda>z.
             (case dget t ''quaternion_xyzw'' of
                PList [a, b, c, d] \<Rightarrow>
                  res_bind (res_map py_float [a, b, c, d]) (\<lambda>q. Inr (PList (map PFloat ([x, y, z] @ q))))
              | _ \<Rightarrow>
                  res_bind (float_or t ''qx'' 0) (\<lambda>qx. res_bind (float_or t ''qy'' 0) (\<lambda>qy.
                  res_bind (float_or t ''qz'' 0) (\<lambda>qz. res_bind (float_or t ''qw'' 1) (\<lambda>qw.
                  Inr (PList (map PFloat [x, y, z, qx, qy, qz, qw]))))))))))
         | _ \<Rightarrow> Inr (PList (map PFloat [0, 0, 0, 0, 0, 0, 1])))"

definition extract_tcp_stand_7 :: "pydict \<Rightarrow> pyval res" where
  "extract_tcp_stand_7 arm_state = extract_tcp_pose_7 arm_state ''tcp_stand'' None"

definition bool_with_fallback :: "pyval \<Rightarrow> bool \<Rightarrow> bool" where
  "bool_with_fallback v fallback = (case v of PBool b \<Rightarrow> b | _ \<Rightarrow> fallback)"

definition tracking_source :: "pydict \<Rightarrow> string" where
  "tracking_source arm_state =
     str_or_empty (first_present arm_state [''tcp_tracking_source'', ''tcp_tracking_source_recommendation''])"

definition diagnostics_suspect :: "pydict \<Rightarrow> bool" where
  "diagnostics_suspect arm_state =
     (case dget arm_state ''diagnostics_suspect'' of
        PBool b \<Rightarrow> b
      | _ \<Rightarrow> py_str (dget_or arm_state ''lifecycle_state'' (PStr [])) = ''diagnostics_suspect'')"

definition int_or_zero :: "pyval \<Rightarrow> pyval res" where
  "int_or_zero v = res_bind (py_int (py_or v (PInt 0))) (\<lambda>i. Inr (PInt i))"

definition duration_us :: "pydict \<Rightarrow> pyval res" where
  "duration_us arm_state =
     (let v = dget arm_state ''send_duration_us'' in
      int_or_zero (if v = PNone \<and> is_dict (dget arm_state ''backend_timing'')
                   then dget (dict_or_empty (dget arm_state ''backend_timing'')) ''send_duration_us'' else v))"

definition dominant_action_mode :: "string \<Rightarrow> string \<Rightarrow> string" where
  "dominant_action_mode left_mode right_mode =
     (case filter (\<lambda>m. m \<in> {left_mode, right_mode}) [''TcpPoseTarget'', ''TcpLinearMove'', ''JointTarget''] of
        m # _ \<Rightarrow> m | [] \<Rightarrow> left_mode)"

definition tcp_target_values :: "pyval \<Rightarrow> pyval res" where
  "tcp_target_values v =
     (case v of
        PList _ \<Rightarrow> float_list v 6
      | PDict d \<Rightarrow> res_bind (res_map (\<lambda>k. float_or d k 0) [''x'', ''y'', ''z'', ''rx'', ''ry'', ''rz''])
                     (\<lambda>xs. Inr (PList (map PFloat xs)))
      | _ \<Rightarrow> Inr (PList (map PFloat (replicate 6 (Fin 0)))))"

definition spacemouse_keys :: "string \<Rightarrow> string list" where
  "spacemouse_keys name = [''spacemouse_'' @ name, ''spacemouse_raw_'' @ name, ''raw_'' @ name]"

fun spacemouse_lookup :: "string \<Rightarrow> pyval list \<Rightarrow> pyval" where
  "spacemouse_lookup name [] = PNone"
| "spacemouse_lookup name (v # vs) =
     (case v of
        PDict d \<Rightarrow>
          (case filter (\<lambda>k. map_of d k \<noteq> None) (spacemouse_keys name) of
             k # _ \<Rightarrow> dget d k
           | [] \<Rightarrow>
               (case dget d ''spacemouse_raw'' of
                  PDict raw \<Rightarrow> if map_of raw name \<noteq> None then dget raw name else spacemouse_lookup name vs
                | _ \<Rightarrow> spacemouse_lookup name vs))
      | _ \<Rightarrow> spacemouse_lookup name vs)"

definition spacemouse_value :: "pydict \<Rightarrow> pydict \<Rightarrow> string \<Rightarrow> string \<Rightarrow> pyval" where
  "spacemouse_value arm_action packet side name = spacemouse_lookup name [PDict arm_action, dget packet side, PDict packet]"

definition spacemouse_axes :: "pydict \<Rightarrow> pydict \<Rightarrow> string \<Rightarrow> pyval res" where
  "spacemouse_axes arm_action packet side = float_list (spacemouse_value arm_action packet side ''axes'') 6"

definition spacemouse_buttons :: "pydict \<Rightarrow> pydict \<Rightarrow> string \<Rightarrow> pyval" where
  "spacemouse_buttons arm_action packet side =
     (case spacemouse_value arm_action packet side ''buttons'' of
        PList xs \<Rightarrow> let out = map truthy (take 8 xs) in PList (map PBool (out @ replicate (8 - length out) False))
      | _ \<Rightarrow> PList (replicate 8 (PBool False)))"

section \<open>The episode buffer\<close>

text \<open>Each half of the per-frame lists, in the order \<^verbatim>\<open>record_frame\<close> appends to them.\<close>

definition STATE_COLUMNS :: "string list" where
  "STATE_COLUMNS =
     [''qpos_left'', ''qpos_right'', ''qsent_left'', ''qsent_right'', ''tcp_stand_left'', ''tcp_stand_right'',
      ''q_ref_left'', ''q_ref_right'', ''tcp_actual_stand_left'', ''tcp_actual_stand_right'',
      ''tcp_ref_stand_left'', ''tcp_ref_stand_right'', ''tcp_actual_valid_left'', ''tcp_actual_valid_right'',
      ''tcp_ref_valid_left'', ''tcp_ref_valid_right'', ''tcp_tracking_source_left'', ''tcp_tracking_source_right'',
      ''diagnostics_suspect_left'', ''diagnostics_suspect_right'', ''send_duration_us_left'', ''send_duration_us_right'',
      ''ack_policy_left'', ''ack_policy_right'', ''controller_acceptance_observed_left'',
      ''controller_acceptance_observed_right'', ''fault_latched'', ''state_age_us'', ''state_host_time_ns'', ''command_seq'']"

definition ACTION_COLUMNS :: "string list" where
  "ACTION_COLUMNS =
     [''action_mode'', ''action_source_id'', ''action_tcp_target_stand_left'', ''action_tcp_target_stand_right'',
      ''action_joint_target_left'', ''action_joint_target_right'', ''action_spacemouse_axes_left'',
      ''action_spacemouse_axes_right'', ''action_spacemouse_buttons_left'', ''action_spacemouse_buttons_right'',
      ''action_deadman_left'', ''action_deadman_right'', ''action_host_time_ns'', ''action_seq'']"

definition FRAME_COLUMNS :: "string list" where "FRAME_COLUMNS = STATE_COLUMNS @ ACTION_COLUMNS"

datatype image = Captured "nat list" string int | ZeroImage "nat list" string

type_synonym column_store = "(string \<times> pyval list) list"

record EpisodeBuffer =
  eb_episode_id :: string
  eb_task_description :: string
  eb_action_source :: string
  eb_operator_id :: "string option"
  eb_dataset_metadata :: pydict
  eb_cartesian_control_snapshot :: pydict
  eb_kinematics_snapshot :: pydict
  eb_cartesian_control_hash :: string
  eb_kinematics_hash :: string
  eb_reset_qpos_left :: pyval
  eb_reset_qpos_right :: pyval
  eb_reset_tcp_stand_left :: pyval
  eb_reset_tcp_stand_right :: pyval
  eb_start_wall_time_ns :: int
  eb_start_monotonic :: pyfloat
  eb_last_appended_monotonic :: pyfloat
  eb_columns :: column_store
  eb_images :: "(string \<times> image list) list"
  eb_image_shapes :: "(string \<times> nat list) list"
  eb_image_dtypes :: "(string \<times> string) list"
  eb_bundle_seq :: "int list"
  eb_bundle_time_ns :: "int list"
  eb_bundle_age_us :: "int list"

definition column :: "column_store \<Rightarrow> string \<Rightarrow> pyval list" where
  "column cols k = (case map_of cols k of None \<Rightarrow> [] | Some vs \<Rightarrow> vs)"

definition append_col :: "column_store \<Rightarrow> string \<Rightarrow> pyval \<Rightarrow> column_store" where
  "append_col cols k v = dset cols k (column cols k @ [v])"

text \<open>Appends in program order: the first exception leaves the appends before it in place.\<close>

fun append_all :: "column_store \<Rightarrow> (string \<times> pyval res) list \<Rightarrow> column_store \<times> unit res" where
  "append_all cols [] = (cols, Inr ())"
| "append_all cols ((k, Inl e) # rest) = (cols, Inl e)"
| "append_all cols ((k, Inr v) # rest) = append_all (append_col cols k v) rest"

definition arm_dict :: "pydict \<Rightarrow> string \<Rightarrow> pydict" where
  "arm_dict p arm = dict_or_empty (dget p arm)"

definition state_appends :: "pydict \<Rightarrow> (string \<times> pyval res) list" where
  "state_appends p =
     (let left = arm_dict p ''left''; right = arm_dict p ''right''; flag = (\<lambda>d k. Inr (PBool (truthy (dget_or d k (PBool False)))))
      in zip STATE_COLUMNS
       [float_list (dget left ''q_actual_deg'') 6, float_list (dget right ''q_actual_deg'') 6,
        float_list (dget left ''q_sent_deg'') 6, float_list (dget right ''q_sent_deg'') 6,
        extract_tcp_stand_7 left, extract_tcp_stand_7 right,
        float_list (first_present left [''q_ref_deg'', ''q_target_deg'']) 6,
        float_list (first_present right [''q_ref_deg'', ''q_target_deg'']) 6,
        extract_tcp_pose_7 left ''tcp_actual_stand'' (Some ''tcp_stand''),
        extract_tcp_pose_7 right ''tcp_actual_stand'' (Some ''tcp_stand''),
        extract_tcp_pose_7 left ''tcp_ref_stand'' None, extract_tcp_pose_7 right ''tcp_ref_stand'' None,
        Inr (PBool (bool_with_fallback (dget left ''tcp_actual_valid'') (truthy (dget left ''tcp_stand'')))),
        Inr (PBool (bool_with_fallback (dget right ''tcp_actual_valid'') (truthy (dget right ''tcp_stand'')))),
        flag left ''tcp_ref_valid'', flag right ''tcp_ref_valid'',
        Inr (PStr (tracking_source left)), Inr (PStr (tracking_source right)),
        Inr (PBool (diagnostics_suspect left)), Inr (PBool (diagnostics_suspect right)),
        duration_us left, duration_us right,
        Inr (PStr (str_or_empty (first_present left [''ack_policy'', ''ack_semantics'']))),
        Inr (PStr (str_or_empty (first_present right [''ack_policy'', ''ack_semantics'']))),
        flag left ''controller_acceptance_observed'', flag right ''controller_acceptance_observed'',
        flag p ''fault_latched'',
        int_or_zero (dget_or p ''state_age_us'' (PInt 0)), int_or_zero (dget_or p ''host_time_ns'' (PInt 0)),
        int_or_zero (dget_or p ''command_seq'' (PInt 0))])"

definition zeros6 :: pyval where "zeros6 = PList (map PFloat (replicate 6 (Fin 0)))"

definition action_appends :: "pydict option \<Rightarrow> int option \<Rightarrow> int option \<Rightarrow> (string \<times> pyval res) list" where
  "action_appends packet host_time_ns seq =
     (let stamps = [Inr (PInt (case host_time_ns of None \<Rightarrow> 0 | Some t \<Rightarrow> t)), Inr (PInt (case seq of None \<Rightarrow> 0 | Some n \<Rightarrow> n))]
      in zip ACTION_COLUMNS ((case packet of
          Some pk \<Rightarrow>
            let left = arm_dict pk ''left''; right = arm_dict pk ''right'';
                left_mode = py_str (dget_or left ''mode'' (PStr ''Hold''));
                right_mode = py_str (dget_or right ''mode'' (PStr ''Hold''))
            in [Inr (PStr (dominant_action_mode left_mode right_mode)),
                Inr (PStr (str_or_empty (dget_or pk ''source_id'' (PStr [])))),
                tcp_target_values (dget left ''tcp_target_stand''), tcp_target_values (dget right ''tcp_target_stand''),
                float_list (dget left ''q_target_deg'') 6, float_list (dget right ''q_target_deg'') 6,
                spacemouse_axes left pk ''left'', spacemouse_axes right pk ''right'',
                Inr (spacemouse_buttons left pk ''left''), Inr (spacemouse_buttons right pk ''right''),
                Inr (PBool (truthy (dget_or left ''deadman'' (PBool False)))),
                Inr (PBool (truthy (dget_or right ''deadman'' (PBool False))))]
        | None \<Rightarrow>
            [Inr (PStr ''Hold''), Inr (PStr []), Inr zeros6, Inr zeros6, Inr zeros6, Inr zeros6, Inr zeros6, Inr zeros6,
             Inr (PList (replicate 8 (PBool False))), Inr (PList (replicate 8 (PBool False))),
             Inr (PBool False), Inr (PBool False)]) @ stamps))"

section \<open>Camera frames\<close>

record CameraBundle =
  cb_bundle_seq :: int
  cb_bundle_time_ns :: int
  cb_frames :: "(string \<times> nat list \<times> string \<times> int) list"

definition MISSING_BUNDLE_AGE_US :: int where "MISSING_BUNDLE_AGE_US = 2 ^ 62"

definition rpartition_under :: "string \<Rightarrow> (string \<times> string) option" where
  "rpartition_under name =
     (let stream = rev (takeWhile (\<lambda>c. c \<noteq> CHR ''_'') (rev name)) in
      if length stream = length name then None
      else Some (take (length name - length stream - 1) name, stream))"

definition resolve_frame :: "(string \<times> 'f) list \<Rightarrow> string \<Rightarrow> 'f option" where
  "resolve_frame frames name =
     (case map_of frames name of
        Some f \<Rightarrow> Some f
      | None \<Rightarrow>
          if CHR ''.'' \<notin> set name then
            (case rpartition_under name of
               None \<Rightarrow> None
             | Some (base, stream) \<Rightarrow> map_of frames (base @ ''.'' @ stream))
          else None)"

definition append_image :: "EpisodeBuffer \<Rightarrow> string \<Rightarrow> image \<Rightarrow> EpisodeBuffer" where
  "append_image ep cam img =
     ep\<lparr>eb_images := dset (eb_images ep) cam ((case map_of (eb_images ep) cam of None \<Rightarrow> [] | Some l \<Rightarrow> l) @ [img])\<rparr>"

definition set_default :: "('k \<times> 'v) list \<Rightarrow> 'k \<Rightarrow> 'v \<Rightarrow> ('k \<times> 'v) list" where
  "set_default m k v = (case map_of m k of None \<Rightarrow> dset m k v | Some _ \<Rightarrow> m)"

definition camera_word :: "string \<Rightarrow> string" where
  "camera_word cam = ''camera '' @ [CHR 0x27] @ cam @ [CHR 0x27]"

definition record_camera ::
  "bool \<Rightarrow> CameraBundle option \<Rightarrow> EpisodeBuffer \<Rightarrow> string \<Rightarrow> EpisodeBuffer \<times> unit res" where
  "record_camera zero_on_missing bundle ep cam =
     (case (case bundle of None \<Rightarrow> None | Some bd \<Rightarrow> resolve_frame (cb_frames bd) cam) of
        Some (shape, dtype, px) \<Rightarrow>
          if length shape \<noteq> 2 \<and> length shape \<noteq> 3 then (ep, Inl (RuntimeError (camera_word cam @ '' pixels must have shape H,W (depth/mono) or H,W,C'')))
          else if map_of (eb_image_shapes ep) cam \<noteq> None \<and> map_of (eb_image_shapes ep) cam \<noteq> Some shape
          then (ep, Inl (RuntimeError (camera_word cam @ '' shape changed'')))
          else (append_image (ep\<lparr>eb_image_shapes := set_default (eb_image_shapes ep) cam shape,
                                 eb_image_dtypes := set_default (eb_image_dtypes ep) cam dtype\<rparr>) cam (Captured shape dtype px),
                Inr ())
      | None \<Rightarrow>
          if \<not> zero_on_missing then (ep, Inl (RuntimeError (camera_word cam @ '' missing from bundle and record_zero_on_missing is False'')))
          else (case map_of (eb_image_shapes ep) cam of
                  None \<Rightarrow> (ep, Inr ())
                | Some shape \<Rightarrow>
                    (append_image ep cam (ZeroImage shape (case map_of (eb_image_dtypes ep) cam of None \<Rightarrow> ''uint8'' | Some d \<Rightarrow> d)),
                     Inr ())))"

fun record_cameras ::
  "bool \<Rightarrow> CameraBundle option \<Rightarrow> EpisodeBuffer \<Rightarrow> string list \<Rightarrow> EpisodeBuffer \<times> unit res" where
  "record_cameras zero_on_missing bundle ep [] = (ep, Inr ())"
| "record_cameras zero_on_missing bundle ep (c # cs) =
     (case record_camera zero_on_missing bundle ep c of
        (ep', Inl e) \<Rightarrow> (ep', Inl e)
      | (ep', Inr _) \<Rightarrow> record_cameras zero_on_missing bundle ep' cs)"

section \<open>The HDF5 recorder\<close>

record Hdf5EpisodeRecorder =
  hr_recording_rate_hz :: pyfloat
  hr_period_sec :: pyfloat
  hr_has_camera_client :: bool
  hr_expected_cameras :: "string list"
  hr_record_zero_on_missing :: bool
  hr_current_episode :: "EpisodeBuffer option"

definition hdf5_recorder_init :: "pyfloat \<Rightarrow> bool \<Rightarrow> string list \<Rightarrow> bool \<Rightarrow> Hdf5EpisodeRecorder res" where
  "hdf5_recorder_init rate has_camera expected zero_on_missing =
     (if rate < Fin 1 \<or> Fin 100 < rate then Inl (ValueError ''recording_rate_hz must be in [1.0, 100.0]'')
      else res_bind (fdiv 1 rate) (\<lambda>period.
        Inr \<lparr>hr_recording_rate_hz = rate, hr_period_sec = period, hr_has_camera_client = has_camera,
             hr_expected_cameras = expected, hr_record_zero_on_missing = zero_on_missing, hr_current_episode = None\<rparr>))"

definition has_active_episode :: "Hdf5EpisodeRecorder \<Rightarrow> bool" where
  "has_active_episode r = (hr_current_episode r \<noteq> None)"

definition episode_id :: "Hdf5EpisodeRecorder \<Rightarrow> string option" where
  "episode_id r = map_option eb_episode_id (hr_current_episode r)"

definition hdf5_frame_count :: "Hdf5EpisodeRecorder \<Rightarrow> int" where
  "hdf5_frame_count r =
     (case hr_current_episode r of None \<Rightarrow> 0 | Some ep \<Rightarrow> int (length (column (eb_columns ep) ''qpos_left'')))"

text \<open>\<^verbatim>\<open>str.isdigit\<close> also accepts the superscripts one, two and three, which \<^verbatim>\<open>int\<close> rejects.\<close>

definition py_isdigit :: "string \<Rightarrow> bool" where
  "py_isdigit s = (s \<noteq> [] \<and> list_all (\<lambda>c. is_digit c \<or> c \<in> {CHR 0xB2, CHR 0xB3, CHR 0xB9}) s)"

fun next_index :: "string list \<Rightarrow> int \<Rightarrow> int res" where
  "next_index [] acc = Inr acc"
| "next_index (stem # stems) acc =
     (let suffix = drop (length ''episode_'') stem in
      if py_isdigit suffix then res_bind (int_of_str suffix) (\<lambda>i. next_index stems (pymax acc (i + 1)))
      else next_index stems acc)"

definition episode_name :: "nat \<Rightarrow> string" where
  "episode_name n = ''episode_'' @ (let d = nat_str n in replicate (3 - length d) (CHR ''0'') @ d)"

text \<open>\<open>stems\<close> are the stems of the files matching \<^verbatim>\<open>episode_*.hdf5\<close> in the session folder.\<close>

definition next_episode_id :: "string list \<Rightarrow> string res" where
  "next_episode_id stems = res_bind (next_index stems 0) (\<lambda>n. Inr (episode_name (nat n)))"

definition hash_or_empty :: "(pydict \<Rightarrow> string) \<Rightarrow> pydict \<Rightarrow> string" where
  "hash_or_empty hash d = (if d = [] then [] else hash d)"

definition start_episode ::
  "Hdf5EpisodeRecorder \<Rightarrow> (pydict \<Rightarrow> string) \<Rightarrow> string list \<Rightarrow> int \<Rightarrow> pyfloat \<Rightarrow> StateSnapshot \<Rightarrow> string \<Rightarrow> string
   \<Rightarrow> string option \<Rightarrow> pydict \<Rightarrow> Hdf5EpisodeRecorder \<times> unit res" where
  "start_episode r hash stems wall_ns mono_sec snap task_description action_source operator_id dataset_metadata =
     (case hr_current_episode r of
        Some ep \<Rightarrow> (r, Inl (RuntimeError (''Episode '' @ [CHR 0x27] @ eb_episode_id ep @ [CHR 0x27]
                      @ '' is still active; call end_episode() first'')))
      | None \<Rightarrow>
          let p = payload snap; left = arm_dict p ''left''; right = arm_dict p ''right'';
              cart = dict_or_empty (dget p ''cartesian_control_snapshot'');
              kin = dict_or_empty (dget p ''kinematics_snapshot'')
          in (case res_bind (next_episode_id stems) (\<lambda>eid.
                   res_bind (float_list (dget left ''q_actual_deg'') 6) (\<lambda>ql.
                   res_bind (float_list (dget right ''q_actual_deg'') 6) (\<lambda>qr.
                   res_bind (extract_tcp_stand_7 left) (\<lambda>tl.
                   res_bind (extract_tcp_stand_7 right) (\<lambda>tr.
                   Inr \<lparr>eb_episode_id = eid, eb_task_description = task_description, eb_action_source = action_source,
                        eb_operator_id = operator_id, eb_dataset_metadata = dataset_metadata,
                        eb_cartesian_control_snapshot = cart, eb_kinematics_snapshot = kin,
                        eb_cartesian_control_hash = hash_or_empty hash cart, eb_kinematics_hash = hash_or_empty hash kin,
                        eb_reset_qpos_left = ql, eb_reset_qpos_right = qr,
                        eb_reset_tcp_stand_left = tl, eb_reset_tcp_stand_right = tr,
                        eb_start_wall_time_ns = wall_ns, eb_start_monotonic = mono_sec, eb_last_appended_monotonic = NInf,
                        eb_columns = map (\<lambda>k. (k, [])) FRAME_COLUMNS,
                        eb_images = [], eb_image_shapes = [], eb_image_dtypes = [],
                        eb_bundle_seq = [], eb_bundle_time_ns = [], eb_bundle_age_us = []\<rparr>))))) of
                Inl e \<Rightarrow> (r, Inl e)
              | Inr ep \<Rightarrow> (r\<lparr>hr_current_episode := Some ep\<rparr>, Inr ())))"

text \<open>The recording grid: \<open>None\<close> when the frame comes too early, else the new grid position.\<close>

definition next_slot :: "pyfloat \<Rightarrow> pyfloat \<Rightarrow> pyfloat \<Rightarrow> pyfloat option res" where
  "next_slot period last_appended now =
     (if last_appended = NInf then Inr (Some now)
      else let elapsed = now - last_appended in
        if elapsed < period - Fin (1 / 1000000) then Inr None
        else res_bind (fdiv elapsed period) (\<lambda>q. res_bind (py_int (PFloat q)) (\<lambda>n.
          Inr (Some (last_appended + Fin (of_int (pymax 1 n)) * period)))))"

definition record_camera_frame ::
  "Hdf5EpisodeRecorder \<Rightarrow> CameraBundle option \<Rightarrow> int \<Rightarrow> EpisodeBuffer \<Rightarrow> EpisodeBuffer \<times> unit res" where
  "record_camera_frame r bundle clock_ns ep =
     (if \<not> hr_has_camera_client r then (ep, Inr ())
      else
        let ep1 = (case bundle of
              Some bd \<Rightarrow> ep\<lparr>eb_bundle_seq := eb_bundle_seq ep @ [cb_bundle_seq bd],
                            eb_bundle_time_ns := eb_bundle_time_ns ep @ [cb_bundle_time_ns bd],
                            eb_bundle_age_us := eb_bundle_age_us ep @ [(clock_ns - cb_bundle_time_ns bd) div 1000]\<rparr>
            | None \<Rightarrow> ep\<lparr>eb_bundle_seq := eb_bundle_seq ep @ [0], eb_bundle_time_ns := eb_bundle_time_ns ep @ [0],
                            eb_bundle_age_us := eb_bundle_age_us ep @ [MISSING_BUNDLE_AGE_US]\<rparr>);
            cameras = (if hr_expected_cameras r = []
                       then (case bundle of None \<Rightarrow> [] | Some bd \<Rightarrow> sort (map fst (cb_frames bd)))
                       else hr_expected_cameras r)
        in record_cameras (hr_record_zero_on_missing r) bundle ep1 cameras)"

definition append_frame ::
  "Hdf5EpisodeRecorder \<Rightarrow> EpisodeBuffer \<Rightarrow> pydict \<Rightarrow> pydict option \<Rightarrow> int option \<Rightarrow> int option \<Rightarrow> CameraBundle option
   \<Rightarrow> int \<Rightarrow> EpisodeBuffer \<times> unit res" where
  "append_frame r ep p packet host_time_ns seq bundle clock_ns =
     (case append_all (eb_columns ep) (state_appends p @ action_appends packet host_time_ns seq) of
        (cols, Inl e) \<Rightarrow> (ep\<lparr>eb_columns := cols\<rparr>, Inl e)
      | (cols, Inr _) \<Rightarrow> record_camera_frame r bundle clock_ns (ep\<lparr>eb_columns := cols\<rparr>))"

definition hdf5_record_frame ::
  "Hdf5EpisodeRecorder \<Rightarrow> pyfloat \<Rightarrow> StateSnapshot \<Rightarrow> pydict option \<Rightarrow> int option \<Rightarrow> int option \<Rightarrow> CameraBundle option
   \<Rightarrow> int \<Rightarrow> Hdf5EpisodeRecorder \<times> unit res" where
  "hdf5_record_frame r now snap packet host_time_ns seq bundle clock_ns =
     (case hr_current_episode r of
        None \<Rightarrow> (r, Inl (RuntimeError ''no active episode; call start_episode() first''))
      | Some ep \<Rightarrow>
          (case next_slot (hr_period_sec r) (eb_last_appended_monotonic ep) now of
             Inl e \<Rightarrow> (r, Inl e)
           | Inr None \<Rightarrow> (r, Inr ())
           | Inr (Some slot) \<Rightarrow>
               let (ep', res) = append_frame r (ep\<lparr>eb_last_appended_monotonic := slot\<rparr>) (payload snap) packet host_time_ns seq
                                  bundle clock_ns
               in (r\<lparr>hr_current_episode := Some ep'\<rparr>, res)))"

definition VALID_END_REASONS :: "string list" where
  "VALID_END_REASONS = [''operator_success'', ''operator_failed'', ''timeout'', ''fault_latched'', ''operator_abort'', ''other'']"

text \<open>What \<^verbatim>\<open>end_episode\<close> writes: the attributes, and the datasets with their element type. The rows are
  the buffered values; numpy's conversion to the element type is left to the file.\<close>

datatype dtype = F32 | I64 | BoolT | StrT

definition column_dtype :: "string \<Rightarrow> dtype" where
  "column_dtype k =
     (if k \<in> {''tcp_tracking_source_left'', ''tcp_tracking_source_right'', ''ack_policy_left'', ''ack_policy_right'',
              ''action_mode'', ''action_source_id''} then StrT
      else if k \<in> {''send_duration_us_left'', ''send_duration_us_right'', ''state_age_us'', ''state_host_time_ns'',
                   ''command_seq'', ''action_host_time_ns'', ''action_seq''} then I64
      else if k \<in> {''tcp_actual_valid_left'', ''tcp_actual_valid_right'', ''tcp_ref_valid_left'', ''tcp_ref_valid_right'',
                   ''diagnostics_suspect_left'', ''diagnostics_suspect_right'', ''controller_acceptance_observed_left'',
                   ''controller_acceptance_observed_right'', ''fault_latched'', ''action_spacemouse_buttons_left'',
                   ''action_spacemouse_buttons_right'', ''action_deadman_left'', ''action_deadman_right''} then BoolT
      else F32)"

definition dataset_path :: "string \<Rightarrow> string" where
  "dataset_path k =
     (if k = ''action_host_time_ns'' then ''action/action_host_time_ns''
      else if k \<in> set ACTION_COLUMNS then ''action/'' @ drop (length ''action_'') k
      else ''observations/'' @ k)"

record EpisodeFile =
  ef_path :: string
  ef_attrs :: pydict
  ef_groups :: pydict
  ef_datasets :: "(string \<times> dtype \<times> pyval list) list"
  ef_images :: "(string \<times> image list) list"

definition file_attrs :: "Hdf5EpisodeRecorder \<Rightarrow> EpisodeBuffer \<Rightarrow> bool \<Rightarrow> string \<Rightarrow> string option \<Rightarrow> pyfloat \<Rightarrow> pydict" where
  "file_attrs r ep success end_reason notes duration_sec =
     [(''schema'', PStr ''robotics_lab.episode.v1''), (''episode_id'', PStr (eb_episode_id ep)),
      (''created_wall_time_ns'', PInt (eb_start_wall_time_ns ep)),
      (''task_description'', PStr (eb_task_description ep)), (''action_source'', PStr (eb_action_source ep))]
     @ (case eb_operator_id ep of None \<Rightarrow> [] | Some o1 \<Rightarrow> [(''operator_id'', PStr o1)])
     @ [(''reset_qpos_left'', eb_reset_qpos_left ep), (''reset_qpos_right'', eb_reset_qpos_right ep),
        (''reset_tcp_stand_left'', eb_reset_tcp_stand_left ep), (''reset_tcp_stand_right'', eb_reset_tcp_stand_right ep),
        (''success'', PBool success), (''end_reason'', PStr end_reason)]
     @ (case notes of None \<Rightarrow> [] | Some n \<Rightarrow> [(''notes'', PStr n)])
     @ [(''duration_sec'', PFloat duration_sec), (''recording_rate_hz'', PFloat (hr_recording_rate_hz r)),
        (''frame_count'', PInt (int (length (column (eb_columns ep) ''qpos_left'')))),
        (''cartesian_control_hash'', PStr (eb_cartesian_control_hash ep)), (''kinematics_hash'', PStr (eb_kinematics_hash ep))]"

definition file_datasets :: "EpisodeBuffer \<Rightarrow> (string \<times> dtype \<times> pyval list) list" where
  "file_datasets ep =
     map (\<lambda>k. (dataset_path k, column_dtype k, column (eb_columns ep) k)) FRAME_COLUMNS
     @ (if eb_bundle_seq ep = [] then []
        else [(''observations/bundle_seq'', I64, map PInt (eb_bundle_seq ep)),
              (''observations/bundle_host_time_ns'', I64, map PInt (eb_bundle_time_ns ep)),
              (''observations/bundle_age_us'', I64, map PInt (eb_bundle_age_us ep))])"

definition episode_file ::
  "Hdf5EpisodeRecorder \<Rightarrow> EpisodeBuffer \<Rightarrow> bool \<Rightarrow> string \<Rightarrow> string option \<Rightarrow> pyfloat \<Rightarrow> EpisodeFile" where
  "episode_file r ep success end_reason notes duration_sec =
     \<lparr>ef_path = eb_episode_id ep @ ''.hdf5'',
      ef_attrs = file_attrs r ep success end_reason notes duration_sec,
      ef_groups = [(''config/cartesian_control'', PDict (eb_cartesian_control_snapshot ep)),
                   (''config/kinematics'', PDict (eb_kinematics_snapshot ep))]
                  @ (if eb_dataset_metadata ep = [] then [] else [(''metadata/dataset'', PDict (eb_dataset_metadata ep))]),
      ef_datasets = file_datasets ep,
      ef_images = filter (\<lambda>(_, frames). frames \<noteq> []) (eb_images ep)\<rparr>"

text \<open>\<open>h5write\<close> is the outcome of creating and filling the file; if it raises, the episode stays active.\<close>

definition end_episode ::
  "Hdf5EpisodeRecorder \<Rightarrow> pyfloat \<Rightarrow> (EpisodeFile \<Rightarrow> unit res) \<Rightarrow> bool \<Rightarrow> string \<Rightarrow> string option
   \<Rightarrow> Hdf5EpisodeRecorder \<times> EpisodeFile res" where
  "end_episode r now h5write success end_reason notes =
     (case hr_current_episode r of
        None \<Rightarrow> (r, Inl (RuntimeError ''no active episode''))
      | Some ep \<Rightarrow>
          if end_reason \<notin> set VALID_END_REASONS then (r, Inl (ValueError (''unknown end_reason: '' @ end_reason)))
          else let f = episode_file r ep success end_reason notes (now - eb_start_monotonic ep) in
            (case h5write f of
               Inl e \<Rightarrow> (r, Inl e)
             | Inr _ \<Rightarrow> (r\<lparr>hr_current_episode := None\<rparr>, Inr f)))"

definition hdf5_close :: "Hdf5EpisodeRecorder \<Rightarrow> pyfloat \<Rightarrow> (EpisodeFile \<Rightarrow> unit res) \<Rightarrow> Hdf5EpisodeRecorder \<times> EpisodeFile option res" where
  "hdf5_close r now h5write =
     (if has_active_episode r
      then let (r', res) = end_episode r now h5write False ''operator_abort'' None in (r', res_bind res (\<lambda>f. Inr (Some f)))
      else (r, Inr None))"

section \<open>Lemmas\<close>

lemma column_append_col [simp]: "column (append_col cols k v) j = (if j = k then column cols k @ [v] else column cols j)"
  by (simp add: column_def append_col_def)

text \<open>Up to the first exception every named column grows by one; from there on none does.\<close>

lemma append_all_columns:
  assumes "distinct (map fst plan)"
  shows "length (column (fst (append_all cols plan)) k) =
    length (column cols k) + (if k \<in> fst ` set (takeWhile (\<lambda>x. isl (snd x) = False) plan) then 1 else 0)"
  using assms
proof (induction cols plan rule: append_all.induct)
  case (3 cols k' v rest)
  then have "k' \<notin> fst ` set rest" by auto
  then have "k' \<notin> fst ` set (takeWhile (\<lambda>x. isl (snd x) = False) rest)"
    by (auto dest: set_takeWhileD)
  with 3 show ?case by auto
qed simp_all

lemma append_all_ok: "snd (append_all cols plan) = Inr () \<longleftrightarrow> (\<forall>x\<in>set plan. \<not> isl (snd x))"
  by (induction cols plan rule: append_all.induct) auto

lemma frame_plan_columns: "map fst (state_appends p @ action_appends packet t n) = FRAME_COLUMNS"
proof -
  have "map fst (state_appends p) = STATE_COLUMNS"
    unfolding state_appends_def Let_def by (subst map_fst_zip) (simp_all only: STATE_COLUMNS_def list.size refl)
  moreover have "map fst (action_appends packet t n) = ACTION_COLUMNS"
    unfolding action_appends_def Let_def
    by (cases packet; subst map_fst_zip)
      (simp_all only: ACTION_COLUMNS_def list.size length_append option.case add_Suc add_Suc_right add_0_left refl)
  ultimately show ?thesis by (simp add: FRAME_COLUMNS_def)
qed

lemma distinct_frame_columns: "distinct FRAME_COLUMNS"
  by code_simp

definition frame_rows :: "EpisodeBuffer \<Rightarrow> nat" where
  "frame_rows ep = length (column (eb_columns ep) ''qpos_left'')"

definition aligned :: "EpisodeBuffer \<Rightarrow> bool" where
  "aligned ep = list_all (\<lambda>k. length (column (eb_columns ep) k) = frame_rows ep) FRAME_COLUMNS"

lemma record_camera_columns [simp]: "eb_columns (fst (record_camera z bd ep c)) = eb_columns ep"
  by (simp add: record_camera_def append_image_def split: option.split prod.split)

lemma record_cameras_columns [simp]: "eb_columns (fst (record_cameras z bd ep cs)) = eb_columns ep"
proof (induction cs arbitrary: ep)
  case (Cons c cs)
  obtain ep' res where "record_camera z bd ep c = (ep', res)" by fastforce
  with record_camera_columns [of z bd ep c] Cons show ?case by (cases res) simp_all
qed simp

lemma record_camera_frame_columns [simp]: "eb_columns (fst (record_camera_frame r bd t ep)) = eb_columns ep"
  by (simp add: record_camera_frame_def Let_def split: option.split)

lemma append_frame_columns:
  "eb_columns (fst (append_frame r ep p packet t n bd clk)) =
     fst (append_all (eb_columns ep) (state_appends p @ action_appends packet t n))"
  by (cases "append_all (eb_columns ep) (state_appends p @ action_appends packet t n)")
    (simp add: append_frame_def split: sum.split)

lemma append_frame_ok:
  assumes "snd (append_frame r ep p packet t n bd clk) = Inr ()" and "k \<in> set FRAME_COLUMNS"
  shows "length (column (eb_columns (fst (append_frame r ep p packet t n bd clk))) k) = Suc (length (column (eb_columns ep) k))"
proof -
  let ?plan = "state_appends p @ action_appends packet t n"
  from assms(1) have "snd (append_all (eb_columns ep) ?plan) = Inr ()"
    by (cases "append_all (eb_columns ep) ?plan") (auto simp: append_frame_def split: sum.splits)
  then have "takeWhile (\<lambda>x. isl (snd x) = False) ?plan = ?plan"
    by (intro takeWhile_eq_all_conv [THEN iffD2]) (simp add: append_all_ok del: set_append)
  moreover have "k \<in> fst ` set ?plan"
    using assms(2) frame_plan_columns [of p packet t n] by (metis set_map)
  ultimately show ?thesis
    using append_all_columns [of ?plan "eb_columns ep" k]
    by (simp only: append_frame_columns frame_plan_columns distinct_frame_columns simp_thms if_True Suc_eq_plus1)
qed

section \<open>Frames as a machine\<close>

record frame_call =
  fc_now :: pyfloat
  fc_snapshot :: StateSnapshot
  fc_packet :: "pydict option"
  fc_host_time_ns :: "int option"
  fc_seq :: "int option"
  fc_bundle :: "CameraBundle option"
  fc_clock_ns :: int

definition frame_step :: "Hdf5EpisodeRecorder \<Rightarrow> frame_call \<Rightarrow> Hdf5EpisodeRecorder \<times> unit res" where
  "frame_step r c = hdf5_record_frame r (fc_now c) (fc_snapshot c) (fc_packet c) (fc_host_time_ns c) (fc_seq c)
     (fc_bundle c) (fc_clock_ns c)"

text \<open>A frame that returns normally adds one row to every column, or none to any.\<close>

lemma frame_step_ok:
  assumes "hr_current_episode r = Some ep" and "snd (frame_step r c) = Inr ()"
  obtains ep' d where "hr_current_episode (fst (frame_step r c)) = Some ep'" and "d \<le> 1"
    and "\<And>k. k \<in> set FRAME_COLUMNS \<Longrightarrow> length (column (eb_columns ep') k) = length (column (eb_columns ep) k) + d"
proof (cases "next_slot (hr_period_sec r) (eb_last_appended_monotonic ep) (fc_now c)")
  case (Inl e)
  with assms have False by (simp add: frame_step_def hdf5_record_frame_def)
  then show ?thesis ..
next
  case (Inr slot_opt)
  show ?thesis
  proof (cases slot_opt)
    case None
    with Inr assms that [of ep 0] show ?thesis by (simp add: frame_step_def hdf5_record_frame_def)
  next
    case (Some slot)
    let ?af = "append_frame r (ep\<lparr>eb_last_appended_monotonic := slot\<rparr>) (payload (fc_snapshot c)) (fc_packet c)
      (fc_host_time_ns c) (fc_seq c) (fc_bundle c) (fc_clock_ns c)"
    from Inr Some assms(1) have step: "frame_step r c = (r\<lparr>hr_current_episode := Some (fst ?af)\<rparr>, snd ?af)"
      by (simp add: frame_step_def hdf5_record_frame_def case_prod_beta)
    with assms(2) have "snd ?af = Inr ()" by simp
    from append_frame_ok [OF this] step that [of "fst ?af" 1] show ?thesis by simp
  qed
qed

lemma frames_ok:
  assumes "hr_current_episode r = Some ep" and "set (outputs frame_step r cs) \<subseteq> {Inr ()}"
  shows "\<exists>ep' d. hr_current_episode (state_after frame_step r cs) = Some ep' \<and> d \<le> length cs
    \<and> (\<forall>k\<in>set FRAME_COLUMNS. length (column (eb_columns ep') k) = length (column (eb_columns ep) k) + d)"
  using assms
proof (induction cs arbitrary: r ep)
  case (Cons c cs)
  from Cons.prems have "snd (frame_step r c) = Inr ()" by simp
  from frame_step_ok [OF Cons.prems(1) this] obtain ep1 d1 where
    1: "hr_current_episode (fst (frame_step r c)) = Some ep1" "d1 \<le> 1"
      "\<And>k. k \<in> set FRAME_COLUMNS \<Longrightarrow> length (column (eb_columns ep1) k) = length (column (eb_columns ep) k) + d1" by blast
  from Cons.IH [OF 1(1)] Cons.prems(2) obtain ep2 d2 where
    2: "hr_current_episode (state_after frame_step (fst (frame_step r c)) cs) = Some ep2" "d2 \<le> length cs"
      "\<forall>k\<in>set FRAME_COLUMNS. length (column (eb_columns ep2) k) = length (column (eb_columns ep1) k) + d2" by auto
  have "d1 + d2 \<le> length (c # cs)" using 1(2) 2(2) by simp
  moreover have "\<forall>k\<in>set FRAME_COLUMNS. length (column (eb_columns ep2) k) = length (column (eb_columns ep) k) + (d1 + d2)"
    using 1(3) 2(3) by simp
  ultimately show ?case using 2(1) by (metis state_after_simps(2))
qed auto

lemma column_init: "column (map (\<lambda>k. (k, [])) ks) k = []"
  by (induction ks) (auto simp: column_def)

lemma start_episode_columns:
  assumes "start_episode r hash stems w m s t a o1 md = (r1, Inr ())"
  obtains ep where "hr_current_episode r1 = Some ep" and "\<And>k. column (eb_columns ep) k = []"
  using assms that
  by (auto simp: start_episode_def Let_def res_bind_def column_init split: option.splits sum.splits)

lemma qpos_in: "''qpos_left'' \<in> set FRAME_COLUMNS" by (simp add: FRAME_COLUMNS_def STATE_COLUMNS_def)

lemma dget_or_append: "dget_or (xs @ ys) k d = (case map_of xs k of Some v \<Rightarrow> v | None \<Rightarrow> dget_or ys k d)"
  by (simp add: dget_or_def map_add_def split: option.split)

lemma action_seq_in: "''action_seq'' \<in> set FRAME_COLUMNS" by (simp add: FRAME_COLUMNS_def ACTION_COLUMNS_def)

lemma first_column_kept:
  assumes "float_list (dget (arm_dict p ''left'') ''q_actual_deg'') 6 = Inr v"
  shows "''qpos_left'' \<in> fst ` set (takeWhile (\<lambda>x. isl (snd x) = False) (state_appends p @ rest))"
proof -
  obtain tl where "state_appends p = (''qpos_left'', Inr v) # tl"
    using assms by (simp add: state_appends_def STATE_COLUMNS_def Let_def)
  then show ?thesis by simp
qed

lemma takeWhile_prefix_of:
  assumes "map f xs = ini @ [z]" and "length (takeWhile P xs) < length xs"
  shows "set (map f (takeWhile P xs)) \<subseteq> set ini"
proof -
  have "map f (takeWhile P xs) = take (length (takeWhile P xs)) (ini @ [z])"
    by (metis assms(1) take_map takeWhile_eq_take)
  moreover have "length (takeWhile P xs) \<le> length ini"
    using assms by (metis length_append_singleton length_map less_Suc_eq_le)
  ultimately show ?thesis by (simp add: set_take_subset)
qed

lemma last_column_lost:
  assumes "snd (append_all cols (state_appends p @ action_appends pk t n)) \<noteq> Inr ()"
  shows "''action_seq'' \<notin> fst ` set (takeWhile (\<lambda>x. isl (snd x) = False) (state_appends p @ action_appends pk t n))"
proof
  let ?plan = "state_appends p @ action_appends pk t n"
  assume "''action_seq'' \<in> fst ` set (takeWhile (\<lambda>x. isl (snd x) = False) ?plan)"
  then obtain x where x: "x \<in> set (takeWhile (\<lambda>x. isl (snd x) = False) ?plan)" "fst x = ''action_seq''" by auto
  have "FRAME_COLUMNS = butlast FRAME_COLUMNS @ [''action_seq'']" and ini: "''action_seq'' \<notin> set (butlast FRAME_COLUMNS)"
    by code_simp+
  then have plan: "map fst ?plan = butlast FRAME_COLUMNS @ [''action_seq'']" by (simp only: frame_plan_columns)
  let ?tw = "takeWhile (\<lambda>x. isl (snd x) = False) ?plan"
  have "length ?tw = length ?plan"
  proof (rule ccontr)
    assume "length ?tw \<noteq> length ?plan"
    then have lt: "length ?tw < length ?plan" using length_takeWhile_le [of _ ?plan] by (simp add: le_neq_implies_less del: length_append)
    have "set (map fst ?tw) \<subseteq> set (butlast FRAME_COLUMNS)"
      using takeWhile_prefix_of [OF plan lt] by blast
    with x ini show False by auto
  qed
  then have "?tw = ?plan" by (metis takeWhile_eq_take take_all order_refl)
  then have "\<forall>x\<in>set ?plan. \<not> isl (snd x)" by (metis set_takeWhileD)
  with assms show False by (simp only: append_all_ok) 
qed

section \<open>Properties\<close>


definition demo_recorder :: Hdf5EpisodeRecorder where
  "demo_recorder = \<lparr>hr_recording_rate_hz = Fin 10, hr_period_sec = Fin (1/10), hr_has_camera_client = False,
     hr_expected_cameras = [], hr_record_zero_on_missing = True, hr_current_episode = None\<rparr>"

definition demo_call :: "rat \<Rightarrow> pyval \<Rightarrow> frame_call" where
  "demo_call now age = \<lparr>fc_now = Fin now, fc_snapshot = \<lparr>payload = [(''state_age_us'', age)], received_monotonic = Fin now\<rparr>,
     fc_packet = None, fc_host_time_ns = None, fc_seq = None, fc_bundle = None, fc_clock_ns = 0\<rparr>"

definition demo_active :: Hdf5EpisodeRecorder where
  "demo_active = fst (start_episode demo_recorder (\<lambda>_. ''hash'') [''episode_007'', ''episode_x''] 5 (Fin 0)
     (fc_snapshot (demo_call 0 PNone)) ''task'' ''hold'' None [])"

lemma demo_start:
  "start_episode demo_recorder (\<lambda>_. ''hash'') [''episode_007'', ''episode_x''] 5 (Fin 0)
     (fc_snapshot (demo_call 0 PNone)) ''task'' ''hold'' None [] = (demo_active, Inr ())"
proof -
  have "snd (start_episode demo_recorder (\<lambda>_. ''hash'') [''episode_007'', ''episode_x''] 5 (Fin 0)
     (fc_snapshot (demo_call 0 PNone)) ''task'' ''hold'' None []) = Inr ()" by code_simp
  then show ?thesis unfolding demo_active_def by (metis prod.collapse)
qed

lemma demo_frames:
  "outputs frame_step demo_active [demo_call 1 (PInt 3), demo_call (21/20) (PInt 4), demo_call (6/5) PNone]
   = [Inr (), Inr (), Inr ()]"
  by code_simp


text \<open>A frame that raises after its first column is not undone: the columns before the failing one
  keep the extra row. The caller reports the error and goes on recording, and however many frames
  then succeed, \<^verbatim>\<open>qpos_left\<close> stays exactly one row ahead of \<^verbatim>\<open>action_seq\<close>: all later rows of the file
  pair a joint position with the action of the next frame.\<close>

theorem failed_frame_shifts_rows:
  assumes ep: "hr_current_episode r = Some ep" "aligned ep"
    and due: "next_slot (hr_period_sec r) (eb_last_appended_monotonic ep) (fc_now c) = Inr (Some slot)"
    and first: "float_list (dget (arm_dict (payload (fc_snapshot c)) ''left'') ''q_actual_deg'') 6 = Inr v"
    and raises: "snd (append_all (eb_columns ep) (state_appends (payload (fc_snapshot c))
          @ action_appends (fc_packet c) (fc_host_time_ns c) (fc_seq c))) = Inl e"
    and later: "set (outputs frame_step (fst (frame_step r c)) cs) \<subseteq> {Inr ()}"
  shows "snd (frame_step r c) = Inl e
    \<and> (\<exists>ep'. hr_current_episode (state_after frame_step r (c # cs)) = Some ep'
        \<and> length (column (eb_columns ep') ''qpos_left'') = length (column (eb_columns ep') ''action_seq'') + 1)"
proof -
  let ?plan = "state_appends (payload (fc_snapshot c)) @ action_appends (fc_packet c) (fc_host_time_ns c) (fc_seq c)"
  let ?cols = "append_all (eb_columns ep) ?plan"
  have step: "frame_step r c = (r\<lparr>hr_current_episode := Some (ep\<lparr>eb_last_appended_monotonic := slot, eb_columns := fst ?cols\<rparr>)\<rparr>, Inl e)"
    using ep(1) due raises
    by (cases ?cols) (auto simp: frame_step_def hdf5_record_frame_def append_frame_def)
  have al: "length (column (eb_columns ep) k) = frame_rows ep" if "k \<in> set FRAME_COLUMNS" for k
    using ep(2) that by (simp add: aligned_def list_all_iff)
  let ?ok = "fst ` set (takeWhile (\<lambda>x. isl (snd x) = False) ?plan)"
  have d: "distinct (map fst ?plan)" using frame_plan_columns distinct_frame_columns by metis
  have fk: "''qpos_left'' \<in> ?ok" by (rule first_column_kept [OF first])
  have lk: "''action_seq'' \<notin> ?ok" by (rule last_column_lost [of "eb_columns ep"]) (use raises in simp)
  have len: "length (column (fst ?cols) ''qpos_left'') = frame_rows ep + 1" "length (column (fst ?cols) ''action_seq'') = frame_rows ep"
    using append_all_columns [OF d, of "eb_columns ep"] fk lk al [OF qpos_in] al [OF action_seq_in] by simp_all
  have "hr_current_episode (fst (frame_step r c)) = Some (ep\<lparr>eb_last_appended_monotonic := slot, eb_columns := fst ?cols\<rparr>)"
    by (simp add: step)
  from frames_ok [OF this later] len qpos_in action_seq_in step show ?thesis by auto
qed

definition demo_ep :: EpisodeBuffer where "demo_ep = the (hr_current_episode demo_active)"

theorem failed_frame_shifts_rows_witness:
  "\<exists>e. snd (frame_step demo_active (demo_call 1 (PStr ''n/a''))) = Inl e
    \<and> (\<exists>ep'. hr_current_episode (state_after frame_step demo_active [demo_call 1 (PStr ''n/a''), demo_call 2 (PInt 1)]) = Some ep'
        \<and> length (column (eb_columns ep') ''qpos_left'') = length (column (eb_columns ep') ''action_seq'') + 1)"
proof -
  let ?c = "demo_call 1 (PStr ''n/a'')"
  let ?plan = "state_appends (payload (fc_snapshot ?c)) @ action_appends (fc_packet ?c) (fc_host_time_ns ?c) (fc_seq ?c)"
  have ep: "hr_current_episode demo_active = Some demo_ep" "aligned demo_ep" by code_simp+
  have due: "next_slot (hr_period_sec demo_active) (eb_last_appended_monotonic demo_ep) (fc_now ?c) = Inr (Some (Fin 1))"
    by code_simp
  have first: "float_list (dget (arm_dict (payload (fc_snapshot ?c)) ''left'') ''q_actual_deg'') 6 = Inr zeros6" by code_simp
  have "isl (snd (append_all (eb_columns demo_ep) ?plan))" by code_simp
  then obtain e where raises: "snd (append_all (eb_columns demo_ep) ?plan) = Inl e" by (auto simp: isl_def)
  have later: "set (outputs frame_step (fst (frame_step demo_active ?c)) [demo_call 2 (PInt 1)]) \<subseteq> {Inr ()}" by code_simp
  from failed_frame_shifts_rows [OF ep due first raises later] show ?thesis by blast
qed

section \<open>Episode names\<close>

lemma digits_isdigit: "list_all is_digit s \<Longrightarrow> s \<noteq> [] \<Longrightarrow> py_isdigit s"
  by (auto simp: py_isdigit_def list_all_iff)

lemma next_index_ge: "next_index stems acc = Inr n \<Longrightarrow> acc \<le> n"
proof (induction stems acc arbitrary: n rule: next_index.induct)
  case (2 stem stems acc)
  let ?d = "drop (length ''episode_'') stem"
  show ?case
  proof (cases "py_isdigit ?d")
    case True
    with 2(3) obtain i where i: "int_of_str ?d = Inr i" and "next_index stems (pymax acc (i + 1)) = Inr n"
      by (cases "int_of_str ?d") (simp_all add: Let_def res_bind_def)
    from 2(1) [OF refl True this(2)] show ?thesis by (simp add: pymax_def split: if_splits)
  next
    case False
    with 2(3) 2(2) [OF refl False] show ?thesis by simp
  qed
qed simp

lemma next_index_gt:
  assumes "next_index stems acc = Inr n" and "stem \<in> set stems"
    and "drop (length ''episode_'') stem = d" and "py_isdigit d" and "int_of_str d = Inr i"
  shows "i < n"
  using assms(1,2)
proof (induction stems acc arbitrary: n rule: next_index.induct)
  case (2 st stems acc)
  let ?d = "drop (length ''episode_'') st"
  show ?case
  proof (cases "st = stem")
    case True
    with 2(3) assms(3-5) have "next_index stems (pymax acc (i + 1)) = Inr n" by (simp add: Let_def res_bind_def)
    from next_index_ge [OF this] show ?thesis by (simp add: pymax_def split: if_splits)
  next
    case False
    with 2(4) have mem: "stem \<in> set stems" by simp
    show ?thesis
    proof (cases "py_isdigit ?d")
      case True
      with 2(3) obtain j where "int_of_str ?d = Inr j" "next_index stems (pymax acc (j + 1)) = Inr n"
        by (cases "int_of_str ?d") (simp_all add: Let_def res_bind_def)
      from 2(1) [OF refl True this(2) mem] show ?thesis .
    next
      case False
      with 2(3) 2(2) [OF refl False _ mem] show ?thesis by simp
    qed
  qed
qed simp

lemma episode_name_suffix:
  "drop (length ''episode_'') (episode_name n) = replicate (3 - length (nat_str n)) (CHR ''0'') @ nat_str n"
  by (simp add: episode_name_def Let_def)

text \<open>A new episode never reuses the name of a file that is already in the session folder, so
  opening it for writing cannot overwrite a recorded episode.\<close>

theorem next_episode_id_is_fresh:
  assumes "next_episode_id stems = Inr name"
  shows "name \<notin> set stems"
proof
  assume mem: "name \<in> set stems"
  from assms obtain n where n: "next_index stems 0 = Inr n" and name: "name = episode_name (nat n)"
    by (cases "next_index stems 0") (simp_all add: next_episode_id_def res_bind_def)
  let ?d = "replicate (3 - length (nat_str (nat n))) (CHR ''0'') @ nat_str (nat n)"
  have dig: "list_all is_digit ?d" using nat_str_digits [of "nat n"] by (auto simp: list_all_iff is_digit_def)
  have "int_of_str ?d = Inr (int (nat n))"
    using int_of_str_digits [OF dig] by (simp add: digits_val_zeros)
  moreover have "drop (length ''episode_'') name = ?d" by (simp only: name episode_name_suffix)
  moreover have "py_isdigit ?d" using dig by (intro digits_isdigit) simp_all
  ultimately have "int (nat n) < n" using next_index_gt [OF n mem] by metis
  moreover have "0 \<le> n" by (rule next_index_ge [OF n])
  ultimately show False by linarith
qed

theorem next_episode_id_is_fresh_witness:
  "next_episode_id [''episode_007'', ''episode_x'', ''episode_0012''] = Inr ''episode_013''
   \<and> ''episode_013'' \<notin> set [''episode_007'', ''episode_x'', ''episode_0012'']"
proof -
  have "next_episode_id [''episode_007'', ''episode_x'', ''episode_0012''] = Inr ''episode_013''" by code_simp
  with next_episode_id_is_fresh [OF this] show ?thesis by blast
qed

section \<open>The recording grid\<close>

definition grid_slack :: rat where "grid_slack = 1 / 1000000"

lemma next_slot_advances:
  assumes "0 < d" and "next_slot (Fin d) (Fin p) (Fin t) = Inr (Some s)"
  obtains q where "s = Fin q" and "p + d \<le> q" and "q \<le> t + grid_slack"
proof -
  let ?n = "if (t - p) / d < 0 then - \<lfloor>- ((t - p) / d)\<rfloor> else \<lfloor>(t - p) / d\<rfloor>"
  have "fdiv (Fin (t - p)) (Fin d) = Inr (Fin ((t - p) / d))" using assms(1) by simp
  with assms have late: "d - grid_slack \<le> t - p" and s: "s = Fin (p + of_int (pymax 1 ?n) * d)"
    by (auto simp: next_slot_def minus_pyfloat_def less_pyfloat.simps Let_def res_bind_def grid_slack_def split: if_splits)
  have one: "1 \<le> (of_int (pymax 1 ?n) :: rat)" by (simp add: pymax_def)
  have "p + of_int (pymax 1 ?n) * d \<le> t + grid_slack"
  proof (cases "1 < ?n")
    case True
    have "\<not> (t - p) / d < 0"
    proof
      assume neg: "(t - p) / d < 0"
      then have "0 \<le> \<lfloor>- ((t - p) / d)\<rfloor>" by simp
      moreover from neg True have "1 < - \<lfloor>- ((t - p) / d)\<rfloor>" by (simp only: if_True)
      ultimately show False by linarith
    qed
    then have "of_int ?n \<le> (t - p) / d" by simp
    then have "of_int ?n * d \<le> t - p" using assms(1) by (simp add: pos_le_divide_eq)
    with True show ?thesis by (simp add: pymax_def grid_slack_def split: if_splits)
  next
    case False
    with late show ?thesis by (simp add: pymax_def)
  qed
  with s one assms(1) show ?thesis by (intro that) (auto intro: mult_right_mono [of 1 _ d, simplified])
qed

definition grid_ok :: "rat \<Rightarrow> rat \<Rightarrow> rat \<Rightarrow> EpisodeBuffer \<Rightarrow> bool" where
  "grid_ok t0 d T ep =
     (eb_last_appended_monotonic ep = NInf \<and> frame_rows ep = 0
      \<or> (\<exists>q. eb_last_appended_monotonic ep = Fin q \<and> t0 + (of_nat (frame_rows ep) - 1) * d \<le> q \<and> q \<le> T + grid_slack))"

lemma append_frame_rows:
  "frame_rows (fst (append_frame r ep p pk t n bd clk)) \<le> frame_rows ep + 1"
proof -
  have "distinct (map fst (state_appends p @ action_appends pk t n))"
    by (simp only: frame_plan_columns distinct_frame_columns)
  from append_all_columns [OF this] show ?thesis by (simp add: frame_rows_def append_frame_columns)
qed

lemma record_camera_last [simp]:
  "eb_last_appended_monotonic (fst (record_camera z bd ep c)) = eb_last_appended_monotonic ep"
  by (simp add: record_camera_def append_image_def split: option.split prod.split)

lemma record_cameras_last [simp]:
  "eb_last_appended_monotonic (fst (record_cameras z bd ep cs)) = eb_last_appended_monotonic ep"
proof (induction cs arbitrary: ep)
  case (Cons c cs)
  obtain ep' res where "record_camera z bd ep c = (ep', res)" by fastforce
  with record_camera_last [of z bd ep c] Cons show ?case by (cases res) simp_all
qed simp

lemma append_frame_last [simp]:
  "eb_last_appended_monotonic (fst (append_frame r ep p pk t n bd clk)) = eb_last_appended_monotonic ep"
  by (simp add: append_frame_def record_camera_frame_def Let_def split: prod.split sum.split option.split)

lemma grid_ok_step:
  assumes d: "0 < d" "hr_period_sec r = Fin d" and ep: "hr_current_episode r = Some ep" "grid_ok t0 d T ep"
    and t: "fc_now c = Fin t" "t0 \<le> t" "t \<le> T"
  shows "\<exists>ep'. hr_current_episode (fst (frame_step r c)) = Some ep' \<and> grid_ok t0 d T ep'
    \<and> hr_period_sec (fst (frame_step r c)) = Fin d"
proof (cases "next_slot (hr_period_sec r) (eb_last_appended_monotonic ep) (fc_now c)")
  case (Inr slot_opt)
  show ?thesis
  proof (cases slot_opt)
    case (Some slot)
    let ?af = "append_frame r (ep\<lparr>eb_last_appended_monotonic := slot\<rparr>) (payload (fc_snapshot c)) (fc_packet c)
      (fc_host_time_ns c) (fc_seq c) (fc_bundle c) (fc_clock_ns c)"
    from Inr Some ep(1) have step: "fst (frame_step r c) = r\<lparr>hr_current_episode := Some (fst ?af)\<rparr>"
      by (simp add: frame_step_def hdf5_record_frame_def case_prod_beta)
    have "frame_rows (fst ?af) \<le> frame_rows (ep\<lparr>eb_last_appended_monotonic := slot\<rparr>) + 1" by (rule append_frame_rows)
    then have "frame_rows (fst ?af) \<le> frame_rows ep + 1" by (simp add: frame_rows_def)
    then have rows: "of_nat (frame_rows (fst ?af)) \<le> (of_nat (frame_rows ep) + 1 :: rat)"
      using of_nat_mono [of _ "frame_rows ep + 1", where 'a = rat] by simp
    have "\<exists>q. slot = Fin q \<and> t0 + (of_nat (frame_rows (fst ?af)) - 1) * d \<le> q \<and> q \<le> T + grid_slack"
    proof (cases "eb_last_appended_monotonic ep = NInf")
      case True
      with Inr Some t ep(2) have "slot = Fin t" and "frame_rows ep = 0" by (simp_all add: next_slot_def grid_ok_def)
      moreover from this rows have "(of_nat (frame_rows (fst ?af)) - 1) * d \<le> 0" using d(1) by (simp add: mult_le_0_iff)
      ultimately show ?thesis using t by (auto simp: grid_slack_def)
    next
      case False
      with ep(2) obtain p where p: "eb_last_appended_monotonic ep = Fin p" "t0 + (of_nat (frame_rows ep) - 1) * d \<le> p"
        by (auto simp: grid_ok_def)
      from Inr Some p(1) t(1) d(2) have "next_slot (Fin d) (Fin p) (Fin t) = Inr (Some slot)" by simp
      from next_slot_advances [OF d(1) this] obtain q where q: "slot = Fin q" "p + d \<le> q" "q \<le> t + grid_slack" by blast
      have "(of_nat (frame_rows (fst ?af)) - 1) * d \<le> of_nat (frame_rows ep) * d"
        using rows d(1) by (intro mult_right_mono) auto
      with q p(2) t(3) show ?thesis by (intro exI [of _ q]) (simp add: algebra_simps)
    qed
    with step d(2) show ?thesis by (auto simp: grid_ok_def)
  qed (use Inr ep d(2) in \<open>simp add: frame_step_def hdf5_record_frame_def\<close>)
qed (use ep d(2) in \<open>simp add: frame_step_def hdf5_record_frame_def\<close>)

lemma grid_ok_run:
  assumes "0 < d" and "hr_period_sec r = Fin d" and "hr_current_episode r = Some ep" and "grid_ok t0 d T ep"
    and "\<forall>c\<in>set cs. \<exists>t. fc_now c = Fin t \<and> t0 \<le> t \<and> t \<le> T"
  shows "\<exists>ep'. hr_current_episode (state_after frame_step r cs) = Some ep' \<and> grid_ok t0 d T ep'"
  using assms
proof (induction cs arbitrary: r ep)
  case (Cons c cs)
  then obtain t where "fc_now c = Fin t" "t0 \<le> t" "t \<le> T" by auto
  from grid_ok_step [OF Cons.prems(1-4) this] Cons.IH Cons.prems show ?case by auto
qed simp

text \<open>The recorder never stores more rows than its rate allows: over frames that arrive within a
  window of the clock, a fresh episode holds at most one row per period of the window plus one, with
  the millionth of a second of slack the grid test grants. Frames that raise do not break the bound.\<close>

theorem recording_rate_is_bounded:
  assumes "0 < d" and "hr_period_sec r = Fin d" and "hr_current_episode r = Some ep"
    and "eb_last_appended_monotonic ep = NInf" and "frame_rows ep = 0"
    and "\<forall>c\<in>set cs. \<exists>t. fc_now c = Fin t \<and> t0 \<le> t \<and> t \<le> T" and "t0 \<le> T"
  shows "\<exists>ep'. hr_current_episode (state_after frame_step r cs) = Some ep'
    \<and> of_nat (frame_rows ep') \<le> (T - t0 + grid_slack) / d + 1"
proof -
  from assms(4,5) have "grid_ok t0 d T ep" by (simp add: grid_ok_def)
  from grid_ok_run [OF assms(1-3) this assms(6)] obtain ep'
    where e: "hr_current_episode (state_after frame_step r cs) = Some ep'" "grid_ok t0 d T ep'" by blast
  have "(of_nat (frame_rows ep') - 1) * d \<le> T - t0 + grid_slack"
  proof (cases "frame_rows ep' = 0")
    case True
    with assms(1,7) show ?thesis by (simp add: grid_slack_def)
  next
    case False
    with e(2) show ?thesis by (auto simp: grid_ok_def)
  qed
  with assms(1) have "of_nat (frame_rows ep') - 1 \<le> (T - t0 + grid_slack) / d" by (simp add: pos_le_divide_eq)
  with e(1) show ?thesis by auto
qed

theorem recording_rate_is_bounded_witness:
  "\<exists>ep'. hr_current_episode (state_after frame_step demo_active [demo_call 1 (PInt 3), demo_call (21/20) (PInt 4), demo_call (6/5) PNone]) = Some ep'
     \<and> of_nat (frame_rows ep') \<le> (6/5 - 1 + grid_slack) / (1/10) + 1"
proof -
  have ep: "hr_current_episode demo_active = Some demo_ep" "eb_last_appended_monotonic demo_ep = NInf" "frame_rows demo_ep = 0"
    "hr_period_sec demo_active = Fin (1/10)" by code_simp+
  have times: "\<forall>c\<in>set [demo_call 1 (PInt 3), demo_call (21/20) (PInt 4), demo_call (6/5) PNone].
      \<exists>t. fc_now c = Fin t \<and> 1 \<le> t \<and> t \<le> 6/5"
    by (auto simp: demo_call_def intro: exI [of _ "21/20"] exI [of _ "6/5"])
  show ?thesis by (rule recording_rate_is_bounded [OF _ ep(4,1,2,3) times]) simp_all
qed

section \<open>Cameras that appear late\<close>

text \<open>While an expected camera has not been seen yet, a stored frame adds a row to every column but
  none to that camera's images, even with \<^verbatim>\<open>record_zero_on_missing\<close>: the zero image is only appended
  once a shape is known. The image rows of a camera that appears late are therefore shifted against
  the frames.\<close>

theorem late_camera_has_no_rows:
  assumes "hr_current_episode r = Some ep" and "snd (frame_step r c) = Inr ()"
    and "next_slot (hr_period_sec r) (eb_last_appended_monotonic ep) (fc_now c) = Inr (Some slot)"
    and "hr_has_camera_client r" "hr_expected_cameras r = [cam]" "hr_record_zero_on_missing r"
    and "map_of (eb_image_shapes ep) cam = None"
    and "case fc_bundle c of None \<Rightarrow> True | Some bd \<Rightarrow> resolve_frame (cb_frames bd) cam = None"
  shows "\<exists>ep'. hr_current_episode (fst (frame_step r c)) = Some ep' \<and> frame_rows ep' = frame_rows ep + 1
    \<and> map_of (eb_images ep') cam = map_of (eb_images ep) cam"
proof -
  let ?ep = "ep\<lparr>eb_last_appended_monotonic := slot\<rparr>"
  let ?af = "append_frame r ?ep (payload (fc_snapshot c)) (fc_packet c) (fc_host_time_ns c) (fc_seq c) (fc_bundle c) (fc_clock_ns c)"
  from assms(1,3) have step: "frame_step r c = (r\<lparr>hr_current_episode := Some (fst ?af)\<rparr>, snd ?af)"
    by (simp add: frame_step_def hdf5_record_frame_def case_prod_beta)
  with assms(2) have ok: "snd ?af = Inr ()" by simp
  have "frame_rows (fst ?af) = frame_rows ep + 1"
    using append_frame_ok [OF ok qpos_in] by (simp add: frame_rows_def)
  moreover have "map_of (eb_images (fst ?af)) cam = map_of (eb_images ep) cam"
    using assms(4-8)
    by (simp add: append_frame_def record_camera_frame_def Let_def record_camera_def split: prod.split sum.split option.splits)
  ultimately show ?thesis by (simp add: step)
qed

definition demo_camera :: Hdf5EpisodeRecorder where
  "demo_camera = demo_active\<lparr>hr_has_camera_client := True, hr_expected_cameras := [''top_color'']\<rparr>"

theorem late_camera_has_no_rows_witness:
  "\<exists>ep'. hr_current_episode (fst (frame_step demo_camera (demo_call 1 (PInt 3)))) = Some ep'
     \<and> frame_rows ep' = frame_rows demo_ep + 1 \<and> map_of (eb_images ep') ''top_color'' = map_of (eb_images demo_ep) ''top_color''"
proof -
  have "hr_current_episode demo_camera = Some demo_ep" "snd (frame_step demo_camera (demo_call 1 (PInt 3))) = Inr ()"
    "next_slot (hr_period_sec demo_camera) (eb_last_appended_monotonic demo_ep) (fc_now (demo_call 1 (PInt 3))) = Inr (Some (Fin 1))"
    "hr_has_camera_client demo_camera" "hr_expected_cameras demo_camera = [''top_color'']" "hr_record_zero_on_missing demo_camera"
    "map_of (eb_image_shapes demo_ep) ''top_color'' = None"
    "case fc_bundle (demo_call 1 (PInt 3)) of None \<Rightarrow> True | Some bd \<Rightarrow> resolve_frame (cb_frames bd) ''top_color'' = None"
    by code_simp+
  then show ?thesis by (rule late_camera_has_no_rows)
qed

end
