(* ===== verification/RecordControl.thy ===== *)
theory RecordControl
  imports EpisodeRecording
begin

text \<open>
  Recording control of \<^verbatim>\<open>policy_runner/record_control.py\<close>: the datagrams that start and stop an
  episode, the supervisor that owns the recorder inside the command loop, and its status messages.
  A datagram is given by its JSON decoding; the socket is the list of outcomes of its \<^verbatim>\<open>recvfrom\<close>
  calls. Factories, clocks, the session folder and the HDF5 file are the fields of an environment
  record. Closing the camera client is taken to return normally.
\<close>

section \<open>Control datagrams\<close>

definition RECORD_COMMAND_SCHEMA :: string where "RECORD_COMMAND_SCHEMA = ''robotics_lab.record_cmd.v1''"

definition RECORD_STATUS_SCHEMA :: string where "RECORD_STATUS_SCHEMA = ''robotics_lab.recording_state.v1''"

record RecordCommand =
  rcmd_command :: string
  rcmd_task :: string
  rcmd_operator :: "string option"

datatype datagram = Undecodable | Json pyval

definition parse_control_payload :: "datagram \<Rightarrow> pydict res" where
  "parse_control_payload d =
     (case d of
        Undecodable \<Rightarrow> Inl (ValueError ''control command must be JSON'')
      | Json (PDict p) \<Rightarrow> Inr p
      | Json _ \<Rightarrow> Inl (ValueError ''control command must be a JSON object''))"

definition parse_record_command :: "pydict \<Rightarrow> RecordCommand res" where
  "parse_record_command p =
     (if dget p ''schema'' \<noteq> PStr RECORD_COMMAND_SCHEMA then Inl (ValueError ''unsupported record command schema'')
      else res_bind (in_str_set (dget p ''command'') [''start'', ''stop'']) (\<lambda>ok.
        if \<not> ok then Inl (ValueError ''record command must be start or stop'')
        else let task0 = dget_or p ''task'' (PStr []); task = (if task0 = PNone then PStr [] else task0);
                 operator = dget p ''operator'' in
          (case task of
             PStr t \<Rightarrow>
               (case operator of
                  PNone \<Rightarrow> Inr \<lparr>rcmd_command = py_str (dget p ''command''), rcmd_task = t, rcmd_operator = None\<rparr>
                | PStr o1 \<Rightarrow> Inr \<lparr>rcmd_command = py_str (dget p ''command''), rcmd_task = t,
                                 rcmd_operator = (if o1 = [] then None else Some o1)\<rparr>
                | _ \<Rightarrow> Inl (ValueError ''record command operator must be a string''))
           | _ \<Rightarrow> Inl (ValueError ''record command task must be a string''))))"

datatype recv_outcome = Received datagram | WouldBlock | RecvError

fun drain_loop :: "nat \<Rightarrow> recv_outcome list \<Rightarrow> pydict list \<times> recv_outcome list" where
  "drain_loop 0 sock = ([], sock)"
| "drain_loop (Suc n) [] = ([], [])"
| "drain_loop (Suc n) (WouldBlock # sock) = ([], sock)"
| "drain_loop (Suc n) (RecvError # sock) = ([], sock)"
| "drain_loop (Suc n) (Received d # sock) =
     (let (ps, rest) = drain_loop n sock in
      case parse_control_payload d of Inr p \<Rightarrow> (p # ps, rest) | Inl _ \<Rightarrow> (ps, rest))"

definition drain_payloads :: "int \<Rightarrow> recv_outcome list \<Rightarrow> pydict list \<times> recv_outcome list" where
  "drain_payloads max_packets sock = drain_loop (nat (max 1 max_packets)) sock"

fun parse_commands :: "pydict list \<Rightarrow> RecordCommand list res" where
  "parse_commands [] = Inr []"
| "parse_commands (p # ps) =
     (case parse_record_command p of
        Inr c \<Rightarrow> res_bind (parse_commands ps) (\<lambda>cs. Inr (c # cs))
      | Inl (ValueError _) \<Rightarrow> parse_commands ps
      | Inl e \<Rightarrow> Inl e)"

definition drain :: "int \<Rightarrow> recv_outcome list \<Rightarrow> RecordCommand list res \<times> recv_outcome list" where
  "drain max_packets sock = (let (ps, rest) = drain_payloads max_packets sock in (parse_commands ps, rest))"

section \<open>The supervisor\<close>

record RecordingSupervisor =
  su_rate_hz :: pyfloat
  su_status_rate_hz :: pyfloat
  su_status_endpoint :: "string option"
  su_dataset_metadata :: pydict
  su_control_bind :: "string option"
  su_has_publisher :: bool
  su_camera_client :: bool
  su_recorder :: "Hdf5EpisodeRecorder option"
  su_episode_name :: string
  su_frame_count :: int
  su_error :: string
  su_last_command :: string
  su_last_status_publish :: pyfloat
  su_last_status :: pydict

record record_env =
  ev_camera_factory :: "unit res"
  ev_recorder_factory :: "Hdf5EpisodeRecorder res"
  ev_hash :: "pydict \<Rightarrow> string"
  ev_stems :: "string list"
  ev_wall_ns :: int
  ev_monotonic :: pyfloat
  ev_h5write :: "EpisodeFile \<Rightarrow> unit res"

definition is_recording :: "RecordingSupervisor \<Rightarrow> bool" where
  "is_recording s = (case su_recorder s of None \<Rightarrow> False | Some r \<Rightarrow> has_active_episode r)"

definition recording_block :: "RecordingSupervisor \<Rightarrow> pydict" where
  "recording_block s =
     [(''recording'', PBool (is_recording s)),
      (''state'', PStr (if is_recording s then ''recording'' else ''idle'')),
      (''episode_name'', PStr (su_episode_name s)), (''frame_count'', PInt (su_frame_count s)),
      (''rate_hz'', PFloat (su_rate_hz s)), (''last_command'', PStr (su_last_command s)), (''error'', PStr (su_error s))]"

definition supervisor_init ::
  "pyfloat \<Rightarrow> pyfloat \<Rightarrow> string option \<Rightarrow> pydict \<Rightarrow> string option \<Rightarrow> bool \<Rightarrow> string \<Rightarrow> RecordingSupervisor" where
  "supervisor_init rate status_rate status_endpoint metadata control_bind has_publisher err =
     (let s = \<lparr>su_rate_hz = rate, su_status_rate_hz = status_rate, su_status_endpoint = status_endpoint,
               su_dataset_metadata = metadata, su_control_bind = control_bind, su_has_publisher = has_publisher,
               su_camera_client = False, su_recorder = None, su_episode_name = [], su_frame_count = 0, su_error = [],
               su_last_command = [], su_last_status_publish = NInf, su_last_status = []\<rparr>
      in s\<lparr>su_last_status := [(''recording'', PDict (recording_block s)), (''arm_init'', PNone)], su_error := err\<rparr>)"

text \<open>\<^verbatim>\<open>from_config\<close>: a control socket that cannot be bound, or a status socket that cannot be made,
  leaves that side off and never blocks start-up.\<close>

definition supervisor_from_config ::
  "pyfloat \<Rightarrow> pyfloat \<Rightarrow> pydict \<Rightarrow> bool \<Rightarrow> string \<Rightarrow> unit res \<Rightarrow> string \<Rightarrow> unit res \<Rightarrow> RecordingSupervisor" where
  "supervisor_from_config rate status_rate metadata control_enabled control_bind bind_result status_endpoint publisher_result =
     supervisor_init rate status_rate (if status_endpoint = [] then None else Some status_endpoint) metadata
       (if control_enabled \<and> \<not> isl bind_result then Some control_bind else None)
       (status_endpoint \<noteq> [] \<and> \<not> isl publisher_result)
       (case bind_result of Inl e \<Rightarrow> if control_enabled then ''control_bind_failed:'' @ exc_name e else [] | Inr _ \<Rightarrow> [])"

definition close_recorder_resources :: "RecordingSupervisor \<Rightarrow> RecordingSupervisor" where
  "close_recorder_resources s = s\<lparr>su_camera_client := False, su_recorder := None, su_episode_name := [], su_frame_count := 0\<rparr>"

definition ensure_recorder :: "RecordingSupervisor \<Rightarrow> record_env \<Rightarrow> RecordingSupervisor \<times> Hdf5EpisodeRecorder res" where
  "ensure_recorder s env =
     (case su_recorder s of
        Some r \<Rightarrow> (s, Inr r)
      | None \<Rightarrow>
          (case ev_camera_factory env of
             Inl e \<Rightarrow> (s, Inl e)
           | Inr _ \<Rightarrow>
               (case ev_recorder_factory env of
                  Inl e \<Rightarrow> (s\<lparr>su_camera_client := True\<rparr>, Inl e)
                | Inr r \<Rightarrow> (s\<lparr>su_camera_client := True, su_recorder := Some r\<rparr>, Inr r))))"

definition start_failed :: "RecordingSupervisor \<Rightarrow> pyexc \<Rightarrow> RecordingSupervisor" where
  "start_failed s e = close_recorder_resources (s\<lparr>su_error := ''start_failed:'' @ exc_name e\<rparr>)"

definition supervisor_start ::
  "RecordingSupervisor \<Rightarrow> record_env \<Rightarrow> StateSnapshot \<Rightarrow> string \<Rightarrow> string option \<Rightarrow> string \<Rightarrow> RecordingSupervisor" where
  "supervisor_start s env snap task operator action_source =
     (if is_recording s then s
      else case ensure_recorder (s\<lparr>su_error := []\<rparr>) env of
             (s1, Inl e) \<Rightarrow> start_failed s1 e
           | (s1, Inr r) \<Rightarrow>
               (case start_episode r (ev_hash env) (ev_stems env) (ev_wall_ns env) (ev_monotonic env) snap task action_source
                       operator (su_dataset_metadata s) of
                  (r', Inl e) \<Rightarrow> start_failed s1 e
                | (r', Inr _) \<Rightarrow>
                    s1\<lparr>su_recorder := Some r', su_episode_name := (case episode_id r' of None \<Rightarrow> [] | Some i \<Rightarrow> i),
                       su_frame_count := hdf5_frame_count r'\<rparr>))"

definition supervisor_record_frame :: "RecordingSupervisor \<Rightarrow> frame_call \<Rightarrow> RecordingSupervisor" where
  "supervisor_record_frame s c =
     (case su_recorder s of
        None \<Rightarrow> s
      | Some r \<Rightarrow>
          if \<not> has_active_episode r then s
          else (case frame_step r c of
                  (r', Inr _) \<Rightarrow>
                    s\<lparr>su_recorder := Some r', su_frame_count := hdf5_frame_count r',
                      su_episode_name := (case episode_id r' of None \<Rightarrow> [] | Some i \<Rightarrow> i)\<rparr>
                | (r', Inl e) \<Rightarrow> s\<lparr>su_recorder := Some r', su_error := ''record_failed:'' @ exc_name e\<rparr>))"

definition supervisor_stop :: "RecordingSupervisor \<Rightarrow> record_env \<Rightarrow> RecordingSupervisor \<times> EpisodeFile option" where
  "supervisor_stop s env =
     (case su_recorder s of
        None \<Rightarrow> (close_recorder_resources s, None)
      | Some r \<Rightarrow>
          if \<not> has_active_episode r then (close_recorder_resources s, None)
          else (case hdf5_close r (ev_monotonic env) (ev_h5write env) of
                  (r', Inr f) \<Rightarrow> (close_recorder_resources s, f)
                | (r', Inl e) \<Rightarrow> (close_recorder_resources (s\<lparr>su_error := ''stop_failed:'' @ exc_name e\<rparr>), None)))"

definition supervisor_handle_command ::
  "RecordingSupervisor \<Rightarrow> record_env \<Rightarrow> RecordCommand \<Rightarrow> StateSnapshot \<Rightarrow> string \<Rightarrow> RecordingSupervisor" where
  "supervisor_handle_command s env cmd snap action_source =
     (let s1 = s\<lparr>su_last_command := rcmd_command cmd\<rparr> in
      if rcmd_command cmd = ''start'' then supervisor_start s1 env snap (rcmd_task cmd) (rcmd_operator cmd) action_source
      else if rcmd_command cmd = ''stop'' then fst (supervisor_stop s1 env)
      else s1)"

fun dispatch_control_payloads ::
  "RecordingSupervisor \<Rightarrow> record_env \<Rightarrow> pydict list \<Rightarrow> StateSnapshot \<Rightarrow> string \<Rightarrow> RecordingSupervisor \<times> unit res" where
  "dispatch_control_payloads s env [] snap action_source = (s, Inr ())"
| "dispatch_control_payloads s env (p # ps) snap action_source =
     (case parse_record_command p of
        Inr cmd \<Rightarrow> dispatch_control_payloads (supervisor_handle_command s env cmd snap action_source) env ps snap action_source
      | Inl (ValueError _) \<Rightarrow> dispatch_control_payloads s env ps snap action_source
      | Inl e \<Rightarrow> (s, Inl e))"

definition drain_control_payloads :: "RecordingSupervisor \<Rightarrow> int \<Rightarrow> recv_outcome list \<Rightarrow> pydict list \<times> recv_outcome list" where
  "drain_control_payloads s max_packets sock =
     (if su_control_bind s = None then ([], sock) else drain_payloads max_packets sock)"

definition stamp_recording :: "RecordingSupervisor \<Rightarrow> StateSnapshot \<Rightarrow> StateSnapshot" where
  "stamp_recording s snap = snap\<lparr>payload := dset (payload snap) ''recording'' (PDict (recording_block s))\<rparr>"

definition opt_dict :: "pydict option \<Rightarrow> pyval" where
  "opt_dict d = (case d of None \<Rightarrow> PNone | Some x \<Rightarrow> PDict x)"

definition opt_text :: "string option \<Rightarrow> pyval" where
  "opt_text d = (case d of None \<Rightarrow> PNone | Some x \<Rightarrow> PStr x)"

record status_args =
  st_arm_init :: "pydict option"
  st_runner_role :: string
  st_action_source :: string
  st_source_id :: string
  st_session_id :: string
  st_spacemouse :: "pydict option"
  st_camera_runtime :: "pydict option"

definition combined_status :: "RecordingSupervisor \<Rightarrow> status_args \<Rightarrow> pydict" where
  "combined_status s a =
     [(''recording'', PDict (recording_block s)), (''arm_init'', opt_dict (st_arm_init a)),
      (''runner_role'', PStr (st_runner_role a)), (''action_source'', PStr (st_action_source a)),
      (''command_source_id'', PStr (st_source_id a)), (''command_session_id'', PStr (st_session_id a)),
      (''control_endpoint'', opt_text (su_control_bind s)), (''status_endpoint'', opt_text (su_status_endpoint s)),
      (''spacemouse'', opt_dict (st_spacemouse a)), (''camera_runtime'', opt_dict (st_camera_runtime a))]"

text \<open>The datagram of \<^verbatim>\<open>RecordStatusPublisher.publish\<close>; a failing \<^verbatim>\<open>sendto\<close> is ignored.\<close>

definition status_packet :: "RecordingSupervisor \<Rightarrow> status_args \<Rightarrow> int \<Rightarrow> pydict" where
  "status_packet s a wall_ns =
     [(''schema'', PStr RECORD_STATUS_SCHEMA), (''host_time_ns'', PInt wall_ns),
      (''recording'', PDict (recording_block s)), (''runner_role'', PStr (st_runner_role a)),
      (''action_source'', PStr (st_action_source a)), (''command_source_id'', PStr (st_source_id a)),
      (''command_session_id'', PStr (st_session_id a)), (''control_endpoint'', opt_text (su_control_bind s)),
      (''status_endpoint'', opt_text (su_status_endpoint s))]
     @ (case st_arm_init a of None \<Rightarrow> [] | Some d \<Rightarrow> [(''arm_init'', PDict d)])
     @ (case st_spacemouse a of None \<Rightarrow> [] | Some d \<Rightarrow> [(''spacemouse'', PDict d)])
     @ (case st_camera_runtime a of None \<Rightarrow> [] | Some d \<Rightarrow> [(''camera_runtime'', PDict d)])"

definition publish_status ::
  "RecordingSupervisor \<Rightarrow> pyfloat \<Rightarrow> bool \<Rightarrow> status_args \<Rightarrow> int \<Rightarrow> (RecordingSupervisor \<times> pydict option) res" where
  "publish_status s now force a wall_ns =
     res_bind (fdiv 1 (pymax (su_status_rate_hz s) 1)) (\<lambda>period.
       let combined = combined_status s a;
           changed = (combined \<noteq> su_last_status s);
           due = (period \<le> now - su_last_status_publish s)
       in if su_has_publisher s \<and> (force \<or> changed \<or> due)
          then Inr (s\<lparr>su_last_status_publish := now, su_last_status := combined\<rparr>, Some (status_packet s a wall_ns))
          else Inr (s, None))"

definition supervisor_close :: "RecordingSupervisor \<Rightarrow> record_env \<Rightarrow> RecordingSupervisor \<times> EpisodeFile option" where
  "supervisor_close s env =
     (let (s1, f) = supervisor_stop s env in (s1\<lparr>su_control_bind := None, su_has_publisher := False\<rparr>, f))"

section \<open>Lifecycle\<close>

definition sup_ok :: "RecordingSupervisor \<Rightarrow> bool" where
  "sup_ok s =
     (case su_recorder s of
        None \<Rightarrow> \<not> su_camera_client s \<and> su_episode_name s = [] \<and> su_frame_count s = 0
      | Some r \<Rightarrow> su_camera_client s \<and> episode_id r = Some (su_episode_name s))"

datatype supervisor_event =
    Control record_env "pydict list" StateSnapshot string
  | Frame frame_call
  | Stop record_env

fun supervisor_step :: "RecordingSupervisor \<Rightarrow> supervisor_event \<Rightarrow> RecordingSupervisor \<times> unit res" where
  "supervisor_step s (Control env ps snap src) = dispatch_control_payloads s env ps snap src"
| "supervisor_step s (Frame c) = (supervisor_record_frame s c, Inr ())"
| "supervisor_step s (Stop env) = (fst (supervisor_stop s env), Inr ())"

lemma sup_ok_closed [simp]: "sup_ok (close_recorder_resources s)"
  by (simp add: sup_ok_def close_recorder_resources_def)

lemma sup_ok_fields [simp]:
  "sup_ok (s\<lparr>su_error := e\<rparr>) = sup_ok s" "sup_ok (s\<lparr>su_last_command := c\<rparr>) = sup_ok s"
  by (simp_all add: sup_ok_def split: option.split)

lemma sup_ok_stop: "sup_ok (fst (supervisor_stop s env))"
  by (simp add: supervisor_stop_def split: option.split prod.split sum.split)

lemma start_episode_active:
  "start_episode r hash stems w m sn t a o1 md = (r', Inr u) \<Longrightarrow> \<exists>i. episode_id r' = Some i"
  by (auto simp: start_episode_def Let_def res_bind_def episode_id_def split: option.splits sum.splits)

lemma ensure_recorder_camera:
  assumes "sup_ok s" and "ensure_recorder s env = (s1, Inr r)"
  shows "su_camera_client s1"
  using assms by (auto simp: ensure_recorder_def sup_ok_def split: option.splits sum.splits)

lemma sup_ok_start: "sup_ok s \<Longrightarrow> sup_ok (supervisor_start s env snap task op src)"
proof -
  assume ok: "sup_ok s"
  show ?thesis
  proof (cases "is_recording s")
    case False
    obtain s1 res where e: "ensure_recorder (s\<lparr>su_error := []\<rparr>) env = (s1, res)" by fastforce
    show ?thesis
    proof (cases res)
      case (Inr r)
      with e ensure_recorder_camera [of "s\<lparr>su_error := []\<rparr>"] ok have cam: "su_camera_client s1" by simp
      obtain r' res' where st: "start_episode r (ev_hash env) (ev_stems env) (ev_wall_ns env) (ev_monotonic env) snap task src
          op (su_dataset_metadata s) = (r', res')" by fastforce
      show ?thesis
      proof (cases res')
        case (Inr u)
        with start_episode_active st obtain i where "episode_id r' = Some i" by blast
        with Inr False e \<open>res = Inr r\<close> st cam show ?thesis by (simp add: supervisor_start_def sup_ok_def)
      qed (use False e \<open>res = Inr r\<close> st in \<open>simp add: supervisor_start_def start_failed_def\<close>)
    qed (use False e in \<open>simp add: supervisor_start_def start_failed_def\<close>)
  qed (use ok in \<open>simp add: supervisor_start_def\<close>)
qed

lemma eb_episode_id_frame:
  "hr_current_episode r = Some ep \<Longrightarrow> \<exists>ep'. hr_current_episode (fst (frame_step r c)) = Some ep' \<and> eb_episode_id ep' = eb_episode_id ep"
proof -
  have cam: "eb_episode_id (fst (record_cameras z bd e cs)) = eb_episode_id e" for z bd e cs
  proof (induction cs arbitrary: e)
    case (Cons x cs)
    obtain e' res where rc: "record_camera z bd e x = (e', res)" by fastforce
    have "eb_episode_id (fst (record_camera z bd e x)) = eb_episode_id e"
      by (simp add: record_camera_def append_image_def split: option.split prod.split)
    with rc Cons show ?case by (cases res) simp_all
  qed simp
  have app: "eb_episode_id (fst (append_frame r e p pk t n bd clk)) = eb_episode_id e" for e p pk t n bd clk
    by (simp add: append_frame_def record_camera_frame_def Let_def cam split: prod.split sum.split option.split)
  assume "hr_current_episode r = Some ep"
  then show ?thesis
    by (simp add: frame_step_def hdf5_record_frame_def app case_prod_beta split: sum.split option.split)
qed

lemma sup_ok_frame: "sup_ok s \<Longrightarrow> sup_ok (supervisor_record_frame s c)"
proof (cases "su_recorder s")
  case (Some r)
  assume ok: "sup_ok s"
  with Some obtain ep where ep: "hr_current_episode r = Some ep" "eb_episode_id ep = su_episode_name s"
    by (auto simp: sup_ok_def episode_id_def)
  from eb_episode_id_frame [OF ep(1)] ep(2) have "episode_id (fst (frame_step r c)) = Some (su_episode_name s)"
    by (auto simp: episode_id_def)
  with ok Some show ?thesis
    by (cases "frame_step r c") (auto simp: supervisor_record_frame_def sup_ok_def split: sum.split)
qed (simp add: supervisor_record_frame_def)

lemma sup_ok_handle: "sup_ok s \<Longrightarrow> sup_ok (supervisor_handle_command s env cmd snap src)"
  by (simp add: supervisor_handle_command_def Let_def sup_ok_start sup_ok_stop)

lemma sup_ok_dispatch: "sup_ok s \<Longrightarrow> sup_ok (fst (dispatch_control_payloads s env ps snap src))"
  by (induction s env ps snap src rule: dispatch_control_payloads.induct)
    (simp_all add: sup_ok_handle split: sum.split pyexc.split)

lemma sup_ok_step: "sup_ok s \<Longrightarrow> sup_ok (fst (supervisor_step s e))"
  by (cases e) (simp_all add: sup_ok_dispatch sup_ok_frame sup_ok_stop)

interpretation supervisor: state_machine supervisor_step sup_ok
  by unfold_locales (rule sup_ok_step)

section \<open>Properties\<close>

text \<open>(C18) After any sequence of control datagrams, frames and stops, however many of them failed, the
  supervisor is in one of two consistent states: idle, with no recorder, no camera client, no episode
  name and no frames; or recording, with a camera client and the published name of the recorder's
  active episode. It can not be left with a recorder that has no episode.\<close>

theorem supervisor_is_consistent:
  assumes "s = state_after supervisor_step (supervisor_init rate srate sep md bind pub err) es"
  shows "if is_recording s then su_camera_client s \<and> (\<exists>r. su_recorder s = Some r \<and> episode_id r = Some (su_episode_name s))
    else su_recorder s = None \<and> \<not> su_camera_client s \<and> su_episode_name s = [] \<and> su_frame_count s = 0"
proof -
  have "sup_ok s" unfolding assms
    by (rule supervisor.inv_run) (simp add: sup_ok_def supervisor_init_def Let_def)
  then show ?thesis
    by (auto simp: sup_ok_def is_recording_def has_active_episode_def episode_id_def split: option.splits)
qed

definition demo_env :: record_env where
  "demo_env = \<lparr>ev_camera_factory = Inr (), ev_recorder_factory = Inr demo_recorder, ev_hash = (\<lambda>_. ''h''),
     ev_stems = [''episode_002''], ev_wall_ns = 1, ev_monotonic = Fin 1, ev_h5write = (\<lambda>_. Inl (OSError ''disk full''))\<rparr>"

definition demo_snap :: StateSnapshot where "demo_snap = \<lparr>payload = [], received_monotonic = Fin 1\<rparr>"

definition demo_start_cmd :: pydict where
  "demo_start_cmd = [(''schema'', PStr RECORD_COMMAND_SCHEMA), (''command'', PStr ''start'')]"

definition demo_sup :: RecordingSupervisor where
  "demo_sup = supervisor_init (Fin 10) (Fin 2) None [] None False []"

theorem supervisor_is_consistent_witness:
  "let s = state_after supervisor_step demo_sup [Control demo_env [demo_start_cmd] demo_snap ''hold'', Frame (demo_call 1 (PInt 3))]
   in is_recording s \<and> su_camera_client s \<and> su_episode_name s = ''episode_003''"
proof -
  let ?s = "state_after supervisor_step demo_sup [Control demo_env [demo_start_cmd] demo_snap ''hold'', Frame (demo_call 1 (PInt 3))]"
  have "is_recording ?s" "su_episode_name ?s = ''episode_003''" by code_simp+
  with supervisor_is_consistent [OF refl, of "Fin 10" "Fin 2" None "[]" None False "[]"
      "[Control demo_env [demo_start_cmd] demo_snap ''hold'', Frame (demo_call 1 (PInt 3))]"]
  show ?thesis unfolding demo_sup_def Let_def by presburger
qed

definition object_of :: "recv_outcome \<Rightarrow> pydict list" where
  "object_of o1 = (case o1 of Received (Json (PDict p)) \<Rightarrow> [p] | _ \<Rightarrow> [])"

definition is_received :: "recv_outcome \<Rightarrow> bool" where
  "is_received o1 = (case o1 of Received _ \<Rightarrow> True | _ \<Rightarrow> False)"

lemma drain_loop_spec: "fst (drain_loop n sock) = concat (map object_of (takeWhile is_received (take n sock)))"
proof (induction n sock rule: drain_loop.induct)
  case (5 n d sock)
  then show ?case
    by (simp add: is_received_def object_of_def parse_control_payload_def case_prod_beta
        split: datagram.split pyval.split)
qed (simp_all add: is_received_def)

text \<open>The drain delivers exactly the JSON objects among the datagrams it reads, in order: the
  datagrams are those before the first empty or failing read, at most the packet limit; other datagrams
  are skipped.\<close>

theorem drain_delivers_objects:
  "fst (drain_payloads max_packets sock) =
     concat (map object_of (takeWhile is_received (take (nat (max 1 max_packets)) sock)))"
  by (simp add: drain_payloads_def drain_loop_spec)

definition unhashable_command :: "pydict \<Rightarrow> bool" where
  "unhashable_command p = (dget p ''schema'' = PStr RECORD_COMMAND_SCHEMA \<and> \<not> hashable (dget p ''command''))"

lemma parse_record_command_error:
  "parse_record_command p = Inl e \<Longrightarrow> (\<exists>m. e = ValueError m) \<or> unhashable_command p \<and> e = TypeError ''unhashable type''"
  by (auto simp: parse_record_command_def res_bind_def unhashable_command_def Let_def in_str_set_def
      split: if_splits sum.splits pyval.splits)

lemma parse_unhashable:
  "unhashable_command p \<Longrightarrow> parse_record_command p = Inl (TypeError ''unhashable type'')"
  by (simp add: parse_record_command_def unhashable_command_def in_str_set_def res_bind_def)

text \<open>Dispatching control payloads raises exactly when some payload addressed to the recorder has a
  list or dictionary as its command: the membership test then raises \<^verbatim>\<open>TypeError\<close>, which is not caught.
  Every other malformed payload is skipped.\<close>

theorem dispatch_raises_only_on_unhashable:
  "isl (snd (dispatch_control_payloads s env ps snap src)) \<longleftrightarrow> list_ex unhashable_command ps"
proof (induction s env ps snap src rule: dispatch_control_payloads.induct)
  case (2 s env p ps snap src)
  show ?case
  proof (cases "unhashable_command p")
    case True
    then show ?thesis by (simp add: parse_unhashable)
  next
    case False
    with parse_record_command_error [of p] 2 show ?thesis by (cases "parse_record_command p") auto
  qed
qed simp

text \<open>A status change is never held back: when a call of \<^verbatim>\<open>publish_status\<close> sends nothing, the
  status it would have sent equals the last one sent and the status period has not elapsed; and after
  every call with a publisher the last status sent is the current one.\<close>

theorem status_changes_are_published:
  assumes "publish_status s now force a wall_ns = Inr (s', out)" and "su_has_publisher s"
  shows "su_last_status s' = combined_status s a
    \<and> (out = None \<longrightarrow> combined_status s a = su_last_status s \<and> \<not> force
        \<and> (\<exists>period. fdiv 1 (pymax (su_status_rate_hz s) 1) = Inr period \<and> \<not> period \<le> now - su_last_status_publish s))
    \<and> (out \<noteq> None \<longrightarrow> out = Some (status_packet s a wall_ns))"
  using assms by (cases "fdiv 1 (pymax (su_status_rate_hz s) 1)") (auto simp: publish_status_def res_bind_def Let_def split: if_splits)

definition demo_args :: status_args where
  "demo_args = \<lparr>st_arm_init = None, st_runner_role = ''stack'', st_action_source = ''hold'', st_source_id = ''a'',
     st_session_id = ''b'', st_spacemouse = None, st_camera_runtime = None\<rparr>"

theorem status_changes_are_published_witness:
  "\<exists>s' out. publish_status (demo_sup\<lparr>su_has_publisher := True\<rparr>) (Fin 3) False demo_args 9 = Inr (s', out)
     \<and> su_last_status s' = combined_status (demo_sup\<lparr>su_has_publisher := True\<rparr>) demo_args"
proof -
  have "\<exists>s' out. publish_status (demo_sup\<lparr>su_has_publisher := True\<rparr>) (Fin 3) False demo_args 9 = Inr (s', out)"
    by (simp add: publish_status_def Let_def demo_sup_def supervisor_init_def pymax_def res_bind_def)
  then obtain s' out where "publish_status (demo_sup\<lparr>su_has_publisher := True\<rparr>) (Fin 3) False demo_args 9 = Inr (s', out)" by blast
  with status_changes_are_published [OF this] show ?thesis by simp
qed

end
