(* ===== verification/RunLoop.thy ===== *)
theory RunLoop
  imports ArmInit RolloutModes RecordControl
begin

text \<open>
  The command loop \<^verbatim>\<open>run\<close> of \<^verbatim>\<open>policy_runner/main.py\<close>, one tick at a time. The loop's local variables
  are a record; a tick reads everything the environment supplies in that iteration (clock, newest state
  snapshot, control payloads, the action source's answer, socket outcomes) from an input record and
  returns the new locals and, when the loop ends, why. Profiling, capture logging and console output
  are left out; the pacing of ticks is modelled separately. The field \<open>lp_sent\<close> is a log of the
  packets that left, for the statements below; no decision reads it.
\<close>

section \<open>Constants and helpers\<close>

definition STARTUP_TIMEOUT_EXIT_CODE :: int where "STARTUP_TIMEOUT_EXIT_CODE = 2"
definition FAULT_LATCH_EXIT_CODE :: int where "FAULT_LATCH_EXIT_CODE = 4"
definition TERMINAL_ABORT_EXIT_CODE :: int where "TERMINAL_ABORT_EXIT_CODE = 5"
definition JOINT_LIMIT_STALL_EXIT_CODE :: int where "JOINT_LIMIT_STALL_EXIT_CODE = 6"
definition IDLE_LEASE_RELEASE_SEC :: pyfloat where "IDLE_LEASE_RELEASE_SEC = Fin 1"
definition LEASE_RETRY_BACKOFF_SEC :: pyfloat where "LEASE_RETRY_BACKOFF_SEC = Fin 2"

fun contains :: "string \<Rightarrow> string \<Rightarrow> bool" where
  "contains w [] = (w = [])"
| "contains w (c # cs) = (startswith (c # cs) w \<or> contains w cs)"

definition runner_role :: "string \<Rightarrow> string list \<Rightarrow> string \<Rightarrow> string" where
  "runner_role explicit words action_source_name =
     (let haystack = py_lower (join '' '' words) in
      if explicit \<in> {''stack'', ''flow_infer'', ''unknown''} then explicit
      else if contains ''flow'' haystack \<or> contains ''openpi'' haystack \<or> contains ''directbc'' haystack
        \<or> contains ''pointcloud'' haystack then ''flow_infer''
      else if action_source_name \<noteq> [] \<and> action_source_name \<noteq> ''hold'' then ''stack''
      else ''unknown'')"

definition or_unknown_owner :: "string option \<Rightarrow> string" where
  "or_unknown_owner v = (case v of None \<Rightarrow> ''<unknown>'' | Some s \<Rightarrow> if s = [] then ''<unknown>'' else s)"

definition active_lease_loss_reason :: "StateSnapshot \<Rightarrow> ServoCommandClient \<Rightarrow> (string \<times> bool) option" where
  "active_lease_loss_reason s c =
     (if sc_source_id c = [] \<or> sc_session_id c = [] then None
      else let lease = command_source_lease_from_snapshot s in
        if \<not> lr_enforce_lease lease then None
        else if lease_matches lease (sc_source_id c) (sc_session_id c) (sc_lease_token c) then None
        else if \<not> lr_active lease then
          (if lr_expired lease then Some (''server reports our command-source lease expired'', False)
           else Some (''server reports no active command-source lease'', False))
        else if lr_active_source_id lease = Some (sc_source_id c) \<and> lr_active_session_id lease = Some (sc_session_id c)
        then Some (''server reports our session with a different lease token'', False)
        else Some (''server lease is held by '' @ or_unknown_owner (lr_active_source_id lease) @ ''/''
                   @ or_unknown_owner (lr_active_session_id lease), True))"

definition intent_record_packet :: "ServoCommandClient option \<Rightarrow> CommandIntent \<Rightarrow> int \<Rightarrow> int \<Rightarrow> pydict" where
  "intent_record_packet client i seq now_ns =
     (case client of
        Some c \<Rightarrow> build_packet c i seq now_ns
      | None \<Rightarrow>
          [(''seq'', PInt seq), (''mode'', PStr (ci_mode i)), (''timeout_sec'', PFloat (ci_timeout_sec i)),
           (''coupled_timeout'', PBool (ci_coupled_timeout i))]
          @ (case ci_left i of None \<Rightarrow> [] | Some d \<Rightarrow> [(''left'', PDict d)])
          @ (case ci_right i of None \<Rightarrow> [] | Some d \<Rightarrow> [(''right'', PDict d)]))"

section \<open>Pacing\<close>

record TickPacer =
  tp_period :: pyfloat
  tp_next :: "pyfloat option"

definition pacer_init :: "pyfloat \<Rightarrow> TickPacer" where
  "pacer_init period = \<lparr>tp_period = pymax period 0, tp_next = None\<rparr>"

text \<open>\<^verbatim>\<open>a // b\<close> on finite floats.\<close>

definition floor_div :: "pyfloat \<Rightarrow> pyfloat \<Rightarrow> int res" where
  "floor_div x y = (case (x, y) of
      (Fin a, Fin b) \<Rightarrow> if b = 0 then Inl ZeroDivisionError else Inr \<lfloor>a / b\<rfloor>
    | _ \<Rightarrow> Inl (ValueError ''cannot convert float to integer''))"

text \<open>\<^verbatim>\<open>wait\<close>: the new grid and the argument of the one \<^verbatim>\<open>sleep\<close> call.\<close>

definition pacer_wait :: "TickPacer \<Rightarrow> pyfloat \<Rightarrow> (TickPacer \<times> pyfloat) res" where
  "pacer_wait p now =
     (if tp_period p \<le> 0 then Inr (p, 0)
      else let deadline = (case tp_next p of None \<Rightarrow> now + tp_period p | Some d \<Rightarrow> d);
               remaining = deadline - now
        in if 0 < remaining then Inr (p\<lparr>tp_next := Some (deadline + tp_period p)\<rparr>, remaining)
           else res_bind (floor_div (now - deadline) (tp_period p)) (\<lambda>q.
             Inr (p\<lparr>tp_next := Some (deadline + Fin (of_int (q + 1)) * tp_period p)\<rparr>, 0)))"

section \<open>State of the loop\<close>

record RunConfig =
  rn_gate :: SafetyGate
  rn_send_commands :: bool
  rn_acquire_lease :: bool
  rn_timeout_sec :: pyfloat
  rn_lease_readback_timeout_sec :: pyfloat
  rn_abort_on_fault_latch :: bool
  rn_action_source :: string
  rn_runner_role :: string
  rn_startup_deadline :: pyfloat

record RunState =
  lp_armed_for_motion :: bool
  lp_lease_acquired :: bool
  lp_lease_retry_after :: pyfloat
  lp_last_motion_intent_time :: "pyfloat option"
  lp_client :: ServoCommandClient
  lp_override :: ArmInitController
  lp_stall :: JointLimitStallTracker
  lp_roi :: "arm \<Rightarrow> RoiExitTracker"
  lp_roi_counts :: "arm \<Rightarrow> int"
  lp_recorder :: "RolloutSummaryRecorder option"
  lp_supervisor :: RecordingSupervisor
  lp_record_packet :: "pydict option"
  lp_record_seq :: int
  lp_record_time_ns :: int
  lp_sent :: "(CommandIntent \<times> pydict) list"

record TickIn =
  tk_now :: pyfloat
  tk_snapshot :: "StateSnapshot option"
  tk_payloads :: "pydict list"
  tk_command_ns :: "nat \<Rightarrow> int"
  tk_recover_ns :: "arm \<Rightarrow> int"
  tk_record_env :: record_env
  tk_intent :: "CommandIntent option res"
  tk_requirements :: "ActionRequirements option"
  tk_source :: SourceView
  tk_source_now :: pyfloat
  tk_ns :: int
  tk_wall_ns :: int
  tk_sendto :: "CommandIntent \<Rightarrow> pydict \<Rightarrow> unit res"
  tk_wait_start :: pyfloat
  tk_wait_latest :: "nat \<Rightarrow> StateSnapshot option"
  tk_wait_clock :: "nat \<Rightarrow> pyfloat"
  tk_frame_now :: pyfloat
  tk_bundle :: "CameraBundle option"
  tk_bundle_clock_ns :: int
  tk_spacemouse :: "pydict option"
  tk_camera_runtime :: "pydict option"
  tk_abort :: "string option"
  tk_completion :: "string option"

text \<open>Why the loop ended: a return code, an exception that left the loop, or a lease wait that does
  not return.\<close>

datatype loop_exit = Return int | Raised pyexc | Blocked

section \<open>The stages of a tick\<close>

text \<open>Fault latch and joint-limit stall: reasons to end a policy rollout.\<close>

definition abort_stage :: "RunConfig \<Rightarrow> RunState \<Rightarrow> StateSnapshot \<Rightarrow> pyfloat \<Rightarrow> RunState \<times> loop_exit option" where
  "abort_stage cfg st s now =
     (if rn_abort_on_fault_latch cfg \<and> fl_latched (fault_latch_from_snapshot s)
      then (st, Some (Return FAULT_LATCH_EXIT_CODE))
      else if stall_enabled (lp_stall st) then
        (let (t, held) = stall_update (lp_stall st) (joint_limit_stall_from_snapshot s) now
         in (st\<lparr>lp_stall := t\<rparr>, if held \<noteq> None then Some (Return JOINT_LIMIT_STALL_EXIT_CODE) else None))
      else (st, None))"

text \<open>ROI auto-recovery of one arm; \<open>status\<close> is the status block taken before the loop over the arms.\<close>

definition recover_arm :: "TickIn \<Rightarrow> StateSnapshot \<Rightarrow> pydict \<Rightarrow> arm \<Rightarrow> RunState \<Rightarrow> RunState" where
  "recover_arm t s status a st =
     (let readback = roi_exit_of_arm (payload s) (arm_name a);
          (tr, fired) = roi_update (lp_roi st a) readback;
          st1 = st\<lparr>lp_roi := (lp_roi st)(a := tr)\<rparr>
      in if \<not> fired then st1
         else if truthy (dget status (''init_override_'' @ arm_name a)) then st1
         else if contains ''failed'' (py_str (dget_or status (arm_name a @ ''_state'') (PStr []))) then st1
         else st1\<lparr>lp_roi_counts := (lp_roi_counts st1)(a := lp_roi_counts st1 a + 1),
                  lp_override := fst (handle_command (lp_override st1) (tk_recover_ns t a)
                    \<lparr>ac_arms = arm_name a, ac_action = ''start'', ac_left_q_deg = None, ac_right_q_deg = None,
                     ac_auto_roi_recover = None\<rparr>)\<rparr>)"

definition roi_stage :: "TickIn \<Rightarrow> StateSnapshot \<Rightarrow> RunState \<Rightarrow> RunState" where
  "roi_stage t s st =
     (if ctl_auto_roi_recover (lp_override st)
      then let status = status_block (lp_override st)
           in recover_arm t s status RightArm (recover_arm t s status LeftArm st)
      else st)"

text \<open>Control payloads, server state and stamps; yields the stamped snapshot.\<close>

definition control_stage ::
  "RunConfig \<Rightarrow> TickIn \<Rightarrow> StateSnapshot \<Rightarrow> RunState \<Rightarrow> (RunState \<times> StateSnapshot) \<times> loop_exit option" where
  "control_stage cfg t s st =
     (case dispatch_control_payloads (lp_supervisor st) (tk_record_env t) (tk_payloads t) s (rn_action_source cfg) of
        (sv, Inl e) \<Rightarrow> ((st\<lparr>lp_supervisor := sv\<rparr>, s), Some (Raised e))
      | (sv, Inr _) \<Rightarrow>
          let st1 = st\<lparr>lp_supervisor := sv\<rparr> in
          (case handle_payloads (lp_override st1) (tk_command_ns t) 0 (map PDict (tk_payloads t)) of
             (ctl, Inl e) \<Rightarrow> ((st1\<lparr>lp_override := ctl\<rparr>, s), Some (Raised e))
           | (ctl, Inr _) \<Rightarrow>
               let st2 = st1\<lparr>lp_override := fst (update_from_snapshot ctl s)\<rparr>;
                   st3 = roi_stage t s st2;
                   st4 = st3\<lparr>lp_override := fst (consume_transitions (lp_override st3))\<rparr>;
                   s' = stamp_snapshot (lp_override st4) (stamp_recording (lp_supervisor st4) s)
               in ((st4\<lparr>lp_record_packet := None, lp_record_seq := 0, lp_record_time_ns := 0,
                         lp_recorder := map_option (\<lambda>r. record_state r s') (lp_recorder st4)\<rparr>, s'), None)))"

text \<open>The source's intent, composed with the override, and the gate's decision on it.\<close>

definition intent_stage ::
  "RunConfig \<Rightarrow> TickIn \<Rightarrow> StateSnapshot \<Rightarrow> RunState
   \<Rightarrow> (RunState \<times> CommandIntent option \<times> SafetyDecision) \<times> loop_exit option" where
  "intent_stage cfg t s st =
     (case tk_intent t of
        Inl e \<Rightarrow> ((st, None, allow), Some (Raised e))
      | Inr policy \<Rightarrow>
          let (ctl, intent) = compose_intent (lp_override st) policy;
              requirements = (if intent_uses_source_requirements intent ctl then tk_requirements t else None);
              decision = evaluate (rn_gate cfg) (Some s) intent requirements (tk_now t);
              st1 = st\<lparr>lp_override := ctl\<rparr>
          in (case lp_recorder st1 of
                None \<Rightarrow> ((st1, intent, decision), None)
              | Some r \<Rightarrow>
                  (case record_source (record_decision r decision) (tk_source t) (tk_source_now t) False of
                     (r', Inl e) \<Rightarrow> ((st1\<lparr>lp_recorder := Some r'\<rparr>, intent, decision), Some (Raised e))
                   | (r', Inr _) \<Rightarrow> ((st1\<lparr>lp_recorder := Some r'\<rparr>, intent, decision), None))))"

definition intent_is_motion :: "CommandIntent option \<Rightarrow> bool" where
  "intent_is_motion i = (case i of None \<Rightarrow> False | Some x \<Rightarrow> is_motion x)"

text \<open>Lost leases and the idle hand-off.\<close>

definition lease_loss :: "RunConfig \<Rightarrow> TickIn \<Rightarrow> StateSnapshot \<Rightarrow> RunState \<Rightarrow> RunState" where
  "lease_loss cfg t s st =
     (if rn_send_commands cfg \<and> lp_lease_acquired st \<and> rn_acquire_lease cfg then
        (case active_lease_loss_reason s (lp_client st) of
           None \<Rightarrow> st
         | Some (_, foreign) \<Rightarrow>
             st\<lparr>lp_lease_acquired := False, lp_armed_for_motion := False,
                lp_client := (lp_client st)\<lparr>sc_lease_token := None\<rparr>,
                lp_lease_retry_after := (if foreign then tk_now t + LEASE_RETRY_BACKOFF_SEC else NInf)\<rparr>)
      else st)"

definition idle_release :: "RunConfig \<Rightarrow> TickIn \<Rightarrow> CommandIntent option \<Rightarrow> RunState \<Rightarrow> RunState" where
  "idle_release cfg t intent st =
     (case lp_last_motion_intent_time st of
        None \<Rightarrow> st
      | Some last_motion \<Rightarrow>
          if \<not> intent_is_motion intent \<and> rn_send_commands cfg \<and> lp_lease_acquired st \<and> rn_acquire_lease cfg
            \<and> IDLE_LEASE_RELEASE_SEC \<le> tk_now t - last_motion
          then st\<lparr>lp_client := fst (release_lease (lp_client st) (tk_ns t) (tk_sendto t (intent_release_lease (sc_timeout_sec (lp_client st))))),
                  lp_lease_acquired := False, lp_lease_retry_after := NInf\<rparr>
          else st)"

definition lease_stage :: "RunConfig \<Rightarrow> TickIn \<Rightarrow> StateSnapshot \<Rightarrow> CommandIntent option \<Rightarrow> RunState \<Rightarrow> RunState" where
  "lease_stage cfg t s intent st =
     (let st1 = (if intent_is_motion intent then st\<lparr>lp_last_motion_intent_time := Some (tk_now t)\<rparr> else st)
      in idle_release cfg t intent (lease_loss cfg t s st1))"

definition drop_intent :: "string \<Rightarrow> CommandIntent \<Rightarrow> RunState \<Rightarrow> RunState" where
  "drop_intent why i st = st\<lparr>lp_recorder := map_option (\<lambda>r. record_dropped r why (Some i)) (lp_recorder st)\<rparr>"

text \<open>\<^verbatim>\<open>command_client.send\<close> with the bookkeeping of a sent intent.\<close>

definition send_intent :: "TickIn \<Rightarrow> CommandIntent \<Rightarrow> RunState \<Rightarrow> RunState \<times> loop_exit option" where
  "send_intent t i st =
     (case send (lp_client st) i (tk_ns t) (tk_sendto t i) of
        (c, out, Inl e) \<Rightarrow> (st\<lparr>lp_client := c\<rparr>, Some (Raised e))
      | (c, out, Inr seq) \<Rightarrow>
          (st\<lparr>lp_client := c,
              lp_sent := lp_sent st @ (case out of None \<Rightarrow> [] | Some p \<Rightarrow> [(i, p)]),
              lp_record_packet := Some (intent_record_packet (Some c) i seq (tk_ns t)),
              lp_record_seq := seq, lp_record_time_ns := tk_wall_ns t,
              lp_recorder := map_option (\<lambda>r. record_sent r i) (lp_recorder st)\<rparr>, None))"

text \<open>The lazy lease: \<open>False\<close> means this tick's intent is dropped.\<close>

definition ensure_lease :: "RunConfig \<Rightarrow> TickIn \<Rightarrow> CommandIntent \<Rightarrow> RunState \<Rightarrow> RunState \<times> bool \<times> loop_exit option" where
  "ensure_lease cfg t i st =
     (if rn_acquire_lease cfg \<and> \<not> lp_lease_acquired st \<and> is_motion i then
        (if tk_now t < lp_lease_retry_after st then (st, False, None)
         else case acquire_lease (lp_client st) (tk_ns t) (tk_sendto t (intent_acquire_lease (sc_timeout_sec (lp_client st))))
                (Some (\<lambda>src ses. wait_for_active_lease src ses None (rn_lease_readback_timeout_sec cfg) (tk_wait_start t)
                   (tk_wait_latest t) (tk_wait_clock t))) of
                None \<Rightarrow> (st, False, Some Blocked)
              | Some (c, Inr _) \<Rightarrow> (st\<lparr>lp_client := c, lp_lease_acquired := True\<rparr>, True, None)
              | Some (c, Inl (TimeoutError _)) \<Rightarrow>
                  (st\<lparr>lp_client := c, lp_lease_retry_after := tk_now t + LEASE_RETRY_BACKOFF_SEC\<rparr>, False, None)
              | Some (c, Inl e) \<Rightarrow> (st\<lparr>lp_client := c\<rparr>, False, Some (Raised e)))
      else (st, True, None))"

text \<open>\<^verbatim>\<open>ArmMotion\<close> before the first motion since start-up or a lost lease, through the gate as well.\<close>

definition ensure_armed ::
  "RunConfig \<Rightarrow> TickIn \<Rightarrow> StateSnapshot \<Rightarrow> CommandIntent \<Rightarrow> RunState \<Rightarrow> RunState \<times> bool \<times> loop_exit option" where
  "ensure_armed cfg t s i st =
     (if is_motion i \<and> \<not> lp_armed_for_motion st then
        (let arm = intent_arm_motion (rn_timeout_sec cfg);
             arm_decision = evaluate (rn_gate cfg) (Some s) (Some arm) (tk_requirements t) (tk_now t);
             st1 = st\<lparr>lp_recorder := map_option (\<lambda>r. record_decision r arm_decision) (lp_recorder st)\<rparr>
         in if allowed arm_decision then
              (case send_intent t arm st1 of
                 (st2, Some e) \<Rightarrow> (st2, False, Some e)
               | (st2, None) \<Rightarrow> (st2\<lparr>lp_armed_for_motion := True\<rparr>, True, None))
            else (drop_intent (reason arm_decision) arm st1, False, None))
      else (st, True, None))"

definition send_stage ::
  "RunConfig \<Rightarrow> TickIn \<Rightarrow> StateSnapshot \<Rightarrow> CommandIntent option \<Rightarrow> SafetyDecision \<Rightarrow> RunState \<Rightarrow> RunState \<times> loop_exit option" where
  "send_stage cfg t s intent decision st =
     (case intent of
        None \<Rightarrow> (st, None)
      | Some i \<Rightarrow>
          if \<not> allowed decision then (drop_intent (reason decision) i st, None)
          else if \<not> rn_send_commands cfg then
            ((drop_intent ''rollout_mode_command_send_disabled'' i st)
               \<lparr>lp_record_packet := Some (intent_record_packet None i 0 (tk_ns t)),
                lp_record_seq := 0, lp_record_time_ns := tk_wall_ns t\<rparr>, None)
          else (case ensure_lease cfg t i st of
                  (st1, _, Some e) \<Rightarrow> (st1, Some e)
                | (st1, False, None) \<Rightarrow> (st1, None)
                | (st1, True, None) \<Rightarrow>
                    (case ensure_armed cfg t s i st1 of
                       (st2, _, Some e) \<Rightarrow> (st2, Some e)
                     | (st2, False, None) \<Rightarrow> (st2, None)
                     | (st2, True, None) \<Rightarrow> send_intent t i st2)))"

definition resolved_reason :: "string option \<Rightarrow> string option" where
  "resolved_reason v = (case v of None \<Rightarrow> None | Some s \<Rightarrow> if py_strip s = [] then None else Some (py_strip s))"

definition finish_tick :: "RunConfig \<Rightarrow> TickIn \<Rightarrow> StateSnapshot \<Rightarrow> RunState \<Rightarrow> RunState \<times> loop_exit option" where
  "finish_tick cfg t s st =
     (let sv = supervisor_record_frame (lp_supervisor st)
            \<lparr>fc_now = tk_frame_now t, fc_snapshot = s, fc_packet = lp_record_packet st,
             fc_host_time_ns = Some (lp_record_time_ns st), fc_seq = Some (lp_record_seq st),
             fc_bundle = tk_bundle t, fc_clock_ns = tk_bundle_clock_ns t\<rparr>;
          args = \<lparr>st_arm_init = Some (status_block (lp_override st)), st_runner_role = rn_runner_role cfg,
                  st_action_source = rn_action_source cfg,
                  st_source_id = (if rn_send_commands cfg then sc_source_id (lp_client st) else []),
                  st_session_id = (if rn_send_commands cfg then sc_session_id (lp_client st) else []),
                  st_spacemouse = tk_spacemouse t, st_camera_runtime = tk_camera_runtime t\<rparr>
      in case publish_status sv (tk_now t) False args (tk_wall_ns t) of
           Inl e \<Rightarrow> (st\<lparr>lp_supervisor := sv\<rparr>, Some (Raised e))
         | Inr (sv', _) \<Rightarrow>
             (st\<lparr>lp_supervisor := sv'\<rparr>,
              if resolved_reason (tk_abort t) \<noteq> None then Some (Return TERMINAL_ABORT_EXIT_CODE)
              else if resolved_reason (tk_completion t) \<noteq> None then Some (Return 0) else None))"

definition tick :: "RunConfig \<Rightarrow> TickIn \<Rightarrow> RunState \<Rightarrow> RunState \<times> loop_exit option" where
  "tick cfg t st =
     (case tk_snapshot t of
        None \<Rightarrow> (st, if rn_startup_deadline cfg \<le> tk_now t then Some (Return STARTUP_TIMEOUT_EXIT_CODE) else None)
      | Some s0 \<Rightarrow>
          (case abort_stage cfg st s0 (tk_now t) of
             (st0, Some e) \<Rightarrow> (st0, Some e)
           | (st0, None) \<Rightarrow>
               (case control_stage cfg t s0 st0 of
                  ((st1, s), Some e) \<Rightarrow> (st1, Some e)
                | ((st1, s), None) \<Rightarrow>
                    (case intent_stage cfg t s st1 of
                       ((st2, intent, decision), Some e) \<Rightarrow> (st2, Some e)
                     | ((st2, intent, decision), None) \<Rightarrow>
                         (case send_stage cfg t s intent decision (lease_stage cfg t s intent st2) of
                            (st3, Some e) \<Rightarrow> (st3, Some e)
                          | (st3, None) \<Rightarrow> finish_tick cfg t s st3)))))"

text \<open>The loop over a finite sequence of ticks, and the \<^verbatim>\<open>finally\<close> block's lease hand-off.\<close>

fun run_loop :: "RunConfig \<Rightarrow> TickIn list \<Rightarrow> RunState \<Rightarrow> RunState \<times> loop_exit option" where
  "run_loop cfg [] st = (st, None)"
| "run_loop cfg (t # ts) st =
     (case tick cfg t st of (st', Some e) \<Rightarrow> (st', Some e) | (st', None) \<Rightarrow> run_loop cfg ts st')"

definition shutdown :: "TickIn \<Rightarrow> RunState \<Rightarrow> RunState" where
  "shutdown t st =
     (let sv = fst (supervisor_close (lp_supervisor st) (tk_record_env t)) in
      if lp_lease_acquired st
      then st\<lparr>lp_supervisor := sv,
              lp_client := fst (release_lease (lp_client st) (tk_ns t) (tk_sendto t (intent_release_lease (sc_timeout_sec (lp_client st)))))\<rparr>
      else st\<lparr>lp_supervisor := sv\<rparr>)"

definition run_init ::
  "RunConfig \<Rightarrow> ServoCommandClient \<Rightarrow> ArmInitController \<Rightarrow> JointLimitStallTracker \<Rightarrow> RolloutSummaryRecorder option
   \<Rightarrow> RecordingSupervisor \<Rightarrow> RunState" where
  "run_init cfg client ctl stall rec sv =
     \<lparr>lp_armed_for_motion = False, lp_lease_acquired = False, lp_lease_retry_after = NInf, lp_last_motion_intent_time = None,
      lp_client = client, lp_override = ctl, lp_stall = stall, lp_roi = (\<lambda>_. roi_tracker_init), lp_roi_counts = (\<lambda>_. 0),
      lp_recorder = rec, lp_supervisor = sv, lp_record_packet = None, lp_record_seq = 0, lp_record_time_ns = 0, lp_sent = []\<rparr>"

section \<open>What a tick may send\<close>

abbreviation arm_intent :: "RunConfig \<Rightarrow> CommandIntent" where
  "arm_intent cfg \<equiv> intent_arm_motion (rn_timeout_sec cfg)"

definition sends_ok :: "CommandIntent \<Rightarrow> CommandIntent option \<Rightarrow> bool \<Rightarrow> (CommandIntent \<times> pydict) list \<Rightarrow> bool" where
  "sends_ok A intent armed new =
     (new = [] \<or> (\<exists>p. new = [(A, p)]) \<or> (\<exists>i p. intent = Some i \<and> new = [(i, p)] \<and> (is_motion i \<longrightarrow> armed))
      \<or> (\<exists>i p q. intent = Some i \<and> new = [(A, p), (i, q)]))"

lemma send_intent_log:
  assumes "send_intent t i st = (st', e)"
  shows "lp_override st' = lp_override st \<and> lp_armed_for_motion st' = lp_armed_for_motion st
    \<and> lp_lease_acquired st' = lp_lease_acquired st
    \<and> (if e = None then \<exists>p. lp_sent st' = lp_sent st @ [(i, p)] else lp_sent st' = lp_sent st)"
  using assms by (auto simp: send_intent_def send_def Let_def split: sum.splits)

lemma ensure_lease_log:
  assumes "ensure_lease cfg t i st = (st', ok, e)"
  shows "lp_override st' = lp_override st \<and> lp_armed_for_motion st' = lp_armed_for_motion st \<and> lp_sent st' = lp_sent st
    \<and> (ok \<longrightarrow> is_motion i \<longrightarrow> rn_acquire_lease cfg \<longrightarrow> lp_lease_acquired st')"
  using assms by (auto simp: ensure_lease_def split: if_splits option.splits sum.splits prod.splits pyexc.splits)

lemma ensure_armed_log:
  assumes "ensure_armed cfg t s i st = (st', ok, e)"
  shows "lp_override st' = lp_override st \<and> lp_lease_acquired st' = lp_lease_acquired st
    \<and> (lp_sent st' = lp_sent st \<and> lp_armed_for_motion st' = lp_armed_for_motion st \<and> (ok \<longrightarrow> is_motion i \<longrightarrow> lp_armed_for_motion st)
       \<or> (\<exists>p. lp_sent st' = lp_sent st @ [(arm_intent cfg, p)]) \<and> is_motion i \<and> lp_armed_for_motion st')"
proof -
  let ?st1 = "st\<lparr>lp_recorder := map_option (\<lambda>r. record_decision r (evaluate (rn_gate cfg) (Some s)
    (Some (arm_intent cfg)) (tk_requirements t) (tk_now t))) (lp_recorder st)\<rparr>"
  obtain st2 e2 where "send_intent t (arm_intent cfg) ?st1 = (st2, e2)" by fastforce
  with send_intent_log [OF this] assms show ?thesis
    by (auto simp: ensure_armed_def Let_def drop_intent_def split: if_splits option.splits)
qed

lemma send_stage_log:
  assumes "send_stage cfg t s intent decision st = (st', e)"
  obtains new where "lp_sent st' = lp_sent st @ new" and "lp_override st' = lp_override st"
    and "new \<noteq> [] \<Longrightarrow> rn_send_commands cfg \<and> allowed decision \<and> intent \<noteq> None"
    and "sends_ok (arm_intent cfg) intent (lp_armed_for_motion st) new"
    and "lp_armed_for_motion st' \<Longrightarrow> lp_armed_for_motion st \<or> arm_intent cfg \<in> fst ` set new"
    and "rn_acquire_lease cfg \<Longrightarrow> (\<exists>x\<in>set new. is_motion (fst x)) \<Longrightarrow> lp_lease_acquired st'"
proof (cases "intent = None \<or> \<not> allowed decision \<or> \<not> rn_send_commands cfg")
  case True
  with assms have "lp_sent st' = lp_sent st" "lp_override st' = lp_override st" "lp_armed_for_motion st' = lp_armed_for_motion st"
    by (auto simp: send_stage_def drop_intent_def split: option.splits if_splits)
  then show ?thesis by (intro that [of "[]"]) (auto simp: sends_ok_def)
next
  case False
  then obtain i where i: "intent = Some i" "allowed decision" "rn_send_commands cfg" by auto
  obtain st1 ok1 e1 where l: "ensure_lease cfg t i st = (st1, ok1, e1)" by (metis prod_cases3)
  obtain st2 ok2 e2 where a: "ensure_armed cfg t s i st1 = (st2, ok2, e2)" by (metis prod_cases3)
  obtain st3 e3 where m: "send_intent t i st2 = (st3, e3)" by fastforce
  note L = ensure_lease_log [OF l] and A = ensure_armed_log [OF a] and M = send_intent_log [OF m]
  consider (stop1) "st' = st1" "e1 \<noteq> None \<or> \<not> ok1"
    | (stop2) "st' = st2" "e1 = None" "ok1" "e2 \<noteq> None \<or> \<not> ok2"
    | (sent) "st' = st3" "e1 = None" "ok1" "e2 = None" "ok2" "e = e3"
    using assms i l a m
    by (cases e1; cases ok1; cases e2; cases ok2) (auto simp: send_stage_def)
  then show ?thesis
  proof cases
    case stop1
    with L show ?thesis by (intro that [of "[]"]) (auto simp: sends_ok_def)
  next
    case stop2
    from A show ?thesis
    proof (elim conjE disjE exE)
      fix p assume "lp_sent st2 = lp_sent st1 @ [(arm_intent cfg, p)]"
      with stop2 L A i show ?thesis by (intro that [of "[(arm_intent cfg, p)]"]) (auto simp: sends_ok_def)
    qed (use stop2 L i in \<open>intro that [of "[]"]; auto simp: sends_ok_def\<close>)
  next
    case sent
    show ?thesis
    proof (cases "lp_sent st2 = lp_sent st1")
      case True
      with A sent have am: "is_motion i \<longrightarrow> lp_armed_for_motion st1" "lp_armed_for_motion st2 = lp_armed_for_motion st1" by auto
      show ?thesis
      proof (cases "e3 = None")
        case e3: True
        with M obtain p where "lp_sent st3 = lp_sent st2 @ [(i, p)]" by auto
        with True sent L A M am i show ?thesis by (intro that [of "[(i, p)]"]) (auto simp: sends_ok_def)
      qed (use True sent L A M am i in \<open>intro that [of "[]"]; auto simp: sends_ok_def\<close>)
    next
      case False
      with A obtain p where p: "lp_sent st2 = lp_sent st1 @ [(arm_intent cfg, p)]" "is_motion i" by auto
      show ?thesis
      proof (cases "e3 = None")
        case True
        with M obtain q where "lp_sent st3 = lp_sent st2 @ [(i, q)]" by auto
        with p sent L A M i show ?thesis by (intro that [of "[(arm_intent cfg, p), (i, q)]"]) (auto simp: sends_ok_def)
      qed (use p sent L A M i in \<open>intro that [of "[(arm_intent cfg, p)]"]; auto simp: sends_ok_def\<close>)
    qed
  qed
qed

text \<open>The other stages keep the log and the arming; the override keeps its invariant.\<close>

lemma abort_stage_kept:
  assumes "abort_stage cfg st s now = (st', e)"
  shows "lp_sent st' = lp_sent st \<and> lp_override st' = lp_override st \<and> lp_armed_for_motion st' = lp_armed_for_motion st
    \<and> lp_lease_acquired st' = lp_lease_acquired st \<and> lp_client st' = lp_client st"
  using assms by (auto simp: abort_stage_def case_prod_beta split: if_splits)

lemma recover_arm_kept:
  "lp_sent (recover_arm t s b a st) = lp_sent st \<and> lp_armed_for_motion (recover_arm t s b a st) = lp_armed_for_motion st
   \<and> lp_lease_acquired (recover_arm t s b a st) = lp_lease_acquired st \<and> lp_client (recover_arm t s b a st) = lp_client st
   \<and> (init_inv (lp_override st) \<longrightarrow> init_inv (lp_override (recover_arm t s b a st)))"
  by (simp add: recover_arm_def Let_def case_prod_beta q_known_command)

lemma roi_stage_kept:
  "lp_sent (roi_stage t s st) = lp_sent st \<and> lp_armed_for_motion (roi_stage t s st) = lp_armed_for_motion st
   \<and> lp_lease_acquired (roi_stage t s st) = lp_lease_acquired st \<and> lp_client (roi_stage t s st) = lp_client st
   \<and> (init_inv (lp_override st) \<longrightarrow> init_inv (lp_override (roi_stage t s st)))"
  using recover_arm_kept by (simp add: roi_stage_def Let_def)

lemma init_inv_consume: "init_inv (fst (consume_transitions c)) = init_inv c"
  by (simp add: consume_transitions_def init_inv_def)

lemma init_inv_handle_payloads: "init_inv c \<Longrightarrow> init_inv (fst (handle_payloads c clock i vs))"
proof (induction vs arbitrary: c i)
  case (Cons v vs)
  have err: "init_inv (c\<lparr>ctl_error := m\<rparr>)" for m using Cons.prems by (simp add: init_inv_def)
  show ?case
  proof (cases v)
    case (PDict p)
    show ?thesis
    proof (cases "parse_arm_init_command p")
      case (Inl e)
      with PDict err Cons show ?thesis by (cases e) simp_all
    next
      case (Inr cmd)
      have "init_inv (fst (handle_command c (clock i) cmd))" by (rule q_known_command [OF Cons.prems])
      with PDict Inr Cons show ?thesis by (simp add: case_prod_beta)
    qed
  qed (use Cons in simp_all)
qed simp

text \<open>Stamping a snapshot leaves its receive time and all keys but the two stamps alone.\<close>

definition same_state :: "StateSnapshot \<Rightarrow> StateSnapshot \<Rightarrow> bool" where
  "same_state s s0 = (received_monotonic s = received_monotonic s0
     \<and> (\<forall>k d. k \<noteq> ''recording'' \<and> k \<noteq> ''arm_init'' \<longrightarrow> dget_or (payload s) k d = dget_or (payload s0) k d))"

lemma same_state_stamped: "same_state (stamp_snapshot c (stamp_recording sv s0)) s0"
  by (simp add: same_state_def stamp_snapshot_def stamp_recording_def)

lemma control_stage_kept:
  assumes "control_stage cfg t s0 st = ((st', s), e)"
  shows "lp_sent st' = lp_sent st \<and> lp_armed_for_motion st' = lp_armed_for_motion st
    \<and> lp_lease_acquired st' = lp_lease_acquired st \<and> lp_client st' = lp_client st
    \<and> (init_inv (lp_override st) \<longrightarrow> init_inv (lp_override st')) \<and> (e = None \<longrightarrow> same_state s s0)"
proof -
  obtain sv r1 where d: "dispatch_control_payloads (lp_supervisor st) (tk_record_env t) (tk_payloads t) s0 (rn_action_source cfg) = (sv, r1)"
    by fastforce
  obtain ctl r2 where h: "handle_payloads (lp_override st) (tk_command_ns t) 0 (map PDict (tk_payloads t)) = (ctl, r2)" by fastforce
  from init_inv_handle_payloads [of "lp_override st" "tk_command_ns t" 0 "map PDict (tk_payloads t)"] h
  have inv: "init_inv (lp_override st) \<longrightarrow> init_inv ctl" by simp
  show ?thesis
  proof (cases "isl r1 \<or> isl r2")
    case True
    with d h inv assms show ?thesis by (cases r1; cases r2) (auto simp: control_stage_def)
  next
    case False
    define st2 where "st2 = st\<lparr>lp_supervisor := sv, lp_override := fst (update_from_snapshot ctl s0)\<rparr>"
    define st3 where "st3 = roi_stage t s0 st2"
    from inv have "init_inv (lp_override st) \<longrightarrow> init_inv (lp_override st2)" by (simp add: st2_def q_known_snapshot)
    with roi_stage_kept [of t s0 st2] have st3: "lp_sent st3 = lp_sent st" "lp_armed_for_motion st3 = lp_armed_for_motion st"
      "lp_lease_acquired st3 = lp_lease_acquired st" "lp_client st3 = lp_client st"
      "init_inv (lp_override st) \<longrightarrow> init_inv (lp_override st3)"
      by (simp_all add: st3_def) (simp_all add: st2_def)
    define st4 where "st4 = st3\<lparr>lp_override := fst (consume_transitions (lp_override st3))\<rparr>"
    define s' where "s' = stamp_snapshot (lp_override st4) (stamp_recording (lp_supervisor st4) s0)"
    from False obtain u1 u2 where "r1 = Inr u1" "r2 = Inr u2" by (cases r1; cases r2) auto
    with d h have "control_stage cfg t s0 st = ((st4\<lparr>lp_record_packet := None, lp_record_seq := 0, lp_record_time_ns := 0,
        lp_recorder := map_option (\<lambda>r. record_state r s') (lp_recorder st4)\<rparr>, s'), None)"
      by (simp add: control_stage_def Let_def s'_def st4_def st3_def st2_def)
    with assms have st': "st' = st4\<lparr>lp_record_packet := None, lp_record_seq := 0, lp_record_time_ns := 0,
        lp_recorder := map_option (\<lambda>r. record_state r s') (lp_recorder st4)\<rparr>" and "s = s'" by auto
    then have "same_state s s0" using same_state_stamped by (simp add: s'_def)
    moreover have "init_inv (lp_override st') = init_inv (lp_override st3)" by (simp add: st' st4_def init_inv_consume)
    ultimately show ?thesis using st3 by (simp add: st' st4_def)
  qed
qed

lemma intent_stage_kept:
  assumes "intent_stage cfg t s st = ((st', intent, decision), e)"
  shows "lp_sent st' = lp_sent st \<and> lp_armed_for_motion st' = lp_armed_for_motion st
    \<and> lp_lease_acquired st' = lp_lease_acquired st \<and> lp_client st' = lp_client st
    \<and> ctl_runtime (lp_override st') = ctl_runtime (lp_override st)
    \<and> (e = None \<longrightarrow> (\<exists>policy c' req. compose_intent (lp_override st) policy = (c', intent)
         \<and> decision = evaluate (rn_gate cfg) (Some s) intent req (tk_now t)))"
proof (cases "tk_intent t")
  case (Inl err)
  with assms show ?thesis by (auto simp: intent_stage_def)
next
  case (Inr policy)
  obtain ctl i where c: "compose_intent (lp_override st) policy = (ctl, i)" by fastforce
  then have rt: "ctl_runtime ctl = ctl_runtime (lp_override st)" using compose_runtime [of "lp_override st" policy] by simp
  define req where "req = (if intent_uses_source_requirements i ctl then tk_requirements t else None)"
  define dec where "dec = evaluate (rn_gate cfg) (Some s) i req (tk_now t)"
  have eq: "intent_stage cfg t s st =
     (case lp_recorder st of
        None \<Rightarrow> ((st\<lparr>lp_override := ctl\<rparr>, i, dec), None)
      | Some r \<Rightarrow>
          (case record_source (record_decision r dec) (tk_source t) (tk_source_now t) False of
             (r', Inl e) \<Rightarrow> ((st\<lparr>lp_override := ctl, lp_recorder := Some r'\<rparr>, i, dec), Some (Raised e))
           | (r', Inr _) \<Rightarrow> ((st\<lparr>lp_override := ctl, lp_recorder := Some r'\<rparr>, i, dec), None)))"
    unfolding dec_def req_def by (simp add: intent_stage_def Inr c Let_def split del: if_split)
  have "intent = i \<and> decision = dec \<and> lp_override st' = ctl \<and> lp_sent st' = lp_sent st \<and> lp_client st' = lp_client st
    \<and> lp_armed_for_motion st' = lp_armed_for_motion st \<and> lp_lease_acquired st' = lp_lease_acquired st"
    using assms unfolding eq by (auto split: option.splits prod.splits sum.splits)
  with c rt show ?thesis unfolding dec_def by blast
qed

lemma lease_stage_kept:
  "lp_sent (lease_stage cfg t s intent st) = lp_sent st"
  "lp_override (lease_stage cfg t s intent st) = lp_override st"
  "lp_armed_for_motion (lease_stage cfg t s intent st) \<Longrightarrow> lp_armed_for_motion st"
  by (auto simp: lease_stage_def lease_loss_def idle_release_def Let_def split: option.splits if_splits)

lemma finish_tick_kept:
  assumes "finish_tick cfg t s st = (st', e)"
  shows "lp_sent st' = lp_sent st \<and> lp_override st' = lp_override st \<and> lp_armed_for_motion st' = lp_armed_for_motion st
    \<and> lp_lease_acquired st' = lp_lease_acquired st \<and> lp_client st' = lp_client st
    \<and> lp_lease_retry_after st' = lp_lease_retry_after st"
  using assms by (auto simp: finish_tick_def Let_def split: sum.splits prod.splits)

text \<open>One tick: either nothing is sent, or the composed intent went through the gate on this tick's
  snapshot.\<close>

lemma tick_log:
  assumes "tick cfg t st = (st', e)"
  obtains new intent where "lp_sent st' = lp_sent st @ new"
    and "init_inv (lp_override st) \<Longrightarrow> init_inv (lp_override st')"
    and "lp_armed_for_motion st' \<Longrightarrow> lp_armed_for_motion st \<or> arm_intent cfg \<in> fst ` set new"
    and "\<exists>armed. (armed \<longrightarrow> lp_armed_for_motion st) \<and> sends_ok (arm_intent cfg) intent armed new"
    and "rn_acquire_lease cfg \<Longrightarrow> (\<exists>x\<in>set new. is_motion (fst x)) \<Longrightarrow> lp_lease_acquired st'"
    and "new \<noteq> [] \<Longrightarrow> rn_send_commands cfg \<and> (\<exists>s0 s ctl policy c' i req. tk_snapshot t = Some s0 \<and> same_state s s0
        \<and> intent = Some i \<and> allowed (evaluate (rn_gate cfg) (Some s) intent req (tk_now t))
        \<and> compose_intent ctl policy = (c', intent) \<and> ctl_runtime (lp_override st') = ctl_runtime ctl
        \<and> (init_inv (lp_override st) \<longrightarrow> init_inv ctl))"
proof -
  note result = that
  have quiet: thesis if "lp_sent st' = lp_sent st" "init_inv (lp_override st) \<longrightarrow> init_inv (lp_override st')"
    "lp_armed_for_motion st' \<longrightarrow> lp_armed_for_motion st"
    by (rule result [of "[]" None]) (use that in \<open>auto simp: sends_ok_def\<close>)
  show thesis
  proof (cases "tk_snapshot t")
    case None
    with assms have "st' = st" by (simp add: tick_def)
    then have "lp_sent st' = lp_sent st" "init_inv (lp_override st) \<longrightarrow> init_inv (lp_override st')"
      "lp_armed_for_motion st' \<longrightarrow> lp_armed_for_motion st" by simp_all
    then show thesis by (rule quiet)
  next
    case (Some s0)
    obtain st0 e0 where s1: "abort_stage cfg st s0 (tk_now t) = (st0, e0)" by fastforce
    obtain st1 s e1 where s2: "control_stage cfg t s0 st0 = ((st1, s), e1)" by (metis prod.exhaust)
    obtain st2 intent dec e2 where s3: "intent_stage cfg t s st1 = ((st2, intent, dec), e2)" by (metis prod.exhaust)
    obtain st3 e3 where s4: "send_stage cfg t s intent dec (lease_stage cfg t s intent st2) = (st3, e3)" by fastforce
    obtain st4 e4 where s5: "finish_tick cfg t s st3 = (st4, e4)" by fastforce
    note K1 = abort_stage_kept [OF s1] and K2 = control_stage_kept [OF s2] and K3 = intent_stage_kept [OF s3]
      and K4 = lease_stage_kept [of cfg t s intent st2] and K5 = finish_tick_kept [OF s5]
    have inv2: "init_inv (lp_override st2) = init_inv (lp_override st1)" by (rule init_inv_cong) (use K3 in blast)
    have st0: "lp_sent st0 = lp_sent st" "lp_override st0 = lp_override st" "lp_armed_for_motion st0 = lp_armed_for_motion st"
      using K1 by simp_all
    have st1: "lp_sent st1 = lp_sent st" "lp_armed_for_motion st1 = lp_armed_for_motion st"
      "init_inv (lp_override st) \<longrightarrow> init_inv (lp_override st1)" using K2 st0 by simp_all
    have st2: "lp_sent st2 = lp_sent st" "lp_armed_for_motion st2 = lp_armed_for_motion st"
      "init_inv (lp_override st) \<longrightarrow> init_inv (lp_override st2)"
      "ctl_runtime (lp_override st2) = ctl_runtime (lp_override st1)" using K3 st1 inv2 by simp_all
    show thesis
    proof (cases "e0 = None \<and> e1 = None \<and> e2 = None")
      case False
      with assms Some s1 s2 s3 have "st' \<in> {st0, st1, st2}" by (cases e0; cases e1; cases e2) (simp_all add: tick_def)
      then consider "st' = st0" | "st' = st1" | "st' = st2" by blast
      then show thesis by cases (rule quiet; use st0 st1 st2 in simp)+
    next
      case True
      with assms Some s1 s2 s3 s4 s5 have st': "st' \<in> {st3, st4}" by (cases e3) (simp_all add: tick_def)
      then have st3: "lp_sent st' = lp_sent st3" "lp_override st' = lp_override st3"
        "lp_armed_for_motion st' = lp_armed_for_motion st3" "lp_lease_acquired st' = lp_lease_acquired st3" using K5 by auto
      obtain new where new: "lp_sent st3 = lp_sent (lease_stage cfg t s intent st2) @ new"
        "lp_override st3 = lp_override (lease_stage cfg t s intent st2)"
        "new \<noteq> [] \<Longrightarrow> rn_send_commands cfg \<and> allowed dec \<and> intent \<noteq> None"
        "sends_ok (arm_intent cfg) intent (lp_armed_for_motion (lease_stage cfg t s intent st2)) new"
        "lp_armed_for_motion st3 \<Longrightarrow> lp_armed_for_motion (lease_stage cfg t s intent st2) \<or> arm_intent cfg \<in> fst ` set new"
        "rn_acquire_lease cfg \<Longrightarrow> (\<exists>x\<in>set new. is_motion (fst x)) \<Longrightarrow> lp_lease_acquired st3"
        by (rule send_stage_log [OF s4]) (rule that; simp)
      show thesis
      proof (rule result [of new intent])
        show "lp_sent st' = lp_sent st @ new" by (simp add: st3 new(1) K4(1) st2(1))
        show "init_inv (lp_override st')" if "init_inv (lp_override st)"
          using that st2(3) by (simp add: st3 new(2) K4(2))
        show "lp_armed_for_motion st \<or> arm_intent cfg \<in> fst ` set new" if "lp_armed_for_motion st'"
          using that new(5) K4(3) st2(2) by (simp add: st3) blast
        show "\<exists>armed. (armed \<longrightarrow> lp_armed_for_motion st) \<and> sends_ok (arm_intent cfg) intent armed new"
          using new(4) K4(3) st2(2) by blast
        show "lp_lease_acquired st'" if "rn_acquire_lease cfg" "\<exists>x\<in>set new. is_motion (fst x)"
          using new(6) [OF that] by (simp add: st3)
        assume ne: "new \<noteq> []"
        from K3 True obtain policy c' req where pol: "compose_intent (lp_override st1) policy = (c', intent)"
          "dec = evaluate (rn_gate cfg) (Some s) intent req (tk_now t)" by blast
        have "ctl_runtime (lp_override st') = ctl_runtime (lp_override st1)" by (simp add: st3 new(2) K4(2) st2(4))
        moreover have "init_inv (lp_override st) \<longrightarrow> init_inv (lp_override st1)" "same_state s s0" using st1(3) K2 True by simp_all
        ultimately show "rn_send_commands cfg \<and> (\<exists>s0 s ctl policy c' i req. tk_snapshot t = Some s0 \<and> same_state s s0
          \<and> intent = Some i \<and> allowed (evaluate (rn_gate cfg) (Some s) intent req (tk_now t))
          \<and> compose_intent ctl policy = (c', intent) \<and> ctl_runtime (lp_override st') = ctl_runtime ctl
          \<and> (init_inv (lp_override st) \<longrightarrow> init_inv ctl))"
          using Some pol new(3) [OF ne] by blast
      qed
    qed
  qed
qed

text \<open>The same as one predicate.\<close>

definition tick_facts ::
  "RunConfig \<Rightarrow> TickIn \<Rightarrow> RunState \<Rightarrow> RunState \<Rightarrow> (CommandIntent \<times> pydict) list \<Rightarrow> CommandIntent option \<Rightarrow> bool" where
  "tick_facts cfg t st st' new intent =
     (lp_sent st' = lp_sent st @ new \<and> (init_inv (lp_override st) \<longrightarrow> init_inv (lp_override st'))
      \<and> (lp_armed_for_motion st' \<longrightarrow> lp_armed_for_motion st \<or> arm_intent cfg \<in> fst ` set new)
      \<and> (\<exists>armed. (armed \<longrightarrow> lp_armed_for_motion st) \<and> sends_ok (arm_intent cfg) intent armed new)
      \<and> (rn_acquire_lease cfg \<longrightarrow> (\<exists>x\<in>set new. is_motion (fst x)) \<longrightarrow> lp_lease_acquired st')
      \<and> (new \<noteq> [] \<longrightarrow> rn_send_commands cfg \<and> (\<exists>s0 s ctl policy c' i req. tk_snapshot t = Some s0 \<and> same_state s s0
        \<and> intent = Some i \<and> allowed (evaluate (rn_gate cfg) (Some s) intent req (tk_now t))
        \<and> compose_intent ctl policy = (c', intent) \<and> ctl_runtime (lp_override st') = ctl_runtime ctl
        \<and> (init_inv (lp_override st) \<longrightarrow> init_inv ctl))))"

lemma tick_has_facts:
  assumes "tick cfg t st = (st', e)"
  shows "\<exists>new intent. tick_facts cfg t st st' new intent"
proof (rule tick_log [OF assms])
  fix new intent
  assume 1: "lp_sent st' = lp_sent st @ new"
    and 2: "init_inv (lp_override st) \<Longrightarrow> init_inv (lp_override st')"
    and 3: "lp_armed_for_motion st' \<Longrightarrow> lp_armed_for_motion st \<or> arm_intent cfg \<in> fst ` set new"
    and 4: "\<exists>armed. (armed \<longrightarrow> lp_armed_for_motion st) \<and> sends_ok (arm_intent cfg) intent armed new"
    and 5: "rn_acquire_lease cfg \<Longrightarrow> (\<exists>x\<in>set new. is_motion (fst x)) \<Longrightarrow> lp_lease_acquired st'"
    and 6: "new \<noteq> [] \<Longrightarrow> rn_send_commands cfg \<and> (\<exists>s0 s ctl policy c' i req. tk_snapshot t = Some s0 \<and> same_state s s0
        \<and> intent = Some i \<and> allowed (evaluate (rn_gate cfg) (Some s) intent req (tk_now t))
        \<and> compose_intent ctl policy = (c', intent) \<and> ctl_runtime (lp_override st') = ctl_runtime ctl
        \<and> (init_inv (lp_override st) \<longrightarrow> init_inv ctl))"
  have "tick_facts cfg t st st' new intent"
    unfolding tick_facts_def by (intro conjI impI) (rule 1, rule 2, assumption, rule 3, assumption, rule 4, rule 5, assumption, assumption,
      rule 6 [THEN conjunct1], assumption, rule 6 [THEN conjunct2], assumption)
  then show ?thesis by blast
qed

section \<open>Runs\<close>

text \<open>A run of the loop visits the states of the tick machine on a prefix of its ticks.\<close>

definition tick_step :: "RunConfig \<Rightarrow> RunState \<Rightarrow> TickIn \<Rightarrow> RunState \<times> loop_exit option" where
  "tick_step cfg st t = tick cfg t st"

lemma run_loop_prefix: "\<exists>n. fst (run_loop cfg ts st) = state_after (tick_step cfg) st (take n ts)"
proof (induction ts arbitrary: st)
  case (Cons t ts)
  obtain st' e where tk: "tick cfg t st = (st', e)" by fastforce
  show ?case
  proof (cases e)
    case None
    from Cons obtain n where "fst (run_loop cfg ts st') = state_after (tick_step cfg) st' (take n ts)" by blast
    moreover have "fst (tick_step cfg st t) = st'" by (simp add: tick_step_def tk)
    ultimately show ?thesis using tk None by (intro exI [of _ "Suc n"]) simp
  next
    case (Some x)
    with tk show ?thesis by (intro exI [of _ 1]) (simp add: tick_step_def)
  qed
qed simp

definition armed_first :: "CommandIntent \<Rightarrow> (CommandIntent \<times> pydict) list \<Rightarrow> bool" where
  "armed_first A hist = (\<forall>xs i p ys. hist = xs @ (i, p) # ys \<and> is_motion i \<longrightarrow> i = A \<or> A \<in> fst ` set xs)"

definition loop_inv :: "RunConfig \<Rightarrow> RunState \<Rightarrow> bool" where
  "loop_inv cfg st = (init_inv (lp_override st) \<and> (lp_armed_for_motion st \<longrightarrow> arm_intent cfg \<in> fst ` set (lp_sent st))
     \<and> armed_first (arm_intent cfg) (lp_sent st))"

lemma armed_first_append:
  assumes "armed_first A hist" and "armed \<longrightarrow> A \<in> fst ` set hist" and "sends_ok A intent armed new"
  shows "armed_first A (hist @ new)"
proof -
  have one: "armed_first A (l @ [(i, p)])" if "armed_first A l" "is_motion i \<longrightarrow> i = A \<or> A \<in> fst ` set l" for l i p
    unfolding armed_first_def
  proof (intro allI impI)
    fix xs j q ys assume *: "l @ [(i, p)] = xs @ (j, q) # ys \<and> is_motion j"
    show "j = A \<or> A \<in> fst ` set xs"
    proof (cases ys rule: rev_cases)
      case Nil
      with * that(2) show ?thesis by auto
    next
      case (snoc zs z)
      with * have "l = xs @ (j, q) # zs" by auto
      with * that(1) show ?thesis by (auto simp: armed_first_def)
    qed
  qed
  from assms(3) show ?thesis unfolding sends_ok_def
  proof (elim disjE exE conjE)
    fix i p assume n: "new = [(i, p)]" "is_motion i \<longrightarrow> armed"
    have "is_motion i \<longrightarrow> i = A \<or> A \<in> fst ` set hist" using n(2) assms(2) by blast
    with assms(1) show ?thesis unfolding n(1) by (rule one)
  next
    fix i p q assume n: "new = [(A, p), (i, q)]"
    have "armed_first A (hist @ [(A, p)])" using assms(1) by (intro one) auto
    then have "armed_first A ((hist @ [(A, p)]) @ [(i, q)])" by (rule one) simp
    with n show ?thesis by simp
  qed (use assms(1) in \<open>auto intro: one\<close>)
qed

lemma loop_inv_step: "loop_inv cfg st \<Longrightarrow> loop_inv cfg (fst (tick_step cfg st t))"
proof -
  assume inv: "loop_inv cfg st"
  obtain st' e where tk: "tick cfg t st = (st', e)" by fastforce
  from tick_has_facts [OF tk] obtain new intent where f: "tick_facts cfg t st st' new intent" by blast
  then obtain armed where
    n: "lp_sent st' = lp_sent st @ new" "init_inv (lp_override st) \<longrightarrow> init_inv (lp_override st')"
      "lp_armed_for_motion st' \<longrightarrow> lp_armed_for_motion st \<or> arm_intent cfg \<in> fst ` set new"
      "armed \<longrightarrow> lp_armed_for_motion st" "sends_ok (arm_intent cfg) intent armed new"
    unfolding tick_facts_def by blast
  from inv n(4) have "armed_first (arm_intent cfg) (lp_sent st @ new)"
    by (intro armed_first_append [OF _ _ n(5)]) (auto simp: loop_inv_def)
  with inv n show ?thesis by (auto simp: loop_inv_def tick_step_def tk)
qed

interpretation loop: state_machine "tick_step cfg" "loop_inv cfg" for cfg
  by unfold_locales (rule loop_inv_step)

lemma loop_inv_run:
  assumes "run_loop cfg ts (run_init cfg client (controller_init a b c d f g h) stall rec sv) = (st, e)"
  shows "loop_inv cfg st"
proof -
  let ?init = "run_init cfg client (controller_init a b c d f g h) stall rec sv"
  have "loop_inv cfg ?init" by (simp add: loop_inv_def run_init_def init_inv_init armed_first_def)
  then have "loop_inv cfg (state_after (tick_step cfg) ?init us)" for us by (rule loop.inv_run)
  with run_loop_prefix [of cfg ts ?init] assms show ?thesis by (metis fst_conv)
qed

definition new_packets :: "RunState \<Rightarrow> RunState \<Rightarrow> (CommandIntent \<times> pydict) list" where
  "new_packets st st' = drop (length (lp_sent st)) (lp_sent st')"

section \<open>Concrete runs\<close>

definition demo_gate :: SafetyGate where
  "demo_gate = \<lparr>sg_mode = ''sim'', sg_config = default_safety_config\<lparr>require_valid_joint_state := False\<rparr>, sg_stale_timeout_sec = Fin 1,
     sg_geometry_status = None, sg_camera_readiness = None\<rparr>"

definition demo_run :: "bool \<Rightarrow> bool \<Rightarrow> RunConfig" where
  "demo_run sends leases = \<lparr>rn_gate = demo_gate, rn_send_commands = sends, rn_acquire_lease = leases, rn_timeout_sec = Fin 1,
     rn_lease_readback_timeout_sec = Fin 1, rn_abort_on_fault_latch = False, rn_action_source = ''hold'', rn_runner_role = ''stack'',
     rn_startup_deadline = Fin 9\<rparr>"

definition demo_joint :: CommandIntent where
  "demo_joint = (intent_hold (Fin 1))\<lparr>ci_mode := ''Hold'', ci_left := Some [(''mode'', PStr ''JointTarget'')]\<rparr>"

definition demo_view :: SourceView where
  "demo_view = \<lparr>sv_image_decode_count = None, sv_missing_camera_count = None, sv_camera_names = None, sv_command_family = None,
     sv_checkpoint_selected_arms = None, sv_checkpoint_arm_mask = None, sv_gripper_command_count = None,
     sv_gripper_dropped_count = None, sv_camera_runtime_status = None, sv_inference_diagnostics = None\<rparr>"

definition demo_tick :: "pydict \<Rightarrow> pydict list \<Rightarrow> TickIn" where
  "demo_tick p cmds = \<lparr>tk_now = Fin 5, tk_snapshot = Some \<lparr>payload = p, received_monotonic = Fin 5\<rparr>, tk_payloads = cmds,
     tk_command_ns = (\<lambda>_. 1), tk_recover_ns = (\<lambda>_. 1), tk_record_env = demo_env, tk_intent = Inr (Some demo_joint),
     tk_requirements = None, tk_source = demo_view, tk_source_now = Fin 0, tk_ns = 1, tk_wall_ns = 1,
     tk_sendto = (\<lambda>_ _. Inr ()), tk_wait_start = Fin 5, tk_wait_latest = (\<lambda>_. None), tk_wait_clock = (\<lambda>_. Fin 6),
     tk_frame_now = Fin 5, tk_bundle = None, tk_bundle_clock_ns = 0, tk_spacemouse = None, tk_camera_runtime = None,
     tk_abort = None, tk_completion = None\<rparr>"

definition demo_state :: RunState where
  "demo_state = run_init (demo_run True False) \<lparr>sc_timeout_sec = Fin 1, sc_source_id = ''a'', sc_session_id = ''b'', sc_lease_token = None, sc_seq = 0\<rparr>
     (controller_init (Fin 1) True False True False True (Fin 5)) (stall_tracker_init (Fin 0) (Fin 0) (Fin 0) (Fin 0)) None demo_sup"

definition demo_init_cmd :: pydict where
  "demo_init_cmd = [(''schema'', PStr ARM_INIT_COMMAND_SCHEMA), (''arms'', PStr ''left''), (''action'', PStr ''start''),
     (''left_q_deg'', PList (replicate 6 (PInt 0)))]"

section \<open>Ticks that must stay silent\<close>

lemma tick_read_only:
  assumes "\<not> rn_send_commands cfg" and "tick cfg t st = (st', e)"
  shows "lp_client st' = lp_client st \<and> lp_sent st' = lp_sent st"
proof (cases "tk_snapshot t")
  case None
  with assms(2) show ?thesis by (simp add: tick_def)
next
  case (Some s0)
  obtain st0 e0 where s1: "abort_stage cfg st s0 (tk_now t) = (st0, e0)" by fastforce
  obtain st1 s e1 where s2: "control_stage cfg t s0 st0 = ((st1, s), e1)" by (metis prod.exhaust)
  obtain st2 intent dec e2 where s3: "intent_stage cfg t s st1 = ((st2, intent, dec), e2)" by (metis prod.exhaust)
  define l where "l = lease_stage cfg t s intent st2"
  obtain st3 e3 where s4: "send_stage cfg t s intent dec l = (st3, e3)" by fastforce
  obtain st4 e4 where s5: "finish_tick cfg t s st3 = (st4, e4)" by fastforce
  have st0: "lp_client st0 = lp_client st" "lp_sent st0 = lp_sent st" using abort_stage_kept [OF s1] by simp_all
  have st1: "lp_client st1 = lp_client st" "lp_sent st1 = lp_sent st" using control_stage_kept [OF s2] st0 by simp_all
  have st2: "lp_client st2 = lp_client st" "lp_sent st2 = lp_sent st" using intent_stage_kept [OF s3] st1 by simp_all
  have "lp_client l = lp_client st2" "lp_sent l = lp_sent st2"
    using assms(1) by (simp_all add: l_def lease_stage_def lease_loss_def idle_release_def Let_def split: option.split)
  moreover from s4 assms(1) have "lp_client st3 = lp_client l" "lp_sent st3 = lp_sent l"
    by (auto simp: send_stage_def drop_intent_def split: option.splits if_splits)
  ultimately have st3: "lp_client st3 = lp_client st" "lp_sent st3 = lp_sent st" using st2 by simp_all
  have st4: "lp_client st4 = lp_client st" "lp_sent st4 = lp_sent st" using finish_tick_kept [OF s5] st3 by simp_all
  from assms(2) Some s1 s2 s3 s4 s5 have "st' \<in> {st0, st1, st2, st3, st4}"
    by (cases e0; cases e1; cases e2; cases e3) (simp_all add: tick_def l_def)
  then consider "st' = st0" | "st' = st1" | "st' = st2" | "st' = st3" | "st' = st4" by blast
  then show ?thesis by cases (simp_all add: st0 st1 st2 st3 st4)
qed

text \<open>A state message that shows the lease, which the server enforces, in other hands.\<close>

definition foreign_lease :: "StateSnapshot \<Rightarrow> ServoCommandClient \<Rightarrow> bool" where
  "foreign_lease s c = (let l = command_source_lease_from_snapshot s in
     sc_source_id c \<noteq> [] \<and> sc_session_id c \<noteq> [] \<and> lr_enforce_lease l \<and> lr_active l
     \<and> (lr_active_source_id l \<noteq> Some (sc_source_id c) \<or> lr_active_session_id l \<noteq> Some (sc_session_id c)))"

lemma foreign_lease_loss: "foreign_lease s c \<Longrightarrow> \<exists>m. active_lease_loss_reason s c = Some (m, True)"
  by (auto simp: foreign_lease_def active_lease_loss_reason_def lease_matches_def Let_def)

lemma foreign_lease_same_state: "same_state s s0 \<Longrightarrow> foreign_lease s c = foreign_lease s0 c"
proof -
  assume "same_state s s0"
  then have "command_source_lease_from_snapshot s = command_source_lease_from_snapshot s0"
    by (simp add: same_state_def command_source_lease_from_snapshot_def)
  then show ?thesis by (simp add: foreign_lease_def)
qed

lemma send_stage_backoff:
  assumes "send_stage cfg t s intent decision st = (st', e)" and "rn_acquire_lease cfg" and "\<not> lp_lease_acquired st"
    and "tk_now t < lp_lease_retry_after st"
  shows "\<exists>new. lp_sent st' = lp_sent st @ new \<and> (\<forall>x\<in>set new. \<not> is_motion (fst x))"
proof (cases "intent = None \<or> \<not> allowed decision \<or> \<not> rn_send_commands cfg")
  case True
  with assms(1) have "lp_sent st' = lp_sent st" by (auto simp: send_stage_def drop_intent_def split: option.splits if_splits)
  then show ?thesis by simp
next
  case False
  then obtain i where i: "intent = Some i" "allowed decision" "rn_send_commands cfg" by auto
  show ?thesis
  proof (cases "is_motion i")
    case True
    with assms i have "st' = st" by (auto simp: send_stage_def ensure_lease_def)
    then show ?thesis by simp
  next
    case False
    with assms i have "send_intent t i st = (st', e)" by (auto simp: send_stage_def ensure_lease_def ensure_armed_def)
    from send_intent_log [OF this] False show ?thesis by (cases e) auto
  qed
qed

lemma send_stage_silent:
  assumes "send_stage cfg t s intent decision st = (st', e)" and "rn_acquire_lease cfg" and "\<not> lp_lease_acquired st"
    and "tk_now t < lp_lease_retry_after st"
  shows "\<not> lp_lease_acquired st' \<and> lp_lease_retry_after st' = lp_lease_retry_after st
    \<and> sc_lease_token (lp_client st') = sc_lease_token (lp_client st) \<and> lp_armed_for_motion st' = lp_armed_for_motion st"
  using assms
  by (auto simp: send_stage_def ensure_lease_def ensure_armed_def drop_intent_def send_intent_def send_def Let_def
      split: option.splits if_splits sum.splits)

section \<open>Properties\<close>



text \<open>(C2) In every run of the loop, an arm the init override has latched receives no policy command: a
  packet sent in a tick is the \<^verbatim>\<open>ArmMotion\<close> request, or carries on that arm Hold or the init pose with
  its request id.\<close>

theorem latched_arm_gets_no_policy_packet:
  assumes "run_loop cfg ts (run_init cfg client (controller_init c1 c2 c3 c4 c5 c6 c7) stall rec sv) = (st, None)"
    and "tick cfg t st = (st', e)" and "(i, p) \<in> set (new_packets st st')"
    and "am_on (ctl_runtime (lp_override st') a)"
  shows "i = arm_intent cfg \<or> init_or_hold (ctl_runtime (lp_override st') a) (intent_arm a i)"
proof -
  have inv: "init_inv (lp_override st)" using loop_inv_run [OF assms(1)] by (simp add: loop_inv_def)
  from tick_has_facts [OF assms(2)] obtain new intent where f: "tick_facts cfg t st st' new intent" by blast
  then obtain armed where sent: "lp_sent st' = lp_sent st @ new" and so: "sends_ok (arm_intent cfg) intent armed new"
    unfolding tick_facts_def by blast
  from sent assms(3) have mem: "(i, p) \<in> set new" by (simp add: new_packets_def)
  then have "new \<noteq> []" by auto
  with f inv obtain ctl policy c' j where c: "intent = Some j" "compose_intent ctl policy = (c', Some j)"
    "ctl_runtime (lp_override st') = ctl_runtime ctl" "init_inv ctl" unfolding tick_facts_def by blast
  from mem so c(1) have "i = arm_intent cfg \<or> i = j" by (auto simp: sends_ok_def)
  with compose_intent_latched [OF c(4) _ c(2), of a] assms(4) c(3) show ?thesis by auto
qed

lemma demo_latched:
  "let st = fst (run_loop (demo_run True False) [demo_tick [] []] demo_state);
       st' = fst (tick (demo_run True False) (demo_tick [] [demo_init_cmd]) st)
   in snd (run_loop (demo_run True False) [demo_tick [] []] demo_state) = None
      \<and> am_on (ctl_runtime (lp_override st') LeftArm) \<and> map (ci_mode \<circ> fst) (new_packets st st') = [''Hold'']"
  by code_simp

theorem latched_arm_gets_no_policy_packet_witness:
  "\<exists>st st' i p. run_loop (demo_run True False) [demo_tick [] []] demo_state = (st, None)
     \<and> (i, p) \<in> set (new_packets st st') \<and> init_or_hold (ctl_runtime (lp_override st') LeftArm) (intent_arm LeftArm i)"
proof -
  define st where "st = fst (run_loop (demo_run True False) [demo_tick [] []] demo_state)"
  obtain st' e where tk: "tick (demo_run True False) (demo_tick [] [demo_init_cmd]) st = (st', e)" by fastforce
  from demo_latched have 1: "run_loop (demo_run True False) [demo_tick [] []] demo_state = (st, None)"
    and 2: "am_on (ctl_runtime (lp_override st') LeftArm)" and 3: "map (ci_mode \<circ> fst) (new_packets st st') = [''Hold'']"
    unfolding Let_def st_def [symmetric] tk fst_conv by (simp_all add: st_def prod_eq_iff)
  from 3 obtain i p where ip: "new_packets st st' = [(i, p)]" "ci_mode i = ''Hold''" by (auto simp: map_eq_Cons_conv)
  then have mem: "(i, p) \<in> set (new_packets st st')" by simp
  from ip(2) have "i \<noteq> arm_intent (demo_run True False)" by (auto simp: intent_arm_motion_def intent_of_def)
  with latched_arm_gets_no_policy_packet [OF 1 [unfolded demo_state_def] tk mem 2] 1 mem show ?thesis by blast
qed

text \<open>(C3) In every run, a motion packet is either the \<^verbatim>\<open>ArmMotion\<close> request itself or comes after one.\<close>

theorem motion_is_armed_first:
  assumes "run_loop cfg ts (run_init cfg client (controller_init c1 c2 c3 c4 c5 c6 c7) stall rec sv) = (st, e)"
    and "lp_sent st = xs @ (i, p) # ys" and "is_motion i"
  shows "i = arm_intent cfg \<or> arm_intent cfg \<in> fst ` set xs"
  using loop_inv_run [OF assms(1)] assms(2,3) by (auto simp: loop_inv_def armed_first_def)

theorem motion_is_armed_first_witness:
  "\<exists>st e p q. run_loop (demo_run True False) [demo_tick [] []] demo_state = (st, e)
     \<and> lp_sent st = [(arm_intent (demo_run True False), p), (demo_joint, q)]"
proof -
  obtain st e where r: "run_loop (demo_run True False) [demo_tick [] []] demo_state = (st, e)" by fastforce
  have mot: "is_motion demo_joint" by code_simp
  have "map fst (lp_sent (fst (run_loop (demo_run True False) [demo_tick [] []] demo_state)))
      = [arm_intent (demo_run True False), demo_joint]" by code_simp
  then have "map fst (lp_sent st) = [arm_intent (demo_run True False), demo_joint]" by (simp only: r fst_conv)
  then obtain p q where l: "lp_sent st = [(arm_intent (demo_run True False), p)] @ (demo_joint, q) # []"
    by (auto simp: map_eq_Cons_conv)
  from motion_is_armed_first [OF r [unfolded demo_state_def] l mot] r l show ?thesis by simp
qed

text \<open>A loop started without permission to send (\<^verbatim>\<open>offline\<close>, \<^verbatim>\<open>read-only\<close> or dry-run modes) never
  touches the command client: whatever happens in its ticks, no packet leaves, no sequence number is
  used and no lease is requested or released.\<close>

theorem read_only_loop_sends_nothing:
  assumes "\<not> rn_send_commands cfg"
  shows "lp_client (fst (run_loop cfg ts st)) = lp_client st \<and> lp_sent (fst (run_loop cfg ts st)) = lp_sent st"
proof (induction ts arbitrary: st)
  case (Cons t ts)
  obtain st' e where tk: "tick cfg t st = (st', e)" by fastforce
  with tick_read_only [OF assms tk] Cons [of st'] show ?case by (cases e) simp_all
qed simp

theorem read_only_loop_sends_nothing_witness:
  "lp_client (fst (run_loop (demo_run False True) [demo_tick [] [demo_init_cmd], demo_tick [] []] demo_state)) = lp_client demo_state"
proof -
  have "\<not> rn_send_commands (demo_run False True)" by (simp add: demo_run_def)
  from read_only_loop_sends_nothing [OF this] show ?thesis by blast
qed

text \<open>(C4) When the server enforces the lease and a state message shows it in the hands of another source
  or session, the loop that believed it held the lease sends no motion packet in that tick, forgets the
  token, and will neither move nor ask again before the back-off has passed.\<close>

theorem foreign_lease_stops_motion:
  assumes tk: "tick cfg t st = (st', e)" and cfg: "rn_acquire_lease cfg" "rn_send_commands cfg" and lease: "lp_lease_acquired st"
    and snap: "tk_snapshot t = Some s0" "foreign_lease s0 (lp_client st)" and now: "tk_now t = Fin n"
    and ends: "e = None" and not_aborted: "snd (abort_stage cfg st s0 (tk_now t)) = None"
  shows "(\<forall>x\<in>set (new_packets st st'). \<not> is_motion (fst x)) \<and> \<not> lp_lease_acquired st' \<and> \<not> lp_armed_for_motion st'
    \<and> sc_lease_token (lp_client st') = None \<and> lp_lease_retry_after st' = Fin (n + 2)"
proof -
  obtain st0 where s1: "abort_stage cfg st s0 (tk_now t) = (st0, None)" using not_aborted by (metis prod.collapse)
  obtain st1 s e1 where s2: "control_stage cfg t s0 st0 = ((st1, s), e1)" by (metis prod.exhaust)
  obtain st2 intent dec e2 where s3: "intent_stage cfg t s st1 = ((st2, intent, dec), e2)" by (metis prod.exhaust)
  define l where "l = lease_stage cfg t s intent st2"
  obtain st3 e3 where s4: "send_stage cfg t s intent dec l = (st3, e3)" by fastforce
  from tk ends snap(1) s1 s2 s3 s4 have ok: "e1 = None" "e2 = None" "e3 = None" and fin: "finish_tick cfg t s st3 = (st', None)"
    by (cases e1; cases e2; cases e3; simp add: tick_def l_def)+
  have st2: "lp_client st2 = lp_client st" "lp_sent st2 = lp_sent st" "lp_lease_acquired st2"
    using abort_stage_kept [OF s1] control_stage_kept [OF s2] intent_stage_kept [OF s3] lease by simp_all
  have "foreign_lease s (lp_client st)" using control_stage_kept [OF s2] ok(1) snap(2) foreign_lease_same_state by blast
  then obtain m where loss: "active_lease_loss_reason s (lp_client st) = Some (m, True)" using foreign_lease_loss by blast
  have l: "\<not> lp_lease_acquired l" "\<not> lp_armed_for_motion l" "lp_lease_retry_after l = Fin (n + 2)" "lp_sent l = lp_sent st"
    "sc_lease_token (lp_client l) = None"
    using st2 cfg loss now
    by (simp_all add: l_def lease_stage_def lease_loss_def idle_release_def Let_def LEASE_RETRY_BACKOFF_SEC_def split: option.split)
  have early: "tk_now t < lp_lease_retry_after l" by (simp add: l now)
  from send_stage_backoff [OF s4 cfg(1) l(1) early] obtain new where
    new: "lp_sent st3 = lp_sent l @ new" "\<forall>x\<in>set new. \<not> is_motion (fst x)" by blast
  note F = finish_tick_kept [OF fin] and S = send_stage_silent [OF s4 cfg(1) l(1) early]
  show ?thesis using F S new l by (simp add: new_packets_def)
qed

definition demo_foreign :: pydict where
  "demo_foreign = [(''command_source'', PDict [(''active'', PBool True), (''enforce_lease'', PBool True),
     (''active_source_id'', PStr ''gui''), (''active_session_id'', PStr ''x'')])]"

definition demo_leased :: RunState where
  "demo_leased = demo_state\<lparr>lp_lease_acquired := True, lp_armed_for_motion := True\<rparr>"

theorem foreign_lease_stops_motion_witness:
  "list_all (\<lambda>x. \<not> is_motion (fst x)) (new_packets demo_leased (fst (tick (demo_run True True) (demo_tick demo_foreign []) demo_leased)))
   \<and> lp_lease_retry_after (fst (tick (demo_run True True) (demo_tick demo_foreign []) demo_leased)) = Fin 7"
proof -
  let ?t = "demo_tick demo_foreign []"
  let ?s = "\<lparr>payload = demo_foreign, received_monotonic = Fin 5\<rparr>"
  obtain st' e where tk: "tick (demo_run True True) ?t demo_leased = (st', e)" by fastforce
  have "snd (tick (demo_run True True) ?t demo_leased) = None" by code_simp
  then have e: "e = None" by (simp add: tk)
  have f: "foreign_lease ?s (lp_client demo_leased)" "snd (abort_stage (demo_run True True) demo_leased ?s (tk_now ?t)) = None"
    by code_simp+
  have "rn_acquire_lease (demo_run True True)" "rn_send_commands (demo_run True True)" "lp_lease_acquired demo_leased"
    "tk_snapshot ?t = Some ?s" "tk_now ?t = Fin 5" by (simp_all add: demo_run_def demo_leased_def demo_tick_def)
  from foreign_lease_stops_motion [OF tk this(1-4) f(1) this(5) e f(2)] show ?thesis by (simp add: tk list_all_iff)
qed

section \<open>Pacing: correctness\<close>

text \<open>The pacer keeps its grid. With a positive period and finite times, a wait sleeps for a
  non-negative time no longer than to the current deadline; the next deadline lies strictly in the
  future and differs from the previous one by a whole number of periods, so an overrun skips slots
  instead of queueing them or shifting the phase.\<close>

theorem pacer_keeps_grid:
  assumes "tp_period p = Fin d" and "0 < d" and "tp_next p = Some (Fin deadline)"
  shows "\<exists>p' k nxt slp. pacer_wait p (Fin now) = Inr (p', Fin slp) \<and> tp_next p' = Some (Fin nxt) \<and> tp_period p' = Fin d
    \<and> nxt = deadline + of_int k * d \<and> 1 \<le> k \<and> now < nxt \<and> 0 \<le> slp
    \<and> (now < deadline \<longrightarrow> now + slp = deadline \<and> k = 1) \<and> (deadline \<le> now \<longrightarrow> slp = 0 \<and> nxt \<le> now + d)"
proof (cases "now < deadline")
  case True
  with assms show ?thesis
    by (intro exI [of _ "p\<lparr>tp_next := Some (Fin (deadline + d))\<rparr>"] exI [of _ 1] exI [of _ "deadline + d"] exI [of _ "deadline - now"])
      (simp add: pacer_wait_def Let_def minus_pyfloat_def)
next
  case False
  let ?q = "\<lfloor>(now - deadline) / d\<rfloor>"
  let ?nxt = "deadline + of_int (?q + 1) * d"
  have "0 \<le> (now - deadline) / d" using False assms(2) by simp
  then have k: "1 \<le> ?q + 1" by simp
  have "(now - deadline) / d < of_int (?q + 1)" by linarith
  then have "now - deadline < of_int (?q + 1) * d" using assms(2) by (simp only: pos_divide_less_eq)
  then have lt: "now < ?nxt" by (simp only: diff_less_eq add.commute)
  have "of_int ?q \<le> (now - deadline) / d" by (rule of_int_floor_le)
  then have "of_int ?q * d \<le> now - deadline" using assms(2) by (simp only: pos_le_divide_eq)
  then have le: "?nxt \<le> now + d" by (simp add: algebra_simps)
  have "pacer_wait p (Fin now) = Inr (p\<lparr>tp_next := Some (Fin ?nxt)\<rparr>, Fin 0)"
    using assms False by (simp add: pacer_wait_def Let_def minus_pyfloat_def floor_div_def res_bind_def zero_pyfloat_def)
  with assms False k lt le show ?thesis
    by (intro exI [of _ "p\<lparr>tp_next := Some (Fin ?nxt)\<rparr>"] exI [of _ "?q + 1"] exI [of _ ?nxt] exI [of _ 0]) simp
qed

theorem pacer_keeps_grid_witness:
  "\<exists>p' k (nxt :: rat) slp. pacer_wait \<lparr>tp_period = Fin 2, tp_next = Some (Fin 3)\<rparr> (Fin 8) = Inr (p', Fin slp) \<and> nxt = 3 + of_int k * 2 \<and> 8 < nxt \<and> nxt \<le> 8 + 2"
proof -
  have "tp_period \<lparr>tp_period = Fin 2, tp_next = Some (Fin 3)\<rparr> = Fin 2" "(0::rat) < 2"
    "tp_next \<lparr>tp_period = Fin 2, tp_next = Some (Fin 3)\<rparr> = Some (Fin 3)" by simp_all
  from pacer_keeps_grid [OF this, of 8] show ?thesis by auto
qed

end
