(* ===== verification/JawGeometry.thy ===== *)
theory JawGeometry
  imports PyPrelude
begin

text \<open>
  The four-bar geometry of the gripper jaw in \<^verbatim>\<open>policy_runner/gripper.py\<close>: motor angle to jaw
  opening in millimetres, and its inverse by bisection. The module's constants and formulas are
  taken over the reals, where \<^verbatim>\<open>math.sin\<close>, \<^verbatim>\<open>math.cos\<close>, \<^verbatim>\<open>math.sqrt\<close> and \<^verbatim>\<open>math.pi\<close> are the exact
  functions; rounding is not modelled. The search loop itself is shared with the backend model,
  which runs it on the float values.
\<close>

section \<open>Bisection\<close>

text \<open>The loop \<^verbatim>\<open>for _ in range(64)\<close> of \<^verbatim>\<open>sdk_jaw_mm_to_rad\<close>: \<open>below mid\<close> is \<^verbatim>\<open>sdk_jaw_mm(mid) < target\<close>.\<close>

fun bisect :: "('a::linordered_field \<Rightarrow> bool) \<Rightarrow> nat \<Rightarrow> 'a \<Rightarrow> 'a \<Rightarrow> 'a \<times> 'a" where
  "bisect below 0 lo hi = (lo, hi)"
| "bisect below (Suc n) lo hi =
     (let mid = (lo + hi) / 2
      in if below mid then bisect below n mid hi else bisect below n lo mid)"

definition jaw_search :: "('a::linordered_field \<Rightarrow> bool) \<Rightarrow> 'a \<Rightarrow> 'a \<Rightarrow> 'a" where
  "jaw_search below lo hi = (let (l, h) = bisect below 64 lo hi in (l + h) / 2)"

lemma bisect_within:
  "lo \<le> hi \<Longrightarrow> bisect below n lo hi = (l, h) \<Longrightarrow> lo \<le> l \<and> l \<le> h \<and> h \<le> hi"
proof (induction n arbitrary: lo hi)
  case (Suc n)
  let ?m = "(lo + hi) / 2"
  have m: "lo \<le> ?m" "?m \<le> hi" using Suc.prems(1) by (simp_all add: field_simps)
  show ?case
  proof (cases "below ?m")
    case True
    with Suc.prems(2) have "bisect below n ?m hi = (l, h)" by (simp add: Let_def)
    from Suc.IH [OF m(2) this] m show ?thesis by simp
  next
    case False
    with Suc.prems(2) have "bisect below n lo ?m = (l, h)" by (simp add: Let_def)
    from Suc.IH [OF m(1) this] m show ?thesis by simp
  qed
qed simp

lemma bisect_width: "bisect below n lo hi = (l, h) \<Longrightarrow> 2 ^ n * (h - l) = hi - lo"
proof (induction n arbitrary: lo hi)
  case (Suc n)
  let ?m = "(lo + hi) / 2"
  obtain m where m: "m = ?m" "m + m = lo + hi" using field_sum_of_halves [of "lo + hi"] by blast
  have "2 ^ n * (h - l) = (if below m then hi - m else m - lo)"
    using Suc.prems Suc.IH unfolding m(1) by (auto simp: Let_def split: if_splits)
  then have "2 * (2 ^ n * (h - l)) = hi - lo" using m(2) by (cases "below m") simp_all
  then show ?case by (simp only: power_Suc mult.assoc)
qed simp

text \<open>When the test holds exactly below a threshold, the interval never loses it.\<close>

lemma bisect_brackets:
  assumes "\<And>x. lo \<le> x \<Longrightarrow> x \<le> hi \<Longrightarrow> below x \<longleftrightarrow> x < r0"
    and "lo \<le> r0" and "r0 \<le> hi" and "bisect below n lo hi = (l, h)"
  shows "l \<le> r0 \<and> r0 \<le> h"
  using assms
proof (induction n arbitrary: lo hi)
  case (Suc n)
  let ?m = "(lo + hi) / 2"
  have m: "lo \<le> ?m" "?m \<le> hi" using Suc.prems(2,3) by (simp_all add: field_simps)
  show ?case
  proof (cases "below ?m")
    case True
    with Suc.prems(4) have b: "bisect below n ?m hi = (l, h)" by (simp add: Let_def)
    have "?m \<le> r0" using True Suc.prems(1) [OF m] by simp
    moreover have "below x \<longleftrightarrow> x < r0" if "?m \<le> x" "x \<le> hi" for x
      using Suc.prems(1) that m(1) by (meson order_trans)
    ultimately show ?thesis using Suc.IH Suc.prems(3) b by blast
  next
    case False
    with Suc.prems(4) have b: "bisect below n lo ?m = (l, h)" by (simp add: Let_def)
    have "r0 \<le> ?m" using False Suc.prems(1) [OF m] by simp
    moreover have "below x \<longleftrightarrow> x < r0" if "lo \<le> x" "x \<le> ?m" for x
      using Suc.prems(1) that m(2) by (meson order_trans)
    ultimately show ?thesis using Suc.IH Suc.prems(2) b by blast
  qed
qed simp

lemma jaw_search_within: "lo \<le> hi \<Longrightarrow> lo \<le> jaw_search below lo hi \<and> jaw_search below lo hi \<le> hi"
proof -
  assume "lo \<le> hi"
  obtain l h where b: "bisect below 64 lo hi = (l, h)" by fastforce
  from bisect_within [OF \<open>lo \<le> hi\<close> b] have "lo \<le> l" "l \<le> h" "h \<le> hi" by auto
  then show ?thesis by (simp add: jaw_search_def b field_simps)
qed

lemma jaw_search_accuracy:
  assumes "\<And>x. lo \<le> x \<Longrightarrow> x \<le> hi \<Longrightarrow> below x \<longleftrightarrow> x < r0" and "lo \<le> r0" and "r0 \<le> hi"
  shows "\<bar>jaw_search below lo hi - r0\<bar> \<le> (hi - lo) / 2 ^ 65"
proof -
  obtain l h where b: "bisect below 64 lo hi = (l, h)" by fastforce
  from bisect_brackets [OF assms b] have "l \<le> r0" "r0 \<le> h" by auto
  then have "\<bar>(l + h) / 2 - r0\<bar> \<le> (h - l) / 2" by (simp add: abs_le_iff field_simps)
  moreover have "(h - l) / 2 = (hi - lo) / 2 ^ 65" using bisect_width [OF b] by (simp add: field_simps)
  ultimately show ?thesis by (simp add: jaw_search_def b)
qed

section \<open>The linkage\<close>

definition SDK_MAX_ANGLE_RAD :: real where
  "SDK_MAX_ANGLE_RAD = (180 - 43.99) / 180 * pi"

definition sdk_half_span_mm :: "real \<Rightarrow> real" where
  "sdk_half_span_mm angle_rad =
     (let a = SDK_MAX_ANGLE_RAD - angle_rad; height = 0.0325 * sin a; width_d = 0.0325 * cos a
      in (sqrt (0.058\<^sup>2 - (height - 0.01456)\<^sup>2) + width_d) * 1000)"

definition sdk_jaw_mm :: "real \<Rightarrow> real" where
  "sdk_jaw_mm angle_rad = (sdk_half_span_mm angle_rad - sdk_half_span_mm 0) * 2"

definition sdk_jaw_mm_to_rad :: "real \<Rightarrow> real \<Rightarrow> real \<Rightarrow> real" where
  "sdk_jaw_mm_to_rad jaw_mm lo hi =
     (if jaw_mm \<le> sdk_jaw_mm lo then lo
      else if sdk_jaw_mm hi \<le> jaw_mm then hi
      else jaw_search (\<lambda>mid. sdk_jaw_mm mid < jaw_mm) lo hi)"


section \<open>Shape of the linkage\<close>

text \<open>Half of the span in metres as a function of the crank angle, the decimal constants written as fractions.\<close>

definition span :: "real \<Rightarrow> real" where
  "span a = sqrt ((29 / 500)\<^sup>2 - (13 / 400 * sin a - 91 / 6250)\<^sup>2) + 13 / 400 * cos a"

lemma half_span_eq: "sdk_half_span_mm x = span (SDK_MAX_ANGLE_RAD - x) * 1000"
  by (simp add: sdk_half_span_mm_def span_def Let_def)

lemma sdk_jaw_mm_less_iff:
  "sdk_jaw_mm x < sdk_jaw_mm y \<longleftrightarrow> span (SDK_MAX_ANGLE_RAD - x) < span (SDK_MAX_ANGLE_RAD - y)"
  by (simp add: sdk_jaw_mm_def half_span_eq)

lemma offset_bound: "\<bar>13 / 400 * sin a - 91 / 6250 :: real\<bar> \<le> 2353 / 50000"
  using sin_le_one [of a] sin_ge_minus_one [of a] by linarith

lemma square_le_of_abs: "\<bar>u::real\<bar> \<le> c \<Longrightarrow> u\<^sup>2 \<le> c\<^sup>2"
  using power_mono [of "\<bar>u\<bar>" c 2] by simp

lemma radicand_pos: "0 < (29 / 500)\<^sup>2 - (13 / 400 * sin a - 91 / 6250 :: real)\<^sup>2"
proof -
  have "(13 / 400 * sin a - 91 / 6250 :: real)\<^sup>2 \<le> (2353 / 50000)\<^sup>2"
    by (rule square_le_of_abs [OF offset_bound])
  also have "\<dots> < (29 / 500 :: real)\<^sup>2" by (simp add: power2_eq_square)
  finally show ?thesis by simp
qed

lemma linkage_deriv:
  fixes w c r a :: real
  assumes "0 < r - (w * sin a - c)\<^sup>2"
  shows "((\<lambda>x. sqrt (r - (w * sin x - c)\<^sup>2) + w * cos x) has_real_derivative
      - (w * sin a - c) * (w * cos a) / sqrt (r - (w * sin a - c)\<^sup>2) - w * sin a) (at a)"
proof -
  let ?g = "\<lambda>x. r - (w * sin x - c)\<^sup>2"
  have g: "(?g has_real_derivative - (2 * (w * sin a - c) * (w * cos a))) (at a)"
    by (auto intro!: derivative_eq_intros)
  have "((\<lambda>x. sqrt (?g x)) has_real_derivative inverse (sqrt (?g a)) / 2 * - (2 * (w * sin a - c) * (w * cos a))) (at a)"
    by (rule DERIV_chain2 [OF DERIV_real_sqrt [OF assms] g])
  moreover have "((\<lambda>x. w * cos x) has_real_derivative - (w * sin a)) (at a)"
    by (auto intro!: derivative_eq_intros)
  ultimately have "((\<lambda>x. sqrt (?g x) + w * cos x) has_real_derivative
      inverse (sqrt (?g a)) / 2 * - (2 * (w * sin a - c) * (w * cos a)) + - (w * sin a)) (at a)"
    by (rule DERIV_add)
  moreover have "inverse t / 2 * - (2 * u * v) + - z = - u * v / t - z" for t u v z :: real
    by (cases "t = 0") (simp_all add: field_simps)
  ultimately show ?thesis by (simp only:)
qed

lemma span_deriv:
  "(span has_real_derivative
      - (13 / 400 * sin a - 91 / 6250) * (13 / 400 * cos a) / sqrt ((29 / 500)\<^sup>2 - (13 / 400 * sin a - 91 / 6250)\<^sup>2)
      - 13 / 400 * sin a) (at a)"
  using linkage_deriv [OF radicand_pos] unfolding span_def [abs_def] .

lemma sin_ge_half: "pi / 6 \<le> a \<Longrightarrow> a \<le> 5 * pi / 6 \<Longrightarrow> 1 / 2 \<le> sin a"
proof (cases "a \<le> pi / 2")
  case True
  assume "pi / 6 \<le> a"
  with True have "sin (pi / 6) \<le> sin a" by (intro sin_monotone_2pi_le) auto
  then show ?thesis by (simp add: sin_30)
next
  case False
  assume "a \<le> 5 * pi / 6"
  with False have "sin (pi / 6) \<le> sin (pi - a)" by (intro sin_monotone_2pi_le) auto
  then show ?thesis by (simp add: sin_30)
qed

lemma span_deriv_neg:
  assumes "pi / 6 \<le> a" and "a \<le> 5 * pi / 6"
  shows "- (13 / 400 * sin a - 91 / 6250) * (13 / 400 * cos a) / sqrt ((29 / 500)\<^sup>2 - (13 / 400 * sin a - 91 / 6250)\<^sup>2)
      - 13 / 400 * sin a < 0"
proof -
  let ?u = "13 / 400 * sin a - 91 / 6250 :: real"
  let ?S = "sqrt ((29 / 500)\<^sup>2 - ?u\<^sup>2)"
  have s: "1 / 2 \<le> sin a" by (rule sin_ge_half [OF assms])
  then have u: "0 \<le> ?u" "?u \<le> 897 / 50000" using sin_le_one [of a] by simp_all
  then have "?u\<^sup>2 \<le> (897 / 50000)\<^sup>2" by (intro power_mono) auto
  then have "(1 / 20)\<^sup>2 \<le> (29 / 500)\<^sup>2 - ?u\<^sup>2" by (simp add: power2_eq_square)
  then have S: "1 / 20 \<le> ?S" by (rule real_le_rsqrt)
  have "\<bar>?u * cos a\<bar> \<le> 897 / 50000 * 1" unfolding abs_mult
    using u abs_cos_le_one [of a] by (intro mult_mono) auto
  then have "- (?u * cos a) \<le> 897 / 50000" by simp
  also have "\<dots> \<le> (2 / 5) * ?S" using S by simp
  finally have "- (?u * cos a) \<le> (2 / 5) * ?S" .
  moreover have "0 < ?S" using S by linarith
  ultimately have "- (?u * cos a) / ?S \<le> (2 / 5)" by (simp only: pos_divide_le_eq)
  moreover have "- ?u * (13 / 400 * cos a) / ?S = 13 / 400 * (- (?u * cos a) / ?S)" by (simp only: times_divide_eq_right mult_minus_left mult_minus_right mult.left_commute)
  moreover have "13 / 400 * x \<le> 13 / 400 * (2 / 5)" if "x \<le> 2 / 5" for x :: real using that by simp
  ultimately have "- ?u * (13 / 400 * cos a) / ?S \<le> 13 / 400 * (2 / 5)" by (simp only:)
  moreover have "x - 13 / 400 * y < 0" if "x \<le> 13 / 400 * (2 / 5)" "1 / 2 \<le> y" for x y :: real
    using that by linarith
  ultimately show ?thesis using s by blast
qed

lemma span_decreasing:
  assumes "pi / 6 \<le> a" and "a < b" and "b \<le> 5 * pi / 6"
  shows "span b < span a"
proof (rule DERIV_neg_imp_decreasing [OF assms(2)])
  fix x assume "a \<le> x" "x \<le> b"
  with assms have x: "pi / 6 \<le> x" "x \<le> 5 * pi / 6" by simp_all
  show "\<exists>y. (span has_real_derivative y) (at x) \<and> y < 0"
    using span_deriv span_deriv_neg [OF x] by blast
qed

text \<open>Beyond thirty degrees of crank angle the span is no longer monotone, but it stays above its
  value there.\<close>

lemma sqrt_diff_le:
  assumes "1 / 20 \<le> sqrt x" and "1 / 20 \<le> sqrt y" and "y \<le> x" and "0 \<le> y"
  shows "sqrt x - sqrt y \<le> 10 * (x - y)"
proof -
  have "(sqrt x - sqrt y) * (1 / 10) \<le> (sqrt x - sqrt y) * (sqrt x + sqrt y)"
    using assms by (intro mult_left_mono) auto
  also have "\<dots> = x - y" using assms by (simp add: algebra_simps flip: power2_eq_square)
  finally show ?thesis by simp
qed

lemma span_left_bound:
  assumes "0 \<le> a" and "a \<le> pi / 6"
  shows "span (pi / 6) \<le> span a"
proof -
  let ?r = "\<lambda>s::real. (29 / 500)\<^sup>2 - (13 / 400 * s - 91 / 6250)\<^sup>2"
  obtain s c where sc: "s = sin a" "c = cos a" by blast
  have s: "0 \<le> s" "s \<le> 1 / 2"
    using assms sin_monotone_2pi_le [of a "pi / 6"] sin_ge_zero [of a] by (simp_all add: sc sin_30)
  have c: "cos (pi / 6) \<le> c" "c \<le> 1" "cos (pi / 6) \<le> 1"
    using assms cos_monotone_0_pi_le [of a "pi / 6"] by (simp_all add: sc)
  have "c\<^sup>2 - (cos (pi / 6))\<^sup>2 = (1 / 2 - s) * (1 / 2 + s)"
    using sin_cos_squared_add [of a] sin_cos_squared_add [of "pi / 6"]
    by (simp add: sc sin_30 power2_eq_square algebra_simps)
  then have "(c - cos (pi / 6)) * (c + cos (pi / 6)) = (1 / 2 - s) * (1 / 2 + s)"
    by (simp add: power2_eq_square algebra_simps)
  moreover have "(c - cos (pi / 6)) * (c + cos (pi / 6)) \<le> (c - cos (pi / 6)) * 2"
    using c by (intro mult_left_mono) auto
  moreover have "(1 / 2 - s) * (1 / 2) \<le> (1 / 2 - s) * (1 / 2 + s)" using s by (intro mult_left_mono) auto
  ultimately have cos: "(1 / 2 - s) / 4 \<le> c - cos (pi / 6)" by simp
  have root: "1 / 20 \<le> sqrt (?r t)" if "0 \<le> t" "t \<le> 1 / 2" for t
  proof (rule real_le_rsqrt)
    have "\<bar>13 / 400 * t - 91 / 6250\<bar> \<le> 91 / 6250" using that by linarith
    from square_le_of_abs [OF this] show "(1 / 20)\<^sup>2 \<le> ?r t" by (simp add: power2_eq_square)
  qed
  have diff: "?r (1 / 2) - ?r s = 13 / 400 * (1 / 2 - s) * (182 / 6250 - 13 / 800 - 13 / 400 * s)"
    by (simp add: power2_eq_square field_simps)
  have "sqrt (?r (1 / 2)) - sqrt (?r s) \<le> 13 / 400 * ((1 / 2 - s) / 4)"
  proof (cases "?r s \<le> ?r (1 / 2)")
    case True
    have pos: "0 \<le> ?r s" using root [OF s] by (smt (verit) real_sqrt_ge_0_iff zero_le_divide_1_iff)
    have "sqrt (?r (1 / 2)) - sqrt (?r s) \<le> 10 * (?r (1 / 2) - ?r s)"
      using root [OF s] root [of "1 / 2"] True pos by (intro sqrt_diff_le) auto
    also have "\<dots> \<le> 10 * (13 / 400 * (1 / 2 - s) * (1 / 40))"
      unfolding diff using s by (intro mult_left_mono) auto
    finally show ?thesis by simp
  next
    case False
    then have "sqrt (?r (1 / 2)) \<le> sqrt (?r s)" by simp
    moreover have "0 \<le> 13 / 400 * ((1 / 2 - s) / 4)" using s by simp
    ultimately show ?thesis by linarith
  qed
  moreover have "13 / 400 * ((1 / 2 - s) / 4) \<le> 13 / 400 * (c - cos (pi / 6))" using cos by simp
  ultimately have "sqrt (?r (1 / 2)) + 13 / 400 * cos (pi / 6) \<le> sqrt (?r s) + 13 / 400 * c"
    by (simp only: right_diff_distrib)
  then show ?thesis by (simp only: span_def sin_30 sc)
qed

section \<open>Properties\<close>

text \<open>The motor angle at which the crank stands at thirty degrees; the configured range of the
  motors, up to 1.66 rad, lies below it.\<close>

definition knee :: real where
  "knee = SDK_MAX_ANGLE_RAD - pi / 6"

lemma pi_ge_three: "3 \<le> pi"
  using sin_x_le_x [of "pi / 6"] by (simp add: sin_30)

lemma knee_bounds: "1.66 < knee" "knee < SDK_MAX_ANGLE_RAD" "0 \<le> SDK_MAX_ANGLE_RAD"
  using pi_ge_three by (simp_all add: knee_def SDK_MAX_ANGLE_RAD_def)

lemma crank_range: "SDK_MAX_ANGLE_RAD \<le> 5 * pi / 6"
  using pi_ge_three by (simp add: SDK_MAX_ANGLE_RAD_def)

lemma jaw_increasing: "0 \<le> x \<Longrightarrow> x < y \<Longrightarrow> y \<le> knee \<Longrightarrow> sdk_jaw_mm x < sdk_jaw_mm y"
  unfolding sdk_jaw_mm_less_iff using crank_range by (intro span_decreasing) (auto simp: knee_def)

lemma jaw_above_knee: "knee \<le> x \<Longrightarrow> x \<le> SDK_MAX_ANGLE_RAD \<Longrightarrow> sdk_jaw_mm knee \<le> sdk_jaw_mm x"
  using span_left_bound [of "SDK_MAX_ANGLE_RAD - x"] sdk_jaw_mm_less_iff [of x knee]
  by (auto simp: knee_def not_less [symmetric])

lemma jaw_less_iff:
  assumes "0 \<le> \<theta>" and "\<theta> < knee" and "0 \<le> x" and "x \<le> SDK_MAX_ANGLE_RAD"
  shows "sdk_jaw_mm x < sdk_jaw_mm \<theta> \<longleftrightarrow> x < \<theta>"
proof (cases "x \<le> knee")
  case True
  consider "x < \<theta>" | "x = \<theta>" | "\<theta> < x" by linarith
  then show ?thesis using assms True jaw_increasing [of x \<theta>] jaw_increasing [of \<theta> x] by cases auto
next
  case False
  with assms have "sdk_jaw_mm \<theta> < sdk_jaw_mm knee" "sdk_jaw_mm knee \<le> sdk_jaw_mm x"
    using jaw_increasing [of \<theta> knee] jaw_above_knee [of x] by auto
  with False assms show ?thesis by auto
qed

text \<open>Round trip between motor angle and jaw opening: for every angle of the motors' configured range
  the bisection of \<^verbatim>\<open>sdk_jaw_mm_to_rad\<close>, run over the full crank range, gives back the angle to
  within \<open>SDK_MAX_ANGLE_RAD / 2\<^sup>6\<^sup>5\<close>, although the opening is not monotone over that range.\<close>

theorem sdk_jaw_mm_to_rad_inverts:
  assumes "0 \<le> \<theta>" and "\<theta> \<le> 1.66"
  shows "\<bar>sdk_jaw_mm_to_rad (sdk_jaw_mm \<theta>) 0 SDK_MAX_ANGLE_RAD - \<theta>\<bar> \<le> SDK_MAX_ANGLE_RAD / 2 ^ 65"
proof -
  have k: "\<theta> < knee" using assms(2) knee_bounds(1) by linarith
  note iff = jaw_less_iff [OF assms(1) k]
  show ?thesis
  proof (cases "sdk_jaw_mm \<theta> \<le> sdk_jaw_mm 0")
    case True
    then have "\<theta> = 0" using iff [of 0] assms(1) knee_bounds(3) by auto
    then show ?thesis using knee_bounds(3) by (simp add: sdk_jaw_mm_to_rad_def)
  next
    case False
    have "sdk_jaw_mm \<theta> < sdk_jaw_mm knee" using jaw_increasing [OF assms(1) k] by simp
    also have "\<dots> \<le> sdk_jaw_mm SDK_MAX_ANGLE_RAD" using jaw_above_knee knee_bounds(2) by simp
    finally have "sdk_jaw_mm_to_rad (sdk_jaw_mm \<theta>) 0 SDK_MAX_ANGLE_RAD
        = jaw_search (\<lambda>mid. sdk_jaw_mm mid < sdk_jaw_mm \<theta>) 0 SDK_MAX_ANGLE_RAD"
      using False by (simp add: sdk_jaw_mm_to_rad_def)
    moreover have "\<theta> \<le> SDK_MAX_ANGLE_RAD" using k knee_bounds(2) by simp
    ultimately show ?thesis
      using jaw_search_accuracy [of 0 SDK_MAX_ANGLE_RAD _ \<theta>] iff assms(1) by simp
  qed
qed

theorem sdk_jaw_mm_to_rad_inverts_witness:
  "\<bar>sdk_jaw_mm_to_rad (sdk_jaw_mm 1) 0 SDK_MAX_ANGLE_RAD - 1\<bar> \<le> SDK_MAX_ANGLE_RAD / 2 ^ 65"
  using sdk_jaw_mm_to_rad_inverts [of 1] by simp

text \<open>The opening is not monotone over \<open>[0, SDK_MAX_ANGLE_RAD]\<close>, which the comment of
  \<^verbatim>\<open>sdk_jaw_mm_to_rad\<close> claims: near the upper end a larger motor angle is a smaller opening.\<close>

theorem sdk_jaw_mm_not_monotone:
  "\<exists>x y. 0 \<le> x \<and> x < y \<and> y \<le> SDK_MAX_ANGLE_RAD \<and> sdk_jaw_mm y < sdk_jaw_mm x"
proof -
  let ?a = "arcsin (1 / 5)"
  have s: "sin ?a = 1 / 5" and c: "cos ?a = sqrt (24 / 25)"
    by (simp_all add: cos_arcsin power2_eq_square)
  have a: "0 < ?a" "?a \<le> pi / 2" using arcsin_less_arcsin [of 0 "1/5"] arcsin_ubound [of "1/5"] by simp_all
  have "97 / 100 \<le> sqrt (24 / 25 :: real)" by (rule real_le_rsqrt) (simp add: power2_eq_square)
  moreover have "574 / 10000 \<le> sqrt ((29 / 500)\<^sup>2 - (13 / 400 * (1 / 5) - 91 / 6250 :: real)\<^sup>2)"
    by (rule real_le_rsqrt) (simp add: power2_eq_square)
  ultimately have "574 / 10000 + 13 / 400 * (97 / 100) \<le> span ?a"
    unfolding span_def s c by linarith
  moreover have "sqrt ((29 / 500)\<^sup>2 - (91 / 6250 :: real)\<^sup>2) \<le> 562 / 10000"
    by (rule real_le_lsqrt) (simp_all add: power2_eq_square)
  then have "span 0 \<le> 562 / 10000 + 13 / 400" by (simp add: span_def)
  ultimately have "span 0 < span ?a" by simp
  then have "sdk_jaw_mm SDK_MAX_ANGLE_RAD < sdk_jaw_mm (SDK_MAX_ANGLE_RAD - ?a)" by (simp add: sdk_jaw_mm_less_iff)
  moreover have "0 \<le> SDK_MAX_ANGLE_RAD - ?a" using a(2) pi_ge_three unfolding SDK_MAX_ANGLE_RAD_def by simp
  ultimately show ?thesis using a(1) by (intro exI [of _ "SDK_MAX_ANGLE_RAD - ?a"] exI [of _ SDK_MAX_ANGLE_RAD]) simp
qed

end
