(* ===== verification/Gripper.thy ===== *)
theory Gripper
  imports Machines JawGeometry
begin

text \<open>
  \<^verbatim>\<open>policy_runner/gripper.py\<close>: gripper commands, the dry-run backend, the serial backend of the Pika
  grippers with its integrated targets and its rate and deadband gates, the telemetry resync parser
  and the runtime that gates and dispatches commands.

  The vendor SDK is not part of the sources: what a call on its gripper object returns or raises is
  an argument of the operation that makes the call, and the clock readings are arguments too. The
  float value of the jaw opening at a finite angle is the parameter \<open>jaw\<close>; its exact real value is
  the subject of the theory of the jaw geometry.
\<close>

section \<open>Commands and results\<close>

definition REAL_GRIPPER_ENV :: string where
  "REAL_GRIPPER_ENV = ''RB_ALLOW_REAL_GRIPPER''"

definition GRIPPER_EPSILON :: pyfloat where
  "GRIPPER_EPSILON = Fin (1 / 10 ^ 12)"

record GripperCommand =
  gc_arm :: string
  gc_value :: pyfloat
  gc_command_type :: string
  gc_source :: string

definition gripper_command :: "string \<Rightarrow> pyfloat \<Rightarrow> string \<Rightarrow> string \<Rightarrow> GripperCommand res" where
  "gripper_command arm val command_type source =
     (if arm \<notin> {''left'', ''right''} then Inl (ValueError ''gripper command arm must be left or right'')
      else if command_type \<notin> {''delta'', ''target''} then Inl (ValueError ''gripper command_type must be delta or target'')
      else Inr \<lparr>gc_arm = arm, gc_value = val, gc_command_type = command_type, gc_source = source\<rparr>)"

definition is_nonzero :: "GripperCommand \<Rightarrow> bool" where
  "is_nonzero c = (GRIPPER_EPSILON < fabs (gc_value c))"

definition command_to_dict :: "GripperCommand \<Rightarrow> pydict" where
  "command_to_dict c = [(''arm'', PStr (gc_arm c)), (''value'', PFloat (gc_value c)),
     (''command_type'', PStr (gc_command_type c)), (''source'', PStr (gc_source c))]"

record GripperDispatchResult =
  dr_command :: GripperCommand
  dr_accepted :: bool
  dr_sent_to_physical :: bool
  dr_dropped :: bool
  dr_reason :: string

definition dispatch_result :: "GripperCommand \<Rightarrow> bool \<Rightarrow> bool \<Rightarrow> bool \<Rightarrow> string \<Rightarrow> GripperDispatchResult" where
  "dispatch_result c accepted sent dropped reason =
     \<lparr>dr_command = c, dr_accepted = accepted, dr_sent_to_physical = sent, dr_dropped = dropped, dr_reason = reason\<rparr>"

record NoopGripperBackend =
  nb_reason :: string
  nb_supports_controller_simulation :: bool
  nb_commands :: "GripperCommand list"

definition noop_send :: "NoopGripperBackend \<Rightarrow> GripperCommand \<Rightarrow> NoopGripperBackend \<times> GripperDispatchResult" where
  "noop_send b c = (b\<lparr>nb_commands := nb_commands b @ [c]\<rparr>, dispatch_result c False False True (nb_reason b))"

section \<open>Telemetry framing\<close>

text \<open>\<^verbatim>\<open>s.find(m, k)\<close>.\<close>

fun find_sub :: "string \<Rightarrow> string \<Rightarrow> nat option" where
  "find_sub m [] = (if m = [] then Some 0 else None)"
| "find_sub m (c # s) = (if startswith (c # s) m then Some 0 else map_option Suc (find_sub m s))"

definition py_find :: "string \<Rightarrow> string \<Rightarrow> nat \<Rightarrow> nat option" where
  "py_find s m k = (if length s < k then None else map_option (\<lambda>i. k + i) (find_sub m (drop k s)))"

definition PIKA_FRAME_MARK :: string where
  "PIKA_FRAME_MARK = [CHR 0x7B, CHR 0x0D, CHR 0x0A, CHR 0x22] @ ''motor'' @ [CHR 0x22, CHR 0x3A]"

text \<open>The brace count of the inner loop: the index at which a closing brace brings the depth to zero.\<close>

fun close_at :: "int \<Rightarrow> string \<Rightarrow> nat option" where
  "close_at depth [] = None"
| "close_at depth (c # s) =
     (if c = CHR 0x7B then map_option Suc (close_at (depth + 1) s)
      else if c = CHR 0x7D then (if depth - 1 = 0 then Some 0 else map_option Suc (close_at (depth - 1) s))
      else map_option Suc (close_at depth s))"

text \<open>\<^verbatim>\<open>_PIKA_TRAILING_COMMA.sub(r"\1", raw)\<close>: a comma before a closing bracket goes, with the white
  space between them.\<close>

function strip_trailing_commas :: "string \<Rightarrow> string" where
  "strip_trailing_commas [] = []"
| "strip_trailing_commas (c # s) =
     (if c = CHR 0x2C
      then (case dropWhile is_space s of
              [] \<Rightarrow> c # strip_trailing_commas s
            | b # r \<Rightarrow> if b = CHR 0x7D \<or> b = CHR 0x5D then b # strip_trailing_commas r
                        else c # strip_trailing_commas s)
      else c # strip_trailing_commas s)"
  by pat_completeness auto
termination
proof (relation "measure length")
  fix c :: char and s b r
  assume "dropWhile is_space s = b # r"
  then show "(r, c # s) \<in> measure length"
    using length_dropWhile_le [of is_space s] by simp
qed auto

lemma find_sub_bound: "find_sub m s = Some i \<Longrightarrow> i + length m \<le> length s"
proof (induction s arbitrary: i)
  case (Cons c s)
  show ?case
  proof (cases "startswith (c # s) m")
    case True
    then have "length (take (length m) (c # s)) = length m" unfolding startswith_def by (rule arg_cong)
    with True Cons.prems show ?thesis by simp
  next
    case False
    with Cons show ?thesis by auto
  qed
qed (simp split: if_splits)

lemma close_at_bound: "close_at d s = Some i \<Longrightarrow> i < length s"
  by (induction d s arbitrary: i rule: close_at.induct) (auto split: if_splits)

text \<open>\<^verbatim>\<open>_find_json_resync\<close>: the buffer that is left and the parsed frame. \<open>loads\<close> is \<^verbatim>\<open>json.loads\<close>, with
  \<open>None\<close> for an exception.\<close>

function find_json_resync :: "(string \<Rightarrow> pyval option) \<Rightarrow> string \<Rightarrow> string \<times> pyval option" where
  "find_json_resync loads buffer =
     (case py_find buffer PIKA_FRAME_MARK 0 of
        None \<Rightarrow> (if 4096 < length buffer then drop (length buffer - 512) buffer else buffer, None)
      | Some start \<Rightarrow>
          (case close_at 0 (drop start buffer) of
             None \<Rightarrow>
               (case py_find buffer PIKA_FRAME_MARK (start + 1) of
                  None \<Rightarrow> (buffer, None)
                | Some nxt \<Rightarrow> find_json_resync loads (drop nxt buffer))
           | Some k \<Rightarrow>
               (case loads (strip_trailing_commas (take (k + 1) (drop start buffer))) of
                  Some v \<Rightarrow> (drop (start + k + 1) buffer, Some v)
                | None \<Rightarrow> find_json_resync loads (drop (start + k + 1) buffer))))"
  by pat_completeness auto
termination
  by (relation "measure (\<lambda>(_, b). length b)")
     (auto simp: py_find_def PIKA_FRAME_MARK_def dest!: find_sub_bound close_at_bound split: if_splits)

declare find_json_resync.simps [simp del]

section \<open>Jaw units\<close>

text \<open>The double \<^verbatim>\<open>math.pi\<close> and the upper crank angle computed from it.\<close>

definition math_pi :: rat where
  "math_pi = 884279719003555 / 281474976710656"

definition sdk_max_angle :: rat where
  "sdk_max_angle = (180 - 4399 / 100) / 180 * math_pi"

text \<open>\<^verbatim>\<open>math.sin\<close> and \<^verbatim>\<open>math.cos\<close> raise on an infinity and pass NaN through.\<close>

fun jaw_mm :: "(rat \<Rightarrow> rat) \<Rightarrow> pyfloat \<Rightarrow> pyfloat res" where
  "jaw_mm jaw (Fin a) = Inr (Fin (jaw a))"
| "jaw_mm jaw NaN = Inr NaN"
| "jaw_mm jaw x = Inl (ValueError ''math domain error'')"

definition jaw_mm_to_rad :: "(rat \<Rightarrow> rat) \<Rightarrow> pyfloat \<Rightarrow> rat \<Rightarrow> rat \<Rightarrow> rat" where
  "jaw_mm_to_rad jaw target lo hi =
     (if target \<le> Fin (jaw lo) then lo
      else if Fin (jaw hi) \<le> target then hi
      else jaw_search (\<lambda>mid. Fin (jaw mid) < target) lo hi)"

section \<open>The serial backend\<close>

definition GRIPPER_UNITS :: "string list" where
  "GRIPPER_UNITS = [''sdk_mm'', ''motor_fraction'']"

text \<open>\<open>pk_grippers\<close> lists the arms whose gripper object is connected.\<close>

record PikaBackend =
  pk_ports :: "(string \<times> string) list"
  pk_min_rad :: pyfloat
  pk_max_rad :: pyfloat
  pk_units :: string
  pk_deadband_rad :: pyfloat
  pk_min_period_sec :: pyfloat
  pk_supports_controller_simulation :: bool
  pk_home_on_connect :: bool
  pk_enable_settle_sec :: pyfloat
  pk_home_timeout_sec :: pyfloat
  pk_home_settle_eps_rad :: pyfloat
  pk_home_poll_sec :: pyfloat
  pk_home_max_current_ma :: pyfloat
  pk_grippers :: "string list"
  pk_targets :: "(string \<times> pyfloat) list"
  pk_last_sent :: "(string \<times> pyfloat \<times> pyfloat) list"
  pk_sample_time :: "(string \<times> pyfloat) list"
  pk_home_suspect :: "(string \<times> pyfloat) list"

text \<open>The constructor's arguments are given as a backend record, whose run-time fields and period are
  not read, and \<^verbatim>\<open>max_hz\<close>.\<close>

definition pika_init :: "PikaBackend \<Rightarrow> pyfloat \<Rightarrow> PikaBackend res" where
  "pika_init args max_hz =
     (if pk_max_rad args \<le> pk_min_rad args then Inl (ValueError ''gripper max_rad must be greater than min_rad'')
      else if pk_units args \<notin> set GRIPPER_UNITS then Inl (ValueError
        (''gripper units must be one of ('' @ join '', '' (map repr_str GRIPPER_UNITS) @ ''), got '' @ repr_str (pk_units args)))
      else if pk_deadband_rad args < 0 then Inl (ValueError ''gripper deadband_rad must be non-negative'')
      else if \<not> list_all (\<lambda>p. fst p \<in> {''left'', ''right''}) (pk_ports args)
        then Inl (ValueError ''gripper port arms must be left or right'')
      else res_bind (if 0 < max_hz then fdiv 1 max_hz else Inr 0) (\<lambda>period.
        Inr (args\<lparr>pk_min_period_sec := period, pk_enable_settle_sec := pymax 0 (pk_enable_settle_sec args),
          pk_grippers := [], pk_targets := [], pk_last_sent := [], pk_sample_time := [], pk_home_suspect := []\<rparr>)))"

definition clamp_rad :: "PikaBackend \<Rightarrow> pyfloat \<Rightarrow> pyfloat" where
  "clamp_rad s x = pymax (pk_min_rad s) (pymin (pk_max_rad s) x)"

text \<open>\<open>position\<close> is the outcome of \<^verbatim>\<open>float(gripper.get_motor_position())\<close>.\<close>

definition seed_target :: "PikaBackend \<Rightarrow> pyfloat res \<Rightarrow> pyfloat" where
  "seed_target s position = clamp_rad s (case position of Inl _ \<Rightarrow> pk_min_rad s | Inr x \<Rightarrow> x)"

definition units_to_rad :: "(rat \<Rightarrow> rat) \<Rightarrow> PikaBackend \<Rightarrow> pyfloat \<Rightarrow> pyfloat res" where
  "units_to_rad jaw s x =
     (if pk_units s = ''sdk_mm'' then Inr (Fin (jaw_mm_to_rad jaw x 0 sdk_max_angle))
      else res_bind (fdiv ((pk_max_rad s - pk_min_rad s) * x) (Fin 100)) (\<lambda>y. Inr (pk_min_rad s + y)))"

definition rad_to_units :: "(rat \<Rightarrow> rat) \<Rightarrow> PikaBackend \<Rightarrow> pyfloat \<Rightarrow> pyfloat res" where
  "rad_to_units jaw s rad =
     (if pk_units s = ''sdk_mm'' then jaw_mm jaw rad
      else res_bind (fdiv (rad - pk_min_rad s) (pk_max_rad s - pk_min_rad s)) (\<lambda>y. Inr (y * Fin 100)))"

definition current_percent :: "(rat \<Rightarrow> rat) \<Rightarrow> PikaBackend \<Rightarrow> string \<Rightarrow> pyfloat res \<Rightarrow> pyfloat option" where
  "current_percent jaw s arm position =
     (if arm \<notin> set (pk_grippers s) then None
      else case res_bind position (rad_to_units jaw s) of Inl _ \<Rightarrow> None | Inr x \<Rightarrow> Some x)"

definition motor_current_ma :: "PikaBackend \<Rightarrow> string \<Rightarrow> pyfloat res \<Rightarrow> pyfloat option" where
  "motor_current_ma s arm current =
     (if arm \<notin> set (pk_grippers s) then None else case current of Inl _ \<Rightarrow> None | Inr x \<Rightarrow> Some x)"

definition target_units :: "(rat \<Rightarrow> rat) \<Rightarrow> PikaBackend \<Rightarrow> string \<Rightarrow> pyfloat option res" where
  "target_units jaw s arm =
     (case map_of (pk_targets s) arm of None \<Rightarrow> Inr None
      | Some rad \<Rightarrow> res_bind (rad_to_units jaw s rad) (\<lambda>x. Inr (Some x)))"

text \<open>The stamping wrapper around the SDK's callback, and the age read from it.\<close>

definition stamp_frame :: "PikaBackend \<Rightarrow> string \<Rightarrow> pyval \<Rightarrow> pyfloat \<Rightarrow> PikaBackend" where
  "stamp_frame s arm data now =
     (if is_dict data \<and> map_of (as_dict data) ''motor'' \<noteq> None
      then s\<lparr>pk_sample_time := dset (pk_sample_time s) arm now\<rparr> else s)"

definition sample_age_sec :: "PikaBackend \<Rightarrow> string \<Rightarrow> pyfloat \<Rightarrow> pyfloat option" where
  "sample_age_sec s arm now =
     (case map_of (pk_sample_time s) arm of None \<Rightarrow> None
      | Some stamp \<Rightarrow> let age = now - stamp in Some (if 0 \<le> age then age else 0))"

text \<open>What the world does during one \<^verbatim>\<open>send\<close>: the clock reading and the SDK's \<^verbatim>\<open>set_motor_angle\<close>.\<close>

record SendIo =
  si_now :: pyfloat
  si_set_motor_angle :: "pyfloat \<Rightarrow> bool res"

text \<open>The new target in radians, before the write gates.\<close>

definition next_target :: "(rat \<Rightarrow> rat) \<Rightarrow> PikaBackend \<Rightarrow> GripperCommand \<Rightarrow> pyfloat res" where
  "next_target jaw s c =
     res_bind (if gc_command_type c = ''target'' then Inr (gc_value c)
               else res_bind (rad_to_units jaw s (case map_of (pk_targets s) (gc_arm c) of None \<Rightarrow> pk_min_rad s | Some t \<Rightarrow> t))
                      (\<lambda>u. Inr (u + gc_value c))) (\<lambda>units.
     res_bind (units_to_rad jaw s units) (\<lambda>rad. Inr (clamp_rad s rad)))"

text \<open>The rate limit and the deadband, by which a write is held back.\<close>

definition write_held :: "PikaBackend \<Rightarrow> string \<Rightarrow> pyfloat \<Rightarrow> pyfloat \<Rightarrow> string option" where
  "write_held s arm now target =
     (case map_of (pk_last_sent s) arm of
        None \<Rightarrow> None
      | Some (last_time, last_rad) \<Rightarrow>
          if 0 < pk_min_period_sec s \<and> now - last_time < pk_min_period_sec s then Some ''gripper_rate_limited''
          else if fabs (target - last_rad) < pk_deadband_rad s then Some ''gripper_deadband_hold''
          else None)"

definition pika_send :: "(rat \<Rightarrow> rat) \<Rightarrow> PikaBackend \<Rightarrow> SendIo \<Rightarrow> GripperCommand \<Rightarrow> (PikaBackend \<times> GripperDispatchResult) res" where
  "pika_send jaw s io c =
     (let arm = gc_arm c in
      if arm \<notin> set (pk_grippers s) then Inr (s, dispatch_result c False False True ''gripper_arm_not_connected'')
      else res_bind (next_target jaw s c) (\<lambda>target.
        let s1 = s\<lparr>pk_targets := dset (pk_targets s) arm target\<rparr>; now = si_now io
        in case write_held s1 arm now target of
             Some reason \<Rightarrow> Inr (s1, dispatch_result c True False False reason)
           | None \<Rightarrow>
               (case si_set_motor_angle io target of
                  Inl e \<Rightarrow> Inr (s1, dispatch_result c False False True (''gripper_serial_error:'' @ exc_str e))
                | Inr ok \<Rightarrow>
                    if \<not> ok then Inr (s1, dispatch_result c False False True ''gripper_command_rejected'')
                    else Inr (s1\<lparr>pk_last_sent := dset (pk_last_sent s1) arm (now, target)\<rparr>,
                              dispatch_result c True True False ''gripper_position_sent''))))"

definition pika_close :: "PikaBackend \<Rightarrow> PikaBackend" where
  "pika_close s = s\<lparr>pk_grippers := []\<rparr>"

subsection \<open>Homing and connecting\<close>

text \<open>\<^verbatim>\<open>_wait_until_settled\<close>: \<open>clock i\<close> is the reading of the loop condition and \<open>pos i\<close> the position read in
  the \<open>i\<close>-th round; the result is the number of positions read.\<close>

partial_function (option) settle_loop ::
  "pyfloat \<Rightarrow> pyfloat \<Rightarrow> (nat \<Rightarrow> pyfloat) \<Rightarrow> (nat \<Rightarrow> pyfloat res) \<Rightarrow> nat \<Rightarrow> pyfloat option \<Rightarrow> nat option" where
  "settle_loop eps deadline clock pos i lst =
     (if \<not> clock i < deadline then Some i
      else case pos i of
             Inl _ \<Rightarrow> Some (Suc i)
           | Inr p \<Rightarrow> (if lst \<noteq> None \<and> fabs (p - the lst) < eps then Some (Suc i)
                       else settle_loop eps deadline clock pos (Suc i) (Some p)))"

definition wait_until_settled :: "PikaBackend \<Rightarrow> pyfloat \<Rightarrow> (nat \<Rightarrow> pyfloat) \<Rightarrow> (nat \<Rightarrow> pyfloat res) \<Rightarrow> nat option" where
  "wait_until_settled s start_time clock pos =
     settle_loop (pk_home_settle_eps_rad s) (start_time + pk_home_timeout_sec s) clock pos 0 None"

record HomeIo =
  ho_drive :: "unit res"
  ho_start :: pyfloat
  ho_clock :: "nat \<Rightarrow> pyfloat"
  ho_position :: "nat \<Rightarrow> pyfloat res"
  ho_current :: "pyfloat res"
  ho_has_set_zero :: bool
  ho_set_zero :: "unit res"

definition note_current :: "PikaBackend \<Rightarrow> string \<Rightarrow> pyfloat option \<Rightarrow> PikaBackend" where
  "note_current s arm current =
     (case current of
        Some x \<Rightarrow> if pk_home_max_current_ma s < fabs x then s\<lparr>pk_home_suspect := dset (pk_home_suspect s) arm x\<rparr>
                  else s\<lparr>pk_home_suspect := ddel (pk_home_suspect s) arm\<rparr>
      | None \<Rightarrow> s\<lparr>pk_home_suspect := ddel (pk_home_suspect s) arm\<rparr>)"

text \<open>\<^verbatim>\<open>_home_one\<close>; \<open>None\<close> is a homing thread that never ends.\<close>

definition home_one :: "PikaBackend \<Rightarrow> string \<Rightarrow> HomeIo \<Rightarrow> PikaBackend option" where
  "home_one s arm io =
     (case ho_drive io of
        Inl _ \<Rightarrow> Some s
      | Inr _ \<Rightarrow>
          (case wait_until_settled s (ho_start io) (ho_clock io) (ho_position io) of
             None \<Rightarrow> None
           | Some _ \<Rightarrow>
               let s1 = note_current s arm (motor_current_ma s arm (ho_current io))
               in case (if ho_has_set_zero io then ho_set_zero io else Inr ()) of
                    Inl _ \<Rightarrow> Some s1
                  | Inr _ \<Rightarrow> Some (s1\<lparr>pk_targets := dset (pk_targets s1) arm (pk_min_rad s1),
                                       pk_last_sent := ddel (pk_last_sent s1) arm\<rparr>)))"

text \<open>\<^verbatim>\<open>_home_all_concurrent\<close>: the threads touch different keys, so they are run one after the other; a
  thread that does not end is abandoned by the timed join and has changed nothing.\<close>

definition home_all :: "PikaBackend \<Rightarrow> (string \<Rightarrow> HomeIo) \<Rightarrow> PikaBackend" where
  "home_all s io = foldl (\<lambda>s arm. case home_one s arm (io arm) of None \<Rightarrow> s | Some s' \<Rightarrow> s') s (pk_grippers s)"

record ConnectIo =
  co_exists :: bool
  co_connect :: "bool res"
  co_link :: "string option"
  co_enable :: "bool res"
  co_enabled_at :: pyfloat
  co_position :: "pyfloat res"

fun connect_arms :: "PikaBackend \<Rightarrow> (string \<Rightarrow> ConnectIo) \<Rightarrow> pyfloat \<Rightarrow> (string \<times> string) list \<Rightarrow> PikaBackend \<times> pyfloat res" where
  "connect_arms s io last_enable [] = (s, Inr last_enable)"
| "connect_arms s io last_enable ((arm, port) # ports) =
     (case co_connect (io arm) of
        Inl e \<Rightarrow> (s, Inl e)
      | Inr False \<Rightarrow> (pika_close s, Inl (RuntimeError (''pika gripper '' @ arm @ '' connect failed on '' @
            (case co_link (io arm) of None \<Rightarrow> port | Some dest \<Rightarrow> port @ '' -> '' @ dest))))
      | Inr True \<Rightarrow>
          (case co_enable (io arm) of
             Inl e \<Rightarrow> (s, Inl e)
           | Inr False \<Rightarrow> (pika_close s, Inl (RuntimeError (''pika gripper '' @ arm @ '' enable failed on '' @ port)))
           | Inr True \<Rightarrow>
               connect_arms
                 (s\<lparr>pk_grippers := (if arm \<in> set (pk_grippers s) then pk_grippers s else pk_grippers s @ [arm]),
                    pk_targets := dset (pk_targets s) arm (seed_target s (co_position (io arm)))\<rparr>)
                 io (co_enabled_at (io arm)) ports))"

text \<open>\<^verbatim>\<open>connect\<close>: \<open>injected\<close> tells that a gripper class was passed in, \<open>before\<close> and \<open>after\<close> are the clock
  readings around the arms. The result is the time slept at the end.\<close>

definition await_enable_settle :: "PikaBackend \<Rightarrow> pyfloat \<Rightarrow> pyfloat \<Rightarrow> pyfloat" where
  "await_enable_settle s last_enable now =
     (let remaining = pk_enable_settle_sec s - (now - last_enable) in if 0 < remaining then remaining else 0)"

definition pika_connect ::
  "PikaBackend \<Rightarrow> bool \<Rightarrow> (string \<Rightarrow> ConnectIo) \<Rightarrow> (string \<Rightarrow> HomeIo) \<Rightarrow> pyfloat \<Rightarrow> pyfloat \<Rightarrow> PikaBackend \<times> pyfloat res" where
  "pika_connect s injected io hio before after =
     (case (if injected then None else find (\<lambda>p. \<not> co_exists (io (fst p))) (pk_ports s)) of
        Some (arm, port) \<Rightarrow> (pika_close s, Inl (RuntimeError (''pika gripper '' @ arm @ '' serial port not found: '' @ port)))
      | None \<Rightarrow>
          (case connect_arms s io before (pk_ports s) of
             (s1, Inl e) \<Rightarrow> (s1, Inl e)
           | (s1, Inr last_enable) \<Rightarrow>
               if pk_home_on_connect s1 \<and> pk_grippers s1 \<noteq> [] then (home_all s1 hio, Inr 0)
               else if pk_grippers s1 \<noteq> [] then (s1, Inr (await_enable_settle s1 last_enable after))
               else (s1, Inr 0)))"

section \<open>The runtime\<close>

record 'b GripperRuntime =
  gr_rollout_mode :: string
  gr_allow_real_gripper_motion :: bool
  gr_backend :: 'b
  gr_env :: "(string \<times> string) list"
  gr_command_count :: nat
  gr_dropped_count :: nat
  gr_results :: "GripperDispatchResult list"

definition gate_drop :: "GripperCommand \<Rightarrow> string \<Rightarrow> GripperDispatchResult" where
  "gate_drop c reason = dispatch_result c False False True reason"

definition gripper_gate :: "('b \<Rightarrow> bool) \<Rightarrow> 'b GripperRuntime \<Rightarrow> GripperCommand \<Rightarrow> GripperDispatchResult option" where
  "gripper_gate supports rt c =
     (let mode = py_lower (py_strip (gr_rollout_mode rt)) in
      if mode = ''real_policy''
      then if \<not> gr_allow_real_gripper_motion rt then Some (gate_drop c ''real_gripper_config_not_allowed'')
           else if map_of (gr_env rt) REAL_GRIPPER_ENV \<noteq> Some ''1'' then Some (gate_drop c ''real_gripper_env_missing'')
           else None
      else if mode = ''controller_sim''
      then if supports (gr_backend rt) then None else Some (gate_drop c ''controller_sim_gripper_logged_noop'')
      else if mode \<in> {''offline_eval'', ''sim_dryrun'', ''real_readonly''} then Some (gate_drop c (mode @ ''_gripper_logged_noop''))
      else Some (gate_drop c ''gripper_backend_not_configured''))"

text \<open>A command object of a call: its identity (\<^verbatim>\<open>id(cmd)\<close>), what the world does while it is sent, and
  its value. The plan keeps the results of the gate and the objects to send, in order.\<close>

type_synonym 'i cmdobj = "nat \<times> 'i \<times> GripperCommand"

datatype 'i plan_item = PlanResult GripperDispatchResult | PlanSend "'i cmdobj"

fun plan_commands :: "('b \<Rightarrow> bool) \<Rightarrow> 'b GripperRuntime \<Rightarrow> 'i cmdobj list \<Rightarrow> 'b GripperRuntime \<times> 'i plan_item list" where
  "plan_commands supports rt [] = (rt, [])"
| "plan_commands supports rt ((oid, i, c) # cs) =
     (if gc_command_type c = ''delta'' \<and> \<not> is_nonzero c then plan_commands supports rt cs
      else let rt1 = rt\<lparr>gr_command_count := gr_command_count rt + 1\<rparr> in
        case gripper_gate supports rt1 c of
          Some d \<Rightarrow> (let (rt2, p) = plan_commands supports (rt1\<lparr>gr_dropped_count := gr_dropped_count rt1 + 1\<rparr>) cs
                    in (rt2, PlanResult d # p))
        | None \<Rightarrow> (let (rt2, p) = plan_commands supports rt1 cs in (rt2, PlanSend (oid, i, c) # p)))"

fun send_items :: "'i plan_item list \<Rightarrow> 'i cmdobj list" where
  "send_items [] = []"
| "send_items (PlanSend x # p) = x # send_items p"
| "send_items (PlanResult _ # p) = send_items p"

text \<open>The sends: one after the other, where an exception ends the call, or one thread per command in the
  order the scheduler runs them, where an exception only loses that thread's result.\<close>

fun send_sequential :: "('b \<Rightarrow> 'i \<Rightarrow> GripperCommand \<Rightarrow> ('b \<times> GripperDispatchResult) res) \<Rightarrow> 'b
    \<Rightarrow> (nat \<times> GripperDispatchResult) list \<Rightarrow> 'i cmdobj list \<Rightarrow> 'b \<times> (nat \<times> GripperDispatchResult) list res" where
  "send_sequential snd_fn b sent [] = (b, Inr sent)"
| "send_sequential snd_fn b sent ((oid, i, c) # cs) =
     (case snd_fn b i c of Inl e \<Rightarrow> (b, Inl e)
      | Inr (b', r) \<Rightarrow> send_sequential snd_fn b' (dset sent oid r) cs)"

fun send_threads :: "('b \<Rightarrow> 'i \<Rightarrow> GripperCommand \<Rightarrow> ('b \<times> GripperDispatchResult) res) \<Rightarrow> 'b
    \<Rightarrow> (nat \<times> GripperDispatchResult) list \<Rightarrow> 'i cmdobj list \<Rightarrow> 'b \<times> (nat \<times> GripperDispatchResult) list" where
  "send_threads snd_fn b sent [] = (b, sent)"
| "send_threads snd_fn b sent ((oid, i, c) # cs) =
     (case snd_fn b i c of Inl e \<Rightarrow> send_threads snd_fn b sent cs
      | Inr (b', r) \<Rightarrow> send_threads snd_fn b' (dset sent oid r) cs)"

fun collect_results :: "(nat \<times> GripperDispatchResult) list \<Rightarrow> 'b GripperRuntime \<Rightarrow> 'i plan_item list
    \<Rightarrow> 'b GripperRuntime \<times> GripperDispatchResult list res" where
  "collect_results sent rt [] = (rt, Inr [])"
| "collect_results sent rt (PlanResult r # p) =
     (case collect_results sent (rt\<lparr>gr_results := gr_results rt @ [r]\<rparr>) p of
        (rt', Inl e) \<Rightarrow> (rt', Inl e) | (rt', Inr rs) \<Rightarrow> (rt', Inr (r # rs)))"
| "collect_results sent rt (PlanSend (oid, i, c) # p) =
     (case map_of sent oid of
        None \<Rightarrow> (rt, Inl (KeyError (nat_str oid)))
      | Some r \<Rightarrow>
          (case collect_results sent (rt\<lparr>gr_dropped_count := gr_dropped_count rt + (if dr_dropped r then 1 else 0),
                                         gr_results := gr_results rt @ [r]\<rparr>) p of
             (rt', Inl e) \<Rightarrow> (rt', Inl e) | (rt', Inr rs) \<Rightarrow> (rt', Inr (r # rs))))"

definition dispatch :: "('b \<Rightarrow> 'i \<Rightarrow> GripperCommand \<Rightarrow> ('b \<times> GripperDispatchResult) res) \<Rightarrow> ('b \<Rightarrow> bool)
    \<Rightarrow> bool \<Rightarrow> ('i cmdobj list \<Rightarrow> 'i cmdobj list) \<Rightarrow> 'i cmdobj list \<Rightarrow> 'b GripperRuntime
    \<Rightarrow> 'b GripperRuntime \<times> GripperDispatchResult list res" where
  "dispatch snd_fn supports concurrent sched cs rt =
     (let (rt1, plan) = plan_commands supports rt cs; sends = send_items plan in
      if concurrent \<and> 1 < length sends
      then (let (b, sent) = send_threads snd_fn (gr_backend rt1) [] (sched sends)
            in collect_results sent (rt1\<lparr>gr_backend := b\<rparr>) plan)
      else (case send_sequential snd_fn (gr_backend rt1) [] sends of
              (b, Inl e) \<Rightarrow> (rt1\<lparr>gr_backend := b\<rparr>, Inl e)
            | (b, Inr sent) \<Rightarrow> collect_results sent (rt1\<lparr>gr_backend := b\<rparr>) plan))"

definition latest_reason :: "'b GripperRuntime \<Rightarrow> string option" where
  "latest_reason rt = (if gr_results rt = [] then None else Some (dr_reason (last (gr_results rt))))"

text \<open>\<^verbatim>\<open>gripper_commands_from_flow_step\<close>.\<close>

definition flow_arm :: "pyval list \<Rightarrow> pyval list \<Rightarrow> string \<Rightarrow> string \<Rightarrow> nat \<Rightarrow> nat \<Rightarrow> string \<Rightarrow> GripperCommand list res" where
  "flow_arm vals arm_mask command_type source i j arm =
     (if i < length vals \<and> j < length arm_mask
      then res_bind (py_float (arm_mask ! j)) (\<lambda>m.
        if 0 < m then res_bind (py_float (vals ! i)) (\<lambda>v. res_bind (gripper_command arm v command_type source) (\<lambda>c. Inr [c]))
        else Inr [])
      else Inr [])"

definition gripper_commands_from_flow_step :: "pyval list \<Rightarrow> pyval list \<Rightarrow> string \<Rightarrow> string \<Rightarrow> GripperCommand list res" where
  "gripper_commands_from_flow_step vals arm_mask command_type source =
     res_bind (flow_arm vals arm_mask command_type source 6 0 ''left'') (\<lambda>l.
     res_bind (flow_arm vals arm_mask command_type source 13 1 ''right'') (\<lambda>r. Inr (l @ r)))"

section \<open>Targets stay in range\<close>

definition in_range :: "PikaBackend \<Rightarrow> pyfloat \<Rightarrow> bool" where
  "in_range s x = (\<exists>q. x = Fin q \<and> pk_min_rad s \<le> x \<and> x \<le> pk_max_rad s)"

text \<open>The invariant of a backend configured with finite limits.\<close>

definition pika_ok :: "PikaBackend \<Rightarrow> bool" where
  "pika_ok s = (isfinite (pk_min_rad s) \<and> isfinite (pk_max_rad s) \<and> pk_min_rad s < pk_max_rad s
     \<and> (\<forall>a t. map_of (pk_targets s) a = Some t \<longrightarrow> in_range s t))"

definition config_of :: "PikaBackend \<Rightarrow> PikaBackend" where
  "config_of s = s\<lparr>pk_grippers := [], pk_targets := [], pk_last_sent := [], pk_sample_time := [], pk_home_suspect := []\<rparr>"

lemma config_of_fields:
  assumes "config_of s = config_of t"
  shows "pk_min_rad s = pk_min_rad t" "pk_max_rad s = pk_max_rad t" "pk_units s = pk_units t"
    "pk_deadband_rad s = pk_deadband_rad t" "pk_min_period_sec s = pk_min_period_sec t"
    "pk_home_on_connect s = pk_home_on_connect t" "pk_ports s = pk_ports t"
  using arg_cong [OF assms, of pk_min_rad] arg_cong [OF assms, of pk_max_rad] arg_cong [OF assms, of pk_units]
    arg_cong [OF assms, of pk_deadband_rad] arg_cong [OF assms, of pk_min_period_sec]
    arg_cong [OF assms, of pk_home_on_connect] arg_cong [OF assms, of pk_ports]
  by (simp_all add: config_of_def)

lemma config_of_updates [simp]:
  "config_of (s\<lparr>pk_targets := ts\<rparr>) = config_of s"
  "config_of (s\<lparr>pk_last_sent := ls\<rparr>) = config_of s"
  "config_of (s\<lparr>pk_grippers := gs\<rparr>) = config_of s"
  "config_of (s\<lparr>pk_sample_time := st\<rparr>) = config_of s"
  "config_of (s\<lparr>pk_home_suspect := hs\<rparr>) = config_of s"
  by (simp_all add: config_of_def)

lemma pika_okE:
  assumes "pika_ok s"
  obtains lo hi where "pk_min_rad s = Fin lo" "pk_max_rad s = Fin hi" "lo < hi"
  using assms by (auto simp: pika_ok_def isfinite_def split: pyfloat.splits)

lemma in_range_config: "config_of s = config_of t \<Longrightarrow> in_range s = in_range t"
  by (frule config_of_fields(1), drule config_of_fields(2)) (simp add: in_range_def fun_eq_iff)

text \<open>Whatever is clamped, NaN and the infinities included, lands between the limits.\<close>

lemma clamp_in_range: "pika_ok s \<Longrightarrow> in_range s (clamp_rad s x)"
  by (erule pika_okE, cases x) (auto simp: in_range_def clamp_rad_def pymax_def pymin_def)

lemma clamp_nan: "pika_ok s \<Longrightarrow> clamp_rad s NaN = pk_max_rad s"
  by (erule pika_okE) (simp add: clamp_rad_def pymax_def pymin_def)

lemma pika_ok_targets:
  assumes "pika_ok s" and "config_of t = config_of s" and "\<And>a x. map_of (pk_targets t) a = Some x \<Longrightarrow> in_range s x"
  shows "pika_ok t"
  using assms config_of_fields [OF assms(2)] in_range_config [OF assms(2)] by (auto simp: pika_ok_def)

lemma rad_to_units_total: "pika_ok s \<Longrightarrow> in_range s x \<Longrightarrow> \<exists>y. rad_to_units jaw s x = Inr y"
  by (erule pika_okE) (auto simp: in_range_def rad_to_units_def)

lemma units_to_rad_total: "\<exists>y. units_to_rad jaw s x = Inr y"
  by (simp add: units_to_rad_def)

lemma min_in_range: "pika_ok s \<Longrightarrow> in_range s (pk_min_rad s)"
  by (erule pika_okE) (simp add: in_range_def)

lemma next_target_total:
  assumes "pika_ok s"
  shows "\<exists>t. next_target jaw s c = Inr t \<and> in_range s t"
proof -
  let ?cur = "case map_of (pk_targets s) (gc_arm c) of None \<Rightarrow> pk_min_rad s | Some t \<Rightarrow> t"
  have "in_range s ?cur" using assms min_in_range by (auto simp: pika_ok_def split: option.split)
  from rad_to_units_total [OF assms this, of jaw] obtain u where u: "rad_to_units jaw s ?cur = Inr u" ..
  define v where "v = (if gc_command_type c = ''target'' then gc_value c else u + gc_value c)"
  obtain y where y: "units_to_rad jaw s v = Inr y" using units_to_rad_total by blast
  have "next_target jaw s c = Inr (clamp_rad s y)"
    using u y by (cases "gc_command_type c = ''target''") (simp_all add: next_target_def v_def)
  with clamp_in_range [OF assms] show ?thesis by blast
qed

text \<open>The result of a send is consistent: dropped is the opposite of accepted, and only accepted
  commands are sent.\<close>

definition result_ok :: "GripperCommand \<Rightarrow> GripperDispatchResult \<Rightarrow> bool" where
  "result_ok c r = (dr_command r = c \<and> dr_dropped r = (\<not> dr_accepted r) \<and> (dr_sent_to_physical r \<longrightarrow> dr_accepted r))"

text \<open>One send: the arm is not connected and nothing changes, or the target advances and the write is
  held back, fails, or succeeds and is remembered.\<close>

definition send_effect :: "(rat \<Rightarrow> rat) \<Rightarrow> PikaBackend \<Rightarrow> SendIo \<Rightarrow> GripperCommand \<Rightarrow> PikaBackend \<Rightarrow> GripperDispatchResult \<Rightarrow> bool" where
  "send_effect jaw s io c s' r =
     (if gc_arm c \<notin> set (pk_grippers s) then s' = s \<and> \<not> dr_sent_to_physical r
      else \<exists>t. next_target jaw s c = Inr t \<and> in_range s t
        \<and> s' = s\<lparr>pk_targets := dset (pk_targets s) (gc_arm c) t,
                 pk_last_sent := (if dr_sent_to_physical r then dset (pk_last_sent s) (gc_arm c) (si_now io, t) else pk_last_sent s)\<rparr>
        \<and> (dr_sent_to_physical r \<longrightarrow> write_held s (gc_arm c) (si_now io) t = None))"

lemma write_held_targets [simp]: "write_held (s\<lparr>pk_targets := ts\<rparr>) = write_held s"
  by (auto simp: write_held_def fun_eq_iff split: option.split)

lemma pika_send_effect:
  assumes "pika_ok s"
  shows "\<exists>s' r. pika_send jaw s io c = Inr (s', r) \<and> result_ok c r \<and> send_effect jaw s io c s' r"
proof (cases "gc_arm c \<in> set (pk_grippers s)")
  case False
  then show ?thesis by (simp add: pika_send_def send_effect_def result_ok_def dispatch_result_def)
next
  case True
  from next_target_total [OF assms, of jaw c] obtain t where t: "next_target jaw s c = Inr t" "in_range s t" by blast
  let ?s1 = "s\<lparr>pk_targets := dset (pk_targets s) (gc_arm c) t\<rparr>"
  let ?s2 = "?s1\<lparr>pk_last_sent := dset (pk_last_sent s) (gc_arm c) (si_now io, t)\<rparr>"
  have quiet: ?thesis if "pika_send jaw s io c = Inr (?s1, dispatch_result c acc False (\<not> acc) reason)" for acc reason
  proof -
    have "send_effect jaw s io c ?s1 (dispatch_result c acc False (\<not> acc) reason)"
      unfolding send_effect_def using True t by (simp add: dispatch_result_def)
    moreover have "result_ok c (dispatch_result c acc False (\<not> acc) reason)" by (simp add: result_ok_def dispatch_result_def)
    ultimately show ?thesis using that by blast
  qed
  note unfold = pika_send_def True t Let_def
  show ?thesis
  proof (cases "write_held s (gc_arm c) (si_now io) t")
    case (Some reason)
    then show ?thesis by (intro quiet [of True reason]) (simp add: unfold)
  next
    case None
    consider e where "si_set_motor_angle io t = Inl e" | "si_set_motor_angle io t = Inr False" | "si_set_motor_angle io t = Inr True"
      by (cases "si_set_motor_angle io t") auto
    then show ?thesis
    proof cases
      case (1 e)
      with None show ?thesis by (intro quiet [of False "''gripper_serial_error:'' @ exc_str e"]) (simp add: unfold)
    next
      case 2
      with None show ?thesis by (intro quiet [of False "''gripper_command_rejected''"]) (simp add: unfold)
    next
      case 3
      let ?r = "dispatch_result c True True False ''gripper_position_sent''"
      from 3 None have "pika_send jaw s io c = Inr (?s2, ?r)" by (simp add: unfold)
      moreover have "send_effect jaw s io c ?s2 ?r"
        unfolding send_effect_def using True t None by (simp add: dispatch_result_def)
      moreover have "result_ok c ?r" by (simp add: result_ok_def dispatch_result_def)
      ultimately show ?thesis by blast
    qed
  qed
qed

lemma send_effect_stored:
  assumes "send_effect jaw s io c s' r"
  shows "s' = s \<and> \<not> dr_sent_to_physical r \<or> (\<exists>t. in_range s t \<and> gc_arm c \<in> set (pk_grippers s)
    \<and> s' = s\<lparr>pk_targets := dset (pk_targets s) (gc_arm c) t,
             pk_last_sent := (if dr_sent_to_physical r then dset (pk_last_sent s) (gc_arm c) (si_now io, t) else pk_last_sent s)\<rparr>
    \<and> (dr_sent_to_physical r \<longrightarrow> write_held s (gc_arm c) (si_now io) t = None))"
proof (cases "gc_arm c \<in> set (pk_grippers s)")
  case False
  with assms show ?thesis unfolding send_effect_def by (simp only: if_True simp_thms)
next
  case True
  from assms [unfolded send_effect_def] have "\<exists>t. next_target jaw s c = Inr t \<and> in_range s t
    \<and> s' = s\<lparr>pk_targets := dset (pk_targets s) (gc_arm c) t,
             pk_last_sent := (if dr_sent_to_physical r then dset (pk_last_sent s) (gc_arm c) (si_now io, t) else pk_last_sent s)\<rparr>
    \<and> (dr_sent_to_physical r \<longrightarrow> write_held s (gc_arm c) (si_now io) t = None)"
    by (simp only: True if_False simp_thms)
  with True show ?thesis by blast
qed

lemma send_effect_frame:
  assumes "send_effect jaw s io c s' r"
  shows "config_of s' = config_of s" "pk_grippers s' = pk_grippers s"
    "a \<noteq> gc_arm c \<Longrightarrow> map_of (pk_targets s') a = map_of (pk_targets s) a"
    "a \<noteq> gc_arm c \<Longrightarrow> map_of (pk_last_sent s') a = map_of (pk_last_sent s) a"
  using send_effect_stored [OF assms] by (elim disjE exE conjE; simp)+

lemma send_effect_ok: 
  assumes "pika_ok s" and "send_effect jaw s io c s' r"
  shows "pika_ok s'"
proof (rule pika_ok_targets [OF assms(1) send_effect_frame(1) [OF assms(2)]])
  fix a x assume "map_of (pk_targets s') a = Some x"
  with assms(1) send_effect_stored [OF assms(2)] show "in_range s x"
    by (elim disjE exE conjE) (auto simp: pika_ok_def split: if_splits)
qed

section \<open>The backend interface\<close>

text \<open>The commands a dispatch considers: all but the idle deltas.\<close>

definition considered :: "'i cmdobj \<Rightarrow> bool" where
  "considered x = (gc_command_type (snd (snd x)) \<noteq> ''delta'' \<or> is_nonzero (snd (snd x)))"

fun item_command :: "'i plan_item \<Rightarrow> GripperCommand" where
  "item_command (PlanResult r) = dr_command r"
| "item_command (PlanSend x) = snd (snd x)"

fun is_plan_result :: "'i plan_item \<Rightarrow> bool" where
  "is_plan_result (PlanResult r) = True"
| "is_plan_result (PlanSend x) = False"

fun item_result :: "(nat \<times> GripperDispatchResult) list \<Rightarrow> 'i plan_item \<Rightarrow> GripperDispatchResult" where
  "item_result sent (PlanResult r) = r"
| "item_result sent (PlanSend x) = the (map_of sent (fst x))"

lemma gripper_gate_result: "gripper_gate supports rt c = Some r \<Longrightarrow> result_ok c r \<and> dr_dropped r \<and> \<not> dr_sent_to_physical r"
  by (auto simp: gripper_gate_def gate_drop_def dispatch_result_def result_ok_def Let_def split: if_splits)

lemma gripper_gate_counts [simp]:
  "gripper_gate supports (rt\<lparr>gr_command_count := n\<rparr>) = gripper_gate supports rt"
  "gripper_gate supports (rt\<lparr>gr_dropped_count := n\<rparr>) = gripper_gate supports rt"
  by (simp_all add: gripper_gate_def fun_eq_iff)

lemma plan_commands_facts:
  assumes "plan_commands supports rt cs = (rt1, p)"
  shows "rt1 = rt\<lparr>gr_command_count := gr_command_count rt + length p,
                 gr_dropped_count := gr_dropped_count rt + length (filter is_plan_result p)\<rparr>
    \<and> map item_command p = map (\<lambda>x. snd (snd x)) (filter considered cs)
    \<and> set (send_items p) \<subseteq> set cs
    \<and> (\<forall>r. PlanResult r \<in> set p \<longrightarrow> result_ok (dr_command r) r \<and> dr_dropped r)
    \<and> (\<forall>x. PlanSend x \<in> set p \<longrightarrow> x \<in> set (send_items p) \<and> gripper_gate supports rt (snd (snd x)) = None)"
  using assms
proof (induction supports rt cs arbitrary: p rt1 rule: plan_commands.induct)
  case (2 supports rt oid i c cs)
  let ?rt1 = "rt\<lparr>gr_command_count := gr_command_count rt + 1\<rparr>"
  show ?case
  proof (cases "considered (oid, i, c)")
    case False
    then have skip: "gc_command_type c = ''delta'' \<and> \<not> is_nonzero c" by (simp add: considered_def)
    with "2.prems" have "plan_commands supports rt cs = (rt1, p)" by simp
    from "2.IH"(1) [OF skip this] False show ?thesis by auto
  next
    case True
    then have skip: "\<not> (gc_command_type c = ''delta'' \<and> \<not> is_nonzero c)" by (simp add: considered_def)
    show ?thesis
    proof (cases "gripper_gate supports rt c")
      case None
      obtain q rt2 where q: "plan_commands supports ?rt1 cs = (rt2, q)" by fastforce
      have IH: "gripper_gate supports ?rt1 c = None" using None by simp
      from "2.IH"(2) [OF skip refl IH q] have F: "rt2 = ?rt1\<lparr>gr_command_count := gr_command_count ?rt1 + length q,
            gr_dropped_count := gr_dropped_count ?rt1 + length (filter is_plan_result q)\<rparr>"
        "map item_command q = map (\<lambda>x. snd (snd x)) (filter considered cs)" "set (send_items q) \<subseteq> set cs"
        "\<forall>r. PlanResult r \<in> set q \<longrightarrow> result_ok (dr_command r) r \<and> dr_dropped r"
        "\<forall>x. PlanSend x \<in> set q \<longrightarrow> x \<in> set (send_items q) \<and> gripper_gate supports rt (snd (snd x)) = None"
        by simp_all
      from "2.prems" skip q None have p: "p = PlanSend (oid, i, c) # q" "rt1 = rt2" by (simp_all add: Let_def)
      show ?thesis using F True None by (auto simp: p)
    next
      case (Some d)
      let ?rt2 = "?rt1\<lparr>gr_dropped_count := gr_dropped_count ?rt1 + 1\<rparr>"
      obtain q rt2 where q: "plan_commands supports ?rt2 cs = (rt2, q)" by fastforce
      have "gripper_gate supports ?rt1 c = Some d" using Some by simp
      from "2.IH"(3) [OF skip refl this q] have F: "rt2 = ?rt2\<lparr>gr_command_count := gr_command_count ?rt2 + length q,
            gr_dropped_count := gr_dropped_count ?rt2 + length (filter is_plan_result q)\<rparr>"
        "map item_command q = map (\<lambda>x. snd (snd x)) (filter considered cs)" "set (send_items q) \<subseteq> set cs"
        "\<forall>r. PlanResult r \<in> set q \<longrightarrow> result_ok (dr_command r) r \<and> dr_dropped r"
        "\<forall>x. PlanSend x \<in> set q \<longrightarrow> x \<in> set (send_items q) \<and> gripper_gate supports rt (snd (snd x)) = None"
        by simp_all
      from "2.prems" skip q Some have p: "p = PlanResult d # q" "rt1 = rt2" by (simp_all add: Let_def)
      from gripper_gate_result [OF Some] have d: "result_ok c d" "dr_dropped d" "dr_command d = c" by (auto simp: result_ok_def)
      show ?thesis using F True d by (auto simp: p)
    qed
  qed
qed simp

lemma plan_sends:
  "send_items (snd (plan_commands supports rt cs)) = filter (\<lambda>x. considered x \<and> gripper_gate supports rt (snd (snd x)) = None) cs"
proof (induction supports rt cs rule: plan_commands.induct)
  case (2 supports rt oid i c cs)
  then show ?case by (auto simp: considered_def Let_def split: option.split prod.split)
qed simp

lemma collect_results_eq:
  assumes "\<forall>x. PlanSend x \<in> set p \<longrightarrow> map_of sent (fst x) \<noteq> None"
  shows "collect_results sent rt p =
    (rt\<lparr>gr_dropped_count := gr_dropped_count rt + length (filter (\<lambda>i. \<not> is_plan_result i \<and> dr_dropped (item_result sent i)) p),
        gr_results := gr_results rt @ map (item_result sent) p\<rparr>, Inr (map (item_result sent) p))"
  using assms
proof (induction sent rt p rule: collect_results.induct)
  case (2 sent rt r p)
  then show ?case by simp
next
  case (3 sent rt oid i c p)
  then obtain r where r: "map_of sent oid = Some r" by fastforce
  with 3 show ?case by simp
qed simp

text \<open>Objects are consistent: one identity has one command value.\<close>

definition consistent_objects :: "'i cmdobj list \<Rightarrow> bool" where
  "consistent_objects cs = (\<forall>x\<in>set cs. \<forall>y\<in>set cs. fst x = fst y \<longrightarrow> snd (snd x) = snd (snd y))"

definition sent_ok :: "'i cmdobj list \<Rightarrow> (nat \<times> GripperDispatchResult) list \<Rightarrow> bool" where
  "sent_ok cs sent = (\<forall>x\<in>set cs. \<forall>r. map_of sent (fst x) = Some r \<longrightarrow> result_ok (snd (snd x)) r)"

lemma sent_ok_dset:
  "sent_ok cs sent \<Longrightarrow> consistent_objects cs \<Longrightarrow> x \<in> set cs \<Longrightarrow> result_ok (snd (snd x)) r \<Longrightarrow> sent_ok cs (dset sent (fst x) r)"
  unfolding sent_ok_def consistent_objects_def by (metis fun_upd_apply map_of_dset option.inject)

text \<open>The contract the runtime relies on: on a backend in its invariant, sending never raises, keeps the
  invariant and answers with a consistent result for that command.\<close>

locale gripper_backend =
  fixes snd_fn :: "'b \<Rightarrow> 'i \<Rightarrow> GripperCommand \<Rightarrow> ('b \<times> GripperDispatchResult) res"
    and binv :: "'b \<Rightarrow> bool"
  assumes send_total: "binv b \<Longrightarrow> \<exists>b' r. snd_fn b i c = Inr (b', r) \<and> binv b' \<and> result_ok c r"
begin

lemma threads_keep:
  assumes "binv b" and "consistent_objects all" and "sent_ok all sent" and "set cs \<subseteq> set all"
    and "send_threads snd_fn b sent cs = (b', sent')"
  shows "binv b' \<and> sent_ok all sent' \<and> fst ` set sent' = fst ` set sent \<union> fst ` set cs"
  using assms
proof (induction cs arbitrary: b sent)
  case (Cons x cs)
  obtain oid i c where x: "x = (oid, i, c)" by (rule prod_cases3)
  from send_total [OF Cons.prems(1), of i c] obtain b1 r where r: "snd_fn b i c = Inr (b1, r)" "binv b1" "result_ok c r" by blast
  have "sent_ok all (dset sent oid r)"
    using sent_ok_dset [OF Cons.prems(3,2), of x r] Cons.prems(4) r(3) by (simp add: x)
  moreover have "send_threads snd_fn b1 (dset sent oid r) cs = (b', sent')" using Cons.prems(5) by (simp add: x r(1))
  ultimately have "binv b' \<and> sent_ok all sent' \<and> fst ` set sent' = fst ` set (dset sent oid r) \<union> fst ` set cs"
    using Cons.IH [OF r(2) Cons.prems(2)] Cons.prems(4) by simp
  then show ?case by (auto simp: x set_keys_dset)
qed simp

lemma sequential_is_threads:
  "binv b \<Longrightarrow> send_sequential snd_fn b sent cs = (fst (send_threads snd_fn b sent cs), Inr (snd (send_threads snd_fn b sent cs)))"
proof (induction cs arbitrary: b sent)
  case (Cons x cs)
  obtain oid i c where x: "x = (oid, i, c)" by (rule prod_cases3)
  from send_total [OF Cons.prems, of i c] obtain b1 r where "snd_fn b i c = Inr (b1, r)" "binv b1" by blast
  with Cons.IH show ?case by (simp add: x)
qed simp

text \<open>A dispatch is: plan, send the planned objects in some order, answer in plan order.\<close>

lemma dispatch_as_threads:
  assumes "binv (gr_backend rt)" and plan: "plan_commands supports rt cs = (rt1, p)"
    and order: "\<And>xs. set (sched xs) = set xs"
  shows "\<exists>order. set order = set (send_items p) \<and> (order = send_items p \<or> order = sched (send_items p))
    \<and> dispatch snd_fn supports concurrent sched cs rt =
       (let (b, sent) = send_threads snd_fn (gr_backend rt) [] order in collect_results sent (rt1\<lparr>gr_backend := b\<rparr>) p)"
proof -
  have b: "gr_backend rt1 = gr_backend rt" using plan_commands_facts [OF plan] by simp
  show ?thesis
  proof (cases "concurrent \<and> 1 < length (send_items p)")
    case True
    then show ?thesis
      by (intro exI [of _ "sched (send_items p)"]) (simp add: dispatch_def plan b order)
  next
    case False
    obtain b' sent where s: "send_threads snd_fn (gr_backend rt) [] (send_items p) = (b', sent)" by fastforce
    with sequential_is_threads [OF assms(1), of "[]" "send_items p"]
    have "send_sequential snd_fn (gr_backend rt) [] (send_items p) = (b', Inr sent)" by simp
    with False s show ?thesis by (intro exI [of _ "send_items p"]) (auto simp: dispatch_def plan b Let_def)
  qed
qed

lemma dispatch_accounts:
  assumes inv: "binv (gr_backend rt)" and objs: "consistent_objects cs" and order: "\<And>xs. set (sched xs) = set xs"
  shows "\<exists>rt' rs. dispatch snd_fn supports concurrent sched cs rt = (rt', Inr rs) \<and> binv (gr_backend rt')
    \<and> map dr_command rs = map (\<lambda>x. snd (snd x)) (filter considered cs)
    \<and> (\<forall>r\<in>set rs. result_ok (dr_command r) r)
    \<and> gr_results rt' = gr_results rt @ rs
    \<and> gr_command_count rt' = gr_command_count rt + length rs
    \<and> gr_dropped_count rt' = gr_dropped_count rt + length (filter dr_dropped rs)"
proof -
  obtain rt1 p where plan: "plan_commands supports rt cs = (rt1, p)" by fastforce
  note P = plan_commands_facts [OF plan]
  from dispatch_as_threads [OF inv plan order, of concurrent] obtain order where ord: "set order = set (send_items p)"
    and disp: "dispatch snd_fn supports concurrent sched cs rt =
       (let (b, sent) = send_threads snd_fn (gr_backend rt) [] order in collect_results sent (rt1\<lparr>gr_backend := b\<rparr>) p)" by blast
  obtain b' sent where snt: "send_threads snd_fn (gr_backend rt) [] order = (b', sent)" by fastforce
  have "set order \<subseteq> set cs" using ord P by simp
  from threads_keep [OF inv objs _ this snt] have b': "binv b'" and ok: "sent_ok cs sent"
    and keys: "fst ` set sent = fst ` set order" by (auto simp: sent_ok_def)
  have found: "map_of sent (fst x) \<noteq> None" if "PlanSend x \<in> set p" for x
    using that P ord keys by (metis image_eqI map_of_eq_None_iff)
  let ?rs = "map (item_result sent) p"
  have res: "result_ok (item_command i) (item_result sent i)" if "i \<in> set p" for i
  proof (cases i)
    case (PlanResult r)
    with that P show ?thesis by auto
  next
    case (PlanSend x)
    with found that obtain r where r: "map_of sent (fst x) = Some r" by blast
    have "x \<in> set cs" using that PlanSend P by blast
    with ok r PlanSend show ?thesis by (simp add: sent_ok_def)
  qed
  have cmds: "map dr_command ?rs = map item_command p" using res by (simp add: result_ok_def)
  have "map_of sent (fst x) \<noteq> None" if "PlanSend x \<in> set p" for x using found that by blast
  then have "dispatch snd_fn supports concurrent sched cs rt =
      (rt1\<lparr>gr_backend := b', gr_dropped_count := gr_dropped_count rt1 + length (filter (\<lambda>i. \<not> is_plan_result i \<and> dr_dropped (item_result sent i)) p),
        gr_results := gr_results rt1 @ ?rs\<rparr>, Inr ?rs)"
    unfolding disp snt Let_def prod.case by (subst collect_results_eq) auto
  moreover have "length (filter is_plan_result p) + length (filter (\<lambda>i. \<not> is_plan_result i \<and> dr_dropped (item_result sent i)) p)
      = length (filter dr_dropped ?rs)"
  proof -
    have "is_plan_result i \<Longrightarrow> i \<in> set p \<Longrightarrow> dr_dropped (item_result sent i)" for i using P by (cases i) auto
    then show ?thesis by (induction p) auto
  qed
  moreover have "\<forall>r\<in>set ?rs. result_ok (dr_command r) r" using res by (auto simp: result_ok_def)
  ultimately show ?thesis using P b' cmds by simp
qed

end

text \<open>Both backends meet the contract.\<close>

interpretation noop: gripper_backend "\<lambda>b (_ :: unit) c. Inr (noop_send b c)" "\<lambda>_. True"
  by unfold_locales (simp add: noop_send_def result_ok_def dispatch_result_def)

interpretation pika: gripper_backend "pika_send jaw" pika_ok
  for jaw
  by unfold_locales (meson pika_send_effect send_effect_ok)

section \<open>Sends to different arms do not interfere\<close>

definition arm_view :: "PikaBackend \<Rightarrow> string \<Rightarrow> bool \<times> pyfloat option \<times> (pyfloat \<times> pyfloat) option" where
  "arm_view s a = (a \<in> set (pk_grippers s), map_of (pk_targets s) a, map_of (pk_last_sent s) a)"

lemma next_target_local:
  assumes "config_of s = config_of t" and "map_of (pk_targets s) (gc_arm c) = map_of (pk_targets t) (gc_arm c)"
  shows "next_target jaw s c = next_target jaw t c"
proof -
  note F = config_of_fields [OF assms(1)]
  have "rad_to_units jaw s = rad_to_units jaw t" "units_to_rad jaw s = units_to_rad jaw t" "clamp_rad s = clamp_rad t"
    by (simp_all add: fun_eq_iff rad_to_units_def units_to_rad_def clamp_rad_def F)
  then show ?thesis using assms(2) F(1) by (simp add: next_target_def cong: option.case_cong)
qed

lemma write_held_local:
  assumes "config_of s = config_of t" and "map_of (pk_last_sent s) a = map_of (pk_last_sent t) a"
  shows "write_held s a = write_held t a"
  using assms(2) config_of_fields [OF assms(1)] by (auto simp: write_held_def fun_eq_iff split: option.split)

text \<open>The result of a send and the new view of its arm depend on the configuration and that view only.\<close>

lemma pika_send_local:
  assumes cfg: "config_of s = config_of t" and view: "arm_view s (gc_arm c) = arm_view t (gc_arm c)"
    and ok: "pika_ok s" "pika_ok t" and snd_s: "pika_send jaw s io c = Inr (s', r)"
  shows "\<exists>t'. pika_send jaw t io c = Inr (t', r) \<and> arm_view t' (gc_arm c) = arm_view s' (gc_arm c)"
proof -
  have V: "(gc_arm c \<in> set (pk_grippers t)) = (gc_arm c \<in> set (pk_grippers s))"
    "map_of (pk_targets t) (gc_arm c) = map_of (pk_targets s) (gc_arm c)"
    "map_of (pk_last_sent t) (gc_arm c) = map_of (pk_last_sent s) (gc_arm c)"
    using view by (simp_all add: arm_view_def)
  show ?thesis
  proof (cases "gc_arm c \<in> set (pk_grippers s)")
    case False
    with snd_s V show ?thesis by (auto simp: pika_send_def arm_view_def)
  next
    case True
    obtain tgt where tgt: "next_target jaw s c = Inr tgt" using next_target_total [OF ok(1)] by blast
    then have tgt': "next_target jaw t c = Inr tgt" using next_target_local [OF cfg] V(2) by simp
    have held: "write_held t (gc_arm c) = write_held s (gc_arm c)" using write_held_local [OF cfg] V(3) by simp
    note unfold = pika_send_def True V tgt tgt' held Let_def arm_view_def
    show ?thesis
    proof (cases "write_held s (gc_arm c) (si_now io) tgt")
      case (Some reason)
      with snd_s show ?thesis by (auto simp: unfold)
    next
      case None
      with snd_s show ?thesis
        by (cases "si_set_motor_angle io tgt") (auto simp: unfold split: if_splits)
    qed
  qed
qed

lemma send_effect_view: "send_effect jaw s io c s' r \<Longrightarrow> a \<noteq> gc_arm c \<Longrightarrow> arm_view s' a = arm_view s a"
  by (simp add: arm_view_def send_effect_frame)

definition obj_arm :: "'i cmdobj \<Rightarrow> string" where
  "obj_arm x = gc_arm (snd (snd x))"

definition sent_as :: "(rat \<Rightarrow> rat) \<Rightarrow> PikaBackend \<Rightarrow> PikaBackend \<Rightarrow> (nat \<times> GripperDispatchResult) list \<Rightarrow> SendIo cmdobj \<Rightarrow> bool" where
  "sent_as jaw s s' sent x =
     (\<exists>s1 r. pika_send jaw s (fst (snd x)) (snd (snd x)) = Inr (s1, r) \<and> map_of sent (fst x) = Some r
        \<and> arm_view s' (obj_arm x) = arm_view s1 (obj_arm x))"

lemma threads_independent:
  assumes "pika_ok s" and "distinct (map fst cs)" and "distinct (map obj_arm cs)"
    and "send_threads (pika_send jaw) s sent cs = (s', sent')"
  shows "config_of s' = config_of s \<and> (\<forall>a. a \<notin> obj_arm ` set cs \<longrightarrow> arm_view s' a = arm_view s a)
    \<and> (\<forall>k. k \<notin> fst ` set cs \<longrightarrow> map_of sent' k = map_of sent k) \<and> (\<forall>x\<in>set cs. sent_as jaw s s' sent' x)"
  using assms
proof (induction cs arbitrary: s sent)
  case (Cons x cs)
  obtain oid i c where x: "x = (oid, i, c)" by (rule prod_cases3)
  from pika_send_effect [OF Cons.prems(1), of jaw i c] obtain s1 r where r: "pika_send jaw s i c = Inr (s1, r)"
    and eff: "send_effect jaw s i c s1 r" by blast
  have ok1: "pika_ok s1" by (rule send_effect_ok [OF Cons.prems(1) eff])
  have "send_threads (pika_send jaw) s1 (dset sent oid r) cs = (s', sent')" using Cons.prems(4) by (simp add: x r)
  with Cons.IH [OF ok1] Cons.prems(2,3) have IH: "config_of s' = config_of s1"
    "\<And>a. a \<notin> obj_arm ` set cs \<Longrightarrow> arm_view s' a = arm_view s1 a"
    "\<And>k. k \<notin> fst ` set cs \<Longrightarrow> map_of sent' k = map_of (dset sent oid r) k" "\<And>y. y \<in> set cs \<Longrightarrow> sent_as jaw s1 s' sent' y"
    by simp_all
  have arm: "obj_arm x \<notin> obj_arm ` set cs" and key: "oid \<notin> fst ` set cs" using Cons.prems(2,3) by (auto simp: x)
  have cfg: "config_of s1 = config_of s" by (rule send_effect_frame(1) [OF eff])
  have here: "sent_as jaw s s' sent' x"
    using r IH(2) [OF arm] IH(3) [OF key] by (simp add: sent_as_def x)
  have there: "sent_as jaw s s' sent' y" if y: "y \<in> set cs" for y
  proof -
    from IH(4) [OF y] obtain s2 ry where s2: "pika_send jaw s1 (fst (snd y)) (snd (snd y)) = Inr (s2, ry)"
      "map_of sent' (fst y) = Some ry" "arm_view s' (obj_arm y) = arm_view s2 (obj_arm y)" by (auto simp: sent_as_def)
    have "obj_arm x = gc_arm c" by (simp add: x obj_arm_def)
    with y arm have "obj_arm y \<noteq> gc_arm c" by (metis imageI)
    then have "arm_view s1 (gc_arm (snd (snd y))) = arm_view s (gc_arm (snd (snd y)))"
      using send_effect_view [OF eff] by (simp add: obj_arm_def)
    from pika_send_local [OF cfg this ok1 Cons.prems(1) s2(1)] s2(2,3) show ?thesis by (auto simp: sent_as_def obj_arm_def)
  qed
  have "arm_view s' a = arm_view s a" if "a \<notin> obj_arm ` set (x # cs)" for a
    using that IH(2) send_effect_view [OF eff] by (auto simp: x obj_arm_def)
  moreover have "map_of sent' k = map_of sent k" if "k \<notin> fst ` set (x # cs)" for k
    using that IH(3) by (auto simp: x)
  ultimately show ?case using here there IH(1) cfg by auto
qed simp

lemma threads_order_irrelevant:
  assumes ok: "pika_ok s" and cs: "distinct (map fst cs)" "distinct (map obj_arm cs)"
    and ds: "distinct (map fst ds)" "distinct (map obj_arm ds)" and same: "set ds = set cs"
    and run: "send_threads (pika_send jaw) s [] cs = (s1, sent1)" "send_threads (pika_send jaw) s [] ds = (s2, sent2)"
  shows "arm_view s1 = arm_view s2 \<and> config_of s1 = config_of s2 \<and> map_of sent1 = map_of sent2"
proof -
  note A = threads_independent [OF ok cs run(1)] and B = threads_independent [OF ok ds run(2)]
  have both: "arm_view s1 (obj_arm x) = arm_view s2 (obj_arm x) \<and> map_of sent1 (fst x) = map_of sent2 (fst x)" if "x \<in> set cs" for x
  proof -
    from that A have "sent_as jaw s s1 sent1 x" by blast
    moreover from that B same have "sent_as jaw s s2 sent2 x" by blast
    ultimately show ?thesis by (auto simp: sent_as_def)
  qed
  have "arm_view s1 a = arm_view s2 a" for a
    using both A B same by (cases "a \<in> obj_arm ` set cs") auto
  moreover have "map_of sent1 k = map_of sent2 k" for k
    using both A B same by (cases "k \<in> fst ` set cs") auto
  ultimately show ?thesis using A B by auto
qed

section \<open>Runs of the serial backend\<close>

text \<open>A run of the backend with a ghost log of the angles written to each motor since the arm was last
  homed. Clock readings are finite.\<close>

datatype PikaEvent =
    EvSend rat "pyfloat \<Rightarrow> bool res" GripperCommand
  | EvHome string HomeIo
  | EvFrame string pyval rat
  | EvConnect bool "string \<Rightarrow> ConnectIo" "string \<Rightarrow> HomeIo" rat rat
  | EvClose

type_synonym pika_write = "string \<times> rat \<times> pyfloat"

definition keep_log :: "PikaBackend \<Rightarrow> pika_write list \<Rightarrow> pika_write list" where
  "keep_log s w = filter (\<lambda>x. map_of (pk_last_sent s) (fst x) \<noteq> None) w"

fun pika_step :: "(rat \<Rightarrow> rat) \<Rightarrow> PikaBackend \<times> pika_write list \<Rightarrow> PikaEvent
    \<Rightarrow> (PikaBackend \<times> pika_write list) \<times> GripperDispatchResult option" where
  "pika_step jaw (s, w) (EvSend now set_angle c) =
     (case pika_send jaw s \<lparr>si_now = Fin now, si_set_motor_angle = set_angle\<rparr> c of
        Inl e \<Rightarrow> ((s, w), None)
      | Inr (s', r) \<Rightarrow> ((s', if dr_sent_to_physical r then w @ [(gc_arm c, now, the (map_of (pk_targets s') (gc_arm c)))] else w), Some r))"
| "pika_step jaw (s, w) (EvHome arm io) =
     (case home_one s arm io of None \<Rightarrow> ((s, w), None) | Some s' \<Rightarrow> ((s', keep_log s' w), None))"
| "pika_step jaw (s, w) (EvFrame arm data now) = ((stamp_frame s arm data (Fin now), w), None)"
| "pika_step jaw (s, w) (EvConnect injected io hio before after) =
     (let s' = fst (pika_connect s injected io hio (Fin before) (Fin after)) in ((s', keep_log s' w), None))"
| "pika_step jaw (s, w) EvClose = ((pika_close s, w), None)"

text \<open>Two successive writes to one motor: at least the period apart, and at least the deadband away.\<close>

definition spaced :: "PikaBackend \<Rightarrow> pika_write \<Rightarrow> pika_write \<Rightarrow> bool" where
  "spaced s v w = ((0 < pk_min_period_sec s \<longrightarrow> \<not> Fin (fst (snd w)) - Fin (fst (snd v)) < pk_min_period_sec s)
     \<and> \<not> fabs (snd (snd w) - snd (snd v)) < pk_deadband_rad s)"

definition writes_of :: "string \<Rightarrow> pika_write list \<Rightarrow> pika_write list" where
  "writes_of a w = filter (\<lambda>x. fst x = a) w"

definition log_ok :: "PikaBackend \<Rightarrow> pika_write list \<Rightarrow> string \<Rightarrow> bool" where
  "log_ok s w a = (successively (spaced s) (writes_of a w) \<and> (\<forall>x\<in>set (writes_of a w). in_range s (snd (snd x)))
     \<and> map_of (pk_last_sent s) a =
         (if writes_of a w = [] then None else Some (Fin (fst (snd (last (writes_of a w)))), snd (snd (last (writes_of a w))))))"

definition pika_inv :: "PikaBackend \<times> pika_write list \<Rightarrow> bool" where
  "pika_inv x = (pika_ok (fst x) \<and> (\<forall>a. log_ok (fst x) (snd x) a))"

text \<open>Events other than sends keep the configuration, keep targets in range and at most forget what was
  last sent to an arm.\<close>

definition quiet :: "PikaBackend \<Rightarrow> PikaBackend \<Rightarrow> bool" where
  "quiet s s' = (config_of s' = config_of s \<and> pika_ok s'
     \<and> (\<forall>a. map_of (pk_last_sent s') a = map_of (pk_last_sent s) a \<or> map_of (pk_last_sent s') a = None))"

lemma quiet_refl: "pika_ok s \<Longrightarrow> quiet s s"
  by (simp add: quiet_def)

lemma quiet_trans: "quiet s t \<Longrightarrow> quiet t u \<Longrightarrow> quiet s u"
  unfolding quiet_def by metis

lemma quiet_ok: "quiet s t \<Longrightarrow> pika_ok t"
  by (simp add: quiet_def)

lemma spaced_config: "config_of s = config_of t \<Longrightarrow> spaced s = spaced t"
  by (frule config_of_fields(4), drule config_of_fields(5)) (simp add: spaced_def fun_eq_iff)

lemma writes_of_keep_log:
  "writes_of a (keep_log s w) = (if map_of (pk_last_sent s) a = None then [] else writes_of a w)"
  unfolding writes_of_def keep_log_def by (induction w) auto

lemma pika_inv_quiet:
  assumes "pika_inv (s, w)" and "quiet s s'"
  shows "pika_inv (s', keep_log s' w)"
proof -
  have cfg: "config_of s' = config_of s" and ok: "pika_ok s'" using assms(2) by (simp_all add: quiet_def)
  have "log_ok s' (keep_log s' w) a" for a
  proof (cases "map_of (pk_last_sent s') a")
    case None
    then show ?thesis by (simp add: log_ok_def writes_of_keep_log)
  next
    case (Some y)
    with assms(2) have "map_of (pk_last_sent s') a = map_of (pk_last_sent s) a" unfolding quiet_def by (metis option.distinct(1))
    moreover have "writes_of a (keep_log s' w) = writes_of a w" using Some by (simp add: writes_of_keep_log)
    moreover have "log_ok s w a" using assms(1) by (simp add: pika_inv_def)
    ultimately show ?thesis unfolding log_ok_def spaced_config [OF cfg] in_range_config [OF cfg] by auto
  qed
  with ok show ?thesis by (simp add: pika_inv_def)
qed

lemma pika_inv_same_log:
  assumes "pika_inv (s, w)" and "quiet s s'" and "pk_last_sent s' = pk_last_sent s"
  shows "pika_inv (s', w)"
proof -
  have cfg: "config_of s' = config_of s" and ok: "pika_ok s'" using assms(2) by (simp_all add: quiet_def)
  show ?thesis using assms(1,3) ok
    by (simp add: pika_inv_def log_ok_def spaced_config [OF cfg] in_range_config [OF cfg])
qed

lemma pika_ok_targets_same: "pika_ok s \<Longrightarrow> config_of t = config_of s \<Longrightarrow> pk_targets t = pk_targets s \<Longrightarrow> pika_ok t"
  by (rule pika_ok_targets) (auto simp: pika_ok_def)

lemma home_one_quiet:
  assumes "pika_ok s" and "home_one s arm io = Some s'"
  shows "quiet s s'"
proof -
  let ?s1 = "note_current s arm (motor_current_ma s arm (ho_current io))"
  have s1: "config_of ?s1 = config_of s" "pk_targets ?s1 = pk_targets s" "pk_last_sent ?s1 = pk_last_sent s"
    by (simp_all add: note_current_def split: option.split)
  have q1: "quiet s ?s1" using pika_ok_targets_same [OF assms(1) s1(1,2)] s1 by (simp add: quiet_def)
  let ?s2 = "?s1\<lparr>pk_targets := dset (pk_targets ?s1) arm (pk_min_rad ?s1), pk_last_sent := ddel (pk_last_sent ?s1) arm\<rparr>"
  have "pika_ok ?s2"
    by (rule pika_ok_targets [OF quiet_ok [OF q1]]) (use quiet_ok [OF q1] min_in_range in \<open>auto simp: pika_ok_def split: if_splits\<close>)
  then have q2: "quiet s ?s2" using s1 by (simp add: quiet_def map_of_ddel)
  from assms(2) have "s' = s \<or> s' = ?s1 \<or> s' = ?s2"
    by (auto simp: home_one_def Let_def split: sum.splits option.splits if_splits)
  with q1 q2 quiet_refl [OF assms(1)] show ?thesis by blast
qed

lemma home_all_quiet: "pika_ok s \<Longrightarrow> quiet s (home_all s io)"
proof -
  have "quiet s (foldl (\<lambda>s arm. case home_one s arm (io arm) of None \<Rightarrow> s | Some s' \<Rightarrow> s') t arms)" if "quiet s t" for t arms
    using that
  proof (induction arms arbitrary: t)
    case (Cons a arms)
    have "quiet s (case home_one t a (io a) of None \<Rightarrow> t | Some s' \<Rightarrow> s')"
      using Cons.prems home_one_quiet [OF quiet_ok [OF Cons.prems]] quiet_trans by (auto split: option.split)
    then show ?case using Cons.IH by simp
  qed simp
  then show "pika_ok s \<Longrightarrow> quiet s (home_all s io)" unfolding home_all_def using quiet_refl by blast
qed

lemma pika_close_quiet: "pika_ok s \<Longrightarrow> quiet s (pika_close s)"
  using pika_ok_targets_same [of s "pika_close s"] by (simp add: quiet_def pika_close_def)

lemma connect_arms_quiet: "pika_ok s \<Longrightarrow> quiet s (fst (connect_arms s io last_enable ports))"
proof (induction s io last_enable ports rule: connect_arms.induct)
  case (2 s io last_enable arm port ports)
  let ?s1 = "s\<lparr>pk_grippers := (if arm \<in> set (pk_grippers s) then pk_grippers s else pk_grippers s @ [arm]),
               pk_targets := dset (pk_targets s) arm (seed_target s (co_position (io arm)))\<rparr>"
  have "pika_ok ?s1"
    by (rule pika_ok_targets [OF 2(2)])
      (use 2(2) clamp_in_range in \<open>auto simp: pika_ok_def seed_target_def split: if_splits\<close>)
  then have "quiet s ?s1" by (simp add: quiet_def)
  moreover have "quiet ?s1 (fst (connect_arms ?s1 io (co_enabled_at (io arm)) ports))"
    if "co_connect (io arm) = Inr True" "co_enable (io arm) = Inr True"
    using 2(1) that \<open>pika_ok ?s1\<close> by simp
  ultimately have both: "quiet s (fst (connect_arms ?s1 io (co_enabled_at (io arm)) ports))"
    if "co_connect (io arm) = Inr True" "co_enable (io arm) = Inr True" using that quiet_trans by blast
  note stay = quiet_refl [OF 2(2)] pika_close_quiet [OF 2(2)]
  consider e where "co_connect (io arm) = Inl e" | "co_connect (io arm) = Inr False"
    | e where "co_connect (io arm) = Inr True" "co_enable (io arm) = Inl e"
    | "co_connect (io arm) = Inr True" "co_enable (io arm) = Inr False"
    | "co_connect (io arm) = Inr True" "co_enable (io arm) = Inr True"
    by (metis (full_types) sum.exhaust)
  then show ?case
  proof cases
    case 5
    then show ?thesis using both by simp
  qed (simp_all add: stay)
qed (simp add: quiet_refl)

lemma pika_connect_quiet: "pika_ok s \<Longrightarrow> quiet s (fst (pika_connect s injected io hio before after))"
proof -
  assume ok: "pika_ok s"
  obtain s1 r where c: "connect_arms s io before (pk_ports s) = (s1, r)" by fastforce
  with connect_arms_quiet [OF ok, of io before "pk_ports s"] have q: "quiet s s1" by simp
  have "quiet s (home_all s1 hio)" using q home_all_quiet [OF quiet_ok [OF q]] quiet_trans by blast
  then have "quiet s (fst (case r of Inl e \<Rightarrow> (s1, Inl e) | Inr last_enable \<Rightarrow>
      if pk_home_on_connect s1 \<and> pk_grippers s1 \<noteq> [] then (home_all s1 hio, Inr 0)
      else if pk_grippers s1 \<noteq> [] then (s1, Inr (await_enable_settle s1 last_enable after)) else (s1, Inr 0)))"
    using q by (cases r) simp_all
  with pika_close_quiet [OF ok] show ?thesis
    by (cases "if injected then None else find (\<lambda>p. \<not> co_exists (io (fst p))) (pk_ports s)")
      (simp_all only: pika_connect_def c prod.case option.case fst_conv split: prod.split, auto)
qed

lemma write_held_spaced:
  assumes "log_ok s w a" and "write_held s a (Fin now) t = None"
  shows "successively (spaced s) (writes_of a w @ [(a, now, t)])"
proof (cases "writes_of a w = []")
  case False
  let ?v = "last (writes_of a w)"
  have "map_of (pk_last_sent s) a = Some (Fin (fst (snd ?v)), snd (snd ?v))" using assms(1) False by (simp add: log_ok_def)
  with assms(2) have "spaced s ?v (a, now, t)" by (simp add: write_held_def spaced_def split: if_splits)
  with assms(1) False show ?thesis by (simp add: successively_append_iff log_ok_def)
qed simp

lemma pika_inv_send:
  assumes inv: "pika_inv (s, w)" and eff: "send_effect jaw s io c s' r" and now: "si_now io = Fin now"
  shows "pika_inv (s', if dr_sent_to_physical r then w @ [(gc_arm c, now, the (map_of (pk_targets s') (gc_arm c)))] else w)"
    (is "pika_inv (s', ?w)")
proof -
  have ok: "pika_ok s" and logs: "\<And>a. log_ok s w a" using inv by (simp_all add: pika_inv_def)
  have cfg: "config_of s' = config_of s" by (rule send_effect_frame(1) [OF eff])
  have "log_ok s' ?w a" for a
  proof (cases "a = gc_arm c \<and> dr_sent_to_physical r")
    case False
    then have w: "writes_of a ?w = writes_of a w" by (auto simp: writes_of_def)
    have l: "map_of (pk_last_sent s') a = map_of (pk_last_sent s) a"
    proof (cases "dr_sent_to_physical r")
      case True
      with False show ?thesis using send_effect_frame(4) [OF eff] by blast
    next
      case False
      with send_effect_stored [OF eff] show ?thesis by (elim disjE exE conjE) simp_all
    qed
    show ?thesis using logs [of a] w l
      unfolding log_ok_def spaced_config [OF cfg] in_range_config [OF cfg] by auto
  next
    case True
    with send_effect_stored [OF eff] obtain t where t: "in_range s t"
      "pk_targets s' = dset (pk_targets s) a t" "pk_last_sent s' = dset (pk_last_sent s) a (Fin now, t)"
      "write_held s a (Fin now) t = None" using now by (elim disjE exE conjE) simp_all
    have w: "writes_of a ?w = writes_of a w @ [(a, now, t)]" using True t(2) by (simp add: writes_of_def)
    from write_held_spaced [OF logs t(4)] logs [of a] t show ?thesis
      unfolding log_ok_def w spaced_config [OF cfg] in_range_config [OF cfg] by auto
  qed
  with send_effect_ok [OF ok eff] show ?thesis by (simp add: pika_inv_def)
qed

lemma pika_inv_step: "pika_inv x \<Longrightarrow> pika_inv (fst (pika_step jaw x e))"
proof -
  assume inv: "pika_inv x"
  obtain s w where x: "x = (s, w)" by fastforce
  have ok: "pika_ok s" using inv by (simp add: x pika_inv_def)
  show ?thesis
  proof (cases e)
    case (EvSend now set_angle c)
    let ?io = "\<lparr>si_now = Fin now, si_set_motor_angle = set_angle\<rparr>"
    from pika_send_effect [OF ok, of jaw ?io c] obtain s' r
      where snt: "pika_send jaw s ?io c = Inr (s', r)" and eff: "send_effect jaw s ?io c s' r" by blast
    from pika_inv_send [OF inv [unfolded x] eff, of now] show ?thesis by (simp add: x EvSend snt)
  next
    case (EvHome arm io)
    show ?thesis
    proof (cases "home_one s arm io")
      case None
      with inv show ?thesis by (simp add: x EvHome)
    next
      case (Some s')
      from pika_inv_quiet [OF inv [unfolded x] home_one_quiet [OF ok Some]] show ?thesis by (simp add: x EvHome Some)
    qed
  next
    case (EvFrame arm data now)
    let ?s = "stamp_frame s arm data (Fin now)"
    have s': "config_of ?s = config_of s" "pk_targets ?s = pk_targets s" "pk_last_sent ?s = pk_last_sent s"
      by (simp_all add: stamp_frame_def)
    have "quiet s ?s" using pika_ok_targets_same [OF ok s'(1,2)] s' by (simp add: quiet_def)
    from pika_inv_same_log [OF inv [unfolded x] this s'(3)] show ?thesis by (simp add: x EvFrame)
  next
    case (EvConnect injected io hio before after)
    from pika_inv_quiet [OF inv [unfolded x] pika_connect_quiet [OF ok]] show ?thesis by (simp add: x EvConnect Let_def)
  next
    case EvClose
    from pika_inv_same_log [OF inv [unfolded x] pika_close_quiet [OF ok]] show ?thesis by (simp add: x EvClose pika_close_def)
  qed
qed

interpretation pika_run: state_machine "pika_step jaw" pika_inv
  for jaw
  by unfold_locales (rule pika_inv_step)

lemma config_of_step: "pika_ok s \<Longrightarrow> config_of (fst (fst (pika_step jaw (s, w) e))) = config_of s"
proof (cases e)
  case (EvSend now set_angle c)
  assume "pika_ok s"
  from pika_send_effect [OF this, of jaw "\<lparr>si_now = Fin now, si_set_motor_angle = set_angle\<rparr>" c]
  show ?thesis using send_effect_frame(1) by (auto simp: EvSend)
next
  case (EvHome arm io)
  assume "pika_ok s"
  from home_one_quiet [OF this, of arm io] show ?thesis by (cases "home_one s arm io") (simp_all add: EvHome quiet_def)
next
  case (EvConnect injected io hio before after)
  assume "pika_ok s"
  from pika_connect_quiet [OF this] show ?thesis by (simp add: EvConnect Let_def quiet_def)
qed (simp_all add: stamp_frame_def pika_close_def)

lemma config_of_run:
  "pika_inv x \<Longrightarrow> config_of (fst (state_after (pika_step jaw) x es)) = config_of (fst x)"
proof (induction es arbitrary: x)
  case (Cons e es)
  obtain s w where x: "x = (s, w)" by fastforce
  from Cons.prems have "config_of (fst (fst (pika_step jaw x e))) = config_of (fst x)"
    using config_of_step [of s jaw w e] by (simp add: x pika_inv_def)
  with Cons.IH [OF pika_inv_step [OF Cons.prems]] show ?case by simp
qed simp

lemma pika_init_inv:
  assumes "pika_init args max_hz = Inr s" and "isfinite (pk_min_rad args)" and "isfinite (pk_max_rad args)"
  shows "pika_inv (s, [])" and "pk_min_rad s = pk_min_rad args" and "pk_max_rad s = pk_max_rad args"
    and "pk_deadband_rad s = pk_deadband_rad args"
  using assms
  by (auto simp: pika_init_def pika_inv_def pika_ok_def log_ok_def writes_of_def res_bind_Inr_iff isfinite_def
      split: if_splits pyfloat.splits)

text \<open>Homing waits end: once a clock reading of the loop reaches the deadline, the wait has returned.\<close>

lemma settle_loop_returns:
  assumes "\<not> clock n < deadline" and "i \<le> n"
  shows "\<exists>k. settle_loop eps deadline clock pos i lst = Some k"
  using assms(2)
proof (induction "n - i" arbitrary: i lst)
  case 0
  then show ?case using assms(1) by (subst settle_loop.simps) simp
next
  case (Suc m)
  then have IH: "\<exists>k. settle_loop eps deadline clock pos (Suc i) l = Some k" for l by (intro Suc.hyps(1)) auto
  show ?case by (subst settle_loop.simps) (simp add: IH split: sum.split)
qed

lemma home_one_returns:
  assumes "\<not> ho_clock io n < ho_start io + pk_home_timeout_sec s"
  shows "\<exists>s'. home_one s arm io = Some s'"
proof -
  obtain k where "wait_until_settled s (ho_start io) (ho_clock io) (ho_position io) = Some k"
    unfolding wait_until_settled_def
    using settle_loop_returns [where clock = "ho_clock io" and n = n and i = 0, OF assms] by blast
  then show ?thesis by (simp add: home_one_def Let_def split: sum.split)
qed

text \<open>A command whose value is NaN is not rejected: in motor fractions it sets the target to the open limit.\<close>

lemma nan_command_opens_jaw:
  assumes "pika_ok s" and "pk_units s \<noteq> ''sdk_mm''" and "gc_value c = NaN" and "gc_command_type c = ''target''"
  shows "next_target jaw s c = Inr (pk_max_rad s)"
proof -
  obtain lo hi where "pk_min_rad s = Fin lo" "pk_max_rad s = Fin hi" using pika_okE [OF assms(1)] by blast
  with clamp_nan [OF assms(1)] assms(2-4) show ?thesis by (simp add: next_target_def units_to_rad_def)
qed

section \<open>Framing\<close>

definition brace_delta :: "string \<Rightarrow> int" where
  "brace_delta s = int (length (filter (\<lambda>c. c = CHR 0x7B) s)) - int (length (filter (\<lambda>c. c = CHR 0x7D) s))"

lemma brace_delta_simps [simp]:
  "brace_delta [] = 0"
  "brace_delta (c # s) = (if c = CHR 0x7B then 1 else if c = CHR 0x7D then -1 else 0) + brace_delta s"
  "brace_delta (s @ t) = brace_delta s + brace_delta t"
  by (simp_all add: brace_delta_def)

lemma close_at_append:
  "close_at d (s @ t) = (case close_at d s of Some i \<Rightarrow> Some i
     | None \<Rightarrow> map_option (\<lambda>i. length s + i) (close_at (d + brace_delta s) t))"
proof (induction d s rule: close_at.induct)
  case (1 d)
  show ?case by (cases "close_at d t") simp_all
next
  case (2 d c s)
  let ?d = "d + (if c = CHR 0x7B then 1 else if c = CHR 0x7D then -1 else 0)"
  show ?case
  proof (cases "c = CHR 0x7D \<and> d = 1")
    case False
    then have step: "close_at d (c # u) = map_option Suc (close_at ?d u)" for u by (auto simp: algebra_simps)
    have IH: "close_at ?d (s @ t) = (case close_at ?d s of Some i \<Rightarrow> Some i
        | None \<Rightarrow> map_option (\<lambda>i. length s + i) (close_at (?d + brace_delta s) t))" using 2 False by (auto cong: option.case_cong)
    have eq: "d + brace_delta (c # s) = ?d + brace_delta s" by simp
    show ?thesis unfolding append_Cons step IH eq
      by (cases "close_at ?d s") (simp_all only: option.case option.map option.map_comp comp_def length_Cons add_Suc)
  qed auto
qed

lemma close_at_none: "(\<And>j. j \<le> length s \<Longrightarrow> 0 < d + brace_delta (take j s)) \<Longrightarrow> close_at d s = None"
proof (induction d s rule: close_at.induct)
  case (2 d c s)
  let ?d = "d + (if c = CHR 0x7B then 1 else if c = CHR 0x7D then -1 else 0)"
  have pos: "0 < ?d + brace_delta (take j s)" if "j \<le> length s" for j
    using 2(4) [of "Suc j"] that by (simp add: add.assoc)
  from pos [of 0] have d: "0 < ?d" by simp
  then have ne: "c = CHR 0x7D \<Longrightarrow> d - 1 \<noteq> 0" by auto
  have "close_at ?d s = None"
  proof (cases "c = CHR 0x7D")
    case True
    then show ?thesis using 2(2) [OF _ True ne [OF True]] pos by simp
  next
    case False
    then show ?thesis using 2(1,3) pos by (cases "c = CHR 0x7B") simp_all
  qed
  with d show ?case by (auto split: if_splits)
qed simp

lemma close_at_depth:
  "close_at d s = Some i \<Longrightarrow> 0 < d \<Longrightarrow>
     d + brace_delta (take (Suc i) s) = 0 \<and> (\<forall>j\<le>Suc i. 0 \<le> d + brace_delta (take j s))"
proof (induction d s arbitrary: i rule: close_at.induct)
  case (2 d c s)
  show ?case
  proof (cases "c = CHR 0x7D \<and> d = 1")
    case True
    then have "i = 0" using 2(4) by simp
    with True show ?thesis by (auto simp: le_Suc_eq)
  next
    case False
    let ?d = "d + (if c = CHR 0x7B then 1 else if c = CHR 0x7D then -1 else 0)"
    have d: "0 < ?d" using False 2(5) by auto
    from False 2(4) obtain k where k: "close_at ?d s = Some k" "i = Suc k" by (auto split: if_splits)
    have IH: "?d + brace_delta (take (Suc k) s) = 0" "\<And>j. j \<le> Suc k \<Longrightarrow> 0 \<le> ?d + brace_delta (take j s)"
      using 2(1-3) k(1) d False by (auto split: if_splits)
    have "0 \<le> d + brace_delta (take j (c # s))" if "j \<le> Suc i" for j
      using IH(2) [of "j - 1"] that 2(5) k(2) by (cases j) (simp_all add: add.assoc)
    moreover have "d + brace_delta (take (Suc i) (c # s)) = 0" using IH(1) k(2) by (simp add: add.assoc)
    ultimately show ?thesis by blast
  qed
qed simp

text \<open>A complete frame starts with the frame mark and its braces close exactly at its end.\<close>

definition complete_frame :: "string \<Rightarrow> bool" where
  "complete_frame g = (startswith g PIKA_FRAME_MARK \<and> close_at 0 g = Some (length g - 1))"

text \<open>A frame that was cut off: it starts with the mark, and its braces do not close.\<close>

definition truncated_frame :: "string \<Rightarrow> bool" where
  "truncated_frame t = (startswith t PIKA_FRAME_MARK \<and> close_at 0 t = None \<and> 0 < brace_delta t)"

lemma startswith_append: "startswith (a @ b) p \<longleftrightarrow> startswith a p" if "length p \<le> length a"
  using that by (simp add: startswith_def)

lemma startswith_length: "startswith s p \<Longrightarrow> length p \<le> length s"
  unfolding startswith_def by (metis length_take min.cobounded1)

lemma py_find_start: "startswith s PIKA_FRAME_MARK \<Longrightarrow> py_find s PIKA_FRAME_MARK 0 = Some 0"
  by (cases s) (simp_all add: py_find_def startswith_def PIKA_FRAME_MARK_def)

lemma complete_frame_depth:
  assumes "complete_frame g"
  shows "brace_delta g = 0" and "j \<le> length g \<Longrightarrow> 0 \<le> brace_delta (take j g)"
proof -
  have len: "0 < length g" using assms startswith_length by (fastforce simp: complete_frame_def PIKA_FRAME_MARK_def)
  then obtain c s where g: "g = c # s" by (cases g) auto
  have c: "c = CHR 0x7B" using assms by (simp add: g complete_frame_def startswith_def PIKA_FRAME_MARK_def)
  from assms have "close_at 0 g = Some (length s)" by (simp add: complete_frame_def g)
  then obtain k where k: "close_at 1 s = Some k" "length s = Suc k" by (cases "close_at 1 s") (simp_all add: g c)
  from close_at_depth [OF k(1)] have D: "1 + brace_delta s = 0" "\<And>j. j \<le> length s \<Longrightarrow> 0 \<le> 1 + brace_delta (take j s)"
    using k(2) by auto
  show "brace_delta g = 0" using D(1) by (simp add: g c)
  show "0 \<le> brace_delta (take j g)" if "j \<le> length g"
    using D(2) [of "j - 1"] that by (cases j) (simp_all add: g c)
qed

lemma resync_reads_frame:
  assumes "complete_frame g" and "loads (strip_trailing_commas g) = Some v"
  shows "find_json_resync loads (g @ r) = (r, Some v)"
proof -
  have len: "length PIKA_FRAME_MARK \<le> length g" using assms(1) startswith_length by (simp add: complete_frame_def)
  then have pos: "0 < length g" by (auto simp: PIKA_FRAME_MARK_def)
  have "startswith (g @ r) PIKA_FRAME_MARK" using assms(1) len by (simp add: complete_frame_def startswith_append)
  from py_find_start [OF this] have f: "py_find (g @ r) PIKA_FRAME_MARK 0 = Some 0" .
  have c: "close_at 0 (g @ r) = Some (length g - 1)" using assms(1) by (simp add: close_at_append complete_frame_def)
  have "find_json_resync loads (g @ r) = (drop (length g) (g @ r), Some v)"
    using pos assms(2) by (subst find_json_resync.simps) (simp add: f c)
  then show ?thesis by simp
qed

section \<open>Properties\<close>

text \<open>A truncated telemetry frame costs that frame only: when it is followed by a complete frame that
  parses, the resync parser returns the complete frame and leaves what comes after it in the buffer,
  provided the rest does not close more braces than it opens.\<close>

theorem truncated_frame_costs_one_frame:
  assumes t: "truncated_frame t" and g: "complete_frame g" and v: "loads (strip_trailing_commas g) = Some v"
    and r: "\<forall>j\<le>length r. 0 \<le> brace_delta (take j r)"
    and next_mark: "py_find (t @ g @ r) PIKA_FRAME_MARK 1 = Some (length t)"
  shows "find_json_resync loads (t @ g @ r) = (r, Some v)"
proof -
  have len: "length PIKA_FRAME_MARK \<le> length t" using t startswith_length by (simp add: truncated_frame_def)
  have "startswith (t @ g @ r) PIKA_FRAME_MARK" using t len by (simp add: truncated_frame_def startswith_append)
  from py_find_start [OF this] have f: "py_find (t @ g @ r) PIKA_FRAME_MARK 0 = Some 0" .
  have "0 < brace_delta t + brace_delta (take j (g @ r))" if "j \<le> length (g @ r)" for j
  proof (cases "j \<le> length g")
    case True
    then show ?thesis using t complete_frame_depth(2) [OF g True] by (simp add: truncated_frame_def)
  next
    case False
    then have "0 \<le> brace_delta (take (j - length g) r)" using r that by simp
    then show ?thesis using False t complete_frame_depth(1) [OF g] by (simp add: truncated_frame_def)
  qed
  then have "close_at (brace_delta t) (g @ r) = None" by (intro close_at_none) auto
  then have c: "close_at 0 (t @ g @ r) = None" using t by (simp add: close_at_append truncated_frame_def)
  have "find_json_resync loads (t @ g @ r) = find_json_resync loads (drop (length t) (t @ g @ r))"
    using next_mark by (subst find_json_resync.simps) (simp add: f c)
  also have "\<dots> = (r, Some v)" using resync_reads_frame [where loads = loads and v = v, OF g v] by simp
  finally show ?thesis .
qed

definition demo_truncated :: string where
  "demo_truncated = PIKA_FRAME_MARK @ [CHR 0x7B, CHR 0x0D]"

definition demo_frame :: string where
  "demo_frame = PIKA_FRAME_MARK @ [CHR 0x7B] @ ''1,'' @ [CHR 0x7D, CHR 0x7D]"

theorem truncated_frame_costs_one_frame_witness:
  "find_json_resync (\<lambda>s. Some (PStr s)) (demo_truncated @ demo_frame @ ''ab'')
     = (''ab'', Some (PStr (PIKA_FRAME_MARK @ [CHR 0x7B] @ ''1'' @ [CHR 0x7D, CHR 0x7D])))"
proof (rule truncated_frame_costs_one_frame)
  show "truncated_frame demo_truncated" by code_simp
  show "complete_frame demo_frame" by code_simp
  have "strip_trailing_commas demo_frame = PIKA_FRAME_MARK @ [CHR 0x7B] @ ''1'' @ [CHR 0x7D, CHR 0x7D]" by code_simp
  then show "Some (PStr (strip_trailing_commas demo_frame))
      = Some (PStr (PIKA_FRAME_MARK @ [CHR 0x7B] @ ''1'' @ [CHR 0x7D, CHR 0x7D]))" by simp
  have "list_all (\<lambda>j. 0 \<le> brace_delta (take j ''ab'')) [0..<3]" by code_simp
  then show "\<forall>j\<le>length ''ab''. 0 \<le> brace_delta (take j ''ab'')" by (auto simp: list_all_iff)
  show "py_find (demo_truncated @ demo_frame @ ''ab'') PIKA_FRAME_MARK 1 = Some (length demo_truncated)" by code_simp
qed

text \<open>(C23) The gripper gate: unless the rollout mode is \<^verbatim>\<open>real_policy\<close> with the configuration's and the
  environment's approval, or \<^verbatim>\<open>controller_sim\<close> on a backend that supports it, a dispatch never calls
  the backend: its state is unchanged and every considered command is answered as dropped and unsent.\<close>

theorem gripper_gate_protects_backend:
  assumes "\<not> (py_lower (py_strip (gr_rollout_mode rt)) = ''real_policy'' \<and> gr_allow_real_gripper_motion rt
               \<and> map_of (gr_env rt) REAL_GRIPPER_ENV = Some ''1'')"
    and "\<not> (py_lower (py_strip (gr_rollout_mode rt)) = ''controller_sim'' \<and> supports (gr_backend rt))"
  shows "\<exists>rt' rs. dispatch snd_fn supports concurrent sched cs rt = (rt', Inr rs) \<and> gr_backend rt' = gr_backend rt
    \<and> length rs = length (filter considered cs) \<and> list_all (\<lambda>r. dr_dropped r \<and> \<not> dr_sent_to_physical r) rs"
proof -
  have closed: "gripper_gate supports rt c \<noteq> None" for c using assms by (simp add: gripper_gate_def Let_def)
  obtain rt1 p where plan: "plan_commands supports rt cs = (rt1, p)" by fastforce
  note P = plan_commands_facts [OF plan]
  have all: "\<exists>r. i = PlanResult r \<and> result_ok (dr_command r) r \<and> dr_dropped r" if "i \<in> set p" for i
  proof (cases i)
    case (PlanResult r)
    with that P show ?thesis by auto
  next
    case (PlanSend x)
    with that P closed show ?thesis by blast
  qed
  then have none: "send_items p = []" by (induction p rule: send_items.induct) auto
  have "length p = length (filter considered cs)" using P by (metis length_map)
  moreover have "dr_dropped (item_result [] i) \<and> \<not> dr_sent_to_physical (item_result [] i)" if "i \<in> set p" for i
    using all [OF that] by (auto simp: result_ok_def)
  moreover have "\<forall>x. PlanSend x \<in> set p \<longrightarrow> map_of [] (fst x) \<noteq> None" using all by fastforce
  note collect = collect_results_eq [OF this]
  ultimately show ?thesis using P by (simp add: dispatch_def plan none collect list_all_iff)
qed

definition demo_pika :: PikaBackend where
  "demo_pika = \<lparr>pk_ports = [(''left'', ''a''), (''right'', ''b'')], pk_min_rad = Fin 0, pk_max_rad = Fin (83/50), pk_units = ''motor_fraction'',
     pk_deadband_rad = Fin (1/200), pk_min_period_sec = 0, pk_supports_controller_simulation = False, pk_home_on_connect = False,
     pk_enable_settle_sec = Fin (1/2), pk_home_timeout_sec = Fin 3, pk_home_settle_eps_rad = Fin (1/100), pk_home_poll_sec = Fin (1/20),
     pk_home_max_current_ma = Fin 400, pk_grippers = [''left'', ''right''], pk_targets = [(''left'', Fin 0), (''right'', Fin 0)],
     pk_last_sent = [], pk_sample_time = [], pk_home_suspect = []\<rparr>"

definition demo_runtime :: "string \<Rightarrow> PikaBackend GripperRuntime" where
  "demo_runtime mode = \<lparr>gr_rollout_mode = mode, gr_allow_real_gripper_motion = True, gr_backend = demo_pika,
     gr_env = [(''RB_ALLOW_REAL_GRIPPER'', ''1'')], gr_command_count = 0, gr_dropped_count = 0, gr_results = []\<rparr>"

definition demo_cmd :: "nat \<Rightarrow> string \<Rightarrow> rat \<Rightarrow> SendIo cmdobj" where
  "demo_cmd oid arm v = (oid, \<lparr>si_now = Fin 10, si_set_motor_angle = (\<lambda>_. Inr True)\<rparr>,
     \<lparr>gc_arm = arm, gc_value = Fin v, gc_command_type = ''delta'', gc_source = ''flow_policy''\<rparr>)"

theorem gripper_gate_protects_backend_witness:
  "\<exists>rt' rs. dispatch (pika_send id) pk_supports_controller_simulation False id [demo_cmd 0 ''left'' 5] (demo_runtime ''sim_dryrun'') = (rt', Inr rs)
     \<and> gr_backend rt' = demo_pika \<and> length rs = length (filter considered [demo_cmd 0 ''left'' 5])"
proof -
  have "py_lower (py_strip (gr_rollout_mode (demo_runtime ''sim_dryrun''))) = ''sim_dryrun''" by code_simp
  then show ?thesis
    using gripper_gate_protects_backend [of "demo_runtime ''sim_dryrun''" pk_supports_controller_simulation "pika_send id" False id "[demo_cmd 0 ''left'' 5]"]
    by (auto simp: demo_runtime_def)
qed

text \<open>A dispatch to the serial grippers accounts for every command: it never raises, whether it sends in
  sequence or in threads, it answers the considered commands in order with consistent results, and
  the command and drop counters advance by exactly the commands answered and dropped.\<close>

theorem dispatch_accounts_for_every_command:
  assumes "pika_ok (gr_backend rt)" and "consistent_objects cs" and "\<And>xs. set (sched xs) = set xs"
  shows "\<exists>rt' rs. dispatch (pika_send jaw) supports concurrent sched cs rt = (rt', Inr rs)
    \<and> map dr_command rs = map (\<lambda>x. snd (snd x)) (filter considered cs)
    \<and> (\<forall>r\<in>set rs. result_ok (dr_command r) r)
    \<and> gr_results rt' = gr_results rt @ rs
    \<and> gr_command_count rt' = gr_command_count rt + length rs
    \<and> gr_dropped_count rt' = gr_dropped_count rt + length (filter dr_dropped rs)"
  using pika.dispatch_accounts [OF assms] by blast

lemma demo_pika_ok: "pika_ok demo_pika"
  by (auto simp: pika_ok_def demo_pika_def isfinite_def in_range_def split: if_splits)

theorem dispatch_accounts_for_every_command_witness:
  "\<exists>rt' rs. dispatch (pika_send id) (\<lambda>_. False) True rev [demo_cmd 0 ''left'' 5, demo_cmd 1 ''right'' 0] (demo_runtime ''real_policy'') = (rt', Inr rs)
     \<and> gr_command_count rt' = length rs"
proof -
  have "pika_ok (gr_backend (demo_runtime ''real_policy''))" by (simp add: demo_runtime_def demo_pika_ok)
  moreover have "consistent_objects [demo_cmd 0 ''left'' 5, demo_cmd 1 ''right'' 0]"
    by (simp add: consistent_objects_def demo_cmd_def)
  ultimately obtain rt' rs where "dispatch (pika_send id) (\<lambda>_. False) True rev [demo_cmd 0 ''left'' 5, demo_cmd 1 ''right'' 0] (demo_runtime ''real_policy'') = (rt', Inr rs)"
    "gr_command_count rt' = gr_command_count (demo_runtime ''real_policy'') + length rs"
    using dispatch_accounts_for_every_command [of "demo_runtime ''real_policy''" "[demo_cmd 0 ''left'' 5, demo_cmd 1 ''right'' 0]" rev]
    by (metis set_rev)
  then show ?thesis by (simp add: demo_runtime_def)
qed

text \<open>A dispatch is a run of the sends in the planned order or in the threads' order, followed by
  collecting the results.\<close>

lemma dispatch_runs:
  assumes ok: "pika_ok (gr_backend rt)" and cons: "consistent_objects cs" and set: "\<And>xs. set (sched xs) = set xs"
    and plan: "plan_commands supports rt cs = (rtp, p)"
  shows "\<exists>os b sent. set os = set (send_items p) \<and> (os = send_items p \<or> os = sched (send_items p))
      \<and> send_threads (pika_send jaw) (gr_backend rt) [] os = (b, sent)
      \<and> dispatch (pika_send jaw) supports conc sched cs rt = collect_results sent (rtp\<lparr>gr_backend := b\<rparr>) p
      \<and> (\<forall>x. PlanSend x \<in> set p \<longrightarrow> map_of sent (fst x) \<noteq> None)"
proof -
  note P = plan_commands_facts [OF plan]
  from pika.dispatch_as_threads [OF ok plan set, of jaw conc] obtain os
    where os: "set os = set (send_items p)" "os = send_items p \<or> os = sched (send_items p)"
    and disp: "dispatch (pika_send jaw) supports conc sched cs rt =
      (let (b, sent) = send_threads (pika_send jaw) (gr_backend rt) [] os in collect_results sent (rtp\<lparr>gr_backend := b\<rparr>) p)" by blast
  obtain b sent where thr: "send_threads (pika_send jaw) (gr_backend rt) [] os = (b, sent)" by fastforce
  from P os(1) have "set os \<subseteq> set cs" by simp
  from pika.threads_keep [OF ok cons _ this thr] have "fst ` set sent = fst ` set os" by (simp add: sent_ok_def)
  then have "map_of sent (fst x) \<noteq> None" if "PlanSend x \<in> set p" for x
    using that P os(1) by (metis image_eqI map_of_eq_None_iff)
  moreover have "dispatch (pika_send jaw) supports conc sched cs rt = collect_results sent (rtp\<lparr>gr_backend := b\<rparr>) p"
    using disp by (simp add: thr)
  ultimately show ?thesis using os thr by blast
qed

text \<open>(C24) Concurrent dispatch is safe: for commands to different arms, in whatever order the threads run,
  the results, the counters and what the backend knows of each arm are the same as when the commands
  are sent one after the other.\<close>

theorem concurrent_dispatch_is_sequential:
  assumes ok: "pika_ok (gr_backend rt)" and objs: "distinct (map fst cs)" "distinct (map obj_arm cs)"
    and sched: "\<And>xs. set (sched xs) = set xs \<and> length (sched xs) = length xs"
  shows "\<exists>rt1 rt2 rs. dispatch (pika_send jaw) supports False sched cs rt = (rt1, Inr rs)
    \<and> dispatch (pika_send jaw) supports True sched cs rt = (rt2, Inr rs)
    \<and> arm_view (gr_backend rt1) = arm_view (gr_backend rt2)
    \<and> gr_command_count rt1 = gr_command_count rt2 \<and> gr_dropped_count rt1 = gr_dropped_count rt2
    \<and> gr_results rt1 = gr_results rt2"
proof -
  have set: "\<And>xs. set (sched xs) = set xs" using sched by blast
  have cons: "consistent_objects cs" using objs(1) by (auto simp: consistent_objects_def distinct_map inj_on_def)
  obtain rtp p where plan: "plan_commands supports rt cs = (rtp, p)" by fastforce
  let ?sends = "send_items p"
  have dist: "distinct (map fst ?sends)" "distinct (map obj_arm ?sends)"
    using plan_sends [of supports rt cs] objs by (simp_all add: plan distinct_map_filter)
  have perm: "distinct (map f os)" if "distinct (map f ?sends)" "os = ?sends \<or> os = sched ?sends" for f :: "SendIo cmdobj \<Rightarrow> 'x" and os
    using that sched [of ?sends] by (metis card_distinct distinct_card length_map list.set_map)
  note run = dispatch_runs [OF ok cons set plan, of jaw]
  from run [of False] obtain o1 b1 sent1 where A: "set o1 = set ?sends" "o1 = ?sends \<or> o1 = sched ?sends"
    "send_threads (pika_send jaw) (gr_backend rt) [] o1 = (b1, sent1)"
    "dispatch (pika_send jaw) supports False sched cs rt = collect_results sent1 (rtp\<lparr>gr_backend := b1\<rparr>) p"
    "\<forall>x. PlanSend x \<in> set p \<longrightarrow> map_of sent1 (fst x) \<noteq> None" by blast
  from run [of True] obtain o2 b2 sent2 where B: "set o2 = set ?sends" "o2 = ?sends \<or> o2 = sched ?sends"
    "send_threads (pika_send jaw) (gr_backend rt) [] o2 = (b2, sent2)"
    "dispatch (pika_send jaw) supports True sched cs rt = collect_results sent2 (rtp\<lparr>gr_backend := b2\<rparr>) p"
    "\<forall>x. PlanSend x \<in> set p \<longrightarrow> map_of sent2 (fst x) \<noteq> None" by blast
  have D1: "distinct (map fst o1)" "distinct (map obj_arm o1)" using perm [OF dist(1) A(2)] perm [OF dist(2) A(2)] by simp_all
  have D2: "distinct (map fst o2)" "distinct (map obj_arm o2)" using perm [OF dist(1) B(2)] perm [OF dist(2) B(2)] by simp_all
  have same: "set o2 = set o1" using A(1) B(1) by simp
  from threads_order_irrelevant [OF ok D1 D2 same A(3) B(3)] have eq: "arm_view b1 = arm_view b2" "map_of sent1 = map_of sent2" by simp_all
  have items: "item_result sent1 i = item_result sent2 i" for i :: "SendIo plan_item" using eq(2) by (cases i) simp_all
  show ?thesis using eq(1) items by (simp add: A(4) B(4) collect_results_eq [OF A(5)] collect_results_eq [OF B(5)] cong: filter_cong)
qed

theorem concurrent_dispatch_is_sequential_witness:
  "\<exists>rt1 rt2 rs.
     dispatch (pika_send id) (\<lambda>_. False) False rev [demo_cmd 0 ''left'' 5, demo_cmd 1 ''right'' 7] (demo_runtime ''real_policy'') = (rt1, Inr rs)
     \<and> dispatch (pika_send id) (\<lambda>_. False) True rev [demo_cmd 0 ''left'' 5, demo_cmd 1 ''right'' 7] (demo_runtime ''real_policy'') = (rt2, Inr rs)"
proof -
  have "pika_ok (gr_backend (demo_runtime ''real_policy''))" by (simp add: demo_runtime_def demo_pika_ok)
  moreover have "distinct (map fst [demo_cmd 0 ''left'' 5, demo_cmd 1 ''right'' 7])"
    "distinct (map obj_arm [demo_cmd 0 ''left'' 5, demo_cmd 1 ''right'' 7])" by (simp_all add: demo_cmd_def obj_arm_def)
  moreover have "\<And>xs. set (rev xs) = set xs \<and> length (rev xs) = length (xs :: SendIo cmdobj list)" by simp
  ultimately show ?thesis using concurrent_dispatch_is_sequential [of "demo_runtime ''real_policy''"] by blast
qed


definition demo_send_event :: "rat \<Rightarrow> pyfloat \<Rightarrow> PikaEvent" where
  "demo_send_event now v = EvSend now (\<lambda>_. Inr True)
     \<lparr>gc_arm = ''left'', gc_value = v, gc_command_type = ''target'', gc_source = ''flow_policy''\<rparr>"

definition demo_connect_event :: PikaEvent where
  "demo_connect_event = EvConnect True (\<lambda>_. \<lparr>co_exists = True, co_connect = Inr True, co_link = None, co_enable = Inr True,
     co_enabled_at = Fin 0, co_position = Inr (Fin 1)\<rparr>) (\<lambda>_. undefined) 0 1"


text \<open>Write spacing: of two successive angles written to one motor since it was last homed, the second
  comes at least the period \<open>1 / max_hz\<close> after the first and differs from it by at least the deadband.\<close>

theorem motor_writes_are_spaced:
  assumes "pika_init args (Fin hz) = Inr s" and "isfinite (pk_min_rad args)" and "isfinite (pk_max_rad args)"
    and "0 < hz" and "pk_deadband_rad args = Fin d" and "state_after (pika_step jaw) (s, []) es = (s', w)"
    and "Suc n < length (writes_of a w)" and "writes_of a w ! n = (a1, t1, x1)" and "writes_of a w ! Suc n = (a2, t2, x2)"
  shows "t1 + 1 / hz \<le> t2 \<and> \<not> fabs (x2 - x1) < Fin d"
proof -
  note I = pika_init_inv [OF assms(1-3)]
  have period: "pk_min_period_sec s = Fin (1 / hz)"
    using assms(1,4) by (auto simp: pika_init_def res_bind_Inr_iff split: if_splits)
  have inv: "pika_inv (s', w)" using pika_run.inv_run [OF I(1), of jaw es] by (simp add: assms(6))
  have "config_of s' = config_of s" using config_of_run [OF I(1), of jaw es] by (simp add: assms(6))
  from config_of_fields(4,5) [OF this] I(4) assms(5) period have cfg: "pk_deadband_rad s' = Fin d" "pk_min_period_sec s' = Fin (1 / hz)"
    by simp_all
  from inv have "successively (spaced s') (writes_of a w)" by (simp add: pika_inv_def log_ok_def)
  then have "spaced s' (writes_of a w ! n) (writes_of a w ! Suc n)" using assms(7) by (simp add: successively_conv_nth)
  with assms(4,8,9) cfg show ?thesis by (auto simp: spaced_def)
qed

theorem motor_writes_are_spaced_witness:
  "\<exists>s s' w t1 x1 t2 x2. pika_init demo_pika (Fin 60) = Inr s
     \<and> state_after (pika_step id) (s, []) [demo_connect_event, demo_send_event 1 (Fin 50), demo_send_event 2 (Fin 80)] = (s', w)
     \<and> writes_of ''left'' w = [(''left'', t1, x1), (''left'', t2, x2)] \<and> t1 + 1 / 60 \<le> t2"
proof -
  let ?es = "[demo_connect_event, demo_send_event 1 (Fin 50), demo_send_event 2 (Fin 80)]"
  have "\<exists>s. pika_init demo_pika (Fin 60) = Inr s" by (simp add: pika_init_def demo_pika_def GRIPPER_UNITS_def)
  then obtain s where s: "pika_init demo_pika (Fin 60) = Inr s" ..
  obtain s' w where r: "state_after (pika_step id) (s, []) ?es = (s', w)" by fastforce
  have "writes_of ''left'' (snd (state_after (pika_step id) (case pika_init demo_pika (Fin 60) of Inr s \<Rightarrow> (s, [])) ?es))
      = [(''left'', 1, Fin (83/100)), (''left'', 2, Fin (166/125))]"
    by code_simp
  then have w: "writes_of ''left'' w = [(''left'', 1, Fin (83/100)), (''left'', 2, Fin (166/125))]" by (simp only: s r sum.case snd_conv)
  from motor_writes_are_spaced [OF s _ _ _ _ r, of "1/200" 0 "''left''"] w have "(1::rat) + 1 / 60 \<le> 2"
    by (simp add: demo_pika_def isfinite_def)
  with s r w show ?thesis by blast
qed

end
