(* ===== verification/GripperServer.thy ===== *)
theory GripperServer
  imports Gripper
begin

text \<open>
  \<^verbatim>\<open>policy_runner/gripper_server.py\<close>: the stand-alone process that owns the serial grippers. It decodes
  command datagrams, keeps the latest setpoint per arm, applies the stale and dead-man policy, lets the
  contact-close controller search for an object with the motor current, drives the serial backend of
  \<open>Gripper\<close> and publishes the state. A step takes what the world does during it: the datagrams read, the
  clock, the motor readings and the outcomes of the serial writes. The latency probe, the log lines and
  the sockets are left out; the modelled server runs without \<^verbatim>\<open>latency_probe\<close>.
\<close>

section \<open>Commands\<close>

definition ARMS :: "string list" where
  "ARMS = [''left'', ''right'']"

definition COMMAND_SCHEMA :: string where
  "COMMAND_SCHEMA = ''robotics_lab.gripper_cmd.v1''"

definition STATE_SCHEMA :: string where
  "STATE_SCHEMA = ''robotics_lab.gripper_state.v1''"

record CommandMsg =
  cm_deadman :: bool
  cm_host_time_ns :: "pyval option"
  cm_arms :: "(string \<times> pyfloat) list"

definition positive_number :: "pyval \<Rightarrow> bool" where
  "positive_number v = (case num_value v of None \<Rightarrow> False | Some x \<Rightarrow> Fin 0 < x)"

text \<open>One arm's block: no setpoint, a setpoint clamped to the range, or an exception.\<close>

definition parse_arm :: "pydict \<Rightarrow> string \<Rightarrow> pyfloat option res" where
  "parse_arm msg arm =
     (case dget msg arm of
        PDict block \<Rightarrow>
          if \<not> truthy (dget_or block ''valid'' (PBool True)) then Inr None
          else (case float_checked (dget block ''percent'') of
                  Inl (TypeError _) \<Rightarrow> Inr None
                | Inl (ValueError _) \<Rightarrow> Inr None
                | Inl e \<Rightarrow> Inl e
                | Inr pct \<Rightarrow> Inr (if isfinite pct then Some (pymax (Fin 0) (pymin (Fin 100) pct)) else None))
      | _ \<Rightarrow> Inr None)"

definition parse_arms :: "pydict \<Rightarrow> (string \<times> pyfloat) list res" where
  "parse_arms msg =
     res_bind (parse_arm msg ''left'') (\<lambda>l.
     res_bind (parse_arm msg ''right'') (\<lambda>r.
     Inr ((case l of None \<Rightarrow> [] | Some x \<Rightarrow> [(''left'', x)]) @ (case r of None \<Rightarrow> [] | Some x \<Rightarrow> [(''right'', x)]))))"

text \<open>A datagram is None when it is not UTF-8 JSON.\<close>

definition parse_command :: "pyval option \<Rightarrow> CommandMsg option res" where
  "parse_command data =
     (case data of
        Some (PDict msg) \<Rightarrow>
          if dget msg ''schema'' \<noteq> PStr COMMAND_SCHEMA then Inr None
          else res_bind (parse_arms msg) (\<lambda>arms.
            Inr (Some \<lparr>cm_deadman = truthy (dget_or msg ''deadman'' (PBool True)),
                   cm_host_time_ns = (if positive_number (dget msg ''host_time_ns'') then Some (dget msg ''host_time_ns'') else None),
                   cm_arms = arms\<rparr>))
      | _ \<Rightarrow> Inr None)"

section \<open>Contact close\<close>

record ContactCloseConfig =
  cx_enable :: bool
  cx_arm_below_mm :: pyfloat
  cx_release_hysteresis_mm :: pyfloat
  cx_current_ma :: pyfloat
  cx_sustain_ms :: pyfloat
  cx_creep_mm_s :: pyfloat
  cx_min_mm :: pyfloat
  cx_squeeze_mm :: pyfloat

datatype ContactState = Idle | Seeking | Holding | Empty

record ArmContact =
  ac_state :: ContactState
  ac_seek :: pyfloat
  ac_latched :: "pyfloat option"
  ac_hold_sec :: pyfloat

record ContactClose =
  cc_config :: ContactCloseConfig
  cc_arms :: "string \<Rightarrow> ArmContact"
  cc_last :: "pyfloat option"

definition contact_init :: "ContactCloseConfig \<Rightarrow> ContactClose" where
  "contact_init cfg = \<lparr>cc_config = cfg, cc_arms = (\<lambda>_. \<lparr>ac_state = Idle, ac_seek = Fin 0, ac_latched = None, ac_hold_sec = Fin 0\<rparr>), cc_last = None\<rparr>"

definition contact_reset :: "ArmContact \<Rightarrow> ArmContact" where
  "contact_reset a = a\<lparr>ac_state := Idle, ac_latched := None, ac_hold_sec := Fin 0\<rparr>"

definition state_str :: "ContactState \<Rightarrow> string" where
  "state_str s = (case s of Idle \<Rightarrow> ''idle'' | Seeking \<Rightarrow> ''seeking'' | Holding \<Rightarrow> ''holding'' | Empty \<Rightarrow> ''empty'')"

definition contact_grip :: "ArmContact \<Rightarrow> bool option" where
  "contact_grip a = (case ac_state a of Holding \<Rightarrow> Some True | Empty \<Rightarrow> Some False | _ \<Rightarrow> None)"

definition seek_target :: "ArmContact \<Rightarrow> pyfloat option" where
  "seek_target a = (if ac_state a = Idle then None else Some (ac_seek a))"

definition over_current :: "ContactCloseConfig \<Rightarrow> pyfloat option \<Rightarrow> bool" where
  "over_current cfg amps = (case amps of None \<Rightarrow> False | Some x \<Rightarrow> cx_current_ma cfg \<le> fabs x)"

text \<open>One search step: latch on sustained current, otherwise creep on and give up at the floor.\<close>

definition seek_step :: "ContactCloseConfig \<Rightarrow> pyfloat \<Rightarrow> pyfloat option \<Rightarrow> pyfloat option \<Rightarrow> ArmContact \<Rightarrow> ArmContact" where
  "seek_step cfg dt here amps a =
     (let over = over_current cfg amps; hold = (if over then ac_hold_sec a + dt else Fin 0); a1 = a\<lparr>ac_hold_sec := hold\<rparr> in
      if over \<and> cx_sustain_ms cfg * Fin (1/1000) \<le> hold then
        a1\<lparr>ac_latched := Some (pymax (cx_min_mm cfg) ((case here of Some h \<Rightarrow> h | None \<Rightarrow> ac_seek a) - cx_squeeze_mm cfg)), ac_state := Holding\<rparr>
      else
        (let seek = pymax (cx_min_mm cfg) (ac_seek a - cx_creep_mm_s cfg * dt); a2 = a1\<lparr>ac_seek := seek\<rparr> in
         if seek \<le> cx_min_mm cfg \<and> (case here of None \<Rightarrow> False | Some h \<Rightarrow> h \<le> cx_min_mm cfg + Fin 1)
           then a2\<lparr>ac_state := Empty, ac_latched := Some (cx_min_mm cfg)\<rparr> else a2))"

definition contact_arm :: "ContactCloseConfig \<Rightarrow> pyfloat \<Rightarrow> pyfloat option \<Rightarrow> pyfloat option \<Rightarrow> pyfloat option \<Rightarrow> ArmContact
    \<Rightarrow> ArmContact \<times> pyfloat option" where
  "contact_arm cfg dt cmd here amps a =
     (case cmd of
        None \<Rightarrow> (contact_reset a, None)
      | Some c \<Rightarrow>
          if ac_state a = Idle \<and> cx_arm_below_mm cfg < c then (a, Some c)
          else if ac_state a \<noteq> Idle \<and> cx_arm_below_mm cfg + cx_release_hysteresis_mm cfg < c then (contact_reset a, Some c)
          else (let a1 = (if ac_state a = Idle then a\<lparr>ac_state := Seeking, ac_seek := c, ac_hold_sec := Fin 0\<rparr> else a);
                    a2 = (if ac_state a1 = Seeking then seek_step cfg dt here amps a1 else a1);
                    target = (if ac_state a2 \<in> {Holding, Empty} then ac_latched a2 else Some (ac_seek a2))
                in (a2, Some (case target of None \<Rightarrow> c | Some t \<Rightarrow> pymin c t))))"

definition elapsed :: "ContactClose \<Rightarrow> pyfloat \<Rightarrow> pyfloat" where
  "elapsed k now = (case cc_last k of None \<Rightarrow> Fin 0 | Some l \<Rightarrow> pymax (Fin 0) (now - l))"

type_synonym per_arm = "string \<Rightarrow> pyfloat option"

definition contact_apply :: "ContactClose \<Rightarrow> per_arm \<Rightarrow> per_arm \<Rightarrow> per_arm \<Rightarrow> pyfloat \<Rightarrow> ContactClose \<times> per_arm" where
  "contact_apply k targets measured current_ma now =
     (let k1 = k\<lparr>cc_last := Some now\<rparr> in
      if \<not> cx_enable (cc_config k) then (k1, targets)
      else let r = (\<lambda>arm. contact_arm (cc_config k) (elapsed k now) (targets arm) (measured arm) (current_ma arm) (cc_arms k arm))
           in (k1\<lparr>cc_arms := (\<lambda>arm. if arm \<in> set ARMS then fst (r arm) else cc_arms k arm)\<rparr>,
               (\<lambda>arm. if arm \<in> set ARMS then snd (r arm) else None)))"

section \<open>The server\<close>

record ServerConfig =
  sv_stale_timeout_sec :: pyfloat
  sv_on_stale :: string
  sv_contact_close :: ContactCloseConfig

record ServerStats =
  ss_command_packets :: nat
  ss_command_arm_setpoints :: nat
  ss_backend_send_calls :: nat
  ss_physical_sends :: nat
  ss_rate_limited :: nat
  ss_deadband_holds :: nat
  ss_backend_drops :: nat
  ss_last_reason :: "string \<Rightarrow> string option"
  ss_last_target :: "string \<Rightarrow> pyfloat option"
  ss_last_actual :: "string \<Rightarrow> pyfloat option"

record Server =
  gs_config :: ServerConfig
  gs_backend :: PikaBackend
  gs_cmd_target :: "string \<Rightarrow> pyfloat option"
  gs_cmd_time :: "string \<Rightarrow> pyfloat option"
  gs_deadman :: bool
  gs_stats :: ServerStats
  gs_contact :: ContactClose
  gs_cmd_age_ms :: "pyfloat list"

definition server_init :: "ServerConfig \<Rightarrow> PikaBackend \<Rightarrow> Server" where
  "server_init cfg backend =
     \<lparr>gs_config = cfg, gs_backend = backend, gs_cmd_target = (\<lambda>_. None), gs_cmd_time = (\<lambda>_. None), gs_deadman = True,
      gs_stats = \<lparr>ss_command_packets = 0, ss_command_arm_setpoints = 0, ss_backend_send_calls = 0, ss_physical_sends = 0,
        ss_rate_limited = 0, ss_deadband_holds = 0, ss_backend_drops = 0, ss_last_reason = (\<lambda>_. None),
        ss_last_target = (\<lambda>_. None), ss_last_actual = (\<lambda>_. None)\<rparr>,
      gs_contact = contact_init (sv_contact_close cfg), gs_cmd_age_ms = []\<rparr>"

definition note_age :: "Server \<Rightarrow> pyval option \<Rightarrow> pyfloat \<Rightarrow> Server res" where
  "note_age s stamp now =
     (case stamp of
        None \<Rightarrow> Inr s
      | Some v \<Rightarrow>
          res_bind (float_checked v) (\<lambda>sent.
          (let age_ms = now * Fin 1000 - sent * Fin (1 / 10 ^ 6)
           in Inr (if Fin (-1) \<le> age_ms \<and> age_ms \<le> Fin 5000 then s\<lparr>gs_cmd_age_ms := gs_cmd_age_ms s @ [age_ms]\<rparr> else s))))"

fun set_targets :: "Server \<Rightarrow> (string \<times> pyfloat) list \<Rightarrow> pyfloat \<Rightarrow> Server" where
  "set_targets s [] now = s"
| "set_targets s ((arm, pct) # rest) now =
     set_targets (if arm \<in> set ARMS then s\<lparr>gs_cmd_target := (gs_cmd_target s)(arm := Some pct), gs_cmd_time := (gs_cmd_time s)(arm := Some now)\<rparr> else s)
       rest now"

definition apply_command :: "Server \<Rightarrow> CommandMsg \<Rightarrow> pyfloat \<Rightarrow> Server \<times> unit res" where
  "apply_command s msg now =
     (let st = gs_stats s; s1 = s\<lparr>gs_deadman := cm_deadman msg, gs_stats := st\<lparr>ss_command_packets := ss_command_packets st + 1\<rparr>\<rparr> in
      case note_age s1 (cm_host_time_ns msg) now of
        Inl e \<Rightarrow> (s1, Inl e)
      | Inr s2 \<Rightarrow>
          (let st2 = gs_stats s2
           in (set_targets (s2\<lparr>gs_stats := st2\<lparr>ss_command_arm_setpoints := ss_command_arm_setpoints st2 + length (cm_arms msg)\<rparr>\<rparr>) (cm_arms msg) now, Inr ())))"

fun drain_commands :: "Server \<Rightarrow> pyval option list \<Rightarrow> pyfloat \<Rightarrow> Server \<times> unit res" where
  "drain_commands s [] now = (s, Inr ())"
| "drain_commands s (d # ds) now =
     (case parse_command d of
        Inl e \<Rightarrow> (s, Inl e)
      | Inr None \<Rightarrow> drain_commands s ds now
      | Inr (Some msg) \<Rightarrow>
          (case apply_command s msg now of (s1, Inl e) \<Rightarrow> (s1, Inl e) | (s1, Inr _) \<Rightarrow> drain_commands s1 ds now))"

definition effective_targets :: "Server \<Rightarrow> pyfloat \<Rightarrow> per_arm" where
  "effective_targets s now arm =
     (if arm \<notin> set ARMS then None
      else let fresh = (gs_deadman s \<and> (case gs_cmd_time s arm of None \<Rightarrow> False | Some t \<Rightarrow> now - t \<le> sv_stale_timeout_sec (gs_config s)))
           in if fresh then gs_cmd_target s arm
              else if sv_on_stale (gs_config s) = ''open'' then Some (Fin 100)
              else if sv_on_stale (gs_config s) = ''close'' then Some (Fin 0)
              else gs_cmd_target s arm)"

definition round_dec :: "nat \<Rightarrow> pyfloat \<Rightarrow> pyfloat" where
  "round_dec n x = (case x of Fin q \<Rightarrow> Fin (of_int (round_half_even (q * 10 ^ n)) / 10 ^ n) | _ \<Rightarrow> x)"

text \<open>The server's view of the motor current.\<close>

definition server_current :: "PikaBackend \<Rightarrow> string \<Rightarrow> pyfloat res \<Rightarrow> pyfloat option" where
  "server_current b arm current = map_option (round_dec 1) (motor_current_ma b arm current)"

definition record_backend_result :: "ServerStats \<Rightarrow> string \<Rightarrow> pyfloat \<Rightarrow> GripperDispatchResult \<Rightarrow> ServerStats" where
  "record_backend_result st arm pct r =
     (let st1 = st\<lparr>ss_backend_send_calls := ss_backend_send_calls st + 1, ss_last_target := (ss_last_target st)(arm := Some pct),
                   ss_last_reason := (ss_last_reason st)(arm := Some (dr_reason r))\<rparr>;
          st2 = (if dr_sent_to_physical r then st1\<lparr>ss_physical_sends := ss_physical_sends st1 + 1\<rparr>
                 else if dr_reason r = ''gripper_rate_limited'' then st1\<lparr>ss_rate_limited := ss_rate_limited st1 + 1\<rparr>
                 else if dr_reason r = ''gripper_deadband_hold'' then st1\<lparr>ss_deadband_holds := ss_deadband_holds st1 + 1\<rparr>
                 else st1)
      in if dr_dropped r then st2\<lparr>ss_backend_drops := ss_backend_drops st2 + 1\<rparr> else st2)"

definition record_backend_exception :: "ServerStats \<Rightarrow> string \<Rightarrow> pyfloat \<Rightarrow> pyexc \<Rightarrow> ServerStats" where
  "record_backend_exception st arm pct e =
     st\<lparr>ss_backend_send_calls := ss_backend_send_calls st + 1, ss_backend_drops := ss_backend_drops st + 1,
        ss_last_target := (ss_last_target st)(arm := Some pct), ss_last_reason := (ss_last_reason st)(arm := Some (''backend_exception:'' @ exc_name e))\<rparr>"

definition drive_arm :: "(rat \<Rightarrow> rat) \<Rightarrow> (string \<Rightarrow> SendIo) \<Rightarrow> per_arm \<Rightarrow> Server \<Rightarrow> string \<Rightarrow> Server" where
  "drive_arm jaw io drive s arm =
     (case drive arm of
        None \<Rightarrow> s
      | Some pct \<Rightarrow>
          (case res_bind (gripper_command arm pct ''target'' ''gripper_server'') (pika_send jaw (gs_backend s) (io arm)) of
             Inl e \<Rightarrow> s\<lparr>gs_stats := record_backend_exception (gs_stats s) arm pct e\<rparr>
           | Inr (b, r) \<Rightarrow> s\<lparr>gs_backend := b, gs_stats := record_backend_result (gs_stats s) arm pct r\<rparr>))"

text \<open>What the world does during one step.\<close>

record StepIo =
  io_now :: pyfloat
  io_datagrams :: "pyval option list"
  io_position :: "string \<Rightarrow> pyfloat res"
  io_current :: "string \<Rightarrow> pyfloat res"
  io_send :: "string \<Rightarrow> SendIo"
  io_state_position :: "string \<Rightarrow> pyfloat res"
  io_state_current :: "string \<Rightarrow> pyfloat res"
  io_state_now :: "string \<Rightarrow> pyfloat"
  io_host_time_ns :: int

definition pyopt_float :: "pyfloat option \<Rightarrow> pyval" where
  "pyopt_float v = (case v of None \<Rightarrow> PNone | Some x \<Rightarrow> PFloat x)"

definition jaw_moving :: "pyfloat option \<Rightarrow> pyfloat option res \<Rightarrow> pyfloat option \<Rightarrow> bool" where
  "jaw_moving actual held target =
     (let h = (case held of Inl _ \<Rightarrow> None | Inr x \<Rightarrow> x);
          reference = (if h \<noteq> None \<and> target \<noteq> None then h else target)
      in case (actual, reference) of (Some a, Some r) \<Rightarrow> Fin 1 < fabs (a - r) | _ \<Rightarrow> False)"

definition arm_state_block :: "(rat \<Rightarrow> rat) \<Rightarrow> Server \<Rightarrow> StepIo \<Rightarrow> per_arm \<Rightarrow> string \<Rightarrow> pyval" where
  "arm_state_block jaw s io targets arm =
     (let b = gs_backend s; actual = current_percent jaw b arm (io_state_position io arm)
      in PDict [(''percent'', pyopt_float (map_option (round_dec 2) actual)), (''target_percent'', pyopt_float (map_option (round_dec 2) (targets arm))),
           (''moving'', PBool (jaw_moving actual (target_units jaw b arm) (targets arm))), (''ok'', PBool (actual \<noteq> None)), (''fault'', PNone),
           (''sample_age_ms'', pyopt_float (map_option (\<lambda>x. round_dec 3 (x * Fin 1000)) (sample_age_sec b arm (io_state_now io arm)))),
           (''current_ma'', pyopt_float (server_current b arm (io_state_current io arm))),
           (''contact_close'', PStr (state_str (ac_state (cc_arms (gs_contact s) arm)))),
           (''grip'', case contact_grip (cc_arms (gs_contact s) arm) of None \<Rightarrow> PNone | Some g \<Rightarrow> PBool g)])"

definition build_state :: "(rat \<Rightarrow> rat) \<Rightarrow> Server \<Rightarrow> StepIo \<Rightarrow> per_arm \<Rightarrow> Server \<times> pydict" where
  "build_state jaw s io targets =
     (let st = gs_stats s
      in (s\<lparr>gs_stats := st\<lparr>ss_last_actual := (\<lambda>arm. if arm \<in> set ARMS then current_percent jaw (gs_backend s) arm (io_state_position io arm)
                                                  else ss_last_actual st arm)\<rparr>\<rparr>,
          (''schema'', PStr STATE_SCHEMA) # (''host_time_ns'', PInt (io_host_time_ns io))
            # map (\<lambda>arm. (arm, arm_state_block jaw s io targets arm)) ARMS))"

text \<open>The planning half of a step: the policy's targets and what is driven.\<close>

definition plan_step :: "(rat \<Rightarrow> rat) \<Rightarrow> Server \<Rightarrow> StepIo \<Rightarrow> Server \<times> per_arm \<times> per_arm" where
  "plan_step jaw s io =
     (let targets = effective_targets s (io_now io);
          (k, drive) = contact_apply (gs_contact s) targets
             (\<lambda>arm. current_percent jaw (gs_backend s) arm (io_position io arm))
             (\<lambda>arm. server_current (gs_backend s) arm (io_current io arm)) (io_now io)
      in (s\<lparr>gs_contact := k\<rparr>, targets, drive))"

definition server_step :: "(rat \<Rightarrow> rat) \<Rightarrow> Server \<Rightarrow> StepIo \<Rightarrow> Server \<times> pydict res" where
  "server_step jaw s io =
     (case drain_commands s (io_datagrams io) (io_now io) of
        (s1, Inl e) \<Rightarrow> (s1, Inl e)
      | (s1, Inr _) \<Rightarrow>
          (let (s2, targets, drive) = plan_step jaw s1 io;
               s3 = foldl (drive_arm jaw (io_send io) drive) s2 ARMS;
               (s4, msg) = build_state jaw s3 io targets
           in (s4\<lparr>gs_cmd_age_ms := []\<rparr>, Inr msg)))"

definition server_close :: "Server \<Rightarrow> Server" where
  "server_close s = s\<lparr>gs_backend := pika_close (gs_backend s)\<rparr>"

section \<open>Ranges\<close>

definition in_percent :: "pyfloat \<Rightarrow> bool" where
  "in_percent x = (\<exists>q. x = Fin q \<and> 0 \<le> q \<and> q \<le> 100)"

lemma clamp_percent: "isfinite x \<Longrightarrow> in_percent (pymax (Fin 0) (pymin (Fin 100) x))"
  by (cases x) (auto simp: isfinite_def in_percent_def pymax_def pymin_def)

lemma floor_nonneg: "0 \<le> m \<Longrightarrow> Fin 0 \<le> pymax (Fin m) y"
  by (cases y) (auto simp: pymax_def less_eq_pyfloat_def)

lemma pymin_closer: "0 \<le> c \<Longrightarrow> Fin 0 \<le> t \<Longrightarrow> \<exists>q. pymin (Fin c) t = Fin q \<and> 0 \<le> q \<and> q \<le> c"
  by (cases t) (auto simp: pymin_def)

text \<open>The search never holds a negative opening.\<close>

definition contact_ok :: "ArmContact \<Rightarrow> bool" where
  "contact_ok a = ((ac_state a = Seeking \<longrightarrow> Fin 0 \<le> ac_seek a) \<and> (\<forall>l. ac_latched a = Some l \<longrightarrow> Fin 0 \<le> l))"

lemma seek_step_ok:
  assumes "cx_min_mm cfg = Fin m" and "0 \<le> m" and "contact_ok a"
  shows "contact_ok (seek_step cfg dt here amps a)" and "ac_state a = Seeking \<Longrightarrow> ac_state (seek_step cfg dt here amps a) \<noteq> Idle"
  using assms floor_nonneg [OF assms(2)] by (auto simp: seek_step_def Let_def contact_ok_def)

lemma contact_arm_closer:
  assumes "cx_min_mm cfg = Fin m" and "0 \<le> m" and "contact_ok a" and "\<And>c. cmd = Some c \<Longrightarrow> in_percent c"
    and "contact_arm cfg dt cmd here amps a = (a', out)"
  shows "contact_ok a'" and "cmd = None \<longleftrightarrow> out = None"
    and "cmd = Some (Fin c) \<Longrightarrow> out = Some d \<Longrightarrow> \<exists>q. d = Fin q \<and> 0 \<le> q \<and> q \<le> c"
proof -
  define a1 where "a1 = (case cmd of Some c \<Rightarrow> if ac_state a = Idle then a\<lparr>ac_state := Seeking, ac_seek := c, ac_hold_sec := Fin 0\<rparr> else a | None \<Rightarrow> a)"
  define a2 where "a2 = (if ac_state a1 = Seeking then seek_step cfg dt here amps a1 else a1)"
  have ok1: "contact_ok a1" using assms(3,4) by (auto simp: a1_def contact_ok_def in_percent_def split: option.split)
  have ok2: "contact_ok a2" using seek_step_ok(1) [OF assms(1,2) ok1] ok1 by (simp add: a2_def)
  have reset: "contact_ok (contact_reset a)" by (simp add: contact_reset_def contact_ok_def)
  show "contact_ok a'" "cmd = None \<longleftrightarrow> out = None"
    using assms(3,5) reset ok2 unfolding contact_arm_def Let_def a2_def a1_def by (auto split: option.splits if_splits)
  assume c: "cmd = Some (Fin c)" and d: "out = Some d"
  have c0: "0 \<le> c" using assms(4) [OF c] by (simp add: in_percent_def)
  show "\<exists>q. d = Fin q \<and> 0 \<le> q \<and> q \<le> c"
  proof (cases "ac_state a = Idle \<and> cx_arm_below_mm cfg < Fin c \<or> ac_state a \<noteq> Idle \<and> cx_arm_below_mm cfg + cx_release_hysteresis_mm cfg < Fin c")
    case True
    then have "d = Fin c" using assms(5) c d by (auto simp: contact_arm_def Let_def split: if_splits)
    with c0 show ?thesis by simp
  next
    case False
    then have d: "d = (case (if ac_state a2 \<in> {Holding, Empty} then ac_latched a2 else Some (ac_seek a2)) of None \<Rightarrow> Fin c | Some t \<Rightarrow> pymin (Fin c) t)"
      using assms(5) c d unfolding contact_arm_def Let_def a2_def a1_def by (auto split: if_splits)
    have "Fin 0 \<le> t" if "(if ac_state a2 \<in> {Holding, Empty} then ac_latched a2 else Some (ac_seek a2)) = Some t" for t
    proof (cases "ac_state a2 \<in> {Holding, Empty}")
      case True
      with that ok2 show ?thesis by (simp add: contact_ok_def)
    next
      case False
      have "ac_state a1 \<noteq> Idle" by (simp add: a1_def c)
      then have "ac_state a2 \<noteq> Idle" using seek_step_ok(2) [OF assms(1,2) ok1] by (auto simp: a2_def)
      with False have "ac_state a2 = Seeking" by (cases "ac_state a2") auto
      with that ok2 show ?thesis by (auto simp: contact_ok_def)
    qed
    with d c0 pymin_closer [OF c0] show ?thesis by (cases "if ac_state a2 \<in> {Holding, Empty} then ac_latched a2 else Some (ac_seek a2)") auto
  qed
qed

section \<open>The invariant of the server\<close>

text \<open>Every send is counted once: as a write, as held back by the rate limit or the deadband, or as dropped.\<close>

definition stats_ok :: "ServerStats \<Rightarrow> bool" where
  "stats_ok st = (ss_backend_send_calls st = ss_physical_sends st + ss_rate_limited st + ss_deadband_holds st + ss_backend_drops st)"

definition server_ok :: "rat \<Rightarrow> Server \<Rightarrow> bool" where
  "server_ok m s = (pika_ok (gs_backend s) \<and> stats_ok (gs_stats s) \<and> cx_min_mm (cc_config (gs_contact s)) = Fin m
     \<and> (\<forall>arm. contact_ok (cc_arms (gs_contact s) arm)) \<and> (\<forall>arm c. gs_cmd_target s arm = Some c \<longrightarrow> in_percent c))"

lemma parse_arm_percent: "parse_arm msg arm = Inr (Some x) \<Longrightarrow> in_percent x"
  by (auto simp: parse_arm_def clamp_percent split: pyval.splits sum.splits pyexc.splits if_splits)

lemma parse_command_percent: "parse_command d = Inr (Some msg) \<Longrightarrow> list_all (\<lambda>p. in_percent (snd p)) (cm_arms msg)"
  by (auto simp: parse_command_def parse_arms_def res_bind_Inr_iff parse_arm_percent split: option.splits pyval.splits if_splits)

lemma set_targets_ok:
  "server_ok m s \<Longrightarrow> list_all (\<lambda>p. in_percent (snd p)) ps \<Longrightarrow> server_ok m (set_targets s ps now)"
proof (induction s ps now rule: set_targets.induct)
  case (2 s arm pct rest now)
  have "server_ok m (if arm \<in> set ARMS then s\<lparr>gs_cmd_target := (gs_cmd_target s)(arm := Some pct), gs_cmd_time := (gs_cmd_time s)(arm := Some now)\<rparr> else s)"
    using 2(2,3) by (auto simp: server_ok_def)
  from 2(1) [OF this] 2(3) show ?case by simp
qed simp

lemma apply_command_ok:
  assumes "server_ok m s" and "list_all (\<lambda>p. in_percent (snd p)) (cm_arms msg)"
  shows "server_ok m (fst (apply_command s msg now))"
proof -
  let ?s1 = "s\<lparr>gs_deadman := cm_deadman msg, gs_stats := (gs_stats s)\<lparr>ss_command_packets := ss_command_packets (gs_stats s) + 1\<rparr>\<rparr>"
  have s1: "server_ok m ?s1" using assms(1) by (simp add: server_ok_def stats_ok_def)
  have age: "server_ok m s2" if "note_age ?s1 v now = Inr s2" for v s2
    using s1 that by (auto simp: note_age_def Let_def res_bind_Inr_iff server_ok_def split: option.splits if_splits)
  have "server_ok m (set_targets (s2\<lparr>gs_stats := (gs_stats s2)\<lparr>ss_command_arm_setpoints := k\<rparr>\<rparr>) (cm_arms msg) now)" if "server_ok m s2" for s2 k
    using that assms(2) by (intro set_targets_ok) (auto simp: server_ok_def stats_ok_def)
  with s1 age show ?thesis by (auto simp: apply_command_def Let_def split: sum.split)
qed

lemma drain_commands_ok: "server_ok m s \<Longrightarrow> server_ok m (fst (drain_commands s ds now))"
proof (induction s ds now rule: drain_commands.induct)
  case (2 s d ds now)
  show ?case
  proof (cases "parse_command d")
    case (Inr o')
    show ?thesis
    proof (cases o')
      case (Some msg)
      obtain s1 r where a: "apply_command s msg now = (s1, r)" by fastforce
      have "server_ok m s1" using apply_command_ok [OF 2(3)] parse_command_percent Inr Some a by (metis fst_conv)
      with 2(2) [OF Inr [unfolded Some] refl a [symmetric]] show ?thesis by (cases r) (simp_all add: Inr Some a)
    qed (use 2 Inr in simp)
  qed (use 2 in simp)
qed simp

lemma effective_percent: "server_ok m s \<Longrightarrow> effective_targets s now arm = Some c \<Longrightarrow> in_percent c"
  by (auto simp: effective_targets_def Let_def server_ok_def in_percent_def split: if_splits)

lemma plan_step_facts:
  assumes ok: "server_ok m s" and m: "0 \<le> m" and plan: "plan_step jaw s io = (s', targets, drive)"
  shows "server_ok m s'" and "targets = effective_targets s (io_now io)" and "drive arm = None \<longleftrightarrow> targets arm = None"
    and "targets arm = Some c \<Longrightarrow> drive arm = Some d \<Longrightarrow> \<exists>q p. c = Fin p \<and> d = Fin q \<and> 0 \<le> q \<and> q \<le> p \<and> p \<le> 100"
proof -
  let ?k = "gs_contact s" and ?t = "effective_targets s (io_now io)"
  let ?r = "\<lambda>arm. contact_arm (cc_config ?k) (elapsed ?k (io_now io)) (?t arm) (current_percent jaw (gs_backend s) arm (io_position io arm))
     (server_current (gs_backend s) arm (io_current io arm)) (cc_arms ?k arm)"
  have mm: "cx_min_mm (cc_config ?k) = Fin m" and cok: "contact_ok (cc_arms ?k arm)" for arm using ok by (simp_all add: server_ok_def)
  have C: "contact_ok (fst (?r arm))" "?t arm = None \<longleftrightarrow> snd (?r arm) = None"
    "?t arm = Some (Fin c) \<Longrightarrow> snd (?r arm) = Some d \<Longrightarrow> \<exists>q. d = Fin q \<and> 0 \<le> q \<and> q \<le> c" for arm c d
  proof -
    obtain a' out where r: "?r arm = (a', out)" by (cases "?r arm")
    note K = contact_arm_closer [OF mm m cok effective_percent [OF ok, of "io_now io" arm] r]
    show "contact_ok (fst (?r arm))" "?t arm = None \<longleftrightarrow> snd (?r arm) = None"
      "?t arm = Some (Fin c) \<Longrightarrow> snd (?r arm) = Some d \<Longrightarrow> \<exists>q. d = Fin q \<and> 0 \<le> q \<and> q \<le> c"
      unfolding r fst_conv snd_conv using K by simp_all
  qed
  have t: "targets = ?t" using plan by (auto simp: plan_step_def Let_def split: prod.splits)
  then show "targets = effective_targets s (io_now io)" .
  have en: "cx_enable (cc_config ?k) \<Longrightarrow> drive arm = (if arm \<in> set ARMS then snd (?r arm) else None)"
    "\<not> cx_enable (cc_config ?k) \<Longrightarrow> drive = targets" for arm
    using plan t by (auto simp: plan_step_def contact_apply_def Let_def)
  have none: "arm \<notin> set ARMS \<Longrightarrow> ?t arm = None" by (simp add: effective_targets_def)
  show "drive arm = None \<longleftrightarrow> targets arm = None"
    using en C(2) [of arm] none t by (cases "cx_enable (cc_config ?k)") auto
  show "server_ok m s'"
    using plan ok C(1) by (auto simp: plan_step_def contact_apply_def Let_def server_ok_def split: if_splits)
  assume c: "targets arm = Some c" and d: "drive arm = Some d"
  from effective_percent [OF ok c [unfolded t]] obtain p where p: "c = Fin p" "0 \<le> p" "p \<le> 100" by (auto simp: in_percent_def)
  show "\<exists>q p. c = Fin p \<and> d = Fin q \<and> 0 \<le> q \<and> q \<le> p \<and> p \<le> 100"
  proof (cases "cx_enable (cc_config ?k)")
    case True
    with en(1) d have "snd (?r arm) = Some d" by (auto split: if_splits)
    with C(3) [of arm p d] c p t show ?thesis by auto
  qed (use en(2) c d p in auto)
qed

lemma pika_send_counted:
  assumes "pika_send jaw b io c = Inr (b', r)"
  shows "if dr_sent_to_physical r then \<not> dr_dropped r
     else if dr_reason r \<in> {''gripper_rate_limited'', ''gripper_deadband_hold''} then \<not> dr_dropped r else dr_dropped r"
  using assms
  by (auto simp: pika_send_def Let_def res_bind_Inr_iff dispatch_result_def write_held_def split: if_splits option.splits sum.splits)

lemma drive_arm_ok: "server_ok m s \<Longrightarrow> arm \<in> set ARMS \<Longrightarrow> server_ok m (drive_arm jaw io drive s arm)"
proof (cases "drive arm")
  case (Some pct)
  assume ok: "server_ok m s" and arm: "arm \<in> set ARMS"
  obtain c where c: "gripper_command arm pct ''target'' ''gripper_server'' = Inr c" using arm by (auto simp: gripper_command_def ARMS_def)
  from ok have "pika_ok (gs_backend s)" by (simp add: server_ok_def)
  from pika_send_effect [OF this, of jaw "io arm" c] obtain b r where send: "pika_send jaw (gs_backend s) (io arm) c = Inr (b, r)"
    and eff: "send_effect jaw (gs_backend s) (io arm) c b r" by blast
  have "pika_ok b" using send_effect_ok [OF _ eff] ok by (simp add: server_ok_def)
  moreover have "stats_ok (record_backend_result (gs_stats s) arm pct r)"
    using pika_send_counted [OF send] ok by (auto simp: record_backend_result_def Let_def stats_ok_def server_ok_def split: if_splits)
  ultimately show ?thesis using ok by (simp add: drive_arm_def Some c send server_ok_def)
qed (simp add: drive_arm_def)

lemma server_step_ok: "0 \<le> m \<Longrightarrow> server_ok m s \<Longrightarrow> server_ok m (fst (server_step jaw s io))"
proof -
  assume m: "0 \<le> m" and ok: "server_ok m s"
  obtain s1 r where d: "drain_commands s (io_datagrams io) (io_now io) = (s1, r)" by fastforce
  have ok1: "server_ok m s1" using drain_commands_ok [OF ok, of "io_datagrams io" "io_now io"] d by simp
  obtain s2 targets drive where p: "plan_step jaw s1 io = (s2, targets, drive)" by (cases "plan_step jaw s1 io")
  have "server_ok m (foldl (drive_arm jaw (io_send io) drive) s2 ARMS)"
    using plan_step_facts(1) [OF ok1 m p] by (simp add: ARMS_def drive_arm_ok)
  then have "server_ok m ((fst (build_state jaw (foldl (drive_arm jaw (io_send io) drive) s2 ARMS) io targets))\<lparr>gs_cmd_age_ms := []\<rparr>)"
    by (simp add: build_state_def Let_def server_ok_def stats_ok_def)
  with ok1 show ?thesis by (cases r) (auto simp: server_step_def d p split: prod.split)
qed

interpretation gripper_server: state_machine "server_step jaw" "\<lambda>s. 0 \<le> m \<and> server_ok m s" for jaw m
  by unfold_locales (simp add: server_step_ok)

lemma server_init_ok: "pika_ok b \<Longrightarrow> cx_min_mm (sv_contact_close cfg) = Fin m \<Longrightarrow> server_ok m (server_init cfg b)"
  by (simp add: server_ok_def server_init_def contact_init_def stats_ok_def contact_ok_def)

section \<open>Contact verdicts\<close>

text \<open>The calls of one arm's controller: the time since the last call, the command, the measured opening
  and the motor current.\<close>

type_synonym contact_call = "pyfloat \<times> pyfloat option \<times> pyfloat option \<times> pyfloat option"

definition contact_call :: "ContactCloseConfig \<Rightarrow> ArmContact \<Rightarrow> contact_call \<Rightarrow> ArmContact \<times> pyfloat option" where
  "contact_call cfg a x = (case x of (dt, cmd, here, amps) \<Rightarrow> contact_arm cfg dt cmd here amps a)"

definition calls_over :: "ContactCloseConfig \<Rightarrow> contact_call list \<Rightarrow> bool" where
  "calls_over cfg xs = list_all (\<lambda>x. over_current cfg (snd (snd (snd x)))) xs"

definition calls_time :: "contact_call list \<Rightarrow> pyfloat" where
  "calls_time xs = foldl (\<lambda>t x. t + fst x) (Fin 0) xs"

definition verdict_inv :: "ContactCloseConfig \<Rightarrow> contact_call list \<Rightarrow> ArmContact \<Rightarrow> bool" where
  "verdict_inv cfg h a = ((ac_state a = Seeking \<longrightarrow> (\<exists>pre fs. h = pre @ fs \<and> calls_over cfg fs \<and> ac_hold_sec a = calls_time fs))
     \<and> (ac_state a = Holding \<longrightarrow> (\<exists>pre fs post. h = pre @ fs @ post \<and> fs \<noteq> [] \<and> calls_over cfg fs
          \<and> cx_sustain_ms cfg * Fin (1/1000) \<le> calls_time fs)))"

lemma seek_step_verdict:
  assumes "\<exists>pre fs. h = pre @ fs \<and> calls_over cfg fs \<and> ac_hold_sec a = calls_time fs" and "ac_state a = Seeking"
  shows "verdict_inv cfg (h @ [(dt, cmd, here, amps)]) (seek_step cfg dt here amps a)"
proof (cases "over_current cfg amps")
  case True
  from assms(1) obtain pre fs where h: "h = pre @ fs" "calls_over cfg fs" "ac_hold_sec a = calls_time fs" by blast
  let ?x = "(dt, cmd, here, amps)"
  have f: "calls_over cfg (fs @ [?x])" "calls_time (fs @ [?x]) = ac_hold_sec a + dt" "h @ [?x] = pre @ (fs @ [?x])" "h @ [?x] = pre @ (fs @ [?x]) @ []"
    using h True by (simp_all add: calls_over_def calls_time_def)
  have hold: "ac_state (seek_step cfg dt here amps a) = Holding \<Longrightarrow> cx_sustain_ms cfg * Fin (1/1000) \<le> calls_time (fs @ [?x])"
    using assms(2) f(2) by (auto simp: seek_step_def Let_def split: if_splits)
  have sec: "ac_hold_sec (seek_step cfg dt here amps a) = calls_time (fs @ [?x])"
    using True f(2) by (simp add: seek_step_def Let_def)
  show ?thesis unfolding verdict_inv_def using f hold sec by (metis snoc_eq_iff_butlast)
next
  case False
  then have "ac_hold_sec (seek_step cfg dt here amps a) = calls_time []" "ac_state (seek_step cfg dt here amps a) \<noteq> Holding"
    using assms(2) by (simp_all add: seek_step_def Let_def calls_time_def)
  moreover have "calls_over cfg []" by (simp add: calls_over_def)
  ultimately show ?thesis unfolding verdict_inv_def by (metis append_Nil2)
qed

lemma verdict_step:
  assumes "verdict_inv cfg h a"
  shows "verdict_inv cfg (h @ [x]) (fst (contact_call cfg a x))"
proof -
  obtain dt cmd here amps where x: "x = (dt, cmd, here, amps)" by (cases x)
  have idle: "verdict_inv cfg h' a'" if "ac_state a' = Idle \<or> ac_state a' = Empty" for h' a' using that by (auto simp: verdict_inv_def)
  have keep: "verdict_inv cfg (h @ [x]) a" if "ac_state a \<noteq> Seeking"
  proof (cases "ac_state a = Holding")
    case True
    with assms obtain pre fs post where "h = pre @ fs @ post" "fs \<noteq> []" "calls_over cfg fs" "cx_sustain_ms cfg * Fin (1/1000) \<le> calls_time fs"
      by (auto simp: verdict_inv_def)
    moreover have "h @ [x] = pre @ fs @ (post @ [x])" using calculation(1) by simp
    ultimately show ?thesis using True unfolding verdict_inv_def by auto
  qed (use idle that in \<open>cases "ac_state a"; auto\<close>)
  have fresh: "\<exists>pre fs. h = pre @ fs \<and> calls_over cfg fs \<and> Fin 0 = calls_time fs"
    by (rule exI [of _ h], rule exI [of _ "[]"]) (simp add: calls_over_def calls_time_def)
  have arm: "verdict_inv cfg (h @ [x]) (seek_step cfg dt here amps (a\<lparr>ac_state := Seeking, ac_seek := c, ac_hold_sec := Fin 0\<rparr>))" for c
    using seek_step_verdict [of h cfg "a\<lparr>ac_state := Seeking, ac_seek := c, ac_hold_sec := Fin 0\<rparr>"] fresh unfolding x by simp
  have seek: "verdict_inv cfg (h @ [x]) (seek_step cfg dt here amps a)" if "ac_state a = Seeking"
    using seek_step_verdict [of h cfg a] assms that unfolding x verdict_inv_def by simp
  have reset: "ac_state (contact_reset a) = Idle" by (simp add: contact_reset_def)
  show ?thesis
    using idle keep arm seek reset
    by (cases cmd; cases "ac_state a") (auto simp: contact_call_def x contact_arm_def Let_def)
qed

interpretation contact: history_machine "contact_call cfg" "\<lparr>ac_state = Idle, ac_seek = Fin 0, ac_latched = None, ac_hold_sec = Fin 0\<rparr>"
  "verdict_inv cfg" for cfg
  by unfold_locales (simp add: verdict_inv_def, rule verdict_step)

section \<open>Properties\<close>


text \<open>A grip verdict is earned: when the controller of an arm reports a grip, then at some uninterrupted
  stretch of its calls the motor current was at or above the threshold on every call, for at least
  the configured time.\<close>

theorem grip_means_sustained_current:
  assumes "a = state_after (contact_call cfg) \<lparr>ac_state = Idle, ac_seek = Fin 0, ac_latched = None, ac_hold_sec = Fin 0\<rparr> xs"
    and "contact_grip a = Some True"
  shows "\<exists>pre fs post. xs = pre @ fs @ post \<and> fs \<noteq> [] \<and> calls_over cfg fs \<and> cx_sustain_ms cfg * Fin (1/1000) \<le> calls_time fs"
proof -
  have "ac_state a = Holding" using assms(2) by (cases "ac_state a") (simp_all add: contact_grip_def)
  moreover have "verdict_inv cfg xs a" using contact.hinv_run [of cfg xs] assms(1) by simp
  ultimately show ?thesis by (simp add: verdict_inv_def)
qed

text \<open>Every send of the server is counted exactly once.\<close>

lemma server_counts_every_send:
  assumes "pika_ok b" and "cx_min_mm (sv_contact_close cfg) = Fin m" and "0 \<le> m"
    and "s = state_after (server_step jaw) (server_init cfg b) es"
  shows "ss_backend_send_calls (gs_stats s) = ss_physical_sends (gs_stats s) + ss_rate_limited (gs_stats s)
     + ss_deadband_holds (gs_stats s) + ss_backend_drops (gs_stats s)"
proof -
  have "0 \<le> m \<and> server_ok m (server_init cfg b)" using server_init_ok [OF assms(1,2)] assms(3) by simp
  from gripper_server.inv_run [OF this] have "server_ok m s" using assms(4) by simp
  then show ?thesis by (simp add: server_ok_def stats_ok_def)
qed

text \<open>Decoding a datagram raises exactly when an arm's opening is an integer beyond the range of a float:
  \<^verbatim>\<open>float()\<close> then raises \<^verbatim>\<open>OverflowError\<close>, which the decoder does not catch.\<close>

lemma parse_arm_raises_iff:
  "(\<exists>e. parse_arm msg arm = Inl e) \<longleftrightarrow> (\<exists>block. dget msg arm = PDict block \<and> truthy (dget_or block ''valid'' (PBool True))
     \<and> float_overflows (dget block ''percent''))"
proof -
  have caught: "\<exists>m. e = TypeError m \<or> e = ValueError m" if "py_float v = Inl e" for v e
    using that by (cases v) (auto simp: float_of_str_def Let_def split: option.splits)
  show ?thesis
  proof (cases "dget msg arm")
    case (PDict block)
    show ?thesis using caught [of "dget block ''percent''"]
      by (cases "py_float (dget block ''percent'')") (auto simp: parse_arm_def PDict float_checked_def)
  qed (simp_all add: parse_arm_def)
qed

lemma parse_command_raises_iff:
  "(\<exists>e. parse_command (Some (PDict msg)) = Inl e) \<longleftrightarrow> dget msg ''schema'' = PStr COMMAND_SCHEMA
     \<and> (\<exists>arm\<in>set ARMS. \<exists>block. dget msg arm = PDict block \<and> truthy (dget_or block ''valid'' (PBool True))
          \<and> float_overflows (dget block ''percent''))"
proof -
  have "(\<exists>e. parse_arms msg = Inl e) \<longleftrightarrow> (\<exists>e. parse_arm msg ''left'' = Inl e) \<or> (\<exists>e. parse_arm msg ''right'' = Inl e)"
    by (cases "parse_arm msg ''left''"; cases "parse_arm msg ''right''") (simp_all add: parse_arms_def)
  then show ?thesis
    by (cases "parse_arms msg") (auto simp: parse_command_def ARMS_def parse_arm_raises_iff)
qed

section \<open>Examples\<close>

definition demo_contact :: ContactCloseConfig where
  "demo_contact = \<lparr>cx_enable = True, cx_arm_below_mm = Fin 10, cx_release_hysteresis_mm = Fin 3, cx_current_ma = Fin 300,
     cx_sustain_ms = Fin 60, cx_creep_mm_s = Fin 25, cx_min_mm = Fin 0, cx_squeeze_mm = Fin (1/2)\<rparr>"

definition demo_server :: "string \<Rightarrow> Server" where
  "demo_server on_stale = server_init \<lparr>sv_stale_timeout_sec = Fin (1/2), sv_on_stale = on_stale, sv_contact_close = demo_contact\<rparr> demo_pika"

definition demo_io :: "rat \<Rightarrow> StepIo" where
  "demo_io now = \<lparr>io_now = Fin now, io_datagrams = [], io_position = (\<lambda>_. Inr (Fin 0)), io_current = (\<lambda>_. Inr (Fin 0)),
     io_send = (\<lambda>_. \<lparr>si_now = Fin now, si_set_motor_angle = (\<lambda>_. Inr True)\<rparr>), io_state_position = (\<lambda>_. Inr (Fin 0)),
     io_state_current = (\<lambda>_. Inr (Fin 0)), io_state_now = (\<lambda>_. Fin now), io_host_time_ns = 0\<rparr>"


theorem grip_means_sustained_current_witness:
  "\<exists>pre fs post. [(Fin 0, Some (Fin 8), None, Some (Fin (-600))), (Fin (1/10), Some (Fin 8), Some (Fin 8), Some (Fin (-600)))] = pre @ fs @ post
     \<and> fs \<noteq> [] \<and> calls_over demo_contact fs \<and> Fin (3/50) \<le> calls_time fs"
proof -
  have "contact_grip (state_after (contact_call demo_contact) \<lparr>ac_state = Idle, ac_seek = Fin 0, ac_latched = None, ac_hold_sec = Fin 0\<rparr>
      [(Fin 0, Some (Fin 8), None, Some (Fin (-600))), (Fin (1/10), Some (Fin 8), Some (Fin 8), Some (Fin (-600)))]) = Some True" by code_simp
  from grip_means_sustained_current [OF refl this] show ?thesis by (simp add: demo_contact_def)
qed

text \<open>With the policy \<^verbatim>\<open>hold\<close> neither a released dead-man nor a stale command stops the contact search: the
  openings a step drives are those it drives with the dead-man pressed.\<close>

lemma hold_ignores_the_deadman:
  assumes "sv_on_stale (gs_config s) = ''hold''"
  shows "snd (plan_step jaw (s\<lparr>gs_deadman := d\<rparr>) io) = snd (plan_step jaw s io)"
proof -
  have same: "effective_targets (s\<lparr>gs_deadman := d\<rparr>) now = effective_targets s now" for now
    using assms by (auto simp: fun_eq_iff effective_targets_def Let_def)
  show ?thesis by (simp add: plan_step_def Let_def same split: prod.split)
qed

end
