(* ===== verification/PoseAlgebra.thy ===== *)
theory PoseAlgebra
  imports PyPrelude
begin

text \<open>
  The pose arithmetic of \<^verbatim>\<open>policy_runner/flow_dataset.py\<close> (quaternions, rotation vectors, local pose
  deltas and their composition) and the interpolation of \<^verbatim>\<open>tcp_target_pose_conditioner.py\<close>, over the
  reals: \<^verbatim>\<open>math\<close> and \<^verbatim>\<open>numpy\<close> functions are the exact ones, the conversions to \<^verbatim>\<open>float32\<close> and rounding
  are not modelled. A pose is a position and a quaternion in the order x, y, z, w.
\<close>

section \<open>Vectors and quaternions\<close>

type_synonym vec3 = "real \<times> real \<times> real"
type_synonym quat = "real \<times> real \<times> real \<times> real"
type_synonym pose7 = "vec3 \<times> quat"

fun vadd :: "vec3 \<Rightarrow> vec3 \<Rightarrow> vec3" where
  "vadd (a, b, c) (x, y, z) = (a + x, b + y, c + z)"

fun vscale :: "real \<Rightarrow> vec3 \<Rightarrow> vec3" where
  "vscale k (x, y, z) = (k * x, k * y, k * z)"

definition vsub :: "vec3 \<Rightarrow> vec3 \<Rightarrow> vec3" where
  "vsub u v = vadd u (vscale (-1) v)"

fun vnorm :: "vec3 \<Rightarrow> real" where
  "vnorm (x, y, z) = sqrt (x\<^sup>2 + y\<^sup>2 + z\<^sup>2)"

fun qadd :: "quat \<Rightarrow> quat \<Rightarrow> quat" where
  "qadd (a, b, c, d) (x, y, z, w) = (a + x, b + y, c + z, d + w)"

fun qscale :: "real \<Rightarrow> quat \<Rightarrow> quat" where
  "qscale k (x, y, z, w) = (k * x, k * y, k * z, k * w)"

fun qdot :: "quat \<Rightarrow> quat \<Rightarrow> real" where
  "qdot (a, b, c, d) (x, y, z, w) = a * x + b * y + c * z + d * w"

definition qnorm :: "quat \<Rightarrow> real" where
  "qnorm q = sqrt (qdot q q)"

definition normalize_quat :: "quat \<Rightarrow> quat" where
  "normalize_quat q = (let n = qnorm q in if n < 1 / 10 ^ 12 then (0, 0, 0, 1) else qscale (1 / n) q)"

fun quat_inverse :: "quat \<Rightarrow> quat" where
  "quat_inverse (x, y, z, w) = (- x, - y, - z, w)"

fun quat_multiply :: "quat \<Rightarrow> quat \<Rightarrow> quat" where
  "quat_multiply (ax, ay, az, aw) (bx, by, bz, bw) =
     (aw * bx + ax * bw + ay * bz - az * by,
      aw * by - ax * bz + ay * bw + az * bx,
      aw * bz + ax * by - ay * bx + az * bw,
      aw * bw - ax * bx - ay * by - az * bz)"

fun quat_xyz :: "quat \<Rightarrow> vec3" where
  "quat_xyz (x, y, z, w) = (x, y, z)"

fun quat_w :: "quat \<Rightarrow> real" where
  "quat_w (x, y, z, w) = w"

fun mk_quat :: "vec3 \<Rightarrow> real \<Rightarrow> quat" where
  "mk_quat (x, y, z) w = (x, y, z, w)"

definition rotvec_to_quat :: "vec3 \<Rightarrow> quat" where
  "rotvec_to_quat rotvec =
     (let angle = vnorm rotvec in
      if angle < 1 / 10 ^ 8 then (0, 0, 0, 1)
      else let axis = vscale (1 / angle) rotvec; half = angle / 2
           in normalize_quat (mk_quat (vscale (sin half) axis) (cos half)))"

definition quat_rotate_vector :: "quat \<Rightarrow> vec3 \<Rightarrow> vec3" where
  "quat_rotate_vector q v =
     (let u = normalize_quat q
      in quat_xyz (quat_multiply (quat_multiply u (mk_quat v 0)) (quat_inverse u)))"

text \<open>\<^verbatim>\<open>math.atan2(y, x)\<close>.\<close>

definition math_atan2 :: "real \<Rightarrow> real \<Rightarrow> real" where
  "math_atan2 y x =
     (if 0 < x then arctan (y / x)
      else if x < 0 then (if 0 \<le> y then arctan (y / x) + pi else arctan (y / x) - pi)
      else if 0 < y then pi / 2 else if y < 0 then - pi / 2 else 0)"

definition quat_to_rotvec :: "quat \<Rightarrow> vec3" where
  "quat_to_rotvec q =
     (let u = normalize_quat q; v = (if quat_w u < 0 then qscale (-1) u else u);
          xyz = quat_xyz v; sin_half = vnorm xyz
      in if sin_half < 1 / 10 ^ 9 then vscale 2 xyz
         else vscale (2 * math_atan2 sin_half (quat_w v)) (vscale (1 / sin_half) xyz))"

section \<open>Local deltas\<close>

definition pose_delta_local :: "pose7 \<Rightarrow> pose7 \<Rightarrow> vec3 \<times> vec3" where
  "pose_delta_local reference target =
     (let q_ref = normalize_quat (snd reference); q_target = normalize_quat (snd target);
          q_ref_inverse = quat_inverse q_ref
      in (quat_rotate_vector q_ref_inverse (vsub (fst target) (fst reference)),
          quat_to_rotvec (quat_multiply q_ref_inverse q_target)))"

definition pose_compose_local :: "pose7 \<Rightarrow> vec3 \<times> vec3 \<Rightarrow> pose7" where
  "pose_compose_local reference delta =
     (let q_ref = normalize_quat (snd reference)
      in (vadd (fst reference) (quat_rotate_vector q_ref (fst delta)),
          normalize_quat (quat_multiply q_ref (rotvec_to_quat (snd delta)))))"

section \<open>Interpolation\<close>

definition quat_canonical :: "quat \<Rightarrow> quat option \<Rightarrow> quat" where
  "quat_canonical q ref =
     (let n = qnorm q; u = (if 0 < n then qscale (1 / n) q else (0, 0, 0, 1))
      in case ref of None \<Rightarrow> u | Some r \<Rightarrow> if qdot u r < 0 then qscale (-1) u else u)"

definition interp_pose :: "pose7 \<Rightarrow> pose7 \<Rightarrow> real \<Rightarrow> pose7" where
  "interp_pose p0 p1 u0 =
     (let u = min 1 (max 0 u0);
          pos = vadd (vscale (1 - u) (fst p0)) (vscale u (fst p1));
          q0 = quat_canonical (snd p0) None;
          q1 = quat_canonical (snd p1) (Some q0);
          dot = qdot q0 q1;
          q = (if dot > 0.9995 then quat_canonical (qadd (qscale (1 - u) q0) (qscale u q1)) None
               else let theta = arccos (max (-1) (min 1 dot)); s = sin theta
                    in quat_canonical (qadd (qscale (sin ((1 - u) * theta) / s) q0) (qscale (sin (u * theta) / s) q1)) None)
      in (pos, q))"

section \<open>Quaternion laws\<close>

definition unit_quat :: "quat \<Rightarrow> bool" where
  "unit_quat q = (qdot q q = 1)"

lemma unit_qnorm: "unit_quat q \<Longrightarrow> qnorm q = 1"
  by (simp add: unit_quat_def qnorm_def)

lemma qdot_self_ge: "0 \<le> qdot q q"
  by (cases q) simp

lemma qdot_scale: "qdot (qscale a p) (qscale b q) = a * b * qdot p q"
  by (cases p; cases q) (simp add: algebra_simps)

lemma qscale_scale [simp]: "qscale a (qscale b q) = qscale (a * b) q"
  by (cases q) simp

lemma qscale_one [simp]: "qscale 1 q = q"
  by (cases q) simp

lemma normalize_unit [simp]: "unit_quat q \<Longrightarrow> normalize_quat q = q"
  by (simp add: normalize_quat_def unit_qnorm)

lemma unit_scale_inverse_norm: "0 < qnorm q \<Longrightarrow> unit_quat (qscale (1 / qnorm q) q)"
proof -
  assume n: "0 < qnorm q"
  have "(qnorm q)\<^sup>2 = qdot q q" using qdot_self_ge by (simp add: qnorm_def)
  with n have "qdot q q = qnorm q * qnorm q" "qnorm q \<noteq> 0" by (simp_all add: power2_eq_square)
  then show ?thesis by (simp add: unit_quat_def qdot_scale)
qed

lemma unit_normalize [simp]: "unit_quat (normalize_quat q)"
proof (cases "qnorm q < 1 / 10 ^ 12")
  case True
  then show ?thesis by (simp add: normalize_quat_def unit_quat_def)
next
  case False
  then have "0 < qnorm q" by (simp add: field_simps)
  with False show ?thesis using unit_scale_inverse_norm by (simp add: normalize_quat_def Let_def)
qed

lemma unit_inverse [simp]: "unit_quat (quat_inverse q) = unit_quat q"
  by (cases q) (simp add: unit_quat_def)

lemma unit_neg [simp]: "unit_quat (qscale (-1) q) = unit_quat q"
  by (simp add: unit_quat_def qdot_scale)

lemma qdot_multiply: "qdot (quat_multiply p q) (quat_multiply p q) = qdot p p * qdot q q"
  by (cases p; cases q) (simp add: algebra_simps)

lemma unit_multiply: "unit_quat p \<Longrightarrow> unit_quat q \<Longrightarrow> unit_quat (quat_multiply p q)"
  by (simp add: unit_quat_def qdot_multiply)

lemma multiply_assoc: "quat_multiply (quat_multiply p q) r = quat_multiply p (quat_multiply q r)"
  by (cases p; cases q; cases r) (simp add: algebra_simps)

lemma multiply_inverse: "unit_quat q \<Longrightarrow> quat_multiply q (quat_inverse q) = (0, 0, 0, 1)"
  by (cases q) (simp add: unit_quat_def algebra_simps)

lemma multiply_inverse_left: "unit_quat q \<Longrightarrow> quat_multiply (quat_inverse q) q = (0, 0, 0, 1)"
  by (cases q) (simp add: unit_quat_def algebra_simps)

lemma multiply_one [simp]: "quat_multiply q (0, 0, 0, 1) = q" "quat_multiply (0, 0, 0, 1) q = q"
  by (cases q; simp)+

lemma multiply_scale: "quat_multiply p (qscale k q) = qscale k (quat_multiply p q)"
  by (cases p; cases q) (simp add: algebra_simps)

lemma inverse_inverse [simp]: "quat_inverse (quat_inverse q) = q"
  by (cases q) simp

text \<open>Rotating a vector keeps it a pure quaternion, so rotations compose and invert.\<close>

lemma rotated_is_pure:
  "mk_quat (quat_xyz (quat_multiply (quat_multiply q (mk_quat v 0)) (quat_inverse q))) 0
   = quat_multiply (quat_multiply q (mk_quat v 0)) (quat_inverse q)"
  by (cases q; cases v) (simp add: algebra_simps)

lemma rotate_inverse:
  assumes "unit_quat q"
  shows "quat_rotate_vector q (quat_rotate_vector (quat_inverse q) v) = v"
proof -
  let ?i = "quat_inverse q"
  have "quat_rotate_vector q (quat_rotate_vector ?i v)
      = quat_xyz (quat_multiply (quat_multiply q (quat_multiply (quat_multiply ?i (mk_quat v 0)) q)) ?i)"
    using assms rotated_is_pure [of ?i v] by (simp add: quat_rotate_vector_def Let_def)
  also have "quat_multiply (quat_multiply q (quat_multiply (quat_multiply ?i (mk_quat v 0)) q)) ?i
      = quat_multiply (quat_multiply (quat_multiply q ?i) (mk_quat v 0)) (quat_multiply q ?i)"
    by (simp only: multiply_assoc)
  also have "\<dots> = mk_quat v 0" by (simp add: multiply_inverse [OF assms])
  finally show ?thesis by (cases v) simp
qed

section \<open>Rotation vectors\<close>

lemma atan2_unit:
  assumes "0 < s" and "0 \<le> w" and "s\<^sup>2 + w\<^sup>2 = 1"
  shows "sin (math_atan2 s w) = s" and "cos (math_atan2 s w) = w" and "0 < math_atan2 s w"
proof -
  have "sin (math_atan2 s w) = s \<and> cos (math_atan2 s w) = w \<and> 0 < math_atan2 s w"
  proof (cases "w = 0")
    case True
    with assms have "s = 1" by (simp add: power2_eq_1_iff)
    with True show ?thesis by (simp add: math_atan2_def)
  next
    case False
    with assms have w: "0 < w" by simp
    have "1 + (s / w)\<^sup>2 = (1 / w)\<^sup>2" using w assms(3) by (simp add: field_simps power2_eq_square)
    then have "sqrt (1 + (s / w)\<^sup>2) = 1 / w" using w by simp
    with w assms(1) show ?thesis by (simp add: math_atan2_def sin_arctan cos_arctan)
  qed
  then show "sin (math_atan2 s w) = s" "cos (math_atan2 s w) = w" "0 < math_atan2 s w" by blast+
qed

lemma vnorm_scale: "vnorm (vscale k v) = \<bar>k\<bar> * vnorm v"
  by (cases v) (simp add: power_mult_distrib real_sqrt_mult flip: distrib_left)

lemma vnorm_ge [simp]: "0 \<le> vnorm v"
  by (cases v) simp

lemma vscale_scale [simp]: "vscale a (vscale b v) = vscale (a * b) v"
  by (cases v) simp

lemma vscale_one [simp]: "vscale 1 v = v"
  by (cases v) simp

lemma vnorm_zero_iff: "vnorm v = 0 \<longleftrightarrow> v = (0, 0, 0)"
  by (cases v) (simp add: add_nonneg_eq_0_iff)

lemma mk_quat_parts [simp]: "mk_quat (quat_xyz q) (quat_w q) = q"
  by (cases q) simp

lemma vnorm_xyz: "unit_quat q \<Longrightarrow> (vnorm (quat_xyz q))\<^sup>2 + (quat_w q)\<^sup>2 = 1"
  by (cases q) (simp add: unit_quat_def power2_eq_square add_ac)

lemma quat_w_neg [simp]: "quat_w (qscale k q) = k * quat_w q"
  by (cases q) simp

text \<open>A unit quaternion is recovered from its rotation vector up to its sign, unless its angle is below
  the threshold of \<^verbatim>\<open>_rotvec_to_quat\<close>; the identity is recovered too.\<close>

lemma rotvec_roundtrip:
  assumes unit: "unit_quat q" and big: "1 / 10 ^ 8 \<le> vnorm (quat_to_rotvec q) \<or> quat_to_rotvec q = (0, 0, 0)"
  shows "rotvec_to_quat (quat_to_rotvec q) = q \<or> rotvec_to_quat (quat_to_rotvec q) = qscale (-1) q"
proof -
  define v where "v = (if quat_w q < 0 then qscale (-1) q else q)"
  have v: "unit_quat v" "0 \<le> quat_w v" "v = q \<or> v = qscale (-1) q" using unit by (auto simp: v_def)
  let ?s = "vnorm (quat_xyz v)"
  have rv: "quat_to_rotvec q = (if ?s < 1 / 10 ^ 9 then vscale 2 (quat_xyz v)
      else vscale (2 * math_atan2 ?s (quat_w v)) (vscale (1 / ?s) (quat_xyz v)))"
    using unit by (simp add: quat_to_rotvec_def v_def Let_def)
  have "rotvec_to_quat (quat_to_rotvec q) = v"
  proof (cases "?s < 1 / 10 ^ 9")
    case True
    then have "vnorm (quat_to_rotvec q) = 2 * ?s" by (simp add: rv vnorm_scale)
    with True big have zero: "quat_to_rotvec q = (0, 0, 0)" by (auto simp: field_simps)
    with True have "quat_xyz v = (0, 0, 0)" by (cases "quat_xyz v") (simp add: rv)
    moreover have "quat_w v = 1" using vnorm_xyz [OF v(1)] v(2) calculation by (simp add: power2_eq_1_iff)
    ultimately have "v = (0, 0, 0, 1)" using mk_quat_parts [of v] by simp
    with zero show ?thesis by (simp add: rotvec_to_quat_def)
  next
    case False
    then have s: "0 < ?s" by (simp add: field_simps)
    let ?h = "math_atan2 ?s (quat_w v)"
    note A = atan2_unit [OF s v(2) vnorm_xyz [OF v(1)]]
    have rv: "quat_to_rotvec q = vscale (2 * ?h / ?s) (quat_xyz v)" using False by (simp add: rv)
    have n: "vnorm (quat_to_rotvec q) = 2 * ?h" using s A(3) by (simp add: rv vnorm_scale)
    have "quat_to_rotvec q \<noteq> (0, 0, 0)" using n A(3) by (metis vnorm_zero_iff less_irrefl mult_eq_0_iff zero_neq_numeral)
    with big n have "1 / 10 ^ 8 \<le> 2 * ?h" by simp
    then have "rotvec_to_quat (quat_to_rotvec q) = normalize_quat (mk_quat (vscale (sin ?h) (vscale (1 / (2 * ?h)) (quat_to_rotvec q))) (cos ?h))"
      by (simp add: rotvec_to_quat_def n Let_def)
    also have "vscale (sin ?h) (vscale (1 / (2 * ?h)) (quat_to_rotvec q)) = quat_xyz v"
      using s A(3) by (simp add: rv A(1))
    finally show ?thesis using v(1) A(2) by simp
  qed
  with v(3) show ?thesis by simp
qed

section \<open>Interpolation endpoints\<close>

text \<open>Equal positions and the same rotation.\<close>

definition same_pose :: "pose7 \<Rightarrow> pose7 \<Rightarrow> bool" where
  "same_pose p q = (fst p = fst q \<and> (snd p = snd q \<or> snd p = qscale (-1) (snd q)))"

lemma same_pose_refl [simp]: "same_pose p p"
  by (simp add: same_pose_def)

lemma unit_canonical [simp]: "unit_quat (quat_canonical q r)"
proof -
  define u where "u = (if 0 < qnorm q then qscale (1 / qnorm q) q else (0, 0, 0, 1))"
  have "unit_quat u" using unit_scale_inverse_norm by (simp add: u_def unit_quat_def)
  moreover have "quat_canonical q r = u \<or> quat_canonical q r = qscale (-1) u"
    unfolding quat_canonical_def Let_def u_def [symmetric] by (simp split: option.split)
  ultimately show ?thesis using unit_neg by metis
qed

lemma canonical_unit [simp]: "unit_quat q \<Longrightarrow> quat_canonical q None = q"
  by (simp add: quat_canonical_def unit_qnorm)

lemma canonical_ref_unit: "unit_quat q \<Longrightarrow> quat_canonical q (Some r) = (if qdot q r < 0 then qscale (-1) q else q)"
  by (simp add: quat_canonical_def unit_qnorm)

lemma canonical_ref_dot: "0 \<le> qdot r (quat_canonical q (Some r))"
proof -
  have sym: "qdot r u = qdot u r" for u by (cases r; cases u) (simp add: mult.commute)
  have "qdot (qscale (-1) u) r = - qdot u r" for u by (cases r; cases u) simp
  then show ?thesis unfolding sym by (auto simp: quat_canonical_def Let_def)
qed

lemma interp_pose_unit: "unit_quat (snd (interp_pose p0 p1 u))"
  by (simp add: interp_pose_def Let_def)

lemma slerp_sin_nonzero: "0 \<le> d \<Longrightarrow> \<not> d > 0.9995 \<Longrightarrow> sin (arccos (max (-1) (min 1 d))) \<noteq> 0"
proof -
  assume d: "0 \<le> d" "\<not> d > 0.9995"
  then have "max (-1) (min 1 d) = d" "\<bar>d\<bar> \<le> 1" by simp_all
  moreover have "d\<^sup>2 < 1" using d by (simp add: abs_square_less_1)
  ultimately show ?thesis by (simp add: sin_arccos_abs)
qed

lemma qadd_zero: "qadd p (qscale 0 q) = p" "qadd (qscale 0 p) q = q"
  by (cases p; cases q; simp)+

lemma vadd_zero: "vadd u (vscale 0 v) = u" "vadd (vscale 0 u) v = v"
  by (cases u; cases v; simp)+

lemma interp_pose_0:
  assumes "unit_quat (snd p0)"
  shows "interp_pose p0 p1 0 = p0"
proof -
  let ?q1 = "quat_canonical (snd p1) (Some (snd p0))"
  let ?t = "arccos (max (-1) (min 1 (qdot (snd p0) ?q1)))"
  have "sin ?t \<noteq> 0" if "\<not> qdot (snd p0) ?q1 > 0.9995" using slerp_sin_nonzero [OF canonical_ref_dot that] .
  then have "snd (interp_pose p0 p1 0) = snd p0"
    using assms by (auto simp: interp_pose_def Let_def qadd_zero)
  moreover have "fst (interp_pose p0 p1 0) = fst p0" by (simp add: interp_pose_def Let_def vadd_zero)
  ultimately show ?thesis by (rule prod_eqI [rotated])
qed

lemma interp_pose_1:
  assumes "unit_quat (snd p0)" and "unit_quat (snd p1)"
  shows "same_pose (interp_pose p0 p1 1) p1"
proof -
  let ?q1 = "quat_canonical (snd p1) (Some (snd p0))"
  let ?t = "arccos (max (-1) (min 1 (qdot (snd p0) ?q1)))"
  have "sin ?t \<noteq> 0" if "\<not> qdot (snd p0) ?q1 > 0.9995" using slerp_sin_nonzero [OF canonical_ref_dot that] .
  then have "snd (interp_pose p0 p1 1) = ?q1"
    using assms by (auto simp: interp_pose_def Let_def qadd_zero)
  moreover have "fst (interp_pose p0 p1 1) = fst p1" by (simp add: interp_pose_def Let_def vadd_zero)
  ultimately show ?thesis using assms(2) by (simp add: same_pose_def canonical_ref_unit)
qed

lemma compose_unit: "unit_quat (snd (pose_compose_local p d))"
  by (simp add: pose_compose_local_def Let_def)

text \<open>Composition respects the sameness of poses.\<close>

lemma same_pose_trans: "same_pose p q \<Longrightarrow> same_pose q r \<Longrightarrow> same_pose p r"
  by (auto simp: same_pose_def)

lemma normalize_neg: "normalize_quat (qscale (-1) q) = normalize_quat q \<or> normalize_quat (qscale (-1) q) = qscale (-1) (normalize_quat q)"
  by (simp add: normalize_quat_def Let_def qnorm_def qdot_scale)

lemma multiply_scale_left: "quat_multiply (qscale k p) q = qscale k (quat_multiply p q)"
  by (cases p; cases q) (simp add: algebra_simps)

lemma inverse_scale: "quat_inverse (qscale k q) = qscale k (quat_inverse q)"
  by (cases q) simp

lemma rotate_neg: "unit_quat q \<Longrightarrow> quat_rotate_vector (qscale (-1) q) v = quat_rotate_vector q v"
  by (simp add: quat_rotate_vector_def Let_def multiply_scale multiply_scale_left inverse_scale)

lemma compose_same_pose:
  assumes "same_pose p p'"
  shows "same_pose (pose_compose_local p d) (pose_compose_local p' d)"
proof -
  let ?a = "normalize_quat (snd p)" and ?b = "normalize_quat (snd p')"
  have "?a = ?b \<or> ?a = qscale (-1) ?b" using assms normalize_neg [of "snd p'"] by (auto simp: same_pose_def)
  then have "quat_rotate_vector ?a (fst d) = quat_rotate_vector ?b (fst d)" and
    m: "quat_multiply ?a (rotvec_to_quat (snd d)) = quat_multiply ?b (rotvec_to_quat (snd d))
      \<or> quat_multiply ?a (rotvec_to_quat (snd d)) = qscale (-1) (quat_multiply ?b (rotvec_to_quat (snd d)))"
    by (auto simp: rotate_neg multiply_scale_left)
  moreover have "normalize_quat (quat_multiply ?a (rotvec_to_quat (snd d))) = normalize_quat (quat_multiply ?b (rotvec_to_quat (snd d)))
      \<or> normalize_quat (quat_multiply ?a (rotvec_to_quat (snd d))) = qscale (-1) (normalize_quat (quat_multiply ?b (rotvec_to_quat (snd d))))"
    using m normalize_neg by metis
  ultimately show ?thesis using assms by (simp add: same_pose_def pose_compose_local_def Let_def)
qed

lemma vadd_vsub: "vadd a (vsub b a) = b"
  by (cases a; cases b) (simp add: vsub_def)

text \<open>The rotation of a delta is resolved by the rotation vector arithmetic: at least the threshold, or none.\<close>

definition resolved_delta :: "vec3 \<times> vec3 \<Rightarrow> bool" where
  "resolved_delta d = (1 / 10 ^ 8 \<le> vnorm (snd d) \<or> snd d = (0, 0, 0))"

lemma compose_delta_position: "fst (pose_compose_local p (pose_delta_local p g)) = fst g"
  by (simp add: pose_compose_local_def pose_delta_local_def Let_def rotate_inverse vadd_vsub)

lemma compose_delta:
  assumes "resolved_delta (pose_delta_local p g)"
  shows "same_pose (pose_compose_local p (pose_delta_local p g)) (fst g, normalize_quat (snd g))"
proof -
  let ?a = "normalize_quat (snd p)" and ?b = "normalize_quat (snd g)"
  let ?d = "quat_multiply (quat_inverse ?a) ?b"
  have d: "unit_quat ?d" by (simp add: unit_multiply)
  have whole: "quat_multiply ?a ?d = ?b" by (simp add: multiply_inverse flip: multiply_assoc)
  have "rotvec_to_quat (quat_to_rotvec ?d) = ?d \<or> rotvec_to_quat (quat_to_rotvec ?d) = qscale (-1) ?d"
    using assms by (intro rotvec_roundtrip [OF d]) (simp add: resolved_delta_def pose_delta_local_def Let_def)
  then have "normalize_quat (quat_multiply ?a (rotvec_to_quat (quat_to_rotvec ?d))) = ?b
      \<or> normalize_quat (quat_multiply ?a (rotvec_to_quat (quat_to_rotvec ?d))) = qscale (-1) ?b"
    by (auto simp: multiply_scale whole)
  with compose_delta_position [of p g] show ?thesis by (simp add: same_pose_def pose_compose_local_def pose_delta_local_def Let_def)
qed

section \<open>Properties\<close>

text \<open>Composing a pose with the local delta to a target pose gives the target: the position always, and
  the orientation, up to the sign of the quaternion, which is the same rotation, whenever the rotation
  between the poses is at least the code's small-angle threshold of 1e-8 rad or none at all.\<close>

theorem pose_compose_inverts_delta:
  "fst (pose_compose_local p (pose_delta_local p g)) = fst g
   \<and> (resolved_delta (pose_delta_local p g) \<longrightarrow>
        same_pose (pose_compose_local p (pose_delta_local p g)) (fst g, normalize_quat (snd g)))"
  using compose_delta_position compose_delta by blast

theorem pose_compose_inverts_delta_witness:
  "same_pose (pose_compose_local ((1, 2, 3), (0, 0, 0, 1)) (pose_delta_local ((1, 2, 3), (0, 0, 0, 1)) ((4, 5, 6), (0, 0, 0, 1))))
     ((4, 5, 6), normalize_quat (0, 0, 0, 1))"
proof -
  have "snd (pose_delta_local ((1, 2, 3), (0, 0, 0, 1)) ((4, 5, 6), (0, 0, 0, 1))) = (0, 0, 0)"
    by (simp add: pose_delta_local_def quat_to_rotvec_def normalize_quat_def qnorm_def)
  then have "resolved_delta (pose_delta_local ((1, 2, 3), (0, 0, 0, 1)) ((4, 5, 6), (0, 0, 0, 1)))" by (simp add: resolved_delta_def)
  with pose_compose_inverts_delta [of "((1, 2, 3), (0, 0, 0, 1))" "((4, 5, 6), (0, 0, 0, 1))"] show ?thesis by simp
qed

end
