(* ===== verification/TcpConditioner.thy ===== *)
theory TcpConditioner
  imports Machines PoseAlgebra
begin

text \<open>
  \<^verbatim>\<open>policy_runner/tcp_target_pose_conditioner.py\<close>: the first-order-hold conditioner that turns the
  per-step targets of a policy chunk into a stream of poses, with its re-anchoring at chunk
  boundaries and its holds. Times are exact reals. The relative rotation vector that the twist
  estimate takes from \<^verbatim>\<open>scipy\<close> is the parameter \<open>rel_rotvec\<close>.
\<close>

section \<open>The conditioner\<close>

definition CONDITIONING_MODES :: "string list" where
  "CONDITIONING_MODES = [''legacy_step_hold'', ''foh_se3'']"

definition REANCHOR_MODES :: "string list" where
  "REANCHOR_MODES = [''measured_legacy'', ''last_emitted_continuous'', ''measured_blend'']"

record ConditionedTarget =
  ct_pose :: pose7
  ct_hold :: bool
  ct_stall :: bool
  ct_dropout :: bool
  ct_reanchor :: bool
  ct_chunk_id :: int
  ct_chunk_index_lo :: int
  ct_chunk_index_hi :: int
  ct_interpolation_alpha :: real
  ct_twist :: "(vec3 \<times> vec3) option"
  ct_emitted_delta_from_prev :: "vec3 \<times> vec3"

record Conditioner =
  cd_mode :: string
  cd_reanchor_mode :: string
  cd_policy_dt_sec :: real
  cd_blend_steps :: int
  cd_prev_emitted :: "pose7 option"
  cd_knots :: "pose7 list option"
  cd_times :: "real list option"
  cd_chunk_id :: int
  cd_first_sample :: bool

definition conditioner_init :: "string \<Rightarrow> string \<Rightarrow> real option \<Rightarrow> int \<Rightarrow> Conditioner res" where
  "conditioner_init mode reanchor_mode policy_dt_sec blend_steps =
     (if mode \<notin> set CONDITIONING_MODES then Inl (ValueError (''unknown tcp_target_pose conditioning mode: '' @ mode))
      else if reanchor_mode \<notin> set REANCHOR_MODES then Inl (ValueError (''unknown reanchor_mode: '' @ reanchor_mode))
      else case policy_dt_sec of
             None \<Rightarrow> Inl (ValueError ''policy_dt_sec must be positive'')
           | Some dt \<Rightarrow> if dt \<le> 0 then Inl (ValueError ''policy_dt_sec must be positive'')
               else Inr \<lparr>cd_mode = mode, cd_reanchor_mode = reanchor_mode, cd_policy_dt_sec = dt, cd_blend_steps = max 1 blend_steps,
                      cd_prev_emitted = None, cd_knots = None, cd_times = None, cd_chunk_id = -1, cd_first_sample = False\<rparr>)"

definition conditioner_reset :: "Conditioner \<Rightarrow> Conditioner" where
  "conditioner_reset c = c\<lparr>cd_prev_emitted := None, cd_knots := None, cd_times := None, cd_chunk_id := -1, cd_first_sample := False\<rparr>"

definition require_continuous :: "pose7 list option \<Rightarrow> nat \<Rightarrow> pose7 list res" where
  "require_continuous continuous_targets k =
     (case continuous_targets of
        None \<Rightarrow> Inl (ValueError ''continuous_targets is required for this reanchor_mode after the first chunk'')
      | Some arr \<Rightarrow> if length arr \<noteq> k then Inl (ValueError ''continuous_targets must match measured_targets length'') else Inr arr)"

definition blend_body :: "int \<Rightarrow> pose7 list \<Rightarrow> pose7 list \<Rightarrow> pose7 list" where
  "blend_body blend_steps cont measured =
     map (\<lambda>i. interp_pose (cont ! i) (measured ! i) (min 1 (real (i + 1) / real_of_int blend_steps))) [0..<length measured]"

text \<open>The anchor and the body of the new knots.\<close>

definition chunk_knots :: "Conditioner \<Rightarrow> pose7 \<Rightarrow> pose7 list \<Rightarrow> pose7 list option \<Rightarrow> (pose7 \<times> pose7 list) res" where
  "chunk_knots c measured_anchor measured cont_targets =
     (case cd_prev_emitted c of
        None \<Rightarrow> Inr (measured_anchor, measured)
      | Some prev \<Rightarrow>
          if cd_reanchor_mode c = ''measured_legacy'' then Inr (measured_anchor, measured)
          else if cd_reanchor_mode c = ''last_emitted_continuous''
          then res_bind (require_continuous cont_targets (length measured)) (\<lambda>body. Inr (prev, body))
          else res_bind (require_continuous cont_targets (length measured)) (\<lambda>cont.
                 Inr (prev, blend_body (cd_blend_steps c) cont measured)))"

definition knot_times :: "real \<Rightarrow> real \<Rightarrow> nat \<Rightarrow> real list" where
  "knot_times t0 dt m = map (\<lambda>j. t0 + dt * real j) [0..<m]"

definition begin_chunk :: "Conditioner \<Rightarrow> pose7 \<Rightarrow> pose7 list \<Rightarrow> pose7 list option \<Rightarrow> real \<Rightarrow> int \<Rightarrow> Conditioner res" where
  "begin_chunk c measured_anchor measured cont_targets t_wall_start chunk_id =
     (if measured = [] then Inl (ValueError ''measured_targets must contain at least one step'')
      else res_bind (chunk_knots c measured_anchor measured cont_targets) (\<lambda>(anchor, body).
        Inr (c\<lparr>cd_knots := Some (anchor # body),
               cd_times := Some (knot_times t_wall_start (cd_policy_dt_sec c) (Suc (length body))),
               cd_chunk_id := chunk_id, cd_first_sample := True\<rparr>)))"

definition pose_twist :: "(quat \<Rightarrow> quat \<Rightarrow> vec3) \<Rightarrow> pose7 \<Rightarrow> pose7 \<Rightarrow> real \<Rightarrow> vec3 \<times> vec3" where
  "pose_twist rel_rotvec p_lo p_hi dt =
     (if dt \<le> 0 then ((0, 0, 0), (0, 0, 0))
      else (vscale (1 / dt) (vsub (fst p_hi) (fst p_lo)),
            vscale (1 / dt) (rel_rotvec (quat_canonical (snd p_lo) None) (quat_canonical (snd p_hi) (Some (snd p_lo))))))"

definition emit :: "(quat \<Rightarrow> quat \<Rightarrow> vec3) \<Rightarrow> Conditioner \<Rightarrow> pose7 \<Rightarrow> bool \<Rightarrow> bool \<Rightarrow> int \<Rightarrow> int \<Rightarrow> real \<Rightarrow> real
    \<Rightarrow> Conditioner \<times> ConditionedTarget" where
  "emit rel_rotvec c pose hold stall lo hi alpha dt =
     (let delta = (case cd_prev_emitted c of None \<Rightarrow> ((0, 0, 0), (0, 0, 0)) | Some prev \<Rightarrow> pose_delta_local prev pose);
          twist = (case cd_knots c of None \<Rightarrow> None | Some ks \<Rightarrow>
                     if \<not> hold \<and> 0 \<le> lo \<and> 0 \<le> hi \<and> lo \<noteq> hi then Some (pose_twist rel_rotvec (ks ! nat lo) (ks ! nat hi) dt) else None)
      in (c\<lparr>cd_first_sample := False, cd_prev_emitted := Some pose\<rparr>,
          \<lparr>ct_pose = pose, ct_hold = hold, ct_stall = stall, ct_dropout = False, ct_reanchor = (cd_first_sample c \<and> \<not> stall),
           ct_chunk_id = cd_chunk_id c, ct_chunk_index_lo = lo - 1, ct_chunk_index_hi = hi - 1,
           ct_interpolation_alpha = alpha, ct_twist = twist, ct_emitted_delta_from_prev = delta\<rparr>))"

definition held_pose :: "Conditioner \<Rightarrow> pose7" where
  "held_pose c = (case cd_prev_emitted c of None \<Rightarrow> ((0, 0, 0), (0, 0, 0, 1)) | Some p \<Rightarrow> p)"

definition hold :: "(quat \<Rightarrow> quat \<Rightarrow> vec3) \<Rightarrow> Conditioner \<Rightarrow> Conditioner \<times> ConditionedTarget" where
  "hold rel_rotvec c = emit rel_rotvec c (held_pose c) True True (-1) (-1) 0 0"

text \<open>\<^verbatim>\<open>np.searchsorted(times, t, side="right")\<close> on sorted times.\<close>

definition searchsorted_right :: "real list \<Rightarrow> real \<Rightarrow> nat" where
  "searchsorted_right ts t = length (takeWhile (\<lambda>x. x \<le> t) ts)"

definition sample :: "(quat \<Rightarrow> quat \<Rightarrow> vec3) \<Rightarrow> Conditioner \<Rightarrow> real \<Rightarrow> Conditioner \<times> ConditionedTarget" where
  "sample rel_rotvec c t_wall =
     (case (cd_knots c, cd_times c) of
        (Some ks, Some ts) \<Rightarrow>
          (let t = min (last ts) (max (hd ts) t_wall); m = length ts;
               lo = min (searchsorted_right ts t - 1) (m - 1); hi = min (lo + 1) (m - 1);
               denom = ts ! hi - ts ! lo;
               alpha = (if 0 < denom then (t - ts ! lo) / denom else 0)
           in emit rel_rotvec c (interp_pose (ks ! lo) (ks ! hi) alpha) (lo = hi) False (int lo) (int hi) alpha denom)
      | _ \<Rightarrow> emit rel_rotvec c (held_pose c) True True (-1) (-1) 0 0)"

section \<open>Runs\<close>

datatype CondEvent =
    CeBegin pose7 "pose7 list" "pose7 list option" real int
  | CeSample real
  | CeHold
  | CeReset

fun cond_step :: "(quat \<Rightarrow> quat \<Rightarrow> vec3) \<Rightarrow> Conditioner \<Rightarrow> CondEvent \<Rightarrow> Conditioner \<times> ConditionedTarget option" where
  "cond_step rel c (CeBegin anchor measured cont_targets t0 cid) =
     (case begin_chunk c anchor measured cont_targets t0 cid of Inl e \<Rightarrow> (c, None) | Inr c' \<Rightarrow> (c', None))"
| "cond_step rel c (CeSample t) = (let (c', out) = sample rel c t in (c', Some out))"
| "cond_step rel c CeHold = (let (c', out) = hold rel c in (c', Some out))"
| "cond_step rel c CeReset = (conditioner_reset c, None)"

text \<open>The last emitted pose has a unit quaternion.\<close>

definition cond_ok :: "Conditioner \<Rightarrow> bool" where
  "cond_ok c = (\<forall>p. cd_prev_emitted c = Some p \<longrightarrow> unit_quat (snd p))"

lemma unit_held: "cond_ok c \<Longrightarrow> unit_quat (snd (held_pose c))"
  by (simp add: cond_ok_def held_pose_def unit_quat_def split: option.split)

lemma emit_fields [simp]:
  "ct_pose (snd (emit rel c pose h st lo hi al dt)) = pose"
  "ct_hold (snd (emit rel c pose h st lo hi al dt)) = h"
  "ct_stall (snd (emit rel c pose h st lo hi al dt)) = st"
  "ct_reanchor (snd (emit rel c pose h st lo hi al dt)) = (cd_first_sample c \<and> \<not> st)"
  "cd_prev_emitted (fst (emit rel c pose h st lo hi al dt)) = Some pose"
  by (simp_all add: emit_def Let_def)

lemma sample_without_knots:
  "cd_knots c = None \<or> cd_times c = None \<Longrightarrow> sample rel c t = emit rel c (held_pose c) True True (-1) (-1) 0 0"
  unfolding sample_def by (cases "cd_knots c"; cases "cd_times c") (simp_all only: prod.case option.case option.distinct simp_thms)

lemma sample_with_knots:
  "cd_knots c = Some ks \<Longrightarrow> cd_times c = Some ts \<Longrightarrow>
     \<exists>lo hi al dt. sample rel c t = emit rel c (interp_pose (ks ! lo) (ks ! hi) al) (lo = hi) False (int lo) (int hi) al dt"
  unfolding sample_def Let_def by (simp only: prod.case option.case) (intro exI, rule refl)

lemma sample_pose:
  "\<exists>pose h st lo hi al dt. sample rel c t = emit rel c pose h st lo hi al dt \<and> (cond_ok c \<longrightarrow> unit_quat (snd pose))"
proof (cases "cd_knots c = None \<or> cd_times c = None")
  case True
  from sample_without_knots [OF this] unit_held show ?thesis by blast
next
  case False
  then obtain ks ts where "cd_knots c = Some ks" "cd_times c = Some ts" by auto
  from sample_with_knots [OF this] interp_pose_unit show ?thesis by blast
qed

lemma emit_ok:
  assumes "unit_quat (snd pose)"
  shows "cond_ok (fst (emit rel c pose h st lo hi al dt)) \<and> unit_quat (snd (ct_pose (snd (emit rel c pose h st lo hi al dt))))
    \<and> cd_prev_emitted (fst (emit rel c pose h st lo hi al dt)) = Some (ct_pose (snd (emit rel c pose h st lo hi al dt)))"
  using assms by (simp add: cond_ok_def)

lemma begin_chunk_keeps:
  "begin_chunk c anchor measured cont_targets t0 cid = Inr c' \<Longrightarrow> cd_prev_emitted c' = cd_prev_emitted c"
  by (auto simp: begin_chunk_def res_bind_Inr_iff split: if_splits prod.splits)

lemma cond_step_ok: "cond_ok c \<Longrightarrow> cond_ok (fst (cond_step rel c e)) \<and> (\<forall>out. snd (cond_step rel c e) = Some out \<longrightarrow>
    unit_quat (snd (ct_pose out)) \<and> cd_prev_emitted (fst (cond_step rel c e)) = Some (ct_pose out))"
proof (cases e)
  case (CeBegin anchor measured cont_targets t0 cid)
  assume ok: "cond_ok c"
  show ?thesis
  proof (cases "begin_chunk c anchor measured cont_targets t0 cid")
    case (Inl err)
    with ok show ?thesis by (simp add: CeBegin)
  next
    case (Inr c')
    from begin_chunk_keeps [OF Inr] ok have "cond_ok c'" by (simp add: cond_ok_def)
    with Inr show ?thesis by (simp add: CeBegin)
  qed
next
  case (CeSample t)
  assume ok: "cond_ok c"
  from sample_pose [of rel c t] obtain pose h st lo hi al dt where s: "sample rel c t = emit rel c pose h st lo hi al dt"
    "cond_ok c \<longrightarrow> unit_quat (snd pose)" by blast
  with ok have "unit_quat (snd pose)" by blast
  from emit_ok [OF this, of rel c h st lo hi al dt] show ?thesis by (simp add: CeSample s(1) split_beta Let_def)
next
  case CeHold
  assume ok: "cond_ok c"
  from emit_ok [OF unit_held [OF ok], of rel c True True "-1" "-1" 0 0] show ?thesis by (simp add: CeHold hold_def split_beta Let_def)
qed (simp add: cond_ok_def conditioner_reset_def)

interpretation conditioner: state_machine "cond_step rel" cond_ok
  for rel
  by unfold_locales (simp add: cond_step_ok)

section \<open>Knots\<close>

lemma searchsorted_knot:
  assumes "0 < dt" and "j < m"
  shows "searchsorted_right (knot_times t0 dt m) (t0 + dt * real j) = Suc j"
proof -
  have "takeWhile (\<lambda>x. x \<le> t0 + dt * real j) (knot_times t0 dt m) = take (Suc j) (knot_times t0 dt m)"
    using assms by (intro takeWhile_eq_take_P_nth) (auto simp: knot_times_def)
  then show ?thesis using assms(2) by (simp add: searchsorted_right_def knot_times_def)
qed

lemma sample_at_knot:
  assumes k: "cd_knots c = Some ks" "cd_times c = Some (knot_times t0 dt (length ks))" and dt: "0 < dt" and j: "j < length ks"
    and unit: "unit_quat (snd (ks ! j))"
  shows "ct_pose (snd (sample rel c (t0 + dt * real j))) = ks ! j
    \<and> ct_hold (snd (sample rel c (t0 + dt * real j))) = (j = length ks - 1)
    \<and> \<not> ct_stall (snd (sample rel c (t0 + dt * real j)))
    \<and> ct_reanchor (snd (sample rel c (t0 + dt * real j))) = cd_first_sample c"
proof -
  let ?ts = "knot_times t0 dt (length ks)" and ?t = "t0 + dt * real j"
  have len: "length ?ts = length ks" and nth: "\<And>i. i < length ks \<Longrightarrow> ?ts ! i = t0 + dt * real i"
    by (simp_all add: knot_times_def)
  have ends: "last ?ts = t0 + dt * real (length ks - 1)" "hd ?ts = t0"
    using j last_conv_nth [of ?ts] hd_conv_nth [of ?ts] nth [of 0] nth [of "length ks - 1"] len by force+
  have "real j \<le> real (length ks - 1)" using j by simp
  then have t: "min (last ?ts) (max (hd ?ts) ?t) = ?t" using dt by (simp add: ends min_def max_def)
  have lo: "min (searchsorted_right ?ts ?t - 1) (length ks - 1) = j" using searchsorted_knot [OF dt j] j by simp
  have jn: "?ts ! j = ?t" using nth [OF j] .
  have "sample rel c ?t = emit rel c (interp_pose (ks ! j) (ks ! min (j + 1) (length ks - 1)) 0) (j = min (j + 1) (length ks - 1)) False
      (int j) (int (min (j + 1) (length ks - 1))) 0 (?ts ! min (j + 1) (length ks - 1) - ?ts ! j)"
    unfolding sample_def k prod.case option.case Let_def t len lo jn by simp
  moreover have "(j = min (j + 1) (length ks - 1)) = (j = length ks - 1)" using j by auto
  ultimately show ?thesis using interp_pose_0 [OF unit] by simp
qed

lemma begin_chunk_shape:
  assumes "begin_chunk c anchor measured cont_targets t0 cid = Inr c'"
  shows "\<exists>a body. chunk_knots c anchor measured cont_targets = Inr (a, body) \<and> cd_knots c' = Some (a # body)
    \<and> cd_times c' = Some (knot_times t0 (cd_policy_dt_sec c) (Suc (length body))) \<and> cd_first_sample c'
    \<and> length body = length measured"
  using assms
  by (auto simp: begin_chunk_def chunk_knots_def require_continuous_def blend_body_def res_bind_Inr_iff
      split: if_splits prod.splits option.splits)

lemma chunk_knots_blend:
  assumes "cd_prev_emitted c = Some prev" and "cd_reanchor_mode c = ''measured_blend''"
    and "chunk_knots c anchor measured cont_targets = Inr (a, body)"
  shows "a = prev \<and> (\<exists>cont. length cont = length measured \<and> cont_targets = Some cont \<and> body = blend_body (cd_blend_steps c) cont measured)"
  using assms by (auto simp: chunk_knots_def require_continuous_def res_bind_Inr_iff split: option.splits if_splits)

lemma blend_body_nth:
  "i < length measured \<Longrightarrow> blend_body n cont measured ! i = interp_pose (cont ! i) (measured ! i) (min 1 (real (i + 1) / real_of_int n))"
  by (simp add: blend_body_def)

section \<open>Properties\<close>


definition demo_pose :: "real \<Rightarrow> pose7" where
  "demo_pose x = ((x, 0, 0), (0, 0, 0, 1))"


text \<open>Chunk boundaries in the default mode do not jump: after a chunk is installed on top of an emitted
  pose, the sample at its start time re-emits exactly that pose and is marked as the re-anchor; the
  sample at each later step time emits that step's knot; and from the blend length on the knots are
  the measured targets, so the drift is corrected.\<close>

theorem chunk_boundary_is_continuous:
  assumes "begin_chunk c anchor measured cont_targets t0 cid = Inr c'" and "0 < cd_policy_dt_sec c"
    and "cd_prev_emitted c = Some prev" and "unit_quat (snd prev)" and "cd_reanchor_mode c = ''measured_blend''"
    and "\<forall>p\<in>set measured. unit_quat (snd p)" and "\<forall>p\<in>set (the cont_targets). unit_quat (snd p)" and "1 \<le> cd_blend_steps c"
  shows "ct_pose (snd (sample rel c' t0)) = prev \<and> ct_reanchor (snd (sample rel c' t0))
    \<and> (\<forall>i<length measured. cd_blend_steps c \<le> int i + 1 \<longrightarrow>
         same_pose (ct_pose (snd (sample rel c' (t0 + cd_policy_dt_sec c * real (i + 1))))) (measured ! i))"
proof -
  let ?dt = "cd_policy_dt_sec c"
  from begin_chunk_shape [OF assms(1)] obtain a body where K: "chunk_knots c anchor measured cont_targets = Inr (a, body)"
    "cd_knots c' = Some (a # body)" "cd_times c' = Some (knot_times t0 ?dt (length (a # body)))" "cd_first_sample c'"
    "length body = length measured" by auto
  from chunk_knots_blend [OF assms(3,5) K(1)] obtain cont where B: "a = prev" "length cont = length measured"
    "cont_targets = Some cont" "body = blend_body (cd_blend_steps c) cont measured" by blast
  have zero: "ct_pose (snd (sample rel c' t0)) = prev \<and> ct_reanchor (snd (sample rel c' t0))"
    using sample_at_knot [OF K(2,3) assms(2), of 0 rel] assms(4) K(4) by (simp add: B(1))
  have later: "same_pose (ct_pose (snd (sample rel c' (t0 + ?dt * real (i + 1))))) (measured ! i)"
    if i: "i < length measured" "cd_blend_steps c \<le> int i + 1" for i
  proof -
    have "1 \<le> real (i + 1) / real_of_int (cd_blend_steps c)" using i(2) assms(8) by (simp add: field_simps)
    then have body: "body ! i = interp_pose (cont ! i) (measured ! i) 1"
      using i(1) by (simp add: B(4) blend_body_nth min_def)
    have "unit_quat (snd (body ! i))" by (simp add: body interp_pose_unit)
    with sample_at_knot [OF K(2,3) assms(2), of "i + 1" rel] i(1) K(5)
    have "ct_pose (snd (sample rel c' (t0 + ?dt * real (i + 1)))) = body ! i" by simp
    moreover have "unit_quat (snd (cont ! i))" "unit_quat (snd (measured ! i))"
      using assms(6,7) i(1) B(2,3) by simp_all
    ultimately show ?thesis using interp_pose_1 by (simp add: body)
  qed
  from zero later show ?thesis by blast
qed

definition demo_conditioner :: Conditioner where
  "demo_conditioner = \<lparr>cd_mode = ''foh_se3'', cd_reanchor_mode = ''measured_blend'', cd_policy_dt_sec = 1 / 30, cd_blend_steps = 2,
     cd_prev_emitted = Some (demo_pose 1), cd_knots = None, cd_times = None, cd_chunk_id = 0, cd_first_sample = False\<rparr>"

theorem chunk_boundary_is_continuous_witness:
  "\<exists>c'. begin_chunk demo_conditioner (demo_pose 0) [demo_pose 2, demo_pose 3] (Some [demo_pose 2, demo_pose 4]) 10 1 = Inr c'
     \<and> ct_pose (snd (sample (\<lambda>_ _. (0, 0, 0)) c' 10)) = demo_pose 1"
proof -
  let ?m = "[demo_pose 2, demo_pose 3]" and ?k = "Some [demo_pose 2, demo_pose 4]"
  have "\<exists>c'. begin_chunk demo_conditioner (demo_pose 0) ?m ?k 10 1 = Inr c'"
    by (simp add: begin_chunk_def chunk_knots_def require_continuous_def demo_conditioner_def)
  then obtain c' where c': "begin_chunk demo_conditioner (demo_pose 0) ?m ?k 10 1 = Inr c'" ..
  have u: "unit_quat (snd (demo_pose x))" for x by (simp add: demo_pose_def unit_quat_def)
  from chunk_boundary_is_continuous [OF c', of "demo_pose 1"] u
  have "ct_pose (snd (sample (\<lambda>_ _. (0, 0, 0)) c' 10)) = demo_pose 1" by (simp add: demo_conditioner_def)
  with c' show ?thesis by blast
qed

end
