(* ===== verification/ChunkEnsemble.thy ===== *)
theory ChunkEnsemble
  imports Machines PoseAlgebra
begin

text \<open>
  \<^verbatim>\<open>policy_runner/chunk_ensemble.py\<close>: the scheduler that blends overlapping policy chunks into
  windows. A chunk is a list of rows, one local pose delta and one gripper value per arm; a plan is
  a chunk integrated into absolute targets from the pose executed at its kick step; a window is a
  list of rows again, the local deltas between the targets it executes. Wall steps are integers.
  The dictionaries keyed by the two arms are functions of the arm.
\<close>

section \<open>Plans\<close>

datatype arm = ArmLeft | ArmRight

type_synonym pose_delta = "vec3 \<times> vec3"

record Row =
  rw_delta :: "arm \<Rightarrow> pose_delta"
  rw_grip :: "arm \<Rightarrow> real"

definition blend_weight :: "nat \<Rightarrow> nat \<Rightarrow> real" where
  "blend_weight j r = (if r \<le> 1 then 1 else real j / real (r - 1))"

record Plan =
  pl_kick_wall :: int
  pl_horizon :: nat
  pl_abs_targets :: "arm \<Rightarrow> pose7 list"
  pl_grips :: "arm \<Rightarrow> real list"
  pl_anchors :: "arm \<Rightarrow> pose7"

definition covers :: "Plan \<Rightarrow> int \<Rightarrow> nat \<Rightarrow> bool" where
  "covers p wall_start len = (let i0 = wall_start - pl_kick_wall p in \<not> (i0 < 0 \<or> int (pl_horizon p) < i0 + int len))"

definition segment :: "Plan \<Rightarrow> arm \<Rightarrow> int \<Rightarrow> nat \<Rightarrow> pose7 list option" where
  "segment p a wall_start len =
     (if covers p wall_start len then Some (take len (drop (nat (wall_start - pl_kick_wall p)) (pl_abs_targets p a))) else None)"

definition grip_segment :: "Plan \<Rightarrow> arm \<Rightarrow> int \<Rightarrow> nat \<Rightarrow> real list option" where
  "grip_segment p a wall_start len =
     (if covers p wall_start len then Some (take len (drop (nat (wall_start - pl_kick_wall p)) (pl_grips p a))) else None)"

definition available_from :: "Plan \<Rightarrow> int \<Rightarrow> int \<Rightarrow> int" where
  "available_from p wall_start max_length =
     (let i0 = wall_start - pl_kick_wall p in
      if i0 < 0 \<or> int (pl_horizon p) \<le> i0 then 0 else max 0 (min max_length (int (pl_horizon p) - i0)))"

section \<open>The scheduler\<close>

record Scheduler =
  en_period :: nat
  en_horizon :: nat
  en_blend_mode :: string
  en_plans :: "Plan list"
  en_pending_kick_wall :: "int option"
  en_window_start :: int
  en_last_window_start :: int
  en_last_window_length :: nat
  en_plan_tail :: "arm \<Rightarrow> pose7 option"
  en_history :: "arm \<Rightarrow> int \<Rightarrow> pose7 option"
  en_first_window_built :: bool
  en_active_kick_at :: nat
  en_last_window_provenance :: string

definition ensemble_reset :: "Scheduler \<Rightarrow> Scheduler" where
  "ensemble_reset s = s\<lparr>en_plans := [], en_pending_kick_wall := None, en_window_start := 0, en_last_window_start := 0,
     en_last_window_length := 0, en_plan_tail := (\<lambda>_. None), en_history := (\<lambda>_ _. None), en_first_window_built := False,
     en_active_kick_at := 0, en_last_window_provenance := []\<rparr>"

definition ensemble_init :: "int \<Rightarrow> int \<Rightarrow> string \<Rightarrow> Scheduler res" where
  "ensemble_init period horizon blend_mode =
     (if period < 2 then Inl (ValueError ''ensemble period must be >= 2'')
      else if horizon < 3 * period
        then Inl (ValueError (''action horizon '' @ int_str horizon @ '' must be >= 3*period ('' @ int_str (3 * period)
               @ '') (discard + new-side + old-side regions)''))
      else if blend_mode \<notin> {''linear'', ''none''} then Inl (ValueError (''blend_mode must be '' @ repr_str ''linear'' @ '' or '' @ repr_str ''none''))
      else Inr \<lparr>en_period = nat period, en_horizon = nat horizon, en_blend_mode = blend_mode, en_plans = [],
             en_pending_kick_wall = None, en_window_start = 0, en_last_window_start = 0, en_last_window_length = 0,
             en_plan_tail = (\<lambda>_. None), en_history = (\<lambda>_ _. None), en_first_window_built = False, en_active_kick_at = 0,
             en_last_window_provenance = []\<rparr>)"

definition note_kick :: "Scheduler \<Rightarrow> int \<Rightarrow> Scheduler" where
  "note_kick s wall_step = s\<lparr>en_pending_kick_wall := Some wall_step\<rparr>"

definition anchor_for :: "Scheduler \<Rightarrow> arm \<Rightarrow> int \<Rightarrow> (arm \<Rightarrow> pose7) \<Rightarrow> pose7" where
  "anchor_for s a kick_wall anchor_fn =
     (case en_history s a (kick_wall - 1) of
        Some p \<Rightarrow> p
      | None \<Rightarrow> (case en_plan_tail s a of Some p \<Rightarrow> p | None \<Rightarrow> anchor_fn a))"

fun integrate :: "pose7 \<Rightarrow> pose_delta list \<Rightarrow> pose7 list" where
  "integrate cur [] = []"
| "integrate cur (d # ds) = (let nxt = pose_compose_local cur d in nxt # integrate nxt ds)"

definition mk_plan :: "Scheduler \<Rightarrow> Row list \<Rightarrow> int \<Rightarrow> (arm \<Rightarrow> pose7) \<Rightarrow> Plan" where
  "mk_plan s raw kick_wall anchor_fn =
     \<lparr>pl_kick_wall = kick_wall, pl_horizon = length raw,
      pl_abs_targets = (\<lambda>a. integrate (anchor_for s a kick_wall anchor_fn) (map (\<lambda>r. rw_delta r a) raw)),
      pl_grips = (\<lambda>a. map (\<lambda>r. rw_grip r a) raw),
      pl_anchors = (\<lambda>a. anchor_for s a kick_wall anchor_fn)\<rparr>"

definition register :: "Scheduler \<Rightarrow> Row list \<Rightarrow> int \<Rightarrow> (arm \<Rightarrow> pose7) \<Rightarrow> Scheduler" where
  "register s raw kick_wall anchor_fn =
     (let plans = en_plans s @ [mk_plan s raw kick_wall anchor_fn]
      in s\<lparr>en_plans := (if 2 < length plans then tl plans else plans)\<rparr>)"

text \<open>The plans of a window: the newest that covers it, and, when blending, the next newest that covers
  it if the window is its old-side interval.\<close>

definition pick_plans :: "Scheduler \<Rightarrow> int \<Rightarrow> nat \<Rightarrow> (Plan \<times> Plan option) option" where
  "pick_plans s start len =
     (case filter (\<lambda>p. covers p start len) (rev (en_plans s)) of
        [] \<Rightarrow> None
      | [new_plan] \<Rightarrow> Some (new_plan, None)
      | new_plan # p # _ \<Rightarrow>
          if en_blend_mode s = ''none'' then Some (new_plan, None)
          else let i0 = start - pl_kick_wall p
               in Some (new_plan, if 2 * int (en_period s) \<le> i0 \<and> i0 + int len \<le> 3 * int (en_period s) then Some p else None))"

definition window_targets :: "Plan \<Rightarrow> Plan option \<Rightarrow> arm \<Rightarrow> int \<Rightarrow> nat \<Rightarrow> pose7 list" where
  "window_targets new_plan old_plan a start len =
     (let seg_new = the (segment new_plan a start len) in
      case old_plan of
        None \<Rightarrow> seg_new
      | Some p \<Rightarrow> map (\<lambda>j. interp_pose (the (segment p a start len) ! j) (seg_new ! j) (blend_weight j len)) [0..<len])"

definition window_grips :: "Plan \<Rightarrow> Plan option \<Rightarrow> arm \<Rightarrow> int \<Rightarrow> nat \<Rightarrow> real list" where
  "window_grips new_plan old_plan a start len =
     (let grip_new = the (grip_segment new_plan a start len) in
      case old_plan of
        None \<Rightarrow> grip_new
      | Some p \<Rightarrow> map (\<lambda>j. (1 - blend_weight j len) * the (grip_segment p a start len) ! j + blend_weight j len * grip_new ! j) [0..<len])"

fun deltas_from :: "pose7 \<Rightarrow> pose7 list \<Rightarrow> pose_delta list" where
  "deltas_from prev [] = []"
| "deltas_from prev (t # ts) = pose_delta_local prev t # deltas_from t ts"

definition mk_rows :: "nat \<Rightarrow> (arm \<Rightarrow> pose_delta list) \<Rightarrow> (arm \<Rightarrow> real list) \<Rightarrow> Row list" where
  "mk_rows n ds gs = map (\<lambda>j. \<lparr>rw_delta = (\<lambda>a. ds a ! j), rw_grip = (\<lambda>a. gs a ! j)\<rparr>) [0..<n]"

definition tail_or_anchor :: "Scheduler \<Rightarrow> Plan \<Rightarrow> arm \<Rightarrow> pose7" where
  "tail_or_anchor s p a = (case en_plan_tail s a of Some t \<Rightarrow> t | None \<Rightarrow> pl_anchors p a)"

text \<open>\<^verbatim>\<open>_build_window\<close>: the history keeps what was executed, down to the oldest step a late chunk can refer to.\<close>

definition build_window :: "Scheduler \<Rightarrow> nat \<Rightarrow> Scheduler \<times> Row list option" where
  "build_window s len =
     (let start = en_window_start s in
      case pick_plans s start len of
        None \<Rightarrow> (s\<lparr>en_last_window_provenance := ''starved''\<rparr>, None)
      | Some (new_plan, old_plan) \<Rightarrow>
          (let prov = (if old_plan \<noteq> None then ''blend''
                       else if \<not> en_first_window_built s then ''pure-first''
                       else if covers (last (en_plans s)) start len then ''pure-new''
                       else ''pure-old-runway'');
               targets = (\<lambda>a. window_targets new_plan old_plan a start len);
               flr = start + int len - 4 * int (en_period s);
               hist = (\<lambda>a k. if k < flr then None
                             else if start \<le> k \<and> k < start + int len then Some (targets a ! nat (k - start))
                             else en_history s a k)
           in (s\<lparr>en_last_window_provenance := prov, en_history := hist,
                 en_plan_tail := (\<lambda>a. Some (if len = 0 then tail_or_anchor s new_plan a else last (targets a))),
                 en_last_window_start := start, en_last_window_length := len, en_window_start := start + int len\<rparr>,
               Some (mk_rows len (\<lambda>a. deltas_from (tail_or_anchor s new_plan a) (targets a))
                       (\<lambda>a. window_grips new_plan old_plan a start len)))))"

definition ensemble_begin :: "Scheduler \<Rightarrow> Row list \<Rightarrow> (arm \<Rightarrow> pose7) \<Rightarrow> Scheduler \<times> Row list res" where
  "ensemble_begin s raw anchor_fn =
     (case build_window (register s raw 0 anchor_fn) (2 * en_period s) of
        (s1, None) \<Rightarrow> (s1, Inl (AssertionError ''''))
      | (s1, Some window) \<Rightarrow> (s1\<lparr>en_first_window_built := True, en_active_kick_at := en_period s1\<rparr>, Inr window))"

definition admit_chunk :: "Scheduler \<Rightarrow> Row list option \<Rightarrow> (arm \<Rightarrow> pose7) \<Rightarrow> Scheduler" where
  "admit_chunk s raw_chunk anchor_fn =
     (case raw_chunk of
        None \<Rightarrow> s
      | Some raw \<Rightarrow>
          (let kick_wall = (case en_pending_kick_wall s of Some k \<Rightarrow> k
                            | None \<Rightarrow> max 0 (en_window_start s - int (en_period s)))
           in register (s\<lparr>en_pending_kick_wall := None\<rparr>) raw kick_wall anchor_fn))"

definition advance :: "Scheduler \<Rightarrow> Row list option \<Rightarrow> (arm \<Rightarrow> pose7) \<Rightarrow> Scheduler \<times> Row list option" where
  "advance s raw_chunk anchor_fn =
     (let s1 = admit_chunk s raw_chunk anchor_fn
      in case build_window s1 (en_period s1) of
           (s2, None) \<Rightarrow> (s2, None)
         | (s2, Some window) \<Rightarrow> (s2\<lparr>en_active_kick_at := 0\<rparr>, Some window))"

definition runway_segment :: "Scheduler \<Rightarrow> int option \<Rightarrow> Row list" where
  "runway_segment s len =
     (if en_plans s = [] \<or> en_last_window_length s = 0 then []
      else let requested = (case len of None \<Rightarrow> int (en_period s) | Some n \<Rightarrow> n) in
        if requested \<le> 0 then []
        else let start = en_last_window_start s + int (en_last_window_length s); latest = last (en_plans s);
                 available = available_from latest start requested
             in if available \<le> 0 then []
                else let n = nat available; i0 = nat (start - pl_kick_wall latest)
                     in mk_rows n (\<lambda>a. deltas_from (tail_or_anchor s latest a) (take n (drop i0 (pl_abs_targets latest a))))
                          (\<lambda>a. take n (drop i0 (pl_grips latest a))))"

definition overlay_rows_with_runway :: "Row list \<Rightarrow> Scheduler option \<Rightarrow> string \<Rightarrow> Row list" where
  "overlay_rows_with_runway rows scheduler stitch_mode =
     (case scheduler of
        None \<Rightarrow> rows
      | Some s \<Rightarrow> if stitch_mode \<noteq> ''ensemble'' then rows
          else if en_period s < length rows then rows
          else let runway = runway_segment s None in if runway = [] then rows else rows @ runway)"

section \<open>Integrated plans\<close>

lemma length_integrate [simp]: "length (integrate p ds) = length ds"
  by (induction p ds rule: integrate.induct) (simp_all add: Let_def)

lemma integrate_unit: "t \<in> set (integrate p ds) \<Longrightarrow> unit_quat (snd t)"
  by (induction p ds rule: integrate.induct) (auto simp: Let_def compose_unit)

lemma integrate_Suc: "Suc i < length ds \<Longrightarrow> integrate p ds ! Suc i = pose_compose_local (integrate p ds ! i) (ds ! Suc i)"
proof (induction p ds arbitrary: i rule: integrate.induct)
  case (2 p d ds)
  show ?case
  proof (cases i)
    case 0
    with 2(2) show ?thesis by (cases ds) (simp_all add: Let_def)
  next
    case (Suc k)
    with 2 show ?thesis by (simp add: Let_def)
  qed
qed simp

text \<open>A plan made from the rows \<open>raw\<close>.\<close>

definition plan_of :: "Plan \<Rightarrow> Row list \<Rightarrow> bool" where
  "plan_of p raw = (pl_horizon p = length raw
     \<and> (\<forall>a. pl_abs_targets p a = integrate (pl_anchors p a) (map (\<lambda>r. rw_delta r a) raw)))"

lemma plan_of_mk_plan: "plan_of (mk_plan s raw k f) raw"
  by (simp add: plan_of_def mk_plan_def)

lemma plan_of_targets:
  assumes "plan_of p raw"
  shows "length (pl_abs_targets p a) = pl_horizon p" and "i < pl_horizon p \<Longrightarrow> unit_quat (snd (pl_abs_targets p a ! i))"
    and "Suc i < pl_horizon p \<Longrightarrow> pl_abs_targets p a ! Suc i = pose_compose_local (pl_abs_targets p a ! i) (rw_delta (raw ! Suc i) a)"
proof -
  have T: "pl_abs_targets p a = integrate (pl_anchors p a) (map (\<lambda>r. rw_delta r a) raw)" and H: "pl_horizon p = length raw"
    using assms by (simp_all add: plan_of_def)
  show "length (pl_abs_targets p a) = pl_horizon p" by (simp add: T H)
  then show "i < pl_horizon p \<Longrightarrow> unit_quat (snd (pl_abs_targets p a ! i))"
    using integrate_unit nth_mem unfolding T by metis
  show "Suc i < pl_horizon p \<Longrightarrow> pl_abs_targets p a ! Suc i = pose_compose_local (pl_abs_targets p a ! i) (rw_delta (raw ! Suc i) a)"
    using integrate_Suc [of i "map (\<lambda>r. rw_delta r a) raw"] by (simp add: T H)
qed

lemma segment_nth:
  assumes "plan_of p raw" and "covers p w len" and "j < len"
  shows "the (segment p a w len) ! j = pl_abs_targets p a ! (nat (w - pl_kick_wall p) + j)"
    and "nat (w - pl_kick_wall p) + j < pl_horizon p"
proof -
  have i: "nat (w - pl_kick_wall p) + len \<le> pl_horizon p" using assms(2) unfolding covers_def Let_def by arith
  then show "the (segment p a w len) ! j = pl_abs_targets p a ! (nat (w - pl_kick_wall p) + j)"
    using assms plan_of_targets(1) [OF assms(1)] by (simp add: segment_def)
  show "nat (w - pl_kick_wall p) + j < pl_horizon p" using i assms(3) by simp
qed

lemma length_segment: "plan_of p raw \<Longrightarrow> covers p w len \<Longrightarrow> length (the (segment p a w len)) = len"
  using plan_of_targets(1) [of p raw a] by (simp add: segment_def) (simp add: covers_def Let_def, arith)

text \<open>A blended window starts on the old plan and ends on the new one.\<close>

lemma blend_ends:
  assumes "plan_of new_plan raw" "covers new_plan w len" and "plan_of old_plan raw'" "covers old_plan w len" and "2 \<le> len"
  shows "window_targets new_plan (Some old_plan) a w len ! 0 = pl_abs_targets old_plan a ! nat (w - pl_kick_wall old_plan)"
    and "same_pose (window_targets new_plan (Some old_plan) a w len ! (len - 1)) (pl_abs_targets new_plan a ! (nat (w - pl_kick_wall new_plan) + (len - 1)))"
    and "length (window_targets new_plan (Some old_plan) a w len) = len"
proof -
  note N = segment_nth [OF assms(1,2)] and O' = segment_nth [OF assms(3,4)]
  have len: "0 < len" "len - 1 < len" using assms(5) by simp_all
  have u: "unit_quat (snd (pl_abs_targets old_plan a ! (nat (w - pl_kick_wall old_plan) + j)))"
    "unit_quat (snd (pl_abs_targets new_plan a ! (nat (w - pl_kick_wall new_plan) + j)))" if "j < len" for j
    using plan_of_targets(2) [OF assms(3)] plan_of_targets(2) [OF assms(1)] N(2) O'(2) that by simp_all
  have nth: "window_targets new_plan (Some old_plan) a w len ! j =
      interp_pose (pl_abs_targets old_plan a ! (nat (w - pl_kick_wall old_plan) + j))
        (pl_abs_targets new_plan a ! (nat (w - pl_kick_wall new_plan) + j)) (blend_weight j len)" if "j < len" for j
    using that N(1) O'(1) by (simp add: window_targets_def)
  have "blend_weight 0 len = 0" "blend_weight (len - 1) len = 1" using assms(5) by (simp_all add: blend_weight_def)
  with nth [OF len(1)] nth [OF len(2)] u(1) [OF len(1)] u [OF len(2)]
  show "window_targets new_plan (Some old_plan) a w len ! 0 = pl_abs_targets old_plan a ! nat (w - pl_kick_wall old_plan)"
    "same_pose (window_targets new_plan (Some old_plan) a w len ! (len - 1)) (pl_abs_targets new_plan a ! (nat (w - pl_kick_wall new_plan) + (len - 1)))"
    by (simp_all add: interp_pose_0 interp_pose_1)
  show "length (window_targets new_plan (Some old_plan) a w len) = len" by (simp add: window_targets_def)
qed

section \<open>The nominal cadence\<close>

text \<open>A chunk that was kicked one period before the window it arrives for.\<close>

definition nominal_step :: "Scheduler \<Rightarrow> Row list \<times> (arm \<Rightarrow> pose7) \<Rightarrow> Scheduler \<times> Row list option" where
  "nominal_step s x = advance (note_kick s (en_window_start s - int (en_period s))) (Some (fst x)) (snd x)"

text \<open>Between windows: the newest plan was kicked two periods ago, and the last executed target is its own.\<close>

definition on_plan :: "Scheduler \<Rightarrow> Plan \<Rightarrow> arm \<Rightarrow> bool" where
  "on_plan s p a = (\<exists>t. en_history s a (en_window_start s - 1) = Some t
     \<and> same_pose t (pl_abs_targets p a ! (2 * en_period s - 1)))"

definition nominal :: "Scheduler \<Rightarrow> Row list \<Rightarrow> bool" where
  "nominal s raw = (2 \<le> en_period s \<and> en_blend_mode s = ''linear'' \<and> en_plans s \<noteq> [] \<and> length (en_plans s) \<le> 2
     \<and> plan_of (last (en_plans s)) raw \<and> 3 * en_period s \<le> length raw
     \<and> pl_kick_wall (last (en_plans s)) = en_window_start s - 2 * int (en_period s)
     \<and> (\<forall>a. on_plan s (last (en_plans s)) a))"

lemma register_two:
  assumes "en_plans s \<noteq> []" and "length (en_plans s) \<le> 2"
  shows "en_plans (register s raw k f) = [last (en_plans s), mk_plan s raw k f]"
proof (cases "en_plans s")
  case (Cons x xs)
  with assms show ?thesis by (cases xs) (auto simp: register_def Let_def)
qed (use assms in simp)

lemma register_frame [simp]:
  "en_period (register s raw k f) = en_period s" "en_blend_mode (register s raw k f) = en_blend_mode s"
  "en_window_start (register s raw k f) = en_window_start s" "en_history (register s raw k f) = en_history s"
  "en_plan_tail (register s raw k f) = en_plan_tail s"
  by (simp_all add: register_def Let_def)

lemma pick_two:
  assumes "en_plans s = [old_plan, new_plan]" and "en_blend_mode s \<noteq> ''none''"
    and "covers new_plan w len" "covers old_plan w len"
    and "2 * int (en_period s) \<le> w - pl_kick_wall old_plan" "w - pl_kick_wall old_plan + int len \<le> 3 * int (en_period s)"
  shows "pick_plans s w len = Some (new_plan, Some old_plan)"
  using assms by (simp add: pick_plans_def)

lemma build_window_blend:
  assumes "pick_plans s (en_window_start s) len = Some (new_plan, Some old_plan)" and "0 < len" "len \<le> 4 * en_period s"
  shows "\<exists>s' rows. build_window s len = (s', Some rows) \<and> en_last_window_provenance s' = ''blend''
    \<and> en_plans s' = en_plans s \<and> en_period s' = en_period s \<and> en_blend_mode s' = en_blend_mode s
    \<and> en_window_start s' = en_window_start s + int len
    \<and> (\<forall>a j. j < len \<longrightarrow> en_history s' a (en_window_start s + int j)
          = Some (window_targets new_plan (Some old_plan) a (en_window_start s) len ! j))
    \<and> (len \<le> 3 * en_period s \<longrightarrow> 0 < en_period s \<longrightarrow> (\<forall>a. en_history s' a (en_window_start s - 1) = en_history s a (en_window_start s - 1)))"
  using assms by (simp add: build_window_def Let_def)

lemma nominal_step_facts:
  assumes nom: "nominal s raw" and len: "3 * en_period s \<le> length chunk"
  shows "\<exists>s' rows. nominal_step s (chunk, f) = (s', Some rows) \<and> nominal s' chunk
    \<and> en_last_window_provenance s' = ''blend'' \<and> en_period s' = en_period s
    \<and> en_window_start s' = en_window_start s + int (en_period s)
    \<and> (\<forall>a. en_history s' a (en_window_start s - 1) = en_history s a (en_window_start s - 1)
         \<and> en_history s' a (en_window_start s) = Some (pl_abs_targets (last (en_plans s)) a ! (2 * en_period s)))"
proof -
  let ?R = "en_period s" and ?W = "en_window_start s"
  let ?old = "last (en_plans s)"
  define s0 where "s0 = (note_kick s (?W - int ?R))\<lparr>en_pending_kick_wall := None\<rparr>"
  define new where "new = mk_plan s0 chunk (?W - int ?R) f"
  define s1 where "s1 = register s0 chunk (?W - int ?R) f"
  have s0: "en_plans s0 = en_plans s" "en_period s0 = ?R" "en_window_start s0 = ?W" "en_blend_mode s0 = en_blend_mode s"
    "en_history s0 = en_history s" by (simp_all add: s0_def note_kick_def)
  have N: "2 \<le> ?R" "en_blend_mode s = ''linear''" "en_plans s \<noteq> []" "length (en_plans s) \<le> 2" "plan_of ?old raw"
    "3 * ?R \<le> length raw" "pl_kick_wall ?old = ?W - 2 * int ?R" using nom by (simp_all add: nominal_def)
  have plans: "en_plans s1 = [?old, new]"
    using register_two [of s0 chunk "?W - int ?R" f] N(3,4) by (simp add: s0 s1_def new_def)
  have new: "plan_of new chunk" "pl_kick_wall new = ?W - int ?R" "pl_horizon new = length chunk"
    by (simp_all add: new_def plan_of_mk_plan) (simp_all add: mk_plan_def)
  have old: "pl_horizon ?old = length raw" using N(5) by (simp add: plan_of_def)
  have cov: "covers new ?W ?R" "covers ?old ?W ?R" using len N(6) by (simp_all add: covers_def new old N(7))
  have pick: "pick_plans s1 (en_window_start s1) ?R = Some (new, Some ?old)"
    using plans cov by (intro pick_two) (simp_all add: s1_def s0 N)
  have per: "en_period s1 = ?R" "en_window_start s1 = ?W" "en_blend_mode s1 = en_blend_mode s" "en_history s1 = en_history s"
    by (simp_all add: s1_def s0)
  from build_window_blend [OF pick] N(1) obtain s2 rows where b: "build_window s1 ?R = (s2, Some rows)"
    and prov: "en_last_window_provenance s2 = ''blend''"
    and F: "en_plans s2 = [?old, new]" "en_period s2 = ?R" "en_blend_mode s2 = en_blend_mode s" "en_window_start s2 = ?W + int ?R"
    and hist: "\<And>a j. j < ?R \<Longrightarrow> en_history s2 a (?W + int j) = Some (window_targets new (Some ?old) a ?W ?R ! j)"
      "\<And>a. en_history s2 a (?W - 1) = en_history s a (?W - 1)"
    unfolding per plans by auto
  note E = blend_ends [OF new(1) cov(1) N(5) cov(2) N(1)]
  let ?s' = "s2\<lparr>en_active_kick_at := 0\<rparr>"
  have step: "nominal_step s (chunk, f) = (?s', Some rows)"
    using b by (simp add: nominal_step_def advance_def admit_chunk_def note_kick_def s1_def s0_def per(1) [unfolded s1_def s0_def note_kick_def])
  have first: "en_history s2 a ?W = Some (pl_abs_targets ?old a ! (2 * ?R))" for a
    using hist(1) [of 0 a] E(1) [of a] N(1) by (simp add: N(7) nat_mult_distrib)
  have final: "on_plan ?s' new a" for a
  proof -
    have eq: "en_window_start s2 - 1 = ?W + int (?R - 1)" using N(1) F(4) by simp
    have "en_history s2 a (en_window_start s2 - 1) = Some (window_targets new (Some ?old) a ?W ?R ! (?R - 1))"
      unfolding eq using N(1) by (intro hist(1)) simp
    moreover have "nat (?W - pl_kick_wall new) + (?R - 1) = 2 * ?R - 1" using new(2) N(1) by simp
    ultimately show ?thesis using E(2) [of a] F(2) by (simp add: on_plan_def)
  qed
  have "nominal ?s' chunk" using final F N(1,2) new(1,2) len by (simp add: nominal_def)
  with step prov F hist(2) first show ?thesis by simp
qed

lemma begin_nominal:
  assumes "ensemble_init R H ''linear'' = Inr s" and "3 * nat R \<le> length chunk"
  shows "\<exists>s' rows. ensemble_begin s chunk f = (s', Inr rows) \<and> nominal s' chunk \<and> en_period s' = nat R"
proof -
  obtain n where n: "nat R = n" by blast
  have len: "3 * n \<le> length chunk" using assms(2) n by simp
  have s: "en_period s = n" "2 \<le> n" "en_blend_mode s = ''linear''" "en_plans s = []" "en_window_start s = 0"
    "\<not> en_first_window_built s"
    using assms(1) n by (auto simp: ensemble_init_def split: if_splits)
  define p where "p = mk_plan s chunk 0 f"
  have plans: "en_plans (register s chunk 0 f) = [p]" by (simp add: register_def s p_def)
  have p: "plan_of p chunk" "pl_kick_wall p = 0" "pl_horizon p = length chunk"
    by (simp_all add: p_def plan_of_mk_plan) (simp_all add: mk_plan_def)
  have cov: "covers p 0 (2 * n)" using len unfolding covers_def p Let_def by arith
  have pick: "pick_plans (register s chunk 0 f) 0 (2 * n) = Some (p, None)" by (simp add: pick_plans_def plans cov)
  obtain s1 rows where b: "build_window (register s chunk 0 f) (2 * n) = (s1, Some rows)"
    and F: "en_plans s1 = [p]" "en_period s1 = n" "en_blend_mode s1 = ''linear''" "en_window_start s1 = 2 * int (n)"
    and hist: "\<And>a. en_history s1 a (2 * int (n) - 1) = Some (window_targets p None a 0 (2 * n) ! (2 * n - 1))"
    using s(2) by (simp add: build_window_def s pick plans Let_def nat_diff_distrib nat_mult_distrib)
  have "window_targets p None a 0 (2 * n) ! (2 * n - 1) = pl_abs_targets p a ! (2 * n - 1)" for a
    using segment_nth(1) [OF p(1) cov, of "2 * n - 1" a] s(2) by (simp add: window_targets_def p)
  then have "on_plan s1 p a" for a using hist [of a] by (simp add: on_plan_def F)
  then have "nominal (s1\<lparr>en_first_window_built := True, en_active_kick_at := en_period s1\<rparr>) chunk"
    using F s(2) p len by (simp add: nominal_def on_plan_def)
  with b F(2) show ?thesis by (simp add: ensemble_begin_def s n)
qed

section \<open>Rows replay to targets\<close>

lemma replay_deltas:
  assumes "same_pose p prev" and "\<forall>d\<in>set (deltas_from prev ts). resolved_delta d" and "\<forall>t\<in>set ts. unit_quat (snd t)"
  shows "list_all2 same_pose (integrate p (deltas_from prev ts)) ts"
  using assms
proof (induction ts arbitrary: p prev)
  case (Cons t ts)
  have "same_pose (pose_compose_local prev (pose_delta_local prev t)) t"
    using compose_delta [of prev t] Cons.prems(2,3) by simp
  with compose_same_pose [OF Cons.prems(1)] have here: "same_pose (pose_compose_local p (pose_delta_local prev t)) t"
    using same_pose_trans by blast
  from Cons.IH [OF this] Cons.prems(2,3) here show ?case by (simp add: Let_def)
qed simp

lemma length_deltas_from [simp]: "length (deltas_from p ts) = length ts"
  by (induction p ts rule: deltas_from.induct) simp_all

definition plans_ok :: "Scheduler \<Rightarrow> bool" where
  "plans_ok s = (\<forall>p\<in>set (en_plans s). \<exists>raw. plan_of p raw)"

lemma pick_plans_sound:
  "pick_plans s w len = Some (new_plan, old_plan) \<Longrightarrow> new_plan \<in> set (en_plans s) \<and> covers new_plan w len
     \<and> (\<forall>p. old_plan = Some p \<longrightarrow> p \<in> set (en_plans s) \<and> covers p w len)"
proof -
  assume pick: "pick_plans s w len = Some (new_plan, old_plan)"
  let ?c = "filter (\<lambda>p. covers p w len) (rev (en_plans s))"
  obtain cs where cs: "?c = cs" by blast
  have "new_plan \<in> set cs \<and> (\<forall>p. old_plan = Some p \<longrightarrow> p \<in> set cs)"
    using pick unfolding pick_plans_def cs by (auto simp: Let_def split: list.splits if_splits)
  then show ?thesis by (auto simp flip: cs)
qed

lemma window_targets_ok:
  assumes "plan_of new_plan raw" "covers new_plan w len"
  shows "length (window_targets new_plan old_plan a w len) = len" and "\<forall>t\<in>set (window_targets new_plan old_plan a w len). unit_quat (snd t)"
proof -
  have "\<forall>t\<in>set (the (segment new_plan a w len)). unit_quat (snd t)"
    using segment_nth [OF assms] plan_of_targets(2) [OF assms(1)] length_segment [OF assms] by (metis in_set_conv_nth)
  then show "length (window_targets new_plan old_plan a w len) = len" "\<forall>t\<in>set (window_targets new_plan old_plan a w len). unit_quat (snd t)"
    using length_segment [OF assms, of a] by (auto simp: window_targets_def Let_def interp_pose_unit split: option.split)
qed

lemma mk_rows_deltas: "length (ds a) = n \<Longrightarrow> map (\<lambda>r. rw_delta r a) (mk_rows n ds gs) = ds a"
  by (rule nth_equalityI) (simp_all add: mk_rows_def)

lemma build_window_replay:
  assumes ok: "plans_ok s" and b: "build_window s len = (s', Some rows)" and len: "0 < len" "len \<le> 4 * en_period s"
    and tail: "en_plan_tail s a = Some t0" and res: "\<forall>r\<in>set rows. resolved_delta (rw_delta r a)"
  shows "list_all2 same_pose (integrate t0 (map (\<lambda>r. rw_delta r a) rows))
      (map (\<lambda>j. the (en_history s' a (en_window_start s + int j))) [0..<len])"
proof -
  let ?W = "en_window_start s"
  obtain new_plan old_plan where pick: "pick_plans s ?W len = Some (new_plan, old_plan)"
    using b by (auto simp: build_window_def Let_def split: option.splits)
  obtain raw where new: "plan_of new_plan raw" "covers new_plan ?W len" using pick_plans_sound [OF pick] ok by (auto simp: plans_ok_def)
  let ?T = "\<lambda>a. window_targets new_plan old_plan a ?W len"
  note T = window_targets_ok [OF new, of old_plan a]
  have rows: "rows = mk_rows len (\<lambda>a. deltas_from (tail_or_anchor s new_plan a) (?T a)) (\<lambda>a. window_grips new_plan old_plan a ?W len)"
    and hist: "\<And>j. j < len \<Longrightarrow> en_history s' a (?W + int j) = Some (?T a ! j)"
    using b len by (auto simp: build_window_def pick Let_def)
  have ds: "map (\<lambda>r. rw_delta r a) rows = deltas_from t0 (?T a)"
    using mk_rows_deltas [of "\<lambda>a. deltas_from (tail_or_anchor s new_plan a) (?T a)" a len] T(1) tail by (simp add: rows tail_or_anchor_def)
  have "map (\<lambda>j. the (en_history s' a (?W + int j))) [0..<len] = ?T a"
    using T(1) hist by (intro nth_equalityI) simp_all
  moreover have "list_all2 same_pose (integrate t0 (deltas_from t0 (?T a))) (?T a)"
  proof (rule replay_deltas [OF same_pose_refl _ T(2)])
    have "set (deltas_from t0 (?T a)) = (\<lambda>r. rw_delta r a) ` set rows" by (simp flip: ds)
    with res show "\<forall>d\<in>set (deltas_from t0 (?T a)). resolved_delta d" by simp
  qed
  ultimately show ?thesis by (simp add: ds)
qed

section \<open>Runs\<close>

datatype EnsEvent =
    EeKick int
  | EeBegin "Row list" "arm \<Rightarrow> pose7"
  | EeAdvance "Row list option" "arm \<Rightarrow> pose7"
  | EeReset

fun ens_step :: "Scheduler \<Rightarrow> EnsEvent \<Rightarrow> Scheduler \<times> Row list option" where
  "ens_step s (EeKick w) = (note_kick s w, None)"
| "ens_step s (EeBegin raw f) = (case ensemble_begin s raw f of (s', Inl e) \<Rightarrow> (s', None) | (s', Inr rows) \<Rightarrow> (s', Some rows))"
| "ens_step s (EeAdvance raw f) = advance s raw f"
| "ens_step s EeReset = (ensemble_reset s, None)"

lemma plans_ok_register: "plans_ok s \<Longrightarrow> plans_ok (register s raw k f)"
proof -
  assume "plans_ok s"
  then have all: "\<forall>p\<in>set (en_plans s @ [mk_plan s raw k f]). \<exists>raw. plan_of p raw" using plan_of_mk_plan [of s raw k f] by (auto simp: plans_ok_def)
  have "set (en_plans (register s raw k f)) \<subseteq> set (en_plans s @ [mk_plan s raw k f])"
    by (auto simp: register_def Let_def dest: list.set_sel(2) [rotated])
  with all show ?thesis unfolding plans_ok_def by blast
qed

lemma build_window_plans: "en_plans (fst (build_window s len)) = en_plans s"
  by (simp add: build_window_def Let_def split: option.split)

lemma plans_ok_same: "en_plans t = en_plans s \<Longrightarrow> plans_ok s \<Longrightarrow> plans_ok t"
  by (simp add: plans_ok_def)

lemma plans_ok_admit: "plans_ok s \<Longrightarrow> plans_ok (admit_chunk s raw f)"
  using plans_ok_register plans_ok_same [of "s\<lparr>en_pending_kick_wall := None\<rparr>" s]
  by (simp add: admit_chunk_def Let_def split: option.split)

lemma admit_frame [simp]:
  "en_period (admit_chunk s raw f) = en_period s" "en_window_start (admit_chunk s raw f) = en_window_start s"
  "en_plan_tail (admit_chunk s raw f) = en_plan_tail s"
  by (simp_all add: admit_chunk_def Let_def split: option.split)

lemma advance_Some:
  "advance s raw f = (s', Some rows) \<Longrightarrow>
     \<exists>s2. build_window (admit_chunk s raw f) (en_period s) = (s2, Some rows) \<and> s' = s2\<lparr>en_active_kick_at := 0\<rparr>"
  by (auto simp: advance_def Let_def split: prod.splits option.splits)

lemma advance_plans: "plans_ok s \<Longrightarrow> plans_ok (fst (advance s raw f))"
proof -
  assume ok: "plans_ok s"
  have "en_plans (fst (advance s raw f)) = en_plans (admit_chunk s raw f)"
    using build_window_plans [of "admit_chunk s raw f" "en_period s"]
    by (auto simp: advance_def Let_def split: prod.split option.split)
  with plans_ok_admit [OF ok] plans_ok_same show ?thesis by blast
qed

lemma ens_step_plans: "plans_ok s \<Longrightarrow> plans_ok (fst (ens_step s e))"
proof (cases e)
  case (EeBegin raw f)
  assume ok: "plans_ok s"
  have "en_plans (fst (ens_step s e)) = en_plans (register s raw 0 f)"
    using build_window_plans [of "register s raw 0 f" "2 * en_period s"]
    by (auto simp: EeBegin ensemble_begin_def split: prod.split option.split)
  with plans_ok_register [OF ok] plans_ok_same show ?thesis by blast
qed (simp_all add: advance_plans, simp_all add: plans_ok_def note_kick_def ensemble_reset_def)

text \<open>The plan tail is the last executed target.\<close>

definition ens_ok :: "Scheduler \<Rightarrow> bool" where
  "ens_ok s = (plans_ok s \<and> 2 \<le> en_period s \<and> (\<forall>a. en_plan_tail s a = en_history s a (en_window_start s - 1)))"

lemma build_window_frame:
  assumes "plans_ok s" and "0 < len" "len \<le> 4 * en_period s" and "\<forall>a. en_plan_tail s a = en_history s a (en_window_start s - 1)"
    and "build_window s len = (s', out)"
  shows "en_period s' = en_period s" and "en_plan_tail s' a = en_history s' a (en_window_start s' - 1)"
    and "out = Some rows \<Longrightarrow> length rows = len \<and> en_window_start s' = en_window_start s + int len"
proof -
  show "en_period s' = en_period s" using assms(5) by (auto simp: build_window_def Let_def split: option.splits)
  show "out = Some rows \<Longrightarrow> length rows = len \<and> en_window_start s' = en_window_start s + int len"
    using assms(5) by (auto simp: build_window_def Let_def mk_rows_def split: option.splits)
  show "en_plan_tail s' a = en_history s' a (en_window_start s' - 1)"
  proof (cases "pick_plans s (en_window_start s) len")
    case None
    with assms(4,5) show ?thesis by (auto simp: build_window_def Let_def)
  next
    case (Some np)
    obtain new_plan old_plan where np: "np = (new_plan, old_plan)" by (cases np)
    obtain raw where new: "plan_of new_plan raw" "covers new_plan (en_window_start s) len"
      using pick_plans_sound [OF Some [unfolded np]] assms(1) by (auto simp: plans_ok_def)
    let ?T = "window_targets new_plan old_plan a (en_window_start s) len"
    have "length ?T = len" by (rule window_targets_ok(1) [OF new])
    moreover from this assms(2) have "last ?T = ?T ! (len - 1)" by (metis last_conv_nth list.size(3) less_nat_zero_code)
    moreover have "nat (int len - 1) = len - 1" using assms(2) by simp
    ultimately show ?thesis using assms(2,3,5) by (auto simp: build_window_def Let_def Some np)
  qed
qed

lemma ens_ok_build:
  assumes "plans_ok s" and "0 < len" "len \<le> 4 * en_period s" "2 \<le> en_period s" and "\<forall>a. en_plan_tail s a = en_history s a (en_window_start s - 1)"
  shows "ens_ok (fst (build_window s len))"
proof -
  obtain s' out where b: "build_window s len = (s', out)" by (cases "build_window s len")
  note F = build_window_frame [OF assms(1,2,3,5) b]
  have "plans_ok s'" using plans_ok_same [OF build_window_plans [of s len] assms(1)] by (simp add: b)
  with F(1,2) assms(4) b show ?thesis by (simp add: ens_ok_def)
qed

lemma admit_history [simp]: "en_history (admit_chunk s raw f) = en_history s"
  by (simp add: admit_chunk_def Let_def split: option.split)

lemma ens_ok_mono: "ens_ok s \<Longrightarrow> en_plans t = en_plans s \<Longrightarrow> en_period t = en_period s \<Longrightarrow> en_plan_tail t = en_plan_tail s
    \<Longrightarrow> en_history t = en_history s \<Longrightarrow> en_window_start t = en_window_start s \<Longrightarrow> ens_ok t"
  by (simp add: ens_ok_def plans_ok_def)

lemma ens_step_ok: "ens_ok s \<Longrightarrow> ens_ok (fst (ens_step s e))"
proof (cases e)
  case (EeBegin raw f)
  assume ok: "ens_ok s"
  then have "ens_ok (fst (build_window (register s raw 0 f) (2 * en_period s)))"
    using plans_ok_register by (intro ens_ok_build) (auto simp: ens_ok_def)
  then show ?thesis
    by (auto simp: EeBegin ensemble_begin_def split: prod.split option.split elim!: ens_ok_mono)
next
  case (EeAdvance raw f)
  assume ok: "ens_ok s"
  then have "ens_ok (fst (build_window (admit_chunk s raw f) (en_period s)))"
    using plans_ok_admit by (intro ens_ok_build) (auto simp: ens_ok_def)
  then show ?thesis
    by (auto simp: EeAdvance advance_def Let_def split: prod.split option.split elim!: ens_ok_mono)
qed (auto simp: ens_ok_def plans_ok_def note_kick_def ensemble_reset_def)

interpretation ensemble: state_machine ens_step ens_ok
  by unfold_locales (rule ens_step_ok)

lemma ens_ok_init: "ensemble_init period horizon mode = Inr s \<Longrightarrow> ens_ok s"
  by (auto simp: ensemble_init_def ens_ok_def plans_ok_def split: if_splits)

lemma advance_replay:
  assumes ok: "ens_ok s" and adv: "advance s raw f = (s', Some rows)"
    and last_target: "en_history s a (en_window_start s - 1) = Some t0" and res: "\<forall>r\<in>set rows. resolved_delta (rw_delta r a)"
  shows "length rows = en_period s \<and> list_all2 same_pose (integrate t0 (map (\<lambda>r. rw_delta r a) rows))
      (map (\<lambda>j. the (en_history s' a (en_window_start s + int j))) [0..<en_period s])"
proof -
  let ?s1 = "admit_chunk s raw f"
  obtain s2 where b: "build_window ?s1 (en_period s) = (s2, Some rows)" and s': "s' = s2\<lparr>en_active_kick_at := 0\<rparr>"
    using advance_Some [OF adv] by blast
  have P: "plans_ok ?s1" and R: "0 < en_period s" "en_period s \<le> 4 * en_period ?s1" and T: "en_plan_tail ?s1 a = Some t0"
    and tails: "\<forall>a. en_plan_tail ?s1 a = en_history ?s1 a (en_window_start ?s1 - 1)"
    using ok plans_ok_admit last_target by (auto simp: ens_ok_def)
  have "length rows = en_period s" using build_window_frame(3) [OF P R tails b] by simp
  with build_window_replay [OF P b R T res] show ?thesis by (simp add: s')
qed

text \<open>(C26) The rows of a window are a faithful encoding of the targets it executes: whatever kicks, chunks
  and resets came before, integrating the rows that \<^verbatim>\<open>advance\<close> hands out, from the target that was
  executed last, runs through exactly the targets the scheduler records as executed (up to the sign
  of the quaternion), one row per step of the period, as long as no rotation is below the resolution
  of the rotation-vector code.\<close>

theorem window_rows_replay_to_executed_targets:
  assumes "ensemble_init period horizon mode = Inr s0" and "s = state_after ens_step s0 es"
    and "advance s raw f = (s', Some rows)" and "en_history s a (en_window_start s - 1) = Some t0"
    and "\<forall>r\<in>set rows. resolved_delta (rw_delta r a)"
  shows "length rows = en_period s \<and> list_all2 same_pose (integrate t0 (map (\<lambda>r. rw_delta r a) rows))
      (map (\<lambda>j. the (en_history s' a (en_window_start s + int j))) [0..<en_period s])"
proof -
  have "ens_ok s" using ensemble.inv_run [OF ens_ok_init [OF assms(1)]] assms(2) by simp
  from advance_replay [OF this assms(3-5)] show ?thesis .
qed

section \<open>Seams\<close>

lemma nominal_on_plan:
  assumes "nominal s raw"
  shows "\<exists>t. en_history s a (en_window_start s - 1) = Some t
    \<and> same_pose (pose_compose_local t (rw_delta (raw ! (2 * en_period s)) a)) (pl_abs_targets (last (en_plans s)) a ! (2 * en_period s))"
proof -
  let ?p = "last (en_plans s)" and ?R = "en_period s"
  obtain t where t: "en_history s a (en_window_start s - 1) = Some t" "same_pose t (pl_abs_targets ?p a ! (2 * ?R - 1))"
    using assms unfolding nominal_def on_plan_def by blast
  have P: "plan_of ?p raw" "2 \<le> ?R" "3 * ?R \<le> length raw" using assms by (simp_all add: nominal_def)
  then have "Suc (2 * ?R - 1) < pl_horizon ?p" and S: "Suc (2 * ?R - 1) = 2 * ?R" by (simp_all add: plan_of_def)
  from plan_of_targets(3) [OF P(1) this(1), of a] t compose_same_pose [OF t(2)] show ?thesis unfolding S by metis
qed

lemma nominal_seam:
  assumes "nominal s raw" and "3 * en_period s \<le> length chunk"
  shows "\<exists>s' rows. nominal_step s (chunk, f) = (s', Some rows) \<and> en_last_window_provenance s' = ''blend''
    \<and> (\<forall>a. \<exists>t u. en_history s' a (en_window_start s - 1) = Some t \<and> en_history s' a (en_window_start s) = Some u
         \<and> same_pose (pose_compose_local t (rw_delta (raw ! (2 * en_period s)) a)) u)"
proof -
  from nominal_step_facts [OF assms, of f] obtain s' rows where "nominal_step s (chunk, f) = (s', Some rows)"
    "en_last_window_provenance s' = ''blend''"
    "\<And>a. en_history s' a (en_window_start s - 1) = en_history s a (en_window_start s - 1)"
    "\<And>a. en_history s' a (en_window_start s) = Some (pl_abs_targets (last (en_plans s)) a ! (2 * en_period s))" by blast
  with nominal_on_plan [OF assms(1)] show ?thesis by metis
qed

lemma nominal_run:
  assumes "nominal s raw" and "\<forall>x\<in>set xs. 3 * en_period s \<le> length (fst x)"
  shows "nominal (state_after nominal_step s xs) (last (raw # map fst xs)) \<and> en_period (state_after nominal_step s xs) = en_period s"
  using assms
proof (induction xs arbitrary: s raw)
  case (Cons x xs)
  obtain chunk f where x: "x = (chunk, f)" by (cases x)
  with Cons.prems nominal_step_facts [OF Cons.prems(1), of chunk f] obtain s' rows
    where st: "nominal_step s x = (s', Some rows)" "nominal s' chunk" "en_period s' = en_period s" by auto
  with Cons.IH [OF st(2)] Cons.prems(2) x show ?case by simp
qed simp

text \<open>(C27) No jump at a seam. When every chunk covers three periods and arrives for the window that
  starts one period after its kick, every window blends two plans, and the first target it executes
  is the last target executed before it, moved by row \<open>2R\<close> of the chunk that was then the newest:
  the step across the boundary is a step the policy predicted within one chunk.\<close>

theorem ensemble_seams_are_continuous:
  assumes "ensemble_init (int R) H ''linear'' = Inr s0" and "ensemble_begin s0 chunk0 f0 = (s1, out)"
    and "3 * R \<le> length chunk0" and "\<forall>x\<in>set (xs @ [(chunk, f)]). 3 * R \<le> length (fst x)"
    and "s = state_after nominal_step s1 xs"
  shows "\<exists>s' rows. nominal_step s (chunk, f) = (s', Some rows) \<and> en_last_window_provenance s' = ''blend''
    \<and> (\<forall>a. \<exists>t u. en_history s' a (en_window_start s - 1) = Some t \<and> en_history s' a (en_window_start s) = Some u
         \<and> same_pose (pose_compose_local t (rw_delta (last (chunk0 # map fst xs) ! (2 * R)) a)) u)"
proof -
  have "nominal s1 chunk0 \<and> en_period s1 = R" using begin_nominal [OF assms(1), of chunk0 f0] assms(2,3) by simp
  then have "nominal s (last (chunk0 # map fst xs)) \<and> en_period s = R" using nominal_run [of s1 chunk0 xs] assms(4,5) by auto
  with nominal_seam [of s "last (chunk0 # map fst xs)" chunk f] assms(4) show ?thesis by simp
qed

section \<open>A run of two chunks\<close>

definition demo_chunk :: "Row list" where
  "demo_chunk = replicate 6 \<lparr>rw_delta = (\<lambda>_. ((1, 0, 0), (0, 0, 0))), rw_grip = (\<lambda>_. 0)\<rparr>"

definition demo_anchor :: "arm \<Rightarrow> pose7" where
  "demo_anchor = (\<lambda>_. ((0, 0, 0), (0, 0, 0, 1)))"

definition demo_init :: Scheduler where
  "demo_init = (case ensemble_init 2 6 ''linear'' of Inr s \<Rightarrow> s)"

definition demo_begun :: Scheduler where
  "demo_begun = fst (ensemble_begin demo_init demo_chunk demo_anchor)"

lemma demo_init_eq: "ensemble_init 2 6 ''linear'' = Inr demo_init"
  by (simp add: demo_init_def ensemble_init_def)

theorem ensemble_seams_are_continuous_witness:
  "\<exists>s' rows. nominal_step demo_begun (demo_chunk, demo_anchor) = (s', Some rows) \<and> en_last_window_provenance s' = ''blend''
    \<and> (\<exists>t u. en_history s' ArmLeft (en_window_start demo_begun - 1) = Some t \<and> en_history s' ArmLeft (en_window_start demo_begun) = Some u
         \<and> same_pose (pose_compose_local t ((1, 0, 0), (0, 0, 0))) u)"
proof -
  obtain out where b: "ensemble_begin demo_init demo_chunk demo_anchor = (demo_begun, out)"
    by (cases "ensemble_begin demo_init demo_chunk demo_anchor") (simp add: demo_begun_def)
  have i: "ensemble_init (int 2) 6 ''linear'' = Inr demo_init" using demo_init_eq by simp
  have nth: "demo_chunk ! (2 * 2) = \<lparr>rw_delta = (\<lambda>_. ((1, 0, 0), (0, 0, 0))), rw_grip = (\<lambda>_. 0)\<rparr>" by (simp add: demo_chunk_def)
  have "3 * 2 \<le> length demo_chunk" by (simp add: demo_chunk_def)
  from ensemble_seams_are_continuous [OF i b this, of "[]" demo_chunk demo_anchor demo_begun] this
  have "\<exists>s' rows. nominal_step demo_begun (demo_chunk, demo_anchor) = (s', Some rows) \<and> en_last_window_provenance s' = ''blend''
    \<and> (\<forall>a. \<exists>t u. en_history s' a (en_window_start demo_begun - 1) = Some t \<and> en_history s' a (en_window_start demo_begun) = Some u
         \<and> same_pose (pose_compose_local t (rw_delta (demo_chunk ! (2 * 2)) a)) u)" by simp
  then show ?thesis unfolding nth by (simp only: Row.simps) blast
qed

text \<open>Without a rotation the poses of a plan are sums of its translations.\<close>

lemma compose_straight: "pose_compose_local ((x, y, z), (0, 0, 0, 1)) ((a, b, c), (0, 0, 0)) = ((x + a, y + b, z + c), (0, 0, 0, 1))"
  by (simp add: pose_compose_local_def normalize_quat_def qnorm_def rotvec_to_quat_def quat_rotate_vector_def)

lemma delta_straight: "pose_delta_local ((x, y, z), (0, 0, 0, 1)) ((a, b, c), (0, 0, 0, 1)) = ((a - x, b - y, c - z), (0, 0, 0))"
  by (simp add: pose_delta_local_def quat_to_rotvec_def normalize_quat_def qnorm_def quat_rotate_vector_def vsub_def)

lemma demo_path: "integrate ((0, 0, 0), (0, 0, 0, 1)) (replicate 6 ((1, 0, 0), (0, 0, 0))) =
    [((1, 0, 0), (0, 0, 0, 1)), ((2, 0, 0), (0, 0, 0, 1)), ((3, 0, 0), (0, 0, 0, 1)),
     ((4, 0, 0), (0, 0, 0, 1)), ((5, 0, 0), (0, 0, 0, 1)), ((6, 0, 0), (0, 0, 0, 1))]"
proof -
  have "replicate 6 x = [x, x, x, x, x, x]" for x :: "vec3 \<times> vec3" by (simp add: eval_nat_numeral)
  then show ?thesis by (simp add: Let_def compose_straight)
qed

theorem window_rows_replay_to_executed_targets_witness:
  "\<exists>s' rows. advance demo_begun None demo_anchor = (s', Some rows) \<and> length rows = 2
     \<and> list_all2 same_pose (integrate ((4, 0, 0), (0, 0, 0, 1)) (map (\<lambda>r. rw_delta r ArmRight) rows))
         [the (en_history s' ArmRight 4), the (en_history s' ArmRight 5)]"
proof -
  note defs = demo_begun_def demo_init_def ensemble_init_def ensemble_begin_def register_def mk_plan_def demo_chunk_def
    anchor_for_def demo_anchor_def build_window_def pick_plans_def covers_def window_targets_def segment_def demo_path
  have S: "demo_begun = state_after ens_step demo_init [EeBegin demo_chunk demo_anchor]"
    by (simp add: demo_begun_def split: prod.split sum.split)
  have begun: "en_window_start demo_begun = 4" "en_period demo_begun = 2" "en_history demo_begun ArmRight 3 = Some ((4, 0, 0), (0, 0, 0, 1))"
    "covers (last (en_plans demo_begun)) 4 2"
    by (simp_all add: defs Let_def)
  obtain s' rows where a: "advance demo_begun None demo_anchor = (s', Some rows)"
    and r: "list_all (\<lambda>r. rw_delta r ArmRight = ((1, 0, 0), (0, 0, 0))) rows"
    apply (simp add: advance_def admit_chunk_def defs Let_def)
    by (simp add: mk_rows_def tail_or_anchor_def delta_straight upt_conv_Cons)
  have res: "\<forall>r\<in>set rows. resolved_delta (rw_delta r ArmRight)" using r by (auto simp: list_all_iff resolved_delta_def)
  have h: "en_history demo_begun ArmRight (en_window_start demo_begun - 1) = Some ((4, 0, 0), (0, 0, 0, 1))" using begun by simp
  from window_rows_replay_to_executed_targets [OF demo_init_eq S a h res] a begun show ?thesis by (simp add: upt_conv_Cons)
qed

end
