(* ===== verification/RotationMath.thy ===== *)
theory RotationMath
  imports PoseAlgebra
begin

text \<open>
  The rotation arithmetic of \<^verbatim>\<open>policy_runner/action_sources/dual_spacemouse_pose_target.py\<close>: roll, pitch
  and yaw, 3x3 matrices as tuples of their rows, the exponential and the logarithm of rotations, and the
  clamp of a target to a distance from the live pose, over the reals. A pose is x, y, z, roll, pitch, yaw.
\<close>

section \<open>Matrices and angles\<close>

datatype mat3 = Mat real real real real real real real real real

type_synonym pose6 = "real \<times> real \<times> real \<times> real \<times> real \<times> real"

definition rpy_to_matrix :: "real \<Rightarrow> real \<Rightarrow> real \<Rightarrow> mat3" where
  "rpy_to_matrix roll pitch yaw =
     (let cr = cos roll; sr = sin roll; cp = cos pitch; sp = sin pitch; cy = cos yaw; sy = sin yaw
      in (Mat (cy * cp) (cy * sp * sr - sy * cr) (cy * sp * cr + sy * sr)
              (sy * cp) (sy * sp * sr + cy * cr) (sy * sp * cr - cy * sr)
              (- sp) (cp * sr) (cp * cr)))"

text \<open>Python's \<^verbatim>\<open>%\<close> with a positive right operand.\<close>

definition py_mod :: "real \<Rightarrow> real \<Rightarrow> real" where
  "py_mod x y = x - y * of_int \<lfloor>x / y\<rfloor>"

definition wrap_pi :: "real \<Rightarrow> real" where
  "wrap_pi x = py_mod (x + pi) (2 * pi) - pi"

fun matrix_to_rpy :: "mat3 \<Rightarrow> vec3" where
  "matrix_to_rpy (Mat m0 m1 m2 m3 m4 m5 m6 m7 m8) =
     (let pitch = arcsin (max (-1) (min 1 (- m6))); cp = cos pitch;
          (roll, yaw) = (if 1 / 10 ^ 9 < \<bar>cp\<bar> then (math_atan2 m7 m8, math_atan2 m3 m0) else (0, math_atan2 (- m1) m4))
      in (wrap_pi roll, wrap_pi pitch, wrap_pi yaw))"

fun quat_to_matrix :: "quat \<Rightarrow> mat3" where
  "quat_to_matrix (x, y, z, w) =
     (let norm = sqrt (x * x + y * y + z * z + w * w) in
      if norm \<le> 0 then rpy_to_matrix 0 0 0
      else let qx = x / norm; qy = y / norm; qz = z / norm; qw = w / norm
           in (Mat (1 - 2 * (qy * qy + qz * qz)) (2 * (qx * qy - qz * qw)) (2 * (qx * qz + qy * qw))
                   (2 * (qx * qy + qz * qw)) (1 - 2 * (qx * qx + qz * qz)) (2 * (qy * qz - qx * qw))
                   (2 * (qx * qz - qy * qw)) (2 * (qy * qz + qx * qw)) (1 - 2 * (qx * qx + qy * qy))))"

fun mat_mul :: "mat3 \<Rightarrow> mat3 \<Rightarrow> mat3" where
  "mat_mul (Mat a0 a1 a2 a3 a4 a5 a6 a7 a8) (Mat b0 b1 b2 b3 b4 b5 b6 b7 b8) =
     (Mat (a0 * b0 + a1 * b3 + a2 * b6) (a0 * b1 + a1 * b4 + a2 * b7) (a0 * b2 + a1 * b5 + a2 * b8)
          (a3 * b0 + a4 * b3 + a5 * b6) (a3 * b1 + a4 * b4 + a5 * b7) (a3 * b2 + a4 * b5 + a5 * b8)
          (a6 * b0 + a7 * b3 + a8 * b6) (a6 * b1 + a7 * b4 + a8 * b7) (a6 * b2 + a7 * b5 + a8 * b8))"

fun mat_transpose :: "mat3 \<Rightarrow> mat3" where
  "mat_transpose (Mat m0 m1 m2 m3 m4 m5 m6 m7 m8) = (Mat m0 m3 m6 m1 m4 m7 m2 m5 m8)"

fun mat_vec :: "mat3 \<Rightarrow> vec3 \<Rightarrow> vec3" where
  "mat_vec (Mat m0 m1 m2 m3 m4 m5 m6 m7 m8) (x, y, z) =
     (m0 * x + m1 * y + m2 * z, m3 * x + m4 * y + m5 * z, m6 * x + m7 * y + m8 * z)"

fun trace :: "mat3 \<Rightarrow> real" where
  "trace (Mat m0 m1 m2 m3 m4 m5 m6 m7 m8) = m0 + m4 + m8"

text \<open>The angle that \<^verbatim>\<open>_so3_log\<close> computes first, and the antisymmetric part it scales.\<close>

definition rot_angle :: "mat3 \<Rightarrow> real" where
  "rot_angle m = arccos (max (-1) (min 1 ((trace m - 1) / 2)))"

fun vee :: "mat3 \<Rightarrow> vec3" where
  "vee (Mat m0 m1 m2 m3 m4 m5 m6 m7 m8) = (m7 - m5, m2 - m6, m3 - m1)"

definition so3_log :: "mat3 \<Rightarrow> vec3" where
  "so3_log m =
     (let theta = rot_angle m
      in if theta < 1 / 10 ^ 9 then vscale (1 / 2) (vee m) else vscale (theta / (2 * sin theta)) (vee m))"

fun so3_exp :: "vec3 \<Rightarrow> mat3" where
  "so3_exp (x, y, z) =
     (let theta = sqrt (x * x + y * y + z * z) in
      if theta < 1 / 10 ^ 9 then (Mat 1 (- z) y z 1 (- x) (- y) x 1)
      else let kx = x / theta; ky = y / theta; kz = z / theta; c = cos theta; s = sin theta; v1 = 1 - c
           in (Mat (c + kx * kx * v1) (kx * ky * v1 - kz * s) (kx * kz * v1 + ky * s)
                   (ky * kx * v1 + kz * s) (c + ky * ky * v1) (ky * kz * v1 - kx * s)
                   (kz * kx * v1 - ky * s) (kz * ky * v1 + kx * s) (c + kz * kz * v1)))"

fun pose_matrix :: "pose6 \<Rightarrow> mat3" where
  "pose_matrix (x, y, z, rx, ry, rz) = rpy_to_matrix rx ry rz"

fun pose_position :: "pose6 \<Rightarrow> vec3" where
  "pose_position (x, y, z, rx, ry, rz) = (x, y, z)"

fun mk_pose :: "vec3 \<Rightarrow> vec3 \<Rightarrow> pose6" where
  "mk_pose (x, y, z) (rx, ry, rz) = (x, y, z, rx, ry, rz)"

section \<open>Composing and clamping poses\<close>

fun compose_local_delta :: "pose6 \<Rightarrow> pose6 \<Rightarrow> pose6" where
  "compose_local_delta (x, y, z, rx, ry, rz) (dx, dy, dz, drx, dry, drz) =
     (let rotation = rpy_to_matrix rx ry rz
      in mk_pose (vadd (x, y, z) (mat_vec rotation (dx, dy, dz)))
           (matrix_to_rpy (mat_mul rotation (rpy_to_matrix drx dry drz))))"

definition clamp_lead_position :: "vec3 \<Rightarrow> vec3 \<Rightarrow> real \<Rightarrow> vec3" where
  "clamp_lead_position target live max_m =
     (let delta_pos = vsub target live; dist = vnorm delta_pos in
      if max_m = 0 then live
      else if max_m < dist \<and> 0 < dist then vadd live (vscale (max_m / dist) delta_pos)
      else target)"

definition clamp_lead_rotation :: "mat3 \<Rightarrow> mat3 \<Rightarrow> real \<Rightarrow> mat3" where
  "clamp_lead_rotation target_rot live_rot max_rad =
     (let rel_vec = so3_log (mat_mul (mat_transpose live_rot) target_rot); angle = vnorm rel_vec in
      if max_rad = 0 then live_rot
      else if max_rad < angle \<and> 0 < angle then mat_mul live_rot (so3_exp (vscale (max_rad / angle) rel_vec))
      else target_rot)"

definition clamp_target_lead :: "pose6 \<Rightarrow> pose6 \<Rightarrow> real \<Rightarrow> real \<Rightarrow> pose6" where
  "clamp_target_lead target live max_target_lead_m max_target_lead_rad =
     mk_pose (clamp_lead_position (pose_position target) (pose_position live) max_target_lead_m)
       (matrix_to_rpy (clamp_lead_rotation (pose_matrix target) (pose_matrix live) max_target_lead_rad))"

section \<open>Rotations\<close>

definition mat_one :: mat3 where
  "mat_one = (Mat 1 0 0 0 1 0 0 0 1)"

fun cofactor :: "mat3 \<Rightarrow> mat3" where
  "cofactor (Mat a b c d e f g h i) =
     (Mat (e * i - f * h) (f * g - d * i) (d * h - e * g)
          (c * h - b * i) (a * i - c * g) (b * g - a * h)
          (b * f - c * e) (c * d - a * f) (a * e - b * d))"

text \<open>A rotation is orthogonal and its own matrix of cofactors, so its determinant is 1.\<close>

definition is_rotation :: "mat3 \<Rightarrow> bool" where
  "is_rotation m = (mat_mul m (mat_transpose m) = mat_one \<and> mat_mul (mat_transpose m) m = mat_one \<and> cofactor m = m)"

lemma mat_mul_assoc: "mat_mul (mat_mul a b) c = mat_mul a (mat_mul b c)"
  by (cases a; cases b; cases c) (simp add: algebra_simps)

lemma mat_mul_one [simp]: "mat_mul a mat_one = a" "mat_mul mat_one a = a"
  by (cases a; simp add: mat_one_def)+

lemma transpose_transpose [simp]: "mat_transpose (mat_transpose m) = m"
  by (cases m) simp

lemma transpose_mul: "mat_transpose (mat_mul a b) = mat_mul (mat_transpose b) (mat_transpose a)"
  by (cases a; cases b) (simp add: algebra_simps)

lemma cofactor_mul: "cofactor (mat_mul a b) = mat_mul (cofactor a) (cofactor b)"
  by (cases a; cases b) (simp add: algebra_simps)

lemma cofactor_transpose: "cofactor (mat_transpose m) = mat_transpose (cofactor m)"
  by (cases m) (simp add: algebra_simps)

lemma rotation_inverse [simp]:
  "is_rotation m \<Longrightarrow> mat_mul m (mat_mul (mat_transpose m) a) = a"
  "is_rotation m \<Longrightarrow> mat_mul (mat_transpose m) (mat_mul m a) = a"
  by (simp_all add: is_rotation_def flip: mat_mul_assoc)

lemma rotation_transpose [intro]: "is_rotation m \<Longrightarrow> is_rotation (mat_transpose m)"
  by (simp add: is_rotation_def cofactor_transpose)

lemma rotation_mul [intro]:
  assumes "is_rotation a" and "is_rotation b"
  shows "is_rotation (mat_mul a b)"
  using assms by (simp add: is_rotation_def transpose_mul cofactor_mul mat_mul_assoc)

lemma rpy_rotation [simp]: "is_rotation (rpy_to_matrix roll pitch yaw)"
proof -
  have "a * a + b * b = 1 \<Longrightarrow> c * c + d * d = 1 \<Longrightarrow> e * e + f * f = 1 \<Longrightarrow>
      is_rotation (Mat (e * c) (e * d * b - f * a) (e * d * a + f * b)
                       (f * c) (f * d * b + e * a) (f * d * a - e * b) (- d) (c * b) (c * a))"
    for a b c d e f :: real
    unfolding is_rotation_def mat_mul.simps mat_transpose.simps cofactor.simps mat_one_def mat3.inject
    by (intro conjI; algebra)
  then show ?thesis by (simp add: rpy_to_matrix_def Let_def)
qed

lemma atan2_polar:
  assumes "x \<noteq> 0 \<or> y \<noteq> 0"
  shows "cos (math_atan2 y x) = x / sqrt (x\<^sup>2 + y\<^sup>2)" and "sin (math_atan2 y x) = y / sqrt (x\<^sup>2 + y\<^sup>2)"
proof -
  have root: "sqrt (1 + (y / x)\<^sup>2) = sqrt (x\<^sup>2 + y\<^sup>2) / \<bar>x\<bar>" if "x \<noteq> 0"
  proof -
    have "1 + (y / x)\<^sup>2 = (x\<^sup>2 + y\<^sup>2) / x\<^sup>2" using that by (simp add: field_simps)
    then show ?thesis by (simp add: real_sqrt_divide)
  qed
  have "cos (math_atan2 y x) = x / sqrt (x\<^sup>2 + y\<^sup>2) \<and> sin (math_atan2 y x) = y / sqrt (x\<^sup>2 + y\<^sup>2)"
  proof (cases "x = 0")
    case True
    then show ?thesis using assms by (auto simp: math_atan2_def)
  next
    case False
    then show ?thesis
      by (auto simp: math_atan2_def cos_arctan sin_arctan root cos_add sin_add cos_diff sin_diff)
  qed
  then show "cos (math_atan2 y x) = x / sqrt (x\<^sup>2 + y\<^sup>2)" "sin (math_atan2 y x) = y / sqrt (x\<^sup>2 + y\<^sup>2)" by simp_all
qed

lemma wrap_pi_periodic [simp]: "cos (wrap_pi x) = cos x" "sin (wrap_pi x) = sin x"
proof -
  define n where "n = \<lfloor>(x + pi) / (2 * pi)\<rfloor>"
  have w: "wrap_pi x = x - (2 * pi) * of_int n" by (simp add: wrap_pi_def py_mod_def n_def)
  show "cos (wrap_pi x) = cos x" "sin (wrap_pi x) = sin x" by (simp_all only: w cos_diff sin_diff cos_int_2pin sin_int_2pin)
qed

text \<open>A wrapped angle is in the half-open interval.\<close>

lemma wrap_pi_range: "- pi \<le> wrap_pi x \<and> wrap_pi x < pi"
proof -
  define n where "n = \<lfloor>(x + pi) / (2 * pi)\<rfloor>"
  have "of_int n \<le> (x + pi) / (2 * pi) \<and> (x + pi) / (2 * pi) < of_int n + 1" unfolding n_def by linarith
  then have "of_int n * (2 * pi) \<le> x + pi \<and> x + pi < (of_int n + 1) * (2 * pi)"
    by (simp only: pos_le_divide_eq pos_divide_less_eq pi_gt_zero zero_less_mult_iff zero_less_numeral simp_thms)
  moreover have "wrap_pi x = x - of_int n * (2 * pi)" by (simp add: wrap_pi_def py_mod_def n_def)
  ultimately show ?thesis by (simp add: algebra_simps)
qed

section \<open>Round trips\<close>

lemma rotation_entries:
  assumes "is_rotation (Mat m0 m1 m2 m3 m4 m5 m6 m7 m8)"
  shows "m6 * m6 + m7 * m7 + m8 * m8 = 1" "m0 * m0 + m3 * m3 + m6 * m6 = 1" "m1 * m1 + m4 * m4 + m7 * m7 = 1"
    and "m2 = m3 * m7 - m4 * m6" "m5 = m1 * m6 - m0 * m7" "m4 = m0 * m8 - m2 * m6" "m1 = m5 * m6 - m3 * m8"
  using assms by (simp_all add: is_rotation_def mat_one_def)

text \<open>The angles of a rotation give back its matrix, unless the cosine of the pitch is so small that the
  code takes roll to be zero although the arm is not exactly vertical.\<close>

lemma rpy_of_matrix:
  assumes "is_rotation m" and "matrix_to_rpy m = (roll, pitch, yaw)" and pitch: "cos pitch = 0 \<or> 1 / 10 ^ 9 < cos pitch"
  shows "rpy_to_matrix roll pitch yaw = m"
proof (cases m)
  case (Mat m0 m1 m2 m3 m4 m5 m6 m7 m8)
  note E = rotation_entries [OF assms(1) [unfolded Mat]] and angles = assms(2) [unfolded Mat]
  have m6: "\<bar>m6\<bar> \<le> 1"
  proof -
    have "m6 * m6 \<le> 1" using E(1) zero_le_square [of m7] zero_le_square [of m8] by linarith
    then show ?thesis using abs_square_le_1 [of m6] by (simp add: power2_eq_square)
  qed
  define p where "p = arcsin (- m6)"
  have clamp: "max (-1) (min 1 (- m6)) = - m6" using m6 by linarith
  have sp: "sin p = - m6" and cp0: "0 \<le> cos p" and cp: "cos p * cos p = 1 - m6 * m6"
    using m6 abs_square_le_1 [of m6] by (simp_all add: p_def cos_arcsin power2_eq_square)
  have cpp: "cos pitch = cos p" "sin pitch = sin p"
    using angles by (auto simp: Let_def clamp p_def split: prod.splits)
  show ?thesis
  proof (cases "cos p = 0")
    case True
    then have "m6 * m6 = 1" using cp by simp
    moreover have "m7 * m7 + m8 * m8 = 0" "m0 * m0 + m3 * m3 = 0" using E(1,2) calculation by linarith+
    ultimately have z: "m7 = 0" "m8 = 0" "m0 = 0" "m3 = 0" by (simp_all add: sum_squares_eq_zero_iff)
    have one: "m4 * m4 + m1 * m1 = 1" using E(3) z by simp
    then have "m4 \<noteq> 0 \<or> - m1 \<noteq> 0" by auto
    then have y: "cos (math_atan2 (- m1) m4) = m4" "sin (math_atan2 (- m1) m4) = - m1"
      using one by (simp_all add: atan2_polar power2_eq_square)
    have "roll = wrap_pi 0" "yaw = wrap_pi (math_atan2 (- m1) m4)" using angles True by (simp_all add: Let_def clamp p_def)
    then show ?thesis using E(4,5) by (simp add: Mat rpy_to_matrix_def cpp sp True y z)
  next
    case False
    then have big: "1 / 10 ^ 9 < cos p" using pitch cpp by simp
    then have pos: "0 < cos p" by (rule less_trans [rotated]) simp
    have "m8\<^sup>2 + m7\<^sup>2 = cos p * cos p" "m0\<^sup>2 + m3\<^sup>2 = cos p * cos p"
      unfolding power2_eq_square using E(1,2) cp by linarith+
    then have r: "sqrt (m8\<^sup>2 + m7\<^sup>2) = cos p" "sqrt (m0\<^sup>2 + m3\<^sup>2) = cos p" using pos by simp_all
    then have nz: "m8 \<noteq> 0 \<or> m7 \<noteq> 0" "m0 \<noteq> 0 \<or> m3 \<noteq> 0" using pos by auto
    have "roll = wrap_pi (math_atan2 m7 m8)" "yaw = wrap_pi (math_atan2 m3 m0)" using angles big by (simp_all add: Let_def clamp p_def)
    then have ry: "cos roll = m8 / cos p" "sin roll = m7 / cos p" "cos yaw = m0 / cos p" "sin yaw = m3 / cos p"
      using atan2_polar [OF nz(1)] atan2_polar [OF nz(2)] r by simp_all
    have mix: "a / cos p * - m6 * (b / cos p) + c / cos p * (d / cos p) = e"
      if "e * (1 - m6 * m6) = c * d - a * m6 * b" for a b c d e
    proof -
      have "e * (cos p * cos p) = c * d - a * m6 * b" using that cp by simp
      then have "e = (c * d - a * m6 * b) / (cos p * cos p)" using pos by (simp add: field_simps)
      then show ?thesis by (simp add: diff_divide_distrib)
    qed
    have "m2 * (1 - m6 * m6) = m3 * m7 - m0 * m6 * m8" "m4 * (1 - m6 * m6) = m0 * m8 - m3 * m6 * m7"
      "m1 * (1 - m6 * m6) = - m3 * m8 - m0 * m6 * m7" "m5 * (1 - m6 * m6) = - m0 * m7 - m3 * m6 * m8"
      using E(4,5,6,7) by algebra+
    from mix [OF this(1)] mix [OF this(2)] mix [OF this(3)] mix [OF this(4)] show ?thesis
      using pos by (simp add: Mat rpy_to_matrix_def cpp sp ry)
  qed
qed

section \<open>The angle of a rotation\<close>

lemma vnorm_nonneg [simp]: "0 \<le> vnorm v"
  by (cases v) simp

lemma vnorm_squared: "(vnorm (x, y, z))\<^sup>2 = x * x + y * y + z * z"
  by (simp add: power2_eq_square)

lemma rotation_vee:
  assumes "is_rotation m"
  shows "(vnorm (vee m))\<^sup>2 = 4 - (trace m - 1)\<^sup>2"
proof (cases m)
  case (Mat m0 m1 m2 m3 m4 m5 m6 m7 m8)
  have "(m7 - m5) * (m7 - m5) + (m2 - m6) * (m2 - m6) + (m3 - m1) * (m3 - m1) = 4 - (m0 + m4 + m8 - 1) * (m0 + m4 + m8 - 1)"
    using assms unfolding Mat is_rotation_def mat_mul.simps mat_transpose.simps cofactor.simps mat_one_def mat3.inject
    by algebra
  then show ?thesis unfolding Mat vee.simps trace.simps vnorm_squared by (simp only: power2_eq_square)
qed

lemma rotation_angle:
  assumes "is_rotation m"
  shows "cos (rot_angle m) = (trace m - 1) / 2" and "0 \<le> rot_angle m" and "rot_angle m \<le> pi"
    and "vnorm (vee m) = 2 * sin (rot_angle m)"
proof -
  have sq: "(trace m - 1)\<^sup>2 \<le> 2\<^sup>2" using rotation_vee [OF assms] zero_le_power2 [of "vnorm (vee m)"] by simp
  then have "\<bar>trace m - 1\<bar> \<le> 2" using abs_le_square_iff [of "trace m - 1" 2] by simp
  then have b: "- 1 \<le> (trace m - 1) / 2" "(trace m - 1) / 2 \<le> 1" by (auto simp: abs_le_iff)
  then have a: "rot_angle m = arccos ((trace m - 1) / 2)" by (simp add: rot_angle_def)
  show c: "cos (rot_angle m) = (trace m - 1) / 2" and r: "0 \<le> rot_angle m" "rot_angle m \<le> pi"
    using b by (simp_all add: a arccos_lbound arccos_ubound)
  have "0 \<le> sin (rot_angle m)" using r by (rule sin_ge_zero)
  moreover have "(sin (rot_angle m))\<^sup>2 = 1 - ((trace m - 1) / 2)\<^sup>2" by (simp only: sin_squared_eq c)
  then have "(vnorm (vee m))\<^sup>2 = (2 * sin (rot_angle m))\<^sup>2" using rotation_vee [OF assms] by (simp add: power_mult_distrib power_divide)
  ultimately show "vnorm (vee m) = 2 * sin (rot_angle m)" by (auto intro: power2_eq_imp_eq)
qed

text \<open>The logarithm has the length of the angle, except for a half turn, where it is the zero vector.\<close>

lemma so3_log_length:
  assumes "is_rotation m" and "1 / 10 ^ 9 \<le> rot_angle m"
  shows "trace m \<noteq> -1 \<Longrightarrow> vnorm (so3_log m) = rot_angle m" and "trace m = -1 \<Longrightarrow> vnorm (so3_log m) = 0"
proof -
  have pos: "0 < rot_angle m" using assms(2) by (rule less_le_trans [rotated]) simp
  have len: "vnorm (so3_log m) = \<bar>rot_angle m / (2 * sin (rot_angle m))\<bar> * (2 * sin (rot_angle m))"
    using assms by (simp add: so3_log_def Let_def vnorm_scale rotation_angle(4))
  show "vnorm (so3_log m) = rot_angle m" if "trace m \<noteq> -1"
  proof -
    have "cos (rot_angle m) \<noteq> cos pi" using that rotation_angle(1) [OF assms(1)] by simp
    then have "rot_angle m < pi" using rotation_angle(3) [OF assms(1)] by (metis order_le_less)
    then have "0 < sin (rot_angle m)" using pos by (rule sin_gt_zero [rotated])
    then show ?thesis using pos by (simp add: len)
  qed
  show "vnorm (so3_log m) = 0" if "trace m = -1"
  proof -
    have "cos (rot_angle m) = - 1" using that rotation_angle(1) [OF assms(1)] by simp
    then have "sin (rot_angle m) = 0" using sin_squared_eq [of "rot_angle m"] by simp
    then show ?thesis by (simp add: len)
  qed
qed

lemma so3_log_small:
  assumes "is_rotation m" and "rot_angle m < 1 / 10 ^ 9"
  shows "vnorm (so3_log m) \<le> rot_angle m"
  using assms rotation_angle [OF assms(1)] sin_x_le_x [of "rot_angle m"]
  by (simp add: so3_log_def vnorm_scale)

lemma so3_exp_rotation:
  assumes "1 / 10 ^ 9 \<le> vnorm v"
  shows "is_rotation (so3_exp v)" and "trace (so3_exp v) = 1 + 2 * cos (vnorm v)"
proof -
  obtain x y z where v: "v = (x, y, z)" by (cases v)
  define t where "t = vnorm v"
  have t: "sqrt (x * x + y * y + z * z) = t" by (simp add: t_def v power2_eq_square)
  have pos: "0 < t" using assms unfolding t_def by (rule less_le_trans [rotated]) simp
  have tt: "t * t = x * x + y * y + z * z" using t pos by (metis real_sqrt_ge_0_iff real_sqrt_mult_self abs_of_nonneg less_imp_le)
  have unit: "x / t * (x / t) + y / t * (y / t) + z / t * (z / t) = 1"
    using pos by (simp add: add_divide_distrib [symmetric] flip: tt)
  have e: "so3_exp v = (let kx = x / t; ky = y / t; kz = z / t; c = cos t; s = sin t; v1 = 1 - c
           in Mat (c + kx * kx * v1) (kx * ky * v1 - kz * s) (kx * kz * v1 + ky * s)
                  (ky * kx * v1 + kz * s) (c + ky * ky * v1) (ky * kz * v1 - kx * s)
                  (kz * kx * v1 - ky * s) (kz * ky * v1 + kx * s) (c + kz * kz * v1))"
  proof -
    have "\<not> t < 1 / 10 ^ 9" using assms by (simp add: t_def)
    then show ?thesis unfolding v so3_exp.simps t by (simp only: Let_def if_False)
  qed
  have "is_rotation (Mat (c + a * a * (1 - c)) (a * b * (1 - c) - d * s) (a * d * (1 - c) + b * s)
                  (b * a * (1 - c) + d * s) (c + b * b * (1 - c)) (b * d * (1 - c) - a * s)
                  (d * a * (1 - c) - b * s) (d * b * (1 - c) + a * s) (c + d * d * (1 - c)))"
    if "a * a + b * b + d * d = 1" "s * s + c * c = 1" for a b c d s :: real
    using that unfolding is_rotation_def mat_mul.simps mat_transpose.simps cofactor.simps mat_one_def mat3.inject
    by (intro conjI; algebra)
  from this [OF unit, of "sin t" "cos t"] show "is_rotation (so3_exp v)"
    by (simp add: e Let_def flip: power2_eq_square)
  have "a * a + b * b + d * d = 1 \<Longrightarrow> c + a * a * (1 - c) + (c + b * b * (1 - c)) + (c + d * d * (1 - c)) = 1 + 2 * c"
    for a b c d :: real by algebra
  from this [OF unit, of "cos t"] show "trace (so3_exp v) = 1 + 2 * cos (vnorm v)"
    by (simp add: e Let_def t_def)
qed

section \<open>The lead of a target over the live pose\<close>

fun pose_pitch :: "pose6 \<Rightarrow> real" where
  "pose_pitch (x, y, z, rx, ry, rz) = ry"

lemma mk_pose_simps [simp]:
  "pose_position (mk_pose v w) = v" "pose_matrix (mk_pose v (rx, ry, rz)) = rpy_to_matrix rx ry rz"
  "pose_pitch (mk_pose v (rx, ry, rz)) = ry"
  by (cases v; cases w; simp)+

lemma pose_matrix_rotation [simp]: "is_rotation (pose_matrix p)"
  by (cases p) simp

lemma vsub_self [simp]: "vsub v v = (0, 0, 0)"
  by (cases v) (simp add: vsub_def)

lemma vsub_vadd [simp]: "vsub (vadd u v) u = v"
  by (cases u; cases v) (simp add: vsub_def)

lemma position_lead: "0 \<le> max_m \<Longrightarrow> vnorm (vsub (clamp_lead_position target live max_m) live) \<le> max_m"
  by (auto simp: clamp_lead_position_def Let_def vnorm_scale)

lemma clamped_is_rotation:
  assumes "is_rotation target" and "is_rotation live" and "max_rad = 0 \<or> 1 / 10 ^ 9 \<le> max_rad"
  shows "is_rotation (clamp_lead_rotation target live max_rad)"
proof -
  let ?v = "so3_log (mat_mul (mat_transpose live) target)"
  have "is_rotation (so3_exp (vscale (max_rad / vnorm ?v) ?v))" if "max_rad \<noteq> 0" "max_rad < vnorm ?v"
  proof (rule so3_exp_rotation(1))
    have m: "1 / 10 ^ 9 \<le> max_rad" using assms(3) that(1) by blast
    then have "0 < max_rad" by (rule less_le_trans [rotated]) simp
    with that(2) m show "1 / 10 ^ 9 \<le> vnorm (vscale (max_rad / vnorm ?v) ?v)" by (simp add: vnorm_scale)
  qed
  then show ?thesis using assms(1,2) by (auto simp: clamp_lead_rotation_def Let_def)
qed

text \<open>The clamp bounds the angle, unless the two rotations are exactly half a turn apart.\<close>

lemma rotation_lead:
  assumes rot: "is_rotation target" "is_rotation live" and max: "max_rad = 0 \<or> 1 / 10 ^ 9 \<le> max_rad"
    and turn: "trace (mat_mul (mat_transpose live) target) \<noteq> -1"
  shows "rot_angle (mat_mul (mat_transpose live) (clamp_lead_rotation target live max_rad)) \<le> max_rad"
proof -
  define r where "r = mat_mul (mat_transpose live) target"
  have r: "is_rotation r" using rot by (auto simp: r_def)
  have one: "rot_angle mat_one = 0" by (simp add: rot_angle_def mat_one_def)
  consider (zero) "max_rad = 0" | (free) "max_rad \<noteq> 0" "vnorm (so3_log r) \<le> max_rad"
    | (clamped) "max_rad \<noteq> 0" "max_rad < vnorm (so3_log r)" by linarith
  then show ?thesis
  proof cases
    case zero
    then show ?thesis using rot(2) one by (simp add: clamp_lead_rotation_def is_rotation_def)
  next
    case free
    have "rot_angle r \<le> max_rad"
    proof (cases "rot_angle r < 1 / 10 ^ 9")
      case True
      then show ?thesis using max free(1) by linarith
    next
      case False
      then show ?thesis using so3_log_length(1) [OF r _ turn [folded r_def]] free(2) by simp
    qed
    then show ?thesis using free by (simp add: clamp_lead_rotation_def r_def [symmetric])
  next
    case clamped
    then have m: "1 / 10 ^ 9 \<le> max_rad" using max by blast
    then have pos: "0 < max_rad" by (rule less_le_trans [rotated]) simp
    have "vnorm (so3_log r) \<le> rot_angle r"
    proof (cases "rot_angle r < 1 / 10 ^ 9")
      case True
      then show ?thesis by (rule so3_log_small [OF r])
    next
      case False
      then show ?thesis using so3_log_length(1) [OF r _ turn [folded r_def]] by simp
    qed
    then have "max_rad < pi" using clamped(2) rotation_angle(3) [OF r] by linarith
    let ?v = "vscale (max_rad / vnorm (so3_log r)) (so3_log r)"
    have n: "vnorm ?v = max_rad" using clamped pos by (simp add: vnorm_scale)
    have e: "is_rotation (so3_exp ?v)" "trace (so3_exp ?v) = 1 + 2 * cos max_rad"
      using so3_exp_rotation [of ?v] m by (simp_all add: n)
    have "rot_angle (so3_exp ?v) = arccos (cos max_rad)" using e(2) by (simp add: rot_angle_def)
    then have "rot_angle (so3_exp ?v) = max_rad" using pos \<open>max_rad < pi\<close> by (simp add: arccos_cos)
    moreover have "clamp_lead_rotation target live max_rad = mat_mul live (so3_exp ?v)"
      using clamped pos by (simp add: clamp_lead_rotation_def Let_def r_def [symmetric])
    ultimately show ?thesis using rot(2) by simp
  qed
qed

text \<open>A clamped target stays near the live pose: its position is at most the configured distance away, and
  its orientation, read back from the emitted roll, pitch and yaw, is at most the configured angle away.
  The two exceptions are a target that is exactly half a turn from the live orientation, whose rotation
  vector the code computes as zero, and an emitted pitch within 1e-9 of vertical but not vertical, where
  the code drops the roll.\<close>

lemma clamp_bounds_the_lead:
  assumes "p = clamp_target_lead target live max_m max_rad" and "0 \<le> max_m" and "max_rad = 0 \<or> 1 / 10 ^ 9 \<le> max_rad"
    and "trace (mat_mul (mat_transpose (pose_matrix live)) (pose_matrix target)) \<noteq> -1"
    and "cos (pose_pitch p) = 0 \<or> 1 / 10 ^ 9 < cos (pose_pitch p)"
  shows "vnorm (vsub (pose_position p) (pose_position live)) \<le> max_m
    \<and> rot_angle (mat_mul (mat_transpose (pose_matrix live)) (pose_matrix p)) \<le> max_rad"
proof -
  let ?r = "clamp_lead_rotation (pose_matrix target) (pose_matrix live) max_rad"
  obtain rx ry rz where a: "matrix_to_rpy ?r = (rx, ry, rz)" by (cases "matrix_to_rpy ?r")
  have "is_rotation ?r" using assms(3) by (simp add: clamped_is_rotation)
  then have "rpy_to_matrix rx ry rz = ?r" using a assms(1,5) by (intro rpy_of_matrix) (simp_all add: clamp_target_lead_def)
  then have "pose_matrix p = ?r" by (simp add: assms(1) clamp_target_lead_def a)
  then show ?thesis using position_lead [OF assms(2)] rotation_lead [OF _ _ assms(3,4)]
    by (simp add: assms(1) clamp_target_lead_def a)
qed

text \<open>At exactly half a turn the rotation is passed through unclamped.\<close>

lemma half_turn_is_not_clamped:
  assumes "is_rotation target" and "is_rotation live" and "trace (mat_mul (mat_transpose live) target) = -1" and "0 < max_rad"
  shows "clamp_lead_rotation target live max_rad = target"
proof -
  let ?r = "mat_mul (mat_transpose live) target"
  have r: "is_rotation ?r" using assms by auto
  have "cos (rot_angle ?r) = cos pi" using rotation_angle(1) [OF r] assms(3) by simp
  then have "rot_angle ?r = pi" using rotation_angle(2,3) [OF r] by (metis arccos_cos pi_ge_zero order_refl)
  moreover have "1 / 10 ^ 9 \<le> pi" using pi_ge_two by simp
  ultimately have "vnorm (so3_log ?r) = 0" using so3_log_length(2) [OF r _ assms(3)] by simp
  then show ?thesis using assms(4) by (simp add: clamp_lead_rotation_def Let_def)
qed

text \<open>The angles of a rotation matrix give it back: converting a matrix to roll, pitch and yaw and back is
  the identity on every rotation whose pitch is vertical or further than 1e-9 from it, and the angles
  are wrapped to the half-open interval from minus pi to pi.\<close>

theorem rpy_round_trip:
  assumes "is_rotation m" and "matrix_to_rpy m = (roll, pitch, yaw)" and "cos pitch = 0 \<or> 1 / 10 ^ 9 < cos pitch"
  shows "rpy_to_matrix roll pitch yaw = m \<and> (\<forall>a. a = roll \<or> a = pitch \<or> a = yaw \<longrightarrow> - pi \<le> a \<and> a < pi)"
proof -
  have "\<exists>a b c. (roll, pitch, yaw) = (wrap_pi a, wrap_pi b, wrap_pi c)"
    using assms(2) by (cases m) (auto simp: Let_def split: prod.splits)
  then show ?thesis using rpy_of_matrix [OF assms] wrap_pi_range by auto
qed

section \<open>Examples\<close>

theorem rpy_round_trip_witness:
  "rpy_to_matrix (wrap_pi 0) (wrap_pi 0) (wrap_pi (pi / 2)) = Mat 0 (-1) 0 1 0 0 0 0 1"
proof -
  have "is_rotation (Mat 0 (-1) 0 1 0 0 0 0 1)" by (simp add: is_rotation_def mat_one_def)
  moreover have "matrix_to_rpy (Mat 0 (-1) 0 1 0 0 0 0 1) = (wrap_pi 0, wrap_pi 0, wrap_pi (pi / 2))" by (simp add: math_atan2_def)
  ultimately show ?thesis using rpy_round_trip by simp
qed

end
