(* ===== verification/PoseTarget.thy ===== *)
theory PoseTarget
  imports CommandClient RotationMath
begin

text \<open>
  The payloads of \<^verbatim>\<open>policy_runner/action_sources/tcp_pose_target.py\<close>: Cartesian intents and the clamp of a
  pose delta. Numbers of a payload are doubles; the clamp is over the reals. Also what the two teleop
  sources share: reading a finite number as a real, and a pose as the list of numbers of a payload, each
  rounded to a double by a parameter \<open>fl\<close>.
\<close>

section \<open>Numbers\<close>

definition real_of :: "pyfloat \<Rightarrow> real" where
  "real_of x = (case x of Fin q \<Rightarrow> of_rat q | _ \<Rightarrow> 0)"

definition has_key :: "pydict \<Rightarrow> string \<Rightarrow> bool" where
  "has_key d k = (map_of d k \<noteq> None)"

fun list_to_pose :: "real list \<Rightarrow> pose6" where
  "list_to_pose [a, b, c, d, e, f] = (a, b, c, d, e, f)"
| "list_to_pose _ = (0, 0, 0, 0, 0, 0)"

definition pose_list :: "(real \<Rightarrow> pyfloat) \<Rightarrow> pose6 option \<Rightarrow> pyfloat list option" where
  "pose_list fl pose = map_option (\<lambda>(x, y, z, rx, ry, rz). map fl [x, y, z, rx, ry, rz]) pose"

section \<open>Clamping a delta\<close>

definition clamp_value :: "real \<Rightarrow> real \<Rightarrow> real" where
  "clamp_value v limit = max (- limit) (min limit v)"

definition clamp_pose_delta :: "real list \<Rightarrow> real \<Rightarrow> real \<Rightarrow> real list res" where
  "clamp_pose_delta delta max_linear_step_m max_angular_step_rad =
     (if length delta \<noteq> 6 then Inl (ValueError ''pose delta must contain 6 values'')
      else let limits = replicate 3 \<bar>max_linear_step_m\<bar> @ replicate 3 \<bar>max_angular_step_rad\<bar>
           in Inr (map (\<lambda>(v, limit). clamp_value v limit) (zip delta limits)))"

section \<open>Intents\<close>

definition pose_target_arm_payload :: "pyfloat list option \<Rightarrow> pyfloat option \<Rightarrow> pydict res" where
  "pose_target_arm_payload pose gripper_target =
     (let with_gripper = (\<lambda>p. case gripper_target of None \<Rightarrow> p | Some g \<Rightarrow> dset p ''gripper_target'' (PFloat g))
      in case pose of
           None \<Rightarrow> Inr (with_gripper [(''mode'', PStr ''Hold'')])
         | Some values \<Rightarrow>
             if length values = 6 then
               Inr (with_gripper [(''mode'', PStr ''TcpPoseTarget''), (''tcp_target_stand'', PList (map PFloat values))])
             else if length values = 7 then
               Inr (with_gripper [(''mode'', PStr ''TcpPoseTarget''),
                 (''tcp_target_stand'', PDict [(''x'', PFloat (values ! 0)), (''y'', PFloat (values ! 1)), (''z'', PFloat (values ! 2)),
                    (''rx'', PFloat (Fin 0)), (''ry'', PFloat (Fin 0)), (''rz'', PFloat (Fin 0)),
                    (''quaternion_xyzw'', PList (map PFloat (drop 3 values)))])])
             else Inl (ValueError ''tcp_target_stand must contain 6 or 7 values''))"

text \<open>\<^verbatim>\<open>CartesianCommandIntent\<close> only overrides \<^verbatim>\<open>is_motion\<close> to be true, which it already is in this mode.\<close>

definition tcp_pose_target_stand_intent ::
  "pyfloat list option \<Rightarrow> pyfloat list option \<Rightarrow> pyfloat option \<Rightarrow> pyfloat option \<Rightarrow> pyfloat \<Rightarrow> string option \<Rightarrow> pydict option \<Rightarrow> CommandIntent res" where
  "tcp_pose_target_stand_intent left right left_gripper right_gripper timeout_sec profile metadata =
     res_bind (pose_target_arm_payload left left_gripper) (\<lambda>l.
     res_bind (pose_target_arm_payload right right_gripper) (\<lambda>r.
     Inr ((intent_of ''TcpPoseTarget'' timeout_sec (Some l) (Some r))\<lparr>ci_tcp_target_profile := profile, ci_metadata := metadata\<rparr>)))"

lemma cartesian_intent_is_motion:
  "tcp_pose_target_stand_intent left right lg rg timeout_sec profile metadata = Inr i \<Longrightarrow> is_motion i"
  by (auto simp: tcp_pose_target_stand_intent_def res_bind_def is_motion_def intent_of_def MOTION_MODES_def split: sum.splits)

lemma clamp_value_abs: "0 \<le> limit \<Longrightarrow> \<bar>clamp_value v limit\<bar> \<le> limit"
  by (auto simp: clamp_value_def)

lemma clamp_pose_delta_six:
  "clamp_pose_delta [a, b, c, d, e, f] ml ma =
     Inr [clamp_value a \<bar>ml\<bar>, clamp_value b \<bar>ml\<bar>, clamp_value c \<bar>ml\<bar>, clamp_value d \<bar>ma\<bar>, clamp_value e \<bar>ma\<bar>, clamp_value f \<bar>ma\<bar>]"
  by (simp add: clamp_pose_delta_def numeral_3_eq_3)

end
