(* ===== verification/UmiPoseMath.thy ===== *)
theory UmiPoseMath
  imports RotationMath PoseTarget
begin

text \<open>
  The rigid transforms and quaternions of \<^verbatim>\<open>policy_runner/action_sources/umi_dual_cartesian.py\<close>, over the
  reals. The matrix and angle functions that the file has in common with the SpaceMouse source are those of
  \<open>RotationMath\<close>. \<^verbatim>\<open>_quat_to_matrix\<close> raises on the zero quaternion here; where the code can reach that, on
  a tracker or state quaternion, the model checks it, and elsewhere its argument has unit length.
\<close>

section \<open>Transforms\<close>

record Transform =
  tf_translation :: vec3
  tf_rotation :: mat3

definition tf_compose :: "Transform \<Rightarrow> Transform \<Rightarrow> Transform" where
  "tf_compose a b = \<lparr>tf_translation = vadd (tf_translation a) (mat_vec (tf_rotation a) (tf_translation b)),
     tf_rotation = mat_mul (tf_rotation a) (tf_rotation b)\<rparr>"

definition tf_inverse :: "Transform \<Rightarrow> Transform" where
  "tf_inverse t = (let rotation_t = mat_transpose (tf_rotation t)
     in \<lparr>tf_translation = mat_vec rotation_t (vscale (-1) (tf_translation t)), tf_rotation = rotation_t\<rparr>)"

definition transform_to_pose6 :: "Transform \<Rightarrow> pose6" where
  "transform_to_pose6 t = mk_pose (tf_translation t) (matrix_to_rpy (tf_rotation t))"

section \<open>Quaternions\<close>

fun matrix_to_quat :: "mat3 \<Rightarrow> quat" where
  "matrix_to_quat (Mat m0 m1 m2 m3 m4 m5 m6 m7 m8) =
     (if 0 < m0 + m4 + m8 then
        (let s = sqrt (m0 + m4 + m8 + 1) * 2 in ((m7 - m5) / s, (m2 - m6) / s, (m3 - m1) / s, s / 4))
      else if m4 < m0 \<and> m8 < m0 then
        (let s = sqrt (1 + m0 - m4 - m8) * 2 in (s / 4, (m1 + m3) / s, (m2 + m6) / s, (m7 - m5) / s))
      else if m8 < m4 then
        (let s = sqrt (1 + m4 - m0 - m8) * 2 in ((m1 + m3) / s, s / 4, (m5 + m7) / s, (m2 - m6) / s))
      else
        (let s = sqrt (1 + m8 - m0 - m4) * 2 in ((m2 + m6) / s, (m5 + m7) / s, s / 4, (m3 - m1) / s)))"

definition quat_normalize :: "quat \<Rightarrow> quat" where
  "quat_normalize q = (let norm = qnorm q in if norm \<le> 0 then (0, 0, 0, 1) else qscale (1 / norm) q)"

definition quat_slerp :: "quat \<Rightarrow> quat \<Rightarrow> real \<Rightarrow> quat" where
  "quat_slerp q0 q1 alpha =
     (let a = quat_normalize q0; b0 = quat_normalize q1; d0 = qdot a b0;
          b = (if d0 < 0 then qscale (-1) b0 else b0); d1 = (if d0 < 0 then - d0 else d0);
          dot = max (-1) (min 1 d1); t = max 0 (min 1 alpha)
      in if dot > 0.9995 then quat_normalize (qadd (qscale (1 - t) a) (qscale t b))
         else let theta_0 = arccos dot; theta = theta_0 * t;
                  s0 = cos theta - dot * sin theta / sin theta_0; s1 = sin theta / sin theta_0
              in quat_normalize (qadd (qscale s0 a) (qscale s1 b)))"

definition quat_angle :: "quat \<Rightarrow> quat \<Rightarrow> real" where
  "quat_angle q0 q1 = 2 * arccos (max (-1) (min 1 \<bar>qdot (quat_normalize q0) (quat_normalize q1)\<bar>))"

definition average_quaternions :: "quat list \<Rightarrow> quat" where
  "average_quaternions quats =
     (case quats of
        [] \<Rightarrow> (0, 0, 0, 1)
      | q # qs \<Rightarrow>
          (let total = foldl (\<lambda>acc p. qadd acc (if qdot acc p < 0 then qscale (-1) p else p)) q qs; norm = qnorm total
           in if norm < 1 / 10 ^ 9 then last quats else qscale (1 / norm) total))"

section \<open>Poses\<close>

fun pose6_to_quat :: "pose6 \<Rightarrow> quat" where
  "pose6_to_quat (x, y, z, rx, ry, rz) = matrix_to_quat (rpy_to_matrix rx ry rz)"

definition interpolate_pose6_se3 :: "pose6 \<Rightarrow> pose6 \<Rightarrow> real \<Rightarrow> pose6" where
  "interpolate_pose6_se3 start end alpha =
     (let t = max 0 (min 1 alpha);
          xyz = vadd (pose_position start) (vscale t (vsub (pose_position end) (pose_position start)));
          quat = quat_slerp (pose6_to_quat start) (pose6_to_quat end) t
      in mk_pose xyz (matrix_to_rpy (quat_to_matrix quat)))"

definition pose6_distance :: "pose6 \<Rightarrow> pose6 \<Rightarrow> real \<times> real" where
  "pose6_distance a b = (vnorm (vsub (pose_position b) (pose_position a)), quat_angle (pose6_to_quat a) (pose6_to_quat b))"

fun pose_rpy :: "pose6 \<Rightarrow> vec3" where
  "pose_rpy (x, y, z, rx, ry, rz) = (rx, ry, rz)"

definition clamp_pose6_lead :: "pose6 \<Rightarrow> pose6 \<Rightarrow> real \<Rightarrow> real \<Rightarrow> pose6 \<times> string" where
  "clamp_pose6_lead reference target max_translation_m max_rotation_rad =
     (let dx = vsub (pose_position target) (pose_position reference); dist = vnorm dx;
          far = (0 \<le> max_translation_m \<and> max_translation_m < dist \<and> 0 < max_translation_m);
          xyz = (if far then vadd (pose_position reference) (vscale (max_translation_m / dist) dx) else pose_position target);
          axes = (if far then ''xyz'' else []);
          q_ref = pose6_to_quat reference; q_target = pose6_to_quat target; angle = quat_angle q_ref q_target;
          turned = (0 \<le> max_rotation_rad \<and> max_rotation_rad < angle \<and> 0 < max_rotation_rad);
          rpy = (if turned then matrix_to_rpy (quat_to_matrix (quat_slerp q_ref q_target (max_rotation_rad / angle))) else pose_rpy target)
      in (mk_pose xyz rpy, axes @ (if turned then (if axes \<noteq> [] then ''|'' else []) @ ''rpy'' else [])))"

definition angle_diff :: "real \<Rightarrow> real \<Rightarrow> real" where
  "angle_diff v previous = wrap_pi (v - previous)"

text \<open>A bound is a number or infinite; \<^verbatim>\<open>max(lower, min(upper, v))\<close>.\<close>

definition clamp_bounds :: "pyfloat \<times> pyfloat \<Rightarrow> real \<Rightarrow> real" where
  "clamp_bounds b v =
     (let v1 = (case snd b of Fin q \<Rightarrow> min (of_rat q) v | _ \<Rightarrow> v) in case fst b of Fin q \<Rightarrow> max (of_rat q) v1 | _ \<Rightarrow> v1)"

type_synonym workspace = "(pyfloat \<times> pyfloat) \<times> (pyfloat \<times> pyfloat) \<times> (pyfloat \<times> pyfloat)"

fun clamp_workspace :: "pose6 \<Rightarrow> workspace option \<Rightarrow> pose6" where
  "clamp_workspace pose None = pose"
| "clamp_workspace (x, y, z, rx, ry, rz) (Some (bx, bw, bz)) = (clamp_bounds bx x, clamp_bounds bw y, clamp_bounds bz z, rx, ry, rz)"

section \<open>Transforms form a group\<close>

definition tf_id :: Transform where
  "tf_id = \<lparr>tf_translation = (0, 0, 0), tf_rotation = mat_one\<rparr>"

lemma mat_vec_mul: "mat_vec (mat_mul a b) v = mat_vec a (mat_vec b v)"
  by (cases a; cases b; cases v) (simp add: algebra_simps)

lemma mat_vec_one [simp]: "mat_vec mat_one v = v"
  by (cases v) (simp add: mat_one_def)

lemma mat_vec_add: "mat_vec m (vadd u v) = vadd (mat_vec m u) (mat_vec m v)"
  by (cases m; cases u; cases v) (simp add: algebra_simps)

lemma mat_vec_scale: "mat_vec m (vscale k v) = vscale k (mat_vec m v)"
  by (cases m; cases v) (simp add: algebra_simps)

lemma vadd_opposite [simp]: "vadd v (vscale (-1) v) = (0, 0, 0)" "vadd (vscale (-1) v) v = (0, 0, 0)"
  by (cases v; simp)+

lemma vadd_origin [simp]: "vadd v (0, 0, 0) = v" "vadd (0, 0, 0) v = v"
  by (cases v; simp)+

lemma vadd_assoc: "vadd (vadd u v) w = vadd u (vadd v w)"
  by (cases u; cases v; cases w) simp

lemma mat_vec_zero [simp]: "mat_vec m (0, 0, 0) = (0, 0, 0)"
  by (cases m) simp

lemma compose_id [simp]: "tf_compose a tf_id = a" "tf_compose tf_id a = a"
  by (simp_all add: tf_compose_def tf_id_def)

lemma inverse_compose: "is_rotation (tf_rotation a) \<Longrightarrow> tf_compose (tf_inverse a) a = tf_id"
  by (simp add: tf_compose_def tf_inverse_def tf_id_def is_rotation_def mat_vec_scale Let_def flip: mat_vec_mul)

lemma compose_assoc: "tf_compose (tf_compose a b) c = tf_compose a (tf_compose b c)"
  by (simp add: tf_compose_def mat_mul_assoc mat_vec_mul mat_vec_add vadd_assoc)

lemma inverse_rotation [intro]: "is_rotation (tf_rotation a) \<Longrightarrow> is_rotation (tf_rotation (tf_inverse a))"
  by (auto simp: tf_inverse_def Let_def)

lemma compose_rotation [intro]:
  "is_rotation (tf_rotation a) \<Longrightarrow> is_rotation (tf_rotation b) \<Longrightarrow> is_rotation (tf_rotation (tf_compose a b))"
  by (auto simp: tf_compose_def)

section \<open>Matrices and quaternions\<close>

text \<open>The products of the entries of a quaternion that a rotation matrix determines.\<close>

definition quat_products :: "mat3 \<Rightarrow> quat \<Rightarrow> bool" where
  "quat_products m q = (case (m, q) of (Mat m0 m1 m2 m3 m4 m5 m6 m7 m8, (x, y, z, w)) \<Rightarrow>
     4 * (w * w) = 1 + m0 + m4 + m8 \<and> 4 * (x * x) = 1 + m0 - m4 - m8 \<and> 4 * (y * y) = 1 - m0 + m4 - m8 \<and> 4 * (z * z) = 1 - m0 - m4 + m8
     \<and> 4 * (x * w) = m7 - m5 \<and> 4 * (y * w) = m2 - m6 \<and> 4 * (z * w) = m3 - m1
     \<and> 4 * (x * y) = m1 + m3 \<and> 4 * (x * z) = m2 + m6 \<and> 4 * (y * z) = m5 + m7)"

lemma unit_quat_to_matrix:
  assumes "unit_quat (x, y, z, w)"
  shows "quat_to_matrix (x, y, z, w) =
     Mat (1 - 2 * (y * y + z * z)) (2 * (x * y - z * w)) (2 * (x * z + y * w))
         (2 * (x * y + z * w)) (1 - 2 * (x * x + z * z)) (2 * (y * z - x * w))
         (2 * (x * z - y * w)) (2 * (y * z + x * w)) (1 - 2 * (x * x + y * y))"
  using assms by (simp add: unit_quat_def)

lemma products_iff: "quat_products m q \<longleftrightarrow> unit_quat q \<and> quat_to_matrix q = m"
proof (cases m; cases q)
  fix m0 m1 m2 m3 m4 m5 m6 m7 m8 x y z w
  assume m: "m = Mat m0 m1 m2 m3 m4 m5 m6 m7 m8" and q: "q = (x, y, z, w)"
  show ?thesis
  proof
    assume p: "quat_products m q"
    then have "unit_quat q" by (simp add: quat_products_def m q unit_quat_def)
    moreover have "quat_to_matrix q = m"
      using p unit_quat_to_matrix [OF calculation [unfolded q]] by (simp add: quat_products_def m q)
    ultimately show "unit_quat q \<and> quat_to_matrix q = m" by simp
  next
    assume a: "unit_quat q \<and> quat_to_matrix q = m"
    then have "x * x + y * y + z * z + w * w = 1" by (simp add: q unit_quat_def)
    then show "quat_products m q" using a unit_quat_to_matrix [of x y z w] by (auto simp: quat_products_def m q algebra_simps)
  qed
qed

lemma rotation_products:
  assumes "is_rotation (Mat m0 m1 m2 m3 m4 m5 m6 m7 m8)"
  defines "a \<equiv> 1 + m0 + m4 + m8" and "b \<equiv> 1 + m0 - m4 - m8" and "c \<equiv> 1 - m0 + m4 - m8" and "d \<equiv> 1 - m0 - m4 + m8"
    and "p \<equiv> m7 - m5" and "q \<equiv> m2 - m6" and "r \<equiv> m3 - m1" and "u \<equiv> m1 + m3" and "v \<equiv> m2 + m6" and "t \<equiv> m5 + m7"
  shows "p * p = a * b" "q * q = a * c" "r * r = a * d" "p * q = a * u" "p * r = a * v" "q * r = a * t"
    and "u * u = b * c" "v * v = b * d" "p * u = b * q" "p * v = b * r" "u * v = b * t"
    and "t * t = c * d" "u * q = c * p" "t * q = c * r" "u * t = c * v"
    and "v * r = d * p" "t * r = d * q" "v * t = d * u"
  using assms(1) unfolding is_rotation_def mat_mul.simps mat_transpose.simps cofactor.simps mat_one_def mat3.inject
    a_def b_def c_def d_def p_def q_def r_def u_def v_def t_def
  by algebra+

text \<open>Shepperd's method divides by the largest of the four squares, so it is never near zero.\<close>

lemma shepperd:
  assumes "0 < k" and s: "s = sqrt k * 2"
  shows "4 * (s / 4 * (s / 4)) = k" and "4 * (x / s * (s / 4)) = x" and "4 * (s / 4 * (x / s)) = x"
    and "x * y = k * z \<Longrightarrow> 4 * (x / s * (y / s)) = z"
proof -
  have r: "s * s = 4 * k" "s \<noteq> 0" using assms by simp_all
  then show "4 * (s / 4 * (s / 4)) = k" by simp
  show "4 * (x / s * (s / 4)) = x" "4 * (s / 4 * (x / s)) = x" using r(2) by simp_all
  show "4 * (x / s * (y / s)) = z" if "x * y = k * z"
  proof -
    have "4 * (x / s * (y / s)) = 4 * (x * y) / (s * s)" by simp
    also have "\<dots> = z" unfolding that r(1) using assms(1) by simp
    finally show ?thesis .
  qed
qed

lemma matrix_to_quat_products:
  assumes "is_rotation m"
  shows "quat_products m (matrix_to_quat m)"
proof (cases m)
  case (Mat m0 m1 m2 m3 m4 m5 m6 m7 m8)
  note R = rotation_products [OF assms [unfolded Mat]]
  consider (w) "0 < m0 + m4 + m8" | (x) "\<not> 0 < m0 + m4 + m8" "m4 < m0 \<and> m8 < m0"
    | (y) "\<not> 0 < m0 + m4 + m8" "\<not> (m4 < m0 \<and> m8 < m0)" "m8 < m4"
    | (z) "\<not> 0 < m0 + m4 + m8" "\<not> (m4 < m0 \<and> m8 < m0)" "\<not> m8 < m4" by blast
  then show ?thesis
  proof cases
    case w
    define s where "s = sqrt (1 + m0 + m4 + m8) * 2"
    have q: "matrix_to_quat m = ((m7 - m5) / s, (m2 - m6) / s, (m3 - m1) / s, s / 4)" using w by (simp add: Mat s_def Let_def ac_simps)
    have "0 < 1 + m0 + m4 + m8" using w by linarith
    note S = shepperd [OF this s_def]
    show ?thesis unfolding quat_products_def Mat q [unfolded Mat] prod.case mat3.case
      by (intro conjI S(1,2) S(4) R)
  next
    case x
    define s where "s = sqrt (1 + m0 - m4 - m8) * 2"
    have q: "matrix_to_quat m = (s / 4, (m1 + m3) / s, (m2 + m6) / s, (m7 - m5) / s)" using x by (simp add: Mat s_def Let_def)
    have "0 < 1 + m0 - m4 - m8" using x by linarith
    note S = shepperd [OF this s_def]
    show ?thesis unfolding quat_products_def Mat q [unfolded Mat] prod.case mat3.case
      by (intro conjI S(1,3) S(4) R(7) R(8) R(1) [unfolded mult.commute [of "1 + m0 + m4 + m8"]] R(9) [unfolded mult.commute [of "m7 - m5"]] R(10) [unfolded mult.commute [of "m7 - m5"]] R(11))
  next
    case y
    define s where "s = sqrt (1 - m0 + m4 - m8) * 2"
    have q: "matrix_to_quat m = ((m1 + m3) / s, s / 4, (m5 + m7) / s, (m2 - m6) / s)"
    proof -
      have "1 + m4 - m0 - m8 = 1 - m0 + m4 - m8" by simp
      with y show ?thesis by (simp only: Mat matrix_to_quat.simps s_def Let_def if_False if_True)
    qed
    have "0 < 1 - m0 + m4 - m8" using y by linarith
    note S = shepperd [OF this s_def]
    show ?thesis unfolding quat_products_def Mat q [unfolded Mat] prod.case mat3.case
      by (intro conjI S(1,2,3) S(4) R(7) [unfolded mult.commute [of "1 + m0 - m4 - m8"]] R(12) R(2) [unfolded mult.commute [of "1 + m0 + m4 + m8"]] R(13) R(14) R(15))
  next
    case z
    define s where "s = sqrt (1 - m0 - m4 + m8) * 2"
    have q: "matrix_to_quat m = ((m2 + m6) / s, (m5 + m7) / s, s / 4, (m3 - m1) / s)"
    proof -
      have "1 + m8 - m0 - m4 = 1 - m0 - m4 + m8" by simp
      with z show ?thesis by (simp only: Mat matrix_to_quat.simps s_def Let_def if_False)
    qed
    have "0 < 1 - m0 - m4 + m8" using z by linarith
    note S = shepperd [OF this s_def]
    show ?thesis unfolding quat_products_def Mat q [unfolded Mat] prod.case mat3.case
      by (intro conjI S(1,2,3) S(4) R(8) [unfolded mult.commute [of "1 + m0 - m4 - m8"]] R(12) [unfolded mult.commute [of "1 - m0 + m4 - m8"]] R(3) [unfolded mult.commute [of "1 + m0 + m4 + m8"]] R(16) R(17) R(18))
  qed
qed

lemmas matrix_to_quat_unit = matrix_to_quat_products [unfolded products_iff, THEN conjunct1]
  and quat_of_matrix_matrix = matrix_to_quat_products [unfolded products_iff, THEN conjunct2]

text \<open>A unit quaternion comes back from its matrix up to sign, which no angle sees.\<close>

lemma products_determined:
  assumes "quat_products m (x, y, z, w)" and "quat_products m (x', y', z', w')"
  shows "w * w = w' * w'" "x * x = x' * x'" "y * y = y' * y'" "z * z = z' * z'" "x * w = x' * w'" "y * w = y' * w'" "z * w = z' * w'"
    "x * y = x' * y'" "x * z = x' * z'" "y * z = y' * z'"
  using assms by (cases m; simp add: quat_products_def)+

lemma matrix_sees_no_sign:
  assumes "unit_quat q" and "unit_quat q'" and "quat_to_matrix q = quat_to_matrix q'"
  shows "\<bar>qdot p q\<bar> = \<bar>qdot p q'\<bar>"
proof -
  obtain x y z w where q: "q = (x, y, z, w)" by (cases q)
  obtain x' y' z' w' where q': "q' = (x', y', z', w')" by (cases q')
  obtain a b c d where p: "p = (a, b, c, d)" by (cases p)
  have Q: "quat_products (quat_to_matrix q') q" "quat_products (quat_to_matrix q') q'" using assms by (simp_all add: products_iff)
  note E = products_determined [OF Q [unfolded q q']]
  have "(qdot p q)\<^sup>2 = (qdot p q')\<^sup>2"
  proof -
    have "qdot p q * qdot p q = a * a * (x * x) + b * b * (y * y) + c * c * (z * z) + d * d * (w * w) + 2 * a * b * (x * y) + 2 * a * c * (x * z)
        + 2 * a * d * (x * w) + 2 * b * c * (y * z) + 2 * b * d * (y * w) + 2 * c * d * (z * w)" by (simp add: q p algebra_simps)
    also have "\<dots> = qdot p q' * qdot p q'" unfolding E by (simp add: q' p algebra_simps)
    finally show ?thesis by (simp add: power2_eq_square)
  qed
  then show ?thesis by (simp add: power2_eq_iff abs_eq_iff)
qed

lemma unit_quat_rotation:
  assumes "unit_quat q"
  shows "is_rotation (quat_to_matrix q)"
proof -
  obtain x y z w where q: "q = (x, y, z, w)" by (cases q)
  have u: "x * x + y * y + z * z + w * w = 1" using assms by (simp add: q unit_quat_def)
  show ?thesis unfolding q unit_quat_to_matrix [OF assms [unfolded q]]
    using u unfolding is_rotation_def mat_mul.simps mat_transpose.simps cofactor.simps mat_one_def mat3.inject
    by (intro conjI; algebra)
qed

section \<open>Angles and spherical interpolation\<close>

lemma unit_quat_normalize [simp]: "unit_quat (quat_normalize q)"
  using unit_scale_inverse_norm [of q] by (simp add: quat_normalize_def Let_def unit_quat_def)

lemma quat_normalize_unit [simp]: "unit_quat q \<Longrightarrow> quat_normalize q = q"
  by (simp add: quat_normalize_def unit_qnorm)

lemma unit_dot_le: "unit_quat a \<Longrightarrow> unit_quat b \<Longrightarrow> \<bar>qdot a b\<bar> \<le> 1"
proof -
  assume u: "unit_quat a" "unit_quat b"
  obtain x y z w where a: "a = (x, y, z, w)" by (cases a)
  obtain x' y' z' w' where b: "b = (x', y', z', w')" by (cases b)
  have "0 \<le> (x - x')\<^sup>2 + (y - y')\<^sup>2 + (z - z')\<^sup>2 + (w - w')\<^sup>2" "0 \<le> (x + x')\<^sup>2 + (y + y')\<^sup>2 + (z + z')\<^sup>2 + (w + w')\<^sup>2" by simp_all
  then show ?thesis using u by (simp add: a b unit_quat_def power2_eq_square algebra_simps)
qed

lemma quat_angle_unit: "unit_quat a \<Longrightarrow> unit_quat b \<Longrightarrow> quat_angle a b = 2 * arccos \<bar>qdot a b\<bar>"
  using unit_dot_le [of a b] by (simp add: quat_angle_def)

lemma qdot_linear: "qdot a (qadd (qscale s p) (qscale t q)) = s * qdot a p + t * qdot a q"
  by (cases a; cases p; cases q) (simp add: algebra_simps)

lemma qdot_commute: "qdot a b = qdot b a"
  by (cases a; cases b) simp

lemma qdot_sum:
  "qdot (qadd (qscale s p) (qscale t q)) (qadd (qscale s p) (qscale t q)) = s * s * qdot p p + 2 * s * t * qdot p q + t * t * qdot q q"
  by (cases p; cases q) (simp add: algebra_simps)

text \<open>What the interpolation interpolates towards: the nearer of the two representatives.\<close>

definition nearer :: "quat \<Rightarrow> quat \<Rightarrow> quat" where
  "nearer a b = (if qdot a b < 0 then qscale (-1) b else b)"

lemma nearer_facts:
  assumes "unit_quat a" and "unit_quat b"
  shows "unit_quat (nearer a b)" and "qdot a (nearer a b) = \<bar>qdot a b\<bar>"
proof -
  show "unit_quat (nearer a b)" using assms by (simp add: nearer_def)
  have "qdot a (qscale (-1) b) = - qdot a b" by (cases a; cases b) simp
  then show "qdot a (nearer a b) = \<bar>qdot a b\<bar>" by (simp add: nearer_def)
qed

lemma slerp_unit:
  assumes "unit_quat a" and "unit_quat b" and "0 \<le> t" and "t \<le> 1"
  shows "quat_slerp a b t =
    (let d = \<bar>qdot a b\<bar>; n = nearer a b in
     if d > 0.9995 then quat_normalize (qadd (qscale (1 - t) a) (qscale t n))
     else quat_normalize (qadd (qscale (cos (arccos d * t) - d * sin (arccos d * t) / sin (arccos d)) a) (qscale (sin (arccos d * t) / sin (arccos d)) n)))"
  using assms unit_dot_le [OF assms(1,2)] by (auto simp: quat_slerp_def nearer_def Let_def abs_if min_def max_def)

lemma slerp_is_unit: "unit_quat (quat_slerp a b t)"
  by (simp add: quat_slerp_def Let_def)

lemma slerp_weights:
  fixes c s sh dd k :: real
  assumes "s * s + c * c = 1" and "sh * sh = 1 - dd * dd" and "k * sh = s"
  shows "(c - dd * k) * (c - dd * k) + 2 * (c - dd * k) * k * dd + k * k = 1"
  using assms by algebra

lemma slerp_angle:
  assumes u: "unit_quat a" "unit_quat b" and t: "0 \<le> t" "t \<le> 1" and d: "\<bar>qdot a b\<bar> \<le> 0.9995"
  shows "quat_angle a (quat_slerp a b t) = t * quat_angle a b"
proof -
  define dd where "dd = \<bar>qdot a b\<bar>"
  define h where "h = arccos dd"
  define g where "g = h * t"
  let ?n = "nearer a b" and ?s0 = "cos g - dd * sin g / sin h" and ?s1 = "sin g / sin h"
  have dd: "0 \<le> dd" "dd \<le> 0.9995" using d by (simp_all add: dd_def)
  have h: "cos h = dd" "0 < h" using dd by (simp_all add: h_def arccos_lt_bounded)
  have h2: "h \<le> pi / 2" using dd arccos_le_pi2 [of dd] by (simp add: h_def)
  have sh: "0 < sin h" using h(2) h2 pi_gt_zero by (intro sin_gt_zero) linarith+
  have g: "0 \<le> g" "g \<le> pi / 2"
  proof -
    show "0 \<le> g" using h(2) t by (simp add: g_def)
    have "h * t \<le> h * 1" using h(2) t by (intro mult_left_mono) simp_all
    then show "g \<le> pi / 2" using h2 by (simp add: g_def)
  qed
  have n: "qdot a ?n = dd" "qdot ?n ?n = 1" "qdot a a = 1" using nearer_facts [OF u] u(1) by (simp_all add: unit_quat_def dd_def)
  have hh: "sin h * sin h = 1 - dd * dd" using sin_cos_squared_add [of h] h(1) by (simp add: power2_eq_square)
  have gg: "sin g * sin g + cos g * cos g = 1" using sin_cos_squared_add [of g] by (simp add: power2_eq_square)
  let ?r = "qadd (qscale ?s0 a) (qscale ?s1 ?n)"
  have "qdot ?r ?r = ?s0 * ?s0 + 2 * ?s0 * ?s1 * dd + ?s1 * ?s1" unfolding qdot_sum n by simp
  also have "\<dots> = 1" using slerp_weights [OF gg hh, of ?s1] sh unfolding times_divide_eq_right by simp
  finally have unit: "unit_quat ?r" by (simp add: unit_quat_def)
  have "quat_slerp a b t = ?r"
    using unit d by (simp add: slerp_unit [OF u t] Let_def dd_def [symmetric] h_def [symmetric] g_def [symmetric])
  moreover have "qdot a ?r = cos g" unfolding qdot_linear n by simp
  moreover have "0 \<le> cos g" using g cos_ge_zero [of g] by simp
  moreover have "arccos (cos g) = g" using g by (intro arccos_cos) simp_all
  ultimately have "quat_angle a (quat_slerp a b t) = 2 * g" using unit u(1) by (simp add: quat_angle_unit)
  moreover have "quat_angle a b = 2 * h" using u by (simp add: quat_angle_unit h_def dd_def)
  ultimately show ?thesis by (simp add: g_def)
qed

text \<open>The linear interpolation the code uses for near quaternions never leads away.\<close>

lemma scaled_le_of_squares:
  fixes d n c s :: real
  assumes "d * d * s \<le> c * c" and "s = n\<^sup>2" and "0 < c"
  shows "d * n \<le> c"
proof -
  have "(d * n)\<^sup>2 \<le> c\<^sup>2" unfolding power_mult_distrib using assms(1,2) by (simp add: power2_eq_square)
  then show ?thesis by (rule power2_le_imp_le) (use assms(3) in simp)
qed

lemma nlerp_angle:
  assumes u: "unit_quat a" "unit_quat b" and t: "0 \<le> t" "t \<le> 1" and d: "0.9995 < \<bar>qdot a b\<bar>"
  shows "quat_angle a (quat_slerp a b t) \<le> quat_angle a b"
proof -
  define dd where "dd = \<bar>qdot a b\<bar>"
  let ?n = "nearer a b"
  let ?r = "qadd (qscale (1 - t) a) (qscale t ?n)"
  have dd: "0.9995 < dd" "dd \<le> 1" using d unit_dot_le [OF u] by (simp_all add: dd_def)
  have n: "qdot a ?n = dd" "qdot ?n ?n = 1" "qdot a a = 1" using nearer_facts [OF u] u(1) by (simp_all add: unit_quat_def dd_def)
  define c where "c = 1 - t + t * dd"
  have c: "qdot a ?r = c" unfolding qdot_linear n by (simp add: c_def)
  have sq: "qdot ?r ?r = (1 - t) * (1 - t) + 2 * (1 - t) * t * dd + t * t" unfolding qdot_sum n by simp
  have "0 < c"
  proof -
    have "t * (1 - dd) \<le> 1 * (1 - dd)" using t dd by (intro mult_right_mono) simp_all
    then show ?thesis using dd by (simp add: c_def algebra_simps)
  qed
  have "0 < qnorm ?r"
  proof -
    have "0 \<le> 2 * (1 - t) * t * dd" using t dd by simp
    moreover have "0 < (1 - t) * (1 - t) + t * t" by (simp add: sum_squares_gt_zero_iff)
    ultimately have "0 < qdot ?r ?r" unfolding sq by linarith
    then show ?thesis by (simp add: qnorm_def)
  qed
  have "dd * dd * qdot ?r ?r \<le> c * c"
  proof -
    have "c * c - dd * dd * qdot ?r ?r = ((1 - t) * (1 - t) + 2 * t * (1 - t) * dd) * (1 - dd * dd)"
      unfolding sq c_def by (simp add: algebra_simps)
    moreover have "0 \<le> 1 - dd * dd" using dd mult_le_one [of dd dd] by simp
    moreover have "0 \<le> (1 - t) * (1 - t) + 2 * t * (1 - t) * dd" using t dd by simp
    ultimately have "0 \<le> c * c - dd * dd * qdot ?r ?r" by (simp only: mult_nonneg_nonneg)
    then show ?thesis by simp
  qed
  moreover have "qdot ?r ?r = (qnorm ?r)\<^sup>2" using qdot_self_ge [of ?r] by (simp add: qnorm_def)
  ultimately have "dd * qnorm ?r \<le> c" using \<open>0 < c\<close> by (rule scaled_le_of_squares)
  then have le: "dd \<le> c / qnorm ?r" using \<open>0 < qnorm ?r\<close> by (simp add: pos_le_divide_eq)
  have r: "quat_normalize ?r = qscale (1 / qnorm ?r) ?r" using \<open>0 < qnorm ?r\<close> by (simp add: quat_normalize_def)
  have "qdot a (quat_normalize ?r) = c / qnorm ?r"
  proof -
    have "qdot a (qscale k q) = k * qdot a q" for k q by (cases a; cases q) (simp add: algebra_simps)
    then show ?thesis by (simp add: r c)
  qed
  moreover have "quat_slerp a b t = quat_normalize ?r" using d by (simp add: slerp_unit [OF u t])
  moreover have "\<bar>c / qnorm ?r\<bar> = c / qnorm ?r" using \<open>0 < c\<close> \<open>0 < qnorm ?r\<close> by simp
  ultimately have angle: "quat_angle a (quat_slerp a b t) = 2 * arccos (c / qnorm ?r)" and "c / qnorm ?r \<le> 1"
    using u(1) unit_dot_le [OF u(1) unit_quat_normalize [of ?r]] by (simp_all only: quat_angle_unit [OF u(1) unit_quat_normalize])
  then have "arccos (c / qnorm ?r) \<le> arccos dd" using le dd by (intro arccos_le_arccos) simp_all
  then show ?thesis unfolding angle using u by (simp add: quat_angle_unit dd_def)
qed


section \<open>The lead clamp\<close>

lemma pose6_to_quat_facts [simp]: "unit_quat (pose6_to_quat p)" "quat_to_matrix (pose6_to_quat p) = pose_matrix p"
  by (cases p; simp add: matrix_to_quat_unit quat_of_matrix_matrix)+

lemma quat_angle_ge [simp]: "0 \<le> quat_angle a b"
  unfolding quat_angle_def by (simp add: arccos_lbound)

text \<open>The angle to a pose whose angles were read off a unit quaternion is the angle to that quaternion.\<close>

lemma angle_to_emitted:
  assumes "unit_quat q" and "unit_quat r" and p: "p = mk_pose v (matrix_to_rpy (quat_to_matrix q))"
    and pitch: "cos (pose_pitch p) = 0 \<or> 1 / 10 ^ 9 < cos (pose_pitch p)"
  shows "quat_angle r (pose6_to_quat p) = quat_angle r q"
proof -
  obtain roll pt yaw where m: "matrix_to_rpy (quat_to_matrix q) = (roll, pt, yaw)" by (cases "matrix_to_rpy (quat_to_matrix q)")
  have "pose_matrix p = quat_to_matrix q"
    using rpy_of_matrix [OF unit_quat_rotation [OF assms(1)] m] pitch by (simp add: p m)
  then have "\<bar>qdot r (pose6_to_quat p)\<bar> = \<bar>qdot r q\<bar>" using assms(1) by (intro matrix_sees_no_sign) simp_all
  then show ?thesis using assms(1,2) by (simp add: quat_angle_unit)
qed

lemma slerp_to_limit:
  assumes u: "unit_quat a" "unit_quat b" and lim: "0 < limit" "limit < quat_angle a b"
  shows "quat_angle a (quat_slerp a b (limit / quat_angle a b)) \<le> max limit (2 * arccos 0.9995)"
proof -
  let ?t = "limit / quat_angle a b"
  have t: "0 \<le> ?t" "?t \<le> 1" using lim by simp_all
  show ?thesis
  proof (cases "\<bar>qdot a b\<bar> \<le> 0.9995")
    case True
    then show ?thesis using slerp_angle [OF u t True] lim by simp
  next
    case False
    then have "quat_angle a b \<le> 2 * arccos 0.9995"
      using u unit_dot_le [OF u] by (simp add: quat_angle_unit arccos_le_arccos)
    then show ?thesis using nlerp_angle [OF u t] False by simp
  qed
qed

lemma mk_pose_rpy [simp]: "pose_rpy (mk_pose v w) = w" "mk_pose (pose_position p) (pose_rpy p) = p"
  by (cases v; cases w; cases p; simp)+

lemma same_rpy_quat: "pose_rpy p = pose_rpy q \<Longrightarrow> pose6_to_quat p = pose6_to_quat q"
  by (cases p; cases q) simp

lemma vsub_vadd_scale: "vsub (vadd u (vscale k v)) u = vscale k v"
  by simp

lemma lead_position:
  assumes "0 < max_m" and "clamp_pose6_lead ref target max_m max_rad = (p, axes)"
  shows "vnorm (vsub (pose_position p) (pose_position ref)) \<le> max_m"
  using assms by (auto simp: clamp_pose6_lead_def Let_def vnorm_scale split: if_splits)

lemma lead_rotation:
  assumes "0 < max_rad" and c: "clamp_pose6_lead ref target max_m max_rad = (p, axes)"
    and "cos (pose_pitch p) = 0 \<or> 1 / 10 ^ 9 < cos (pose_pitch p)"
  shows "quat_angle (pose6_to_quat ref) (pose6_to_quat p) \<le> max max_rad (2 * arccos 0.9995)"
proof (cases "max_rad < quat_angle (pose6_to_quat ref) (pose6_to_quat target)")
  case True
  let ?q = "quat_slerp (pose6_to_quat ref) (pose6_to_quat target) (max_rad / quat_angle (pose6_to_quat ref) (pose6_to_quat target))"
  have rpy: "pose_rpy p = matrix_to_rpy (quat_to_matrix ?q)" using c True assms(1) by (auto simp: clamp_pose6_lead_def Let_def)
  have "p = mk_pose (pose_position p) (matrix_to_rpy (quat_to_matrix ?q))" unfolding rpy [symmetric] by simp
  from angle_to_emitted [OF slerp_is_unit _ this assms(3)] slerp_to_limit [OF _ _ assms(1) True] show ?thesis by simp
next
  case False
  then have "pose_rpy p = pose_rpy target" using c by (auto simp: clamp_pose6_lead_def Let_def)
  from same_rpy_quat [OF this] False show ?thesis by simp
qed

section \<open>The workspace\<close>

text \<open>A number lies within a bound that is finite or infinite on its own side.\<close>

definition within_bound :: "pyfloat \<times> pyfloat \<Rightarrow> real \<Rightarrow> bool" where
  "within_bound b v = ((case fst b of Fin q \<Rightarrow> of_rat q \<le> v | _ \<Rightarrow> True) \<and> (case snd b of Fin q \<Rightarrow> v \<le> of_rat q | _ \<Rightarrow> True))"

fun in_workspace :: "workspace option \<Rightarrow> vec3 \<Rightarrow> bool" where
  "in_workspace None v = True"
| "in_workspace (Some (bx, bw, bz)) (x, y, z) = (within_bound bx x \<and> within_bound bw y \<and> within_bound bz z)"

fun ordered_workspace :: "workspace option \<Rightarrow> bool" where
  "ordered_workspace None = True"
| "ordered_workspace (Some (bx, bw, bz)) = list_all (\<lambda>b. fst b \<noteq> PInf \<and> snd b \<noteq> NInf \<and> fst b \<le> snd b) [bx, bw, bz]"

lemma clamp_bounds_within: "fst b \<le> snd b \<Longrightarrow> within_bound b (clamp_bounds b v)"
  by (cases b; cases "fst b"; cases "snd b") (simp_all add: within_bound_def clamp_bounds_def of_rat_less_eq Let_def max_def)

lemma clamp_workspace_in: "ordered_workspace w \<Longrightarrow> in_workspace w (pose_position (clamp_workspace pose w))"
  by (cases "(pose, w)" rule: clamp_workspace.cases) (simp_all add: clamp_bounds_within)

text \<open>A workspace is convex, and so is each of its axes.\<close>

lemma within_between:
  assumes "within_bound b u" and "within_bound b v" and "min u v \<le> t" and "t \<le> max u v"
  shows "within_bound b t"
  using assms by (cases "fst b"; cases "snd b") (auto simp: within_bound_def)

fun between :: "vec3 \<Rightarrow> vec3 \<Rightarrow> vec3 \<Rightarrow> bool" where
  "between (x, y, z) (x', y', z') (a, b, c) =
     (min x x' \<le> a \<and> a \<le> max x x' \<and> min y y' \<le> b \<and> b \<le> max y y' \<and> min z z' \<le> c \<and> c \<le> max z z')"

lemma workspace_between: "in_workspace w u \<Longrightarrow> in_workspace w v \<Longrightarrow> between u v t \<Longrightarrow> in_workspace w t"
  by (cases "(w, u)" rule: in_workspace.cases; cases v; cases t) (auto intro: within_between)

lemma blend_between:
  fixes u v k :: real
  assumes "0 \<le> k" and "k \<le> 1"
  shows "min u v \<le> u + k * (v - u) \<and> u + k * (v - u) \<le> max u v"
proof (cases "u \<le> v")
  case True
  then have "0 \<le> k * (v - u)" "k * (v - u) \<le> 1 * (v - u)" using assms by (simp, intro mult_right_mono) simp_all
  then show ?thesis using True by simp
next
  case False
  then have "0 \<le> k * (u - v)" "k * (u - v) \<le> 1 * (u - v)" using assms by (simp, intro mult_right_mono) simp_all
  then show ?thesis using False by (simp add: algebra_simps)
qed

lemma between_end [simp]: "between u v v" "between u v u"
  by (cases u; cases v; simp)+

lemma between_blend: "0 \<le> k \<Longrightarrow> k \<le> 1 \<Longrightarrow> between u v (vadd u (vscale k (vsub v u)))"
  by (cases u; cases v) (use blend_between in \<open>auto simp: vsub_def\<close>)

lemma lead_between:
  assumes "0 \<le> max_m" and "clamp_pose6_lead ref target max_m max_rad = (p, axes)"
  shows "between (pose_position ref) (pose_position target) (pose_position p)"
  using assms by (auto simp: clamp_pose6_lead_def Let_def intro!: between_blend split: if_splits)

lemma interpolate_between: "between (pose_position a) (pose_position b) (pose_position (interpolate_pose6_se3 a b k))"
  by (auto simp: interpolate_pose6_se3_def Let_def intro!: between_blend)

section \<open>Quaternions of rotations\<close>

text \<open>(C39) Rotation matrices and quaternions correspond. The quaternion that the code reads off a rotation matrix has unit
  length and gives back exactly that matrix, in each of the four branches of Shepperd's method; and the one it reads
  off the matrix of a unit quaternion makes the same angle with every quaternion as the one it came from, so the
  sign that a matrix does not determine is never seen.\<close>

theorem quaternion_round_trip:
  assumes "is_rotation m" and "unit_quat q"
  shows "unit_quat (matrix_to_quat m) \<and> quat_to_matrix (matrix_to_quat m) = m
    \<and> (\<forall>p. unit_quat p \<longrightarrow> quat_angle p (matrix_to_quat (quat_to_matrix q)) = quat_angle p q)"
proof -
  have r: "is_rotation (quat_to_matrix q)" by (rule unit_quat_rotation [OF assms(2)])
  have "quat_angle p (matrix_to_quat (quat_to_matrix q)) = quat_angle p q" if "unit_quat p" for p
    using matrix_sees_no_sign [OF matrix_to_quat_unit [OF r] assms(2) quat_of_matrix_matrix [OF r], of p] that assms(2) matrix_to_quat_unit [OF r]
    by (simp add: quat_angle_unit)
  then show ?thesis using assms(1) by (simp add: matrix_to_quat_unit quat_of_matrix_matrix)
qed

theorem quaternion_round_trip_witness:
  "quat_to_matrix (matrix_to_quat (Mat (-1) 0 0 0 1 0 0 0 (-1))) = Mat (-1) 0 0 0 1 0 0 0 (-1)"
proof -
  have "is_rotation (Mat (-1) 0 0 0 1 0 0 0 (-1))" "unit_quat (0, 0, 0, 1)" by (simp_all add: is_rotation_def mat_one_def unit_quat_def)
  from quaternion_round_trip [OF this] show ?thesis by blast
qed

end
