(* ===== verification/UmiReaders.thy ===== *)
theory UmiReaders
  imports Machines StateClient UmiPoseMath
begin

text \<open>
  The input side of \<^verbatim>\<open>policy_runner/action_sources/umi_dual_cartesian.py\<close>: tracker samples, the UDP and
  the scripted reader, and the moving average over samples. A reader keeps its socket's waiting datagrams
  in its state; a datagram is given by its JSON decoding and carries the reading of the clock at the time it
  is parsed. Poses are finite numbers read as reals.
\<close>

section \<open>Samples\<close>

record UmiSample =
  us_position :: vec3
  us_quat :: quat
  us_gripper :: pyfloat
  us_deadman :: bool
  us_monotonic :: pyfloat
  us_seq :: int

definition sample_from_mapping :: "pydict \<Rightarrow> nat \<Rightarrow> UmiSample res" where
  "sample_from_mapping entry index =
     (case dget_or entry ''pose'' (dget entry ''pose_xyzw'') of
        PList pose \<Rightarrow>
          if length pose \<noteq> 7 then Inl (ValueError ''UMI sample pose must be [x,y,z,qx,qy,qz,qw]'')
          else res_bind (res_map float_checked pose) (\<lambda>values.
               res_bind (float_checked (dget_or entry ''gripper'' (PFloat (Fin 0)))) (\<lambda>gripper.
               res_bind (float_checked (dget_or entry ''monotonic''
                           (dget_or entry ''timestamp_monotonic'' (PFloat (Fin (of_nat index / 100)))))) (\<lambda>monotonic.
               let v = map real_of values in
               Inr \<lparr>us_position = (v ! 0, v ! 1, v ! 2), us_quat = (v ! 3, v ! 4, v ! 5, v ! 6), us_gripper = gripper,
                    us_deadman = truthy (dget_or entry ''deadman'' (PBool False)), us_monotonic = monotonic, us_seq = 0\<rparr>)))
      | _ \<Rightarrow> Inl (ValueError ''UMI sample pose must be [x,y,z,qx,qy,qz,qw]''))"

text \<open>A datagram is None when it is not UTF-8 JSON.\<close>

definition sample_from_udp_packet :: "pyval option \<Rightarrow> string \<Rightarrow> pyfloat \<Rightarrow> UmiSample option res" where
  "sample_from_udp_packet data side now =
     (case data of
        None \<Rightarrow> Inl (ValueError ''Expecting value'')
      | Some (PDict raw) \<Rightarrow>
          (case dget raw side of
             PNone \<Rightarrow> Inr None
           | PDict side_raw \<Rightarrow> res_bind (sample_from_mapping (dset side_raw ''monotonic'' (PFloat now)) 0) (\<lambda>s. Inr (Some s))
           | _ \<Rightarrow> Inl (ValueError (''UMI UDP packet '' @ side @ '' field must be an object'')))
      | Some _ \<Rightarrow> Inl (ValueError ''UMI UDP packet must be a JSON object''))"

section \<open>The scripted reader\<close>

datatype ScriptEntry = EntryNone | EntrySample UmiSample | EntryMap pydict

fun script_sample :: "ScriptEntry \<Rightarrow> nat \<Rightarrow> UmiSample option res" where
  "script_sample EntryNone index = Inr None"
| "script_sample (EntrySample s) index = Inr (Some s)"
| "script_sample (EntryMap entry) index = res_bind (sample_from_mapping entry index) (\<lambda>s. Inr (Some s))"

definition smoke_entry :: "rat \<Rightarrow> rat \<Rightarrow> bool \<Rightarrow> rat \<Rightarrow> ScriptEntry" where
  "smoke_entry x gripper deadman monotonic =
     EntryMap [(''pose'', PList (map (\<lambda>v. PFloat (Fin v)) [x, 0, 0, 0, 0, 0, 1])), (''gripper'', PFloat (Fin gripper)),
       (''deadman'', PBool deadman), (''monotonic'', PFloat (Fin monotonic))]"

definition NAMED_SCRIPTS :: "(string \<times> ScriptEntry list) list" where
  "NAMED_SCRIPTS = [(''pgmode_umi_smoke'',
     [smoke_entry 0 0 False 0, smoke_entry 0 (1/4) True (1/100), smoke_entry (1/100) (1/2) True (1/50),
      smoke_entry (1/100) 50 False (3/100), EntryNone])]"

definition script_to_samples :: "string + ScriptEntry list \<Rightarrow> UmiSample option list res" where
  "script_to_samples script =
     (let parse = (\<lambda>entries. res_map (\<lambda>(index, entry). script_sample entry index) (enumerate 0 entries)) in
      case script of
        Inl name \<Rightarrow>
          (case map_of NAMED_SCRIPTS name of
             Some entries \<Rightarrow> parse entries
           | None \<Rightarrow> Inl (ValueError (''unknown UMI mock_script '' @ repr_str name @ ''; known scripts: '' @ join '', '' (map fst NAMED_SCRIPTS))))
      | Inr entries \<Rightarrow> parse entries)"

record MockUmiPoseReader =
  mr_samples :: "UmiSample option list"
  mr_closed :: bool
  mr_seq :: int

definition mock_init :: "string + ScriptEntry list \<Rightarrow> MockUmiPoseReader res" where
  "mock_init script = res_bind (script_to_samples script) (\<lambda>ss. Inr \<lparr>mr_samples = ss, mr_closed = False, mr_seq = 0\<rparr>)"

definition mock_read :: "MockUmiPoseReader \<Rightarrow> MockUmiPoseReader \<times> UmiSample option res" where
  "mock_read r =
     (case mr_samples r of
        [] \<Rightarrow> (r, Inr None)
      | None # rest \<Rightarrow> (r\<lparr>mr_samples := rest\<rparr>, Inr None)
      | Some s # rest \<Rightarrow> (r\<lparr>mr_samples := rest, mr_seq := mr_seq r + 1\<rparr>, Inr (Some (s\<lparr>us_seq := mr_seq r + 1\<rparr>))))"

definition mock_close :: "MockUmiPoseReader \<Rightarrow> MockUmiPoseReader" where
  "mock_close r = r\<lparr>mr_closed := True\<rparr>"

section \<open>The UDP reader\<close>

definition MAX_DRAIN_PACKETS :: nat where
  "MAX_DRAIN_PACKETS = 64"

text \<open>What one \<^verbatim>\<open>recvfrom\<close> does: a datagram and the clock when it is parsed, nothing waiting, another socket
  error.\<close>

datatype UmiRecv = Datagram "pyval option" pyfloat | NothingWaiting | SocketError string

record UdpUmiPoseReader =
  ur_endpoint :: string
  ur_side :: string
  ur_socket :: bool
  ur_latest :: "UmiSample option"
  ur_seq :: int
  ur_waiting :: "UmiRecv list"

definition udp_init :: "string \<Rightarrow> string \<Rightarrow> UdpUmiPoseReader res" where
  "udp_init endpoint side =
     (if side \<notin> {''left'', ''right''} then Inl (ValueError ''side must be left or right'')
      else Inr \<lparr>ur_endpoint = endpoint, ur_side = side, ur_socket = False, ur_latest = None, ur_seq = 0, ur_waiting = []\<rparr>)"

text \<open>\<^verbatim>\<open>bind\<close> may fail; \<open>bind_result\<close> is what it does.\<close>

definition udp_open :: "unit res \<Rightarrow> UdpUmiPoseReader \<Rightarrow> UdpUmiPoseReader res" where
  "udp_open bind_result r =
     (if ur_socket r then Inr r
      else res_bind (parse_udp_endpoint (ur_endpoint r)) (\<lambda>_. res_bind bind_result (\<lambda>_. Inr (r\<lparr>ur_socket := True\<rparr>))))"

fun udp_drain :: "nat \<Rightarrow> UdpUmiPoseReader \<Rightarrow> UmiRecv list \<Rightarrow> UdpUmiPoseReader \<times> UmiRecv list \<times> unit res" where
  "udp_drain 0 r rs = (r, rs, Inr ())"
| "udp_drain (Suc n) r [] = (r, [], Inr ())"
| "udp_drain (Suc n) r (NothingWaiting # rs) = (r, rs, Inr ())"
| "udp_drain (Suc n) r (SocketError m # rs) = (r, rs, Inl (OSError m))"
| "udp_drain (Suc n) r (Datagram data now # rs) =
     (case sample_from_udp_packet data (ur_side r) now of
        Inl e \<Rightarrow> (r, rs, Inl e)
      | Inr None \<Rightarrow> udp_drain n r rs
      | Inr (Some s) \<Rightarrow> udp_drain n (r\<lparr>ur_seq := ur_seq r + 1, ur_latest := Some (s\<lparr>us_seq := ur_seq r + 1\<rparr>)\<rparr>) rs)"

definition udp_read :: "unit res \<Rightarrow> UdpUmiPoseReader \<Rightarrow> UdpUmiPoseReader \<times> UmiSample option res" where
  "udp_read bind_result r =
     (case udp_open bind_result r of
        Inl e \<Rightarrow> (r, Inl e)
      | Inr r1 \<Rightarrow>
          (case udp_drain MAX_DRAIN_PACKETS r1 (ur_waiting r1) of
             (r2, rest, Inl e) \<Rightarrow> (r2\<lparr>ur_waiting := rest\<rparr>, Inl e)
           | (r2, rest, Inr _) \<Rightarrow> (r2\<lparr>ur_waiting := rest\<rparr>, Inr (ur_latest r2))))"

definition udp_close :: "UdpUmiPoseReader \<Rightarrow> UdpUmiPoseReader" where
  "udp_close r = (if ur_socket r then r\<lparr>ur_socket := False, ur_waiting := []\<rparr> else r)"

text \<open>Datagrams arriving at the socket.\<close>

definition udp_arrive :: "UmiRecv list \<Rightarrow> UdpUmiPoseReader \<Rightarrow> UdpUmiPoseReader" where
  "udp_arrive rs r = r\<lparr>ur_waiting := ur_waiting r @ rs\<rparr>"

section \<open>The moving average\<close>

record PoseMovingAverage =
  ma_window :: int
  ma_positions :: "vec3 list"
  ma_quats :: "quat list"
  ma_last_monotonic :: "pyfloat option"

definition ma_init :: "int \<Rightarrow> PoseMovingAverage" where
  "ma_init window = \<lparr>ma_window = window, ma_positions = [], ma_quats = [], ma_last_monotonic = None\<rparr>"

text \<open>\<^verbatim>\<open>deque(maxlen=n).append\<close>.\<close>

definition deque_append :: "nat \<Rightarrow> 'a list \<Rightarrow> 'a \<Rightarrow> 'a list" where
  "deque_append n xs x = (let ys = xs @ [x] in drop (length ys - n) ys)"

definition mean_position :: "vec3 list \<Rightarrow> vec3" where
  "mean_position ps =
     (let n = real (length ps) in
      (sum_list (map fst ps) / n, sum_list (map (\<lambda>p. fst (snd p)) ps) / n, sum_list (map (\<lambda>p. snd (snd p)) ps) / n))"

definition ma_filter :: "PoseMovingAverage \<Rightarrow> UmiSample \<Rightarrow> PoseMovingAverage \<times> UmiSample" where
  "ma_filter m s =
     (if ma_window m \<le> 1 then (m, s)
      else let n = nat (max 1 (ma_window m));
               m1 = (if (case ma_last_monotonic m of None \<Rightarrow> True | Some t \<Rightarrow> \<not> feq (us_monotonic s) t)
                     then m\<lparr>ma_last_monotonic := Some (us_monotonic s), ma_positions := deque_append n (ma_positions m) (us_position s),
                            ma_quats := deque_append n (ma_quats m) (us_quat s)\<rparr>
                     else m)
           in (m1, s\<lparr>us_position := mean_position (ma_positions m1), us_quat := average_quaternions (ma_quats m1)\<rparr>))"

section \<open>What a read returns\<close>

fun is_datagram :: "UmiRecv \<Rightarrow> bool" where
  "is_datagram (Datagram _ _) = True"
| "is_datagram _ = False"

text \<open>The datagrams one read takes from the socket, and the samples among them for a side.\<close>

definition drained :: "nat \<Rightarrow> UmiRecv list \<Rightarrow> UmiRecv list" where
  "drained n rs = takeWhile is_datagram (take n rs)"

fun samples_in :: "string \<Rightarrow> UmiRecv \<Rightarrow> UmiSample list" where
  "samples_in side (Datagram data now) = (case sample_from_udp_packet data side now of Inr (Some s) \<Rightarrow> [s] | _ \<Rightarrow> [])"
| "samples_in side _ = []"

definition samples_for :: "string \<Rightarrow> UmiRecv list \<Rightarrow> UmiSample list" where
  "samples_for side rs = concat (map (samples_in side) rs)"

lemma drained_Cons [simp]:
  "drained 0 rs = []" "drained n [] = []" "drained (Suc n) (Datagram d t # rs) = Datagram d t # drained n rs"
  "drained (Suc n) (NothingWaiting # rs) = []" "drained (Suc n) (SocketError m # rs) = []"
  by (simp_all add: drained_def)

lemma samples_for_Cons [simp]: "samples_for side [] = []" "samples_for side (x # xs) = samples_in side x @ samples_for side xs"
  by (simp_all add: samples_for_def)

lemma udp_drain_spec:
  assumes "udp_drain n r rs = (r', rest, Inr ())"
  shows "let new = samples_for (ur_side r) (drained n rs)
    in ur_seq r' = ur_seq r + int (length new) \<and> ur_side r' = ur_side r
       \<and> ur_latest r' = (if new = [] then ur_latest r else Some ((last new)\<lparr>us_seq := ur_seq r'\<rparr>))"
  using assms
proof (induction n r rs arbitrary: r' rest rule: udp_drain.induct)
  case (5 n r data now rs)
  then obtain o1 where o1: "sample_from_udp_packet data (ur_side r) now = Inr o1"
    by (cases "sample_from_udp_packet data (ur_side r) now") simp_all
  show ?case
  proof (cases o1)
    case None
    then show ?thesis using 5 o1 by (simp add: Let_def)
  next
    case (Some s)
    let ?r = "r\<lparr>ur_seq := ur_seq r + 1, ur_latest := Some (s\<lparr>us_seq := ur_seq r + 1\<rparr>)\<rparr>"
    have d: "udp_drain n ?r rs = (r', rest, Inr ())" using "5.prems" o1 Some by simp
    note IH = "5.IH" (2) [OF o1 Some d, unfolded Let_def]
    show ?thesis using IH by (auto simp: Let_def o1 Some)
  qed
qed simp_all

text \<open>The clock of a sample is the receiver's, whatever the packet says.\<close>

lemma packet_time:
  assumes "sample_from_udp_packet data side now = Inr (Some s)"
  shows "us_monotonic s = now"
proof -
  obtain d where "sample_from_mapping (dset d ''monotonic'' (PFloat now)) 0 = Inr s"
    using assms by (auto simp: sample_from_udp_packet_def res_bind_Inr_iff split: option.splits pyval.splits)
  moreover have "dget_or (dset d ''monotonic'' (PFloat now)) ''monotonic'' x = PFloat now" for x by (simp add: dget_or_def)
  ultimately show ?thesis
    by (auto simp: sample_from_mapping_def res_bind_Inr_iff float_checked_def float_overflows_def Let_def split: pyval.splits if_splits)
qed

lemma sample_clock: "s \<in> set (samples_for side rs) \<Longrightarrow> \<exists>data. Datagram data (us_monotonic s) \<in> set rs"
proof (induction rs)
  case (Cons x rs)
  show ?case
  proof (cases "s \<in> set (samples_in side x)")
    case True
    then obtain data now where x: "x = Datagram data now" by (cases x) simp_all
    then have "sample_from_udp_packet data side now = Inr (Some s)" using True by (auto split: sum.splits option.splits)
    from packet_time [OF this] show ?thesis using x by auto
  next
    case False
    then show ?thesis using Cons by auto
  qed
qed simp

section \<open>The contract of a reader\<close>

text \<open>A reader numbers the samples it returns: the number never goes down, and it is the reader's own count, so that
  the same number twice is the same packet.\<close>

locale sample_reader =
  fixes rd :: "'r \<Rightarrow> 'r \<times> UmiSample option res"
    and count :: "'r \<Rightarrow> int"
    and rinv :: "'r \<Rightarrow> bool"
  assumes rinv_read: "rinv r \<Longrightarrow> rinv (fst (rd r))"
    and seq_is_count: "rinv r \<Longrightarrow> rd r = (r', Inr (Some s)) \<Longrightarrow> us_seq s = count r'"
    and count_grows: "rinv r \<Longrightarrow> count r \<le> count (fst (rd r))"
begin

lemma replay_iff:
  assumes "rinv r" and "rd r = (r1, Inr (Some s1))" and "rd r1 = (r2, Inr (Some s2))"
  shows "us_seq s1 \<le> us_seq s2" and "us_seq s2 = us_seq s1 \<longleftrightarrow> count r2 = count r1"
proof -
  have "rinv r1" using rinv_read [OF assms(1)] assms(2) by simp
  then show "us_seq s1 \<le> us_seq s2" "us_seq s2 = us_seq s1 \<longleftrightarrow> count r2 = count r1"
    using seq_is_count [OF assms(1,2)] seq_is_count [OF _ assms(3)] count_grows [of r1] assms(3) by simp_all
qed

end

definition udp_numbered :: "UdpUmiPoseReader \<Rightarrow> bool" where
  "udp_numbered r = (case ur_latest r of None \<Rightarrow> True | Some s \<Rightarrow> us_seq s = ur_seq r)"

lemma udp_numbered_waiting [simp]: "udp_numbered (r\<lparr>ur_waiting := x\<rparr>) = udp_numbered r"
  by (cases "ur_latest r") (simp_all add: udp_numbered_def)

lemma udp_drain_numbered:
  "udp_drain n r rs = (r', rest, out) \<Longrightarrow> udp_numbered r \<Longrightarrow> udp_numbered r' \<and> ur_seq r \<le> ur_seq r'"
proof (induction n r rs arbitrary: r' rest out rule: udp_drain.induct)
  case (5 n r data now rs)
  show ?case
  proof (cases "sample_from_udp_packet data (ur_side r) now")
    case (Inl e)
    then show ?thesis using 5 by simp
  next
    case (Inr o1)
    then show ?thesis using 5 by (cases o1) (fastforce simp: udp_numbered_def)+
  qed
qed simp_all

lemma udp_open_facts: "udp_open b r = Inr r1 \<Longrightarrow> ur_latest r1 = ur_latest r \<and> ur_seq r1 = ur_seq r \<and> ur_side r1 = ur_side r \<and> ur_waiting r1 = ur_waiting r"
  by (auto simp: udp_open_def res_bind_Inr_iff split: if_splits)

interpretation udp: sample_reader "udp_read b" ur_seq udp_numbered for b
proof
  have both: "udp_numbered (fst (udp_read b r)) \<and> ur_seq r \<le> ur_seq (fst (udp_read b r))" if "udp_numbered r" for r
  proof (cases "udp_open b r")
    case (Inl e)
    then show ?thesis using that by (simp add: udp_read_def)
  next
    case (Inr r1)
    have "udp_numbered r1" "ur_seq r1 = ur_seq r" using udp_open_facts [OF Inr] that by (auto simp: udp_numbered_def split: option.splits)
    moreover obtain r2 rest out where d: "udp_drain MAX_DRAIN_PACKETS r1 (ur_waiting r1) = (r2, rest, out)" by (metis prod_cases3)
    ultimately show ?thesis using Inr udp_drain_numbered [OF d] by (cases out) (simp_all add: udp_read_def)
  qed
  show "udp_numbered (fst (udp_read b r))" if "udp_numbered r" for r using both [OF that] ..
  show "ur_seq r \<le> ur_seq (fst (udp_read b r))" if "udp_numbered r" for r using both [OF that] ..
  show "us_seq s = ur_seq r'" if "udp_numbered r" "udp_read b r = (r', Inr (Some s))" for r r' s
  proof -
    have "ur_latest r' = Some s" using that(2) by (auto simp: udp_read_def split: sum.splits prod.splits)
    then show ?thesis using both [OF that(1)] that(2) by (simp add: udp_numbered_def)
  qed
qed

interpretation mock: sample_reader mock_read mr_seq "\<lambda>_. True"
  by unfold_locales (auto simp: mock_read_def split: list.splits option.splits)

section \<open>The moving average\<close>

definition ma_ok :: "PoseMovingAverage \<Rightarrow> bool" where
  "ma_ok m = (length (ma_positions m) = length (ma_quats m) \<and> length (ma_positions m) \<le> nat (max 1 (ma_window m)))"

lemma deque_append_length: "0 < n \<Longrightarrow> length (deque_append n xs x) = min n (Suc (length xs))"
  by (simp add: deque_append_def Let_def)

lemma ma_filter_ok: "ma_ok m \<Longrightarrow> ma_ok (fst (ma_filter m s))"
  by (auto simp: ma_ok_def ma_filter_def deque_append_length Let_def)

text \<open>A replayed sample leaves the buffer and the average alone.\<close>

lemma ma_filter_replay:
  assumes "us_monotonic s \<noteq> NaN" and "ma_filter m s = (m', s')"
  shows "ma_filter m' s = (m', s')"
  using assms by (auto simp: ma_filter_def feq_def Let_def split: if_splits option.splits)

section \<open>Reading the newest packet\<close>

text \<open>A read of the UDP reader returns the newest packet for its side. When it does not raise, it has taken the
  datagrams up to the first moment nothing was waiting, at most 64 of them; its sample number went up by the
  number of those with a sample for this side; the sample it returns is the last of them, numbered so, or the one
  it had if there was none; and its time stamp is the receiver's clock when that datagram was parsed, also where
  the packet carries a time of its own.\<close>

theorem udp_read_returns_the_newest:
  assumes "udp_read b r = (r', Inr out)" and "new = samples_for (ur_side r) (drained MAX_DRAIN_PACKETS (ur_waiting r))"
  shows "ur_seq r' = ur_seq r + int (length new)
    \<and> out = (if new = [] then ur_latest r else Some ((last new)\<lparr>us_seq := ur_seq r'\<rparr>))
    \<and> (new \<noteq> [] \<longrightarrow> (\<exists>data. Datagram data (us_monotonic (last new)) \<in> set (ur_waiting r)))"
proof -
  obtain r1 where o1: "udp_open b r = Inr r1" using assms(1) by (auto simp: udp_read_def split: sum.splits)
  note F = udp_open_facts [OF o1]
  obtain r2 rest q where d: "udp_drain MAX_DRAIN_PACKETS r1 (ur_waiting r1) = (r2, rest, q)" by (metis prod_cases3)
  then have q: "q = Inr ()" and r': "r' = r2\<lparr>ur_waiting := rest\<rparr>" "out = ur_latest r2"
    using assms(1) o1 by (auto simp: udp_read_def split: sum.splits)
  note S = udp_drain_spec [OF d [unfolded q], unfolded Let_def, simplified F, folded assms(2)]
  have "\<exists>data. Datagram data (us_monotonic (last new)) \<in> set (ur_waiting r)" if "new \<noteq> []"
  proof -
    have "last new \<in> set (samples_for (ur_side r) (drained MAX_DRAIN_PACKETS (ur_waiting r)))" using that assms(2) by simp
    from sample_clock [OF this] show ?thesis unfolding drained_def by (meson in_set_takeD set_takeWhileD)
  qed
  then show ?thesis using S r' by simp
qed

definition demo_packet :: "rat \<Rightarrow> pyval" where
  "demo_packet x = PDict [(''left'', PDict [(''pose'', PList (map (\<lambda>v. PFloat (Fin v)) [x, 0, 0, 0, 0, 0, 1])), (''monotonic'', PFloat (Fin 99)),
     (''deadman'', PBool True)])]"

definition demo_reader :: UdpUmiPoseReader where
  "demo_reader = \<lparr>ur_endpoint = ''udp://h:1'', ur_side = ''left'', ur_socket = True, ur_latest = None, ur_seq = 0,
     ur_waiting = [Datagram (Some (demo_packet 0)) (Fin 1), Datagram (Some (PDict [])) (Fin 2), Datagram (Some (demo_packet 1)) (Fin 3)]\<rparr>"

theorem udp_read_returns_the_newest_witness:
  "\<exists>r' s. udp_read (Inr ()) demo_reader = (r', Inr (Some s)) \<and> us_seq s = 2 \<and> us_monotonic s = Fin 3"
proof -
  let ?new = "samples_for (ur_side demo_reader) (drained MAX_DRAIN_PACKETS (ur_waiting demo_reader))"
  have "udp_read (Inr ()) demo_reader \<noteq> (r', Inl e)" for r' e
    by (simp add: udp_read_def udp_open_def demo_reader_def MAX_DRAIN_PACKETS_def numeral_eq_Suc sample_from_udp_packet_def demo_packet_def
        sample_from_mapping_def dget_or_def float_checked_def float_overflows_def Let_def)
  then obtain r' out where r: "udp_read (Inr ()) demo_reader = (r', Inr out)"
    by (cases "udp_read (Inr ()) demo_reader"; cases "snd (udp_read (Inr ()) demo_reader)") auto
  have "length ?new = 2" "us_monotonic (last ?new) = Fin 3"
    by (simp_all add: demo_reader_def MAX_DRAIN_PACKETS_def numeral_eq_Suc sample_from_udp_packet_def demo_packet_def
        sample_from_mapping_def dget_or_def float_checked_def float_overflows_def Let_def)
  with udp_read_returns_the_newest [OF r refl] r show ?thesis by (auto simp: demo_reader_def)
qed

end
