(* ===== verification/TeleopMux.thy ===== *)
theory TeleopMux
  imports Machines CommandClient SafetyGate
begin

text \<open>
  \<^verbatim>\<open>policy_runner/action_sources/teleop_mux.py\<close> and the requirements of
  \<^verbatim>\<open>action_sources/tcp_pose_target.py\<close>: the multiplexer that runs the SpaceMouse and the UMI teleop
  sources side by side and lets one of them at a time own the robot. The two sources are arguments: a
  record of the operations the multiplexer calls on each, over an arbitrary state. Nothing is assumed
  of them. An operation that raises still returns the state it left behind.
\<close>

section \<open>Requirements\<close>

definition CARTESIAN_ACTION_REQUIREMENTS :: ActionRequirements where
  "CARTESIAN_ACTION_REQUIREMENTS = default_requirements\<lparr>requires_geometry := True, requires_valid_tcp_pose := True,
     simulation_only := True, requires_observed_simulation := True, cartesian_motion := True\<rparr>"

definition RBPODO_CARTESIAN_ACTION_REQUIREMENTS :: ActionRequirements where
  "RBPODO_CARTESIAN_ACTION_REQUIREMENTS = default_requirements\<lparr>requires_geometry := True, requires_valid_tcp_pose := True,
     simulation_only := True, requires_observed_simulation := True,
     ar_allow_rbpodo_controller_simulation_cartesian := True, cartesian_motion := True\<rparr>"

definition cartesian_action_requirements :: "bool \<Rightarrow> ActionRequirements" where
  "cartesian_action_requirements allow_rbpodo_controller_simulation =
     (if allow_rbpodo_controller_simulation then RBPODO_CARTESIAN_ACTION_REQUIREMENTS else CARTESIAN_ACTION_REQUIREMENTS)"

section \<open>The sources\<close>

record 's SpaceMouseOps =
  so_next_intent :: "'s \<Rightarrow> StateSnapshot \<Rightarrow> pyfloat \<Rightarrow> 's \<times> CommandIntent option res"
  so_engaged :: "'s \<Rightarrow> bool"
  so_reset_engagement :: "'s \<Rightarrow> 's"
  so_failed :: "'s \<Rightarrow> bool"
  so_timeout_sec :: "'s \<Rightarrow> pyfloat"
  so_requirements :: "'s \<Rightarrow> ActionRequirements"
  so_handle_control :: "'s \<Rightarrow> pydict \<Rightarrow> bool \<Rightarrow> 's \<times> bool res"
  so_status :: "'s \<Rightarrow> bool \<Rightarrow> string \<Rightarrow> pyval"
  so_close :: "'s \<Rightarrow> 's \<times> unit res"

record 'u UmiOps =
  uo_next_intent :: "'u \<Rightarrow> StateSnapshot \<Rightarrow> pyfloat \<Rightarrow> 'u \<times> CommandIntent option res"
  uo_engaged :: "'u \<Rightarrow> bool"
  uo_reset_engagement :: "'u \<Rightarrow> 'u"
  uo_requirements :: "'u \<Rightarrow> ActionRequirements"
  uo_close :: "'u \<Rightarrow> 'u \<times> unit res"

section \<open>The multiplexer\<close>

definition OWNER_IDLE :: string where "OWNER_IDLE = ''idle''"

definition OWNER_SPACEMOUSE :: string where "OWNER_SPACEMOUSE = ''spacemouse''"

definition OWNER_UMI :: string where "OWNER_UMI = ''umi''"

record ('s, 'u) Mux =
  mx_spacemouse :: 's
  mx_umi :: 'u
  mx_tie_break :: string
  mx_requirements :: ActionRequirements
  mx_owner :: string
  mx_spacemouse_failed :: bool

definition mux_init :: "'s SpaceMouseOps \<Rightarrow> 'u UmiOps \<Rightarrow> 's \<Rightarrow> 'u \<Rightarrow> string \<Rightarrow> ('s, 'u) Mux res" where
  "mux_init so uo spacemouse_source umi_source tie_break =
     (if tie_break \<notin> {OWNER_SPACEMOUSE, OWNER_UMI}
        then Inl (ValueError (''tie_break must be '' @ repr_str ''spacemouse'' @ '' or '' @ repr_str ''umi''))
      else Inr \<lparr>mx_spacemouse = spacemouse_source, mx_umi = umi_source, mx_tie_break = tie_break,
             mx_requirements = cartesian_action_requirements
               (ar_allow_rbpodo_controller_simulation_cartesian (so_requirements so spacemouse_source)
                \<and> ar_allow_rbpodo_controller_simulation_cartesian (uo_requirements uo umi_source)),
             mx_owner = OWNER_IDLE, mx_spacemouse_failed = False\<rparr>)"

definition arm_has_gripper_target :: "pydict option \<Rightarrow> bool" where
  "arm_has_gripper_target v = (case v of None \<Rightarrow> False | Some d \<Rightarrow> dget d ''gripper_target'' \<noteq> PNone)"

definition intent_has_gripper_target :: "CommandIntent option \<Rightarrow> bool" where
  "intent_has_gripper_target i =
     (case i of None \<Rightarrow> False | Some c \<Rightarrow> arm_has_gripper_target (ci_left c) \<or> arm_has_gripper_target (ci_right c))"

text \<open>\<^verbatim>\<open>_spacemouse_intent\<close>: the intent and the safety intent. \<^verbatim>\<open>TimeoutError\<close> is an \<^verbatim>\<open>OSError\<close>.\<close>

definition hid_error :: "pyexc \<Rightarrow> bool" where
  "hid_error e = (case e of RuntimeError _ \<Rightarrow> True | OSError _ \<Rightarrow> True | TimeoutError _ \<Rightarrow> True | _ \<Rightarrow> False)"

definition spacemouse_intent :: "'s SpaceMouseOps \<Rightarrow> ('s, 'u) Mux \<Rightarrow> StateSnapshot \<Rightarrow> pyfloat
    \<Rightarrow> ('s, 'u) Mux \<times> (CommandIntent option \<times> CommandIntent option) res" where
  "spacemouse_intent so m snapshot now =
     (if mx_spacemouse_failed m then (m, Inr (None, None))
      else case so_next_intent so (mx_spacemouse m) snapshot now of
        (s, Inr intent) \<Rightarrow>
          (if so_failed so s then
             (let m1 = m\<lparr>mx_spacemouse := so_reset_engagement so s, mx_spacemouse_failed := True\<rparr> in
              if mx_owner m = OWNER_SPACEMOUSE then
                (m1\<lparr>mx_owner := OWNER_IDLE\<rparr>,
                 Inr (None, Some (case intent of
                                    Some i \<Rightarrow> if ci_mode i = ''Hold'' then i else intent_hold (so_timeout_sec so (mx_spacemouse m1))
                                  | None \<Rightarrow> intent_hold (so_timeout_sec so (mx_spacemouse m1)))))
              else (m1, Inr (None, None)))
           else (m\<lparr>mx_spacemouse := s\<rparr>, Inr (intent, None)))
      | (s, Inl e) \<Rightarrow>
          (if \<not> hid_error e then (m\<lparr>mx_spacemouse := s\<rparr>, Inl e)
           else let m1 = m\<lparr>mx_spacemouse := s, mx_spacemouse_failed := True\<rparr> in
             if mx_owner m = OWNER_SPACEMOUSE
               then (m1\<lparr>mx_owner := OWNER_IDLE\<rparr>, Inr (None, Some (intent_hold (so_timeout_sec so s))))
             else (m1, Inr (None, None))))"

text \<open>The ownership decision of one tick, after both sources were polled.\<close>

definition umi_yields :: "'u UmiOps \<Rightarrow> ('s, 'u) Mux \<Rightarrow> ('s, 'u) Mux" where
  "umi_yields uo m = m\<lparr>mx_umi := uo_reset_engagement uo (mx_umi m)\<rparr>"

definition spacemouse_yields :: "'s SpaceMouseOps \<Rightarrow> ('s, 'u) Mux \<Rightarrow> ('s, 'u) Mux" where
  "spacemouse_yields so m = m\<lparr>mx_spacemouse := so_reset_engagement so (mx_spacemouse m)\<rparr>"

definition arbitrate :: "'s SpaceMouseOps \<Rightarrow> 'u UmiOps \<Rightarrow> ('s, 'u) Mux \<Rightarrow> CommandIntent option \<Rightarrow> CommandIntent option
    \<Rightarrow> ('s, 'u) Mux \<times> CommandIntent option" where
  "arbitrate so uo m sm_intent umi_intent =
     (let sm_engaged = (\<not> mx_spacemouse_failed m \<and> (so_engaged so (mx_spacemouse m) \<or> intent_has_gripper_target sm_intent));
          umi_engaged = uo_engaged uo (mx_umi m)
      in if mx_owner m = OWNER_SPACEMOUSE then
           (let m1 = umi_yields uo m in
            (if \<not> sm_engaged \<and> (case sm_intent of None \<Rightarrow> True | Some i \<Rightarrow> ci_mode i = ''Hold'')
               then m1\<lparr>mx_owner := OWNER_IDLE\<rparr> else m1, sm_intent))
         else if mx_owner m = OWNER_UMI then
           (let m1 = spacemouse_yields so m in
            (if \<not> umi_engaged \<and> umi_intent = None then m1\<lparr>mx_owner := OWNER_IDLE\<rparr> else m1, umi_intent))
         else if \<not> sm_engaged \<and> \<not> umi_engaged then (m, None)
         else (let winner = (if sm_engaged \<and> umi_engaged then mx_tie_break m
                             else if sm_engaged then OWNER_SPACEMOUSE else OWNER_UMI);
                   m1 = m\<lparr>mx_owner := winner\<rparr>
               in if winner = OWNER_SPACEMOUSE then (umi_yields uo m1, sm_intent) else (spacemouse_yields so m1, umi_intent)))"

definition mux_next_intent :: "'s SpaceMouseOps \<Rightarrow> 'u UmiOps \<Rightarrow> ('s, 'u) Mux \<Rightarrow> StateSnapshot \<Rightarrow> pyfloat
    \<Rightarrow> ('s, 'u) Mux \<times> CommandIntent option res" where
  "mux_next_intent so uo m snapshot now =
     (case spacemouse_intent so m snapshot now of
        (m1, Inl e) \<Rightarrow> (m1, Inl e)
      | (m1, Inr (sm_intent, Some safety)) \<Rightarrow> (m1, Inr (Some safety))
      | (m1, Inr (sm_intent, None)) \<Rightarrow>
          (case uo_next_intent uo (mx_umi m1) snapshot now of
             (u, Inl e) \<Rightarrow> (m1\<lparr>mx_umi := u\<rparr>, Inl e)
           | (u, Inr umi_intent) \<Rightarrow> map_prod id Inr (arbitrate so uo (m1\<lparr>mx_umi := u\<rparr>) sm_intent umi_intent)))"

definition mux_close :: "'s SpaceMouseOps \<Rightarrow> 'u UmiOps \<Rightarrow> ('s, 'u) Mux \<Rightarrow> ('s, 'u) Mux \<times> unit res" where
  "mux_close so uo m =
     (let (s, r) = so_close so (mx_spacemouse m); (u, q) = uo_close uo (mx_umi m)
      in (m\<lparr>mx_spacemouse := s, mx_umi := u\<rparr>, case q of Inl e \<Rightarrow> Inl e | Inr _ \<Rightarrow> r))"

definition mux_spacemouse_status :: "'s SpaceMouseOps \<Rightarrow> ('s, 'u) Mux \<Rightarrow> pyval" where
  "mux_spacemouse_status so m =
     (let allowed = (mx_owner m = OWNER_IDLE)
      in so_status so (mx_spacemouse m) allowed (if allowed then [] else ''teleop_owner:'' @ mx_owner m))"

definition mux_handle_spacemouse_control :: "'s SpaceMouseOps \<Rightarrow> ('s, 'u) Mux \<Rightarrow> pydict \<Rightarrow> ('s, 'u) Mux \<times> bool res" where
  "mux_handle_spacemouse_control so m msg =
     (let (s, r) = so_handle_control so (mx_spacemouse m) msg (mx_owner m = OWNER_IDLE)
      in (m\<lparr>mx_spacemouse := s\<rparr>, r))"

section \<open>Runs\<close>

datatype MuxEvent =
    MxTick StateSnapshot pyfloat
  | MxControl pydict

fun mux_step :: "'s SpaceMouseOps \<Rightarrow> 'u UmiOps \<Rightarrow> ('s, 'u) Mux \<Rightarrow> MuxEvent \<Rightarrow> ('s, 'u) Mux \<times> CommandIntent option res" where
  "mux_step so uo m (MxTick snapshot now) = mux_next_intent so uo m snapshot now"
| "mux_step so uo m (MxControl msg) =
     (case mux_handle_spacemouse_control so m msg of (m', Inl e) \<Rightarrow> (m', Inl e) | (m', Inr _) \<Rightarrow> (m', Inr None))"

lemmas owner_defs = OWNER_IDLE_def OWNER_SPACEMOUSE_def OWNER_UMI_def

lemma owners_differ [simp]:
  "OWNER_IDLE \<noteq> OWNER_SPACEMOUSE" "OWNER_SPACEMOUSE \<noteq> OWNER_IDLE" "OWNER_IDLE \<noteq> OWNER_UMI"
  "OWNER_UMI \<noteq> OWNER_IDLE" "OWNER_SPACEMOUSE \<noteq> OWNER_UMI" "OWNER_UMI \<noteq> OWNER_SPACEMOUSE"
  by (simp_all add: owner_defs)

definition mux_ok :: "('s, 'u) Mux \<Rightarrow> bool" where
  "mux_ok m = (mx_owner m \<in> {OWNER_IDLE, OWNER_SPACEMOUSE, OWNER_UMI} \<and> mx_tie_break m \<in> {OWNER_SPACEMOUSE, OWNER_UMI}
     \<and> (mx_spacemouse_failed m \<longrightarrow> mx_owner m \<noteq> OWNER_SPACEMOUSE))"

text \<open>Where the intent of a tick comes from.\<close>

definition from_spacemouse :: "'s SpaceMouseOps \<Rightarrow> 'u UmiOps \<Rightarrow> ('s, 'u) Mux \<Rightarrow> StateSnapshot \<Rightarrow> pyfloat \<Rightarrow> ('s, 'u) Mux \<Rightarrow> CommandIntent option \<Rightarrow> bool" where
  "from_spacemouse so uo m snapshot now m' out =
     (\<not> mx_spacemouse_failed m \<and> snd (so_next_intent so (mx_spacemouse m) snapshot now) = Inr out
      \<and> mx_owner m \<in> {OWNER_IDLE, OWNER_SPACEMOUSE} \<and> (mx_owner m = OWNER_IDLE \<longrightarrow> mx_owner m' = OWNER_SPACEMOUSE)
      \<and> mx_owner m' \<in> {OWNER_IDLE, OWNER_SPACEMOUSE}
      \<and> mx_umi m' = uo_reset_engagement uo (fst (uo_next_intent uo (mx_umi m) snapshot now)))"

definition from_umi :: "'s SpaceMouseOps \<Rightarrow> 'u UmiOps \<Rightarrow> ('s, 'u) Mux \<Rightarrow> StateSnapshot \<Rightarrow> pyfloat \<Rightarrow> ('s, 'u) Mux \<Rightarrow> CommandIntent option \<Rightarrow> bool" where
  "from_umi so uo m snapshot now m' out =
     (snd (uo_next_intent uo (mx_umi m) snapshot now) = Inr out
      \<and> mx_owner m \<in> {OWNER_IDLE, OWNER_UMI} \<and> (mx_owner m = OWNER_IDLE \<longrightarrow> mx_owner m' = OWNER_UMI)
      \<and> mx_owner m' \<in> {OWNER_IDLE, OWNER_UMI}
      \<and> (\<exists>s. mx_spacemouse m' = so_reset_engagement so s))"

definition hid_lost :: "('s, 'u) Mux \<Rightarrow> ('s, 'u) Mux \<Rightarrow> CommandIntent option \<Rightarrow> bool" where
  "hid_lost m m' out =
     (mx_owner m = OWNER_SPACEMOUSE \<and> \<not> mx_spacemouse_failed m \<and> mx_owner m' = OWNER_IDLE \<and> mx_spacemouse_failed m'
      \<and> (\<exists>i. out = Some i \<and> ci_mode i = ''Hold''))"

text \<open>Polling the SpaceMouse changes neither the UMI source nor the tie break, and either keeps the
  owner or loses the device.\<close>

lemma spacemouse_intent_cases:
  assumes "spacemouse_intent so m snapshot now = (m1, r)" and ok: "mux_ok m"
  shows "mx_umi m1 = mx_umi m \<and> mx_tie_break m1 = mx_tie_break m \<and> mux_ok m1"
    and "r = Inr (i, Some safety) \<Longrightarrow> hid_lost m m1 (Some safety)"
    and "r = Inr (i, None) \<Longrightarrow> mx_owner m1 = mx_owner m"
    and "r = Inr (i, None) \<Longrightarrow> \<not> mx_spacemouse_failed m1 \<Longrightarrow>
           \<not> mx_spacemouse_failed m \<and> snd (so_next_intent so (mx_spacemouse m) snapshot now) = Inr i"
    and "r = Inr (i, None) \<Longrightarrow> mx_spacemouse_failed m1 \<Longrightarrow> i = None"
proof -
  obtain s q where n: "so_next_intent so (mx_spacemouse m) snapshot now = (s, q)" by fastforce
  have hold: "ci_mode (intent_hold x) = ''Hold''" for x by (simp add: intent_hold_def intent_of_def)
  note defs = spacemouse_intent_def n Let_def mux_ok_def hid_lost_def hold
  show "mx_umi m1 = mx_umi m \<and> mx_tie_break m1 = mx_tie_break m \<and> mux_ok m1"
    using assms by (cases q) (auto simp: defs split: if_splits)
  show "r = Inr (i, Some safety) \<Longrightarrow> hid_lost m m1 (Some safety)"
    using assms by (cases q) (auto simp: defs split: if_splits option.splits)
  show "r = Inr (i, None) \<Longrightarrow> mx_owner m1 = mx_owner m"
    using assms by (cases q) (auto simp: defs split: if_splits)
  show "r = Inr (i, None) \<Longrightarrow> \<not> mx_spacemouse_failed m1 \<Longrightarrow>
      \<not> mx_spacemouse_failed m \<and> snd (so_next_intent so (mx_spacemouse m) snapshot now) = Inr i"
    using assms by (cases q) (auto simp: defs split: if_splits)
  show "r = Inr (i, None) \<Longrightarrow> mx_spacemouse_failed m1 \<Longrightarrow> i = None"
    using assms by (cases q) (auto simp: defs split: if_splits)
qed

lemma arbitrate_cases:
  assumes "arbitrate so uo m i j = (m', out)" and "mux_ok m"
  shows "mux_ok m'"
    and "(out = i \<and> \<not> mx_spacemouse_failed m \<and> mx_owner m \<in> {OWNER_IDLE, OWNER_SPACEMOUSE} \<and> (mx_owner m = OWNER_IDLE \<longrightarrow> mx_owner m' = OWNER_SPACEMOUSE)
            \<and> mx_owner m' \<in> {OWNER_IDLE, OWNER_SPACEMOUSE} \<and> mx_umi m' = uo_reset_engagement uo (mx_umi m))
       \<or> (out = j \<and> mx_owner m \<in> {OWNER_IDLE, OWNER_UMI} \<and> (mx_owner m = OWNER_IDLE \<longrightarrow> mx_owner m' = OWNER_UMI)
            \<and> mx_owner m' \<in> {OWNER_IDLE, OWNER_UMI} \<and> mx_spacemouse m' = so_reset_engagement so (mx_spacemouse m))
       \<or> (out = None \<and> mx_owner m = OWNER_IDLE \<and> mx_owner m' = OWNER_IDLE)"
proof -
  note defs = arbitrate_def Let_def mux_ok_def umi_yields_def spacemouse_yields_def
  show "mux_ok m'" using assms by (auto simp: defs split: if_splits)
  consider "mx_owner m = OWNER_SPACEMOUSE" | "mx_owner m = OWNER_UMI" | "mx_owner m = OWNER_IDLE"
    using assms(2) by (auto simp: mux_ok_def)
  then show "(out = i \<and> \<not> mx_spacemouse_failed m \<and> mx_owner m \<in> {OWNER_IDLE, OWNER_SPACEMOUSE} \<and> (mx_owner m = OWNER_IDLE \<longrightarrow> mx_owner m' = OWNER_SPACEMOUSE)
            \<and> mx_owner m' \<in> {OWNER_IDLE, OWNER_SPACEMOUSE} \<and> mx_umi m' = uo_reset_engagement uo (mx_umi m))
       \<or> (out = j \<and> mx_owner m \<in> {OWNER_IDLE, OWNER_UMI} \<and> (mx_owner m = OWNER_IDLE \<longrightarrow> mx_owner m' = OWNER_UMI)
            \<and> mx_owner m' \<in> {OWNER_IDLE, OWNER_UMI} \<and> mx_spacemouse m' = so_reset_engagement so (mx_spacemouse m))
       \<or> (out = None \<and> mx_owner m = OWNER_IDLE \<and> mx_owner m' = OWNER_IDLE)"
    using assms by cases (auto simp: defs split: if_splits)
qed

lemma mux_tick_cases:
  assumes tick: "mux_next_intent so uo m snapshot now = (m', Inr out)" and ok: "mux_ok m"
  shows "from_spacemouse so uo m snapshot now m' out \<or> from_umi so uo m snapshot now m' out \<or> hid_lost m m' out
     \<or> (out = None \<and> mx_owner m = OWNER_IDLE \<and> mx_owner m' = OWNER_IDLE)"
proof -
  obtain m1 r where sm: "spacemouse_intent so m snapshot now = (m1, r)" by fastforce
  note S = spacemouse_intent_cases [OF sm ok]
  obtain i safety where r: "r = Inr (i, safety)" using tick by (cases r) (auto simp: mux_next_intent_def sm)
  show ?thesis
  proof (cases safety)
    case (Some h)
    then have "m' = m1 \<and> out = Some h" using tick by (simp add: mux_next_intent_def sm r)
    with S(2) r Some show ?thesis by simp
  next
    case None
    obtain u q where umi: "uo_next_intent uo (mx_umi m) snapshot now = (u, q)" by fastforce
    then obtain j where q: "q = Inr j" and arb: "arbitrate so uo (m1\<lparr>mx_umi := u\<rparr>) i j = (m', out)"
      using tick S(1) by (cases q) (auto simp: mux_next_intent_def sm r None map_prod_def split: prod.splits)
    have "mux_ok (m1\<lparr>mx_umi := u\<rparr>)" using S(1) by (auto simp: mux_ok_def)
    from arbitrate_cases(2) [OF arb this] S(3,4) r None umi q show ?thesis
      by (auto simp: from_spacemouse_def from_umi_def)
  qed
qed

lemma mux_tick_ok: "mux_ok m \<Longrightarrow> mux_ok (fst (mux_next_intent so uo m snapshot now))"
proof -
  assume ok: "mux_ok m"
  obtain m1 r where sm: "spacemouse_intent so m snapshot now = (m1, r)" by fastforce
  have ok1: "mux_ok m1" using spacemouse_intent_cases(1) [OF sm ok] by blast
  then have m1: "mux_ok m1" "mux_ok (m1\<lparr>mx_umi := u\<rparr>)" for u by (simp_all add: mux_ok_def)
  have arb: "mux_ok (fst (arbitrate so uo (m1\<lparr>mx_umi := u\<rparr>) i j))" for u i j
    using arbitrate_cases(1) [OF surjective_pairing m1(2)] by blast
  show ?thesis using m1 arb
    by (auto simp: mux_next_intent_def sm split: sum.split option.split prod.split)
qed

lemma mux_step_ok: "mux_ok m \<Longrightarrow> mux_ok (fst (mux_step so uo m e))"
proof (cases e)
  case (MxControl msg)
  assume "mux_ok m"
  then show ?thesis unfolding MxControl
    by (auto simp: mux_handle_spacemouse_control_def mux_ok_def split: sum.split prod.split)
qed (simp add: mux_tick_ok)

interpretation mux: state_machine "mux_step so uo" mux_ok for so :: "'s SpaceMouseOps" and uo :: "'u UmiOps"
  by unfold_locales (rule mux_step_ok)

text \<open>(C20) One owner at a time. After any run, the intent a tick returns is the one its owner asked for on
  that tick: the SpaceMouse's, with the UMI source's engagement reset on the same tick, or the UMI's,
  with the SpaceMouse's engagement reset; or it is the Hold that follows a SpaceMouse failing while it
  owned the robot; or there is no owner and no intent. Ownership never passes from one source to the
  other without an idle tick in between.\<close>

theorem mux_has_one_owner:
  assumes "mux_init so uo s0 u0 tie_break = Inr m0" and "m = state_after (mux_step so uo) m0 es"
    and "mux_next_intent so uo m snapshot now = (m', Inr out)"
  shows "(from_spacemouse so uo m snapshot now m' out \<or> from_umi so uo m snapshot now m' out \<or> hid_lost m m' out
      \<or> (out = None \<and> mx_owner m = OWNER_IDLE \<and> mx_owner m' = OWNER_IDLE))
    \<and> (mx_owner m' = mx_owner m \<or> mx_owner m = OWNER_IDLE \<or> mx_owner m' = OWNER_IDLE)"
proof -
  have "mux_ok m0" using assms(1) by (auto simp: mux_init_def mux_ok_def split: if_splits)
  then have ok: "mux_ok m" using mux.inv_run assms(2) by blast
  from mux_tick_cases [OF assms(3) ok] show ?thesis
    by (auto simp: from_spacemouse_def from_umi_def hid_lost_def)
qed

text \<open>A tick on which the SpaceMouse asks for nothing: it has failed, fails now, or is disengaged.\<close>

definition spacemouse_silent :: "'s SpaceMouseOps \<Rightarrow> ('s, 'u) Mux \<Rightarrow> StateSnapshot \<Rightarrow> pyfloat \<Rightarrow> bool" where
  "spacemouse_silent so m snapshot now =
     (mx_spacemouse_failed m
      \<or> (case so_next_intent so (mx_spacemouse m) snapshot now of
           (s, Inl e) \<Rightarrow> hid_error e
         | (s, Inr i) \<Rightarrow> so_failed so s \<or> \<not> so_engaged so s \<and> \<not> intent_has_gripper_target i
              \<and> (case i of None \<Rightarrow> True | Some c \<Rightarrow> ci_mode c = ''Hold'')))"

lemma silent_poll:
  assumes "spacemouse_silent so m snapshot now" and "mux_ok m"
  obtains m1 i safety where "spacemouse_intent so m snapshot now = (m1, Inr (i, safety))"
    and "safety \<noteq> None \<longleftrightarrow> hid_lost m m1 safety"
    and "mx_spacemouse_failed m1 \<or> \<not> so_engaged so (mx_spacemouse m1) \<and> \<not> intent_has_gripper_target i"
    and "case i of None \<Rightarrow> True | Some c \<Rightarrow> ci_mode c = ''Hold''"
proof -
  obtain s q where n: "so_next_intent so (mx_spacemouse m) snapshot now = (s, q)" by fastforce
  obtain m1 r where p: "spacemouse_intent so m snapshot now = (m1, r)" by fastforce
  note S = spacemouse_intent_cases [OF p assms(2)]
  obtain i safety where r: "r = Inr (i, safety)"
    using assms(1) p by (cases q) (auto simp: spacemouse_intent_def spacemouse_silent_def n Let_def split: if_splits)
  have "mx_spacemouse_failed m1 \<or> \<not> so_engaged so (mx_spacemouse m1) \<and> \<not> intent_has_gripper_target i"
    and "case i of None \<Rightarrow> True | Some c \<Rightarrow> ci_mode c = ''Hold''"
    using assms(1) p r by (cases q; auto simp: spacemouse_intent_def spacemouse_silent_def n Let_def split: if_splits)+
  moreover have "safety \<noteq> None \<longleftrightarrow> hid_lost m m1 safety"
    using S(2) r by (cases safety) (auto simp: hid_lost_def)
  ultimately show thesis using that p r by blast
qed

lemma silent_tick_releases:
  assumes tick: "mux_next_intent so uo m snapshot now = (m', Inr out)" and ok: "mux_ok m" and silent: "spacemouse_silent so m snapshot now"
  shows "mx_owner m' \<noteq> OWNER_SPACEMOUSE"
proof -
  obtain m1 i safety where p: "spacemouse_intent so m snapshot now = (m1, Inr (i, safety))"
    and s: "safety \<noteq> None \<longleftrightarrow> hid_lost m m1 safety"
    and quiet: "mx_spacemouse_failed m1 \<or> \<not> so_engaged so (mx_spacemouse m1) \<and> \<not> intent_has_gripper_target i"
      "case i of None \<Rightarrow> True | Some c \<Rightarrow> ci_mode c = ''Hold''"
    by (rule silent_poll [OF silent ok])
  have ok1: "mux_ok m1" using spacemouse_intent_cases(1) [OF p ok] by blast
  show ?thesis
  proof (cases safety)
    case (Some h)
    then have "m' = m1" using tick by (simp add: mux_next_intent_def p)
    with s Some show ?thesis by (simp add: hid_lost_def)
  next
    case None
    obtain u j where arb: "arbitrate so uo (m1\<lparr>mx_umi := u\<rparr>) i j = (m', out)"
      using tick None by (cases "uo_next_intent uo (mx_umi m1) snapshot now"; cases "snd (uo_next_intent uo (mx_umi m1) snapshot now)")
        (auto simp: mux_next_intent_def p map_prod_def split: prod.splits)
    show ?thesis using arb quiet ok1
      by (auto simp: arbitrate_def Let_def umi_yields_def spacemouse_yields_def mux_ok_def split: if_splits)
  qed
qed

lemma umi_takes_idle:
  assumes ok: "mux_ok m" and owner: "mx_owner m \<noteq> OWNER_SPACEMOUSE" and silent: "spacemouse_silent so m snapshot now"
    and umi: "uo_next_intent uo (mx_umi m) snapshot now = (u, Inr j)" "uo_engaged uo u"
  shows "\<exists>m'. mux_next_intent so uo m snapshot now = (m', Inr j) \<and> mx_owner m' = OWNER_UMI"
proof -
  obtain m1 i safety where p: "spacemouse_intent so m snapshot now = (m1, Inr (i, safety))"
    and s: "safety \<noteq> None \<longleftrightarrow> hid_lost m m1 safety"
    and quiet: "mx_spacemouse_failed m1 \<or> \<not> so_engaged so (mx_spacemouse m1) \<and> \<not> intent_has_gripper_target i"
    by (rule silent_poll [OF silent ok])
  have none: "safety = None" using s owner by (simp add: hid_lost_def)
  note S = spacemouse_intent_cases [OF p ok]
  have m1: "mx_umi m1 = mx_umi m" "mx_owner m1 \<in> {OWNER_IDLE, OWNER_UMI}" using S(1,3) none ok owner by (auto simp: mux_ok_def)
  show ?thesis using m1 quiet umi
    by (auto simp: mux_next_intent_def p none arbitrate_def Let_def spacemouse_yields_def)
qed

text \<open>(C21) The UMI can always take over from a SpaceMouse that went quiet. In every reachable state, if the
  SpaceMouse fails, has failed or is disengaged on a tick, and on the next tick it is still quiet while
  the UMI deadman is held, then that second tick gives the robot to the UMI and returns its intent.\<close>

theorem umi_takes_over_from_silent_spacemouse:
  assumes "mux_init so uo s0 u0 tie_break = Inr m0" and "m = state_after (mux_step so uo) m0 es"
    and "mux_next_intent so uo m snap1 now1 = (m1, Inr out1)" and "spacemouse_silent so m snap1 now1"
    and "spacemouse_silent so m1 snap2 now2" and "uo_next_intent uo (mx_umi m1) snap2 now2 = (u, Inr j)" and "uo_engaged uo u"
  shows "\<exists>m2. mux_next_intent so uo m1 snap2 now2 = (m2, Inr j) \<and> mx_owner m2 = OWNER_UMI"
proof -
  have "mux_ok m0" using assms(1) by (auto simp: mux_init_def mux_ok_def split: if_splits)
  then have ok: "mux_ok m" using mux.inv_run assms(2) by blast
  have "mux_ok m1" using mux_tick_ok [OF ok, of so uo snap1 now1] assms(3) by simp
  from umi_takes_idle [OF this silent_tick_releases [OF assms(3) ok assms(4)] assms(5-7)] show ?thesis .
qed

section \<open>The contract of a SpaceMouse source\<close>

text \<open>What a well-behaved source promises: resetting it disengages it, a tick that asks for motion leaves it
  engaged and not failed, and a control message does not engage it.\<close>

locale spacemouse_source =
  fixes so :: "'s SpaceMouseOps"
  assumes reset_disengages: "\<not> so_engaged so (so_reset_engagement so s)"
    and motion_is_engaged: "so_next_intent so s snapshot now = (s', Inr (Some i)) \<Longrightarrow> is_motion i \<Longrightarrow> so_engaged so s' \<and> \<not> so_failed so s'"
    and control_does_not_engage: "so_engaged so (fst (so_handle_control so s msg b)) \<Longrightarrow> so_engaged so s"
begin

lemma umi_excludes_spacemouse: "from_umi so uo m snapshot now m' out \<Longrightarrow> \<not> so_engaged so (mx_spacemouse m')"
  using reset_disengages by (auto simp: from_umi_def)

lemma motion_takes_idle_robot:
  assumes "mx_owner m = OWNER_IDLE" and "\<not> mx_spacemouse_failed m"
    and "so_next_intent so (mx_spacemouse m) snapshot now = (s', Inr (Some i))" and "is_motion i"
    and "uo_next_intent uo (mx_umi m) snapshot now = (u, Inr j)" and "\<not> uo_engaged uo u"
  shows "\<exists>m'. mux_next_intent so uo m snapshot now = (m', Inr (Some i)) \<and> mx_owner m' = OWNER_SPACEMOUSE
    \<and> mx_spacemouse m' = s' \<and> mx_umi m' = uo_reset_engagement uo u"
  using assms motion_is_engaged [OF assms(3,4)]
  by (simp add: mux_next_intent_def spacemouse_intent_def arbitrate_def umi_yields_def Let_def)

end

section \<open>Two sources on one robot\<close>

definition exclusive :: "'s SpaceMouseOps \<Rightarrow> 'u UmiOps \<Rightarrow> ('s, 'u) Mux \<Rightarrow> bool" where
  "exclusive so uo m = (mx_spacemouse_failed m \<or> \<not> so_engaged so (mx_spacemouse m) \<or> \<not> uo_engaged uo (mx_umi m))"

locale teleop_pair = spacemouse_source so for so :: "'s SpaceMouseOps" +
  fixes uo :: "'u UmiOps"
  assumes umi_reset_disengages: "\<not> uo_engaged uo (uo_reset_engagement uo u)"
begin

lemma arbitrate_exclusive: "exclusive so uo (fst (arbitrate so uo m i j))"
  using reset_disengages umi_reset_disengages
  by (auto simp: arbitrate_def exclusive_def umi_yields_def spacemouse_yields_def Let_def)

lemma tick_exclusive:
  assumes "mux_next_intent so uo m snapshot now = (m', Inr out)"
  shows "exclusive so uo m'"
proof -
  obtain m1 r where S: "spacemouse_intent so m snapshot now = (m1, r)" by fastforce
  then obtain i safety where r: "r = Inr (i, safety)" using assms by (cases r) (auto simp: mux_next_intent_def)
  show ?thesis
  proof (cases safety)
    case None
    then have "\<exists>u j. arbitrate so uo (m1\<lparr>mx_umi := u\<rparr>) i j = (m', out)"
      using assms S r by (auto simp: mux_next_intent_def map_prod_def split: prod.splits sum.splits)
    then show ?thesis using arbitrate_exclusive by (metis fst_conv)
  next
    case (Some x)
    then have "m' = m1" using assms S r by (simp add: mux_next_intent_def)
    moreover have "mx_spacemouse_failed m1"
      using S Some r by (auto simp: spacemouse_intent_def Let_def split: if_splits prod.splits sum.splits)
    ultimately show ?thesis by (simp add: exclusive_def)
  qed
qed

lemma step_exclusive:
  assumes "exclusive so uo m" and "\<not> isl (snd (mux_step so uo m e))"
  shows "exclusive so uo (fst (mux_step so uo m e))"
proof (cases e)
  case (MxTick snapshot now)
  then show ?thesis
    using assms(2) tick_exclusive by (cases "mux_next_intent so uo m snapshot now"; cases "snd (mux_next_intent so uo m snapshot now)") auto
next
  case (MxControl msg)
  then show ?thesis using assms(1) control_does_not_engage [of "mx_spacemouse m" msg "mx_owner m = OWNER_IDLE"]
    by (cases "so_handle_control so (mx_spacemouse m) msg (mx_owner m = OWNER_IDLE)")
      (auto simp: mux_handle_spacemouse_control_def exclusive_def Let_def split: sum.splits)
qed

end

section \<open>A scripted pair of sources\<close>

definition demo_so :: "(CommandIntent option \<times> bool) SpaceMouseOps" where
  "demo_so = \<lparr>so_next_intent = (\<lambda>s _ _. (s, Inr (fst s))), so_engaged = snd, so_reset_engagement = (\<lambda>s. (fst s, False)),
     so_failed = (\<lambda>_. False), so_timeout_sec = (\<lambda>_. Fin (1/5)), so_requirements = (\<lambda>_. CARTESIAN_ACTION_REQUIREMENTS),
     so_handle_control = (\<lambda>s _ _. (s, Inr False)), so_status = (\<lambda>_ _ _. PNone), so_close = (\<lambda>s. (s, Inr ()))\<rparr>"

definition demo_uo :: "(CommandIntent option \<times> bool) UmiOps" where
  "demo_uo = \<lparr>uo_next_intent = (\<lambda>u _ _. (u, Inr (fst u))), uo_engaged = snd, uo_reset_engagement = (\<lambda>u. (fst u, False)),
     uo_requirements = (\<lambda>_. CARTESIAN_ACTION_REQUIREMENTS), uo_close = (\<lambda>u. (u, Inr ()))\<rparr>"

definition demo_mux :: "(CommandIntent option \<times> bool, CommandIntent option \<times> bool) Mux" where
  "demo_mux = (case mux_init demo_so demo_uo (Some (intent_hold (Fin 1)), True) (Some (intent_hold (Fin 2)), True) ''umi'' of Inr m \<Rightarrow> m)"

theorem mux_has_one_owner_witness:
  "\<exists>m'. mux_next_intent demo_so demo_uo demo_mux \<lparr>payload = [], received_monotonic = Fin 0\<rparr> (Fin 0) = (m', Inr (Some (intent_hold (Fin 2))))
     \<and> (mx_owner m' = mx_owner demo_mux \<or> mx_owner demo_mux = OWNER_IDLE \<or> mx_owner m' = OWNER_IDLE)"
proof -
  let ?snap = "\<lparr>payload = [], received_monotonic = Fin 0\<rparr>"
  have i: "mux_init demo_so demo_uo (Some (intent_hold (Fin 1)), True) (Some (intent_hold (Fin 2)), True) ''umi'' = Inr demo_mux"
    by (simp add: demo_mux_def mux_init_def owner_defs)
  obtain m' out where t: "mux_next_intent demo_so demo_uo demo_mux ?snap (Fin 0) = (m', Inr out)" "out = Some (intent_hold (Fin 2))"
    by (simp add: mux_next_intent_def spacemouse_intent_def arbitrate_def spacemouse_yields_def demo_mux_def mux_init_def demo_so_def demo_uo_def
        owner_defs Let_def)
  with mux_has_one_owner [OF i, of demo_mux "[]" ?snap "Fin 0" m' out] show ?thesis by auto
qed

definition demo_quiet_mux :: "(CommandIntent option \<times> bool, CommandIntent option \<times> bool) Mux" where
  "demo_quiet_mux = (case mux_init demo_so demo_uo (None, False) (Some (intent_hold (Fin 2)), True) ''umi'' of Inr m \<Rightarrow> m)"

theorem umi_takes_over_from_silent_spacemouse_witness:
  "\<exists>m1 m2. mux_next_intent demo_so demo_uo demo_quiet_mux \<lparr>payload = [], received_monotonic = Fin 0\<rparr> (Fin 0) = (m1, Inr (Some (intent_hold (Fin 2))))
     \<and> mux_next_intent demo_so demo_uo m1 \<lparr>payload = [], received_monotonic = Fin 1\<rparr> (Fin 1) = (m2, Inr (Some (intent_hold (Fin 2))))
     \<and> mx_owner m2 = OWNER_UMI"
proof -
  let ?s1 = "\<lparr>payload = [], received_monotonic = Fin 0\<rparr>" and ?s2 = "\<lparr>payload = [], received_monotonic = Fin 1\<rparr>"
  have i: "mux_init demo_so demo_uo (None, False) (Some (intent_hold (Fin 2)), True) ''umi'' = Inr demo_quiet_mux"
    by (simp add: demo_quiet_mux_def mux_init_def owner_defs)
  obtain m1 where t: "mux_next_intent demo_so demo_uo demo_quiet_mux ?s1 (Fin 0) = (m1, Inr (Some (intent_hold (Fin 2))))"
    and m1: "mx_spacemouse m1 = (None, False)" "mx_umi m1 = (Some (intent_hold (Fin 2)), True)"
    by (simp add: mux_next_intent_def spacemouse_intent_def arbitrate_def spacemouse_yields_def demo_quiet_mux_def mux_init_def demo_so_def demo_uo_def
        owner_defs Let_def intent_has_gripper_target_def)
  have q: "spacemouse_silent demo_so demo_quiet_mux ?s1 (Fin 0)" "spacemouse_silent demo_so m1 ?s2 (Fin 1)"
    using m1 by (simp_all add: spacemouse_silent_def demo_so_def demo_quiet_mux_def mux_init_def demo_uo_def owner_defs intent_has_gripper_target_def)
  have u: "uo_next_intent demo_uo (mx_umi m1) ?s2 (Fin 1) = ((Some (intent_hold (Fin 2)), True), Inr (Some (intent_hold (Fin 2))))"
    "uo_engaged demo_uo (Some (intent_hold (Fin 2)), True)" using m1 by (simp_all add: demo_uo_def)
  from umi_takes_over_from_silent_spacemouse [OF i, of demo_quiet_mux "[]", OF _ t q u] t show ?thesis by auto
qed

end
