(* ===== verification/UmiTeleop.thy ===== *)
theory UmiTeleop
  imports UmiReaders TeleopMux
begin

text \<open>
  \<^verbatim>\<open>policy_runner/action_sources/umi_dual_cartesian.py\<close>: the teleop source that moves each arm by the motion of
  a hand-held tracker since its clutch was engaged. One definition per step of \<^verbatim>\<open>_target_for_side\<close>, in its
  order: the stale check, the release grace, the latch and re-anchoring, the activity gate, the axis signs, the
  workspace, dead band, step limit, first-order hold and lead clamp. What \<^verbatim>\<open>reader.read\<close> returns is an
  argument. Poses are reals, clock readings finite; \<open>fl\<close> rounds a real to the double of a payload. The
  per-step log file is left out.
\<close>

section \<open>Configuration\<close>

record UmiTcpPoseTargetConditioningConfig =
  tc_enable :: bool
  tc_mode :: string
  tc_emit_rate_hz :: real
  tc_min_interpolation_horizon_sec :: real
  tc_max_interpolation_horizon_sec :: real
  tc_default_interpolation_horizon_sec :: real
  tc_reset_on_engage :: bool
  tc_stop_on_release :: bool
  tc_stop_on_stale :: bool

definition check_conditioning_config :: "UmiTcpPoseTargetConditioningConfig \<Rightarrow> unit res" where
  "check_conditioning_config c =
     (if tc_mode c \<notin> {''none'', ''foh_se3''}
        then Inl (ValueError ''umi_dual_cartesian.tcp_pose_target_conditioning.mode must be none or foh_se3'')
      else if tc_emit_rate_hz c \<le> 0
        then Inl (ValueError ''umi_dual_cartesian.tcp_pose_target_conditioning.emit_rate_hz must be positive'')
      else if tc_min_interpolation_horizon_sec c \<le> 0
        then Inl (ValueError ''umi_dual_cartesian.tcp_pose_target_conditioning.min_interpolation_horizon_sec must be positive'')
      else if tc_max_interpolation_horizon_sec c < tc_min_interpolation_horizon_sec c
        then Inl (ValueError ''umi_dual_cartesian.tcp_pose_target_conditioning.max_interpolation_horizon_sec must be >= min_interpolation_horizon_sec'')
      else if \<not> (tc_min_interpolation_horizon_sec c \<le> tc_default_interpolation_horizon_sec c
                 \<and> tc_default_interpolation_horizon_sec c \<le> tc_max_interpolation_horizon_sec c)
        then Inl (ValueError ''umi_dual_cartesian.tcp_pose_target_conditioning.default_interpolation_horizon_sec must be within [min_interpolation_horizon_sec, max_interpolation_horizon_sec]'')
      else Inr ())"

record UmiTargetLeadClampConfig =
  lc_enable :: bool
  lc_max_target_lead_m :: real
  lc_max_target_lead_rad :: real
  lc_rebase_conditioner_on_clamp :: bool

definition check_lead_clamp_config :: "UmiTargetLeadClampConfig \<Rightarrow> unit res" where
  "check_lead_clamp_config c =
     (if lc_max_target_lead_m c < 0 then Inl (ValueError ''umi_dual_cartesian.target_lead_clamp.max_target_lead_m must be non-negative'')
      else if lc_max_target_lead_rad c < 0 then Inl (ValueError ''umi_dual_cartesian.target_lead_clamp.max_target_lead_rad must be non-negative'')
      else Inr ())"

record UmiMotionGateConfig =
  mg_enable :: bool
  mg_window_sec :: pyfloat
  mg_release_m :: real
  mg_dwell_sec :: pyfloat

definition check_motion_gate_config :: "UmiMotionGateConfig \<Rightarrow> unit res" where
  "check_motion_gate_config c =
     (if mg_window_sec c \<le> Fin 0 then Inl (ValueError ''umi_dual_cartesian.motion_gate.window_sec must be positive'')
      else if mg_release_m c < 0 then Inl (ValueError ''umi_dual_cartesian.motion_gate.release_m must be non-negative'')
      else if mg_dwell_sec c < Fin 0 then Inl (ValueError ''umi_dual_cartesian.motion_gate.dwell_sec must be non-negative'')
      else Inr ())"

record UmiConfig =
  uc_max_linear_step_m :: real
  uc_max_angular_step_rad :: real
  uc_deadband_linear_m :: real
  uc_deadband_angular_rad :: real
  uc_linear_axis_signs :: vec3
  uc_angular_axis_signs :: vec3
  uc_gripper_offset :: vec3
  uc_r_align :: mat3
  uc_workspace_bounds :: "workspace option"
  uc_sample_hold_timeout_sec :: pyfloat
  uc_timeout_sec :: pyfloat
  uc_deadman_release_grace_sec :: pyfloat
  uc_conditioning :: UmiTcpPoseTargetConditioningConfig
  uc_target_lead_clamp :: UmiTargetLeadClampConfig
  uc_motion_gate :: UmiMotionGateConfig
  uc_reanchor_on_external_move :: bool
  uc_reanchor_linear_m :: real
  uc_reanchor_angular_rad :: real
  uc_input_moving_average_window :: int

definition tuple3 :: "real list \<Rightarrow> string \<Rightarrow> vec3 res" where
  "tuple3 v label = (case v of [a, b, c] \<Rightarrow> Inr (a, b, c) | _ \<Rightarrow> Inl (ValueError (label @ '' must contain 3 values'')))"

definition signs3 :: "real list \<Rightarrow> string \<Rightarrow> vec3 res" where
  "signs3 v label =
     res_bind (tuple3 v label) (\<lambda>signs.
       if list_ex (\<lambda>sign. sign \<noteq> -1 \<and> sign \<noteq> 1) v then Inl (ValueError (label @ '' entries must be -1 or 1'')) else Inr signs)"

definition matrix3 :: "real list \<Rightarrow> string \<Rightarrow> mat3 res" where
  "matrix3 v label =
     (case v of
        [m0, m1, m2, m3, m4, m5, m6, m7, m8] \<Rightarrow> Inr (Mat m0 m1 m2 m3 m4 m5 m6 m7 m8)
      | [a, b, c] \<Rightarrow> Inr (rpy_to_matrix a b c)
      | _ \<Rightarrow> Inl (ValueError (label @ '' must contain 3 RPY values or 9 matrix values'')))"

text \<open>The bounds are a mapping of axes to pairs, or six numbers.\<close>

datatype WorkspaceSpec = WsMap "(string \<times> pyfloat list) list" | WsList "pyfloat list"

definition bounds_pair :: "pyfloat list \<Rightarrow> string \<Rightarrow> (pyfloat \<times> pyfloat) res" where
  "bounds_pair v label =
     (case v of
        [lower, upper] \<Rightarrow> if upper < lower then Inl (ValueError (label @ '' min must be <= max'')) else Inr (lower, upper)
      | _ \<Rightarrow> Inl (ValueError (label @ '' must contain [min,max]'')))"

definition workspace_bounds :: "WorkspaceSpec option \<Rightarrow> workspace option res" where
  "workspace_bounds raw =
     (case raw of
        None \<Rightarrow> Inr None
      | Some (WsMap d) \<Rightarrow>
          (let axis = (\<lambda>k. bounds_pair (case map_of d k of None \<Rightarrow> [NInf, PInf] | Some v \<Rightarrow> v) (''workspace_bounds.'' @ k))
           in res_bind (axis ''x'') (\<lambda>bx. res_bind (axis ''y'') (\<lambda>bw. res_bind (axis ''z'') (\<lambda>bz. Inr (Some (bx, bw, bz))))))
      | Some (WsList [a, b, c, d, e, f]) \<Rightarrow> Inr (Some ((a, b), (c, d), (e, f)))
      | Some (WsList _) \<Rightarrow> Inl (ValueError ''workspace_bounds must be [xmin,xmax,ymin,ymax,zmin,zmax]''))"

section \<open>State of one arm\<close>

record ArmTeleopState =
  ts_arm_init :: "Transform option"
  ts_pika_init :: "Transform option"
  ts_previous_target :: "pose6 option"
  ts_last_sample :: "UmiSample option"
  ts_last_seq :: int
  ts_was_armed :: bool
  ts_deadband_target :: "pose6 option"
  ts_deadman_drop_mono :: "pyfloat option"
  ts_conditioner_engaged :: bool
  ts_last_raw_target_stand :: "pose6 option"
  ts_last_emitted_target_stand :: "pose6 option"
  ts_schedule_start_target_stand :: "pose6 option"
  ts_schedule_end_target_stand :: "pose6 option"
  ts_schedule_start_time_ns :: "int option"
  ts_schedule_end_time_ns :: "int option"
  ts_last_fresh_sample_time_ns :: "int option"
  ts_last_fresh_seq :: int
  ts_gate_history :: "(pyfloat \<times> vec3) list"
  ts_gate_open :: bool
  ts_gate_last_hot :: "pyfloat option"
  ts_gate_hold_transform :: "Transform option"

definition arm_teleop_init :: ArmTeleopState where
  "arm_teleop_init = \<lparr>ts_arm_init = None, ts_pika_init = None, ts_previous_target = None, ts_last_sample = None, ts_last_seq = 0,
     ts_was_armed = False, ts_deadband_target = None, ts_deadman_drop_mono = None, ts_conditioner_engaged = False,
     ts_last_raw_target_stand = None, ts_last_emitted_target_stand = None, ts_schedule_start_target_stand = None,
     ts_schedule_end_target_stand = None, ts_schedule_start_time_ns = None, ts_schedule_end_time_ns = None,
     ts_last_fresh_sample_time_ns = None, ts_last_fresh_seq = 0, ts_gate_history = [], ts_gate_open = False,
     ts_gate_last_hot = None, ts_gate_hold_transform = None\<rparr>"

text \<open>\<^verbatim>\<open>int(x * 1_000_000_000)\<close> of a finite clock reading, and \<^verbatim>\<open>int\<close> of a number.\<close>

definition int_of_real :: "real \<Rightarrow> int" where
  "int_of_real x = (if x < 0 then \<lceil>x\<rceil> else \<lfloor>x\<rfloor>)"

definition ns_of :: "pyfloat \<Rightarrow> int" where
  "ns_of t = int_of_real (real_of t * 1000000000)"

definition reset_conditioner :: "ArmTeleopState \<Rightarrow> pose6 option \<Rightarrow> pyfloat \<Rightarrow> ArmTeleopState" where
  "reset_conditioner st anchor now =
     (let t = (if anchor = None then None else Some (ns_of now)) in
      st\<lparr>ts_conditioner_engaged := (anchor \<noteq> None), ts_last_raw_target_stand := anchor, ts_last_emitted_target_stand := anchor,
         ts_schedule_start_target_stand := anchor, ts_schedule_end_target_stand := anchor, ts_schedule_start_time_ns := t,
         ts_schedule_end_time_ns := t, ts_last_fresh_sample_time_ns := None, ts_last_fresh_seq := 0\<rparr>)"

definition rebase_conditioner :: "ArmTeleopState \<Rightarrow> pose6 \<Rightarrow> ArmTeleopState" where
  "rebase_conditioner st pose =
     st\<lparr>ts_conditioner_engaged := True, ts_last_raw_target_stand := Some pose, ts_last_emitted_target_stand := Some pose,
        ts_schedule_start_target_stand := None, ts_schedule_end_target_stand := None, ts_schedule_start_time_ns := None,
        ts_schedule_end_time_ns := None\<rparr>"

definition clear_latches :: "ArmTeleopState \<Rightarrow> ArmTeleopState" where
  "clear_latches st =
     reset_conditioner (st\<lparr>ts_arm_init := None, ts_pika_init := None, ts_previous_target := None, ts_last_sample := None, ts_last_seq := 0,
       ts_was_armed := False, ts_deadband_target := None, ts_deadman_drop_mono := None, ts_gate_history := [], ts_gate_open := False,
       ts_gate_last_hot := None, ts_gate_hold_transform := None\<rparr>) None (Fin 0)"

section \<open>Transforms of the input\<close>

definition quat_to_matrix_checked :: "quat \<Rightarrow> mat3 res" where
  "quat_to_matrix_checked q = (if qnorm q \<le> 0 then Inl (ValueError ''quaternion must be nonzero'') else Inr (quat_to_matrix q))"

definition tracker_transform :: "UmiSample \<Rightarrow> vec3 \<Rightarrow> mat3 \<Rightarrow> Transform res" where
  "tracker_transform s gripper_offset r_align =
     res_bind (quat_to_matrix_checked (us_quat s)) (\<lambda>m.
       let rotation = mat_mul m r_align; offset_world = mat_vec rotation gripper_offset
       in Inr \<lparr>tf_translation = vadd (us_position s) offset_world, tf_rotation = rotation\<rparr>)"

text \<open>The block of the live pose and its transform; an infinite or NaN number is outside the model.\<close>

definition umi_stand_block :: "StateSnapshot \<Rightarrow> string \<Rightarrow> pydict option" where
  "umi_stand_block snapshot side =
     (case dget (payload snapshot) side of
        PDict arm \<Rightarrow>
          (case py_or (py_or (dget arm ''tcp_ref_stand'') (dget arm ''tcp_actual_stand'')) (dget arm ''tcp_stand'') of
             PDict raw \<Rightarrow> Some raw | _ \<Rightarrow> None)
      | _ \<Rightarrow> None)"

definition block_transform :: "pydict \<Rightarrow> Transform res" where
  "block_transform raw =
     (let number = (\<lambda>(k, d). res_bind (float_checked (dget_or raw k (PFloat (Fin d)))) (\<lambda>x. Inr (real_of x)));
          quaternion = (\<lambda>q. quat_to_matrix_checked (q ! 0, q ! 1, q ! 2, q ! 3));
          by_angles = (res_bind (res_map number [(''rx'', 0), (''ry'', 0), (''rz'', 0)]) (\<lambda>r. Inr (rpy_to_matrix (r ! 0) (r ! 1) (r ! 2))));
          by_components = (if list_all (has_key raw) [''qx'', ''qy'', ''qz'', ''qw'']
                           then res_bind (res_map number [(''qx'', 0), (''qy'', 0), (''qz'', 0), (''qw'', 1)]) quaternion else by_angles)
      in res_bind (res_map number [(''x'', 0), (''y'', 0), (''z'', 0)]) (\<lambda>p.
         res_bind (case dget raw ''quaternion_xyzw'' of
                     PList items \<Rightarrow> if length items = 4
                       then res_bind (res_map (\<lambda>v. res_bind (float_checked v) (\<lambda>x. Inr (real_of x))) items) quaternion
                       else by_components
                   | _ \<Rightarrow> by_components) (\<lambda>rotation.
         Inr \<lparr>tf_translation = (p ! 0, p ! 1, p ! 2), tf_rotation = rotation\<rparr>)))"

definition tcp_stand_transform :: "StateSnapshot \<Rightarrow> string \<Rightarrow> Transform option res" where
  "tcp_stand_transform snapshot side =
     (case umi_stand_block snapshot side of None \<Rightarrow> Inr None | Some raw \<Rightarrow> res_bind (block_transform raw) (\<lambda>t. Inr (Some t)))"

definition gripper_percent :: "pyfloat \<Rightarrow> pyfloat" where
  "gripper_percent v =
     (let w = (if Fin 0 \<le> v \<and> v \<le> Fin 1 then v * Fin 100 else v) in pymax (Fin 0) (pymin (Fin 100) w))"

section \<open>Diagnostics of a tick\<close>

definition TCP_TARGET_PROFILE :: string where
  "TCP_TARGET_PROFILE = ''umi_large_smooth''"

abbreviation put :: "pydict \<Rightarrow> string \<Rightarrow> pyval \<Rightarrow> pydict" where
  "put d k v \<equiv> dset d k v"

definition conditioning_mode :: "UmiConfig \<Rightarrow> string" where
  "conditioning_mode cfg =
     (if \<not> tc_enable (uc_conditioning cfg) \<or> tc_mode (uc_conditioning cfg) = ''none'' then ''none'' else tc_mode (uc_conditioning cfg))"

definition conditioner_diag :: "string \<Rightarrow> pydict" where
  "conditioner_diag mode =
     [(''profile'', PStr TCP_TARGET_PROFILE), (''cond'', PStr mode), (''cond_active'', PBool False), (''cond_alpha'', PFloat (Fin 0)),
      (''cond_horizon_ms'', PFloat (Fin 0)), (''cond_elapsed_ms'', PFloat (Fin 0)), (''fresh_packet'', PBool False),
      (''reuse_tick'', PBool False), (''raw_delta_mm'', PFloat (Fin 0)), (''raw_delta_deg'', PFloat (Fin 0)),
      (''emitted_delta_mm'', PFloat (Fin 0)), (''emitted_delta_deg'', PFloat (Fin 0)), (''raw_to_emitted_mm'', PFloat (Fin 0)),
      (''raw_to_emitted_deg'', PFloat (Fin 0)), (''lead_before_mm'', PFloat (Fin (-1))), (''lead_before_deg'', PFloat (Fin (-1))),
      (''lead_after_mm'', PFloat (Fin (-1))), (''lead_after_deg'', PFloat (Fin (-1))), (''lead_clamp'', PBool False),
      (''lead_clamp_axes'', PStr []), (''schedule_reset'', PBool False), (''stale_stop'', PBool False)]"

definition degrees :: "real \<Rightarrow> real" where
  "degrees x = x * 180 / pi"

text \<open>A distance in millimetres and degrees under two keys.\<close>

definition put_distance :: "(real \<Rightarrow> pyfloat) \<Rightarrow> string \<Rightarrow> real \<times> real \<Rightarrow> pydict \<Rightarrow> pydict" where
  "put_distance fl name d diag = put (put diag (name @ ''_mm'') (PFloat (fl (fst d * 1000)))) (name @ ''_deg'') (PFloat (fl (degrees (snd d))))"

definition update_delta_diag :: "(real \<Rightarrow> pyfloat) \<Rightarrow> pose6 option \<Rightarrow> pose6 \<Rightarrow> pose6 \<Rightarrow> pydict \<Rightarrow> pydict" where
  "update_delta_diag fl previous raw_pose emitted_pose diag =
     (let base = (case previous of None \<Rightarrow> emitted_pose | Some p \<Rightarrow> p);
          d1 = put_distance fl ''raw_delta'' (pose6_distance base raw_pose) diag;
          d2 = put_distance fl ''emitted_delta'' (pose6_distance base emitted_pose) d1;
          d3 = put_distance fl ''raw_to_emitted'' (pose6_distance raw_pose emitted_pose) d2;
          d4 = put d3 ''source_conditioning_mode'' (dget_or d3 ''cond'' (PStr ''none''));
          d5 = put d4 ''raw_target_stand'' (PList (map PFloat (the (pose_list fl (Some raw_pose)))));
          d6 = put d5 ''emitted_target_stand'' (PList (map PFloat (the (pose_list fl (Some emitted_pose)))));
          d7 = put d6 ''target_lead_before_mm'' (dget_or d6 ''lead_before_mm'' (PFloat (Fin (-1))));
          d8 = put d7 ''target_lead_before_deg'' (dget_or d7 ''lead_before_deg'' (PFloat (Fin (-1))));
          d9 = put d8 ''target_lead_after_mm'' (dget_or d8 ''lead_after_mm'' (PFloat (Fin (-1))));
          d10 = put d9 ''target_lead_after_deg'' (dget_or d9 ''lead_after_deg'' (PFloat (Fin (-1))))
      in put d10 ''lead_clamped'' (PBool (truthy (dget_or d10 ''lead_clamp'' (PBool False)))))"

definition annotated_keys :: "string list" where
  "annotated_keys = [''input_sample_monotonic_ns'', ''input_age_ms'', ''fresh_packet'', ''reuse_tick'', ''source_conditioning_mode'',
     ''raw_target_stand'', ''emitted_target_stand'', ''raw_delta_mm'', ''raw_delta_deg'', ''emitted_delta_mm'', ''emitted_delta_deg'',
     ''raw_to_emitted_mm'', ''raw_to_emitted_deg'', ''target_lead_before_mm'', ''target_lead_before_deg'', ''target_lead_after_mm'',
     ''target_lead_after_deg'', ''lead_clamped'']"

definition annotate_arm_payload :: "pydict option \<Rightarrow> pydict \<Rightarrow> pydict option" where
  "annotate_arm_payload p diag =
     (case p of
        None \<Rightarrow> None
      | Some d \<Rightarrow>
          if d = [] \<or> dget d ''mode'' \<noteq> PStr ''TcpPoseTarget'' then Some d
          else Some (foldl (\<lambda>acc key. case map_of diag key of None \<Rightarrow> acc | Some v \<Rightarrow> dset acc key v) d annotated_keys))"

section \<open>Latches and the activity gate\<close>

definition latch :: "UmiConfig \<Rightarrow> Transform \<Rightarrow> Transform \<Rightarrow> pyfloat \<Rightarrow> ArmTeleopState \<Rightarrow> ArmTeleopState" where
  "latch cfg arm pika now st =
     (let st1 = st\<lparr>ts_arm_init := Some arm, ts_pika_init := Some pika, ts_previous_target := Some (transform_to_pose6 arm)\<rparr>
      in if tc_reset_on_engage (uc_conditioning cfg) then reset_conditioner st1 (ts_previous_target st1) now else st1)"

definition REANCHOR_DEVICE_STILL_LINEAR_M :: real where
  "REANCHOR_DEVICE_STILL_LINEAR_M = 1 / 100"

definition REANCHOR_DEVICE_STILL_ANGULAR_RAD :: real where
  "REANCHOR_DEVICE_STILL_ANGULAR_RAD = 1 / 10"

text \<open>\<^verbatim>\<open>a or b\<close> of two optional poses; a pose tuple is never empty.\<close>

definition or_pose :: "pose6 option \<Rightarrow> pose6 option \<Rightarrow> pose6 option" where
  "or_pose a b = (case a of None \<Rightarrow> b | Some _ \<Rightarrow> a)"

text \<open>The first tick of a clutch: None where the live pose is not known. An armed side has its latches
  (\<open>tick_latched\<close> of \<open>UmiSafety\<close>), so the missing ones are not reachable; the code would raise AttributeError.\<close>

definition engage :: "UmiConfig \<Rightarrow> string \<Rightarrow> StateSnapshot \<Rightarrow> Transform \<Rightarrow> pyfloat \<Rightarrow> ArmTeleopState \<Rightarrow> pydict
    \<Rightarrow> (ArmTeleopState \<times> pydict) option res" where
  "engage cfg side snapshot pika now st diag =
     res_bind (tcp_stand_transform snapshot side) (\<lambda>live.
       case live of
         None \<Rightarrow> Inr None
       | Some arm \<Rightarrow> Inr (Some ((latch cfg arm pika now st)\<lparr>ts_was_armed := True\<rparr>,
           if tc_reset_on_engage (uc_conditioning cfg) then put diag ''schedule_reset'' (PBool True) else diag)))"

definition reanchor :: "UmiConfig \<Rightarrow> string \<Rightarrow> StateSnapshot \<Rightarrow> Transform \<Rightarrow> pyfloat \<Rightarrow> ArmTeleopState \<Rightarrow> pydict
    \<Rightarrow> (ArmTeleopState \<times> pydict) res" where
  "reanchor cfg side snapshot pika now st diag =
     (case ts_pika_init st of
        None \<Rightarrow> Inl (AssertionError ''pika_init'')
      | Some pika_init \<Rightarrow>
          (let (dev_lin, dev_ang) = pose6_distance (transform_to_pose6 pika) (transform_to_pose6 pika_init);
               operator_neutral = (dev_lin \<le> REANCHOR_DEVICE_STILL_LINEAR_M \<and> dev_ang \<le> REANCHOR_DEVICE_STILL_ANGULAR_RAD);
               anchor = or_pose (ts_last_emitted_target_stand st) (ts_previous_target st)
           in res_bind (if operator_neutral then tcp_stand_transform snapshot side else Inr None) (\<lambda>live.
              case (live, anchor) of
                (Some live_tf, Some a) \<Rightarrow>
                  (let (disp_lin, disp_ang) = pose6_distance (transform_to_pose6 live_tf) a
                   in if uc_reanchor_linear_m cfg < disp_lin \<or> uc_reanchor_angular_rad cfg < disp_ang
                        then Inr (latch cfg live_tf pika now st, put diag ''reanchor_external'' (PBool True))
                      else Inr (st, diag))
              | _ \<Rightarrow> Inr (st, diag))))"

fun gate_trim :: "pyfloat \<Rightarrow> (pyfloat \<times> vec3) list \<Rightarrow> (pyfloat \<times> vec3) list" where
  "gate_trim cutoff (a # b # rest) = (if fst a < cutoff then gate_trim cutoff (b # rest) else a # b # rest)"
| "gate_trim cutoff xs = xs"

definition update_motion_gate :: "(real \<Rightarrow> pyfloat) \<Rightarrow> UmiConfig \<Rightarrow> ArmTeleopState \<Rightarrow> Transform \<Rightarrow> pyfloat \<Rightarrow> pydict
    \<Rightarrow> ArmTeleopState \<times> bool \<times> pydict" where
  "update_motion_gate fl cfg st pika now diag =
     (let gc = uc_motion_gate cfg in
      if \<not> mg_enable gc then (st, True, put (put diag ''gate_open'' (PBool True)) ''gate_window_m'' (PFloat (Fin (-1))))
      else
        let history = gate_trim (now - mg_window_sec gc) (ts_gate_history st @ [(now, tf_translation pika)]);
            window_m = vnorm (vsub (tf_translation pika) (snd (hd history)));
            st1 = st\<lparr>ts_gate_history := history\<rparr>;
            st2 = (if mg_release_m gc < window_m then st1\<lparr>ts_gate_open := True, ts_gate_last_hot := Some now\<rparr>
                   else if ts_gate_open st1 \<and> (case ts_gate_last_hot st1 of None \<Rightarrow> False | Some t \<Rightarrow> mg_dwell_sec gc \<le> now - t)
                     then st1\<lparr>ts_gate_open := False\<rparr>
                   else st1)
        in (st2, ts_gate_open st2, put (put diag ''gate_open'' (PBool (ts_gate_open st2))) ''gate_window_m'' (PFloat (fl window_m))))"

text \<open>A closed gate moves the latches onto the pose it holds.\<close>

definition hold_latches :: "ArmTeleopState \<Rightarrow> Transform \<Rightarrow> ArmTeleopState" where
  "hold_latches st pika =
     (case (case ts_gate_hold_transform st of Some t \<Rightarrow> Some t | None \<Rightarrow> ts_arm_init st) of
        None \<Rightarrow> st
      | Some h \<Rightarrow> st\<lparr>ts_arm_init := Some h, ts_pika_init := Some pika\<rparr>)"

section \<open>From the tracker to the target\<close>

definition apply_axis_signs :: "UmiConfig \<Rightarrow> Transform \<Rightarrow> Transform" where
  "apply_axis_signs cfg delta =
     (if uc_linear_axis_signs cfg = (1, 1, 1) \<and> uc_angular_axis_signs cfg = (1, 1, 1) then delta
      else let (sx, sy, sz) = uc_linear_axis_signs cfg; (ax, ay, az) = uc_angular_axis_signs cfg;
               (qx, qy, qz, qw) = matrix_to_quat (tf_rotation delta); (tx, ty, tz) = tf_translation delta
           in \<lparr>tf_translation = (sx * tx, sy * ty, sz * tz), tf_rotation = quat_to_matrix (ax * qx, ay * qy, az * qz, qw)\<rparr>)"

fun pose_diff :: "pose6 \<Rightarrow> pose6 \<Rightarrow> pose6" where
  "pose_diff (x, y, z, rx, ry, rz) (x', y', z', rx', ry', rz') =
     (x - x', y - y', z - z', angle_diff rx rx', angle_diff ry ry', angle_diff rz rz')"

definition apply_target_deadband :: "UmiConfig \<Rightarrow> ArmTeleopState \<Rightarrow> pose6 \<Rightarrow> ArmTeleopState \<times> pose6" where
  "apply_target_deadband cfg st pose =
     (if uc_deadband_linear_m cfg \<le> 0 \<and> uc_deadband_angular_rad cfg \<le> 0 then (st, pose)
      else case ts_deadband_target st of
        None \<Rightarrow> (st\<lparr>ts_deadband_target := Some pose\<rparr>, pose)
      | Some previous \<Rightarrow>
          (let d = pose_diff pose previous in
           if vnorm (pose_position d) \<le> uc_deadband_linear_m cfg \<and> vnorm (pose_rpy d) \<le> uc_deadband_angular_rad cfg then (st, previous)
           else (st\<lparr>ts_deadband_target := Some pose\<rparr>, pose)))"

fun pose_to_list :: "pose6 \<Rightarrow> real list" where
  "pose_to_list (x, y, z, rx, ry, rz) = [x, y, z, rx, ry, rz]"

fun pose_advance :: "pose6 \<Rightarrow> pose6 \<Rightarrow> pose6" where
  "pose_advance (x, y, z, rx, ry, rz) (a, b, c, d, e, f) = (x + a, y + b, z + c, wrap_pi (rx + d), wrap_pi (ry + e), wrap_pi (rz + f))"

definition clamp_against_previous :: "UmiConfig \<Rightarrow> ArmTeleopState \<Rightarrow> pose6 \<Rightarrow> pose6 res" where
  "clamp_against_previous cfg st pose =
     (case ts_previous_target st of
        None \<Rightarrow> Inr pose
      | Some previous \<Rightarrow>
          res_bind (clamp_pose_delta (pose_to_list (pose_diff pose previous)) (uc_max_linear_step_m cfg) (uc_max_angular_step_rad cfg)) (\<lambda>clamped.
            Inr (pose_advance previous (list_to_pose clamped))))"

section \<open>First-order hold\<close>

definition pose_or :: "pose6 option \<Rightarrow> pose6 \<Rightarrow> pose6" where
  "pose_or a b = (case a of None \<Rightarrow> b | Some p \<Rightarrow> p)"

definition schedule_fresh :: "UmiConfig \<Rightarrow> ArmTeleopState \<Rightarrow> pose6 \<Rightarrow> UmiSample \<Rightarrow> pyfloat \<Rightarrow> ArmTeleopState" where
  "schedule_fresh cfg st raw s now =
     (let c = uc_conditioning cfg; now_ns = ns_of now; sample_ns = ns_of (us_monotonic s);
          h0 = (case ts_last_fresh_sample_time_ns st of
                  Some t \<Rightarrow> if t < sample_ns then real_of_int (sample_ns - t) / 1000000000 else tc_default_interpolation_horizon_sec c
                | None \<Rightarrow> tc_default_interpolation_horizon_sec c);
          horizon = max (tc_min_interpolation_horizon_sec c) (min (tc_max_interpolation_horizon_sec c) h0);
          start = pose_or (or_pose (ts_last_emitted_target_stand st) (ts_previous_target st)) raw
      in st\<lparr>ts_schedule_start_target_stand := Some start, ts_schedule_end_target_stand := Some raw, ts_schedule_start_time_ns := Some now_ns,
            ts_schedule_end_time_ns := Some (now_ns + max 1 (int_of_real (horizon * 1000000000))),
            ts_last_fresh_sample_time_ns := Some sample_ns, ts_last_fresh_seq := us_seq s, ts_last_raw_target_stand := Some raw\<rparr>)"

definition clear_schedule :: "ArmTeleopState \<Rightarrow> ArmTeleopState" where
  "clear_schedule st = st\<lparr>ts_schedule_start_target_stand := None, ts_schedule_end_target_stand := None, ts_schedule_start_time_ns := None,
     ts_schedule_end_time_ns := None\<rparr>"

definition emit_schedule :: "(real \<Rightarrow> pyfloat) \<Rightarrow> ArmTeleopState \<Rightarrow> pose6 \<Rightarrow> int \<Rightarrow> pydict \<Rightarrow> ArmTeleopState \<times> pose6 \<times> pydict" where
  "emit_schedule fl st raw now_ns diag =
     (case (ts_schedule_start_target_stand st, ts_schedule_end_target_stand st, ts_schedule_start_time_ns st, ts_schedule_end_time_ns st) of
        (Some start, Some stop, Some t0, Some t1) \<Rightarrow>
          (let duration_ns = max 1 (t1 - t0); elapsed_ns = max 0 (now_ns - t0); alpha = min 1 (real_of_int elapsed_ns / real_of_int duration_ns);
               emitted = interpolate_pose6_se3 start stop alpha; st1 = st\<lparr>ts_last_emitted_target_stand := Some emitted\<rparr>
           in (if 1 \<le> alpha then clear_schedule st1 else st1, emitted,
               put (put (put (put diag ''cond_active'' (PBool (alpha < 1))) ''cond_alpha'' (PFloat (fl alpha)))
                 ''cond_horizon_ms'' (PFloat (fl (real_of_int duration_ns / 1000000)))) ''cond_elapsed_ms'' (PFloat (fl (real_of_int elapsed_ns / 1000000)))))
      | _ \<Rightarrow> (let emitted = pose_or (ts_last_emitted_target_stand st) raw
             in (st\<lparr>ts_last_emitted_target_stand := Some emitted\<rparr>, emitted, diag)))"

definition condition_pose_target :: "(real \<Rightarrow> pyfloat) \<Rightarrow> UmiConfig \<Rightarrow> ArmTeleopState \<Rightarrow> pose6 \<Rightarrow> UmiSample \<Rightarrow> bool \<Rightarrow> pyfloat \<Rightarrow> pydict
    \<Rightarrow> ArmTeleopState \<times> pose6 \<times> pydict" where
  "condition_pose_target fl cfg st raw s fresh_packet now diag =
     (if \<not> tc_enable (uc_conditioning cfg) \<or> tc_mode (uc_conditioning cfg) \<noteq> ''foh_se3''
        then (st\<lparr>ts_last_raw_target_stand := Some raw, ts_last_emitted_target_stand := Some raw\<rparr>, raw, diag)
      else
        let (st1, diag1) = (if \<not> ts_conditioner_engaged st
              then (reset_conditioner st (Some (pose_or (or_pose (ts_last_emitted_target_stand st) (ts_previous_target st)) raw)) now,
                    put diag ''schedule_reset'' (PBool True))
              else (st, diag));
            st2 = (if fresh_packet then schedule_fresh cfg st1 raw s now else st1)
        in emit_schedule fl st2 raw (ns_of now) diag1)"

section \<open>Lead clamp\<close>

definition apply_target_lead_clamp :: "(real \<Rightarrow> pyfloat) \<Rightarrow> UmiConfig \<Rightarrow> ArmTeleopState \<Rightarrow> pose6 \<Rightarrow> StateSnapshot \<Rightarrow> string \<Rightarrow> pydict
    \<Rightarrow> (ArmTeleopState \<times> pose6 \<times> pydict) res" where
  "apply_target_lead_clamp fl cfg st pose snapshot side diag =
     (let c = uc_target_lead_clamp cfg in
      res_bind (tcp_stand_transform snapshot side) (\<lambda>live.
        case live of
          None \<Rightarrow> Inr (st, pose, diag)
        | Some tf \<Rightarrow>
            (let ref_pose = transform_to_pose6 tf; d1 = put_distance fl ''lead_before'' (pose6_distance ref_pose pose) diag in
             if \<not> lc_enable c
               then Inr (st, pose, put (put d1 ''lead_after_mm'' (dget d1 ''lead_before_mm'')) ''lead_after_deg'' (dget d1 ''lead_before_deg''))
             else
               let (clamped, axes) = clamp_pose6_lead ref_pose pose (lc_max_target_lead_m c) (lc_max_target_lead_rad c);
                   d2 = put_distance fl ''lead_after'' (pose6_distance ref_pose clamped) d1
               in if axes \<noteq> [] then
                    Inr (if lc_rebase_conditioner_on_clamp c then rebase_conditioner st clamped else st, clamped,
                         put (put d2 ''lead_clamp'' (PBool True)) ''lead_clamp_axes'' (PStr axes))
                  else Inr (st, clamped, d2))))"

section \<open>One side\<close>

record UmiSide =
  ud_pose :: "pose6 option"
  ud_gripper :: "pyfloat option"
  ud_changed :: bool
  ud_diag :: pydict

text \<open>The tick with the clutch pressed, from the latched state on.\<close>

definition move_target :: "(real \<Rightarrow> pyfloat) \<Rightarrow> UmiConfig \<Rightarrow> string \<Rightarrow> ArmTeleopState \<Rightarrow> Transform \<Rightarrow> UmiSample \<Rightarrow> bool \<Rightarrow> StateSnapshot
    \<Rightarrow> pyfloat \<Rightarrow> pydict \<Rightarrow> ArmTeleopState \<times> UmiSide res" where
  "move_target fl cfg side st pika s fresh_packet snapshot now diag =
     (let (st1, gate_open, diag1) = update_motion_gate fl cfg st pika now diag;
          st2 = (if gate_open then st1 else hold_latches st1 pika)
      in case (ts_arm_init st2, ts_pika_init st2) of
           (Some arm_init, Some pika_init) \<Rightarrow>
             (let delta = apply_axis_signs cfg (tf_compose (tf_inverse pika_init) pika); target = tf_compose arm_init delta;
                  st3 = st2\<lparr>ts_gate_hold_transform := Some target\<rparr>;
                  raw_pose = clamp_workspace (transform_to_pose6 target) (uc_workspace_bounds cfg);
                  prev_target = ts_previous_target st3;
                  (st4, deadband_pose) = apply_target_deadband cfg st3 raw_pose
              in case clamp_against_previous cfg st4 deadband_pose of
                   Inl e \<Rightarrow> (st4, Inl e)
                 | Inr raw_target \<Rightarrow>
                     (let (st5, pose, diag2) = condition_pose_target fl cfg st4 raw_target s fresh_packet now diag1
                      in case apply_target_lead_clamp fl cfg st5 pose snapshot side diag2 of
                           Inl e \<Rightarrow> (st5, Inl e)
                         | Inr (st6, pose6, diag3) \<Rightarrow>
                             (st6\<lparr>ts_previous_target := Some pose6, ts_last_emitted_target_stand := Some pose6\<rparr>,
                              Inr \<lparr>ud_pose = Some pose6, ud_gripper = Some (gripper_percent (us_gripper s)), ud_changed = True,
                                   ud_diag = update_delta_diag fl prev_target raw_target pose6 diag3\<rparr>)))
         | _ \<Rightarrow> (st2, Inl (AssertionError [])))"

definition engaged_tick :: "(real \<Rightarrow> pyfloat) \<Rightarrow> UmiConfig \<Rightarrow> string \<Rightarrow> ArmTeleopState \<Rightarrow> UmiSample \<Rightarrow> bool \<Rightarrow> StateSnapshot
    \<Rightarrow> pyfloat \<Rightarrow> pydict \<Rightarrow> ArmTeleopState \<times> UmiSide res" where
  "engaged_tick fl cfg side st0 s fresh_packet snapshot now diag =
     (let st = st0\<lparr>ts_deadman_drop_mono := None\<rparr> in
      case tracker_transform s (uc_gripper_offset cfg) (uc_r_align cfg) of
        Inl e \<Rightarrow> (st, Inl e)
      | Inr pika \<Rightarrow>
          if \<not> ts_was_armed st then
            (case engage cfg side snapshot pika now st diag of
               Inl e \<Rightarrow> (st, Inl e)
             | Inr None \<Rightarrow> (clear_latches st, Inr \<lparr>ud_pose = None, ud_gripper = None, ud_changed = False, ud_diag = diag\<rparr>)
             | Inr (Some (st1, diag1)) \<Rightarrow> move_target fl cfg side st1 pika s fresh_packet snapshot now diag1)
          else if uc_reanchor_on_external_move cfg then
            (case reanchor cfg side snapshot pika now st diag of
               Inl e \<Rightarrow> (st, Inl e)
             | Inr (st1, diag1) \<Rightarrow> move_target fl cfg side st1 pika s fresh_packet snapshot now diag1)
          else move_target fl cfg side st pika s fresh_packet snapshot now diag)"

text \<open>The tick with the clutch released.\<close>

definition released_tick :: "UmiConfig \<Rightarrow> ArmTeleopState \<Rightarrow> UmiSample \<Rightarrow> pyfloat \<Rightarrow> pydict \<Rightarrow> ArmTeleopState \<times> UmiSide" where
  "released_tick cfg st s now diag =
     (let gripper = Some (gripper_percent (us_gripper s)) in
      if \<not> ts_was_armed st then (clear_latches st, \<lparr>ud_pose = None, ud_gripper = None, ud_changed = False, ud_diag = diag\<rparr>)
      else if Fin 0 < uc_deadman_release_grace_sec cfg \<and> ts_previous_target st \<noteq> None then
        (let drop = (case ts_deadman_drop_mono st of None \<Rightarrow> now | Some t \<Rightarrow> t); st1 = st\<lparr>ts_deadman_drop_mono := Some drop\<rparr>
         in if now - drop < uc_deadman_release_grace_sec cfg
              then (st1, \<lparr>ud_pose = or_pose (ts_last_emitted_target_stand st1) (ts_previous_target st1), ud_gripper = gripper, ud_changed = True,
                          ud_diag = diag\<rparr>)
            else (clear_latches st1, \<lparr>ud_pose = None, ud_gripper = gripper, ud_changed = True, ud_diag = diag\<rparr>))
      else (clear_latches st, \<lparr>ud_pose = None, ud_gripper = gripper, ud_changed = True, ud_diag = diag\<rparr>))"

text \<open>The tick without a usable sample.\<close>

definition stopped_tick :: "ArmTeleopState \<Rightarrow> pydict \<Rightarrow> ArmTeleopState \<times> UmiSide" where
  "stopped_tick st diag =
     (clear_latches st, \<lparr>ud_pose = None, ud_gripper = None, ud_changed = ts_was_armed st,
        ud_diag = (if ts_was_armed st then put diag ''stale_stop'' (PBool True) else diag)\<rparr>)"

definition umi_stale :: "UmiConfig \<Rightarrow> UmiSample \<Rightarrow> pyfloat \<Rightarrow> bool" where
  "umi_stale cfg s now = (uc_sample_hold_timeout_sec cfg < now - us_monotonic s)"

definition input_diag :: "(real \<Rightarrow> pyfloat) \<Rightarrow> bool \<Rightarrow> UmiSample \<Rightarrow> pyfloat \<Rightarrow> pydict \<Rightarrow> pydict" where
  "input_diag fl fresh_packet s now diag =
     put (put (put (put diag ''fresh_packet'' (PBool fresh_packet)) ''reuse_tick'' (PBool (\<not> fresh_packet)))
       ''input_sample_monotonic_ns'' (PInt (ns_of (us_monotonic s)))) ''input_age_ms'' (PFloat (fl (real_of (now - us_monotonic s) * 1000)))"

definition target_for_side :: "(real \<Rightarrow> pyfloat) \<Rightarrow> UmiConfig \<Rightarrow> string \<Rightarrow> ArmTeleopState \<times> PoseMovingAverage \<Rightarrow> UmiSample option res
    \<Rightarrow> StateSnapshot \<Rightarrow> pyfloat \<Rightarrow> (ArmTeleopState \<times> PoseMovingAverage) \<times> UmiSide res" where
  "target_for_side fl cfg side arm outcome snapshot now =
     (let (st, ma) = arm; diag = conditioner_diag (conditioning_mode cfg) in
      case outcome of
        Inl e \<Rightarrow> ((st, ma), Inl e)
      | Inr read \<Rightarrow>
          (let fresh_packet = (case read of None \<Rightarrow> False | Some s \<Rightarrow> us_seq s \<noteq> ts_last_seq st);
               st1 = (case read of None \<Rightarrow> st | Some s \<Rightarrow> st\<lparr>ts_last_seq := us_seq s, ts_last_sample := Some s\<rparr>)
           in case ts_last_sample st1 of
                None \<Rightarrow> (let (st2, out) = stopped_tick st1 diag in ((st2, ma), Inr out))
              | Some s0 \<Rightarrow>
                  if umi_stale cfg s0 now then (let (st2, out) = stopped_tick st1 diag in ((st2, ma), Inr out))
                  else
                    let (ma1, s) = ma_filter ma s0; diag1 = input_diag fl fresh_packet s now diag
                    in if \<not> us_deadman s then (let (st2, out) = released_tick cfg st1 s now diag1 in ((st2, ma1), Inr out))
                       else (let (st2, out) = engaged_tick fl cfg side st1 s fresh_packet snapshot now diag1 in ((st2, ma1), out))))"

section \<open>The source\<close>

record Umi =
  um_config :: UmiConfig
  um_left :: "ArmTeleopState \<times> PoseMovingAverage"
  um_right :: "ArmTeleopState \<times> PoseMovingAverage"

definition check_umi_args :: "UmiConfig \<Rightarrow> pyfloat \<Rightarrow> unit res" where
  "check_umi_args cfg hold_timeout =
     (if uc_max_linear_step_m cfg < 0 then Inl (ValueError ''max_linear_step_m must be non-negative'')
      else if uc_max_angular_step_rad cfg < 0 then Inl (ValueError ''max_angular_step_rad must be non-negative'')
      else if uc_input_moving_average_window cfg < 0 then Inl (ValueError ''input_moving_average_window must be non-negative'')
      else if uc_deadband_linear_m cfg < 0 then Inl (ValueError ''deadband_linear_m must be non-negative'')
      else if uc_deadband_angular_rad cfg < 0 then Inl (ValueError ''deadband_angular_rad must be non-negative'')
      else if hold_timeout \<le> Fin 0 then Inl (ValueError ''sample_hold_timeout_sec must be positive'')
      else if uc_deadman_release_grace_sec cfg < Fin 0 then Inl (ValueError ''deadman_release_grace_sec must be non-negative'')
      else if uc_reanchor_linear_m cfg < 0 then Inl (ValueError ''reanchor_linear_m must be non-negative'')
      else if uc_reanchor_angular_rad cfg < 0 then Inl (ValueError ''reanchor_angular_rad must be non-negative'')
      else Inr ())"

text \<open>The arguments that are stored as they are come in \<open>cfg\<close>; the two timeouts, the axis signs, the offset,
  the alignment and the workspace are separate.\<close>

definition umi_init :: "UmiConfig \<Rightarrow> pyfloat option \<Rightarrow> pyfloat option \<Rightarrow> real list \<Rightarrow> real list \<Rightarrow> real list \<Rightarrow> real list
    \<Rightarrow> WorkspaceSpec option \<Rightarrow> Umi res" where
  "umi_init cfg hold stale linear_signs angular_signs offset align bounds =
     (if hold \<noteq> None \<and> stale \<noteq> None
        then Inl (ValueError ''set only one of sample_hold_timeout_sec or deprecated sample_stale_timeout_sec'')
      else
        let timeout = (case hold of Some t \<Rightarrow> t | None \<Rightarrow> (case stale of Some t \<Rightarrow> t | None \<Rightarrow> Fin (1/20)))
        in res_bind (check_umi_args cfg timeout) (\<lambda>_.
           res_bind (signs3 linear_signs ''linear_axis_signs'') (\<lambda>ls.
           res_bind (signs3 angular_signs ''angular_axis_signs'') (\<lambda>as.
           res_bind (tuple3 offset ''gripper_offset'') (\<lambda>off.
           res_bind (matrix3 align ''r_align'') (\<lambda>al.
           res_bind (workspace_bounds bounds) (\<lambda>w.
           Inr (let arm = (arm_teleop_init, ma_init (uc_input_moving_average_window cfg)) in
                \<lparr>um_config = cfg\<lparr>uc_linear_axis_signs := ls, uc_angular_axis_signs := as, uc_gripper_offset := off, uc_r_align := al,
                   uc_workspace_bounds := w, uc_sample_hold_timeout_sec := timeout\<rparr>,
                 um_left = arm, um_right = arm\<rparr>))))))))"

definition umi_metadata :: "UmiConfig \<Rightarrow> pydict \<Rightarrow> pydict \<Rightarrow> pydict" where
  "umi_metadata cfg left_diag right_diag =
     (let ns = concat (map (\<lambda>d. case dget d ''input_sample_monotonic_ns'' of PInt v \<Rightarrow> if v = 0 then [] else [v] | _ \<Rightarrow> []) [left_diag, right_diag]);
          sample_ns = (if ns = [] then 0 else Max (set ns));
          metadata = [(''action_source'', PStr ''umi_dual_cartesian''), (''source_conditioning_mode'', PStr (conditioning_mode cfg))]
      in if sample_ns = 0 then metadata else metadata @ [(''input_sample_monotonic_ns'', PInt sample_ns)])"

definition umi_intent :: "(real \<Rightarrow> pyfloat) \<Rightarrow> UmiConfig \<Rightarrow> UmiSide \<Rightarrow> UmiSide \<Rightarrow> CommandIntent option res" where
  "umi_intent fl cfg left right =
     (if \<not> ud_changed left \<and> \<not> ud_changed right then Inr None
      else res_bind (tcp_pose_target_stand_intent (pose_list fl (ud_pose left)) (pose_list fl (ud_pose right)) (ud_gripper left) (ud_gripper right)
             (uc_timeout_sec cfg) (Some TCP_TARGET_PROFILE) (Some (umi_metadata cfg (ud_diag left) (ud_diag right)))) (\<lambda>i.
           Inr (Some (i\<lparr>ci_left := annotate_arm_payload (ci_left i) (ud_diag left), ci_right := annotate_arm_payload (ci_right i) (ud_diag right)\<rparr>))))"

definition umi_next_intent :: "(real \<Rightarrow> pyfloat) \<Rightarrow> Umi \<Rightarrow> UmiSample option res \<Rightarrow> UmiSample option res \<Rightarrow> StateSnapshot \<Rightarrow> pyfloat
    \<Rightarrow> Umi \<times> CommandIntent option res" where
  "umi_next_intent fl s left_read right_read snapshot now =
     (case target_for_side fl (um_config s) ''left'' (um_left s) left_read snapshot now of
        (l, Inl e) \<Rightarrow> (s\<lparr>um_left := l\<rparr>, Inl e)
      | (l, Inr left) \<Rightarrow>
          (case target_for_side fl (um_config s) ''right'' (um_right s) right_read snapshot now of
             (r, Inl e) \<Rightarrow> (s\<lparr>um_left := l, um_right := r\<rparr>, Inl e)
           | (r, Inr right) \<Rightarrow> (s\<lparr>um_left := l, um_right := r\<rparr>, umi_intent fl (um_config s) left right)))"

definition umi_engaged :: "Umi \<Rightarrow> bool" where
  "umi_engaged s = (ts_was_armed (fst (um_left s)) \<or> ts_was_armed (fst (um_right s)))"

definition umi_reset_engagement :: "Umi \<Rightarrow> Umi" where
  "umi_reset_engagement s = s\<lparr>um_left := apfst clear_latches (um_left s), um_right := apfst clear_latches (um_right s)\<rparr>"

text \<open>The source as the multiplexer sees it: the source and its two readers. The right reader is read only when
  the left side did not raise.\<close>

definition umi_tick :: "(real \<Rightarrow> pyfloat) \<Rightarrow> ('r \<Rightarrow> 'r \<times> UmiSample option res) \<Rightarrow> Umi \<times> 'r \<times> 'r \<Rightarrow> StateSnapshot \<Rightarrow> pyfloat
    \<Rightarrow> (Umi \<times> 'r \<times> 'r) \<times> CommandIntent option res" where
  "umi_tick fl rd w snapshot now =
     (let (s, lr, rr) = w; (lr1, left_read) = rd lr; (rr1, right_read) = rd rr;
          (s1, out) = umi_next_intent fl s left_read right_read snapshot now;
          left_raised = (case snd (target_for_side fl (um_config s) ''left'' (um_left s) left_read snapshot now) of Inl _ \<Rightarrow> True | Inr _ \<Rightarrow> False)
      in ((s1, lr1, if left_raised then rr else rr1), out))"

definition umi_ops :: "(real \<Rightarrow> pyfloat) \<Rightarrow> ('r \<Rightarrow> 'r \<times> UmiSample option res) \<Rightarrow> ('r \<Rightarrow> 'r) \<Rightarrow> (Umi \<times> 'r \<times> 'r) UmiOps" where
  "umi_ops fl rd cl =
     \<lparr>uo_next_intent = umi_tick fl rd, uo_engaged = (\<lambda>w. umi_engaged (fst w)), uo_reset_engagement = apfst umi_reset_engagement,
      uo_requirements = (\<lambda>_. cartesian_action_requirements True), uo_close = (\<lambda>(s, l, r). ((s, cl l, cl r), Inr ()))\<rparr>"

end
