(* ===== verification/SpaceMouseRegistry.thy ===== *)
theory SpaceMouseRegistry
  imports Machines "HOL-Library.List_Lexorder" "HOL-Library.Char_ord"
begin

text \<open>
  \<^verbatim>\<open>policy_runner/spacemouse_registry.py\<close>: the registry that owns the SpaceMouse HID handles, assigns
  them to arms on the operator's command and reports them with a generation number. Enumerating the
  HID bus, opening a device and reading it are outcomes handed to the operations. The registry's
  thread takes the lock once per scan and once per polled device, so a run is a sequence of scans,
  polls of one device, control messages and closes in any order.
\<close>

section \<open>Devices\<close>

definition SPACEMOUSE_ASSIGNMENT_COMMAND_SCHEMA :: string where
  "SPACEMOUSE_ASSIGNMENT_COMMAND_SCHEMA = ''robotics_lab.spacemouse_assignment_cmd.v1''"

record SpaceMouseSample =
  sm_tx :: pyfloat
  sm_ty :: pyfloat
  sm_tz :: pyfloat
  sm_rx :: pyfloat
  sm_ry :: pyfloat
  sm_rz :: pyfloat
  sm_buttons :: "bool list"
  sm_timestamp_monotonic :: pyfloat

record SpaceMouseHidDescriptor =
  hd_path :: string
  hd_vendor_id :: int
  hd_product_id :: int
  hd_interface_number :: int
  hd_product :: string
  hd_serial :: string

record ConnectedDevice =
  dv_descriptor :: SpaceMouseHidDescriptor
  dv_connection_id :: string
  dv_sample :: "SpaceMouseSample option"
  dv_activity :: pyfloat
  dv_neutral :: bool
  dv_error :: string

record Registry =
  rg_vendor_id :: int
  rg_product_id :: int
  rg_interface_number :: int
  rg_scan_period_sec :: pyfloat
  rg_poll_period_sec :: pyfloat
  rg_neutral_threshold :: pyfloat
  rg_devices :: "(string \<times> ConnectedDevice) list"
  rg_left :: "string option"
  rg_right :: "string option"
  rg_generation :: int
  rg_connection_counter :: nat
  rg_last_command_seq :: int
  rg_last_result :: string
  rg_last_error :: string
  rg_scan_error :: string

definition registry_init :: "int \<Rightarrow> int \<Rightarrow> int \<Rightarrow> pyfloat \<Rightarrow> pyfloat \<Rightarrow> pyfloat \<Rightarrow> Registry res" where
  "registry_init vendor_id product_id interface_number scan_period_sec poll_period_sec neutral_threshold =
     (if scan_period_sec \<le> Fin 0 \<or> poll_period_sec \<le> Fin 0 then Inl (ValueError ''SpaceMouse discovery periods must be positive'')
      else Inr \<lparr>rg_vendor_id = vendor_id, rg_product_id = product_id, rg_interface_number = interface_number,
             rg_scan_period_sec = scan_period_sec, rg_poll_period_sec = poll_period_sec, rg_neutral_threshold = neutral_threshold,
             rg_devices = [], rg_left = None, rg_right = None, rg_generation = 0, rg_connection_counter = 0,
             rg_last_command_seq = 0, rg_last_result = [], rg_last_error = [], rg_scan_error = []\<rparr>)"

section \<open>Discovery\<close>

definition drop_assignment :: "string \<Rightarrow> string option \<Rightarrow> string option" where
  "drop_assignment cid assigned = (if assigned = Some cid then None else assigned)"

definition disconnect_locked :: "Registry \<Rightarrow> string \<Rightarrow> string \<Rightarrow> Registry" where
  "disconnect_locked s path reason =
     (case map_of (rg_devices s) path of
        None \<Rightarrow> s
      | Some device \<Rightarrow>
          s\<lparr>rg_devices := ddel (rg_devices s) path,
            rg_left := drop_assignment (dv_connection_id device) (rg_left s),
            rg_right := drop_assignment (dv_connection_id device) (rg_right s),
            rg_generation := rg_generation s + 1, rg_last_error := reason\<rparr>)"

definition candidates :: "Registry \<Rightarrow> SpaceMouseHidDescriptor list \<Rightarrow> (string \<times> SpaceMouseHidDescriptor) list" where
  "candidates s found =
     dict_update [] (map (\<lambda>d. (hd_path d, d))
       (filter (\<lambda>d. hd_path d \<noteq> [] \<and> hd_vendor_id d = rg_vendor_id s \<and> hd_product_id d = rg_product_id s
                    \<and> hd_interface_number d = rg_interface_number s) found))"

definition connection_id :: "int \<Rightarrow> nat \<Rightarrow> string" where
  "connection_id generation counter = ''sm-'' @ int_str generation @ ''-'' @ nat_str counter"

text \<open>\<open>opens\<close> is the outcome of the reader factory for each path.\<close>

definition connect_candidate :: "(string \<Rightarrow> unit res) \<Rightarrow> Registry \<Rightarrow> string \<times> SpaceMouseHidDescriptor \<Rightarrow> Registry" where
  "connect_candidate opens s c =
     (if map_of (rg_devices s) (fst c) \<noteq> None then s
      else case opens (fst c) of
        Inl e \<Rightarrow> s\<lparr>rg_scan_error := ''open_failed:'' @ fst c @ '':'' @ exc_name e @ '':'' @ exc_str e\<rparr>
      | Inr _ \<Rightarrow>
          s\<lparr>rg_connection_counter := rg_connection_counter s + 1, rg_generation := rg_generation s + 1,
            rg_devices := dset (rg_devices s) (fst c)
              \<lparr>dv_descriptor = snd c, dv_connection_id = connection_id (rg_generation s + 1) (rg_connection_counter s + 1),
               dv_sample = None, dv_activity = Fin 0, dv_neutral = True, dv_error = []\<rparr>\<rparr>)"

definition scan_once :: "Registry \<Rightarrow> SpaceMouseHidDescriptor list res \<Rightarrow> (string \<Rightarrow> unit res) \<Rightarrow> Registry" where
  "scan_once s enumerated opens =
     (case enumerated of
        Inl e \<Rightarrow> s\<lparr>rg_scan_error := exc_name e @ '': '' @ exc_str e\<rparr>
      | Inr found \<Rightarrow>
          (let s0 = s\<lparr>rg_scan_error := []\<rparr>; cs = candidates s0 found;
               gone = sort (filter (\<lambda>p. p \<notin> fst ` set cs) (map fst (rg_devices s0)));
               s1 = foldl (\<lambda>t p. disconnect_locked t p ''device_removed'') s0 gone
           in foldl (connect_candidate opens) s1 (sort_key fst cs)))"

section \<open>Polling\<close>

definition sample_activity :: "SpaceMouseSample \<Rightarrow> pyfloat" where
  "sample_activity m = foldl pymax (fabs (sm_tx m)) (map fabs [sm_ty m, sm_tz m, sm_rx m, sm_ry m, sm_rz m])"

definition poll_device :: "Registry \<Rightarrow> string \<Rightarrow> SpaceMouseSample option res \<Rightarrow> Registry" where
  "poll_device s path outcome =
     (case map_of (rg_devices s) path of
        None \<Rightarrow> s
      | Some device \<Rightarrow>
          (case outcome of
             Inl e \<Rightarrow> disconnect_locked s path (''read_failed:'' @ exc_name e @ '':'' @ exc_str e)
           | Inr None \<Rightarrow> s
           | Inr (Some m) \<Rightarrow>
               s\<lparr>rg_devices := dset (rg_devices s) path
                  (device\<lparr>dv_sample := Some m, dv_activity := sample_activity m,
                          dv_neutral := sample_activity m \<le> rg_neutral_threshold s, dv_error := []\<rparr>)\<rparr>))"

definition poll_once :: "Registry \<Rightarrow> (string \<Rightarrow> SpaceMouseSample option res) \<Rightarrow> Registry" where
  "poll_once s outcomes = foldl (\<lambda>t p. poll_device t p (outcomes p)) s (map fst (rg_devices s))"

definition sample_for_arm :: "Registry \<Rightarrow> string \<Rightarrow> SpaceMouseSample option res" where
  "sample_for_arm s a =
     (if a \<notin> {''left'', ''right''} then Inl (ValueError ''SpaceMouse arm must be left or right'')
      else Inr (case find (\<lambda>e. Some (dv_connection_id (snd e)) = (if a = ''left'' then rg_left s else rg_right s)) (rg_devices s) of
                  None \<Rightarrow> None | Some e \<Rightarrow> dv_sample (snd e)))"

section \<open>Control messages\<close>

definition optional_connection_id :: "pyval \<Rightarrow> string option" where
  "optional_connection_id v = (let text = py_strip (str_or_empty v) in if text = [] then None else Some text)"

definition reject_locked :: "Registry \<Rightarrow> string \<Rightarrow> Registry" where
  "reject_locked s reason = s\<lparr>rg_last_result := ''rejected'', rg_last_error := reason\<rparr>"

definition accept_assignment :: "Registry \<Rightarrow> string option \<Rightarrow> string option \<Rightarrow> Registry" where
  "accept_assignment s left right =
     s\<lparr>rg_left := left, rg_right := right, rg_generation := rg_generation s + 1, rg_last_result := ''accepted'', rg_last_error := []\<rparr>"

definition is_connected :: "Registry \<Rightarrow> string \<Rightarrow> bool" where
  "is_connected s cid = (cid \<in> dv_connection_id ` snd ` set (rg_devices s))"

definition assign_command :: "Registry \<Rightarrow> pydict \<Rightarrow> Registry" where
  "assign_command s payload =
     (let command = str_or_empty (dget payload ''command'') in
      if command = ''set'' then
        (let left = optional_connection_id (dget payload ''left_connection_id'');
             right = optional_connection_id (dget payload ''right_connection_id'')
         in if left \<noteq> None \<and> left = right then reject_locked s ''duplicate_assignment''
            else if \<not> list_all (is_connected s) (case left of None \<Rightarrow> [] | Some c \<Rightarrow> [c])
                   \<or> \<not> list_all (is_connected s) (case right of None \<Rightarrow> [] | Some c \<Rightarrow> [c])
              then reject_locked s ''unknown_connection''
            else accept_assignment s left right)
      else if command = ''swap'' then accept_assignment s (rg_right s) (rg_left s)
      else reject_locked s ''unsupported_command'')"

definition handle_control :: "Registry \<Rightarrow> pydict \<Rightarrow> bool \<Rightarrow> Registry \<times> bool res" where
  "handle_control s payload assignment_change_allowed =
     (if dget payload ''schema'' \<noteq> PStr SPACEMOUSE_ASSIGNMENT_COMMAND_SCHEMA then (s, Inr False)
      else case res_bind (py_int (py_or (dget payload ''seq'') (PInt 0))) (\<lambda>seq.
                res_bind (py_int (py_or (dget_or payload ''status_generation'' (PInt (- 1))) (PInt (- 1)))) (\<lambda>g. Inr (seq, g))) of
        Inl e \<Rightarrow> (s, Inl e)
      | Inr (seq, expected_generation) \<Rightarrow>
          (let s1 = s\<lparr>rg_last_command_seq := seq\<rparr>
           in (if \<not> assignment_change_allowed then reject_locked s1 ''active_owner''
               else if expected_generation \<noteq> rg_generation s1 then reject_locked s1 ''stale_generation''
               else assign_command s1 payload, Inr True)))"

definition registry_close :: "Registry \<Rightarrow> Registry" where
  "registry_close s = foldl (\<lambda>t p. disconnect_locked t p ''registry_closed'') s (map fst (rg_devices s))"

section \<open>Status\<close>

definition opt_str :: "string option \<Rightarrow> pyval" where
  "opt_str v = (case v of None \<Rightarrow> PNone | Some s \<Rightarrow> PStr s)"

definition arm_of_connection :: "Registry \<Rightarrow> string \<Rightarrow> string" where
  "arm_of_connection s cid =
     (if rg_right s = Some cid then ''right'' else if rg_left s = Some cid then ''left'' else ''unassigned'')"

definition device_block :: "Registry \<Rightarrow> pyfloat \<Rightarrow> ConnectedDevice \<Rightarrow> pyval" where
  "device_block s now d = PDict
     [(''connection_id'', PStr (dv_connection_id d)), (''state'', PStr ''connected''),
      (''arm'', PStr (arm_of_connection s (dv_connection_id d))),
      (''product'', PStr (hd_product (dv_descriptor d))), (''serial'', PStr (hd_serial (dv_descriptor d))),
      (''path'', PStr (hd_path (dv_descriptor d))), (''interface_number'', PInt (hd_interface_number (dv_descriptor d))),
      (''activity'', PFloat (dv_activity d)), (''neutral'', PBool (dv_neutral d)),
      (''neutral_threshold'', PFloat (rg_neutral_threshold s)), (''has_sample'', PBool (dv_sample d \<noteq> None)),
      (''sample_age_sec'', case dv_sample d of None \<Rightarrow> PNone | Some m \<Rightarrow> PFloat (pymax (Fin 0) (now - sm_timestamp_monotonic m))),
      (''raw_axes'', case dv_sample d of None \<Rightarrow> PNone
          | Some m \<Rightarrow> PList (map PFloat [sm_tx m, sm_ty m, sm_tz m, sm_rx m, sm_ry m, sm_rz m])),
      (''error'', PStr (dv_error d))]"

definition registry_status :: "Registry \<Rightarrow> pyfloat \<Rightarrow> bool \<Rightarrow> string \<Rightarrow> pydict" where
  "registry_status s now assignment_change_allowed block_reason =
     [(''generation'', PInt (rg_generation s)), (''scan_state'', PStr (if rg_scan_error s \<noteq> [] then ''error'' else ''ready'')),
      (''scan_error'', PStr (rg_scan_error s)), (''assignment_change_allowed'', PBool assignment_change_allowed),
      (''block_reason'', PStr block_reason), (''left_connection_id'', opt_str (rg_left s)), (''right_connection_id'', opt_str (rg_right s)),
      (''devices'', PList (map (device_block s now) (sort_key dv_connection_id (map snd (rg_devices s))))),
      (''last_command_seq'', PInt (rg_last_command_seq s)), (''last_result'', PStr (rg_last_result s)), (''last_error'', PStr (rg_last_error s))]"

section \<open>Runs\<close>

datatype RegEvent =
    ReScan "SpaceMouseHidDescriptor list res" "string \<Rightarrow> unit res"
  | RePoll string "SpaceMouseSample option res"
  | ReControl pydict bool
  | ReClose

fun reg_step :: "Registry \<Rightarrow> RegEvent \<Rightarrow> Registry \<times> bool res option" where
  "reg_step s (ReScan enumerated opens) = (scan_once s enumerated opens, None)"
| "reg_step s (RePoll path outcome) = (poll_device s path outcome, None)"
| "reg_step s (ReControl payload allowed) = map_prod id Some (handle_control s payload allowed)"
| "reg_step s ReClose = (registry_close s, None)"

text \<open>What an operator assigns: the connections by device path, and the two assignments.\<close>

definition reg_ids :: "Registry \<Rightarrow> (string \<times> string) list" where
  "reg_ids s = map (\<lambda>e. (fst e, dv_connection_id (snd e))) (rg_devices s)"

definition reg_view :: "Registry \<Rightarrow> (string \<times> string) list \<times> string option \<times> string option" where
  "reg_view s = (reg_ids s, rg_left s, rg_right s)"

text \<open>The number at the end of a connection id.\<close>

definition conn_no :: "string \<Rightarrow> nat" where
  "conn_no cid = digits_val (rev (takeWhile is_digit (rev cid)))"

lemma conn_no_connection_id [simp]: "conn_no (connection_id g c) = c"
proof -
  have "takeWhile is_digit (rev (nat_str c) @ x # xs) = rev (nat_str c)" if "\<not> is_digit x" for x xs
    using nat_str_digits [of c] that by (subst takeWhile_append2) (auto simp: list_all_iff)
  moreover have "\<not> is_digit (CHR ''-'')" by (simp add: is_digit_def)
  ultimately show ?thesis by (simp add: conn_no_def connection_id_def)
qed

definition reg_ok :: "Registry \<Rightarrow> bool" where
  "reg_ok s = (distinct (map fst (reg_ids s)) \<and> distinct (map (conn_no \<circ> snd) (reg_ids s))
     \<and> (\<forall>x\<in>set (reg_ids s). conn_no (snd x) \<le> rg_connection_counter s)
     \<and> set_option (rg_left s) \<subseteq> snd ` set (reg_ids s) \<and> set_option (rg_right s) \<subseteq> snd ` set (reg_ids s)
     \<and> (rg_left s \<noteq> None \<longrightarrow> rg_left s \<noteq> rg_right s))"

text \<open>What every operation does: it keeps the invariant, and it changes what the operator sees only
  together with the generation, which never decreases.\<close>

definition evolves :: "Registry \<Rightarrow> Registry \<Rightarrow> bool" where
  "evolves s t = ((reg_ok s \<longrightarrow> reg_ok t) \<and> rg_generation s \<le> rg_generation t
     \<and> (rg_generation t = rg_generation s \<longrightarrow> reg_view t = reg_view s))"

lemma evolves_refl [simp]: "evolves s s"
  by (simp add: evolves_def)

lemma evolves_trans: "evolves s t \<Longrightarrow> evolves t u \<Longrightarrow> evolves s u"
  by (auto simp: evolves_def)

lemma evolves_foldl: "(\<And>t x. evolves t (f t x)) \<Longrightarrow> evolves s (foldl f s xs)"
proof (induction xs arbitrary: s)
  case (Cons x xs)
  show ?case using evolves_trans [OF Cons.prems [of s x] Cons.IH [OF Cons.prems]] by simp
qed simp

lemma evolves_same: "reg_ids t = reg_ids s \<Longrightarrow> rg_left t = rg_left s \<Longrightarrow> rg_right t = rg_right s \<Longrightarrow>
    rg_generation t = rg_generation s \<Longrightarrow> rg_connection_counter t = rg_connection_counter s \<Longrightarrow> evolves s t"
  by (simp add: evolves_def reg_ok_def reg_view_def)

lemma reg_ids_dset:
  "map_of ds path = Some d \<Longrightarrow> dv_connection_id d' = dv_connection_id d \<Longrightarrow>
     map (\<lambda>e. (fst e, dv_connection_id (snd e))) (dset ds path d') = map (\<lambda>e. (fst e, dv_connection_id (snd e))) ds"
  by (induction ds path d' rule: dset.induct) (auto split: if_splits)

lemma dset_new: "map_of ds k = None \<Longrightarrow> dset ds k v = ds @ [(k, v)]"
  by (induction ds k v rule: dset.induct) (auto split: if_splits)

lemma reg_ids_ddel: "map (\<lambda>e. (fst e, dv_connection_id (snd e))) (ddel ds path)
    = filter (\<lambda>x. fst x \<noteq> path) (map (\<lambda>e. (fst e, dv_connection_id (snd e))) ds)"
  by (induction ds) (auto simp: ddel_def)

lemma disconnect_evolves: "evolves s (disconnect_locked s path reason)"
proof (cases "map_of (rg_devices s) path")
  case (Some d)
  let ?t = "disconnect_locked s path reason" and ?cid = "dv_connection_id d"
  have t: "reg_ids ?t = filter (\<lambda>x. fst x \<noteq> path) (reg_ids s)" "rg_left ?t = drop_assignment ?cid (rg_left s)"
    "rg_right ?t = drop_assignment ?cid (rg_right s)" "rg_generation ?t = rg_generation s + 1"
    "rg_connection_counter ?t = rg_connection_counter s"
    using Some by (simp_all add: disconnect_locked_def reg_ids_def reg_ids_ddel)
  have dev: "(path, ?cid) \<in> set (reg_ids s)" using Some by (force simp: reg_ids_def dest: map_of_SomeD)
  have "reg_ok ?t" if ok: "reg_ok s"
  proof -
    have keep: "c \<in> snd ` set (reg_ids ?t)" if "c \<in> snd ` set (reg_ids s)" "c \<noteq> ?cid" for c
    proof -
      from that(1) obtain p where p: "(p, c) \<in> set (reg_ids s)" by auto
      have "p \<noteq> path" using ok p dev that(2) eq_key_imp_eq_value [of "reg_ids s"] by (auto simp: reg_ok_def)
      with p show ?thesis by (force simp: t)
    qed
    have "set_option (drop_assignment ?cid v) \<subseteq> snd ` set (reg_ids ?t)" if "set_option v \<subseteq> snd ` set (reg_ids s)" for v
      using that keep by (cases v) (simp_all add: drop_assignment_def)
    with ok show ?thesis by (simp add: reg_ok_def t distinct_map_filter drop_assignment_def)
  qed
  then show ?thesis using t(4) by (simp add: evolves_def)
qed (simp add: disconnect_locked_def)

lemma connect_evolves: "evolves s (connect_candidate opens s c)"
proof (cases "map_of (rg_devices s) (fst c)")
  case None
  show ?thesis
  proof (cases "opens (fst c)")
    case (Inl e)
    with None show ?thesis by (intro evolves_same) (simp_all add: connect_candidate_def reg_ids_def)
  next
    case (Inr u)
    let ?t = "connect_candidate opens s c" and ?n = "rg_connection_counter s + 1"
    have t: "reg_ids ?t = reg_ids s @ [(fst c, connection_id (rg_generation s + 1) ?n)]" "rg_left ?t = rg_left s"
      "rg_right ?t = rg_right s" "rg_generation ?t = rg_generation s + 1" "rg_connection_counter ?t = ?n"
      using None Inr by (simp_all add: connect_candidate_def reg_ids_def dset_new)
    have "fst c \<notin> fst ` set (reg_ids s)" using None by (simp add: reg_ids_def image_image map_of_eq_None_iff)
    then have "reg_ok ?t" if "reg_ok s" using that unfolding reg_ok_def t by (fastforce simp: image_iff)
    then show ?thesis using t(4) by (simp add: evolves_def)
  qed
qed (simp add: connect_candidate_def)

lemma poll_evolves: "evolves s (poll_device s path outcome)"
proof (cases "map_of (rg_devices s) path")
  case (Some d)
  show ?thesis
  proof (cases outcome)
    case (Inr m)
    show ?thesis
    proof (cases m)
      case (Some x)
      with \<open>map_of (rg_devices s) path = Some d\<close> Inr show ?thesis
        by (intro evolves_same) (simp_all add: poll_device_def reg_ids_def reg_ids_dset)
    qed (use Some Inr in \<open>simp add: poll_device_def\<close>)
  qed (use Some disconnect_evolves in \<open>simp add: poll_device_def\<close>)
qed (simp add: poll_device_def)

lemma scan_evolves: "evolves s (scan_once s enumerated opens)"
proof (cases enumerated)
  case (Inl e)
  then show ?thesis by (intro evolves_same) (simp_all add: scan_once_def reg_ids_def)
next
  case (Inr found)
  let ?s0 = "s\<lparr>rg_scan_error := []\<rparr>"
  have "evolves s ?s0" by (intro evolves_same) (simp_all add: reg_ids_def)
  then show ?thesis unfolding scan_once_def Let_def Inr sum.case
    by (intro evolves_trans [OF _ evolves_foldl] evolves_trans [OF _ evolves_foldl [where s = ?s0]] disconnect_evolves connect_evolves)
qed

lemma is_connected_iff: "is_connected s cid \<longleftrightarrow> cid \<in> snd ` set (reg_ids s)"
  by (force simp: is_connected_def reg_ids_def)

lemma reject_evolves: "evolves s (reject_locked s reason)"
  by (intro evolves_same) (simp_all add: reject_locked_def reg_ids_def)

lemma accept_evolves:
  assumes "reg_ok s \<Longrightarrow> set_option left \<subseteq> snd ` set (reg_ids s) \<and> set_option right \<subseteq> snd ` set (reg_ids s) \<and> (left \<noteq> None \<longrightarrow> left \<noteq> right)"
  shows "evolves s (accept_assignment s left right)"
proof -
  have "reg_ids (accept_assignment s left right) = reg_ids s" by (simp add: accept_assignment_def reg_ids_def)
  with assms show ?thesis by (simp add: evolves_def reg_ok_def accept_assignment_def)
qed

lemma assign_evolves: "evolves s (assign_command s payload)"
proof -
  have conn: "set_option v \<subseteq> snd ` set (reg_ids s)" if "list_all (is_connected s) (case v of None \<Rightarrow> [] | Some c \<Rightarrow> [c])" for v
    using that by (cases v) (simp_all add: is_connected_iff)
  let ?l = "optional_connection_id (dget payload ''left_connection_id'')"
    and ?r = "optional_connection_id (dget payload ''right_connection_id'')"
  have "evolves s (accept_assignment s ?l ?r)"
    if "\<not> (?l \<noteq> None \<and> ?l = ?r)" "list_all (is_connected s) (case ?l of None \<Rightarrow> [] | Some c \<Rightarrow> [c])"
      "list_all (is_connected s) (case ?r of None \<Rightarrow> [] | Some c \<Rightarrow> [c])"
    using that conn [of ?l] conn [of ?r] by (intro accept_evolves) auto
  moreover have "evolves s (accept_assignment s (rg_right s) (rg_left s))"
    by (intro accept_evolves) (auto simp: reg_ok_def)
  ultimately show ?thesis unfolding assign_command_def Let_def using reject_evolves by presburger
qed

lemma control_evolves: "evolves s (fst (handle_control s payload allowed))"
proof -
  have seq: "evolves s (s\<lparr>rg_last_command_seq := n\<rparr>)" for n by (intro evolves_same) (simp_all add: reg_ids_def)
  show ?thesis unfolding handle_control_def Let_def
    by (auto intro!: evolves_trans [OF seq] reject_evolves assign_evolves split: sum.split)
qed

lemma reg_step_evolves: "evolves s (fst (reg_step s e))"
  by (cases e) (simp_all add: scan_evolves poll_evolves control_evolves registry_close_def evolves_foldl disconnect_evolves)

interpretation registry: state_machine reg_step reg_ok
  by unfold_locales (use reg_step_evolves evolves_def in blast)

text \<open>A state whose version never decreases and changes whenever its observable part does.\<close>

locale versioned =
  fixes step :: "'s \<Rightarrow> 'e \<Rightarrow> 's \<times> 'o" and version :: "'s \<Rightarrow> int" and view :: "'s \<Rightarrow> 'v"
  assumes version_mono: "version s \<le> version (fst (step s e))"
    and version_view: "version (fst (step s e)) = version s \<Longrightarrow> view (fst (step s e)) = view s"
begin

lemma version_run: "version s \<le> version (state_after step s es)"
proof (induction es arbitrary: s)
  case (Cons e es)
  show ?case using order_trans [OF version_mono Cons.IH] by simp
qed simp

lemma same_version_same_view: "version (state_after step s es) = version s \<Longrightarrow> view (state_after step s es) = view s"
proof (induction es arbitrary: s)
  case (Cons e es)
  have "version s \<le> version (fst (step s e))" "version (fst (step s e)) \<le> version (state_after step s (e # es))"
    using version_mono version_run by simp_all
  then have "version (fst (step s e)) = version s" "version (state_after step (fst (step s e)) es) = version (fst (step s e))"
    using Cons.prems by simp_all
  then show ?case using Cons.IH version_view by simp
qed simp

end

interpretation registry_version: versioned reg_step rg_generation reg_view
  by unfold_locales (use reg_step_evolves evolves_def in blast)+

lemma registry_init_ok: "registry_init v p i sp pp th = Inr s \<Longrightarrow> reg_ok s"
  by (auto simp: registry_init_def reg_ok_def reg_ids_def split: if_splits)

lemma find_unique:
  assumes "distinct (map g xs)" and "e \<in> set xs" and "\<And>x. P x \<longleftrightarrow> g x = g e"
  shows "find P xs = Some e"
  using assms by (induction xs) auto

lemma sample_of_assigned:
  assumes ok: "reg_ok s" and e: "e \<in> set (rg_devices s)"
  shows "rg_left s = Some (dv_connection_id (snd e)) \<Longrightarrow> sample_for_arm s ''left'' = Inr (dv_sample (snd e))"
    and "rg_right s = Some (dv_connection_id (snd e)) \<Longrightarrow> sample_for_arm s ''right'' = Inr (dv_sample (snd e))"
proof -
  let ?g = "\<lambda>x. dv_connection_id (snd x)"
  have "map (conn_no \<circ> snd) (reg_ids s) = map conn_no (map ?g (rg_devices s))" by (simp add: reg_ids_def)
  then have d: "distinct (map ?g (rg_devices s))" using ok unfolding reg_ok_def by (metis distinct_map)
  have find: "find (\<lambda>x. Some (?g x) = Some (?g e)) (rg_devices s) = Some e" by (rule find_unique [OF d e]) simp
  show "rg_left s = Some (?g e) \<Longrightarrow> sample_for_arm s ''left'' = Inr (dv_sample (snd e))"
    "rg_right s = Some (?g e) \<Longrightarrow> sample_for_arm s ''right'' = Inr (dv_sample (snd e))"
    using find by (simp_all add: sample_for_arm_def)
qed

text \<open>A message that the registry acts on names the current generation.\<close>

lemma accepted_control:
  assumes "handle_control s payload allowed = (t, r)" and "rg_generation t \<noteq> rg_generation s"
  shows "allowed \<and> py_int (py_or (dget_or payload ''status_generation'' (PInt (- 1))) (PInt (- 1))) = Inr (rg_generation s)
     \<and> r = Inr True \<and> reg_ids t = reg_ids s \<and> rg_last_result t = ''accepted''
     \<and> (str_or_empty (dget payload ''command'') = ''set''
          \<and> rg_left t = optional_connection_id (dget payload ''left_connection_id'')
          \<and> rg_right t = optional_connection_id (dget payload ''right_connection_id'')
        \<or> str_or_empty (dget payload ''command'') = ''swap'' \<and> rg_left t = rg_right s \<and> rg_right t = rg_left s)"
proof -
  have "dget payload ''schema'' = PStr SPACEMOUSE_ASSIGNMENT_COMMAND_SCHEMA"
    using assms by (auto simp: handle_control_def split: if_splits)
  moreover obtain seq where seq: "py_int (py_or (dget payload ''seq'') (PInt 0)) = Inr seq"
    using assms calculation by (cases "py_int (py_or (dget payload ''seq'') (PInt 0))") (auto simp: handle_control_def)
  moreover obtain g where g: "py_int (py_or (dget_or payload ''status_generation'' (PInt (- 1))) (PInt (- 1))) = Inr g"
    using assms calculation by (cases "py_int (py_or (dget_or payload ''status_generation'' (PInt (- 1))) (PInt (- 1)))") (auto simp: handle_control_def)
  ultimately have t: "t = (if \<not> allowed then reject_locked (s\<lparr>rg_last_command_seq := seq\<rparr>) ''active_owner''
       else if g \<noteq> rg_generation s then reject_locked (s\<lparr>rg_last_command_seq := seq\<rparr>) ''stale_generation''
       else assign_command (s\<lparr>rg_last_command_seq := seq\<rparr>) payload)" and r: "r = Inr True"
    using assms(1) by (auto simp: handle_control_def Let_def)
  have "rg_generation (reject_locked (s\<lparr>rg_last_command_seq := seq\<rparr>) x) = rg_generation s" for x by (simp add: reject_locked_def)
  with t assms(2) have acc: "allowed" "g = rg_generation s" "t = assign_command (s\<lparr>rg_last_command_seq := seq\<rparr>) payload"
    by (auto split: if_splits)
  with assms(2) g r show ?thesis
    by (auto simp: assign_command_def Let_def reject_locked_def accept_assignment_def reg_ids_def split: if_splits)
qed

section \<open>Properties\<close>

text \<open>(C19) Assignments are sound after any scans, polls, unplugs, control messages and closes: an assigned
  connection belongs to a device that is plugged in, the arms never share one, connection ids
  are never reused among connected devices, and an arm's sample is its own device's.\<close>

theorem assignments_refer_to_connected_devices:
  assumes "registry_init v p i sp pp th = Inr s0" and "s = state_after reg_step s0 es"
  shows "(\<forall>c. rg_left s = Some c \<or> rg_right s = Some c \<longrightarrow> is_connected s c)
    \<and> (rg_left s \<noteq> None \<longrightarrow> rg_left s \<noteq> rg_right s)
    \<and> distinct (map (\<lambda>e. dv_connection_id (snd e)) (rg_devices s))
    \<and> (\<forall>e\<in>set (rg_devices s). rg_left s = Some (dv_connection_id (snd e)) \<longrightarrow> sample_for_arm s ''left'' = Inr (dv_sample (snd e)))
    \<and> (\<forall>e\<in>set (rg_devices s). rg_right s = Some (dv_connection_id (snd e)) \<longrightarrow> sample_for_arm s ''right'' = Inr (dv_sample (snd e)))"
proof -
  have ok: "reg_ok s" using registry.inv_run [OF registry_init_ok [OF assms(1)]] assms(2) by simp
  have "map (conn_no \<circ> snd) (reg_ids s) = map conn_no (map (\<lambda>e. dv_connection_id (snd e)) (rg_devices s))" by (simp add: reg_ids_def)
  then have "distinct (map (\<lambda>e. dv_connection_id (snd e)) (rg_devices s))" using ok unfolding reg_ok_def by (metis distinct_map)
  moreover have "\<forall>c. rg_left s = Some c \<or> rg_right s = Some c \<longrightarrow> is_connected s c" using ok by (auto simp: reg_ok_def is_connected_iff)
  moreover have "rg_left s \<noteq> None \<longrightarrow> rg_left s \<noteq> rg_right s" using ok by (simp add: reg_ok_def)
  ultimately show ?thesis using sample_of_assigned [OF ok] by blast
qed

text \<open>Optimistic concurrency: when the registry acts on a command that names the generation of an earlier
  status, then nothing the operator saw has changed since, no device was plugged or unplugged and no
  assignment changed, teleop was idle, and exactly the requested assignment is made.\<close>

theorem accepted_command_saw_current_devices:
  assumes "s2 = state_after reg_step s1 es" and "dget payload ''status_generation'' = PInt (rg_generation s1)"
    and "handle_control s2 payload allowed = (s3, r)" and "rg_generation s3 \<noteq> rg_generation s2"
  shows "allowed \<and> reg_view s2 = reg_view s1 \<and> reg_ids s3 = reg_ids s1
    \<and> (rg_left s3 = rg_right s1 \<and> rg_right s3 = rg_left s1
       \<or> rg_left s3 = optional_connection_id (dget payload ''left_connection_id'')
          \<and> rg_right s3 = optional_connection_id (dget payload ''right_connection_id''))"
proof -
  note A = accepted_control [OF assms(3,4)]
  have g: "dget_or payload ''status_generation'' (PInt (- 1)) = PInt (rg_generation s1)"
    using assms(2) by (auto simp: dget_or_def split: option.splits)
  have "rg_generation s2 = rg_generation s1 \<or> rg_generation s2 = - 1 \<and> rg_generation s1 = 0" using A by (auto simp: g py_or_def split: if_splits)
  moreover have "rg_generation s1 \<le> rg_generation s2" using registry_version.version_run assms(1) by simp
  ultimately have "rg_generation s2 = rg_generation s1" by auto
  then have "reg_view s2 = reg_view s1" using registry_version.same_version_same_view assms(1) by simp
  with A show ?thesis by (auto simp: reg_view_def)
qed

text \<open>A command for the initial generation 0 is always stale: \<^verbatim>\<open>payload.get(...) or -1\<close> reads 0 as -1.\<close>

lemma generation_zero_is_stale:
  assumes "rg_generation s = 0" and "dget payload ''status_generation'' = PInt 0"
  shows "rg_generation (fst (handle_control s payload allowed)) = 0"
proof (rule ccontr)
  obtain t r where h: "handle_control s payload allowed = (t, r)" by fastforce
  assume "rg_generation (fst (handle_control s payload allowed)) \<noteq> 0"
  from accepted_control [OF h] this assms(1) h
  have "py_int (py_or (dget_or payload ''status_generation'' (PInt (- 1))) (PInt (- 1))) = Inr 0" by simp
  with assms(2) show False by (auto simp: dget_or_def py_or_def split: option.splits)
qed

section \<open>Two devices\<close>

definition demo_registry :: Registry where
  "demo_registry = (case registry_init 9583 50770 0 (Fin (1/2)) (Fin (1/500)) (Fin (3/50)) of Inr s \<Rightarrow> s)"

definition demo_hid :: "string \<Rightarrow> SpaceMouseHidDescriptor" where
  "demo_hid path = \<lparr>hd_path = path, hd_vendor_id = 9583, hd_product_id = 50770, hd_interface_number = 0, hd_product = [], hd_serial = []\<rparr>"

definition demo_scan :: RegEvent where
  "demo_scan = ReScan (Inr [demo_hid ''b'', demo_hid ''a'']) (\<lambda>_. Inr ())"

definition demo_set :: pydict where
  "demo_set = [(''schema'', PStr SPACEMOUSE_ASSIGNMENT_COMMAND_SCHEMA), (''seq'', PInt 1), (''status_generation'', PInt 2),
     (''command'', PStr ''set''), (''left_connection_id'', PStr ''sm-1-1''), (''right_connection_id'', PStr ''sm-2-2'')]"

lemma demo_registry_eq: "registry_init 9583 50770 0 (Fin (1/2)) (Fin (1/500)) (Fin (3/50)) = Inr demo_registry"
  by (simp add: demo_registry_def registry_init_def)

theorem assignments_refer_to_connected_devices_witness:
  "rg_left (state_after reg_step demo_registry [demo_scan, ReControl demo_set True]) = Some ''sm-1-1''
   \<and> is_connected (state_after reg_step demo_registry [demo_scan, ReControl demo_set True]) ''sm-1-1''"
proof
  show "rg_left (state_after reg_step demo_registry [demo_scan, ReControl demo_set True]) = Some ''sm-1-1''" by code_simp
  then show "is_connected (state_after reg_step demo_registry [demo_scan, ReControl demo_set True]) ''sm-1-1''"
    using assignments_refer_to_connected_devices [OF demo_registry_eq refl, of "[demo_scan, ReControl demo_set True]"] by simp
qed

theorem accepted_command_saw_current_devices_witness:
  "reg_view (state_after reg_step (state_after reg_step demo_registry [demo_scan]) [demo_scan])
     = reg_view (state_after reg_step demo_registry [demo_scan])"
proof -
  let ?s1 = "state_after reg_step demo_registry [demo_scan]"
  obtain s3 r where h: "handle_control (state_after reg_step ?s1 [demo_scan]) demo_set True = (s3, r)" by fastforce
  have "rg_generation (fst (handle_control (state_after reg_step ?s1 [demo_scan]) demo_set True))
      \<noteq> rg_generation (state_after reg_step ?s1 [demo_scan])" by code_simp
  then have "rg_generation s3 \<noteq> rg_generation (state_after reg_step ?s1 [demo_scan])" unfolding h by simp
  moreover have "dget demo_set ''status_generation'' = PInt (rg_generation ?s1)" by code_simp
  ultimately show ?thesis using accepted_command_saw_current_devices [OF refl _ h] by blast
qed

end
