(* ===== verification/DualSpaceMouse.thy ===== *)
theory DualSpaceMouse
  imports PoseTarget RotationMath SpaceMouseRegistry TeleopMux
begin

text \<open>
  \<^verbatim>\<open>policy_runner/action_sources/dual_spacemouse_pose_target.py\<close>: the teleop source that turns two
  SpaceMouse sticks into pose targets of the two arms, with its dead-man, start-up neutral gate, gripper
  buttons and the clamp of the target to the live pose. The state machine works on the program's floats;
  the pose arithmetic is over the reals, with \<open>real_of\<close> reading a finite number. A state message or a
  sample with an infinite or NaN number in the pose is outside the model where a pose is computed from it.
  What \<^verbatim>\<open>reader.read\<close> returns is an argument; the function \<open>fl\<close> that rounds a real to the
  double of the payload is a parameter.
\<close>

section \<open>Configuration\<close>

record DualConfig =
  dc_max_linear_step_m :: real
  dc_max_angular_step_rad :: real
  dc_max_target_lead_m :: real
  dc_max_target_lead_rad :: real
  dc_deadband :: pyfloat
  dc_activation_deadband :: pyfloat
  dc_response_curve_gamma :: real
  dc_linear_axis_signs :: "real \<times> real \<times> real"
  dc_angular_axis_signs :: "real \<times> real \<times> real"
  dc_angular_axis_order :: "int \<times> int \<times> int"
  dc_sample_stale_timeout_sec :: pyfloat
  dc_require_deadman :: bool
  dc_startup_requires_neutral :: bool
  dc_startup_neutral_hold_sec :: pyfloat
  dc_left_deadman_button :: int
  dc_right_deadman_button :: int
  dc_gripper_buttons_enable :: bool
  dc_gripper_open_button :: int
  dc_gripper_close_button :: int
  dc_gripper_open_percent :: pyfloat
  dc_gripper_close_percent :: pyfloat
  dc_timeout_sec :: pyfloat
  dc_requirements :: ActionRequirements

definition axis_signs :: "real list \<Rightarrow> string \<Rightarrow> (real \<times> real \<times> real) res" where
  "axis_signs signs label =
     (case signs of
        [a, b, c] \<Rightarrow> if list_all (\<lambda>x. x = -1 \<or> x = 1) signs then Inr (a, b, c)
                    else Inl (ValueError (label @ '' must be 3 entries of -1 or 1''))
      | _ \<Rightarrow> Inl (ValueError (label @ '' must be 3 entries of -1 or 1'')))"

text \<open>An entry is a name or an integer.\<close>

definition axis_index :: "string + int \<Rightarrow> int res" where
  "axis_index entry =
     (case entry of
        Inl name \<Rightarrow>
          (if py_lower name = ''rx'' then Inr 0 else if py_lower name = ''ry'' then Inr 1 else if py_lower name = ''rz'' then Inr 2
           else Inl (ValueError ''angular_axis_order entries must be rx/ry/rz or 0..2''))
      | Inr i \<Rightarrow> Inr i)"

definition angular_axis_order :: "(string + int) list \<Rightarrow> (int \<times> int \<times> int) res" where
  "angular_axis_order entries =
     res_bind (res_map axis_index entries) (\<lambda>indices.
       if sort indices \<noteq> [0, 1, 2] then Inl (ValueError ''angular_axis_order must be a permutation of rx/ry/rz'')
       else Inr (indices ! 0, indices ! 1, indices ! 2))"

section \<open>Side state\<close>

record SideState =
  sd_active :: bool
  sd_target_pose :: "pose6 option"
  sd_neutral_pose_sent :: bool
  sd_neutral_confirmed :: bool
  sd_neutral_since :: "pyfloat option"
  sd_last_buttons :: "bool list"

definition side_init :: SideState where
  "side_init = \<lparr>sd_active = False, sd_target_pose = None, sd_neutral_pose_sent = False, sd_neutral_confirmed = False,
     sd_neutral_since = None, sd_last_buttons = []\<rparr>"

definition side_reset_engagement :: "SideState \<Rightarrow> SideState" where
  "side_reset_engagement st = st\<lparr>sd_active := False, sd_target_pose := None, sd_neutral_pose_sent := False\<rparr>"

definition side_reset_all :: "SideState \<Rightarrow> SideState" where
  "side_reset_all st = (side_reset_engagement st)\<lparr>sd_neutral_confirmed := False, sd_neutral_since := None, sd_last_buttons := []\<rparr>"

record SideResult =
  sr_pose :: "pose6 option"
  sr_gripper_target :: "pyfloat option"
  sr_released :: bool
  sr_failure :: bool
  sr_failure_message :: "string option"

definition no_result :: SideResult where
  "no_result = \<lparr>sr_pose = None, sr_gripper_target = None, sr_released = False, sr_failure = False, sr_failure_message = None\<rparr>"

section \<open>Reading a sample\<close>

definition button_active :: "bool list \<Rightarrow> int \<Rightarrow> bool" where
  "button_active buttons button = (if int (length buttons) \<le> button then False else buttons ! nat button)"

definition deadman_active :: "SpaceMouseSample \<Rightarrow> int \<Rightarrow> bool" where
  "deadman_active m deadman_button = button_active (sm_buttons m) deadman_button"

definition raw_magnitude :: "SpaceMouseSample \<Rightarrow> pyfloat" where
  "raw_magnitude m = foldl pymax (fabs (sm_tx m)) (map fabs [sm_ty m, sm_tz m, sm_rx m, sm_ry m, sm_rz m])"

definition apply_soft_deadband :: "real \<Rightarrow> real \<Rightarrow> real \<Rightarrow> real" where
  "apply_soft_deadband v deadband gamma =
     (if \<bar>v\<bar> \<le> deadband then 0
      else let sign = (if v < 0 then -1 else 1);
               magnitude = max 0 (min 1 ((\<bar>v\<bar> - deadband) / max (1 / 10 ^ 12) (1 - deadband)))
           in sign * (magnitude powr gamma) * (1 - deadband))"

fun pick_axis :: "real \<times> real \<times> real \<Rightarrow> int \<Rightarrow> real" where
  "pick_axis (a, b, c) i = (if i = 0 then a else if i = 1 then b else c)"

definition pose_delta_from_sample :: "DualConfig \<Rightarrow> SpaceMouseSample \<Rightarrow> real list res" where
  "pose_delta_from_sample cfg m =
     (let (l0, l1, l2) = dc_linear_axis_signs cfg; (a0, a1, a2) = dc_angular_axis_signs cfg; (o0, o1, o2) = dc_angular_axis_order cfg;
          angular_sources = (real_of (sm_rx m), real_of (sm_ry m), real_of (sm_rz m));
          soft = (\<lambda>v. apply_soft_deadband v (real_of (dc_deadband cfg)) (dc_response_curve_gamma cfg));
          ml = dc_max_linear_step_m cfg; ma = dc_max_angular_step_rad cfg
      in clamp_pose_delta
           [soft (l0 * real_of (sm_tx m)) * ml, soft (l1 * real_of (sm_ty m)) * ml, soft (l2 * real_of (sm_tz m)) * ml,
            soft (a0 * pick_axis angular_sources o0) * ma, soft (a1 * pick_axis angular_sources o1) * ma,
            soft (a2 * pick_axis angular_sources o2) * ma] ml ma)"

definition gripper_target_from_buttons :: "DualConfig \<Rightarrow> SpaceMouseSample \<Rightarrow> SideState \<Rightarrow> SideState \<times> pyfloat option" where
  "gripper_target_from_buttons cfg m st =
     (if \<not> dc_gripper_buttons_enable cfg then (st, None)
      else let open_down = button_active (sm_buttons m) (dc_gripper_open_button cfg);
               close_down = button_active (sm_buttons m) (dc_gripper_close_button cfg);
               was_open_down = button_active (sd_last_buttons st) (dc_gripper_open_button cfg);
               was_close_down = button_active (sd_last_buttons st) (dc_gripper_close_button cfg)
           in (st\<lparr>sd_last_buttons := sm_buttons m\<rparr>,
               if open_down \<and> close_down then None
               else if open_down \<and> \<not> was_open_down then Some (dc_gripper_open_percent cfg)
               else if close_down \<and> \<not> was_close_down then Some (dc_gripper_close_percent cfg)
               else None))"

section \<open>The live pose\<close>

text \<open>\<^verbatim>\<open>isinstance(quat, Sequence) and len(quat) == 4\<close>: a list, or a string of four characters.\<close>

definition four_items :: "pyval \<Rightarrow> pyval list option" where
  "four_items v =
     (case v of
        PList xs \<Rightarrow> if length xs = 4 then Some xs else None
      | PStr s \<Rightarrow> if length s = 4 then Some (map (\<lambda>c. PStr [c]) s) else None
      | _ \<Rightarrow> None)"

text \<open>The numbers of a pose block: the position, whether the orientation is a quaternion, the orientation.\<close>

definition read_pose :: "pydict \<Rightarrow> (pyfloat list \<times> bool \<times> pyfloat list) res" where
  "read_pose raw =
     (let number = (\<lambda>(k, d). float_checked (dget_or raw k (PFloat (Fin d))))
      in res_bind (res_map number [(''x'', 0), (''y'', 0), (''z'', 0)]) (\<lambda>position.
         case four_items (dget raw ''quaternion_xyzw'') of
           Some items \<Rightarrow> res_bind (res_map float_checked items) (\<lambda>q. Inr (position, True, q))
         | None \<Rightarrow>
             if list_all (has_key raw) [''qx'', ''qy'', ''qz'', ''qw'']
               then res_bind (res_map number [(''qx'', 0), (''qy'', 0), (''qz'', 0), (''qw'', 1)]) (\<lambda>q. Inr (position, True, q))
             else res_bind (res_map number [(''rx'', 0), (''ry'', 0), (''rz'', 0)]) (\<lambda>r. Inr (position, False, r))))"

text \<open>\<^verbatim>\<open>math.cos\<close> of an infinite angle raises ValueError, which the code catches.\<close>

definition pose_from_mapping :: "pydict \<Rightarrow> pose6 option res" where
  "pose_from_mapping raw =
     (case read_pose raw of
        Inl (TypeError _) \<Rightarrow> Inr None
      | Inl (ValueError _) \<Rightarrow> Inr None
      | Inl e \<Rightarrow> Inl e
      | Inr (position, is_quat, orientation) \<Rightarrow>
          if \<not> is_quat \<and> list_ex (\<lambda>a. a = PInf \<or> a = NInf) orientation then Inr None
          else let p = map real_of position; a = map real_of orientation;
                   rotation = (if is_quat then quat_to_matrix (a ! 0, a ! 1, a ! 2, a ! 3) else rpy_to_matrix (a ! 0) (a ! 1) (a ! 2))
               in Inr (Some (mk_pose (p ! 0, p ! 1, p ! 2) (matrix_to_rpy rotation))))"

definition finite_block :: "pydict \<Rightarrow> bool" where
  "finite_block raw =
     (case read_pose raw of Inl _ \<Rightarrow> True | Inr (position, _, orientation) \<Rightarrow> list_all isfinite (position @ orientation))"

definition stand_block :: "StateSnapshot \<Rightarrow> string \<Rightarrow> pydict option" where
  "stand_block snapshot side =
     (case dget (payload snapshot) side of
        PDict arm \<Rightarrow> (case py_or (dget arm ''tcp_ref_stand'') (dget arm ''tcp_actual_stand'') of PDict raw \<Rightarrow> Some raw | _ \<Rightarrow> None)
      | _ \<Rightarrow> None)"

definition tcp_pose_stand :: "StateSnapshot \<Rightarrow> string \<Rightarrow> pose6 option res" where
  "tcp_pose_stand snapshot side = (case stand_block snapshot side of None \<Rightarrow> Inr None | Some raw \<Rightarrow> pose_from_mapping raw)"

section \<open>One side\<close>

text \<open>The dead-man, or the neutral gate where no dead-man is required: the state, and a result where the
  tick ends here.\<close>

definition neutral_gate :: "DualConfig \<Rightarrow> pyfloat \<Rightarrow> pyfloat \<Rightarrow> SideState \<Rightarrow> SideState" where
  "neutral_gate cfg raw_mag now st =
     (if \<not> dc_startup_requires_neutral cfg \<or> sd_neutral_confirmed st then st
      else if raw_mag \<le> dc_deadband cfg then
        (let since = (case sd_neutral_since st of None \<Rightarrow> now | Some t \<Rightarrow> t); st1 = st\<lparr>sd_neutral_since := Some since\<rparr>
         in if dc_startup_neutral_hold_sec cfg \<le> now - since then st1\<lparr>sd_neutral_confirmed := True\<rparr> else st1)
      else st\<lparr>sd_neutral_since := None\<rparr>)"

definition engagement_gate :: "DualConfig \<Rightarrow> int \<Rightarrow> SpaceMouseSample \<Rightarrow> pyfloat \<Rightarrow> SideState \<Rightarrow> SideState \<times> SideResult option" where
  "engagement_gate cfg deadman_button m now st =
     (if dc_require_deadman cfg then
        (if \<not> deadman_active m deadman_button then (side_reset_engagement st, Some (no_result\<lparr>sr_released := sd_active st\<rparr>)) else (st, None))
      else let raw_mag = raw_magnitude m; st1 = neutral_gate cfg raw_mag now st
           in if dc_startup_requires_neutral cfg \<and> \<not> sd_neutral_confirmed st1 then (st1, Some no_result)
              else if \<not> sd_active st1 \<and> raw_mag \<le> dc_activation_deadband cfg then (st1, Some no_result)
              else (st1, None))"

definition pose_step :: "DualConfig \<Rightarrow> SpaceMouseSample \<Rightarrow> pose6 option \<Rightarrow> SideState \<Rightarrow> (SideState \<times> SideResult) res" where
  "pose_step cfg m live st =
     (case live of
        None \<Rightarrow> Inr (side_reset_engagement st, no_result\<lparr>sr_released := sd_active st\<rparr>)
      | Some live_pose \<Rightarrow>
          (let anchor = (case sd_target_pose st of None \<Rightarrow> live_pose | Some p \<Rightarrow> p); st1 = st\<lparr>sd_target_pose := Some anchor\<rparr>
           in res_bind (pose_delta_from_sample cfg m) (\<lambda>delta.
              let has_delta = list_ex (\<lambda>v. v \<noteq> 0) delta in
              if \<not> sd_active st1 \<and> \<not> has_delta then Inr (st1, no_result)
              else if has_delta then
                (let target = clamp_target_lead (compose_local_delta anchor (list_to_pose delta)) live_pose
                                (dc_max_target_lead_m cfg) (dc_max_target_lead_rad cfg)
                 in Inr (st1\<lparr>sd_active := True, sd_neutral_pose_sent := False, sd_target_pose := Some target\<rparr>,
                         no_result\<lparr>sr_pose := Some target\<rparr>))
              else if sd_neutral_pose_sent st1 then Inr (side_reset_engagement st1, no_result\<lparr>sr_released := True\<rparr>)
              else Inr (st1\<lparr>sd_active := True, sd_neutral_pose_sent := True\<rparr>, no_result\<lparr>sr_pose := Some anchor\<rparr>))))"

definition target_from_reader :: "DualConfig \<Rightarrow> string \<Rightarrow> int \<Rightarrow> SideState \<Rightarrow> SpaceMouseSample option res \<Rightarrow> StateSnapshot \<Rightarrow> pyfloat
    \<Rightarrow> SideState \<times> SideResult res" where
  "target_from_reader cfg side deadman_button st outcome snapshot now =
     (case outcome of
        Inl e \<Rightarrow> (side_reset_all st, Inr (no_result\<lparr>sr_failure := True, sr_failure_message := Some (exc_str e)\<rparr>))
      | Inr None \<Rightarrow> if sd_active st then (side_reset_all st, Inr (no_result\<lparr>sr_released := True\<rparr>)) else (st, Inr no_result)
      | Inr (Some m) \<Rightarrow>
          if dc_sample_stale_timeout_sec cfg < now - sm_timestamp_monotonic m
            then (side_reset_all st, Inr (no_result\<lparr>sr_released := sd_active st\<rparr>))
          else
            (let (st1, g) = gripper_target_from_buttons cfg m st in
             case engagement_gate cfg deadman_button m now st1 of
               (st2, Some r) \<Rightarrow> (st2, Inr (r\<lparr>sr_gripper_target := g\<rparr>))
             | (st2, None) \<Rightarrow>
                 (case res_bind (tcp_pose_stand snapshot side) (\<lambda>live. pose_step cfg m live st2) of
                    Inl e \<Rightarrow> (st2, Inl e)
                  | Inr (st3, r) \<Rightarrow> (st3, Inr (r\<lparr>sr_gripper_target := g\<rparr>)))))"

section \<open>The source\<close>

record Dual =
  ds_config :: DualConfig
  ds_registry :: "Registry option"
  ds_assignment_hold_pending :: bool
  ds_left :: SideState
  ds_right :: SideState
  ds_failed :: bool
  ds_failure_message :: "string option"

text \<open>The arguments that are stored as they are come in \<open>cfg\<close>; the activation dead band, the axis signs and
  the axis order are separate.\<close>

definition check_dual_args :: "DualConfig \<Rightarrow> pyfloat option \<Rightarrow> unit res" where
  "check_dual_args cfg activation_deadband =
     (if dc_max_linear_step_m cfg < 0 then Inl (ValueError ''max_linear_step_m must be non-negative'')
      else if dc_max_angular_step_rad cfg < 0 then Inl (ValueError ''max_angular_step_rad must be non-negative'')
      else if dc_max_target_lead_m cfg < 0 then Inl (ValueError ''max_target_lead_m must be non-negative'')
      else if dc_max_target_lead_rad cfg < 0 then Inl (ValueError ''max_target_lead_rad must be non-negative'')
      else if dc_deadband cfg < Fin 0 then Inl (ValueError ''deadband must be non-negative'')
      else if dc_response_curve_gamma cfg < 1 then Inl (ValueError ''response_curve_gamma must be >= 1.0'')
      else if dc_sample_stale_timeout_sec cfg \<le> Fin 0 then Inl (ValueError ''sample_stale_timeout_sec must be positive'')
      else if (case activation_deadband of None \<Rightarrow> False | Some a \<Rightarrow> a < Fin 0) then Inl (ValueError ''activation_deadband must be non-negative'')
      else if dc_startup_neutral_hold_sec cfg < Fin 0 then Inl (ValueError ''startup_neutral_hold_sec must be non-negative'')
      else if dc_left_deadman_button cfg < 0 \<or> dc_right_deadman_button cfg < 0 then Inl (ValueError ''deadman buttons must be non-negative'')
      else if dc_gripper_open_button cfg < 0 \<or> dc_gripper_close_button cfg < 0 then Inl (ValueError ''gripper buttons must be non-negative'')
      else if dc_gripper_open_button cfg = dc_gripper_close_button cfg then Inl (ValueError ''gripper open and close buttons must differ'')
      else if \<not> (Fin 0 \<le> dc_gripper_open_percent cfg \<and> dc_gripper_open_percent cfg \<le> Fin 100)
        then Inl (ValueError ''gripper_open_percent must be in [0, 100]'')
      else if \<not> (Fin 0 \<le> dc_gripper_close_percent cfg \<and> dc_gripper_close_percent cfg \<le> Fin 100)
        then Inl (ValueError ''gripper_close_percent must be in [0, 100]'')
      else Inr ())"

definition dual_init :: "DualConfig \<Rightarrow> pyfloat option \<Rightarrow> real list \<Rightarrow> real list \<Rightarrow> (string + int) list \<Rightarrow> bool \<Rightarrow> Registry option \<Rightarrow> Dual res" where
  "dual_init cfg activation_deadband linear_signs angular_signs order allow_rbpodo registry =
     res_bind (check_dual_args cfg activation_deadband) (\<lambda>_.
     res_bind (axis_signs linear_signs ''linear_axis_signs'') (\<lambda>ls.
     res_bind (axis_signs angular_signs ''angular_axis_signs'') (\<lambda>as.
     res_bind (angular_axis_order order) (\<lambda>ord.
     Inr \<lparr>ds_config = cfg\<lparr>dc_activation_deadband := (case activation_deadband of Some a \<Rightarrow> a | None \<Rightarrow> dc_deadband cfg * Fin (3/2)),
            dc_linear_axis_signs := ls, dc_angular_axis_signs := as, dc_angular_axis_order := ord,
            dc_requirements := cartesian_action_requirements allow_rbpodo\<rparr>,
          ds_registry = registry, ds_assignment_hold_pending = False, ds_left = side_init, ds_right = side_init,
          ds_failed = False, ds_failure_message = None\<rparr>))))"

definition dual_engaged :: "Dual \<Rightarrow> bool" where
  "dual_engaged s = (sd_active (ds_left s) \<or> sd_active (ds_right s))"

definition dual_reset_engagement :: "Dual \<Rightarrow> Dual" where
  "dual_reset_engagement s = s\<lparr>ds_left := side_reset_engagement (ds_left s), ds_right := side_reset_engagement (ds_right s)\<rparr>"

definition dual_close :: "Dual \<Rightarrow> Dual" where
  "dual_close s = s\<lparr>ds_registry := map_option registry_close (ds_registry s)\<rparr>"

definition side_gate_status :: "DualConfig \<Rightarrow> SideState \<Rightarrow> pyfloat \<Rightarrow> pydict" where
  "side_gate_status cfg st now =
     (let elapsed = (case sd_neutral_since st of None \<Rightarrow> Fin 0 | Some t \<Rightarrow> pymax (Fin 0) (now - t));
          startup_blocked = (dc_startup_requires_neutral cfg \<and> \<not> sd_neutral_confirmed st)
      in [(''active'', PBool (sd_active st)), (''neutral_confirmed'', PBool (sd_neutral_confirmed st)),
          (''neutral_hold_elapsed_sec'', PFloat (pymin elapsed (dc_startup_neutral_hold_sec cfg))),
          (''startup_blocked'', PBool startup_blocked), (''gate'', PStr (if startup_blocked then ''startup_neutral'' else ''ready''))])"

definition dual_status :: "Dual \<Rightarrow> pyfloat \<Rightarrow> pyfloat \<Rightarrow> bool option \<Rightarrow> string \<Rightarrow> pyval" where
  "dual_status s reg_now now assignment_change_allowed block_reason =
     (case ds_registry s of
        None \<Rightarrow> PNone
      | Some r \<Rightarrow>
          (let allowed = (case assignment_change_allowed of None \<Rightarrow> \<not> dual_engaged s | Some a \<Rightarrow> a); cfg = ds_config s
           in PDict (dset (dset (registry_status r reg_now allowed block_reason)
                ''input_policy'' (PDict [(''require_deadman'', PBool (dc_require_deadman cfg)), (''deadband'', PFloat (dc_deadband cfg)),
                   (''activation_deadband'', PFloat (dc_activation_deadband cfg)),
                   (''sample_stale_timeout_sec'', PFloat (dc_sample_stale_timeout_sec cfg)),
                   (''startup_requires_neutral'', PBool (dc_startup_requires_neutral cfg)),
                   (''startup_neutral_hold_sec'', PFloat (dc_startup_neutral_hold_sec cfg))]))
                ''side_gates'' (PDict [(''left'', PDict (side_gate_status cfg (ds_left s) now)),
                   (''right'', PDict (side_gate_status cfg (ds_right s) now))]))))"

definition reset_sides :: "Dual \<Rightarrow> Dual" where
  "reset_sides s = s\<lparr>ds_left := side_reset_all (ds_left s), ds_right := side_reset_all (ds_right s)\<rparr>"

definition dual_handle_control :: "Dual \<Rightarrow> pydict \<Rightarrow> bool option \<Rightarrow> Dual \<times> bool res" where
  "dual_handle_control s msg assignment_change_allowed =
     (case ds_registry s of
        None \<Rightarrow> (s, Inr False)
      | Some r \<Rightarrow>
          (let allowed = (case assignment_change_allowed of None \<Rightarrow> \<not> dual_engaged s | Some a \<Rightarrow> a) in
           case handle_control r msg allowed of
             (r1, Inl e) \<Rightarrow> (s\<lparr>ds_registry := Some r1\<rparr>, Inl e)
           | (r1, Inr handled) \<Rightarrow>
               (let s1 = s\<lparr>ds_registry := Some r1\<rparr>
                in (if handled \<and> rg_last_result r1 = ''accepted''
                      then (reset_sides s1)\<lparr>ds_assignment_hold_pending := True\<rparr> else s1, Inr handled))))"

definition dual_metadata :: pydict where
  "dual_metadata = [(''action_source'', PStr ''dual_spacemouse_pose_target''), (''source_conditioning_mode'', PStr ''none'')]"

definition combine_sides :: "(real \<Rightarrow> pyfloat) \<Rightarrow> pyfloat \<Rightarrow> SideResult \<Rightarrow> SideResult \<Rightarrow> CommandIntent option res" where
  "combine_sides fl timeout left right =
     (if sr_pose left = None \<and> sr_pose right = None then
        (if sr_gripper_target left \<noteq> None \<or> sr_gripper_target right \<noteq> None
           then Inr (Some (intent_gripper_target (sr_gripper_target left) (sr_gripper_target right) timeout))
         else if sr_released left \<or> sr_released right then Inr (Some (intent_hold timeout))
         else Inr None)
      else res_bind (tcp_pose_target_stand_intent (pose_list fl (sr_pose left)) (pose_list fl (sr_pose right))
             (sr_gripper_target left) (sr_gripper_target right) timeout (Some ''spacemouse_precise'') (Some dual_metadata)) (\<lambda>i. Inr (Some i)))"

definition dual_next_intent :: "(real \<Rightarrow> pyfloat) \<Rightarrow> Dual \<Rightarrow> SpaceMouseSample option res \<Rightarrow> SpaceMouseSample option res
    \<Rightarrow> StateSnapshot \<Rightarrow> pyfloat \<Rightarrow> Dual \<times> CommandIntent option res" where
  "dual_next_intent fl s left_read right_read snapshot now =
     (let cfg = ds_config s; timeout = dc_timeout_sec cfg in
      if ds_assignment_hold_pending s
        then (reset_sides (s\<lparr>ds_assignment_hold_pending := False\<rparr>), Inr (Some (intent_hold timeout)))
      else
        (let s0 = s\<lparr>ds_failed := False, ds_failure_message := None\<rparr> in
         case target_from_reader cfg ''left'' (dc_left_deadman_button cfg) (ds_left s) left_read snapshot now of
           (l, Inl e) \<Rightarrow> (s0\<lparr>ds_left := l\<rparr>, Inl e)
         | (l, Inr left) \<Rightarrow>
             (case target_from_reader cfg ''right'' (dc_right_deadman_button cfg) (ds_right s) right_read snapshot now of
                (r, Inl e) \<Rightarrow> (s0\<lparr>ds_left := l, ds_right := r\<rparr>, Inl e)
              | (r, Inr right) \<Rightarrow>
                  (let s1 = s0\<lparr>ds_left := l, ds_right := r\<rparr> in
                   if sr_failure left \<or> sr_failure right
                     then (s1\<lparr>ds_failed := True,
                              ds_failure_message := (if sr_failure_message left \<notin> {None, Some []} then sr_failure_message left
                                                     else sr_failure_message right)\<rparr>, Inr (Some (intent_hold timeout)))
                   else (s1, combine_sides fl timeout left right)))))"

text \<open>The source as the multiplexer sees it, with the readers of the device registry.\<close>

definition registry_read :: "Dual \<Rightarrow> string \<Rightarrow> SpaceMouseSample option res" where
  "registry_read s arm = (case ds_registry s of None \<Rightarrow> Inr None | Some r \<Rightarrow> sample_for_arm r arm)"

definition dual_ops :: "(real \<Rightarrow> pyfloat) \<Rightarrow> pyfloat \<Rightarrow> Dual SpaceMouseOps" where
  "dual_ops fl status_now =
     \<lparr>so_next_intent = (\<lambda>s snapshot now. dual_next_intent fl s (registry_read s ''left'') (registry_read s ''right'') snapshot now),
      so_engaged = dual_engaged, so_reset_engagement = dual_reset_engagement, so_failed = ds_failed,
      so_timeout_sec = (\<lambda>s. dc_timeout_sec (ds_config s)), so_requirements = (\<lambda>s. dc_requirements (ds_config s)),
      so_handle_control = (\<lambda>s msg allowed. dual_handle_control s msg (Some allowed)),
      so_status = (\<lambda>s allowed reason. dual_status s status_now status_now (Some allowed) reason),
      so_close = (\<lambda>s. (dual_close s, Inr ()))\<rparr>"

section \<open>What a tick of one side does\<close>

definition sample_stale :: "DualConfig \<Rightarrow> SpaceMouseSample \<Rightarrow> pyfloat \<Rightarrow> bool" where
  "sample_stale cfg m now = (dc_sample_stale_timeout_sec cfg < now - sm_timestamp_monotonic m)"

definition neutral_view :: "SideState \<Rightarrow> pyfloat option \<times> bool" where
  "neutral_view st = (sd_neutral_since st, sd_neutral_confirmed st)"

lemma neutral_view_simps [simp]:
  "neutral_view (side_reset_engagement st) = neutral_view st" "neutral_view (side_reset_all st) = (None, False)"
  "neutral_view (st\<lparr>sd_last_buttons := bs\<rparr>) = neutral_view st"
  by (simp_all add: neutral_view_def side_reset_engagement_def side_reset_all_def)

lemma buttons_keep [simp]:
  "neutral_view (fst (gripper_target_from_buttons cfg m st)) = neutral_view st"
  "sd_active (fst (gripper_target_from_buttons cfg m st)) = sd_active st"
  "sd_target_pose (fst (gripper_target_from_buttons cfg m st)) = sd_target_pose st"
  "sd_neutral_pose_sent (fst (gripper_target_from_buttons cfg m st)) = sd_neutral_pose_sent st"
  by (simp_all add: gripper_target_from_buttons_def Let_def)

lemma neutral_gate_view:
  "neutral_view st = neutral_view st' \<Longrightarrow> neutral_view (neutral_gate cfg mag now st) = neutral_view (neutral_gate cfg mag now st')"
  by (auto simp: neutral_gate_def neutral_view_def Let_def split: option.splits)

lemma neutral_gate_keep [simp]:
  "sd_active (neutral_gate cfg mag now st) = sd_active st"
  "sd_target_pose (neutral_gate cfg mag now st) = sd_target_pose st"
  "sd_neutral_pose_sent (neutral_gate cfg mag now st) = sd_neutral_pose_sent st"
  by (simp_all add: neutral_gate_def Let_def)

lemma engagement_gate_view:
  "neutral_view (fst (engagement_gate cfg b m now st)) =
     (if dc_require_deadman cfg then neutral_view st else neutral_view (neutral_gate cfg (raw_magnitude m) now st))"
  by (simp add: engagement_gate_def Let_def)

lemma engagement_gate_pose: "engagement_gate cfg b m now st = (st', Some r) \<Longrightarrow> sr_pose r = None"
  by (auto simp: engagement_gate_def Let_def no_result_def split: if_splits)

lemma engagement_gate_open:
  assumes "engagement_gate cfg b m now st = (st', None)"
  shows "if dc_require_deadman cfg then deadman_active m b else dc_startup_requires_neutral cfg \<longrightarrow> sd_neutral_confirmed st'"
    and "sd_active st' = sd_active st" and "sd_target_pose st' = sd_target_pose st" and "sd_neutral_pose_sent st' = sd_neutral_pose_sent st"
  using assms by (auto simp: engagement_gate_def Let_def split: if_splits)

lemma delta_total: "\<exists>d. pose_delta_from_sample cfg m = Inr d \<and> length d = 6"
  by (simp add: pose_delta_from_sample_def clamp_pose_delta_six Let_def split: prod.split)

text \<open>Where a pose comes from: the clamped step from the anchor, or the last target once more.\<close>

definition anchor_of :: "SideState \<Rightarrow> pose6 \<Rightarrow> pose6" where
  "anchor_of st live = (case sd_target_pose st of None \<Rightarrow> live | Some p \<Rightarrow> p)"

definition stepped_target :: "DualConfig \<Rightarrow> SpaceMouseSample \<Rightarrow> pose6 \<Rightarrow> pose6 \<Rightarrow> pose6" where
  "stepped_target cfg m anchor live =
     (case pose_delta_from_sample cfg m of
        Inl _ \<Rightarrow> anchor
      | Inr d \<Rightarrow> clamp_target_lead (compose_local_delta anchor (list_to_pose d)) live (dc_max_target_lead_m cfg) (dc_max_target_lead_rad cfg))"

lemma pose_step_view:
  "pose_step cfg m live st = Inr (st', r) \<Longrightarrow> neutral_view st' = neutral_view st"
  using delta_total [of cfg m]
  by (auto simp: pose_step_def neutral_view_def side_reset_engagement_def Let_def split: option.splits if_splits)

lemma pose_step_pose:
  assumes "pose_step cfg m live st = Inr (st', r)" and "sr_pose r = Some p"
  shows "sd_active st' \<and> sd_target_pose st' = Some p \<and>
    (\<exists>l. live = Some l \<and> (p = stepped_target cfg m (anchor_of st l) l \<or> sd_active st \<and> p = anchor_of st l))"
proof -
  obtain d where d: "pose_delta_from_sample cfg m = Inr d" using delta_total by blast
  show ?thesis using assms
    by (auto simp: pose_step_def d no_result_def side_reset_engagement_def anchor_of_def stepped_target_def Let_def split: option.splits if_splits)
qed

lemma pose_step_total: "\<exists>st' r. pose_step cfg m live st = Inr (st', r)"
  using delta_total [of cfg m] by (auto simp: pose_step_def Let_def split: option.splits)

lemma pose_step_failure: "pose_step cfg m live st = Inr (st', r) \<Longrightarrow> \<not> sr_failure r"
  using delta_total [of cfg m] by (auto simp: pose_step_def no_result_def Let_def split: option.splits if_splits)

lemma target_view:
  "neutral_view (fst (target_from_reader cfg side b st outcome snapshot now)) =
     (case outcome of
        Inl _ \<Rightarrow> (None, False)
      | Inr None \<Rightarrow> if sd_active st then (None, False) else neutral_view st
      | Inr (Some m) \<Rightarrow>
          if sample_stale cfg m now then (None, False)
          else if dc_require_deadman cfg then neutral_view st
          else neutral_view (neutral_gate cfg (raw_magnitude m) now st))"
proof -
  have live: "neutral_view (fst (target_from_reader cfg side b st (Inr (Some m)) snapshot now)) =
      (if dc_require_deadman cfg then neutral_view st else neutral_view (neutral_gate cfg (raw_magnitude m) now st))"
    if fresh: "\<not> sample_stale cfg m now" for m
  proof -
    obtain st1 g where g: "gripper_target_from_buttons cfg m st = (st1, g)" by fastforce
    obtain st2 q where e: "engagement_gate cfg b m now st1 = (st2, q)" by fastforce
    have v: "neutral_view st1 = neutral_view st" using buttons_keep(1) [of cfg m st] by (simp add: g)
    then have "neutral_view st2 = (if dc_require_deadman cfg then neutral_view st else neutral_view (neutral_gate cfg (raw_magnitude m) now st))"
      using engagement_gate_view [of cfg b m now st1] neutral_gate_view [OF v] by (simp add: e)
    moreover have "neutral_view (fst (target_from_reader cfg side b st (Inr (Some m)) snapshot now)) = neutral_view st2"
      using fresh pose_step_total [of cfg m _ st2]
      by (auto simp: target_from_reader_def sample_stale_def g e res_bind_def pose_step_view split: option.splits sum.splits)
    ultimately show ?thesis by simp
  qed
  show ?thesis
    using live by (auto simp: target_from_reader_def sample_stale_def split: sum.split option.split)
qed

text \<open>A side that emits a pose has a fresh sample and permission, knows the live pose and is engaged.\<close>

lemma target_pose:
  assumes "target_from_reader cfg side b st outcome snapshot now = (st', Inr r)" and "sr_pose r = Some p"
  obtains m live where "outcome = Inr (Some m)" and "\<not> sample_stale cfg m now"
    and "if dc_require_deadman cfg then deadman_active m b else dc_startup_requires_neutral cfg \<longrightarrow> sd_neutral_confirmed st'"
    and "tcp_pose_stand snapshot side = Inr (Some live)" and "sd_active st'" and "sd_target_pose st' = Some p"
    and "p = stepped_target cfg m (anchor_of st live) live \<or> sd_active st \<and> p = anchor_of st live"
proof -
  obtain m where m: "outcome = Inr (Some m)" and fresh: "\<not> sample_stale cfg m now"
    using assms by (auto simp: target_from_reader_def sample_stale_def no_result_def split: sum.splits option.splits if_splits)
  obtain st1 g where g: "gripper_target_from_buttons cfg m st = (st1, g)" by fastforce
  obtain st2 q where e: "engagement_gate cfg b m now st1 = (st2, q)" by fastforce
  have q: "q = None"
    using assms fresh engagement_gate_pose [of cfg b m now st1 st2]
    by (auto simp: m target_from_reader_def sample_stale_def g e no_result_def split: option.splits)
  obtain live r' where t: "tcp_pose_stand snapshot side = Inr live" and ps: "pose_step cfg m live st2 = Inr (st', r')"
    and r: "r = r'\<lparr>sr_gripper_target := g\<rparr>"
    using assms(1) fresh by (auto simp: m target_from_reader_def sample_stale_def g e q res_bind_def split: sum.splits)
  have "sr_pose r' = Some p" using assms(2) r by simp
  from pose_step_pose [OF ps this] obtain l where P: "sd_active st'" "sd_target_pose st' = Some p" "live = Some l"
      "p = stepped_target cfg m (anchor_of st2 l) l \<or> sd_active st2 \<and> p = anchor_of st2 l" by blast
  have same: "sd_active st2 = sd_active st" "anchor_of st2 l = anchor_of st l"
    using engagement_gate_open(2,3) [OF e [unfolded q]] buttons_keep(2,3) [of cfg m st] by (simp_all add: g anchor_of_def)
  have "neutral_view st' = neutral_view st2" by (rule pose_step_view [OF ps])
  then have "if dc_require_deadman cfg then deadman_active m b else dc_startup_requires_neutral cfg \<longrightarrow> sd_neutral_confirmed st'"
    using engagement_gate_open(1) [OF e [unfolded q]] by (simp add: neutral_view_def)
  with that m fresh t P same show ?thesis by simp
qed

section \<open>The history of one side\<close>

datatype SideEvent =
    SeTick "SpaceMouseSample option res" StateSnapshot pyfloat
  | SeResetAll
  | SeResetEngagement

fun side_step :: "DualConfig \<Rightarrow> string \<Rightarrow> int \<Rightarrow> SideState \<Rightarrow> SideEvent \<Rightarrow> SideState \<times> SideResult res" where
  "side_step cfg side b st (SeTick outcome snapshot now) = target_from_reader cfg side b st outcome snapshot now"
| "side_step cfg side b st SeResetAll = (side_reset_all st, Inr no_result)"
| "side_step cfg side b st SeResetEngagement = (side_reset_engagement st, Inr no_result)"

text \<open>A tick with the stick in the dead band; the events that do not interrupt a neutral hold; the events that
  do not revoke it.\<close>

fun neutral_tick :: "DualConfig \<Rightarrow> SideEvent \<Rightarrow> bool" where
  "neutral_tick cfg (SeTick (Inr (Some m)) _ now) = (\<not> sample_stale cfg m now \<and> raw_magnitude m \<le> dc_deadband cfg)"
| "neutral_tick cfg _ = False"

fun no_sample :: "SideEvent \<Rightarrow> bool" where
  "no_sample (SeTick (Inr None) _ _) = True"
| "no_sample (SeTick _ _ _) = False"
| "no_sample SeResetAll = False"
| "no_sample SeResetEngagement = True"

fun calm :: "DualConfig \<Rightarrow> SideEvent \<Rightarrow> bool" where
  "calm cfg (SeTick (Inr (Some m)) _ now) = (\<not> sample_stale cfg m now)"
| "calm cfg e = no_sample e"

fun event_time :: "SideEvent \<Rightarrow> pyfloat" where
  "event_time (SeTick _ _ now) = now"
| "event_time _ = NaN"

definition neutral_stretch :: "DualConfig \<Rightarrow> SideEvent list \<Rightarrow> bool" where
  "neutral_stretch cfg w = (w \<noteq> [] \<and> neutral_tick cfg (hd w) \<and> list_all (\<lambda>e. neutral_tick cfg e \<or> no_sample e) w)"

definition held_neutral :: "DualConfig \<Rightarrow> SideEvent list \<Rightarrow> bool" where
  "held_neutral cfg h =
     (\<exists>pre w post. h = pre @ w @ post \<and> neutral_stretch cfg w \<and> neutral_tick cfg (last w)
        \<and> dc_startup_neutral_hold_sec cfg \<le> event_time (last w) - event_time (hd w) \<and> list_all (calm cfg) post)"

definition side_inv :: "DualConfig \<Rightarrow> SideEvent list \<Rightarrow> SideState \<Rightarrow> bool" where
  "side_inv cfg h st =
     ((dc_require_deadman cfg \<or> \<not> dc_startup_requires_neutral cfg \<longrightarrow> neutral_view st = (None, False))
      \<and> (sd_neutral_confirmed st \<longrightarrow> held_neutral cfg h)
      \<and> (\<forall>t. neutral_view st = (Some t, False) \<longrightarrow>
           (\<exists>pre w. h = pre @ w \<and> neutral_stretch cfg w \<and> event_time (hd w) = t)))"

lemma held_neutral_snoc:
  assumes "held_neutral cfg h" and "calm cfg e"
  shows "held_neutral cfg (h @ [e])"
proof -
  obtain pre w post where h: "h = pre @ w @ post" "neutral_stretch cfg w" "neutral_tick cfg (last w)"
    "dc_startup_neutral_hold_sec cfg \<le> event_time (last w) - event_time (hd w)" "list_all (calm cfg) post"
    using assms(1) unfolding held_neutral_def by blast
  then show ?thesis unfolding held_neutral_def using assms(2)
    by (intro exI [of _ pre] exI [of _ w] exI [of _ "post @ [e]"]) simp
qed

lemma stretch_snoc: "neutral_stretch cfg w \<Longrightarrow> neutral_tick cfg e \<or> no_sample e \<Longrightarrow> neutral_stretch cfg (w @ [e])"
  by (auto simp: neutral_stretch_def)

lemma stretch_single: "neutral_tick cfg e \<Longrightarrow> neutral_stretch cfg [e]"
  by (simp add: neutral_stretch_def)

lemma neutral_is_calm: "neutral_tick cfg e \<or> no_sample e \<Longrightarrow> calm cfg e"
  by (cases "(cfg, e)" rule: calm.cases) auto

lemma side_inv_cleared: "neutral_view st = (None, False) \<Longrightarrow> side_inv cfg h st"
  by (simp add: side_inv_def neutral_view_def)

text \<open>An event that leaves the neutral gate alone and does not interrupt a hold keeps the invariant.\<close>

lemma side_inv_kept:
  assumes inv: "side_inv cfg h st" and "neutral_view st' = neutral_view st" and "calm cfg e"
    and quiet: "\<And>t. neutral_view st = (Some t, False) \<Longrightarrow> neutral_tick cfg e \<or> no_sample e"
  shows "side_inv cfg (h @ [e]) st'"
proof -
  have conf: "sd_neutral_confirmed st' \<Longrightarrow> held_neutral cfg (h @ [e])"
    using inv assms(2,3) held_neutral_snoc by (simp add: side_inv_def neutral_view_def)
  have "\<exists>pre w. h @ [e] = pre @ w \<and> neutral_stretch cfg w \<and> event_time (hd w) = t" if t: "neutral_view st' = (Some t, False)" for t
  proof -
    from t inv assms(2) obtain pre w where w: "h = pre @ w" "neutral_stretch cfg w" "event_time (hd w) = t" by (auto simp: side_inv_def)
    moreover have "neutral_stretch cfg (w @ [e])" using stretch_snoc [OF w(2) quiet [of t]] t assms(2) by simp
    moreover have "hd (w @ [e]) = hd w" using w(2) by (simp add: neutral_stretch_def)
    ultimately show ?thesis by (intro exI [of _ pre] exI [of _ "w @ [e]"]) simp
  qed
  with conf inv assms(2) show ?thesis by (simp add: side_inv_def)
qed

lemma gate_inv:
  assumes inv: "side_inv cfg h st" and e: "e = SeTick (Inr (Some m)) snapshot now" and fresh: "\<not> sample_stale cfg m now"
    and gate: "\<not> dc_require_deadman cfg" and v: "neutral_view st' = neutral_view (neutral_gate cfg (raw_magnitude m) now st)"
  shows "side_inv cfg (h @ [e]) st'"
proof -
  have calm: "calm cfg e" using fresh by (simp add: e)
  consider (off) "\<not> dc_startup_requires_neutral cfg" | (passed) "dc_startup_requires_neutral cfg" "sd_neutral_confirmed st"
    | (moving) "dc_startup_requires_neutral cfg" "\<not> sd_neutral_confirmed st" "\<not> raw_magnitude m \<le> dc_deadband cfg"
    | (still) "dc_startup_requires_neutral cfg" "\<not> sd_neutral_confirmed st" "raw_magnitude m \<le> dc_deadband cfg" by blast
  then show ?thesis
  proof cases
    case off
    then have "neutral_view st = (None, False)" using inv by (simp add: side_inv_def)
    then show ?thesis using off v by (intro side_inv_cleared) (simp add: neutral_gate_def)
  next
    case passed
    then have "neutral_view st' = neutral_view st" using v by (simp add: neutral_gate_def)
    then show ?thesis using passed by (intro side_inv_kept [OF inv _ calm]) (simp_all add: neutral_view_def)
  next
    case moving
    then show ?thesis using v by (intro side_inv_cleared) (simp add: neutral_gate_def neutral_view_def)
  next
    case still
    have tick: "neutral_tick cfg e" using fresh still by (simp add: e)
    define since where "since = (case sd_neutral_since st of None \<Rightarrow> now | Some t \<Rightarrow> t)"
    have v': "neutral_view st' = (Some since, dc_startup_neutral_hold_sec cfg \<le> now - since)"
      using v still by (simp add: neutral_gate_def neutral_view_def since_def Let_def)
    obtain pre w where w: "h @ [e] = pre @ w" "neutral_stretch cfg w" "last w = e" "event_time (hd w) = since"
    proof (cases "sd_neutral_since st")
      case None
      then show ?thesis using that [of h "[e]"] stretch_single [OF tick] by (simp add: e since_def)
    next
      case (Some t)
      then obtain pre w where "h = pre @ w" "neutral_stretch cfg w" "event_time (hd w) = t"
        using inv still by (auto simp: side_inv_def neutral_view_def)
      then show ?thesis using that [of pre "w @ [e]"] stretch_snoc [of cfg w e] tick Some
        by (simp add: since_def neutral_stretch_def)
    qed
    have "held_neutral cfg (h @ [e])" if "dc_startup_neutral_hold_sec cfg \<le> now - since"
    proof -
      have "event_time (last w) = now" using w(3) by (simp add: e)
      with w tick that show ?thesis unfolding held_neutral_def
        by (intro exI [of _ pre] exI [of _ w] exI [of _ "[]"]) simp
    qed
    with v' w gate still(1) show ?thesis by (auto simp: side_inv_def neutral_view_def)
  qed
qed

lemma side_inv_step: "side_inv cfg h st \<Longrightarrow> side_inv cfg (h @ [e]) (fst (side_step cfg side b st e))"
proof (cases e)
  case SeResetAll
  then show ?thesis by (simp add: side_inv_cleared)
next
  case SeResetEngagement
  assume "side_inv cfg h st"
  then show ?thesis unfolding SeResetEngagement by (rule side_inv_kept) simp_all
next
  case (SeTick outcome snapshot now)
  assume inv: "side_inv cfg h st"
  let ?st' = "fst (target_from_reader cfg side b st outcome snapshot now)"
  note view = target_view [of cfg side b st outcome snapshot now]
  consider (error) x where "outcome = Inl x" | (none) "outcome = Inr None" | (sample) m where "outcome = Inr (Some m)"
    by (metis option.exhaust sum.exhaust)
  then have "side_inv cfg (h @ [e]) ?st'"
  proof cases
    case error
    then show ?thesis using view by (intro side_inv_cleared) simp
  next
    case none
    show ?thesis
    proof (cases "sd_active st")
      case True
      then show ?thesis using view none by (intro side_inv_cleared) simp
    next
      case False
      then show ?thesis using view none by (intro side_inv_kept [OF inv]) (simp_all add: SeTick)
    qed
  next
    case (sample m)
    consider "sample_stale cfg m now" | "\<not> sample_stale cfg m now" "dc_require_deadman cfg" | "\<not> sample_stale cfg m now" "\<not> dc_require_deadman cfg" by blast
    then show ?thesis
    proof cases
      case 1
      then show ?thesis using view sample by (intro side_inv_cleared) simp
    next
      case 2
      then have "neutral_view st = (None, False)" using inv by (simp add: side_inv_def)
      then show ?thesis using view sample 2 by (intro side_inv_cleared) simp
    next
      case 3
      then show ?thesis using view sample by (intro gate_inv [OF inv _ 3]) (simp_all add: SeTick)
    qed
  qed
  then show ?thesis by (simp add: SeTick)
qed

interpretation dual_side: history_machine "side_step cfg side b" side_init "side_inv cfg" for cfg side b
  by unfold_locales (simp add: side_inv_cleared neutral_view_def side_init_def, rule side_inv_step)

section \<open>Runs of the source\<close>

datatype DualEvent =
    DeTick "SpaceMouseSample option res" "SpaceMouseSample option res" StateSnapshot pyfloat
  | DeControl pydict "bool option"
  | DeReset
  | DeRegistry RegEvent

fun dual_step :: "(real \<Rightarrow> pyfloat) \<Rightarrow> Dual \<Rightarrow> DualEvent \<Rightarrow> Dual \<times> CommandIntent option res" where
  "dual_step fl s (DeTick left_read right_read snapshot now) = dual_next_intent fl s left_read right_read snapshot now"
| "dual_step fl s (DeControl msg permit) = (fst (dual_handle_control s msg permit), Inr None)"
| "dual_step fl s DeReset = (dual_reset_engagement s, Inr None)"
| "dual_step fl s (DeRegistry e) = (s\<lparr>ds_registry := map_option (\<lambda>r. fst (reg_step r e)) (ds_registry s)\<rparr>, Inr None)"

definition ds_side :: "bool \<Rightarrow> Dual \<Rightarrow> SideState" where
  "ds_side left s = (if left then ds_left s else ds_right s)"

definition side_button :: "bool \<Rightarrow> DualConfig \<Rightarrow> int" where
  "side_button left cfg = (if left then dc_left_deadman_button cfg else dc_right_deadman_button cfg)"

definition side_name :: "bool \<Rightarrow> string" where
  "side_name left = (if left then ''left'' else ''right'')"

text \<open>What an event of the source is for one of its sides. When the left side raises, the right is not polled.\<close>

definition left_raises :: "Dual \<Rightarrow> SpaceMouseSample option res \<Rightarrow> StateSnapshot \<Rightarrow> pyfloat \<Rightarrow> bool" where
  "left_raises s left_read snapshot now =
     (case snd (target_from_reader (ds_config s) ''left'' (dc_left_deadman_button (ds_config s)) (ds_left s) left_read snapshot now) of
        Inl _ \<Rightarrow> True | Inr _ \<Rightarrow> False)"

definition control_accepted :: "Dual \<Rightarrow> pydict \<Rightarrow> bool option \<Rightarrow> bool" where
  "control_accepted s msg permit =
     (case dual_handle_control s msg permit of
        (s1, Inr True) \<Rightarrow> (case ds_registry s1 of None \<Rightarrow> False | Some r \<Rightarrow> rg_last_result r = ''accepted'')
      | _ \<Rightarrow> False)"

fun side_events :: "bool \<Rightarrow> Dual \<Rightarrow> DualEvent \<Rightarrow> SideEvent list" where
  "side_events left s (DeTick left_read right_read snapshot now) =
     (if ds_assignment_hold_pending s then [SeResetAll]
      else if left then [SeTick left_read snapshot now]
      else if left_raises s left_read snapshot now then [] else [SeTick right_read snapshot now])"
| "side_events left s (DeControl msg permit) =
     (if control_accepted s msg permit then [SeResetAll] else [])"
| "side_events left s DeReset = [SeResetEngagement]"
| "side_events left s (DeRegistry e) = []"

fun side_history :: "(real \<Rightarrow> pyfloat) \<Rightarrow> bool \<Rightarrow> Dual \<Rightarrow> DualEvent list \<Rightarrow> SideEvent list" where
  "side_history fl left s [] = []"
| "side_history fl left s (e # es) = side_events left s e @ side_history fl left (fst (dual_step fl s e)) es"

lemma dual_config_kept: "ds_config (fst (dual_step fl s e)) = ds_config s"
proof (cases e)
  case (DeControl msg permit)
  then show ?thesis
    by (auto simp: dual_handle_control_def reset_sides_def Let_def split: option.split sum.split prod.split)
next
  case (DeTick l r snapshot now)
  then show ?thesis
    by (auto simp: dual_next_intent_def reset_sides_def Let_def split: sum.split prod.split)
qed (simp_all add: dual_reset_engagement_def)

lemma control_sides:
  "ds_side left (fst (dual_handle_control s msg permit)) =
     state_after (side_step cfg side b) (ds_side left s) (side_events left s (DeControl msg permit))"
  by (auto simp: control_accepted_def dual_handle_control_def ds_side_def reset_sides_def Let_def split: option.split sum.split prod.split bool.split)

lemma tick_sides:
  "ds_side left (fst (dual_next_intent fl s l r snapshot now)) =
     state_after (side_step (ds_config s) (side_name left) (side_button left (ds_config s))) (ds_side left s) (side_events left s (DeTick l r snapshot now))"
  by (auto simp: dual_next_intent_def ds_side_def reset_sides_def side_name_def side_button_def left_raises_def Let_def
      split: sum.split prod.split)

text \<open>A run of the source is a run of each side.\<close>

lemma dual_sides_step:
  "ds_side left (fst (dual_step fl s e)) =
     state_after (side_step (ds_config s) (side_name left) (side_button left (ds_config s))) (ds_side left s) (side_events left s e)"
proof (cases e)
  case (DeControl msg permit)
  then show ?thesis by (simp only: dual_step.simps fst_conv control_sides)
next
  case (DeTick l r snapshot now)
  then show ?thesis by (simp only: dual_step.simps tick_sides)
qed (simp_all add: dual_reset_engagement_def ds_side_def)

lemma dual_sides_run:
  "ds_config (state_after (dual_step fl) s es) = ds_config s
   \<and> ds_side left (state_after (dual_step fl) s es) =
       state_after (side_step (ds_config s) (side_name left) (side_button left (ds_config s))) (ds_side left s) (side_history fl left s es)"
proof (induction es arbitrary: s)
  case (Cons e es)
  show ?case using Cons [of "fst (dual_step fl s e)"] dual_sides_step [of left fl s e]
    by (simp add: dual_config_kept state_after_append)
qed simp

lemma side_history_snoc:
  "side_history fl left s (es @ [e]) = side_history fl left s es @ side_events left (state_after (dual_step fl) s es) e"
  by (induction es arbitrary: s) simp_all

definition arm_payload_of :: "bool \<Rightarrow> CommandIntent \<Rightarrow> pydict option" where
  "arm_payload_of left i = (if left then ci_left i else ci_right i)"

lemma payload_mode:
  assumes "pose_target_arm_payload pose g = Inr d" and "arm_mode (Some d) = Some ''TcpPoseTarget''"
  shows "pose \<noteq> None" and "length (the pose) = 6 \<Longrightarrow> dget d ''tcp_target_stand'' = PList (map PFloat (the pose))"
  using assms
  by (auto simp: pose_target_arm_payload_def arm_mode_def dget_or_def py_str_def Let_def split: option.splits if_splits)

lemma combine_pose:
  assumes "combine_sides fl timeout l r = Inr (Some i)" and mode: "arm_mode (arm_payload_of left i) = Some ''TcpPoseTarget''"
  obtains p where "sr_pose (if left then l else r) = Some p"
    and "\<exists>d. arm_payload_of left i = Some d \<and> dget d ''tcp_target_stand'' = PList (map PFloat (the (pose_list fl (Some p))))"
proof (cases "sr_pose l = None \<and> sr_pose r = None")
  case True
  then have "False" using assms
    by (auto simp: combine_sides_def intent_gripper_target_def intent_hold_def intent_of_def gripper_arm_def arm_mode_def arm_payload_of_def
        dget_or_def py_str_def Let_def split: if_splits option.splits)
  then show ?thesis ..
next
  case False
  let ?res = "if left then l else r"
  obtain a b where ab: "pose_target_arm_payload (pose_list fl (sr_pose l)) (sr_gripper_target l) = Inr a"
      "pose_target_arm_payload (pose_list fl (sr_pose r)) (sr_gripper_target r) = Inr b" "ci_left i = Some a" "ci_right i = Some b"
  proof -
    have "\<exists>a b. pose_target_arm_payload (pose_list fl (sr_pose l)) (sr_gripper_target l) = Inr a
        \<and> pose_target_arm_payload (pose_list fl (sr_pose r)) (sr_gripper_target r) = Inr b \<and> ci_left i = Some a \<and> ci_right i = Some b"
      using assms(1) False unfolding combine_sides_def tcp_pose_target_stand_intent_def
      by (auto simp: res_bind_Inr_iff intent_of_def simp del: split_paired_Ex split_paired_All)
    with that show ?thesis by blast
  qed
  then obtain d where d: "arm_payload_of left i = Some d" "pose_target_arm_payload (pose_list fl (sr_pose ?res)) (sr_gripper_target ?res) = Inr d"
    by (cases left) (auto simp: arm_payload_of_def)
  have P: "pose_list fl (sr_pose ?res) \<noteq> None" using payload_mode(1) [OF d(2)] mode d(1) by simp
  then obtain p where p: "sr_pose ?res = Some p" by (cases "sr_pose ?res") (simp_all add: pose_list_def)
  have "length (the (pose_list fl (Some p))) = 6" by (cases p) (simp add: pose_list_def)
  with payload_mode(2) [OF d(2)] mode d(1) p have "dget d ''tcp_target_stand'' = PList (map PFloat (the (pose_list fl (Some p))))" by simp
  with p d(1) that show ?thesis by blast
qed

lemma tick_pose:
  assumes "dual_next_intent fl s l r snapshot now = (s', Inr (Some i))" and "arm_mode (arm_payload_of left i) = Some ''TcpPoseTarget''"
  obtains res p where "side_events left s (DeTick l r snapshot now) = [SeTick (if left then l else r) snapshot now]"
    and "target_from_reader (ds_config s) (side_name left) (side_button left (ds_config s)) (ds_side left s) (if left then l else r) snapshot now
           = (ds_side left s', Inr res)" and "sr_pose res = Some p"
    and "\<exists>d. arm_payload_of left i = Some d \<and> dget d ''tcp_target_stand'' = PList (map PFloat (the (pose_list fl (Some p))))"
proof -
  have hold: "arm_mode (arm_payload_of left (intent_hold x)) = None" for x
    by (simp add: arm_mode_def arm_payload_of_def intent_hold_def intent_of_def)
  obtain ls lres where L: "target_from_reader (ds_config s) ''left'' (dc_left_deadman_button (ds_config s)) (ds_left s) l snapshot now = (ls, lres)"
    by fastforce
  obtain rs rres where R: "target_from_reader (ds_config s) ''right'' (dc_right_deadman_button (ds_config s)) (ds_right s) r snapshot now = (rs, rres)"
    by fastforce
  have no_hold: "i \<noteq> intent_hold x" for x using assms(2) hold by auto
  obtain lr rr where ok: "\<not> ds_assignment_hold_pending s" "lres = Inr lr" "rres = Inr rr" "ds_left s' = ls" "ds_right s' = rs"
    and c: "combine_sides fl (dc_timeout_sec (ds_config s)) lr rr = Inr (Some i)"
    using assms(1) no_hold by (auto simp: dual_next_intent_def L R Let_def split: if_splits sum.splits)
  obtain p where p: "sr_pose (if left then lr else rr) = Some p"
    and d: "\<exists>d. arm_payload_of left i = Some d \<and> dget d ''tcp_target_stand'' = PList (map PFloat (the (pose_list fl (Some p))))"
    using combine_pose [OF c assms(2)] by blast
  show ?thesis
  proof (rule that [of "if left then lr else rr" p])
    show "side_events left s (DeTick l r snapshot now) = [SeTick (if left then l else r) snapshot now]"
      using ok by (simp add: left_raises_def L)
    show "target_from_reader (ds_config s) (side_name left) (side_button left (ds_config s)) (ds_side left s) (if left then l else r) snapshot now
        = (ds_side left s', Inr (if left then lr else rr))"
      using L R ok by (simp add: side_name_def side_button_def ds_side_def)
  qed (use p d in auto)
qed

section \<open>The source behind the multiplexer\<close>

lemma hold_is_no_motion: "\<not> is_motion (intent_hold t)"
  by (simp add: is_motion_def intent_hold_def intent_of_def arm_mode_def in_motion_modes_def MOTION_MODES_def)

lemma gripper_is_no_motion: "\<not> is_motion (intent_gripper_target a b t)"
proof -
  have "arm_mode (Some (gripper_arm x)) = Some ''Hold''" for x
    by (simp add: gripper_arm_def arm_mode_def dget_or_def py_str_def Let_def split: option.split)
  then show ?thesis by (simp add: is_motion_def intent_gripper_target_def intent_of_def in_motion_modes_def MOTION_MODES_def)
qed

lemma motion_has_pose:
  assumes "combine_sides fl timeout l r = Inr (Some i)" and "is_motion i"
  shows "sr_pose l \<noteq> None \<or> sr_pose r \<noteq> None"
  using assms hold_is_no_motion gripper_is_no_motion
  by (auto simp: combine_sides_def simp del: not_None_eq split: if_splits)

lemma dual_motion_is_engaged:
  assumes "dual_next_intent fl s l r snapshot now = (s', Inr (Some i))" and "is_motion i"
  shows "dual_engaged s' \<and> \<not> ds_failed s'"
proof -
  obtain ls lres where L: "target_from_reader (ds_config s) ''left'' (dc_left_deadman_button (ds_config s)) (ds_left s) l snapshot now = (ls, lres)"
    by fastforce
  obtain rs rres where R: "target_from_reader (ds_config s) ''right'' (dc_right_deadman_button (ds_config s)) (ds_right s) r snapshot now = (rs, rres)"
    by fastforce
  have no_hold: "i \<noteq> intent_hold x" for x using assms(2) hold_is_no_motion by auto
  obtain lr rr where ok: "lres = Inr lr" "rres = Inr rr" "ds_left s' = ls" "ds_right s' = rs" "\<not> ds_failed s'"
    and c: "combine_sides fl (dc_timeout_sec (ds_config s)) lr rr = Inr (Some i)"
    using assms(1) no_hold by (auto simp: dual_next_intent_def L R Let_def split: if_splits sum.splits)
  have "sd_active ls" if "sr_pose lr = Some p" for p using target_pose [OF L [unfolded ok(1)] that] by blast
  moreover have "sd_active rs" if "sr_pose rr = Some p" for p using target_pose [OF R [unfolded ok(2)] that] by blast
  ultimately show ?thesis using motion_has_pose [OF c assms(2)] ok by (auto simp: dual_engaged_def)
qed

lemma control_engages_nothing: "dual_engaged (fst (dual_handle_control s msg a)) \<Longrightarrow> dual_engaged s"
  by (auto simp: dual_handle_control_def dual_engaged_def reset_sides_def side_reset_all_def side_reset_engagement_def Let_def
      split: option.splits prod.splits sum.splits if_splits)

interpretation dual: spacemouse_source "dual_ops fl t" for fl t
proof
  show "\<not> so_engaged (dual_ops fl t) (so_reset_engagement (dual_ops fl t) s)" for s
    by (simp add: dual_ops_def dual_engaged_def dual_reset_engagement_def side_reset_engagement_def)
qed (auto simp: dual_ops_def dest: dual_motion_is_engaged control_engages_nothing)

section \<open>Properties\<close>


lemma active_has_target:
  assumes "sd_target_pose st = None \<longrightarrow> \<not> sd_active st"
  shows "sd_target_pose (fst (side_step cfg side b st e)) = None \<longrightarrow> \<not> sd_active (fst (side_step cfg side b st e))"
proof -
  have gate: "sd_target_pose st2 = None \<longrightarrow> \<not> sd_active st2" if "engagement_gate cfg b m now st1 = (st2, q)"
      "sd_active st1 = sd_active st" "sd_target_pose st1 = sd_target_pose st" for m now st1 st2 q
    using that assms by (auto simp: engagement_gate_def side_reset_engagement_def Let_def split: if_splits)
  have pose: "sd_target_pose st3 = None \<longrightarrow> \<not> sd_active st3" if "pose_step cfg m live st2 = Inr (st3, r)" for m live st2 st3 r
    using that delta_total [of cfg m]
    by (auto simp: pose_step_def side_reset_engagement_def Let_def split: option.splits if_splits)
  show ?thesis
  proof (cases e)
    case (SeTick outcome snapshot now)
    have "sd_target_pose (fst (target_from_reader cfg side b st (Inr (Some m)) snapshot now)) = None
        \<longrightarrow> \<not> sd_active (fst (target_from_reader cfg side b st (Inr (Some m)) snapshot now))" for m
    proof -
      obtain st1 g where g: "gripper_target_from_buttons cfg m st = (st1, g)" by fastforce
      obtain st2 q where e: "engagement_gate cfg b m now st1 = (st2, q)" by fastforce
      have "sd_target_pose st2 = None \<longrightarrow> \<not> sd_active st2" using gate [OF e] buttons_keep(2,3) [of cfg m st] by (simp add: g)
      then show ?thesis using pose [of m _ st2]
        by (cases "res_bind (tcp_pose_stand snapshot side) (\<lambda>live. pose_step cfg m live st2)"; cases q)
          (auto simp: target_from_reader_def g e side_reset_all_def side_reset_engagement_def res_bind_Inr_iff)
    qed
    then show ?thesis using assms
      by (cases outcome; cases "projr outcome") (auto simp: SeTick target_from_reader_def side_reset_all_def side_reset_engagement_def)
  qed (simp_all add: side_reset_all_def side_reset_engagement_def assms)
qed

interpretation dual_target: state_machine "side_step cfg side b" "\<lambda>st. sd_target_pose st = None \<longrightarrow> \<not> sd_active st" for cfg side b
  by unfold_locales (rule active_has_target)

text \<open>(C31) A target never runs away from the arm. In any run of the source, on a tick that moves an arm to a pose,
  that pose is the one sent in the packet, and it is the target of the tick before, sent once more when
  the stick comes to rest, or it is at most the configured distance from the arm's live position and,
  unless the unclamped target was exactly half a turn away or the emitted pitch is within 1e-9 of
  vertical, at most the configured angle from its live orientation. The state message has finite numbers.\<close>

theorem target_stays_near_the_arm:
  assumes "dual_init cfg0 activation lsigns asigns order rbpodo registry = Inr s0" and "s = state_after (dual_step fl) s0 es"
    and "dual_step fl s (DeTick l r snapshot now) = (s', Inr (Some i))" and "arm_mode (arm_payload_of left i) = Some ''TcpPoseTarget''"
    and "cfg = ds_config s0" and "dc_max_target_lead_rad cfg = 0 \<or> 1 / 10 ^ 9 \<le> dc_max_target_lead_rad cfg"
    and "stand_block snapshot (side_name left) = Some raw" and "finite_block raw"
  shows "\<exists>p live t d. arm_payload_of left i = Some d \<and> dget d ''tcp_target_stand'' = PList (map PFloat (the (pose_list fl (Some p))))
    \<and> sd_target_pose (ds_side left s') = Some p \<and> pose_from_mapping raw = Inr (Some live)
    \<and> (sd_target_pose (ds_side left s) = Some p
       \<or> p = clamp_target_lead t live (dc_max_target_lead_m cfg) (dc_max_target_lead_rad cfg)
         \<and> vnorm (vsub (pose_position p) (pose_position live)) \<le> dc_max_target_lead_m cfg
         \<and> (trace (mat_mul (mat_transpose (pose_matrix live)) (pose_matrix t)) = -1
            \<or> 0 < \<bar>cos (pose_pitch p)\<bar> \<and> cos (pose_pitch p) \<le> 1 / 10 ^ 9
            \<or> rot_angle (mat_mul (mat_transpose (pose_matrix live)) (pose_matrix p)) \<le> dc_max_target_lead_rad cfg))"
proof -
  have tick: "dual_next_intent fl s l r snapshot now = (s', Inr (Some i))" using assms(3) by simp
  have cfg: "ds_config s = cfg" using dual_sides_run [of fl s0 es] assms(2,5) by simp
  have s0: "ds_side left s0 = side_init" and lead: "0 \<le> dc_max_target_lead_m cfg"
    using assms(1,5) by (auto simp: dual_init_def check_dual_args_def ds_side_def res_bind_Inr_iff split: if_splits)
  have target: "sd_target_pose (ds_side left s) = None \<longrightarrow> \<not> sd_active (ds_side left s)"
    using dual_sides_run [of fl s0 es left] dual_target.inv_run [of side_init] assms(2) s0 by (simp add: side_init_def)
  obtain res p d where T: "target_from_reader cfg (side_name left) (side_button left cfg) (ds_side left s) (if left then l else r) snapshot now
      = (ds_side left s', Inr res)" "sr_pose res = Some p" "arm_payload_of left i = Some d"
      "dget d ''tcp_target_stand'' = PList (map PFloat (the (pose_list fl (Some p))))"
    using tick_pose [OF tick assms(4)] cfg by metis
  obtain m live where P: "tcp_pose_stand snapshot (side_name left) = Inr (Some live)" "sd_target_pose (ds_side left s') = Some p"
    "p = stepped_target cfg m (anchor_of (ds_side left s) live) live \<or> sd_active (ds_side left s) \<and> p = anchor_of (ds_side left s) live"
    by (rule target_pose [OF T(1,2)])
  have live: "pose_from_mapping raw = Inr (Some live)" using P(1) assms(7) by (simp add: tcp_pose_stand_def)
  from P(3) show ?thesis
  proof
    assume again: "sd_active (ds_side left s) \<and> p = anchor_of (ds_side left s) live"
    then have "sd_target_pose (ds_side left s) = Some p"
      using target by (cases "sd_target_pose (ds_side left s)") (simp_all add: anchor_of_def del: split_paired_Ex)
    with T(3,4) P(2) live show ?thesis by blast
  next
    assume "p = stepped_target cfg m (anchor_of (ds_side left s) live) live"
    moreover obtain dl where "pose_delta_from_sample cfg m = Inr dl" using delta_total by blast
    ultimately obtain t where t: "p = clamp_target_lead t live (dc_max_target_lead_m cfg) (dc_max_target_lead_rad cfg)"
      by (simp add: stepped_target_def)
    have pos: "vnorm (vsub (pose_position p) (pose_position live)) \<le> dc_max_target_lead_m cfg"
      using position_lead [OF lead] by (simp add: t clamp_target_lead_def)
    have ang: "trace (mat_mul (mat_transpose (pose_matrix live)) (pose_matrix t)) = -1
            \<or> 0 < \<bar>cos (pose_pitch p)\<bar> \<and> cos (pose_pitch p) \<le> 1 / 10 ^ 9
            \<or> rot_angle (mat_mul (mat_transpose (pose_matrix live)) (pose_matrix p)) \<le> dc_max_target_lead_rad cfg"
      using clamp_bounds_the_lead [OF t lead assms(6)] by fastforce
    from T(3,4) P(2) live t pos ang show ?thesis by blast
  qed
qed

text \<open>Changing the assignment of the devices never carries a motion over. An accepted assignment was made while
  no arm was engaged, unless the caller decided otherwise; it leaves both sides reset, and whatever the
  sticks read, the next tick returns Hold and leaves both sides disengaged, with the neutral start to be
  earned again and no button remembered.\<close>

theorem reassignment_holds_first:
  assumes "control_accepted s msg permit" and "s1 = fst (dual_handle_control s msg permit)"
    and "dual_next_intent fl s1 l r snapshot now = (s2, out)"
  shows "(permit = None \<longrightarrow> \<not> dual_engaged s) \<and> out = Inr (Some (intent_hold (dc_timeout_sec (ds_config s))))
    \<and> ds_left s2 = side_init \<and> ds_right s2 = side_init \<and> \<not> ds_assignment_hold_pending s2"
proof -
  have init: "side_reset_all st = side_init" for st
    by (cases st) (simp add: side_reset_all_def side_reset_engagement_def side_init_def)
  obtain reg where reg: "ds_registry s = Some reg"
    using assms(1) by (cases "ds_registry s") (simp_all add: control_accepted_def dual_handle_control_def)
  let ?allow = "case permit of None \<Rightarrow> \<not> dual_engaged s | Some a \<Rightarrow> a"
  obtain reg1 where h: "handle_control reg msg ?allow = (reg1, Inr True)" "rg_last_result reg1 = ''accepted''"
    using assms(1) by (auto simp: control_accepted_def dual_handle_control_def reg Let_def split: prod.splits sum.splits bool.splits if_splits)
  have s1: "ds_assignment_hold_pending s1" "ds_config s1 = ds_config s"
    using assms(2) by (simp_all add: dual_handle_control_def reg h reset_sides_def Let_def)
  have allow: "?allow"
  proof (rule ccontr)
    assume "\<not> ?allow"
    then have "rg_last_result reg1 = ''rejected'' \<or> snd (handle_control reg msg ?allow) \<noteq> Inr True"
      using h by (auto simp: handle_control_def reject_locked_def Let_def split: if_splits sum.splits)
    then show False using h by simp
  qed
  have "s2 = reset_sides (s1\<lparr>ds_assignment_hold_pending := False\<rparr>)" "out = Inr (Some (intent_hold (dc_timeout_sec (ds_config s))))"
    using assms(3) s1 by (simp_all add: dual_next_intent_def Let_def)
  then show ?thesis using allow by (simp add: reset_sides_def init split: option.splits)
qed

text \<open>A moved stick gets a free robot at once. When nobody owns the robot, the SpaceMouse has not failed and the UMI
  is not engaged, a tick on which the dual source asks for motion returns exactly that intent, makes
  the SpaceMouse the owner with its source engaged, and resets the UMI.\<close>

theorem stick_takes_the_free_robot:
  assumes "mx_owner m = OWNER_IDLE" and "\<not> mx_spacemouse_failed m"
    and "dual_next_intent fl (mx_spacemouse m) (registry_read (mx_spacemouse m) ''left'') (registry_read (mx_spacemouse m) ''right'') snapshot now
           = (s', Inr (Some i))" and "is_motion i"
    and "uo_next_intent uo (mx_umi m) snapshot now = (u, Inr j)" and "\<not> uo_engaged uo u"
  shows "\<exists>m'. mux_next_intent (dual_ops fl t) uo m snapshot now = (m', Inr (Some i)) \<and> mx_owner m' = OWNER_SPACEMOUSE
    \<and> mx_spacemouse m' = s' \<and> dual_engaged s' \<and> mx_umi m' = uo_reset_engagement uo u"
proof -
  have n: "so_next_intent (dual_ops fl t) (mx_spacemouse m) snapshot now = (s', Inr (Some i))" using assms(3) by (simp add: dual_ops_def)
  show ?thesis using dual.motion_takes_idle_robot [OF assms(1,2) n assms(4-6)] dual_motion_is_engaged [OF assms(3,4)] by blast
qed

section \<open>Examples\<close>

definition demo_cfg :: DualConfig where
  "demo_cfg = \<lparr>dc_max_linear_step_m = 1/1000, dc_max_angular_step_rad = 1/100, dc_max_target_lead_m = 1/20, dc_max_target_lead_rad = 7/20,
     dc_deadband = Fin 0, dc_activation_deadband = Fin 0, dc_response_curve_gamma = 1, dc_linear_axis_signs = (1, 1, 1),
     dc_angular_axis_signs = (1, 1, 1), dc_angular_axis_order = (0, 1, 2), dc_sample_stale_timeout_sec = Fin 1, dc_require_deadman = False,
     dc_startup_requires_neutral = True, dc_startup_neutral_hold_sec = Fin (1/2), dc_left_deadman_button = 0, dc_right_deadman_button = 0,
     dc_gripper_buttons_enable = False, dc_gripper_open_button = 0, dc_gripper_close_button = 1, dc_gripper_open_percent = Fin 100,
     dc_gripper_close_percent = Fin 10, dc_timeout_sec = Fin (1/5), dc_requirements = cartesian_action_requirements False\<rparr>"

definition demo_dual :: Dual where
  "demo_dual = \<lparr>ds_config = demo_cfg, ds_registry = None, ds_assignment_hold_pending = False, ds_left = side_init, ds_right = side_init,
     ds_failed = False, ds_failure_message = None\<rparr>"

definition demo_stick :: "rat \<Rightarrow> rat \<Rightarrow> SpaceMouseSample" where
  "demo_stick x t = \<lparr>sm_tx = Fin x, sm_ty = Fin 0, sm_tz = Fin 0, sm_rx = Fin 0, sm_ry = Fin 0, sm_rz = Fin 0, sm_buttons = [],
     sm_timestamp_monotonic = Fin t\<rparr>"

definition demo_live :: StateSnapshot where
  "demo_live = \<lparr>payload = [(''left'', PDict [(''tcp_ref_stand'', PDict [(''x'', PInt 0)])])], received_monotonic = Fin 0\<rparr>"

lemma demo_init: "dual_init demo_cfg (Some (Fin 0)) [1, 1, 1] [1, 1, 1] [Inl ''rx'', Inr 1, Inl ''rz''] False None = Inr demo_dual"
  by (simp add: dual_init_def check_dual_args_def demo_cfg_def demo_dual_def axis_signs_def angular_axis_order_def axis_index_def
      py_lower_def lower_char_def)

lemma demo_delta: "pose_delta_from_sample demo_cfg (demo_stick 1 t) = Inr [1/1000, 0, 0, 0, 0, 0]"
  by (simp add: pose_delta_from_sample_def demo_cfg_def demo_stick_def apply_soft_deadband_def real_of_def clamp_pose_delta_six clamp_value_def)

lemma demo_pose: "\<exists>live. tcp_pose_stand demo_live ''left'' = Inr (Some live)"
  by (simp add: tcp_pose_stand_def stand_block_def demo_live_def py_or_def pose_from_mapping_def read_pose_def four_items_def has_key_def
      float_checked_def float_overflows_def dget_or_def Let_def del: split_paired_Ex)

definition demo_rested :: Dual where
  "demo_rested = demo_dual\<lparr>ds_left := side_init\<lparr>sd_neutral_since := Some (Fin 0), sd_neutral_confirmed := True\<rparr>\<rparr>"

definition demo_rest :: "DualEvent list" where
  "demo_rest = [DeTick (Inr (Some (demo_stick 0 0))) (Inr None) demo_live (Fin 0), DeTick (Inr (Some (demo_stick 0 1))) (Inr None) demo_live (Fin 1)]"

lemma demo_rest_run: "demo_rested = state_after (dual_step fl) demo_dual demo_rest"
  by (simp add: demo_rest_def dual_next_intent_def demo_dual_def demo_rested_def target_from_reader_def gripper_target_from_buttons_def engagement_gate_def
      neutral_gate_def raw_magnitude_def demo_cfg_def demo_stick_def side_init_def combine_sides_def no_result_def fabs_def pymax_def Let_def)

lemma demo_left_moves:
  obtains st p where "target_from_reader demo_cfg ''left'' 0 (ds_left demo_rested) (Inr (Some (demo_stick 1 2))) demo_live (Fin 2)
      = (st, Inr (no_result\<lparr>sr_pose := Some p\<rparr>))"
proof -
  let ?m = "demo_stick 1 2"
  obtain live where l: "tcp_pose_stand demo_live ''left'' = Inr (Some live)" using demo_pose by blast
  have g: "gripper_target_from_buttons demo_cfg ?m st = (st, None)" for st by (simp add: gripper_target_from_buttons_def demo_cfg_def)
  have e: "engagement_gate demo_cfg 0 ?m (Fin 2) (ds_left demo_rested) = (ds_left demo_rested, None)"
    by (simp add: engagement_gate_def neutral_gate_def raw_magnitude_def demo_cfg_def demo_stick_def demo_rested_def fabs_def pymax_def)
  have "\<not> sd_active (ds_left demo_rested)" by (simp add: demo_rested_def side_init_def)
  then obtain st p where ps: "pose_step demo_cfg ?m (Some live) (ds_left demo_rested) = Inr (st, no_result\<lparr>sr_pose := Some p\<rparr>)"
    by (simp add: pose_step_def demo_delta Let_def)
  have "\<not> dc_sample_stale_timeout_sec demo_cfg < Fin 2 - sm_timestamp_monotonic ?m" by (simp add: demo_cfg_def demo_stick_def)
  then show thesis using that by (simp add: target_from_reader_def g e l ps no_result_def)
qed

lemma demo_moves:
  obtains s' i where "dual_step fl (demo_rested\<lparr>ds_registry := reg\<rparr>) (DeTick (Inr (Some (demo_stick 1 2))) (Inr None) demo_live (Fin 2)) = (s', Inr (Some i))"
    and "arm_mode (arm_payload_of True i) = Some ''TcpPoseTarget''" and "is_motion i"
proof -
  obtain st p where l: "target_from_reader demo_cfg ''left'' 0 (ds_left demo_rested) (Inr (Some (demo_stick 1 2))) demo_live (Fin 2)
      = (st, Inr (no_result\<lparr>sr_pose := Some p\<rparr>))" by (rule demo_left_moves)
  have r: "target_from_reader demo_cfg ''right'' 0 (ds_right demo_rested) (Inr None) demo_live (Fin 2) = (ds_right demo_rested, Inr no_result)"
    by (simp add: target_from_reader_def demo_rested_def demo_dual_def side_init_def)
  have c: "ds_config demo_rested = demo_cfg" "\<not> ds_assignment_hold_pending demo_rested" "dc_left_deadman_button demo_cfg = 0" "dc_right_deadman_button demo_cfg = 0"
    by (simp_all add: demo_rested_def demo_dual_def demo_cfg_def)
  have "length (the (pose_list fl (Some p))) = 6" by (cases p) (simp add: pose_list_def)
  then obtain i where i: "combine_sides fl (dc_timeout_sec demo_cfg) (no_result\<lparr>sr_pose := Some p\<rparr>) no_result = Inr (Some i)"
      "arm_mode (arm_payload_of True i) = Some ''TcpPoseTarget''"
    by (simp add: combine_sides_def no_result_def tcp_pose_target_stand_intent_def pose_target_arm_payload_def pose_list_def intent_of_def
        arm_payload_of_def arm_mode_def dget_or_def py_str_def)
  have mot: "is_motion i" using i(2) by (auto simp: is_motion_def arm_payload_of_def in_motion_modes_def MOTION_MODES_def)
  have "\<not> sr_failure (no_result\<lparr>sr_pose := Some p\<rparr>)" "\<not> sr_failure no_result" by (simp_all add: no_result_def)
  then show thesis using that i mot by (simp add: dual_next_intent_def c l r Let_def del: split_paired_Ex split_paired_All)
qed


theorem target_stays_near_the_arm_witness:
  "\<exists>p live. pose_from_mapping [(''x'', PInt 0)] = Inr (Some live) \<and> vnorm (vsub (pose_position p) (pose_position live)) \<le> 1/20"
proof -
  let ?fl = "\<lambda>x::real. Fin (of_int \<lfloor>x\<rfloor>)"
  have "demo_rested\<lparr>ds_registry := None\<rparr> = demo_rested" by (simp add: demo_rested_def demo_dual_def)
  then obtain s' i where m: "dual_step ?fl demo_rested (DeTick (Inr (Some (demo_stick 1 2))) (Inr None) demo_live (Fin 2)) = (s', Inr (Some i))"
    "arm_mode (arm_payload_of True i) = Some ''TcpPoseTarget''" using demo_moves [of ?fl None] by metis
  have c: "demo_cfg = ds_config demo_dual" "dc_max_target_lead_rad demo_cfg = 0 \<or> 1 / 10 ^ 9 \<le> dc_max_target_lead_rad demo_cfg"
    by (simp_all add: demo_dual_def demo_cfg_def)
  have b: "stand_block demo_live (side_name True) = Some [(''x'', PInt 0)]" "finite_block [(''x'', PInt 0)]"
    by (simp_all add: stand_block_def demo_live_def side_name_def py_or_def dget_or_def finite_block_def read_pose_def four_items_def has_key_def
        float_checked_def float_overflows_def isfinite_def)
  have none: "sd_target_pose (ds_side True demo_rested) = None" and m20: "dc_max_target_lead_m demo_cfg = 1/20"
    by (simp_all add: ds_side_def demo_rested_def side_init_def demo_cfg_def)
  from target_stays_near_the_arm [OF demo_init demo_rest_run m c b] show ?thesis unfolding none m20 by blast
qed

definition demo_swap :: pydict where
  "demo_swap = [(''schema'', PStr SPACEMOUSE_ASSIGNMENT_COMMAND_SCHEMA), (''seq'', PInt 1), (''status_generation'', PInt 1), (''command'', PStr ''swap'')]"

theorem reassignment_holds_first_witness:
  "ds_left (fst (dual_next_intent (\<lambda>x. Fin (of_int \<lfloor>x\<rfloor>))
     (fst (dual_handle_control (demo_rested\<lparr>ds_registry := Some (demo_registry\<lparr>rg_generation := 1\<rparr>)\<rparr>) demo_swap None))
     (Inr (Some (demo_stick 1 2))) (Inr None) demo_live (Fin 2))) = side_init"
proof -
  let ?fl = "\<lambda>x::real. Fin (of_int \<lfloor>x\<rfloor>)" and ?s = "demo_rested\<lparr>ds_registry := Some (demo_registry\<lparr>rg_generation := 1\<rparr>)\<rparr>"
  have "control_accepted ?s demo_swap None"
    by (simp add: control_accepted_def dual_handle_control_def handle_control_def assign_command_def accept_assignment_def demo_swap_def dual_engaged_def
        demo_rested_def demo_dual_def side_init_def demo_registry_def registry_init_def py_or_def dget_or_def str_or_empty_def py_str_def reset_sides_def Let_def)
  from reassignment_holds_first [OF this refl, of ?fl "Inr (Some (demo_stick 1 2))" "Inr None" demo_live "Fin 2"] show ?thesis
    by (metis prod.collapse)
qed

definition demo_plugged :: Registry where
  "demo_plugged = demo_registry\<lparr>rg_left := Some ''c'', rg_devices := [(''a'', \<lparr>dv_descriptor = demo_hid ''a'', dv_connection_id = ''c'',
     dv_sample = Some (demo_stick 1 2), dv_activity = Fin 1, dv_neutral = False, dv_error = []\<rparr>)]\<rparr>"

theorem stick_takes_the_free_robot_witness:
  "\<exists>m' i. mux_next_intent (dual_ops (\<lambda>x. Fin (of_int \<lfloor>x\<rfloor>)) (Fin 0)) demo_uo
     \<lparr>mx_spacemouse = demo_rested\<lparr>ds_registry := Some demo_plugged\<rparr>, mx_umi = (None, False), mx_tie_break = OWNER_UMI,
      mx_requirements = cartesian_action_requirements False, mx_owner = OWNER_IDLE, mx_spacemouse_failed = False\<rparr> demo_live (Fin 2)
       = (m', Inr (Some i)) \<and> mx_owner m' = OWNER_SPACEMOUSE"
proof -
  let ?fl = "\<lambda>x::real. Fin (of_int \<lfloor>x\<rfloor>)" and ?s = "demo_rested\<lparr>ds_registry := Some demo_plugged\<rparr>"
  let ?m = "\<lparr>mx_spacemouse = ?s, mx_umi = (None :: CommandIntent option, False), mx_tie_break = OWNER_UMI,
      mx_requirements = cartesian_action_requirements False, mx_owner = OWNER_IDLE, mx_spacemouse_failed = False\<rparr>"
  have r: "registry_read ?s ''left'' = Inr (Some (demo_stick 1 2))" "registry_read ?s ''right'' = Inr None"
    by (simp_all add: registry_read_def sample_for_arm_def demo_plugged_def demo_registry_def registry_init_def)
  obtain s' i where t: "dual_next_intent ?fl ?s (registry_read ?s ''left'') (registry_read ?s ''right'') demo_live (Fin 2) = (s', Inr (Some i))" "is_motion i"
    unfolding r using demo_moves [of ?fl "Some demo_plugged"] by (metis dual_step.simps(1))
  have u: "uo_next_intent demo_uo (mx_umi ?m) demo_live (Fin 2) = ((None, False), Inr None)" "\<not> uo_engaged demo_uo (None, False)"
    by (simp_all add: demo_uo_def)
  have f: "mx_owner ?m = OWNER_IDLE" "\<not> mx_spacemouse_failed ?m" by simp_all
  have t': "dual_next_intent ?fl (mx_spacemouse ?m) (registry_read (mx_spacemouse ?m) ''left'') (registry_read (mx_spacemouse ?m) ''right'') demo_live (Fin 2)
      = (s', Inr (Some i))" using t(1) by simp
  from stick_takes_the_free_robot [OF f t' t(2) u] show ?thesis by blast
qed

end
