(* ===== verification/UmiSafety.thy ===== *)
theory UmiSafety
  imports UmiTeleop DualSpaceMouse
begin

text \<open>
  What the UMI source of \<open>UmiTeleop\<close> guarantees: when it moves an arm, how far, within which workspace, and that it
  and the SpaceMouse source never drive the robot together.
\<close>

declare split_paired_All [simp del] split_paired_Ex [simp del]

section \<open>Cleared latches\<close>

lemma clear_latches_fresh [simp]: "clear_latches st = arm_teleop_init"
  by (simp add: clear_latches_def reset_conditioner_def arm_teleop_init_def)

lemma init_fields [simp]:
  "ts_arm_init arm_teleop_init = None" "ts_pika_init arm_teleop_init = None" "ts_previous_target arm_teleop_init = None"
  "ts_last_sample arm_teleop_init = None" "\<not> ts_was_armed arm_teleop_init" "ts_deadman_drop_mono arm_teleop_init = None"
  "ts_last_emitted_target_stand arm_teleop_init = None" "ts_deadband_target arm_teleop_init = None"
  "ts_schedule_start_target_stand arm_teleop_init = None" "ts_schedule_end_target_stand arm_teleop_init = None"
  "ts_gate_hold_transform arm_teleop_init = None" "ts_conditioner_engaged arm_teleop_init = False"
  by (simp_all add: arm_teleop_init_def)

lemma filter_keeps [simp]:
  "us_deadman (snd (ma_filter m s)) = us_deadman s" "us_monotonic (snd (ma_filter m s)) = us_monotonic s"
  "us_gripper (snd (ma_filter m s)) = us_gripper s"
  by (simp_all add: ma_filter_def Let_def)

section \<open>The kinds of tick\<close>

definition note_read :: "ArmTeleopState \<Rightarrow> UmiSample option \<Rightarrow> ArmTeleopState" where
  "note_read st read = (case read of None \<Rightarrow> st | Some s \<Rightarrow> st\<lparr>ts_last_seq := us_seq s, ts_last_sample := Some s\<rparr>)"

lemma note_read_keeps [simp]:
  "ts_was_armed (note_read st r) = ts_was_armed st" "ts_previous_target (note_read st r) = ts_previous_target st"
  "ts_last_emitted_target_stand (note_read st r) = ts_last_emitted_target_stand st" "ts_deadman_drop_mono (note_read st r) = ts_deadman_drop_mono st"
  "ts_arm_init (note_read st r) = ts_arm_init st" "ts_pika_init (note_read st r) = ts_pika_init st"
  "ts_deadband_target (note_read st r) = ts_deadband_target st" "ts_gate_hold_transform (note_read st r) = ts_gate_hold_transform st"
  "ts_schedule_start_target_stand (note_read st r) = ts_schedule_start_target_stand st"
  "ts_schedule_end_target_stand (note_read st r) = ts_schedule_end_target_stand st"
  "ts_schedule_start_time_ns (note_read st r) = ts_schedule_start_time_ns st" "ts_schedule_end_time_ns (note_read st r) = ts_schedule_end_time_ns st"
  "ts_last_sample (note_read st r) = (case r of None \<Rightarrow> ts_last_sample st | Some s \<Rightarrow> Some s)"
  by (simp_all add: note_read_def split: option.splits)

lemma tick_cases:
  assumes "target_for_side fl cfg side (st, ma) outcome snapshot now = (arm', out)"
  obtains (raised) e where "outcome = Inl e" "arm' = (st, ma)" "out = Inl e"
  | (stopped) read o1 where "outcome = Inr read" "fst arm' = arm_teleop_init" "out = Inr o1" "ud_pose o1 = None" "ud_changed o1 = ts_was_armed st"
      "case ts_last_sample (note_read st read) of None \<Rightarrow> True | Some s \<Rightarrow> umi_stale cfg s now"
  | (released) read s diag o1 where "outcome = Inr read" "ts_last_sample (note_read st read) = Some s" "\<not> umi_stale cfg s now" "\<not> us_deadman s"
      "released_tick cfg (note_read st read) (snd (ma_filter ma s)) now diag = (fst arm', o1)" "out = Inr o1"
  | (engaged) read s fresh diag where "outcome = Inr read" "ts_last_sample (note_read st read) = Some s" "\<not> umi_stale cfg s now" "us_deadman s"
      "engaged_tick fl cfg side (note_read st read) (snd (ma_filter ma s)) fresh snapshot now diag = (fst arm', out)"
proof (cases outcome)
  case (Inl e)
  with assms raised show ?thesis by (auto simp: target_for_side_def)
next
  case (Inr read)
  let ?st = "note_read st read"
  note T = assms [unfolded target_for_side_def, simplified Inr Let_def prod.case sum.case, folded note_read_def]
  show ?thesis
  proof (cases "ts_last_sample ?st")
    case None
    then show ?thesis using T Inr by (intro stopped [of read]) (auto simp: stopped_tick_def)
  next
    case (Some s)
    show ?thesis
    proof (cases "umi_stale cfg s now")
      case True
      then show ?thesis using T Inr Some by (intro stopped [of read]) (auto simp: stopped_tick_def)
    next
      case False
      obtain ma1 s1 where f: "ma_filter ma s = (ma1, s1)" by fastforce
      have d: "us_deadman s1 = us_deadman s" "snd (ma_filter ma s) = s1" using filter_keeps(1) [of ma s] by (simp_all add: f)
      define fresh where "fresh = (case read of None \<Rightarrow> False | Some s \<Rightarrow> us_seq s \<noteq> ts_last_seq st)"
      let ?diag = "input_diag fl fresh s1 now (conditioner_diag (conditioning_mode cfg))"
      note F = T [folded fresh_def]
      show ?thesis
      proof (cases "us_deadman s")
        case True
        then have "engaged_tick fl cfg side ?st s1 fresh snapshot now ?diag = (fst arm', out)"
          using F Some False f d by (auto split: prod.splits)
        then show ?thesis using engaged [OF Inr Some False True] d(2) by simp
      next
        case nd: False
        obtain st2 o1 where r: "released_tick cfg ?st s1 now ?diag = (st2, o1)" by fastforce
        then have "fst arm' = st2" "out = Inr o1" using F Some False f d nd by auto
        then show ?thesis using released [OF Inr Some False nd] d(2) r by simp
      qed
    qed
  qed
qed

section \<open>What the steps of a tick leave alone\<close>

definition clutch_view :: "ArmTeleopState \<Rightarrow> bool \<times> pyfloat option \<times> UmiSample option" where
  "clutch_view st = (ts_was_armed st, ts_deadman_drop_mono st, ts_last_sample st)"

definition latched :: "ArmTeleopState \<Rightarrow> bool" where
  "latched st = (ts_arm_init st \<noteq> None \<and> ts_pika_init st \<noteq> None \<and> ts_previous_target st \<noteq> None)"

lemma latched_simps [simp]:
  "latched (st\<lparr>ts_deadman_drop_mono := d\<rparr>) = latched st" "latched (note_read st r) = latched st"
  by (simp_all add: latched_def)

named_theorems umi_keep

lemma reset_keeps [umi_keep]:
  "clutch_view (reset_conditioner st a now) = clutch_view st" "ts_arm_init (reset_conditioner st a now) = ts_arm_init st"
  "ts_pika_init (reset_conditioner st a now) = ts_pika_init st" "ts_previous_target (reset_conditioner st a now) = ts_previous_target st"
  "ts_deadband_target (reset_conditioner st a now) = ts_deadband_target st"
  "ts_gate_hold_transform (reset_conditioner st a now) = ts_gate_hold_transform st" "ts_gate_open (reset_conditioner st a now) = ts_gate_open st"
  by (simp_all add: reset_conditioner_def clutch_view_def Let_def)

lemma latch_keeps [umi_keep]:
  "clutch_view (latch cfg arm pika now st) = clutch_view st" "ts_arm_init (latch cfg arm pika now st) = Some arm"
  "ts_pika_init (latch cfg arm pika now st) = Some pika" "ts_previous_target (latch cfg arm pika now st) = Some (transform_to_pose6 arm)"
  "ts_deadband_target (latch cfg arm pika now st) = ts_deadband_target st"
  "ts_gate_hold_transform (latch cfg arm pika now st) = ts_gate_hold_transform st"
  by (simp_all add: latch_def umi_keep Let_def) (simp_all add: clutch_view_def)

lemma rebase_keeps [umi_keep]:
  "clutch_view (rebase_conditioner st p) = clutch_view st" "ts_arm_init (rebase_conditioner st p) = ts_arm_init st"
  "ts_pika_init (rebase_conditioner st p) = ts_pika_init st" "ts_previous_target (rebase_conditioner st p) = ts_previous_target st"
  "ts_deadband_target (rebase_conditioner st p) = ts_deadband_target st"
  "ts_gate_hold_transform (rebase_conditioner st p) = ts_gate_hold_transform st" "ts_gate_open (rebase_conditioner st p) = ts_gate_open st"
  by (simp_all add: rebase_conditioner_def clutch_view_def)

text \<open>The fields that the first-order hold owns.\<close>

definition hold_view :: "ArmTeleopState \<Rightarrow> pose6 option \<times> pose6 option \<times> pose6 option \<times> int option \<times> int option \<times> bool" where
  "hold_view st = (ts_last_emitted_target_stand st, ts_schedule_start_target_stand st, ts_schedule_end_target_stand st,
     ts_schedule_start_time_ns st, ts_schedule_end_time_ns st, ts_conditioner_engaged st)"

lemma gate_keeps:
  assumes "update_motion_gate fl cfg st pika now diag = (st', gate, diag')"
  shows "clutch_view st' = clutch_view st" "ts_arm_init st' = ts_arm_init st" "ts_pika_init st' = ts_pika_init st"
    "ts_previous_target st' = ts_previous_target st" "ts_deadband_target st' = ts_deadband_target st" "hold_view st' = hold_view st"
    "ts_gate_hold_transform st' = ts_gate_hold_transform st" "gate \<longleftrightarrow> \<not> mg_enable (uc_motion_gate cfg) \<or> ts_gate_open st'"
  using assms by (auto simp: update_motion_gate_def Let_def clutch_view_def hold_view_def split: if_splits)

lemma hold_latches_keeps [umi_keep]:
  "clutch_view (hold_latches st pika) = clutch_view st" "ts_previous_target (hold_latches st pika) = ts_previous_target st"
  "ts_deadband_target (hold_latches st pika) = ts_deadband_target st" "hold_view (hold_latches st pika) = hold_view st"
  "latched st \<Longrightarrow> latched (hold_latches st pika)"
  by (auto simp: hold_latches_def clutch_view_def hold_view_def latched_def split: option.splits)

lemma hold_latches_schedule [umi_keep]:
  "ts_last_emitted_target_stand (hold_latches st pika) = ts_last_emitted_target_stand st"
  "ts_schedule_start_target_stand (hold_latches st pika) = ts_schedule_start_target_stand st"
  "ts_schedule_end_target_stand (hold_latches st pika) = ts_schedule_end_target_stand st"
  "ts_conditioner_engaged (hold_latches st pika) = ts_conditioner_engaged st" "ts_gate_open (hold_latches st pika) = ts_gate_open st"
  by (simp_all add: hold_latches_def split: option.splits)

lemma deadband_keeps:
  assumes "apply_target_deadband cfg st pose = (st', p)"
  shows "clutch_view st' = clutch_view st" "ts_arm_init st' = ts_arm_init st" "ts_pika_init st' = ts_pika_init st"
    "ts_previous_target st' = ts_previous_target st" "hold_view st' = hold_view st"
    "ts_gate_hold_transform st' = ts_gate_hold_transform st" "ts_gate_open st' = ts_gate_open st"
    "p = pose \<or> ts_deadband_target st = Some p"
    "ts_deadband_target st' = ts_deadband_target st \<or> ts_deadband_target st' = Some pose"
  using assms by (auto simp: apply_target_deadband_def Let_def clutch_view_def hold_view_def split: option.splits if_splits)

definition tick_view :: "ArmTeleopState \<Rightarrow> (bool \<times> pyfloat option \<times> UmiSample option) \<times> Transform option \<times> Transform option \<times> pose6 option
    \<times> pose6 option \<times> Transform option \<times> bool" where
  "tick_view st = (clutch_view st, ts_arm_init st, ts_pika_init st, ts_previous_target st, ts_deadband_target st, ts_gate_hold_transform st, ts_gate_open st)"

lemma emit_keeps:
  assumes "emit_schedule fl st raw now_ns diag = (st', p, diag')"
  shows "tick_view st' = tick_view st" "ts_last_emitted_target_stand st' = Some p"
  using assms
  by (auto simp: emit_schedule_def clear_schedule_def Let_def tick_view_def clutch_view_def split: option.splits if_splits)

lemma schedule_keeps: "tick_view (schedule_fresh cfg st raw s now) = tick_view st"
  by (simp add: schedule_fresh_def Let_def tick_view_def clutch_view_def)

lemma condition_cases:
  assumes "condition_pose_target fl cfg st raw s fresh now diag = (st', p, diag')"
  obtains (off) "\<not> tc_enable (uc_conditioning cfg) \<or> tc_mode (uc_conditioning cfg) \<noteq> ''foh_se3''" "p = raw"
      "st' = st\<lparr>ts_last_raw_target_stand := Some raw, ts_last_emitted_target_stand := Some raw\<rparr>"
  | (foh) st1 diag1 where "tc_enable (uc_conditioning cfg)" "tc_mode (uc_conditioning cfg) = ''foh_se3''"
      "st1 = (if ts_conditioner_engaged st then st
              else reset_conditioner st (Some (pose_or (or_pose (ts_last_emitted_target_stand st) (ts_previous_target st)) raw)) now)"
      "emit_schedule fl (if fresh then schedule_fresh cfg st1 raw s now else st1) raw (ns_of now) diag1 = (st', p, diag')"
proof (cases "\<not> tc_enable (uc_conditioning cfg) \<or> tc_mode (uc_conditioning cfg) \<noteq> ''foh_se3''")
  case True
  then show ?thesis using assms off by (auto simp: condition_pose_target_def)
next
  case False
  then show ?thesis using assms foh by (cases "ts_conditioner_engaged st") (simp_all add: condition_pose_target_def Let_def)
qed

lemma condition_keeps:
  assumes "condition_pose_target fl cfg st raw s fresh now diag = (st', p, diag')"
  shows "tick_view st' = tick_view st" "ts_last_emitted_target_stand st' = Some p"
proof -
  have "tick_view st' = tick_view st \<and> ts_last_emitted_target_stand st' = Some p"
    using assms
  proof (cases rule: condition_cases)
    case off
    then show ?thesis by (simp add: tick_view_def clutch_view_def)
  next
    case (foh st1 diag1)
    have "tick_view st1 = tick_view st" unfolding foh(3) by (simp add: tick_view_def umi_keep)
    then show ?thesis using emit_keeps [OF foh(4)] by (simp add: schedule_keeps split: if_splits)
  qed
  then show "tick_view st' = tick_view st" "ts_last_emitted_target_stand st' = Some p" by simp_all
qed

lemma lead_cases:
  assumes "apply_target_lead_clamp fl cfg st pose snapshot side diag = Inr (st', p, diag')"
  obtains (free) "st' = st" "p = pose" "tcp_stand_transform snapshot side = Inr None \<or> \<not> lc_enable (uc_target_lead_clamp cfg)"
  | (clamped) tf axes where "lc_enable (uc_target_lead_clamp cfg)" "tcp_stand_transform snapshot side = Inr (Some tf)"
      "clamp_pose6_lead (transform_to_pose6 tf) pose (lc_max_target_lead_m (uc_target_lead_clamp cfg)) (lc_max_target_lead_rad (uc_target_lead_clamp cfg)) = (p, axes)"
      "st' = (if axes \<noteq> [] \<and> lc_rebase_conditioner_on_clamp (uc_target_lead_clamp cfg) then rebase_conditioner st p else st)"
proof -
  obtain live where live: "tcp_stand_transform snapshot side = Inr live"
    using assms by (cases "tcp_stand_transform snapshot side") (simp_all add: apply_target_lead_clamp_def Let_def)
  show ?thesis
  proof (cases "live = None \<or> \<not> lc_enable (uc_target_lead_clamp cfg)")
    case True
    then have "st' = st" "p = pose" using assms live by (auto simp: apply_target_lead_clamp_def Let_def split: option.splits)
    then show ?thesis using free True live by auto
  next
    case False
    then obtain tf where tf: "live = Some tf" by (cases live) simp_all
    obtain q axes where c: "clamp_pose6_lead (transform_to_pose6 tf) pose (lc_max_target_lead_m (uc_target_lead_clamp cfg))
        (lc_max_target_lead_rad (uc_target_lead_clamp cfg)) = (q, axes)" by (rule prod.exhaust)
    have "q = p" "st' = (if axes \<noteq> [] \<and> lc_rebase_conditioner_on_clamp (uc_target_lead_clamp cfg) then rebase_conditioner st p else st)"
      using assms False tf live c by (auto simp: apply_target_lead_clamp_def Let_def split: if_splits)
    then show ?thesis using clamped [OF _ _ c [unfolded \<open>q = p\<close>]] False tf live by simp
  qed
qed

lemma lead_keeps:
  assumes "apply_target_lead_clamp fl cfg st pose snapshot side diag = Inr (st', p, diag')"
  shows "tick_view st' = tick_view st"
  using assms by (cases rule: lead_cases) (simp_all add: tick_view_def umi_keep)

section \<open>A tick that moves\<close>

text \<open>The stages of a tick with the clutch pressed, from the latched state to the emitted pose.\<close>

lemma move_cases:
  assumes "move_target fl cfg side st pika s fresh snapshot now diag = (st', out)" and "latched st"
  obtains st1 gate diag1 st2 arm pk target st3 st4 db raw st5 pose diag2 where
    "update_motion_gate fl cfg st pika now diag = (st1, gate, diag1)" "st2 = (if gate then st1 else hold_latches st1 pika)"
    "ts_arm_init st2 = Some arm" "ts_pika_init st2 = Some pk"
    "target = tf_compose arm (apply_axis_signs cfg (tf_compose (tf_inverse pk) pika))"
    "st3 = st2\<lparr>ts_gate_hold_transform := Some target\<rparr>"
    "apply_target_deadband cfg st3 (clamp_workspace (transform_to_pose6 target) (uc_workspace_bounds cfg)) = (st4, db)"
    "clamp_against_previous cfg st4 db = Inr raw"
    "condition_pose_target fl cfg st4 raw s fresh now diag1 = (st5, pose, diag2)"
    "(\<exists>e. apply_target_lead_clamp fl cfg st5 pose snapshot side diag2 = Inl e \<and> st' = st5 \<and> out = Inl e)
     \<or> (\<exists>st6 p diag3 o1. apply_target_lead_clamp fl cfg st5 pose snapshot side diag2 = Inr (st6, p, diag3)
          \<and> st' = st6\<lparr>ts_previous_target := Some p, ts_last_emitted_target_stand := Some p\<rparr> \<and> out = Inr o1
          \<and> ud_pose o1 = Some p \<and> ud_gripper o1 = Some (gripper_percent (us_gripper s)) \<and> ud_changed o1)"
proof -
  obtain st1 gate diag1 where g: "update_motion_gate fl cfg st pika now diag = (st1, gate, diag1)" by (metis prod_cases3)
  define st2 where "st2 = (if gate then st1 else hold_latches st1 pika)"
  have "latched st1" using assms(2) gate_keeps [OF g] by (simp add: latched_def)
  then have "latched st2" by (simp add: st2_def umi_keep)
  then obtain arm pk prev where l: "ts_arm_init st2 = Some arm" "ts_pika_init st2 = Some pk" "ts_previous_target st2 = Some prev"
    by (auto simp: latched_def)
  define target where "target = tf_compose arm (apply_axis_signs cfg (tf_compose (tf_inverse pk) pika))"
  define st3 where "st3 = st2\<lparr>ts_gate_hold_transform := Some target\<rparr>"
  obtain st4 db where d: "apply_target_deadband cfg st3 (clamp_workspace (transform_to_pose6 target) (uc_workspace_bounds cfg)) = (st4, db)" by (rule prod.exhaust)
  have "ts_previous_target st4 = Some prev" using deadband_keeps(4) [OF d] l(3) by (simp add: st3_def)
  then obtain raw where c: "clamp_against_previous cfg st4 db = Inr raw"
    by (cases "pose_diff db prev") (auto simp: clamp_against_previous_def clamp_pose_delta_six)
  obtain st5 pose diag2 where f: "condition_pose_target fl cfg st4 raw s fresh now diag1 = (st5, pose, diag2)" by (metis prod_cases3)
  have m: "move_target fl cfg side st pika s fresh snapshot now diag =
      (case apply_target_lead_clamp fl cfg st5 pose snapshot side diag2 of
         Inl e \<Rightarrow> (st5, Inl e)
       | Inr (st6, p, diag3) \<Rightarrow> (st6\<lparr>ts_previous_target := Some p, ts_last_emitted_target_stand := Some p\<rparr>,
           Inr \<lparr>ud_pose = Some p, ud_gripper = Some (gripper_percent (us_gripper s)), ud_changed = True,
                ud_diag = update_delta_diag fl (ts_previous_target st3) raw p diag3\<rparr>))"
    by (simp add: move_target_def g st2_def [symmetric] l target_def [symmetric] st3_def [symmetric] d c f del: split_paired_All)
  show ?thesis
  proof (rule that [OF g st2_def l(1,2) target_def st3_def d c f])
    show "(\<exists>e. apply_target_lead_clamp fl cfg st5 pose snapshot side diag2 = Inl e \<and> st' = st5 \<and> out = Inl e)
     \<or> (\<exists>st6 p diag3 o1. apply_target_lead_clamp fl cfg st5 pose snapshot side diag2 = Inr (st6, p, diag3)
          \<and> st' = st6\<lparr>ts_previous_target := Some p, ts_last_emitted_target_stand := Some p\<rparr> \<and> out = Inr o1
          \<and> ud_pose o1 = Some p \<and> ud_gripper o1 = Some (gripper_percent (us_gripper s)) \<and> ud_changed o1)"
      using assms(1) unfolding m
      by (cases "apply_target_lead_clamp fl cfg st5 pose snapshot side diag2") (auto simp del: split_paired_Ex)
  qed
qed

lemma move_keeps:
  assumes "move_target fl cfg side st pika s fresh snapshot now diag = (st', out)" and "latched st"
  shows "clutch_view st' = clutch_view st \<and> latched st'"
proof -
  from assms obtain st1 gate diag1 st2 target st3 st4 db raw st5 pose diag2 where M:
    "update_motion_gate fl cfg st pika now diag = (st1, gate, diag1)" "st2 = (if gate then st1 else hold_latches st1 pika)"
    "st3 = st2\<lparr>ts_gate_hold_transform := Some target\<rparr>"
    "apply_target_deadband cfg st3 (clamp_workspace (transform_to_pose6 target) (uc_workspace_bounds cfg)) = (st4, db)"
    "condition_pose_target fl cfg st4 raw s fresh now diag1 = (st5, pose, diag2)"
    "st' = st5 \<or> (\<exists>st6 p diag3. apply_target_lead_clamp fl cfg st5 pose snapshot side diag2 = Inr (st6, p, diag3)
          \<and> st' = st6\<lparr>ts_previous_target := Some p, ts_last_emitted_target_stand := Some p\<rparr>)"
    by (rule move_cases) blast
  have 1: "clutch_view st1 = clutch_view st" "latched st1" using assms(2) gate_keeps [OF M(1)] by (simp_all add: latched_def)
  have 2: "clutch_view st2 = clutch_view st" "latched st2" unfolding M(2) using 1 by (simp_all add: umi_keep)
  have 3: "clutch_view st3 = clutch_view st" "latched st3" unfolding M(3) using 2 by (simp_all add: clutch_view_def latched_def)
  have 4: "clutch_view st4 = clutch_view st" "latched st4" using 3 deadband_keeps [OF M(4)] by (simp_all add: latched_def)
  have 5: "clutch_view st5 = clutch_view st" "latched st5" using 4 condition_keeps(1) [OF M(5)] by (simp_all add: tick_view_def latched_def)
  from M(6) show ?thesis
  proof
    assume "st' = st5" then show ?thesis using 5 by simp
  next
    assume "\<exists>st6 p diag3. apply_target_lead_clamp fl cfg st5 pose snapshot side diag2 = Inr (st6, p, diag3)
          \<and> st' = st6\<lparr>ts_previous_target := Some p, ts_last_emitted_target_stand := Some p\<rparr>"
    then obtain st6 p diag3 where l: "apply_target_lead_clamp fl cfg st5 pose snapshot side diag2 = Inr (st6, p, diag3)"
      and st': "st' = st6\<lparr>ts_previous_target := Some p, ts_last_emitted_target_stand := Some p\<rparr>" by blast
    have "clutch_view st6 = clutch_view st" "latched st6" using 5 lead_keeps [OF l] by (simp_all add: tick_view_def latched_def)
    then show ?thesis unfolding st' by (simp add: clutch_view_def latched_def)
  qed
qed

lemma reanchor_cases:
  assumes "reanchor cfg side snapshot pika now st diag = Inr (st1, d1)"
  shows "st1 = st \<or> (\<exists>tf. tcp_stand_transform snapshot side = Inr (Some tf) \<and> st1 = latch cfg tf pika now st)"
proof -
  obtain pk where pk: "ts_pika_init st = Some pk" using assms by (cases "ts_pika_init st") (simp_all add: reanchor_def)
  define neutral where "neutral = (fst (pose6_distance (transform_to_pose6 pika) (transform_to_pose6 pk)) \<le> REANCHOR_DEVICE_STILL_LINEAR_M
     \<and> snd (pose6_distance (transform_to_pose6 pika) (transform_to_pose6 pk)) \<le> REANCHOR_DEVICE_STILL_ANGULAR_RAD)"
  let ?anchor = "or_pose (ts_last_emitted_target_stand st) (ts_previous_target st)"
  let ?act = "\<lambda>live. case (live, ?anchor) of
      (Some live_tf, Some a) \<Rightarrow>
        if uc_reanchor_linear_m cfg < fst (pose6_distance (transform_to_pose6 live_tf) a) \<or> uc_reanchor_angular_rad cfg < snd (pose6_distance (transform_to_pose6 live_tf) a)
          then Inr (latch cfg live_tf pika now st, put diag ''reanchor_external'' (PBool True)) else Inr (st, diag)
    | _ \<Rightarrow> (Inr (st, diag) :: (ArmTeleopState \<times> pydict) res)"
  have e: "reanchor cfg side snapshot pika now st diag = res_bind (if neutral then tcp_stand_transform snapshot side else Inr None) ?act"
    unfolding reanchor_def pk neutral_def case_prod_beta Let_def option.case fst_conv snd_conv by (rule refl)
  from assms [unfolded e res_bind_Inr_iff] obtain live
    where live: "(if neutral then tcp_stand_transform snapshot side else Inr None) = Inr live" and r: "?act live = Inr (st1, d1)" by (elim exE conjE)
  show ?thesis
  proof (cases live)
    case None
    then show ?thesis using r by simp
  next
    case (Some tf)
    then have "tcp_stand_transform snapshot side = Inr (Some tf)" using live by (simp split: if_splits)
    then show ?thesis using r Some by (cases ?anchor) (auto split: if_splits)
  qed
qed

text \<open>The states from which a tick with the clutch pressed moves on.\<close>

lemma engaged_cases:
  assumes "engaged_tick fl cfg side st s fresh snapshot now diag = (st', out)" and "ts_was_armed st \<longrightarrow> latched st"
  obtains (raised) e where "st' = st\<lparr>ts_deadman_drop_mono := None\<rparr>" "out = Inl e"
  | (blind) o1 where "\<not> ts_was_armed st" "st' = arm_teleop_init" "out = Inr o1" "ud_pose o1 = None" "\<not> ud_changed o1"
      "tcp_stand_transform snapshot side = Inr None"
  | (moved) st1 pika diag1 where "move_target fl cfg side st1 pika s fresh snapshot now diag1 = (st', out)" "latched st1"
      "clutch_view st1 = (True, None, ts_last_sample st)" "tracker_transform s (uc_gripper_offset cfg) (uc_r_align cfg) = Inr pika"
      "(\<exists>tf. tcp_stand_transform snapshot side = Inr (Some tf) \<and> clutch_view st1 = (True, None, ts_last_sample st)
          \<and> (st1 = (latch cfg tf pika now (st\<lparr>ts_deadman_drop_mono := None\<rparr>))\<lparr>ts_was_armed := True\<rparr>
             \<or> ts_was_armed st \<and> st1 = latch cfg tf pika now (st\<lparr>ts_deadman_drop_mono := None\<rparr>)))
       \<or> ts_was_armed st \<and> st1 = st\<lparr>ts_deadman_drop_mono := None\<rparr>"
proof -
  let ?st = "st\<lparr>ts_deadman_drop_mono := None\<rparr>"
  have view: "clutch_view ?st = (ts_was_armed st, None, ts_last_sample st)" by (simp add: clutch_view_def)
  show ?thesis
  proof (cases "tracker_transform s (uc_gripper_offset cfg) (uc_r_align cfg)")
    case (Inl e)
    then show ?thesis using assms(1) raised by (auto simp: engaged_tick_def)
  next
    case (Inr pika)
    note E = assms(1) [unfolded engaged_tick_def Let_def Inr sum.case]
    consider (new) "\<not> ts_was_armed st" | (held) "ts_was_armed st" "uc_reanchor_on_external_move cfg"
      | (plain) "ts_was_armed st" "\<not> uc_reanchor_on_external_move cfg" by blast
    then show ?thesis
    proof cases
      case new
      show ?thesis
      proof (cases "tcp_stand_transform snapshot side")
        case t: (Inl e)
        then show ?thesis using E new raised by (auto simp: engage_def)
      next
        case t: (Inr live)
        show ?thesis
        proof (cases live)
          case None
          then show ?thesis using E new t by (intro blind) (auto simp: engage_def)
        next
          case (Some tf)
          let ?st1 = "(latch cfg tf pika now ?st)\<lparr>ts_was_armed := True\<rparr>"
          have v: "clutch_view ?st1 = (True, None, ts_last_sample st)"
            using latch_keeps(1) [of cfg tf pika now ?st] view by (simp add: clutch_view_def)
          have "latched ?st1" by (simp add: latched_def umi_keep)
          moreover have "\<exists>d. move_target fl cfg side ?st1 pika s fresh snapshot now d = (st', out)"
            using E new t Some by (auto simp: engage_def)
          ultimately show ?thesis using moved [OF _ _ v Inr] v t Some by blast
        qed
      qed
    next
      case held
      have l: "latched ?st" using assms(2) held(1) by (simp add: latched_def)
      have a: "clutch_view ?st = (True, None, ts_last_sample st)" using view held(1) by simp
      show ?thesis
      proof (cases "reanchor cfg side snapshot pika now ?st diag")
        case r: (Inl e)
        then show ?thesis using E held raised by auto
      next
        case r: (Inr q)
        obtain st1 d1 where q: "q = (st1, d1)" by fastforce
        have m: "move_target fl cfg side st1 pika s fresh snapshot now d1 = (st', out)" using E held r q by simp
        have "st1 = ?st \<or> (\<exists>tf. tcp_stand_transform snapshot side = Inr (Some tf) \<and> st1 = latch cfg tf pika now ?st)"
          using reanchor_cases r q by simp
        then show ?thesis
        proof
          assume "st1 = ?st" then show ?thesis using moved [OF m _ _ Inr] l a held(1) by simp
        next
          assume "\<exists>tf. tcp_stand_transform snapshot side = Inr (Some tf) \<and> st1 = latch cfg tf pika now ?st"
          then obtain tf where tf: "tcp_stand_transform snapshot side = Inr (Some tf)" "st1 = latch cfg tf pika now ?st" by blast
          have "clutch_view st1 = (True, None, ts_last_sample st)" "latched st1"
            using a by (simp_all add: tf(2) umi_keep latched_def)
          then show ?thesis using moved [OF m _ _ Inr] tf held(1) by blast
        qed
      qed
    next
      case plain
      have "latched ?st" using assms(2) plain(1) by (simp add: latched_def)
      moreover have "clutch_view ?st = (True, None, ts_last_sample st)" using view plain(1) by simp
      ultimately show ?thesis using E plain moved [OF _ _ _ Inr, of ?st diag] by simp
    qed
  qed
qed

section \<open>Runs of one side\<close>

datatype UmiEvent =
    UeTick "UmiSample option res" StateSnapshot pyfloat
  | UeReset

definition idle_side :: UmiSide where
  "idle_side = \<lparr>ud_pose = None, ud_gripper = None, ud_changed = False, ud_diag = []\<rparr>"

fun umi_side_step :: "(real \<Rightarrow> pyfloat) \<Rightarrow> UmiConfig \<Rightarrow> string \<Rightarrow> ArmTeleopState \<times> PoseMovingAverage \<Rightarrow> UmiEvent
    \<Rightarrow> (ArmTeleopState \<times> PoseMovingAverage) \<times> UmiSide res" where
  "umi_side_step fl cfg side arm (UeTick outcome snapshot now) = target_for_side fl cfg side arm outcome snapshot now"
| "umi_side_step fl cfg side arm UeReset = (apfst clear_latches arm, Inr idle_side)"

text \<open>The samples that were read, and whether one of an event has the clutch pressed.\<close>

fun reads :: "UmiEvent \<Rightarrow> UmiSample list" where
  "reads (UeTick (Inr (Some s)) _ _) = [s]"
| "reads _ = []"

definition last_read :: "UmiEvent list \<Rightarrow> UmiSample option" where
  "last_read h = (let ss = concat (map reads h) in if ss = [] then None else Some (last ss))"

definition pressed :: "UmiEvent \<Rightarrow> bool" where
  "pressed e = list_ex us_deadman (reads e)"

fun umi_time :: "UmiEvent \<Rightarrow> pyfloat" where
  "umi_time (UeTick _ _ now) = now"
| "umi_time UeReset = NaN"

definition last_pressed :: "UmiEvent list \<Rightarrow> bool" where
  "last_pressed h = (case last_read h of None \<Rightarrow> False | Some s \<Rightarrow> us_deadman s)"

text \<open>The clutch was released at time \<open>t\<close>: from then on no sample had it pressed, and the last one before had.\<close>

definition released_since :: "pyfloat \<Rightarrow> UmiEvent list \<Rightarrow> bool" where
  "released_since t h = (\<exists>pre w. h = pre @ w \<and> w \<noteq> [] \<and> umi_time (hd w) = t \<and> list_all (\<lambda>e. \<not> pressed e) w \<and> last_pressed pre)"

definition umi_inv :: "UmiEvent list \<Rightarrow> ArmTeleopState \<times> PoseMovingAverage \<Rightarrow> bool" where
  "umi_inv h arm =
     (let st = fst arm in
      (\<forall>s. ts_last_sample st = Some s \<longrightarrow> last_read h = Some s)
      \<and> (if ts_was_armed st then latched st \<and> (ts_deadman_drop_mono st = None \<longrightarrow> (\<exists>s. ts_last_sample st = Some s \<and> us_deadman s))
         else ts_deadman_drop_mono st = None \<and> ts_gate_hold_transform st = None)
      \<and> (\<forall>t. ts_deadman_drop_mono st = Some t \<longrightarrow> released_since t h))"

lemma last_read_snoc: "last_read (h @ [e]) = (case reads e of [] \<Rightarrow> last_read h | ss \<Rightarrow> Some (last ss))"
  by (auto simp: last_read_def Let_def split: list.split)

lemma last_read_tick:
  "last_read (h @ [UeTick (Inr read) snapshot now]) = (case read of None \<Rightarrow> last_read h | Some s \<Rightarrow> Some s)"
  by (cases read) (simp_all add: last_read_snoc)

lemma released_extend: "released_since t h \<Longrightarrow> \<not> pressed e \<Longrightarrow> released_since t (h @ [e])"
proof -
  assume "released_since t h" and e: "\<not> pressed e"
  then obtain pre w where "h = pre @ w" "w \<noteq> []" "umi_time (hd w) = t" "list_all (\<lambda>e. \<not> pressed e) w" "last_pressed pre"
    unfolding released_since_def by blast
  then show ?thesis unfolding released_since_def using e by (intro exI [of _ pre] exI [of _ "w @ [e]"]) simp
qed

lemma released_now: "last_pressed h \<Longrightarrow> \<not> pressed e \<Longrightarrow> released_since (umi_time e) (h @ [e])"
  unfolding released_since_def by (intro exI [of _ h] exI [of _ "[e]"]) simp

lemma umi_inv_fresh: "fst arm = arm_teleop_init \<Longrightarrow> umi_inv h arm"
  by (simp add: umi_inv_def)

lemma tick_last_sample:
  assumes "umi_inv h (st, ma)" and "ts_last_sample (note_read st read) = Some s"
  shows "last_read (h @ [UeTick (Inr read) snapshot now]) = Some s"
  using assms by (auto simp: umi_inv_def last_read_tick split: option.splits)

lemma released_tick_cases:
  assumes "released_tick cfg st s now diag = (st', o1)"
  obtains (off) "st' = arm_teleop_init" "ud_pose o1 = None"
  | (grace) drop where "ts_was_armed st" "drop = (case ts_deadman_drop_mono st of None \<Rightarrow> now | Some t \<Rightarrow> t)"
      "now - drop < uc_deadman_release_grace_sec cfg" "st' = st\<lparr>ts_deadman_drop_mono := Some drop\<rparr>"
      "ud_pose o1 = or_pose (ts_last_emitted_target_stand st) (ts_previous_target st)"
  using assms by (auto simp: released_tick_def Let_def simp del: split_paired_Ex split_paired_All not_None_eq split: if_splits)

lemma umi_inv_tick:
  assumes inv: "umi_inv h (st, ma)" and t: "target_for_side fl cfg side (st, ma) outcome snapshot now = (arm', out)"
  shows "umi_inv (h @ [UeTick outcome snapshot now]) arm'"
  using t
proof (cases rule: tick_cases)
  case (raised e)
  have "last_read (h @ [UeTick outcome snapshot now]) = last_read h" "\<not> pressed (UeTick outcome snapshot now)"
    by (simp_all add: raised(1) last_read_snoc pressed_def)
  then show ?thesis using inv unfolding umi_inv_def raised(2) by (auto simp: Let_def intro: released_extend)
next
  case (stopped read o1)
  then show ?thesis by (intro umi_inv_fresh)
next
  case (released read s diag o1)
  let ?e = "UeTick outcome snapshot now"
  have lr: "last_read (h @ [?e]) = Some s" unfolding released(1) by (rule tick_last_sample [OF inv released(2)])
  have np: "\<not> pressed ?e" using released(2,4) by (cases read) (auto simp: pressed_def released(1))
  show ?thesis using released(5)
  proof (cases rule: released_tick_cases)
    case off
    then show ?thesis by (intro umi_inv_fresh)
  next
    case (grace drop)
    have "released_since drop (h @ [?e])"
    proof (cases "ts_deadman_drop_mono st")
      case None
      then have "last_pressed h" using inv grace(1) by (auto simp: umi_inv_def last_pressed_def)
      from released_now [OF this np] show ?thesis using grace(2) None by simp
    next
      case (Some t)
      then have "released_since t h" using inv by (simp add: umi_inv_def Let_def)
      from released_extend [OF this np] show ?thesis using grace(2) Some by simp
    qed
    moreover have "latched (fst arm')" using inv grace(1) unfolding grace(4) by (simp add: umi_inv_def Let_def)
    ultimately show ?thesis using lr released(2) grace(1) unfolding umi_inv_def grace(4) by (simp add: Let_def)
  qed
next
  case (engaged read s fresh diag)
  let ?e = "UeTick outcome snapshot now"
  have lr: "last_read (h @ [?e]) = Some s" unfolding engaged(1) by (rule tick_last_sample [OF inv engaged(2)])
  have l: "ts_was_armed (note_read st read) \<longrightarrow> latched (note_read st read)" using inv by (simp add: umi_inv_def Let_def)
  show ?thesis using engaged(5) l
  proof (cases rule: engaged_cases)
    case (raised e)
    have "\<not> ts_was_armed st \<longrightarrow> ts_gate_hold_transform st = None" using inv by (simp add: umi_inv_def Let_def)
    then show ?thesis using lr engaged(2,4) l unfolding umi_inv_def raised(1) by (simp add: Let_def)
  next
    case (blind o1)
    then show ?thesis by (intro umi_inv_fresh)
  next
    case (moved st1 pika diag1)
    have "clutch_view (fst arm') = (True, None, Some s)" "latched (fst arm')"
      using move_keeps [OF moved(1,2)] moved(3) engaged(2) by simp_all
    then show ?thesis using lr engaged(4) by (simp add: umi_inv_def clutch_view_def)
  qed
qed

interpretation umi_side: history_machine "umi_side_step fl cfg side" "(arm_teleop_init, ma_init n)" umi_inv for fl cfg side n
proof
  show "umi_inv [] (arm_teleop_init, ma_init n)" by (rule umi_inv_fresh) simp
  show "umi_inv (h @ [e]) (fst (umi_side_step fl cfg side arm e))" if "umi_inv h arm" for h arm e
  proof (cases e)
    case (UeTick outcome snapshot now)
    obtain st ma where arm: "arm = (st, ma)" by fastforce
    show ?thesis unfolding UeTick arm umi_side_step.simps by (rule umi_inv_tick [OF that [unfolded arm] surjective_pairing])
  next
    case UeReset
    then show ?thesis by (intro umi_inv_fresh) simp
  qed
qed

section \<open>Positions\<close>

lemma pose6_position [simp]: "pose_position (transform_to_pose6 t) = tf_translation t"
  by (simp add: transform_to_pose6_def)

fun axis_close :: "real \<Rightarrow> vec3 \<Rightarrow> vec3 \<Rightarrow> bool" where
  "axis_close m (x, y, z) (x', y', z') = (\<bar>x' - x\<bar> \<le> m \<and> \<bar>y' - y\<bar> \<le> m \<and> \<bar>z' - z\<bar> \<le> m)"

lemma axis_close_self [simp]: "0 \<le> m \<Longrightarrow> axis_close m u u"
  by (cases u) simp

lemma close_between:
  assumes "axis_close m u v" and "between u v s" and "between u v t"
  shows "axis_close m s t"
proof -
  obtain x y z where u: "u = (x, y, z)" by (cases u)
  obtain x' y' z' where v: "v = (x', y', z')" by (cases v)
  obtain a b c where s: "s = (a, b, c)" by (cases s)
  obtain a' b' c' where t: "t = (a', b', c')" by (cases t)
  have "\<bar>p' - p\<bar> \<le> m" if "\<bar>q' - q\<bar> \<le> m" "min q q' \<le> p" "p \<le> max q q'" "min q q' \<le> p'" "p' \<le> max q q'" for p p' q q' :: real
    using that by (auto simp: min_def max_def abs_if split: if_splits)
  then show ?thesis using assms unfolding u v s t by (simp only: axis_close.simps between.simps) blast
qed

lemma clamp_toward:
  fixes v w limit :: real
  assumes "0 \<le> limit"
  shows "min v w \<le> v + clamp_value (w - v) limit" "v + clamp_value (w - v) limit \<le> max v w" "\<bar>v + clamp_value (w - v) limit - v\<bar> \<le> limit"
  using assms by (auto simp: clamp_value_def min_def max_def)

lemma clamp_previous_position:
  assumes "clamp_against_previous cfg st pose = Inr raw" and "ts_previous_target st = Some prev"
  shows "between (pose_position prev) (pose_position pose) (pose_position raw)"
    and "axis_close \<bar>uc_max_linear_step_m cfg\<bar> (pose_position prev) (pose_position raw)"
proof -
  obtain x y z rx ry rz where prev: "prev = (x, y, z, rx, ry, rz)" by (cases prev)
  obtain a b c ra rb rc where pose: "pose = (a, b, c, ra, rb, rc)" by (cases pose)
  let ?m = "\<bar>uc_max_linear_step_m cfg\<bar>"
  have "pose_position raw = (x + clamp_value (a - x) ?m, y + clamp_value (b - y) ?m, z + clamp_value (c - z) ?m)"
    using assms by (auto simp: clamp_against_previous_def clamp_pose_delta_six prev pose)
  then show "between (pose_position prev) (pose_position pose) (pose_position raw)" "axis_close ?m (pose_position prev) (pose_position raw)"
    using clamp_toward [of ?m] by (simp_all add: prev pose)
qed

lemma emit_position:
  assumes "emit_schedule fl st raw n diag = (st', p, diag')"
  obtains (scheduled) a b where "ts_schedule_start_target_stand st = Some a" "ts_schedule_end_target_stand st = Some b"
      "between (pose_position a) (pose_position b) (pose_position p)"
      "ts_schedule_start_target_stand st' = None \<and> ts_schedule_end_target_stand st' = None
       \<or> ts_schedule_start_target_stand st' = Some a \<and> ts_schedule_end_target_stand st' = Some b"
  | (idle) "p = pose_or (ts_last_emitted_target_stand st) raw" "ts_schedule_start_target_stand st' = ts_schedule_start_target_stand st"
      "ts_schedule_end_target_stand st' = ts_schedule_end_target_stand st"
proof (cases "ts_schedule_start_target_stand st")
  case None
  then show ?thesis using assms idle by (auto simp: emit_schedule_def Let_def)
next
  case a: (Some a)
  show ?thesis
  proof (cases "ts_schedule_end_target_stand st")
    case None
    then show ?thesis using assms idle a by (auto simp: emit_schedule_def Let_def)
  next
    case b: (Some b)
    show ?thesis
    proof (cases "ts_schedule_start_time_ns st = None \<or> ts_schedule_end_time_ns st = None")
      case True
      then show ?thesis using assms a b by (intro idle) (auto simp: emit_schedule_def Let_def split: option.splits)
    next
      case False
      then obtain t0 t1 where "ts_schedule_start_time_ns st = Some t0" "ts_schedule_end_time_ns st = Some t1" by auto
      then show ?thesis using assms a b
        by (intro scheduled [of a b]) (auto simp: emit_schedule_def Let_def clear_schedule_def intro: interpolate_between split: if_splits)
    qed
  qed
qed

text \<open>An armed side has its latches.\<close>

lemma tick_latched:
  assumes t: "target_for_side fl cfg side (st, ma) outcome snapshot now = (arm', out)" and st: "ts_was_armed st \<longrightarrow> latched st"
  shows "ts_was_armed (fst arm') \<longrightarrow> latched (fst arm')"
  using t
proof (cases rule: tick_cases)
  case (raised e)
  then show ?thesis using st by simp
next
  case (stopped read o1)
  then show ?thesis by simp
next
  case (released read s diag o1)
  show ?thesis using released(5) by (cases rule: released_tick_cases) (use st in simp_all)
next
  case (engaged read s fresh diag)
  show ?thesis using engaged(5) st [folded note_read_keeps(1) [of st read] latched_simps(2) [of st read]]
    by (cases rule: engaged_cases) (use st move_keeps in auto)
qed

section \<open>The workspace\<close>

definition pose_in :: "workspace option \<Rightarrow> pose6 option \<Rightarrow> bool" where
  "pose_in w o1 = (case o1 of None \<Rightarrow> True | Some p \<Rightarrow> in_workspace w (pose_position p))"

lemma pose_in_simps [simp]: "pose_in w None" "pose_in w (Some p) = in_workspace w (pose_position p)"
  by (simp_all add: pose_in_def)

definition poses_in :: "workspace option \<Rightarrow> ArmTeleopState \<Rightarrow> bool" where
  "poses_in w st = (pose_in w (ts_previous_target st) \<and> pose_in w (ts_last_emitted_target_stand st) \<and> pose_in w (ts_deadband_target st)
     \<and> pose_in w (ts_schedule_start_target_stand st) \<and> pose_in w (ts_schedule_end_target_stand st))"

lemma poses_in_init [simp]: "poses_in w arm_teleop_init"
  by (simp add: poses_in_def)

lemma poses_in_reset: "poses_in w st \<Longrightarrow> in_workspace w (pose_position a) \<Longrightarrow> poses_in w (reset_conditioner st (Some a) now)"
  by (simp add: poses_in_def reset_conditioner_def Let_def)

lemma poses_in_latch:
  assumes "poses_in w st" and "in_workspace w (tf_translation tf)"
  shows "poses_in w (latch cfg tf pika now st)"
  using assms by (simp add: latch_def Let_def poses_in_def reset_conditioner_def)

lemma or_pose_in: "poses_in w st \<Longrightarrow> in_workspace w (pose_position raw) \<Longrightarrow>
    in_workspace w (pose_position (pose_or (or_pose (ts_last_emitted_target_stand st) (ts_previous_target st)) raw))"
  by (cases "ts_last_emitted_target_stand st"; cases "ts_previous_target st") (simp_all add: poses_in_def pose_or_def or_pose_def)

lemma condition_in:
  assumes c: "condition_pose_target fl cfg st raw s fresh now diag = (st', p, diag')" and st: "poses_in w st" and raw: "in_workspace w (pose_position raw)"
  shows "poses_in w st' \<and> in_workspace w (pose_position p)"
  using c
proof (cases rule: condition_cases)
  case off
  then show ?thesis using st raw by (simp add: poses_in_def)
next
  case (foh st1 diag1)
  have 1: "poses_in w st1" unfolding foh(3) using st raw by (simp add: poses_in_reset or_pose_in)
  let ?st2 = "if fresh then schedule_fresh cfg st1 raw s now else st1"
  have 2: "poses_in w ?st2" using 1 raw or_pose_in [OF 1 raw] by (simp add: poses_in_def schedule_fresh_def Let_def)
  have p: "in_workspace w (pose_position p)" using foh(4)
  proof (cases rule: emit_position)
    case (scheduled a b)
    then have "in_workspace w (pose_position a)" "in_workspace w (pose_position b)" using 2 by (simp_all add: poses_in_def)
    then show ?thesis using scheduled(3) by (rule workspace_between)
  next
    case idle
    then show ?thesis using 2 raw by (cases "ts_last_emitted_target_stand ?st2") (simp_all add: poses_in_def pose_or_def)
  qed
  have kept: "tick_view st' = tick_view ?st2" "ts_last_emitted_target_stand st' = Some p" using emit_keeps [OF foh(4)] by simp_all
  have "poses_in w st'" using foh(4)
  proof (cases rule: emit_position)
    case (scheduled a b)
    then show ?thesis using 2 p kept unfolding poses_in_def tick_view_def by (elim disjE) simp_all
  next
    case idle
    then show ?thesis using 2 p kept unfolding poses_in_def tick_view_def by simp
  qed
  then show ?thesis using p ..
qed

text \<open>The live position a tick can see lies in the workspace.\<close>

definition live_in :: "workspace option \<Rightarrow> StateSnapshot \<Rightarrow> string \<Rightarrow> bool" where
  "live_in w snapshot side = (case tcp_stand_transform snapshot side of Inr (Some tf) \<Rightarrow> in_workspace w (tf_translation tf) | _ \<Rightarrow> True)"

lemma move_in:
  assumes m: "move_target fl cfg side st pika s fresh snapshot now diag = (st', out)" and l: "latched st" and st: "poses_in w st"
    and w: "uc_workspace_bounds cfg = w" "ordered_workspace w" and live: "live_in w snapshot side"
    and lead: "0 \<le> lc_max_target_lead_m (uc_target_lead_clamp cfg)"
  shows "poses_in w st' \<and> (\<forall>o1 p. out = Inr o1 \<longrightarrow> ud_pose o1 = Some p \<longrightarrow> in_workspace w (pose_position p))"
proof -
  from m l obtain st1 gate diag1 st2 target st3 st4 db raw st5 pose diag2 where M:
    "update_motion_gate fl cfg st pika now diag = (st1, gate, diag1)" "st2 = (if gate then st1 else hold_latches st1 pika)"
    "st3 = st2\<lparr>ts_gate_hold_transform := Some target\<rparr>"
    "apply_target_deadband cfg st3 (clamp_workspace (transform_to_pose6 target) (uc_workspace_bounds cfg)) = (st4, db)"
    "clamp_against_previous cfg st4 db = Inr raw"
    "condition_pose_target fl cfg st4 raw s fresh now diag1 = (st5, pose, diag2)"
    "(\<exists>e. apply_target_lead_clamp fl cfg st5 pose snapshot side diag2 = Inl e \<and> st' = st5 \<and> out = Inl e)
     \<or> (\<exists>st6 p diag3 o1. apply_target_lead_clamp fl cfg st5 pose snapshot side diag2 = Inr (st6, p, diag3)
          \<and> st' = st6\<lparr>ts_previous_target := Some p, ts_last_emitted_target_stand := Some p\<rparr> \<and> out = Inr o1 \<and> ud_pose o1 = Some p)"
    by (rule move_cases) blast
  have 1: "poses_in w st1" using st gate_keeps [OF M(1)] by (simp add: poses_in_def hold_view_def)
  have 2: "poses_in w st2" unfolding M(2) using 1 by (simp add: poses_in_def umi_keep)
  have 3: "poses_in w st3" unfolding M(3) using 2 by (simp add: poses_in_def)
  have t: "in_workspace w (pose_position (clamp_workspace (transform_to_pose6 target) (uc_workspace_bounds cfg)))"
    using clamp_workspace_in [OF w(2)] w(1) by simp
  have 4: "poses_in w st4" "in_workspace w (pose_position db)"
    using 3 deadband_keeps [OF M(4)] t by (auto simp: poses_in_def hold_view_def)
  have "latched st1" using l gate_keeps [OF M(1)] by (simp add: latched_def)
  then have "latched st2" by (simp add: M(2) umi_keep)
  then obtain prev where prev: "ts_previous_target st4 = Some prev"
    using deadband_keeps(4) [OF M(4)] by (auto simp: M(3) latched_def simp del: split_paired_Ex)
  have "in_workspace w (pose_position raw)"
    by (rule workspace_between [OF _ 4(2) clamp_previous_position(1) [OF M(5) prev]]) (use 4(1) prev in \<open>simp add: poses_in_def\<close>)
  with condition_in [OF M(6) 4(1)] have 5: "poses_in w st5" "in_workspace w (pose_position pose)" by simp_all
  from M(7) show ?thesis
  proof (elim disjE exE conjE)
    fix e assume "st' = st5" "out = Inl e" then show ?thesis using 5 by simp
  next
    fix st6 p diag3 o1
    assume a: "apply_target_lead_clamp fl cfg st5 pose snapshot side diag2 = Inr (st6, p, diag3)"
      and st': "st' = st6\<lparr>ts_previous_target := Some p, ts_last_emitted_target_stand := Some p\<rparr>" and out: "out = Inr o1" "ud_pose o1 = Some p"
    have "in_workspace w (pose_position p) \<and> poses_in w st6" using a
    proof (cases rule: lead_cases)
      case free
      then show ?thesis using 5 by simp
    next
      case (clamped tf axes)
      have "in_workspace w (tf_translation tf)" using live clamped(2) by (simp add: live_in_def)
      then have "in_workspace w (pose_position p)" using workspace_between [OF _ 5(2)] lead_between [OF lead clamped(3)] by simp
      then show ?thesis unfolding clamped(4) using 5(1) by (simp add: poses_in_def rebase_conditioner_def)
    qed
    then show ?thesis unfolding st' using out by (simp add: poses_in_def)
  qed
qed

lemma tick_in:
  assumes t: "target_for_side fl cfg side (st, ma) outcome snapshot now = (arm', out)" and st: "poses_in w st" and armed: "ts_was_armed st \<longrightarrow> latched st"
    and w: "uc_workspace_bounds cfg = w" "ordered_workspace w" and live: "live_in w snapshot side"
    and lead: "0 \<le> lc_max_target_lead_m (uc_target_lead_clamp cfg)"
  shows "poses_in w (fst arm') \<and> (\<forall>o1 p. out = Inr o1 \<longrightarrow> ud_pose o1 = Some p \<longrightarrow> in_workspace w (pose_position p))"
proof -
  have n: "poses_in w (note_read st read)" for read using st by (simp add: poses_in_def)
  show ?thesis using t
  proof (cases rule: tick_cases)
    case (raised e)
    then show ?thesis using st by simp
  next
    case (stopped read o1)
    then show ?thesis by simp
  next
    case (released read s diag o1)
    show ?thesis using released(5)
    proof (cases rule: released_tick_cases)
      case off
      then show ?thesis using released(6) by simp
    next
      case (grace drop)
      have "poses_in w (fst arm')" unfolding grace(4) using n [of read] by (simp add: poses_in_def)
      moreover have "in_workspace w (pose_position p)" if "ud_pose o1 = Some p" for p
        using st that grace(5)
        by (cases "ts_last_emitted_target_stand st"; cases "ts_previous_target st") (simp_all add: poses_in_def or_pose_def)
      ultimately show ?thesis using released(6) by simp
    qed
  next
    case (engaged read s fresh diag)
    show ?thesis using engaged(5) armed [folded note_read_keeps(1) [of st read] latched_simps(2) [of st read]]
    proof (cases rule: engaged_cases)
      case (raised e)
      then show ?thesis using n [of read] by (simp add: poses_in_def)
    next
      case (blind o1)
      then show ?thesis by simp
    next
      case (moved st1 pika diag1)
      have d: "poses_in w ((note_read st read)\<lparr>ts_deadman_drop_mono := None\<rparr>)" using n [of read] by (simp add: poses_in_def)
      have "poses_in w st1" using moved(5)
      proof (elim disjE exE conjE)
        fix tf assume tf: "tcp_stand_transform snapshot side = Inr (Some tf)"
          and s1: "st1 = (latch cfg tf pika now ((note_read st read)\<lparr>ts_deadman_drop_mono := None\<rparr>))\<lparr>ts_was_armed := True\<rparr>"
        have "in_workspace w (tf_translation tf)" using live tf by (simp add: live_in_def)
        from poses_in_latch [OF d this] show ?thesis unfolding s1 by (simp add: poses_in_def)
      next
        fix tf assume tf: "tcp_stand_transform snapshot side = Inr (Some tf)"
          and s1: "st1 = latch cfg tf pika now ((note_read st read)\<lparr>ts_deadman_drop_mono := None\<rparr>)"
        have "in_workspace w (tf_translation tf)" using live tf by (simp add: live_in_def)
        from poses_in_latch [OF d this] show ?thesis unfolding s1 by simp
      qed (use d in simp)
      from move_in [OF moved(1,2) this w live lead] show ?thesis .
    qed
  qed
qed

section \<open>The length of a step\<close>

text \<open>With the first-order hold on, the emitted pose lies on the current segment, and the segment is one step long.\<close>

definition foh_on :: "UmiConfig \<Rightarrow> bool" where
  "foh_on cfg = (tc_enable (uc_conditioning cfg) \<and> tc_mode (uc_conditioning cfg) = ''foh_se3'')"

definition on_segment :: "real \<Rightarrow> ArmTeleopState \<Rightarrow> bool" where
  "on_segment m st = (\<forall>a b q. ts_schedule_start_target_stand st = Some a \<longrightarrow> ts_schedule_end_target_stand st = Some b \<longrightarrow>
     ts_last_emitted_target_stand st = Some q \<longrightarrow>
       axis_close m (pose_position a) (pose_position b) \<and> between (pose_position a) (pose_position b) (pose_position q))"

definition synced :: "UmiConfig \<Rightarrow> ArmTeleopState \<Rightarrow> bool" where
  "synced cfg st = (ts_last_emitted_target_stand st = ts_previous_target st \<and> (ts_was_armed st \<longrightarrow> latched st)
     \<and> (foh_on cfg \<longrightarrow> on_segment \<bar>uc_max_linear_step_m cfg\<bar> st))"

lemma synced_init [simp]: "synced cfg arm_teleop_init"
  by (simp add: synced_def on_segment_def)

lemma segment_cong:
  assumes "ts_schedule_start_target_stand st' = ts_schedule_start_target_stand st" "ts_schedule_end_target_stand st' = ts_schedule_end_target_stand st"
    "ts_last_emitted_target_stand st' = ts_last_emitted_target_stand st"
  shows "on_segment m st' = on_segment m st"
  using assms by (simp only: on_segment_def)

lemma segment_reset: "0 \<le> m \<Longrightarrow> on_segment m (reset_conditioner st (Some a) now)"
  by (simp add: on_segment_def reset_conditioner_def Let_def)

lemma condition_step:
  assumes c: "condition_pose_target fl cfg st raw s fresh now diag = (st', p, diag')" and q: "ts_last_emitted_target_stand st = Some q"
    and seg: "foh_on cfg \<longrightarrow> on_segment m st" and m: "0 \<le> m" and near: "axis_close m (pose_position q) (pose_position raw)"
  shows "axis_close m (pose_position q) (pose_position p) \<and> (foh_on cfg \<longrightarrow> on_segment m st')"
  using c
proof (cases rule: condition_cases)
  case off
  then show ?thesis using near by (auto simp: foh_on_def)
next
  case (foh st1 diag1)
  have q1: "ts_last_emitted_target_stand st1 = Some q" and s1: "on_segment m st1"
    using q seg foh(1,2) m segment_reset [OF m] by (simp_all add: foh(3) foh_on_def pose_or_def or_pose_def reset_conditioner_def Let_def)
  let ?st2 = "if fresh then schedule_fresh cfg st1 raw s now else st1"
  have q2: "ts_last_emitted_target_stand ?st2 = Some q" using q1 by (simp add: schedule_fresh_def Let_def)
  have s2: "on_segment m ?st2" using s1 q1 near by (simp add: on_segment_def schedule_fresh_def pose_or_def or_pose_def Let_def)
  note last = emit_keeps(2) [OF foh(4)]
  show ?thesis using foh(4)
  proof (cases rule: emit_position)
    case (scheduled a b)
    have ab: "axis_close m (pose_position a) (pose_position b)" "between (pose_position a) (pose_position b) (pose_position q)"
      using s2 scheduled(1,2) q2 by (simp_all add: on_segment_def)
    have "on_segment m st'" using scheduled(3,4) last ab(1) by (auto simp: on_segment_def)
    then show ?thesis using close_between [OF ab(1,2) scheduled(3)] by simp
  next
    case idle
    then have "p = q" using q2 by (simp add: pose_or_def)
    then show ?thesis using m s2 q2 last idle(2,3) by (simp add: on_segment_def)
  qed
qed

text \<open>What a moving tick does to the position: one step from where the target was, unless the lead clamp pulls it
  back towards the live pose.\<close>

definition pulled_back :: "UmiConfig \<Rightarrow> StateSnapshot \<Rightarrow> string \<Rightarrow> pose6 \<Rightarrow> bool" where
  "pulled_back cfg snapshot side p =
     (lc_enable (uc_target_lead_clamp cfg) \<and> (\<exists>tf. tcp_stand_transform snapshot side = Inr (Some tf)
        \<and> vnorm (vsub (pose_position p) (tf_translation tf)) \<le> lc_max_target_lead_m (uc_target_lead_clamp cfg)))"

lemma unclamped_same:
  assumes "clamp_pose6_lead ref target m r = (p, [])"
  shows "p = target"
  using assms mk_pose_rpy(2) [of target] by (auto simp: clamp_pose6_lead_def Let_def split: if_splits)

lemma pulled_position:
  assumes "clamp_pose6_lead ref target m r = (p, axes)"
  shows "pose_position p = pose_position target \<or> vnorm (vsub (pose_position p) (pose_position ref)) \<le> m"
  using assms by (auto simp: clamp_pose6_lead_def Let_def vnorm_scale split: if_splits)

lemma move_step:
  assumes m: "move_target fl cfg side st pika s fresh snapshot now diag = (st', Inr o1)" and l: "latched st"
    and last: "ts_last_emitted_target_stand st = ts_previous_target st \<or> \<not> foh_on cfg"
    and prev: "ts_previous_target st = Some q"
    and seg: "foh_on cfg \<longrightarrow> on_segment \<bar>uc_max_linear_step_m cfg\<bar> st"
    and rebase: "lc_enable (uc_target_lead_clamp cfg) \<longrightarrow> lc_rebase_conditioner_on_clamp (uc_target_lead_clamp cfg)"
  shows "\<exists>p. ud_pose o1 = Some p \<and> ts_previous_target st' = Some p \<and> ts_last_emitted_target_stand st' = Some p
    \<and> (foh_on cfg \<longrightarrow> on_segment \<bar>uc_max_linear_step_m cfg\<bar> st')
    \<and> (axis_close \<bar>uc_max_linear_step_m cfg\<bar> (pose_position q) (pose_position p) \<or> pulled_back cfg snapshot side p)"
proof -
  let ?m = "\<bar>uc_max_linear_step_m cfg\<bar>"
  from m l obtain st1 gate diag1 st2 target st3 st4 db raw st5 pose diag2 where M:
    "update_motion_gate fl cfg st pika now diag = (st1, gate, diag1)" "st2 = (if gate then st1 else hold_latches st1 pika)"
    "st3 = st2\<lparr>ts_gate_hold_transform := Some target\<rparr>"
    "apply_target_deadband cfg st3 (clamp_workspace (transform_to_pose6 target) (uc_workspace_bounds cfg)) = (st4, db)"
    "clamp_against_previous cfg st4 db = Inr raw"
    "condition_pose_target fl cfg st4 raw s fresh now diag1 = (st5, pose, diag2)"
    "\<exists>st6 p diag3. apply_target_lead_clamp fl cfg st5 pose snapshot side diag2 = Inr (st6, p, diag3)
          \<and> st' = st6\<lparr>ts_previous_target := Some p, ts_last_emitted_target_stand := Some p\<rparr> \<and> ud_pose o1 = Some p"
    by (rule move_cases) blast
  have v1: "hold_view st1 = hold_view st" "ts_previous_target st1 = Some q" using gate_keeps [OF M(1)] prev by simp_all
  have v2: "hold_view st2 = hold_view st" "ts_previous_target st2 = Some q" unfolding M(2) using v1 by (simp_all add: umi_keep)
  have v3: "hold_view st3 = hold_view st" "ts_previous_target st3 = Some q" unfolding M(3) using v2 by (simp_all add: hold_view_def)
  have v4: "hold_view st4 = hold_view st" "ts_previous_target st4 = Some q" using deadband_keeps(4,5) [OF M(4)] v3 by simp_all
  have raw: "axis_close ?m (pose_position q) (pose_position raw)" by (rule clamp_previous_position(2) [OF M(5) v4(2)])
  have 5: "axis_close ?m (pose_position q) (pose_position pose) \<and> (foh_on cfg \<longrightarrow> on_segment ?m st5)"
  proof (cases "foh_on cfg")
    case True
    have "on_segment ?m st4" "ts_last_emitted_target_stand st4 = Some q"
      using seg True last prev v4(1) segment_cong [of st4 st] by (simp_all add: hold_view_def)
    then show ?thesis using condition_step [OF M(6) _ _ _ raw] by simp
  next
    case False
    then show ?thesis using M(6) raw by (auto simp: condition_pose_target_def foh_on_def)
  qed
  have last5: "ts_last_emitted_target_stand st5 = Some pose" by (rule condition_keeps(2) [OF M(6)])
  from M(7) obtain st6 p diag3 where a: "apply_target_lead_clamp fl cfg st5 pose snapshot side diag2 = Inr (st6, p, diag3)"
    and st': "st' = st6\<lparr>ts_previous_target := Some p, ts_last_emitted_target_stand := Some p\<rparr>" and o1: "ud_pose o1 = Some p" by blast
  have "(foh_on cfg \<longrightarrow> on_segment ?m st') \<and> (axis_close ?m (pose_position q) (pose_position p) \<or> pulled_back cfg snapshot side p)" using a
  proof (cases rule: lead_cases)
    case free
    then show ?thesis using 5 last5 segment_cong [of st' st5] by (simp add: st')
  next
    case (clamped tf axes)
    have pb: "axis_close ?m (pose_position q) (pose_position p) \<or> pulled_back cfg snapshot side p"
      using pulled_position [OF clamped(3)] 5 clamped(1,2) by (auto simp: pulled_back_def)
    show ?thesis
    proof (cases "axes = []")
      case True
      then have "p = pose" using unclamped_same clamped(3) by simp
      then show ?thesis using 5 last5 pb segment_cong [of st' st5] True clamped(4) by (simp add: st')
    next
      case False
      then have "ts_schedule_start_target_stand st' = None" using rebase clamped(1,4) by (simp add: st' rebase_conditioner_def)
      then show ?thesis using pb by (simp add: on_segment_def)
    qed
  qed
  then show ?thesis using o1 st' by auto
qed

text \<open>The configurations for which a step is bounded: with the first-order hold its schedule is reset with the latches,
  and the lead clamp drops the schedule it leaves.\<close>

definition schedule_kept_clean :: "UmiConfig \<Rightarrow> bool" where
  "schedule_kept_clean cfg = ((foh_on cfg \<longrightarrow> tc_reset_on_engage (uc_conditioning cfg))
     \<and> (lc_enable (uc_target_lead_clamp cfg) \<longrightarrow> lc_rebase_conditioner_on_clamp (uc_target_lead_clamp cfg)))"

text \<open>Where the target was before a tick: the last one, or the live pose on a tick that sets the latches.\<close>

definition step_base :: "ArmTeleopState \<Rightarrow> StateSnapshot \<Rightarrow> string \<Rightarrow> pose6 \<Rightarrow> bool" where
  "step_base st snapshot side q = (ts_previous_target st = Some q \<or> (\<exists>tf. tcp_stand_transform snapshot side = Inr (Some tf) \<and> q = transform_to_pose6 tf))"

lemma latch_synced:
  assumes "foh_on cfg \<longrightarrow> tc_reset_on_engage (uc_conditioning cfg)"
  shows "ts_last_emitted_target_stand (latch cfg tf pika now st) = ts_previous_target (latch cfg tf pika now st) \<or> \<not> foh_on cfg"
    and "foh_on cfg \<longrightarrow> on_segment \<bar>m\<bar> (latch cfg tf pika now st)"
  using assms by (auto simp: latch_def Let_def intro: segment_reset) (auto simp: reset_conditioner_def Let_def)

lemma tick_step:
  assumes t: "target_for_side fl cfg side (st, ma) outcome snapshot now = (arm', Inr o1)" and st: "synced cfg st" and clean: "schedule_kept_clean cfg"
  shows "synced cfg (fst arm') \<and> (\<forall>p. ud_pose o1 = Some p \<longrightarrow> ts_previous_target (fst arm') = Some p
    \<and> (ts_previous_target st = Some p
       \<or> (\<exists>q. step_base st snapshot side q \<and> axis_close \<bar>uc_max_linear_step_m cfg\<bar> (pose_position q) (pose_position p))
       \<or> pulled_back cfg snapshot side p))"
  using t
proof (cases rule: tick_cases)
  case (raised e)
  then show ?thesis by simp
next
  case (stopped read o2)
  then show ?thesis by simp
next
  case (released read s diag o2)
  show ?thesis using released(5)
  proof (cases rule: released_tick_cases)
    case off
    then show ?thesis using released(6) by simp
  next
    case (grace drop)
    have "synced cfg (fst arm')" using st unfolding grace(4) synced_def by (simp add: on_segment_def)
    then show ?thesis using released(6) st grace(4,5) by (auto simp: synced_def or_pose_def split: option.splits)
  qed
next
  case (engaged read s fresh diag)
  have l: "ts_was_armed (note_read st read) \<longrightarrow> latched (note_read st read)" using st by (simp add: synced_def)
  show ?thesis using engaged(5) l
  proof (cases rule: engaged_cases)
    case (raised e)
    then show ?thesis by simp
  next
    case (blind o2)
    then show ?thesis by simp
  next
    case (moved st1 pika diag1)
    let ?m = "\<bar>uc_max_linear_step_m cfg\<bar>" and ?st = "(note_read st read)\<lparr>ts_deadman_drop_mono := None\<rparr>"
    obtain q where q: "ts_previous_target st1 = Some q" using moved(2) by (auto simp: latched_def)
    have A: "ts_last_emitted_target_stand st1 = ts_previous_target st1 \<or> \<not> foh_on cfg" "foh_on cfg \<longrightarrow> on_segment ?m st1" "step_base st snapshot side q"
    proof -
      have foh: "foh_on cfg \<longrightarrow> tc_reset_on_engage (uc_conditioning cfg)" using clean by (simp add: schedule_kept_clean_def)
      have "(ts_last_emitted_target_stand st1 = ts_previous_target st1 \<or> \<not> foh_on cfg) \<and> (foh_on cfg \<longrightarrow> on_segment ?m st1) \<and> step_base st snapshot side q"
        using moved(5)
      proof (elim disjE exE conjE)
        fix tf assume tf: "tcp_stand_transform snapshot side = Inr (Some tf)" and s1: "st1 = (latch cfg tf pika now ?st)\<lparr>ts_was_armed := True\<rparr>"
        have "on_segment ?m st1 = on_segment ?m (latch cfg tf pika now ?st)" by (rule segment_cong) (simp_all add: s1)
        then show ?thesis using latch_synced(1) [OF foh, of tf pika now ?st] latch_synced(2) [OF foh, of "uc_max_linear_step_m cfg" tf pika now ?st] q tf by (simp add: s1 step_base_def umi_keep)
      next
        fix tf assume tf: "tcp_stand_transform snapshot side = Inr (Some tf)" and s1: "st1 = latch cfg tf pika now ?st"
        show ?thesis using latch_synced(1) [OF foh, of tf pika now ?st] latch_synced(2) [OF foh, of "uc_max_linear_step_m cfg" tf pika now ?st] q tf by (simp add: s1 step_base_def umi_keep)
      next
        assume s1: "st1 = ?st"
        have "on_segment ?m st1 = on_segment ?m st" by (rule segment_cong) (simp_all add: s1)
        then show ?thesis using st q by (auto simp: s1 synced_def step_base_def)
      qed
      then show "ts_last_emitted_target_stand st1 = ts_previous_target st1 \<or> \<not> foh_on cfg" "foh_on cfg \<longrightarrow> on_segment ?m st1" "step_base st snapshot side q"
        by simp_all
    qed
    have "lc_enable (uc_target_lead_clamp cfg) \<longrightarrow> lc_rebase_conditioner_on_clamp (uc_target_lead_clamp cfg)"
      using clean by (simp add: schedule_kept_clean_def)
    from move_step [OF moved(1,2) A(1) q A(2) this] obtain p where P: "ud_pose o1 = Some p" "ts_previous_target (fst arm') = Some p"
      "ts_last_emitted_target_stand (fst arm') = Some p" "foh_on cfg \<longrightarrow> on_segment ?m (fst arm')"
      "axis_close ?m (pose_position q) (pose_position p) \<or> pulled_back cfg snapshot side p" by blast
    moreover have "latched (fst arm')" using move_keeps [OF moved(1,2)] by simp
    ultimately show ?thesis using A(3) by (auto simp: synced_def)
  qed
qed

section \<open>The activity gate\<close>

lemma signs_identity: "apply_axis_signs cfg tf_id = tf_id"
proof -
  have one: "mat_one = Mat 1 0 0 0 1 0 0 0 1" by (simp add: mat_one_def)
  obtain sx sy sz where l: "uc_linear_axis_signs cfg = (sx, sy, sz)" by (cases "uc_linear_axis_signs cfg")
  obtain ax ay az where a: "uc_angular_axis_signs cfg = (ax, ay, az)" by (cases "uc_angular_axis_signs cfg")
  show ?thesis by (simp add: apply_axis_signs_def tf_id_def one l a Let_def)
qed

lemma tracker_rotation:
  assumes "tracker_transform s off al = Inr pika" and "is_rotation al"
  shows "is_rotation (tf_rotation pika)"
proof -
  have n: "\<not> qnorm (us_quat s) \<le> 0" and p: "tf_rotation pika = mat_mul (quat_to_matrix (us_quat s)) al"
    using assms(1) by (auto simp: tracker_transform_def quat_to_matrix_checked_def Let_def split: if_splits)
  have "is_rotation (quat_to_matrix (us_quat s))"
  proof -
    obtain x y z w where q: "us_quat s = (x, y, z, w)" by (cases "us_quat s")
    let ?n = "sqrt (x * x + y * y + z * z + w * w)"
    have "0 < ?n" using n by (simp add: q qnorm_def)
    then have u: "unit_quat (x / ?n, y / ?n, z / ?n, w / ?n)" by (simp add: unit_quat_def flip: add_divide_distrib)
    have "quat_to_matrix (x, y, z, w) = quat_to_matrix (x / ?n, y / ?n, z / ?n, w / ?n)"
      unfolding unit_quat_to_matrix [OF u] using \<open>0 < ?n\<close> by (simp add: Let_def)
    then show ?thesis unfolding q using unit_quat_rotation [OF u] by simp
  qed
  then show ?thesis unfolding p using assms(2) by auto
qed

lemma closed_gate_holds:
  assumes m: "move_target fl cfg side st pika s fresh snapshot now diag = (st', out)" and l: "latched st"
    and rot: "is_rotation (tf_rotation pika)" and closed: "mg_enable (uc_motion_gate cfg)" "\<not> ts_gate_open st'"
  shows "ts_gate_hold_transform st' = (case ts_gate_hold_transform st of Some t \<Rightarrow> Some t | None \<Rightarrow> ts_arm_init st)
    \<and> ts_arm_init st' = ts_gate_hold_transform st' \<and> ts_pika_init st' = Some pika"
proof -
  from m l obtain st1 gate diag1 st2 arm pk target st3 st4 db raw st5 pose diag2 where M:
    "update_motion_gate fl cfg st pika now diag = (st1, gate, diag1)" "st2 = (if gate then st1 else hold_latches st1 pika)"
    "ts_arm_init st2 = Some arm" "ts_pika_init st2 = Some pk" "target = tf_compose arm (apply_axis_signs cfg (tf_compose (tf_inverse pk) pika))"
    "st3 = st2\<lparr>ts_gate_hold_transform := Some target\<rparr>"
    "apply_target_deadband cfg st3 (clamp_workspace (transform_to_pose6 target) (uc_workspace_bounds cfg)) = (st4, db)"
    "condition_pose_target fl cfg st4 raw s fresh now diag1 = (st5, pose, diag2)"
    "st' = st5 \<or> (\<exists>st6 p diag3. apply_target_lead_clamp fl cfg st5 pose snapshot side diag2 = Inr (st6, p, diag3)
          \<and> st' = st6\<lparr>ts_previous_target := Some p, ts_last_emitted_target_stand := Some p\<rparr>)"
    by (rule move_cases) blast
  let ?gate = "\<lambda>st. (ts_arm_init st, ts_pika_init st, ts_gate_hold_transform st, ts_gate_open st)"
  have 5: "?gate st5 = ?gate st3" using condition_keeps(1) [OF M(8)] deadband_keeps [OF M(7)] by (simp add: tick_view_def)
  have st': "?gate st' = ?gate st3" using M(9)
  proof (elim disjE exE conjE)
    fix st6 p diag3 assume a: "apply_target_lead_clamp fl cfg st5 pose snapshot side diag2 = Inr (st6, p, diag3)"
      and s6: "st' = st6\<lparr>ts_previous_target := Some p, ts_last_emitted_target_stand := Some p\<rparr>"
    show ?thesis using lead_keeps [OF a] 5 by (simp add: tick_view_def s6)
  qed (use 5 in simp)
  have "ts_gate_open st2 = ts_gate_open st1" by (simp add: M(2) umi_keep)
  then have "\<not> gate" using gate_keeps(8) [OF M(1)] closed st' by (simp add: M(6))
  then have st2: "st2 = hold_latches st1 pika" by (simp add: M(2))
  let ?hold = "case ts_gate_hold_transform st of Some t \<Rightarrow> Some t | None \<Rightarrow> ts_arm_init st"
  have "?hold \<noteq> None" using l by (auto simp: latched_def split: option.split)
  then have a: "ts_arm_init st2 = ?hold" "ts_pika_init st2 = Some pika"
    using gate_keeps(2,7) [OF M(1)] by (auto simp: st2 hold_latches_def split: option.splits)
  then have "target = arm" using M(3-5) inverse_compose [OF rot] by (simp add: signs_identity)
  then show ?thesis using st' a M(3) by (simp add: M(6))
qed

section \<open>Runs of the source\<close>

datatype UmiTick =
    UmTick "UmiSample option res" "UmiSample option res" StateSnapshot pyfloat
  | UmReset

fun umi_step :: "(real \<Rightarrow> pyfloat) \<Rightarrow> Umi \<Rightarrow> UmiTick \<Rightarrow> Umi \<times> CommandIntent option res" where
  "umi_step fl s (UmTick l r snapshot now) = umi_next_intent fl s l r snapshot now"
| "umi_step fl s UmReset = (umi_reset_engagement s, Inr None)"

definition um_side :: "bool \<Rightarrow> Umi \<Rightarrow> ArmTeleopState \<times> PoseMovingAverage" where
  "um_side left s = (if left then um_left s else um_right s)"

fun side_event :: "bool \<Rightarrow> UmiTick \<Rightarrow> UmiEvent" where
  "side_event left (UmTick l r snapshot now) = UeTick (if left then l else r) snapshot now"
| "side_event left UmReset = UeReset"

definition returned :: "'e \<Rightarrow> 'a res \<Rightarrow> bool" where
  "returned e out = (\<not> isl out)"

lemma returned_iff: "returned e out \<longleftrightarrow> (\<exists>x. out = Inr x)"
  by (cases out) (simp_all add: returned_def)

lemma umi_intent_total: "\<exists>i. umi_intent fl cfg l r = Inr i"
proof -
  have "\<exists>d. pose_target_arm_payload (pose_list fl p) g = Inr d" for p g
    by (cases p) (auto simp: pose_target_arm_payload_def pose_list_def Let_def split: prod.split)
  then obtain dl dr where "pose_target_arm_payload (pose_list fl (ud_pose l)) (ud_gripper l) = Inr dl"
    "pose_target_arm_payload (pose_list fl (ud_pose r)) (ud_gripper r) = Inr dr" by metis
  then show ?thesis by (simp add: umi_intent_def tcp_pose_target_stand_intent_def)
qed

lemma next_intent_sides:
  assumes "umi_next_intent fl s l r snapshot now = (s', Inr i)"
  obtains ol orr where "target_for_side fl (um_config s) ''left'' (um_left s) l snapshot now = (um_left s', Inr ol)"
    "target_for_side fl (um_config s) ''right'' (um_right s) r snapshot now = (um_right s', Inr orr)"
    "umi_intent fl (um_config s) ol orr = Inr i" "um_config s' = um_config s"
proof -
  obtain a x where a: "target_for_side fl (um_config s) ''left'' (um_left s) l snapshot now = (a, x)" by fastforce
  then obtain ol where x: "x = Inr ol" using assms by (cases x) (auto simp: umi_next_intent_def)
  obtain b y where b: "target_for_side fl (um_config s) ''right'' (um_right s) r snapshot now = (b, y)" by fastforce
  then obtain orr where y: "y = Inr orr" using assms a x by (cases y) (auto simp: umi_next_intent_def)
  have "s' = s\<lparr>um_left := a, um_right := b\<rparr>" "umi_intent fl (um_config s) ol orr = Inr i"
    using assms a x b y by (simp_all add: umi_next_intent_def)
  with that a x b y show ?thesis by simp
qed

lemma umi_step_sides:
  assumes "umi_step fl s e = (s', Inr i)"
  shows "um_config s' = um_config s
    \<and> (\<exists>o1. umi_side_step fl (um_config s) (side_name left) (um_side left s) (side_event left e) = (um_side left s', Inr o1))"
proof (cases e)
  case (UmTick l r snapshot now)
  then have "umi_next_intent fl s l r snapshot now = (s', Inr i)" using assms by simp
  then show ?thesis by (rule next_intent_sides) (auto simp: UmTick um_side_def side_name_def)
next
  case UmReset
  then show ?thesis using assms by (auto simp: umi_reset_engagement_def um_side_def)
qed

lemma umi_sides_run:
  assumes "calls_ok returned (umi_step fl) s es"
  shows "um_config (state_after (umi_step fl) s es) = um_config s
    \<and> um_side left (state_after (umi_step fl) s es)
      = state_after (umi_side_step fl (um_config s) (side_name left)) (um_side left s) (map (side_event left) es)
    \<and> calls_ok returned (umi_side_step fl (um_config s) (side_name left)) (um_side left s) (map (side_event left) es)"
  using assms
proof (induction es arbitrary: s)
  case (Cons e es)
  obtain s1 out where e: "umi_step fl s e = (s1, out)" by fastforce
  then obtain i where i: "out = Inr i" using Cons.prems by (auto simp: returned_iff)
  obtain o1 where S: "um_config s1 = um_config s"
    "umi_side_step fl (um_config s) (side_name left) (um_side left s) (side_event left e) = (um_side left s1, Inr o1)"
    using umi_step_sides [OF e [unfolded i], of left] by blast
  from Cons.IH [of s1] Cons.prems e show ?case by (simp add: S returned_def)
qed simp

lemma annotate_keeps:
  assumes "k \<notin> set keys"
  shows "map_of (foldl (\<lambda>acc key. case map_of diag key of None \<Rightarrow> acc | Some v \<Rightarrow> dset acc key v) d keys) k = map_of d k"
  using assms by (induction keys arbitrary: d) (auto split: option.split)

lemma umi_pose:
  assumes i: "umi_intent fl cfg ol orr = Inr (Some i)" and mode: "arm_mode (arm_payload_of left i) = Some ''TcpPoseTarget''"
  obtains p d where "ud_pose (if left then ol else orr) = Some p" "arm_payload_of left i = Some d"
    "dget d ''tcp_target_stand'' = PList (map PFloat (the (pose_list fl (Some p))))"
proof -
  let ?o = "if left then ol else orr"
  obtain dl dr where D: "pose_target_arm_payload (pose_list fl (ud_pose ol)) (ud_gripper ol) = Inr dl"
      "pose_target_arm_payload (pose_list fl (ud_pose orr)) (ud_gripper orr) = Inr dr"
      "ci_left i = annotate_arm_payload (Some dl) (ud_diag ol)" "ci_right i = annotate_arm_payload (Some dr) (ud_diag orr)"
    using i by (auto simp: umi_intent_def tcp_pose_target_stand_intent_def res_bind_Inr_iff intent_of_def split: if_splits)
  define d0 where "d0 = (if left then dl else dr)"
  have d0: "pose_target_arm_payload (pose_list fl (ud_pose ?o)) (ud_gripper ?o) = Inr d0"
    and pay: "arm_payload_of left i = annotate_arm_payload (Some d0) (ud_diag ?o)"
    using D by (simp_all add: d0_def arm_payload_of_def)
  have keep: "k \<notin> set annotated_keys \<Longrightarrow> \<exists>d. annotate_arm_payload (Some d0) (ud_diag ?o) = Some d \<and> dget d k = dget d0 k" for k
    by (auto simp: annotate_arm_payload_def dget_or_def annotate_keeps)
  show ?thesis
  proof (cases "ud_pose ?o")
    case None
    then have "dget d0 ''mode'' = PStr ''Hold''"
      using d0 by (auto simp: pose_target_arm_payload_def pose_list_def dget_or_def split: option.splits)
    then show ?thesis using mode pay keep [of "''mode''"] by (auto simp: annotated_keys_def arm_mode_def py_str_def split: if_splits)
  next
    case (Some p)
    then have "dget d0 ''tcp_target_stand'' = PList (map PFloat (the (pose_list fl (Some p))))"
      using d0 by (cases p) (auto simp: pose_target_arm_payload_def pose_list_def dget_or_def split: option.splits)
    moreover obtain d where "annotate_arm_payload (Some d0) (ud_diag ?o) = Some d" "dget d ''tcp_target_stand'' = dget d0 ''tcp_target_stand''"
      using keep [of "''tcp_target_stand''"] by (auto simp: annotated_keys_def)
    ultimately show ?thesis using that [OF Some, of d] pay by simp
  qed
qed

lemma umi_tick_pose:
  assumes "umi_step fl s (UmTick l r snapshot now) = (s', Inr (Some i))" and "arm_mode (arm_payload_of left i) = Some ''TcpPoseTarget''"
  obtains o1 p d where "target_for_side fl (um_config s) (side_name left) (um_side left s) (if left then l else r) snapshot now = (um_side left s', Inr o1)"
    "ud_pose o1 = Some p" "arm_payload_of left i = Some d" "dget d ''tcp_target_stand'' = PList (map PFloat (the (pose_list fl (Some p))))"
proof -
  have n: "umi_next_intent fl s l r snapshot now = (s', Inr (Some i))" using assms(1) by simp
  from n obtain ol orr where N: "target_for_side fl (um_config s) ''left'' (um_left s) l snapshot now = (um_left s', Inr ol)"
    "target_for_side fl (um_config s) ''right'' (um_right s) r snapshot now = (um_right s', Inr orr)"
    "umi_intent fl (um_config s) ol orr = Inr (Some i)" by (rule next_intent_sides)
  from N(3) assms(2) obtain p d where "ud_pose (if left then ol else orr) = Some p" "arm_payload_of left i = Some d"
    "dget d ''tcp_target_stand'' = PList (map PFloat (the (pose_list fl (Some p))))" by (rule umi_pose)
  with that [of "if left then ol else orr" p d] N(1,2) show ?thesis by (simp add: um_side_def side_name_def)
qed

lemma umi_init_sides:
  assumes "umi_init cfg0 hold stale ls as off al bounds = Inr s0"
  shows "\<exists>n. um_side left s0 = (arm_teleop_init, ma_init n)"
  using assms by (auto simp: umi_init_def um_side_def res_bind_Inr_iff Let_def split: if_splits)

text \<open>A pose comes from a fresh enough sample with the clutch pressed, or is the last one during the release grace.\<close>

lemma side_pose_consent:
  assumes inv: "umi_inv h (st, ma)" and t: "target_for_side fl cfg side (st, ma) outcome snapshot now = (arm', Inr o1)" and p: "ud_pose o1 = Some p"
  shows "\<exists>smp. last_read (h @ [UeTick outcome snapshot now]) = Some smp \<and> \<not> umi_stale cfg smp now
    \<and> (us_deadman smp
       \<or> (\<exists>t. released_since t (h @ [UeTick outcome snapshot now]) \<and> now - t < uc_deadman_release_grace_sec cfg)
         \<and> or_pose (ts_last_emitted_target_stand st) (ts_previous_target st) = Some p)"
  using t
proof (cases rule: tick_cases)
  case (raised e)
  then show ?thesis by simp
next
  case (stopped read o2)
  then show ?thesis using p by simp
next
  case (released read s diag o2)
  have lr: "last_read (h @ [UeTick outcome snapshot now]) = Some s" unfolding released(1) by (rule tick_last_sample [OF inv released(2)])
  have inv': "umi_inv (h @ [UeTick outcome snapshot now]) arm'" by (rule umi_inv_tick [OF inv t])
  show ?thesis using released(5)
  proof (cases rule: released_tick_cases)
    case off
    then show ?thesis using released(6) p by simp
  next
    case (grace drop)
    have "released_since drop (h @ [UeTick outcome snapshot now])" using inv' grace(4) by (simp add: umi_inv_def Let_def)
    then show ?thesis using lr released(3,6) grace(3,5) p by auto
  qed
next
  case (engaged read s fresh diag)
  have "last_read (h @ [UeTick outcome snapshot now]) = Some s" unfolding engaged(1) by (rule tick_last_sample [OF inv engaged(2)])
  then show ?thesis using engaged(3,4) by blast
qed

interpretation umi_synced: guarded_machine "umi_side_step fl cfg side" "\<lambda>arm. synced cfg (fst arm)" "\<lambda>e out. returned e out \<and> schedule_kept_clean cfg" for fl cfg side
proof
  show "synced cfg (fst (fst (umi_side_step fl cfg side arm e)))"
    if inv: "synced cfg (fst arm)" and ok: "returned e (snd (umi_side_step fl cfg side arm e)) \<and> schedule_kept_clean cfg" for arm e
  proof (cases e)
    case (UeTick outcome snapshot now)
    obtain st ma where arm: "arm = (st, ma)" by fastforce
    obtain arm' o1 where t: "target_for_side fl cfg side (st, ma) outcome snapshot now = (arm', Inr o1)"
      using ok UeTick arm by (cases "target_for_side fl cfg side (st, ma) outcome snapshot now") (auto simp: returned_iff)
    from tick_step [OF t] inv ok show ?thesis by (simp add: UeTick arm t)
  next
    case UeReset
    then show ?thesis by simp
  qed
qed

text \<open>The events whose live position, where it is known, lies in the workspace.\<close>

fun live_event :: "workspace option \<Rightarrow> string \<Rightarrow> UmiEvent \<Rightarrow> bool" where
  "live_event w side (UeTick _ snapshot _) = live_in w snapshot side"
| "live_event w side UeReset = True"

interpretation umi_workspace: guarded_machine "umi_side_step fl cfg side"
  "\<lambda>arm. poses_in w (fst arm) \<and> (ts_was_armed (fst arm) \<longrightarrow> latched (fst arm))"
  "\<lambda>e out. live_event w side e \<and> uc_workspace_bounds cfg = w \<and> ordered_workspace w \<and> 0 \<le> lc_max_target_lead_m (uc_target_lead_clamp cfg)" for fl cfg side w
proof
  show "poses_in w (fst (fst (umi_side_step fl cfg side arm e)))
      \<and> (ts_was_armed (fst (fst (umi_side_step fl cfg side arm e))) \<longrightarrow> latched (fst (fst (umi_side_step fl cfg side arm e))))"
    if inv: "poses_in w (fst arm) \<and> (ts_was_armed (fst arm) \<longrightarrow> latched (fst arm))"
      and ok: "live_event w side e \<and> uc_workspace_bounds cfg = w \<and> ordered_workspace w \<and> 0 \<le> lc_max_target_lead_m (uc_target_lead_clamp cfg)" for arm e
  proof (cases e)
    case (UeTick outcome snapshot now)
    obtain st ma where arm: "arm = (st, ma)" by fastforce
    obtain arm' out where t: "target_for_side fl cfg side (st, ma) outcome snapshot now = (arm', out)" by fastforce
    have "poses_in w (fst arm')" using tick_in [OF t] inv ok by (auto simp: arm UeTick)
    moreover have "ts_was_armed (fst arm') \<longrightarrow> latched (fst arm')" by (rule tick_latched [OF t]) (use inv in \<open>simp add: arm\<close>)
    ultimately show ?thesis by (simp add: UeTick arm t)
  next
    case UeReset
    then show ?thesis by simp
  qed
qed

lemma calls_ok_all: "list_all P es \<Longrightarrow> (\<And>e x. P e \<Longrightarrow> ok e x) \<Longrightarrow> calls_ok ok step s es"
  by (induction es arbitrary: s) auto

text \<open>What a run leads to, side by side.\<close>

lemma umi_run_facts:
  assumes init: "umi_init cfg0 hold stale ls as off al bounds = Inr s0" and run: "calls_ok returned (umi_step fl) s0 es"
    and s: "s = state_after (umi_step fl) s0 es"
  shows "um_config s = um_config s0" and "umi_inv (map (side_event left) es) (um_side left s)"
    and "schedule_kept_clean (um_config s0) \<Longrightarrow> synced (um_config s0) (fst (um_side left s))"
    and "list_all (live_event (uc_workspace_bounds (um_config s0)) (side_name left)) (map (side_event left) es)
      \<Longrightarrow> ordered_workspace (uc_workspace_bounds (um_config s0)) \<Longrightarrow> 0 \<le> lc_max_target_lead_m (uc_target_lead_clamp (um_config s0))
      \<Longrightarrow> poses_in (uc_workspace_bounds (um_config s0)) (fst (um_side left s))"
proof -
  let ?cfg = "um_config s0" and ?h = "map (side_event left) es"
  obtain n where n: "um_side left s0 = (arm_teleop_init, ma_init n)" using umi_init_sides [OF init] by blast
  note R = umi_sides_run [OF run, of left, folded s, unfolded n]
  show "um_config s = ?cfg" using R by simp
  show "umi_inv ?h (um_side left s)" using R umi_side.hinv_run [of ?h fl ?cfg "side_name left" n] by simp
  show "synced ?cfg (fst (um_side left s))" if "schedule_kept_clean ?cfg"
  proof -
    have "calls_ok (\<lambda>e out. returned e out \<and> schedule_kept_clean ?cfg) (umi_side_step fl ?cfg (side_name left)) (arm_teleop_init, ma_init n) ?h"
      using calls_ok_mono [OF R [THEN conjunct2, THEN conjunct2]] that by simp
    from umi_synced.inv_ok_run [OF _ this] R show ?thesis by simp
  qed
  show "poses_in (uc_workspace_bounds ?cfg) (fst (um_side left s))"
    if "list_all (live_event (uc_workspace_bounds ?cfg) (side_name left)) ?h" "ordered_workspace (uc_workspace_bounds ?cfg)"
      "0 \<le> lc_max_target_lead_m (uc_target_lead_clamp ?cfg)"
  proof -
    have "calls_ok (\<lambda>e out. live_event (uc_workspace_bounds ?cfg) (side_name left) e \<and> uc_workspace_bounds ?cfg = uc_workspace_bounds ?cfg
        \<and> ordered_workspace (uc_workspace_bounds ?cfg) \<and> 0 \<le> lc_max_target_lead_m (uc_target_lead_clamp ?cfg))
        (umi_side_step fl ?cfg (side_name left)) (arm_teleop_init, ma_init n) ?h"
      using calls_ok_all [OF that(1)] that(2,3) by simp
    from umi_workspace.inv_ok_run [OF _ this] R show ?thesis by simp
  qed
qed

section \<open>When an arm moves\<close>

text \<open>(C32) The UMI source moves an arm only while its clutch is held. In any run in which no call raised, a tick that
  sends an arm to a pose has a last tracker sample of that side that is no older than the hold timeout, and
  either that sample has the clutch pressed, or the clutch was released less than the grace time ago, counted
  from the first tick that saw it released, and the pose is the last one once more.\<close>

theorem umi_moves_only_while_clutched:
  assumes "umi_init cfg0 hold stale ls as off al bounds = Inr s0" and "calls_ok returned (umi_step fl) s0 es"
    and "s = state_after (umi_step fl) s0 es" and "umi_step fl s (UmTick l r snapshot now) = (s', Inr (Some i))"
    and "arm_mode (arm_payload_of left i) = Some ''TcpPoseTarget''" and "h = map (side_event left) (es @ [UmTick l r snapshot now])"
    and "cfg = um_config s0"
  shows "\<exists>smp p d. arm_payload_of left i = Some d \<and> dget d ''tcp_target_stand'' = PList (map PFloat (the (pose_list fl (Some p))))
    \<and> last_read h = Some smp \<and> \<not> umi_stale cfg smp now
    \<and> (us_deadman smp
       \<or> (\<exists>t. released_since t h \<and> now - t < uc_deadman_release_grace_sec cfg)
         \<and> or_pose (ts_last_emitted_target_stand (fst (um_side left s))) (ts_previous_target (fst (um_side left s))) = Some p)"
proof -
  note F = umi_run_facts [OF assms(1-3)]
  obtain o1 p d where P: "target_for_side fl (um_config s) (side_name left) (um_side left s) (if left then l else r) snapshot now = (um_side left s', Inr o1)"
    "ud_pose o1 = Some p" "arm_payload_of left i = Some d" "dget d ''tcp_target_stand'' = PList (map PFloat (the (pose_list fl (Some p))))"
    by (rule umi_tick_pose [OF assms(4,5)])
  obtain st ma where st: "um_side left s = (st, ma)" by fastforce
  have h: "h = map (side_event left) es @ [UeTick (if left then l else r) snapshot now]" using assms(6) by simp
  from side_pose_consent [OF F(2) [of left, unfolded st] P(1) [unfolded st F(1)] P(2), folded h assms(7)] obtain smp
    where "last_read h = Some smp" "\<not> umi_stale cfg smp now" "us_deadman smp
       \<or> (\<exists>t. released_since t h \<and> now - t < uc_deadman_release_grace_sec cfg) \<and> or_pose (ts_last_emitted_target_stand st) (ts_previous_target st) = Some p"
    by blast
  then show ?thesis using P(3,4) unfolding st fst_conv by (intro exI [of _ smp] exI [of _ p] exI [of _ d] conjI)
qed


text \<open>(C36) A target stays in the workspace. In any run in which no call raised and every live position the source saw lies in
  the configured workspace, whose bounds are in order, every pose it sends an arm to lies in the workspace too.\<close>

theorem umi_target_stays_in_workspace:
  assumes "umi_init cfg0 hold stale ls as off al bounds = Inr s0" and "calls_ok returned (umi_step fl) s0 es"
    and "s = state_after (umi_step fl) s0 es" and "umi_step fl s (UmTick l r snapshot now) = (s', Inr (Some i))"
    and "arm_mode (arm_payload_of left i) = Some ''TcpPoseTarget''" and "w = uc_workspace_bounds (um_config s0)" and "ordered_workspace w"
    and "list_all (live_event w (side_name left)) (map (side_event left) (es @ [UmTick l r snapshot now]))"
    and "0 \<le> lc_max_target_lead_m (uc_target_lead_clamp (um_config s0))"
  shows "\<exists>p d. arm_payload_of left i = Some d \<and> dget d ''tcp_target_stand'' = PList (map PFloat (the (pose_list fl (Some p))))
    \<and> in_workspace w (pose_position p)"
proof -
  note F = umi_run_facts [OF assms(1-3)]
  obtain o1 p d where P: "target_for_side fl (um_config s) (side_name left) (um_side left s) (if left then l else r) snapshot now = (um_side left s', Inr o1)"
    "ud_pose o1 = Some p" "arm_payload_of left i = Some d" "dget d ''tcp_target_stand'' = PList (map PFloat (the (pose_list fl (Some p))))"
    by (rule umi_tick_pose [OF assms(4,5)])
  obtain st ma where st: "um_side left s = (st, ma)" by fastforce
  have "list_all (live_event w (side_name left)) (map (side_event left) es)" using assms(8) by simp
  from F(4) [of left, folded assms(6), OF this assms(7,9)] have "poses_in w st" unfolding st fst_conv .
  moreover have "ts_was_armed st \<longrightarrow> latched st" using F(2) [of left] by (simp add: st umi_inv_def Let_def)
  moreover have "live_in w snapshot (side_name left)" using assms(8) by simp
  ultimately have "in_workspace w (pose_position p)"
    using tick_in [OF P(1) [unfolded st F(1)] _ _ assms(6) [symmetric] assms(7) _ assms(9)] P(2) by blast
  then show ?thesis using P(3,4) by blast
qed

text \<open>A tick with the clutch pressed and its live pose known keeps the target near the arm.\<close>

lemma move_lead:
  assumes m: "move_target fl cfg side st pika s fresh snapshot now diag = (st', Inr o1)" and l: "latched st" and p: "ud_pose o1 = Some p"
    and live: "tcp_stand_transform snapshot side = Inr (Some tf)" and on: "lc_enable (uc_target_lead_clamp cfg)"
    and pos: "0 < lc_max_target_lead_m (uc_target_lead_clamp cfg)" "0 < lc_max_target_lead_rad (uc_target_lead_clamp cfg)"
  shows "vnorm (vsub (pose_position p) (tf_translation tf)) \<le> lc_max_target_lead_m (uc_target_lead_clamp cfg)"
    and "cos (pose_pitch p) = 0 \<or> 1 / 10 ^ 9 < cos (pose_pitch p) \<Longrightarrow>
      quat_angle (pose6_to_quat (transform_to_pose6 tf)) (pose6_to_quat p) \<le> max (lc_max_target_lead_rad (uc_target_lead_clamp cfg)) (2 * arccos 0.9995)"
proof -
  from m l obtain st5 pose diag2 st6 p' diag3 where a: "apply_target_lead_clamp fl cfg st5 pose snapshot side diag2 = Inr (st6, p', diag3)" "ud_pose o1 = Some p'"
    by (rule move_cases) blast
  then have "p' = p" using p by simp
  note a = a(1) [unfolded this]
  from a obtain axes where c: "clamp_pose6_lead (transform_to_pose6 tf) pose (lc_max_target_lead_m (uc_target_lead_clamp cfg))
      (lc_max_target_lead_rad (uc_target_lead_clamp cfg)) = (p, axes)"
    by (cases rule: lead_cases) (use live on in auto)
  show "vnorm (vsub (pose_position p) (tf_translation tf)) \<le> lc_max_target_lead_m (uc_target_lead_clamp cfg)"
    using lead_position [OF pos(1) c] by simp
  show "quat_angle (pose6_to_quat (transform_to_pose6 tf)) (pose6_to_quat p) \<le> max (lc_max_target_lead_rad (uc_target_lead_clamp cfg)) (2 * arccos 0.9995)"
    if "cos (pose_pitch p) = 0 \<or> 1 / 10 ^ 9 < cos (pose_pitch p)"
    using lead_rotation [OF pos(2) c that] .
qed

lemma pressed_tick:
  assumes inv: "umi_inv h (st, ma)" and t: "target_for_side fl cfg side (st, ma) outcome snapshot now = (arm', Inr o1)"
    and smp: "last_read (h @ [UeTick outcome snapshot now]) = Some smp" "us_deadman smp" and armed: "ts_was_armed (fst arm') \<or> ud_pose o1 \<noteq> None"
  obtains st1 pika fresh diag where "move_target fl cfg side st1 pika (snd (ma_filter ma smp)) fresh snapshot now diag = (fst arm', Inr o1)" "latched st1"
    "tracker_transform (snd (ma_filter ma smp)) (uc_gripper_offset cfg) (uc_r_align cfg) = Inr pika"
    "ts_gate_hold_transform st1 = ts_gate_hold_transform st"
    "ts_arm_init st1 = ts_arm_init st \<or> (\<exists>tf. tcp_stand_transform snapshot side = Inr (Some tf) \<and> ts_arm_init st1 = Some tf)"
  using t
proof (cases rule: tick_cases)
  case (raised e)
  then show ?thesis by simp
next
  case (stopped read o2)
  then show ?thesis using armed by simp
next
  case (released read s diag o2)
  have "last_read (h @ [UeTick outcome snapshot now]) = Some s" unfolding released(1) by (rule tick_last_sample [OF inv released(2)])
  then show ?thesis using smp released(4) by simp
next
  case (engaged read s fresh diag)
  have "last_read (h @ [UeTick outcome snapshot now]) = Some s" unfolding engaged(1) by (rule tick_last_sample [OF inv engaged(2)])
  then have s: "s = smp" using smp by simp
  have l: "ts_was_armed (note_read st read) \<longrightarrow> latched (note_read st read)" using inv by (simp add: umi_inv_def Let_def)
  show ?thesis using engaged(5) l
  proof (cases rule: engaged_cases)
    case (raised e)
    then show ?thesis by simp
  next
    case (blind o2)
    then show ?thesis using armed by simp
  next
    case (moved st1 pika diag1)
    have "ts_gate_hold_transform st1 = ts_gate_hold_transform st \<and> (ts_arm_init st1 = ts_arm_init st
        \<or> (\<exists>tf. tcp_stand_transform snapshot side = Inr (Some tf) \<and> ts_arm_init st1 = Some tf))"
      using moved(5) by (elim disjE exE conjE) (simp_all add: umi_keep)
    then show ?thesis using that moved(1,2,4) unfolding s by blast
  qed
qed

text \<open>(C34) A target does not run away from the arm. In any run in which no call raised, with the lead clamp on and both its
  limits positive, a pose sent while the clutch is pressed and the live pose is known is within the distance limit
  of the live position, and, unless its pitch is within 1e-9 of vertical, within the angle limit of the live
  orientation or within the 3.6 degrees below which the code interpolates linearly.\<close>

theorem umi_target_stays_near_the_arm:
  assumes "umi_init cfg0 hold stale ls as off al bounds = Inr s0" and "calls_ok returned (umi_step fl) s0 es"
    and "s = state_after (umi_step fl) s0 es" and "umi_step fl s (UmTick l r snapshot now) = (s', Inr (Some i))"
    and "arm_mode (arm_payload_of left i) = Some ''TcpPoseTarget''" and "h = map (side_event left) (es @ [UmTick l r snapshot now])"
    and "last_read h = Some smp" and "us_deadman smp" and "tcp_stand_transform snapshot (side_name left) = Inr (Some tf)"
    and "c = uc_target_lead_clamp (um_config s0)" and "lc_enable c" and "0 < lc_max_target_lead_m c" and "0 < lc_max_target_lead_rad c"
  shows "\<exists>p d. arm_payload_of left i = Some d \<and> dget d ''tcp_target_stand'' = PList (map PFloat (the (pose_list fl (Some p))))
    \<and> vnorm (vsub (pose_position p) (tf_translation tf)) \<le> lc_max_target_lead_m c
    \<and> (cos (pose_pitch p) \<noteq> 0 \<and> cos (pose_pitch p) \<le> 1 / 10 ^ 9
       \<or> quat_angle (pose6_to_quat (transform_to_pose6 tf)) (pose6_to_quat p) \<le> max (lc_max_target_lead_rad c) (2 * arccos 0.9995))"
proof -
  note F = umi_run_facts [OF assms(1-3)]
  obtain o1 p d where P: "target_for_side fl (um_config s) (side_name left) (um_side left s) (if left then l else r) snapshot now = (um_side left s', Inr o1)"
    "ud_pose o1 = Some p" "arm_payload_of left i = Some d" "dget d ''tcp_target_stand'' = PList (map PFloat (the (pose_list fl (Some p))))"
    by (rule umi_tick_pose [OF assms(4,5)])
  obtain st ma where st: "um_side left s = (st, ma)" by fastforce
  have h: "h = map (side_event left) es @ [UeTick (if left then l else r) snapshot now]" using assms(6) by simp
  obtain st1 pika fresh diag where M: "move_target fl (um_config s0) (side_name left) st1 pika (snd (ma_filter ma smp)) fresh snapshot now diag
      = (fst (um_side left s'), Inr o1)" "latched st1"
    by (rule pressed_tick [OF F(2) [of left, unfolded st] P(1) [unfolded st F(1)] assms(7) [unfolded h] assms(8)]) (use P(2) in auto)
  note L = move_lead [OF M P(2) assms(9) assms(11-13) [unfolded assms(10)], folded assms(10)]
  have "cos (pose_pitch p) \<noteq> 0 \<and> cos (pose_pitch p) \<le> 1 / 10 ^ 9
      \<or> quat_angle (pose6_to_quat (transform_to_pose6 tf)) (pose6_to_quat p) \<le> max (lc_max_target_lead_rad c) (2 * arccos 0.9995)"
    using L(2) by linarith
  then show ?thesis using P(3,4) L(1) by blast
qed

text \<open>(C37) A closed activity gate keeps the target and forgets the drift. In any run in which no call raised, on a tick with
  the clutch pressed after which the gate is closed, the target is the one the gate held before, or the latched
  pose if it held none yet, and the latches are that target and the tracker's present pose: what the hand did
  meanwhile is not made up for when the gate opens. This holds also on a tick that has just re-anchored onto a
  live pose elsewhere.\<close>

theorem closed_gate_keeps_the_target:
  assumes "umi_init cfg0 hold stale ls as off al bounds = Inr s0" and "calls_ok returned (umi_step fl) s0 es"
    and "s = state_after (umi_step fl) s0 es" and "umi_step fl s (UmTick l r snapshot now) = (s', Inr i)"
    and "h = map (side_event left) (es @ [UmTick l r snapshot now])" and "last_read h = Some smp" and "us_deadman smp"
    and "cfg = um_config s0" and "st = fst (um_side left s)" and "st' = fst (um_side left s')"
    and "ts_was_armed st'" and "mg_enable (uc_motion_gate cfg)" and "\<not> ts_gate_open st'" and "is_rotation (uc_r_align cfg)"
  shows "\<exists>t pika. (case ts_gate_hold_transform st of
        Some k \<Rightarrow> t = k
      | None \<Rightarrow> ts_arm_init st = Some t \<or> tcp_stand_transform snapshot (side_name left) = Inr (Some t))
    \<and> ts_gate_hold_transform st' = Some t \<and> ts_arm_init st' = Some t \<and> ts_pika_init st' = Some pika
    \<and> tracker_transform (snd (ma_filter (snd (um_side left s)) smp)) (uc_gripper_offset cfg) (uc_r_align cfg) = Inr pika"
proof -
  note F = umi_run_facts [OF assms(1-3)]
  obtain o1 where P: "target_for_side fl cfg (side_name left) (um_side left s) (if left then l else r) snapshot now = (um_side left s', Inr o1)"
    using umi_step_sides [OF assms(4), of left] F(1) assms(8) by auto
  obtain ma where st: "um_side left s = (st, ma)" using assms(9) by (cases "um_side left s") simp
  have h: "h = map (side_event left) es @ [UeTick (if left then l else r) snapshot now]" using assms(5) by simp
  obtain st1 pika fresh diag where M: "move_target fl cfg (side_name left) st1 pika (snd (ma_filter ma smp)) fresh snapshot now diag = (st', Inr o1)" "latched st1"
    "tracker_transform (snd (ma_filter ma smp)) (uc_gripper_offset cfg) (uc_r_align cfg) = Inr pika"
    "ts_gate_hold_transform st1 = ts_gate_hold_transform st"
    "ts_arm_init st1 = ts_arm_init st \<or> (\<exists>tf. tcp_stand_transform snapshot (side_name left) = Inr (Some tf) \<and> ts_arm_init st1 = Some tf)"
    unfolding assms(10)
    by (rule pressed_tick [OF F(2) [of left, unfolded st] P [unfolded st] assms(6) [unfolded h] assms(7)]) (use assms(10,11) in auto)
  obtain arm where arm: "ts_arm_init st1 = Some arm" using M(2) by (auto simp: latched_def)
  from closed_gate_holds [OF M(1,2) tracker_rotation [OF M(3) assms(14)] assms(12,13)]
  have "ts_gate_hold_transform st' = Some (case ts_gate_hold_transform st of Some k \<Rightarrow> k | None \<Rightarrow> arm)" "ts_arm_init st' = ts_gate_hold_transform st'"
    "ts_pika_init st' = Some pika" by (simp_all add: M(4) arm split: option.splits)
  then show ?thesis using M(3,5) arm unfolding st snd_conv
    by (intro exI [of _ "case ts_gate_hold_transform st of Some k \<Rightarrow> k | None \<Rightarrow> arm"] exI [of _ pika]) (auto split: option.split)
qed

section \<open>Beside the SpaceMouse\<close>

lemma reset_not_engaged: "\<not> umi_engaged (umi_reset_engagement s)"
  by (simp add: umi_engaged_def umi_reset_engagement_def)

interpretation teleop: teleop_pair "dual_ops fl t" "umi_ops fl rd cl" for fl t rd cl
  by unfold_locales (simp add: umi_ops_def reset_not_engaged)

interpretation teleop_exclusive: guarded_machine "mux_step (dual_ops fl t) (umi_ops fl rd cl)" "exclusive (dual_ops fl t) (umi_ops fl rd cl)" returned
  for fl t rd cl
  by unfold_locales (rule teleop.step_exclusive, simp_all add: returned_def)



section \<open>A run of the source\<close>

lemma move_gate_open:
  assumes m: "move_target fl cfg side st pika s fresh snapshot now diag = (st', out)" and l: "latched st"
    and g: "update_motion_gate fl cfg st pika now diag = (st1, gate, diag1)"
  shows "ts_gate_open st' = ts_gate_open st1"
proof -
  from m l obtain st1' gate' diag1' st2 arm pk target st3 st4 db raw st5 pose diag2 where M:
    "update_motion_gate fl cfg st pika now diag = (st1', gate', diag1')" "st2 = (if gate' then st1' else hold_latches st1' pika)"
    "st3 = st2\<lparr>ts_gate_hold_transform := Some target\<rparr>"
    "apply_target_deadband cfg st3 (clamp_workspace (transform_to_pose6 target) (uc_workspace_bounds cfg)) = (st4, db)"
    "condition_pose_target fl cfg st4 raw s fresh now diag1' = (st5, pose, diag2)"
    "st' = st5 \<or> (\<exists>st6 p diag3. apply_target_lead_clamp fl cfg st5 pose snapshot side diag2 = Inr (st6, p, diag3)
          \<and> st' = st6\<lparr>ts_previous_target := Some p, ts_last_emitted_target_stand := Some p\<rparr>)"
    by (rule move_cases) blast
  have "ts_gate_open st5 = ts_gate_open st1" using condition_keeps(1) [OF M(5)] deadband_keeps(7) [OF M(4)] M(1) g
    by (simp add: tick_view_def M(2,3) umi_keep)
  with M(6) show ?thesis
  proof (elim disjE exE conjE)
    fix st6 p diag3 assume 5: "ts_gate_open st5 = ts_gate_open st1" and a: "apply_target_lead_clamp fl cfg st5 pose snapshot side diag2 = Inr (st6, p, diag3)"
      and s6: "st' = st6\<lparr>ts_previous_target := Some p, ts_last_emitted_target_stand := Some p\<rparr>"
    show ?thesis using lead_keeps [OF a] 5 by (simp add: tick_view_def s6)
  qed simp
qed

lemma umi_intent_moves:
  assumes "ud_pose ol = Some p" and "ud_changed ol"
  shows "\<exists>i. umi_intent fl cfg ol orr = Inr (Some i) \<and> arm_mode (arm_payload_of True i) = Some ''TcpPoseTarget''"
proof -
  obtain i where i: "umi_intent fl cfg ol orr = Inr (Some i)"
    using umi_intent_total [of fl cfg ol orr] assms(2) by (auto simp: umi_intent_def res_bind_Inr_iff)
  obtain dl where D: "pose_target_arm_payload (pose_list fl (ud_pose ol)) (ud_gripper ol) = Inr dl" "ci_left i = annotate_arm_payload (Some dl) (ud_diag ol)"
    using i by (auto simp: umi_intent_def tcp_pose_target_stand_intent_def res_bind_Inr_iff intent_of_def split: if_splits)
  have "dget dl ''mode'' = PStr ''TcpPoseTarget''" "dl \<noteq> []"
    using D(1) assms(1) by (cases p; auto simp: pose_target_arm_payload_def pose_list_def dget_or_def split: option.splits)+
  moreover have "map_of (foldl (\<lambda>acc key. case map_of (ud_diag ol) key of None \<Rightarrow> acc | Some v \<Rightarrow> dset acc key v) dl annotated_keys) ''mode'' = map_of dl ''mode''"
    by (rule annotate_keeps) (simp add: annotated_keys_def)
  ultimately have "arm_mode (ci_left i) = Some ''TcpPoseTarget''"
    unfolding D(2) annotate_arm_payload_def by (auto simp: arm_mode_def dget_or_def py_str_def split: option.splits)
  then show ?thesis using i by (simp add: arm_payload_of_def)
qed

definition umi_demo_cfg :: "bool \<Rightarrow> bool \<Rightarrow> UmiConfig" where
  "umi_demo_cfg gate lead = \<lparr>uc_max_linear_step_m = 1/200, uc_max_angular_step_rad = 1/25, uc_deadband_linear_m = 0, uc_deadband_angular_rad = 0,
     uc_linear_axis_signs = (1, 1, 1), uc_angular_axis_signs = (1, 1, 1), uc_gripper_offset = (0, 0, 0), uc_r_align = Mat 1 0 0 0 1 0 0 0 1,
     uc_workspace_bounds = Some ((Fin (-1), Fin 1), (NInf, PInf), (NInf, PInf)), uc_sample_hold_timeout_sec = Fin (1/20), uc_timeout_sec = Fin (1/20),
     uc_deadman_release_grace_sec = Fin (1/5),
     uc_conditioning = \<lparr>tc_enable = True, tc_mode = ''foh_se3'', tc_emit_rate_hz = 500, tc_min_interpolation_horizon_sec = 1/250,
       tc_max_interpolation_horizon_sec = 3/250, tc_default_interpolation_horizon_sec = 3/500, tc_reset_on_engage = True,
       tc_stop_on_release = True, tc_stop_on_stale = True\<rparr>,
     uc_target_lead_clamp = \<lparr>lc_enable = lead, lc_max_target_lead_m = 3/50, lc_max_target_lead_rad = 1/4, lc_rebase_conditioner_on_clamp = True\<rparr>,
     uc_motion_gate = \<lparr>mg_enable = gate, mg_window_sec = Fin (3/10), mg_release_m = 1/1000, mg_dwell_sec = Fin (1/2)\<rparr>,
     uc_reanchor_on_external_move = True, uc_reanchor_linear_m = 1/50, uc_reanchor_angular_rad = 1/20, uc_input_moving_average_window = 1\<rparr>"

definition umi_demo :: "bool \<Rightarrow> bool \<Rightarrow> Umi" where
  "umi_demo gate lead = \<lparr>um_config = umi_demo_cfg gate lead, um_left = (arm_teleop_init, ma_init 1), um_right = (arm_teleop_init, ma_init 1)\<rparr>"

definition umi_demo_sample :: UmiSample where
  "umi_demo_sample = \<lparr>us_position = (0, 0, 0), us_quat = (0, 0, 0, 1), us_gripper = Fin 0, us_deadman = True, us_monotonic = Fin 0, us_seq = 1\<rparr>"

definition umi_demo_tick :: UmiTick where
  "umi_demo_tick = UmTick (Inr (Some umi_demo_sample)) (Inr None) demo_live (Fin 0)"

definition umi_demo_tf :: Transform where
  "umi_demo_tf = \<lparr>tf_translation = (0, 0, 0), tf_rotation = rpy_to_matrix 0 0 0\<rparr>"

lemma umi_demo_init:
  "umi_init (umi_demo_cfg gate lead) None None [1, 1, 1] [1, 1, 1] [0, 0, 0] [1, 0, 0, 0, 1, 0, 0, 0, 1] (Some (WsMap [(''x'', [Fin (-1), Fin 1])]))
     = Inr (umi_demo gate lead)"
  by (simp add: umi_init_def check_umi_args_def signs3_def tuple3_def matrix3_def workspace_bounds_def bounds_pair_def umi_demo_def umi_demo_cfg_def Let_def)

lemma umi_demo_live: "tcp_stand_transform demo_live ''left'' = Inr (Some umi_demo_tf)"
  by (simp add: tcp_stand_transform_def umi_stand_block_def demo_live_def py_or_def dget_or_def block_transform_def has_key_def float_checked_def
      float_overflows_def real_of_def umi_demo_tf_def Let_def)

lemma umi_demo_moves:
  "\<exists>s' i. umi_step fl (umi_demo gate lead) umi_demo_tick = (s', Inr (Some i)) \<and> arm_mode (arm_payload_of True i) = Some ''TcpPoseTarget''
     \<and> ts_was_armed (fst (um_left s')) \<and> \<not> ts_gate_open (fst (um_left s'))"
proof -
  let ?cfg = "umi_demo_cfg gate lead" and ?pika = "\<lparr>tf_translation = (0, 0, 0), tf_rotation = Mat 1 0 0 0 1 0 0 0 1\<rparr>"
    and ?st = "(note_read arm_teleop_init (Some umi_demo_sample))\<lparr>ts_deadman_drop_mono := None\<rparr>"
  have pika: "tracker_transform umi_demo_sample (uc_gripper_offset ?cfg) (uc_r_align ?cfg) = Inr ?pika"
    by (simp add: tracker_transform_def quat_to_matrix_checked_def qnorm_def umi_demo_sample_def umi_demo_cfg_def Let_def)
  let ?st1 = "(latch ?cfg umi_demo_tf ?pika (Fin 0) ?st)\<lparr>ts_was_armed := True\<rparr>"
  have l: "latched ?st1" by (simp add: latched_def umi_keep)
  obtain diag where e: "engage ?cfg ''left'' demo_live ?pika (Fin 0) ?st (input_diag fl True umi_demo_sample (Fin 0) (conditioner_diag (conditioning_mode ?cfg)))
      = Inr (Some (?st1, diag))" by (simp add: engage_def umi_demo_live)
  obtain st' out where m: "move_target fl ?cfg ''left'' ?st1 ?pika umi_demo_sample True demo_live (Fin 0) diag = (st', out)" by fastforce
  have no: "apply_target_lead_clamp fl ?cfg st5 pose demo_live ''left'' d \<noteq> Inl x" for st5 pose d x
    by (auto simp: apply_target_lead_clamp_def umi_demo_live Let_def split: prod.split)
  obtain o1 p where o1: "out = Inr o1" "ud_pose o1 = Some p" "ud_changed o1" by (rule move_cases [OF m l]) (use no in blast)
  have armed: "ts_was_armed st'" using move_keeps [OF m l] by (simp add: clutch_view_def)
  obtain st2 gate2 diag2 where g: "update_motion_gate fl ?cfg ?st1 ?pika (Fin 0) diag = (st2, gate2, diag2)" by (metis prod_cases3)
  have "ts_gate_history ?st1 = []" "\<not> ts_gate_open ?st1"
    by (simp_all add: latch_def reset_conditioner_def arm_teleop_init_def note_read_def Let_def)
  then have "\<not> ts_gate_open st2" using g by (auto simp: update_motion_gate_def umi_demo_cfg_def vsub_def Let_def split: if_splits)
  then have shut: "\<not> ts_gate_open st'" using move_gate_open [OF m l g] by simp
  have stale: "\<not> umi_stale ?cfg umi_demo_sample (Fin 0)" by (simp add: umi_stale_def umi_demo_cfg_def umi_demo_sample_def)
  have L: "target_for_side fl ?cfg ''left'' (arm_teleop_init, ma_init 1) (Inr (Some umi_demo_sample)) demo_live (Fin 0) = ((st', ma_init 1), Inr o1)"
    using stale pika e m o1(1)
    by (simp add: target_for_side_def ma_filter_def ma_init_def engaged_tick_def umi_demo_sample_def [THEN arg_cong [where f = us_deadman]]
        umi_demo_sample_def [THEN arg_cong [where f = us_seq]] arm_teleop_init_def [THEN arg_cong [where f = ts_last_seq]] note_read_def Let_def)
  obtain orr where R: "target_for_side fl ?cfg ''right'' (arm_teleop_init, ma_init 1) (Inr None) demo_live (Fin 0) = ((arm_teleop_init, ma_init 1), Inr orr)"
    by (simp add: target_for_side_def stopped_tick_def)
  from umi_intent_moves [OF o1(2,3)] obtain i where i: "umi_intent fl ?cfg o1 orr = Inr (Some i)" "arm_mode (arm_payload_of True i) = Some ''TcpPoseTarget''" by blast
  have "umi_step fl (umi_demo gate lead) umi_demo_tick = ((umi_demo gate lead)\<lparr>um_left := (st', ma_init 1), um_right := (arm_teleop_init, ma_init 1)\<rparr>, Inr (Some i))"
    using L R i by (simp add: umi_demo_tick_def umi_next_intent_def umi_demo_def)
  then show ?thesis using i(2) armed shut by auto
qed

abbreviation demo_fl :: "real \<Rightarrow> pyfloat" where
  "demo_fl \<equiv> \<lambda>x. Fin (of_int \<lfloor>x\<rfloor>)"

lemma umi_demo_read: "last_read (map (side_event True) ([] @ [umi_demo_tick])) = Some umi_demo_sample" "us_deadman umi_demo_sample"
  by (simp_all add: last_read_def umi_demo_tick_def umi_demo_sample_def)

theorem umi_moves_only_while_clutched_witness: "\<not> umi_stale (umi_demo_cfg False False) umi_demo_sample (Fin 0)"
proof -
  obtain s' i where m: "umi_step demo_fl (umi_demo False False) (UmTick (Inr (Some umi_demo_sample)) (Inr None) demo_live (Fin 0)) = (s', Inr (Some i))"
    "arm_mode (arm_payload_of True i) = Some ''TcpPoseTarget''" using umi_demo_moves [unfolded umi_demo_tick_def, of demo_fl False False] by blast
  have c: "umi_demo_cfg False False = um_config (umi_demo False False)" by (simp add: umi_demo_def)
  have "calls_ok returned (umi_step demo_fl) (umi_demo False False) []" "umi_demo False False = state_after (umi_step demo_fl) (umi_demo False False) []" by simp_all
  from umi_moves_only_while_clutched [OF umi_demo_init this m refl c] umi_demo_read(1) show ?thesis by (auto simp: umi_demo_tick_def)
qed


theorem umi_target_stays_in_workspace_witness: "\<exists>p. in_workspace (Some ((Fin (-1), Fin 1), (NInf, PInf), (NInf, PInf))) (pose_position p)"
proof -
  obtain s' i where m: "umi_step demo_fl (umi_demo False False) (UmTick (Inr (Some umi_demo_sample)) (Inr None) demo_live (Fin 0)) = (s', Inr (Some i))"
    "arm_mode (arm_payload_of True i) = Some ''TcpPoseTarget''" using umi_demo_moves [unfolded umi_demo_tick_def, of demo_fl False False] by blast
  let ?w = "Some ((Fin (-1), Fin 1), (NInf, PInf), (NInf, PInf))"
  have w: "?w = uc_workspace_bounds (um_config (umi_demo False False))" "ordered_workspace ?w"
    "list_all (live_event ?w (side_name True)) (map (side_event True) ([] @ [UmTick (Inr (Some umi_demo_sample)) (Inr None) demo_live (Fin 0)]))"
    "0 \<le> lc_max_target_lead_m (uc_target_lead_clamp (um_config (umi_demo False False)))"
    by (simp_all add: umi_demo_def umi_demo_cfg_def live_in_def side_name_def umi_demo_live umi_demo_tf_def within_bound_def less_eq_pyfloat_def)
  have "calls_ok returned (umi_step demo_fl) (umi_demo False False) []" "umi_demo False False = state_after (umi_step demo_fl) (umi_demo False False) []" by simp_all
  from umi_target_stays_in_workspace [OF umi_demo_init this m w] show ?thesis by blast
qed

theorem umi_target_stays_near_the_arm_witness: "\<exists>p. vnorm (vsub (pose_position p) (0, 0, 0)) \<le> 3/50"
proof -
  obtain s' i where m: "umi_step demo_fl (umi_demo False True) (UmTick (Inr (Some umi_demo_sample)) (Inr None) demo_live (Fin 0)) = (s', Inr (Some i))"
    "arm_mode (arm_payload_of True i) = Some ''TcpPoseTarget''" using umi_demo_moves [unfolded umi_demo_tick_def, of demo_fl False True] by blast
  let ?c = "\<lparr>lc_enable = True, lc_max_target_lead_m = 3/50, lc_max_target_lead_rad = 1/4, lc_rebase_conditioner_on_clamp = True\<rparr>"
  have c: "?c = uc_target_lead_clamp (um_config (umi_demo False True))" "lc_enable ?c" "0 < lc_max_target_lead_m ?c" "0 < lc_max_target_lead_rad ?c"
    by (simp_all add: umi_demo_def umi_demo_cfg_def)
  have l: "tcp_stand_transform demo_live (side_name True) = Inr (Some umi_demo_tf)" by (simp add: side_name_def umi_demo_live)
  have "calls_ok returned (umi_step demo_fl) (umi_demo False True) []" "umi_demo False True = state_after (umi_step demo_fl) (umi_demo False True) []" by simp_all
  from umi_target_stays_near_the_arm [OF umi_demo_init this m refl umi_demo_read(1) [unfolded umi_demo_tick_def] umi_demo_read(2) l c]
  show ?thesis by (auto simp: umi_demo_tf_def)
qed

theorem closed_gate_keeps_the_target_witness:
  "\<exists>t s' i. umi_step demo_fl (umi_demo True False) (UmTick (Inr (Some umi_demo_sample)) (Inr None) demo_live (Fin 0)) = (s', Inr i)
     \<and> ts_gate_hold_transform (fst (um_left s')) = Some t \<and> t = umi_demo_tf"
proof -
  obtain s' i where m: "umi_step demo_fl (umi_demo True False) (UmTick (Inr (Some umi_demo_sample)) (Inr None) demo_live (Fin 0)) = (s', Inr i)"
    "ts_was_armed (fst (um_side True s'))" "\<not> ts_gate_open (fst (um_side True s'))"
    using umi_demo_moves [unfolded umi_demo_tick_def, of demo_fl True False] by (auto simp: um_side_def)
  have c: "umi_demo_cfg True False = um_config (umi_demo True False)" "mg_enable (uc_motion_gate (umi_demo_cfg True False))"
    "is_rotation (uc_r_align (umi_demo_cfg True False))" by (simp_all add: umi_demo_def umi_demo_cfg_def is_rotation_def mat_one_def)
  have "calls_ok returned (umi_step demo_fl) (umi_demo True False) []" "umi_demo True False = state_after (umi_step demo_fl) (umi_demo True False) []" by simp_all
  from closed_gate_keeps_the_target [OF umi_demo_init this m(1) refl umi_demo_read(1) [unfolded umi_demo_tick_def] umi_demo_read(2) c(1) refl refl m(2) c(2) m(3) c(3)]
  have "ts_gate_hold_transform (fst (um_left s')) = Some umi_demo_tf"
    by (auto simp: um_side_def umi_demo_def side_name_def umi_demo_live)
  then show ?thesis using m(1) by blast
qed



end
