(* ===== verification/CommandHistory.thy ===== *)
theory CommandHistory
  imports Machines
begin

text \<open>
  \<^verbatim>\<open>policy_runner/servo_command_history.py\<close>: the bounded history of the coordinator's command poses and
  the body deltas a policy observes. Numpy and scipy are arguments: converting a value to a float64
  array, the norm of a quaternion and the rotations. A record call may raise and still change the
  history, so it returns both.
\<close>

section \<open>Reading a state packet\<close>

definition hist_unsigned :: "pyval \<Rightarrow> string \<Rightarrow> bool \<Rightarrow> int res" where
  "hist_unsigned v name positive =
     (case v of
        PInt i \<Rightarrow> if i < (if positive then 1 else 0) then Inl (ValueError (''missing_or_invalid_'' @ name)) else Inr i
      | _ \<Rightarrow> Inl (ValueError (''missing_or_invalid_'' @ name)))"

definition observation_stamp :: "pyval \<Rightarrow> (int \<times> int \<times> int) res" where
  "observation_stamp msg =
     (case msg of
        PDict d \<Rightarrow>
          res_bind (hist_unsigned (dget d ''loop_start_time_ns'') ''loop_start_time_ns'' True) (\<lambda>stamp.
          res_bind (hist_unsigned (dget d ''tick'') ''tick'' False) (\<lambda>tick.
          res_bind (hist_unsigned (dget d ''motion_epoch'') ''motion_epoch'' False) (\<lambda>motion. Inr (stamp, tick, motion))))
      | _ \<Rightarrow> Inl (ValueError ''invalid_state_payload''))"

definition arm_epoch :: "pydict \<Rightarrow> string \<Rightarrow> int res" where
  "arm_epoch d side =
     (let fc = (case dget d side of PDict a \<Rightarrow> dget a ''force_control'' | _ \<Rightarrow> PNone)
      in hist_unsigned (case fc of PDict f \<Rightarrow> dget f ''reference_reset_count'' | _ \<Rightarrow> PNone) (side @ ''_reference_reset_count'') False)"

text \<open>\<open>np_asarray v\<close> is \<^verbatim>\<open>np.asarray(v, dtype=np.float64)\<close>: an exception, an array that is not
  one-dimensional (None), or its entries.\<close>

record Numpy =
  np_asarray :: "pyval \<Rightarrow> pyfloat list option res"
  np_norm :: "pyfloat list \<Rightarrow> pyfloat"

definition lookup_key :: "pydict \<Rightarrow> string \<Rightarrow> pyval res" where
  "lookup_key d k = (case map_of d k of None \<Rightarrow> Inl (KeyError k) | Some v \<Rightarrow> Inr v)"

definition value_error :: "pyexc \<Rightarrow> bool" where
  "value_error e = (case e of ValueError _ \<Rightarrow> True | TypeError _ \<Rightarrow> True | _ \<Rightarrow> False)"

definition lookup_error :: "pyexc \<Rightarrow> bool" where
  "lookup_error e = (value_error e \<or> (case e of KeyError _ \<Rightarrow> True | _ \<Rightarrow> False))"

definition command_pose :: "Numpy \<Rightarrow> pydict \<Rightarrow> string \<Rightarrow> pyfloat list res" where
  "command_pose np d side =
     (case (case dget d side of PDict a \<Rightarrow> dget a ''tcp_command_stand'' | _ \<Rightarrow> PNone) of
        PDict raw \<Rightarrow>
          (case res_bind (res_map (lookup_key raw) [''x'', ''y'', ''z'']) (\<lambda>xs.
                res_bind (np_asarray np (PList xs)) (\<lambda>p.
                res_bind (lookup_key raw ''quaternion_xyzw'') (\<lambda>qv.
                res_bind (np_asarray np qv) (\<lambda>q. Inr (p, q))))) of
             Inl e \<Rightarrow> Inl (if lookup_error e then ValueError (''invalid_'' @ side @ ''_tcp_command_stand'') else e)
           | Inr (Some p, Some q) \<Rightarrow>
               if length p \<noteq> 3 \<or> length q \<noteq> 4 \<or> \<not> list_all isfinite (p @ q)
                 then Inl (ValueError (''invalid_'' @ side @ ''_tcp_command_stand''))
               else let n = np_norm np q in
                 if Fin (1/1000) < fabs (n - Fin 1) then Inl (ValueError (''invalid_'' @ side @ ''_command_quaternion''))
                 else Inr (p @ map (\<lambda>x. case fdiv x n of Inr y \<Rightarrow> y | Inl _ \<Rightarrow> NaN) q)
           | Inr _ \<Rightarrow> Inl (ValueError (''invalid_'' @ side @ ''_tcp_command_stand'')))
      | _ \<Rightarrow> Inl (ValueError (''missing_'' @ side @ ''_tcp_command_stand'')))"

section \<open>The history\<close>

record Sample =
  hs_time_ns :: int
  hs_tick :: int
  hs_motion_epoch :: int
  hs_reference_epoch :: int
  hs_pose :: "pyfloat list"

definition SIDES :: "string list" where
  "SIDES = [''left'', ''right'']"

record History =
  hi_stale_timeout_sec :: pyfloat
  hi_maxlen :: nat
  hi_history :: "string \<Rightarrow> Sample list"
  hi_latest_time_ns :: int
  hi_latest_tick :: int
  hi_motion_epoch :: "int option"
  hi_reference_epoch :: "string \<Rightarrow> int option"
  hi_generation :: int
  hi_last_rejection :: string

definition history_init :: "pyfloat \<Rightarrow> int \<Rightarrow> History res" where
  "history_init stale_timeout_sec maxlen =
     (if \<not> isfinite stale_timeout_sec \<or> stale_timeout_sec \<le> Fin 0 \<or> maxlen < 2
        then Inl (ValueError ''history requires a positive stale timeout and maxlen >= 2'')
      else Inr \<lparr>hi_stale_timeout_sec = stale_timeout_sec, hi_maxlen = nat maxlen, hi_history = (\<lambda>_. []),
             hi_latest_time_ns = 0, hi_latest_tick = -1, hi_motion_epoch = None, hi_reference_epoch = (\<lambda>_. None),
             hi_generation = 0, hi_last_rejection = ''history_empty''\<rparr>)"

definition clear_locked :: "History \<Rightarrow> string \<Rightarrow> History" where
  "clear_locked h reason = h\<lparr>hi_history := (\<lambda>_. []), hi_last_rejection := reason\<rparr>"

text \<open>\<^verbatim>\<open>deque.append\<close> of a bounded deque drops from the left.\<close>

definition push_sample :: "nat \<Rightarrow> Sample list \<Rightarrow> Sample \<Rightarrow> Sample list" where
  "push_sample maxlen xs x = (let ys = xs @ [x] in drop (length ys - maxlen) ys)"

text \<open>The age checks: the stamp must be newer than anything seen, and neither ahead of the clock nor stale.\<close>

definition age_error :: "pyfloat \<Rightarrow> pyfloat \<Rightarrow> string \<Rightarrow> string option" where
  "age_error timeout age stale_reason =
     (if \<not> isfinite age \<or> age < Fin (- (1/1000000)) then Some ''server_clock_ahead_of_client''
      else if timeout < age then Some stale_reason else None)"

definition stamp_age :: "pyfloat \<Rightarrow> int \<Rightarrow> pyfloat" where
  "stamp_age now stamp = now - Fin (of_int stamp / 1000000000)"

definition record_side :: "Numpy \<Rightarrow> pydict \<Rightarrow> int \<times> int \<times> int \<Rightarrow> History \<Rightarrow> string \<Rightarrow> History \<times> bool res" where
  "record_side np d st h side =
     (case res_bind (arm_epoch d side) (\<lambda>epoch. res_bind (command_pose np d side) (\<lambda>pose. Inr (epoch, pose))) of
        Inl e \<Rightarrow> if value_error e
                  then (h\<lparr>hi_history := (hi_history h)(side := []), hi_last_rejection := exc_str e\<rparr>, Inr False)
                  else (h, Inl e)
      | Inr (epoch, pose) \<Rightarrow>
          (let h1 = (if hi_reference_epoch h side \<noteq> Some epoch
                     then h\<lparr>hi_history := (hi_history h)(side := []), hi_reference_epoch := (hi_reference_epoch h)(side := Some epoch)\<rparr>
                     else h);
               x = \<lparr>hs_time_ns = fst st, hs_tick = fst (snd st), hs_motion_epoch = snd (snd st), hs_reference_epoch = epoch, hs_pose = pose\<rparr>
           in (h1\<lparr>hi_history := (hi_history h1)(side := push_sample (hi_maxlen h1) (hi_history h1 side) x)\<rparr>, Inr True)))"

fun record_sides :: "Numpy \<Rightarrow> pydict \<Rightarrow> int \<times> int \<times> int \<Rightarrow> History \<Rightarrow> bool \<Rightarrow> string list \<Rightarrow> History \<times> bool res" where
  "record_sides np d st h added [] = (h, Inr added)"
| "record_sides np d st h added (side # sides) =
     (case record_side np d st h side of
        (h', Inl e) \<Rightarrow> (h', Inl e)
      | (h', Inr b) \<Rightarrow> record_sides np d st h' (added \<or> b) sides)"

definition accept_stamp :: "History \<Rightarrow> int \<times> int \<times> int \<Rightarrow> History" where
  "accept_stamp h st =
     (let (stamp, tick, motion) = st; restarted = tick < hi_latest_tick h;
          h1 = (if restarted \<or> hi_motion_epoch h \<noteq> Some motion
                then (clear_locked h (if restarted then ''server_restart'' else ''motion_epoch_changed''))
                       \<lparr>hi_generation := hi_generation h + 1, hi_reference_epoch := (\<lambda>_. None)\<rparr>
                else h)
      in h1\<lparr>hi_latest_time_ns := stamp, hi_latest_tick := tick, hi_motion_epoch := Some motion\<rparr>)"

definition record_packet :: "Numpy \<Rightarrow> History \<Rightarrow> pyval \<Rightarrow> pyfloat \<Rightarrow> bool \<Rightarrow> History \<times> bool res" where
  "record_packet np h msg received_monotonic same_host_clock =
     (if \<not> same_host_clock then (clear_locked h ''unsupported_remote_clock_domain'', Inr False)
      else case observation_stamp msg of
        Inl e \<Rightarrow> (clear_locked h (exc_str e), Inr False)
      | Inr (stamp, tick, motion) \<Rightarrow>
          if stamp \<le> hi_latest_time_ns h then (h, Inr False)
          else (case age_error (hi_stale_timeout_sec h) (stamp_age received_monotonic stamp) ''stale_server_sample'' of
             Some reason \<Rightarrow> (clear_locked h reason, Inr False)
           | None \<Rightarrow>
               (let h1 = accept_stamp h (stamp, tick, motion) in
                if dget (as_dict msg) ''fault_latched'' = PBool True then (clear_locked h1 ''server_fault_latched'', Inr False)
                else record_sides np (as_dict msg) (stamp, tick, motion) h1 False SIDES)))"

section \<open>Body deltas\<close>

record Rotations =
  rt_slerp :: "pyfloat list \<Rightarrow> pyfloat list \<Rightarrow> pyfloat \<Rightarrow> pyfloat list res"
  rt_inv_apply :: "pyfloat list \<Rightarrow> pyfloat list \<Rightarrow> pyfloat list res"
  rt_relative_rotvec :: "pyfloat list \<Rightarrow> pyfloat list \<Rightarrow> pyfloat list res"

definition vec_sub :: "pyfloat list \<Rightarrow> pyfloat list \<Rightarrow> pyfloat list" where
  "vec_sub xs ys = map2 (-) xs ys"

definition interpolate :: "Rotations \<Rightarrow> Sample \<Rightarrow> Sample \<Rightarrow> int \<Rightarrow> pyfloat list res" where
  "interpolate rot p x time_ns =
     res_bind (fdiv (Fin (of_int (time_ns - hs_time_ns p))) (Fin (of_int (hs_time_ns x - hs_time_ns p)))) (\<lambda>alpha.
     res_bind (rt_slerp rot (drop 3 (hs_pose p)) (drop 3 (hs_pose x)) alpha) (\<lambda>q.
     Inr (map2 (+) (take 3 (hs_pose p)) (map ((*) alpha) (vec_sub (take 3 (hs_pose x)) (take 3 (hs_pose p)))) @ q)))"

fun at_time :: "Rotations \<Rightarrow> Sample option \<Rightarrow> Sample list \<Rightarrow> int \<Rightarrow> int \<Rightarrow> (pyfloat list \<times> int \<times> int) res" where
  "at_time rot prev [] time_ns max_gap_ns = Inl (ValueError ''history_bracket_unavailable'')"
| "at_time rot prev (x # xs) time_ns max_gap_ns =
     (if hs_time_ns x = time_ns then Inr (hs_pose x, hs_time_ns x, hs_time_ns x)
      else if time_ns < hs_time_ns x then
        (case prev of
           None \<Rightarrow> Inl (ValueError ''history_bracket_unavailable'')
         | Some p \<Rightarrow>
             if max_gap_ns < hs_time_ns x - hs_time_ns p then Inl (ValueError ''sparse_history_bracket'')
             else res_bind (interpolate rot p x time_ns) (\<lambda>pose. Inr (pose, hs_time_ns p, hs_time_ns x)))
      else at_time rot (Some x) xs time_ns max_gap_ns)"

record ArmWindow =
  aw_reference_reset_count :: int
  aw_start_bracket :: "int \<times> int"
  aw_end_bracket :: "int \<times> int"
  aw_start_pose :: "pyfloat list"
  aw_end_pose :: "pyfloat list"
  aw_delta :: "pyfloat list"

definition arm_window :: "Numpy \<Rightarrow> Rotations \<Rightarrow> History \<Rightarrow> pydict \<Rightarrow> int \<Rightarrow> int \<Rightarrow> int \<Rightarrow> string \<Rightarrow> ArmWindow res" where
  "arm_window np rot h d end_ns motion window_ns side =
     res_bind (arm_epoch d side) (\<lambda>epoch.
     res_bind (command_pose np d side) (\<lambda>_.
     (let samples = filter (\<lambda>x. hs_time_ns x \<le> end_ns) (hi_history h side) in
      if samples = [] then Inl (ValueError (hi_last_rejection h))
      else if list_ex (\<lambda>x. hs_motion_epoch x \<noteq> motion \<or> hs_reference_epoch x \<noteq> epoch) samples
        then Inl (ValueError ''observation_epoch_mismatch'')
      else res_bind (at_time rot None samples (end_ns - window_ns) window_ns) (\<lambda>(previous, pb).
           res_bind (at_time rot None samples end_ns window_ns) (\<lambda>(current, cb).
           res_bind (rt_inv_apply rot (drop 3 previous) (vec_sub (take 3 current) (take 3 previous))) (\<lambda>v.
           res_bind (rt_relative_rotvec rot (drop 3 previous) (drop 3 current)) (\<lambda>w.
           Inr \<lparr>aw_reference_reset_count = epoch, aw_start_bracket = pb, aw_end_bracket = cb,
                aw_start_pose = previous, aw_end_pose = current, aw_delta = v @ w\<rparr>)))))))"

text \<open>\<^verbatim>\<open>body_deltas\<close>: per arm, the window or the reason it is unavailable. The deltas are zero where it is.\<close>

definition guarded :: "'a res \<Rightarrow> (string + 'a) res" where
  "guarded r = (case r of Inr x \<Rightarrow> Inr (Inr x) | Inl e \<Rightarrow> if lookup_error e then Inr (Inl (exc_str e)) else Inl e)"

definition window_bounds :: "History \<Rightarrow> pyval \<Rightarrow> pyfloat \<Rightarrow> pyfloat \<Rightarrow> int \<Rightarrow> (int \<times> int \<times> int) res" where
  "window_bounds h msg policy_dt_sec now_monotonic not_before_ns =
     res_bind (observation_stamp msg) (\<lambda>(end_ns, tick, motion).
     case policy_dt_sec of
       Fin dt \<Rightarrow>
         if dt \<le> 0 then Inl (ValueError ''invalid_policy_dt'')
         else let window_ns = round_half_even (dt * 1000000000) in
           (case age_error (hi_stale_timeout_sec h) (stamp_age now_monotonic end_ns) ''stale_observation'' of
              Some reason \<Rightarrow> Inl (ValueError reason)
            | None \<Rightarrow>
                if dget (as_dict msg) ''fault_latched'' = PBool True then Inl (ValueError ''server_fault_latched'')
                else if end_ns - window_ns < not_before_ns then Inl (ValueError ''window_crosses_policy_reset'')
                else Inr (end_ns, motion, window_ns))
     | _ \<Rightarrow> Inl (ValueError ''invalid_policy_dt''))"

definition body_deltas :: "Numpy \<Rightarrow> Rotations \<Rightarrow> History \<Rightarrow> pyval \<Rightarrow> pyfloat \<Rightarrow> pyfloat \<Rightarrow> int
    \<Rightarrow> (string \<times> (string + ArmWindow)) list res" where
  "body_deltas np rot h msg policy_dt_sec now_monotonic not_before_ns =
     res_bind (guarded (window_bounds h msg policy_dt_sec now_monotonic not_before_ns)) (\<lambda>b.
     case b of
       Inl reason \<Rightarrow> Inr (map (\<lambda>side. (side, Inl reason)) SIDES)
     | Inr (end_ns, motion, window_ns) \<Rightarrow>
         res_map (\<lambda>side. res_bind (guarded (arm_window np rot h (as_dict msg) end_ns motion window_ns side)) (\<lambda>r. Inr (side, r))) SIDES)"

definition delta_of :: "string + ArmWindow \<Rightarrow> pyfloat list" where
  "delta_of r = (case r of Inl _ \<Rightarrow> replicate 6 (Fin 0) | Inr w \<Rightarrow> aw_delta w)"

definition deltas_valid :: "(string \<times> (string + ArmWindow)) list \<Rightarrow> bool" where
  "deltas_valid arms = list_all (\<lambda>x. case snd x of Inl _ \<Rightarrow> False | Inr _ \<Rightarrow> True) arms"

section \<open>The invariant\<close>

text \<open>An arm's samples: strictly increasing in time, none newer than the latest packet, all of the
  current motion epoch and the arm's current reference epoch, at most \<^verbatim>\<open>maxlen\<close> of them.\<close>

definition side_ok :: "History \<Rightarrow> string \<Rightarrow> bool" where
  "side_ok h side = (sorted_wrt (\<lambda>x y. hs_time_ns x < hs_time_ns y) (hi_history h side)
     \<and> length (hi_history h side) \<le> hi_maxlen h
     \<and> (\<forall>x\<in>set (hi_history h side). hs_time_ns x \<le> hi_latest_time_ns h \<and> hi_motion_epoch h = Some (hs_motion_epoch x)
          \<and> hi_reference_epoch h side = Some (hs_reference_epoch x)))"

definition hist_ok :: "History \<Rightarrow> bool" where
  "hist_ok h = (\<forall>side. side_ok h side)"

lemma clear_ok [simp]: "hist_ok (clear_locked h reason)"
  by (simp add: hist_ok_def side_ok_def clear_locked_def)

lemma push_sample_ok:
  assumes "sorted_wrt (\<lambda>x y. hs_time_ns x < hs_time_ns y) xs" and "\<forall>y\<in>set xs. hs_time_ns y < hs_time_ns x"
  shows "sorted_wrt (\<lambda>x y. hs_time_ns x < hs_time_ns y) (push_sample n xs x)" and "length (push_sample n xs x) \<le> n"
    and "set (push_sample n xs x) \<subseteq> insert x (set xs)"
proof -
  have "sorted_wrt (\<lambda>x y. hs_time_ns x < hs_time_ns y) (xs @ [x])" using assms by (simp add: sorted_wrt_append)
  then show "sorted_wrt (\<lambda>x y. hs_time_ns x < hs_time_ns y) (push_sample n xs x)"
    unfolding push_sample_def Let_def by (rule sorted_wrt_drop)
  show "length (push_sample n xs x) \<le> n" by (simp add: push_sample_def)
  show "set (push_sample n xs x) \<subseteq> insert x (set xs)"
    using set_drop_subset [of "length (xs @ [x]) - n" "xs @ [x]"] by (simp add: push_sample_def)
qed

text \<open>While the arms of one packet are recorded: the arms still to come have only older samples.\<close>

definition recording :: "int \<times> int \<times> int \<Rightarrow> string list \<Rightarrow> History \<Rightarrow> bool" where
  "recording st sides h = (hist_ok h \<and> hi_latest_time_ns h = fst st \<and> hi_motion_epoch h = Some (snd (snd st))
     \<and> (\<forall>side\<in>set sides. \<forall>x\<in>set (hi_history h side). hs_time_ns x < fst st))"

lemma record_side_ok:
  assumes rec: "recording st (side # sides) h" and "side \<notin> set sides" and step: "record_side np d st h side = (h', r)"
  shows "recording st sides h'"
proof (cases "res_bind (arm_epoch d side) (\<lambda>epoch. res_bind (command_pose np d side) (\<lambda>pose. Inr (epoch, pose)))")
  case (Inl e)
  with assms show ?thesis by (auto simp: record_side_def recording_def hist_ok_def side_ok_def split: if_splits)
next
  case (Inr ep)
  obtain epoch pose where ep: "ep = (epoch, pose)" by (cases ep)
  define x where "x = \<lparr>hs_time_ns = fst st, hs_tick = fst (snd st), hs_motion_epoch = snd (snd st), hs_reference_epoch = epoch, hs_pose = pose\<rparr>"
  define old where "old = (if hi_reference_epoch h side \<noteq> Some epoch then [] else hi_history h side)"
  have ok: "side_ok h side" using rec by (simp add: recording_def hist_ok_def)
  have srt: "sorted_wrt (\<lambda>x y. hs_time_ns x < hs_time_ns y) old" using ok by (auto simp: old_def side_ok_def)
  have before: "\<forall>y\<in>set old. hs_time_ns y < hs_time_ns x" using rec by (auto simp: old_def x_def recording_def)
  note P = push_sample_ok [OF srt before]
  have h': "hi_history h' = (hi_history h)(side := push_sample (hi_maxlen h) old x)" "hi_maxlen h' = hi_maxlen h"
    "hi_reference_epoch h' = (hi_reference_epoch h)(side := Some epoch)" "hi_latest_time_ns h' = hi_latest_time_ns h"
    "hi_motion_epoch h' = hi_motion_epoch h"
    using step by (auto simp: record_side_def Inr ep Let_def old_def x_def)
  have elems: "hs_time_ns y \<le> fst st \<and> hs_motion_epoch y = snd (snd st) \<and> hs_reference_epoch y = epoch"
    if "y \<in> set (push_sample (hi_maxlen h) old x)" for y
    using that P(3) [of "hi_maxlen h"] ok rec by (force simp: x_def old_def side_ok_def recording_def split: if_splits)
  have "side_ok h' side" using P(1,2) elems rec by (auto simp: side_ok_def h' recording_def)
  moreover have "side_ok h' s" if "s \<noteq> side" for s
  proof -
    have "side_ok h s" using rec by (simp add: recording_def hist_ok_def)
    with that show ?thesis by (simp add: side_ok_def h')
  qed
  ultimately have "hist_ok h'" unfolding hist_ok_def by metis
  then show ?thesis using rec assms(2) by (auto simp: recording_def h')
qed

lemma record_sides_ok:
  "recording st sides h \<Longrightarrow> distinct sides \<Longrightarrow> hist_ok (fst (record_sides np d st h added sides))"
proof (induction np d st h added sides rule: record_sides.induct)
  case (2 np d st h added side sides)
  obtain h' r where s: "record_side np d st h side = (h', r)" by fastforce
  have "recording st sides h'" using record_side_ok [OF 2(2) _ s] 2(3) by simp
  then show ?case using 2(1) [OF s [symmetric]] 2(3) by (cases r) (auto simp: s recording_def)
qed (simp add: recording_def)

lemma accept_stamp_recording:
  assumes "hist_ok h" and "hi_latest_time_ns h < stamp"
  shows "recording (stamp, tick, motion) sides (accept_stamp h (stamp, tick, motion))"
proof -
  have old: "hs_time_ns x < stamp" if "x \<in> set (hi_history h side)" for x side
    using assms that unfolding hist_ok_def side_ok_def by force
  show ?thesis using assms(1) old
    by (auto simp: recording_def accept_stamp_def Let_def clear_locked_def hist_ok_def side_ok_def intro: less_imp_le)
qed

lemma record_packet_ok: "hist_ok h \<Longrightarrow> hist_ok (fst (record_packet np h msg received same_host))"
proof -
  assume ok: "hist_ok h"
  have sides: "hist_ok (fst (record_sides np d (stamp, tick, motion) (accept_stamp h (stamp, tick, motion)) False SIDES))"
    if "\<not> stamp \<le> hi_latest_time_ns h" for d stamp tick motion
    using accept_stamp_recording [OF ok] that by (intro record_sides_ok) (auto simp: SIDES_def)
  show ?thesis using ok sides by (auto simp: record_packet_def Let_def split: sum.split prod.split option.split)
qed

interpretation history: state_machine "\<lambda>h (np, msg, received, same_host). record_packet np h msg received same_host" hist_ok
  by unfold_locales (auto simp: record_packet_ok)

section \<open>Windows\<close>

lemma at_time_bracket:
  assumes "at_time rot prev xs t gap = Inr (pose, a, b)" and "0 \<le> gap" and "\<forall>p. prev = Some p \<longrightarrow> hs_time_ns p < t"
  shows "\<exists>p\<in>set_option prev \<union> set xs. \<exists>x\<in>set xs. a = hs_time_ns p \<and> b = hs_time_ns x \<and> a \<le> t \<and> t \<le> b \<and> b - a \<le> gap
      \<and> (a = t \<and> b = t \<and> pose = hs_pose x \<or> a < t \<and> t < b)"
  using assms
proof (induction rot prev xs t gap rule: at_time.induct)
  case (2 rot prev x xs t gap)
  consider "hs_time_ns x = t" | "t < hs_time_ns x" | "hs_time_ns x < t" by linarith
  then show ?case
  proof cases
    case 2
    with "2.prems" show ?thesis by (cases prev) (auto simp: res_bind_Inr_iff split: if_splits)
  next
    case 3
    with "2.IH" "2.prems" show ?thesis by fastforce
  qed (use "2.prems" in auto)
qed simp

lemma at_time_adjacent:
  assumes "at_time rot prev xs t gap = Inr (pose, a, b)" and "sorted_wrt (\<lambda>x y. hs_time_ns x < hs_time_ns y) xs"
    and "\<forall>p. prev = Some p \<longrightarrow> (\<forall>y\<in>set xs. hs_time_ns p < hs_time_ns y)"
  shows "(\<forall>p. prev = Some p \<longrightarrow> hs_time_ns p \<le> a) \<and> (\<forall>y\<in>set xs. hs_time_ns y \<le> a \<or> b \<le> hs_time_ns y)"
  using assms
proof (induction rot prev xs t gap rule: at_time.induct)
  case (2 rot prev x xs t gap)
  consider "hs_time_ns x = t" | "t < hs_time_ns x" | "hs_time_ns x < t" by linarith
  then show ?case
  proof cases
    case 1
    with "2.prems" show ?thesis by (auto intro: less_imp_le)
  next
    case 2
    with "2.prems" show ?thesis by (cases prev) (auto simp: res_bind_Inr_iff intro: less_imp_le split: if_splits)
  next
    case 3
    then have r: "at_time rot (Some x) xs t gap = Inr (pose, a, b)" using "2.prems"(1) by auto
    with 3 "2.IH" "2.prems" have "hs_time_ns x \<le> a" "\<forall>y\<in>set xs. hs_time_ns y \<le> a \<or> b \<le> hs_time_ns y" by auto
    moreover have "hs_time_ns p \<le> a" if "prev = Some p" for p using "2.prems"(3) that calculation(1) by fastforce
    ultimately show ?thesis by simp
  qed
qed simp

text \<open>A window that ends at \<open>end_ns\<close>: at its end a sample of that very time, at its start a sample or two
  neighbours in the history at most the window apart, all of the given epochs.\<close>

definition causal_window :: "Sample list \<Rightarrow> int \<Rightarrow> int \<Rightarrow> int \<Rightarrow> ArmWindow \<Rightarrow> bool" where
  "causal_window xs end_ns window_ns motion w =
     (\<exists>p\<in>set xs. \<exists>q\<in>set xs. \<exists>x\<in>set xs.
        aw_start_bracket w = (hs_time_ns p, hs_time_ns q) \<and> aw_end_bracket w = (end_ns, end_ns)
        \<and> hs_time_ns p \<le> end_ns - window_ns \<and> end_ns - window_ns \<le> hs_time_ns q \<and> hs_time_ns q \<le> end_ns
        \<and> hs_time_ns q - hs_time_ns p \<le> window_ns
        \<and> (\<forall>y\<in>set xs. hs_time_ns y \<le> hs_time_ns p \<or> hs_time_ns q \<le> hs_time_ns y)
        \<and> hs_time_ns x = end_ns \<and> aw_end_pose w = hs_pose x
        \<and> (\<forall>y\<in>{p, q, x}. hs_motion_epoch y = motion \<and> hs_reference_epoch y = aw_reference_reset_count w))"

lemma arm_window_causal:
  assumes w: "arm_window np rot h d end_ns motion window_ns side = Inr w" and gap: "0 \<le> window_ns" and ok: "side_ok h side"
  shows "causal_window (hi_history h side) end_ns window_ns motion w"
proof -
  let ?xs = "filter (\<lambda>x. hs_time_ns x \<le> end_ns) (hi_history h side)"
  obtain previous pb current cb where A: "at_time rot None ?xs (end_ns - window_ns) window_ns = Inr (previous, pb)"
    "at_time rot None ?xs end_ns window_ns = Inr (current, cb)"
    and W: "aw_start_bracket w = pb" "aw_end_bracket w = cb" "aw_end_pose w = current"
    and ep: "\<forall>x\<in>set ?xs. hs_motion_epoch x = motion \<and> hs_reference_epoch x = aw_reference_reset_count w"
    using w unfolding arm_window_def Let_def by (auto simp: res_bind_Inr_iff list_ex_iff split: if_splits)
  obtain a b c e where br: "pb = (a, b)" "cb = (c, e)" by (cases pb; cases cb)
  have srt: "sorted_wrt (\<lambda>x y. hs_time_ns x < hs_time_ns y) ?xs" using ok by (simp add: side_ok_def sorted_wrt_filter)
  from at_time_bracket [OF A(1) [unfolded br] gap] obtain p q where pq: "p \<in> set ?xs" "q \<in> set ?xs" "a = hs_time_ns p" "b = hs_time_ns q"
    "a \<le> end_ns - window_ns" "end_ns - window_ns \<le> b" "b - a \<le> window_ns" by auto
  from at_time_bracket [OF A(2) [unfolded br] gap] obtain x where x: "x \<in> set ?xs" "e = hs_time_ns x"
    "c = end_ns \<and> e = end_ns \<and> current = hs_pose x \<or> end_ns < e" by blast
  have adj: "\<forall>y\<in>set ?xs. hs_time_ns y \<le> a \<or> b \<le> hs_time_ns y" using at_time_adjacent [OF A(1) [unfolded br] srt] by simp
  have adj': "\<forall>y\<in>set (hi_history h side). hs_time_ns y \<le> hs_time_ns p \<or> hs_time_ns q \<le> hs_time_ns y"
    using adj pq by fastforce
  have e: "e = end_ns" "c = end_ns" "current = hs_pose x" using x by auto
  have mem: "p \<in> set (hi_history h side)" "q \<in> set (hi_history h side)" "x \<in> set (hi_history h side)" "hs_time_ns q \<le> end_ns"
    using pq(1,2) x(1) by auto
  have ep3: "\<forall>y\<in>{p, q, x}. hs_motion_epoch y = motion \<and> hs_reference_epoch y = aw_reference_reset_count w"
    using ep pq(1,2) x(1) by blast
  have W3: "aw_start_bracket w = (hs_time_ns p, hs_time_ns q)" "aw_end_bracket w = (end_ns, end_ns)" "aw_end_pose w = hs_pose x"
    "hs_time_ns x = end_ns" using W br pq(3,4) e x(2) by simp_all
  have T: "hs_time_ns p \<le> end_ns - window_ns" "end_ns - window_ns \<le> hs_time_ns q" "hs_time_ns q - hs_time_ns p \<le> window_ns"
    using pq(3-7) by simp_all
  show ?thesis unfolding causal_window_def using mem ep3 W3 T adj' by blast
qed

lemma round_half_even_nonneg: "0 \<le> q \<Longrightarrow> 0 \<le> round_half_even q"
proof -
  assume "0 \<le> q"
  then have "0 \<le> \<lfloor>q\<rfloor>" by simp
  then show ?thesis by (simp add: round_half_even_def Let_def)
qed

lemma window_bounds_Inr:
  "window_bounds h msg dt now not_before = Inr (end_ns, motion, window_ns) \<Longrightarrow>
     (\<exists>tick. observation_stamp msg = Inr (end_ns, tick, motion)) \<and> (\<exists>q. dt = Fin q \<and> window_ns = round_half_even (q * 1000000000) \<and> 0 \<le> window_ns)
     \<and> not_before \<le> end_ns - window_ns"
proof -
  assume w: "window_bounds h msg dt now not_before = Inr (end_ns, motion, window_ns)"
  then obtain e tick m where o': "observation_stamp msg = Inr (e, tick, m)"
    by (cases "observation_stamp msg") (auto simp: window_bounds_def)
  obtain q where q: "dt = Fin q" "0 < q" using w o' by (cases dt) (auto simp: window_bounds_def split: if_splits)
  have "age_error (hi_stale_timeout_sec h) (stamp_age now e) ''stale_observation'' = None"
    using w o' q by (auto simp: window_bounds_def Let_def split: option.splits if_splits)
  with w o' q have "end_ns = e" "motion = m" "window_ns = round_half_even (q * 1000000000)" "not_before \<le> end_ns - window_ns"
    by (auto simp: window_bounds_def Let_def split: if_splits)
  with o' q show ?thesis using round_half_even_nonneg [of "q * 1000000000"] by auto
qed

lemma body_deltas_window:
  assumes "body_deltas np rot h msg dt now not_before = Inr arms" and "(side, Inr w) \<in> set arms"
  shows "\<exists>end_ns motion window_ns. window_bounds h msg dt now not_before = Inr (end_ns, motion, window_ns)
     \<and> arm_window np rot h (as_dict msg) end_ns motion window_ns side = Inr w"
proof -
  obtain b where b: "guarded (window_bounds h msg dt now not_before) = Inr b" using assms(1) by (auto simp: body_deltas_def res_bind_Inr_iff)
  obtain v where v: "window_bounds h msg dt now not_before = Inr v" "b = Inr v"
  proof (cases "window_bounds h msg dt now not_before")
    case (Inl e)
    with b assms show ?thesis by (auto simp: guarded_def body_deltas_def split: if_splits)
  qed (use b that in \<open>auto simp: guarded_def\<close>)
  obtain end_ns motion window_ns where v3: "v = (end_ns, motion, window_ns)" by (cases v)
  let ?f = "\<lambda>side. res_bind (guarded (arm_window np rot h (as_dict msg) end_ns motion window_ns side)) (\<lambda>r. Inr (side, r))"
  have "res_map ?f SIDES = Inr arms" using assms(1) b v by (simp add: body_deltas_def v3)
  then have "list_all2 (\<lambda>s r. ?f s = Inr r) SIDES arms" by (simp add: res_map_Inr_iff)
  with assms(2) obtain s where s: "?f s = Inr (side, Inr w)" by (auto simp: list_all2_conv_all_nth in_set_conv_nth)
  then have "arm_window np rot h (as_dict msg) end_ns motion window_ns side = Inr w"
    by (auto simp: res_bind_Inr_iff guarded_def split: sum.splits if_splits)
  with v v3 show ?thesis by blast
qed

section \<open>Properties\<close>

abbreviation history_step where
  "history_step \<equiv> \<lambda>h (np, msg, received, same_host). record_packet np h msg received same_host"

text \<open>(C22) A delta a policy observes is causal and never mixes epochs. After any packets, in any order, stale,
  repeated, malformed or from a restarted server, a window that is reported valid ends at the sample
  recorded at exactly the observation's stamp and starts at a sample or between two neighbouring
  samples at most one policy period apart; all of them are in the history, none is newer than the
  observation, and all belong to the observation's motion epoch and reference epoch.\<close>

theorem observed_window_is_causal:
  assumes "history_init timeout maxlen = Inr h0" and "h = state_after history_step h0 es"
    and "body_deltas np rot h msg dt now not_before = Inr arms" and "(side, Inr w) \<in> set arms"
  shows "\<exists>end_ns tick motion q. observation_stamp msg = Inr (end_ns, tick, motion) \<and> dt = Fin q
    \<and> causal_window (hi_history h side) end_ns (round_half_even (q * 1000000000)) motion w
    \<and> not_before \<le> end_ns - round_half_even (q * 1000000000)"
proof -
  have "hist_ok h0" using assms(1) by (auto simp: history_init_def hist_ok_def side_ok_def split: if_splits)
  then have ok: "side_ok h side" using history.inv_run assms(2) unfolding hist_ok_def by blast
  obtain end_ns motion window_ns where W: "window_bounds h msg dt now not_before = Inr (end_ns, motion, window_ns)"
    "arm_window np rot h (as_dict msg) end_ns motion window_ns side = Inr w"
    using body_deltas_window [OF assms(3,4)] by blast
  note B = window_bounds_Inr [OF W(1)]
  then have "0 \<le> window_ns" by blast
  from arm_window_causal [OF W(2) this ok] B show ?thesis by auto
qed

section \<open>Two packets\<close>

definition demo_np :: Numpy where
  "demo_np = \<lparr>np_asarray = (\<lambda>v. case v of PList xs \<Rightarrow> res_bind (res_map py_float xs) (\<lambda>fs. Inr (Some fs)) | _ \<Rightarrow> Inr None),
     np_norm = (\<lambda>_. Fin 1)\<rparr>"

definition demo_rot :: Rotations where
  "demo_rot = \<lparr>rt_slerp = (\<lambda>p _ _. Inr p), rt_inv_apply = (\<lambda>_ v. Inr v), rt_relative_rotvec = (\<lambda>_ _. Inr [Fin 0, Fin 0, Fin 0])\<rparr>"

definition demo_arm_state :: "rat \<Rightarrow> pyval" where
  "demo_arm_state x = PDict [(''force_control'', PDict [(''reference_reset_count'', PInt 0)]),
     (''tcp_command_stand'', PDict [(''x'', PFloat (Fin x)), (''y'', PInt 0), (''z'', PInt 0),
        (''quaternion_xyzw'', PList [PInt 0, PInt 0, PInt 0, PInt 1])])]"

definition demo_packet :: "int \<Rightarrow> rat \<Rightarrow> pyval" where
  "demo_packet stamp x = PDict [(''loop_start_time_ns'', PInt stamp), (''tick'', PInt stamp), (''motion_epoch'', PInt 1),
     (''left'', demo_arm_state x), (''right'', demo_arm_state x)]"

definition demo_history0 :: History where
  "demo_history0 = (case history_init (Fin 1) 4 of Inr h \<Rightarrow> h)"

definition demo_history :: History where
  "demo_history = state_after history_step demo_history0
     [(demo_np, demo_packet 1 1, Fin 0, True), (demo_np, demo_packet 2 3, Fin 0, True)]"

lemma demo_reads:
  "observation_stamp (demo_packet n x) = (if n < 1 then Inl (ValueError ''missing_or_invalid_loop_start_time_ns'') else Inr (n, n, 1))"
  "side \<in> {''left'', ''right''} \<Longrightarrow> arm_epoch (as_dict (demo_packet n x)) side = Inr 0"
  "side \<in> {''left'', ''right''} \<Longrightarrow> command_pose demo_np (as_dict (demo_packet n x)) side = Inr [Fin x, Fin 0, Fin 0, Fin 0, Fin 0, Fin 0, Fin 1]"
  "dget (as_dict (demo_packet n x)) ''fault_latched'' = PNone"
  by (auto simp: demo_packet_def demo_arm_state_def demo_np_def observation_stamp_def hist_unsigned_def arm_epoch_def command_pose_def
      lookup_key_def isfinite_def fabs_def Let_def)

definition demo_sample :: "int \<Rightarrow> rat \<Rightarrow> Sample" where
  "demo_sample n x = \<lparr>hs_time_ns = n, hs_tick = n, hs_motion_epoch = 1, hs_reference_epoch = 0,
     hs_pose = [Fin x, Fin 0, Fin 0, Fin 0, Fin 0, Fin 0, Fin 1]\<rparr>"

lemma demo_side:
  "side \<in> {''left'', ''right''} \<Longrightarrow> hi_reference_epoch h side \<in> {None, Some 0} \<Longrightarrow> (hi_reference_epoch h side = None \<Longrightarrow> hi_history h side = []) \<Longrightarrow>
     record_side demo_np (as_dict (demo_packet n x)) (n, n, 1) h side =
       (h\<lparr>hi_history := (hi_history h)(side := push_sample (hi_maxlen h) (hi_history h side) (demo_sample n x)),
          hi_reference_epoch := (hi_reference_epoch h)(side := Some 0)\<rparr>, Inr True)"
  by (cases h) (auto simp: record_side_def demo_reads demo_sample_def Let_def)

definition demo_state :: "int \<Rightarrow> Sample list \<Rightarrow> History" where
  "demo_state n xs = \<lparr>hi_stale_timeout_sec = Fin 1, hi_maxlen = 4, hi_history = (\<lambda>_. [])(''left'' := xs, ''right'' := xs),
     hi_latest_time_ns = n, hi_latest_tick = n, hi_motion_epoch = Some 1,
     hi_reference_epoch = (\<lambda>_. None)(''left'' := Some 0, ''right'' := Some 0), hi_generation = 1, hi_last_rejection = ''motion_epoch_changed''\<rparr>"

lemma demo_first: "fst (record_packet demo_np demo_history0 (demo_packet 1 1) (Fin 0) True) = demo_state 1 [demo_sample 1 1]"
proof -
  have a: "accept_stamp demo_history0 (1, 1, 1) = (demo_state 1 [])\<lparr>hi_history := (\<lambda>_. []), hi_reference_epoch := (\<lambda>_. None)\<rparr>"
    by (simp add: accept_stamp_def demo_history0_def history_init_def isfinite_def clear_locked_def demo_state_def)
  have h0: "hi_latest_time_ns demo_history0 = 0" "hi_stale_timeout_sec demo_history0 = Fin 1"
    by (simp_all add: demo_history0_def history_init_def isfinite_def)
  show ?thesis
    by (simp add: record_packet_def demo_reads h0 age_error_def stamp_age_def isfinite_def a SIDES_def demo_side)
      (simp add: demo_state_def push_sample_def)
qed

lemma demo_second: "fst (record_packet demo_np (demo_state 1 [demo_sample 1 1]) (demo_packet 2 3) (Fin 0) True)
    = demo_state 2 [demo_sample 1 1, demo_sample 2 3]"
proof -
  have a: "accept_stamp (demo_state 1 xs) (2, 2, 1) = demo_state 2 xs" for xs
    by (simp add: accept_stamp_def demo_state_def)
  have h: "hi_latest_time_ns (demo_state n xs) = n" "hi_stale_timeout_sec (demo_state n xs) = Fin 1" for n xs by (simp_all add: demo_state_def)
  have f: "dget (as_dict (demo_packet 2 3)) ''fault_latched'' \<noteq> PBool True" by (simp add: demo_reads)
  have r: "record_sides demo_np (as_dict (demo_packet 2 3)) (2, 2, 1) (demo_state 2 [demo_sample 1 1]) False SIDES
      = (demo_state 2 [demo_sample 1 1, demo_sample 2 3], Inr True)"
    unfolding SIDES_def record_sides.simps
    by (subst demo_side, simp, simp add: demo_state_def, simp add: demo_state_def, simp, subst demo_side, simp, simp add: demo_state_def,
        simp add: demo_state_def, simp add: demo_state_def push_sample_def)
  show ?thesis using f by (simp add: record_packet_def demo_reads h age_error_def stamp_age_def isfinite_def a r)
qed

lemma demo_history_eq: "demo_history = demo_state 2 [demo_sample 1 1, demo_sample 2 3]"
  by (simp add: demo_history_def demo_first demo_second)

theorem observed_window_is_causal_witness:
  "\<exists>w. body_deltas demo_np demo_rot demo_history (demo_packet 2 3) (Fin (1/1000000000)) (Fin 0) 0
        = Inr [(''left'', Inr w), (''right'', Inr w)]
     \<and> aw_delta w = [Fin 2, Fin 0, Fin 0, Fin 0, Fin 0, Fin 0]
     \<and> causal_window (hi_history demo_history ''left'') 2 (round_half_even (1/1000000000 * 1000000000)) 1 w"
proof -
  have i: "history_init (Fin 1) 4 = Inr demo_history0" by (simp add: demo_history0_def history_init_def isfinite_def)
  define w where "w = \<lparr>aw_reference_reset_count = 0, aw_start_bracket = (1, 1), aw_end_bracket = (2, 2),
     aw_start_pose = [Fin 1, Fin 0, Fin 0, Fin 0, Fin 0, Fin 0, Fin 1], aw_end_pose = [Fin 3, Fin 0, Fin 0, Fin 0, Fin 0, Fin 0, Fin 1],
     aw_delta = [Fin 2, Fin 0, Fin 0, Fin 0, Fin 0, Fin 0]\<rparr>"
  have b: "body_deltas demo_np demo_rot demo_history (demo_packet 2 3) (Fin (1/1000000000)) (Fin 0) 0
      = Inr [(''left'', Inr w), (''right'', Inr w)]"
  proof -
    have wb: "window_bounds demo_history (demo_packet 2 3) (Fin (1/1000000000)) (Fin 0) 0 = Inr (2, 1, 1)"
      by (simp add: window_bounds_def demo_reads demo_history_eq demo_state_def age_error_def stamp_age_def isfinite_def round_half_even_def)
    have "hi_history demo_history side = [demo_sample 1 1, demo_sample 2 3]" if "side \<in> {''left'', ''right''}" for side
      using that by (auto simp: demo_history_eq demo_state_def)
    then have "arm_window demo_np demo_rot demo_history (as_dict (demo_packet 2 3)) 2 1 1 side = Inr w"
      if "side \<in> {''left'', ''right''}" for side
      using that by (simp add: arm_window_def demo_reads demo_sample_def demo_rot_def vec_sub_def w_def)
    then show ?thesis by (simp add: body_deltas_def guarded_def wb SIDES_def)
  qed
  have s: "observation_stamp (demo_packet 2 3) = Inr (2, 2, 1)" by code_simp
  from observed_window_is_causal [OF i demo_history_def b, of "''left''" w] s
  have "causal_window (hi_history demo_history ''left'') 2 (round_half_even (1/1000000000 * 1000000000)) 1 w" by auto
  with b show ?thesis by (auto simp: w_def)
qed

end
