(* ===== verification/FlowRows.thy ===== *)
theory FlowRows
  imports ChunkEnsemble PoseTarget StateClient
begin

text \<open>
  What the policy source of \<^verbatim>\<open>policy_runner/flow_inference.py\<close> does with the rows of a chunk before they become
  targets: the alignment of the tool frame, the rotation mask, the low-pass over a chunk, the velocity clamp and
  the crossfade at a chunk boundary; and the pose of an arm in a state payload (\<^verbatim>\<open>flow_dataset.py\<close>). A row has a
  local pose delta and a gripper value per arm. Numbers are reals; float32 rounding is not modelled.
\<close>

section \<open>Poses of a state payload\<close>

fun side_key :: "arm \<Rightarrow> string" where
  "side_key ArmLeft = ''left''"
| "side_key ArmRight = ''right''"

definition float_or_zero :: "pyval \<Rightarrow> real \<Rightarrow> real res" where
  "float_or_zero v d =
     (case float_checked v of
        Inr (Fin q) \<Rightarrow> Inr (of_rat q)
      | Inr _ \<Rightarrow> Inr d
      | Inl (OverflowError m) \<Rightarrow> Inl (OverflowError m)
      | Inl _ \<Rightarrow> Inr d)"

definition automatic_tracking_pose_source :: "pyval \<Rightarrow> string" where
  "automatic_tracking_pose_source v =
     (let arm = as_dict v; gate = as_dict (dget arm ''cartesian_gate''); controller_sim = dget arm ''controller_simulation_mode'';
          text = (\<lambda>d k. py_strip (py_str (dget_or d k (PStr []))));
          operation_mode = py_lower (text gate ''operation_mode'');
          configured_source = py_lower (text gate ''controller_simulation_servo_state_source'');
          physical_motion_expected = dget_or arm ''physical_motion_expected'' (dget gate ''physical_motion_expected'');
          controller_sim_active = (operation_mode \<in> {''simulation'', ''sim''} \<and> physical_motion_expected = PBool False \<or> is_dict controller_sim)
      in if controller_sim_active \<and> configured_source = ''reference'' then ''reference''
         else if is_dict controller_sim \<and> text (as_dict controller_sim) ''recommended_tracking_pose'' = ''tcp_ref_stand'' then ''reference''
         else ''actual'')"

text \<open>\<^verbatim>\<open>all(math.isfinite(float(item)) for item in items)\<close> stops at the first number that is not finite.\<close>

fun all_finite :: "pyval list \<Rightarrow> bool res" where
  "all_finite [] = Inr True"
| "all_finite (v # vs) = res_bind (float_checked v) (\<lambda>x. if isfinite x then all_finite vs else Inr False)"

definition check_reference :: "pyval list \<Rightarrow> unit res" where
  "check_reference vs =
     (case all_finite vs of
        Inr True \<Rightarrow> Inr ()
      | Inl (OverflowError m) \<Rightarrow> Inl (OverflowError m)
      | _ \<Rightarrow> Inl (ValueError ''controller reference pose is incomplete or non-finite''))"

definition state_pose_block :: "pydict \<Rightarrow> string \<Rightarrow> pyval res" where
  "state_pose_block arm source =
     (if source = ''command''
        then Inr (py_or (py_or (py_or (dget arm ''tcp_command_stand'') (dget arm ''tcp_stand'')) (dget arm ''tcp_actual_stand'')) (PDict []))
      else if source = ''reference'' then
        (if dget arm ''tcp_ref_valid'' = PBool False then Inl (ValueError ''controller reference pose is invalid'')
         else if is_dict (dget arm ''tcp_ref_stand'') then Inr (dget arm ''tcp_ref_stand'')
         else Inl (ValueError ''controller reference pose is unavailable''))
      else Inr (py_or (py_or (dget arm ''tcp_stand'') (dget arm ''tcp_actual_stand'')) (PDict [])))"

definition state_quaternion :: "pydict \<Rightarrow> string \<Rightarrow> pyval list res" where
  "state_quaternion pose source =
     (let by_name = (if source = ''reference'' \<and> \<not> list_all (has_key pose) [''qx'', ''qy'', ''qz'', ''qw'']
                       then Inl (ValueError ''controller reference pose quaternion is unavailable'')
                     else Inr [dget_or pose ''qx'' (PFloat (Fin 0)), dget_or pose ''qy'' (PFloat (Fin 0)),
                               dget_or pose ''qz'' (PFloat (Fin 0)), dget_or pose ''qw'' (PFloat (Fin 1))])
      in case dget pose ''quaternion_xyzw'' of
           PList q \<Rightarrow> if 4 \<le> length q then Inr (take 4 q) else by_name
         | _ \<Rightarrow> by_name)"

definition pose_from_state_arm :: "pyval \<Rightarrow> string \<Rightarrow> pose7 res" where
  "pose_from_state_arm v source =
     res_bind (state_pose_block (as_dict v) source) (\<lambda>block.
       case block of
         PDict pose \<Rightarrow>
           res_bind (state_quaternion pose source) (\<lambda>q.
           res_bind (if source = ''reference'' then check_reference ([dget pose ''x'', dget pose ''y'', dget pose ''z''] @ q) else Inr ()) (\<lambda>_.
           res_bind (res_map (\<lambda>(x, d). float_or_zero x d) (zip ([dget pose ''x'', dget pose ''y'', dget pose ''z''] @ q) [0, 0, 0, 0, 0, 0, 1])) (\<lambda>out.
             let p = ((out ! 0, out ! 1, out ! 2), (out ! 3, out ! 4, out ! 5, out ! 6)) in
             if source = ''reference'' \<and> qnorm (snd p) < 1 / 10 ^ 8
               then Inl (ValueError ''controller reference pose is non-finite or has an invalid quaternion'')
             else Inr p)))
       | _ \<Rightarrow> Inr ((0, 0, 0), (0, 0, 0, 1)))"

definition pose_from_state_payload :: "pydict \<Rightarrow> arm \<Rightarrow> string \<Rightarrow> pose7 res" where
  "pose_from_state_payload d side source =
     (if source \<notin> {''auto'', ''actual'', ''reference'', ''command''} then Inl (ValueError ''source must be auto, actual, reference, or command'')
      else let arm = dget_or d (side_key side) (PDict []);
               resolved = (if source = ''auto'' then automatic_tracking_pose_source arm else source)
           in pose_from_state_arm arm resolved)"

section \<open>Rows\<close>

definition pose7_list :: "pose7 \<Rightarrow> real list" where
  "pose7_list p = (case p of ((x, y, z), (qx, qy, qz, qw)) \<Rightarrow> [x, y, z, qx, qy, qz, qw])"

definition delta_list :: "pose_delta \<Rightarrow> real list" where
  "delta_list d = (case d of ((x, y, z), (rx, ry, rz)) \<Rightarrow> [x, y, z, rx, ry, rz])"

definition list_delta :: "real list \<Rightarrow> pose_delta" where
  "list_delta xs = ((xs ! 0, xs ! 1, xs ! 2), (xs ! 3, xs ! 4, xs ! 5))"

text \<open>The 14 numbers of a row.\<close>

definition row_values :: "Row \<Rightarrow> real list" where
  "row_values r = delta_list (rw_delta r ArmLeft) @ [rw_grip r ArmLeft] @ delta_list (rw_delta r ArmRight) @ [rw_grip r ArmRight]"

definition map_deltas :: "(pose_delta \<Rightarrow> pose_delta) \<Rightarrow> Row \<Rightarrow> Row" where
  "map_deltas f r = r\<lparr>rw_delta := (\<lambda>a. f (rw_delta r a))\<rparr>"

definition delta_add :: "pose_delta \<Rightarrow> pose_delta \<Rightarrow> pose_delta" where
  "delta_add d e = (vadd (fst d) (fst e), vadd (snd d) (snd e))"

definition delta_scale :: "real \<Rightarrow> pose_delta \<Rightarrow> pose_delta" where
  "delta_scale k d = (vscale k (fst d), vscale k (snd d))"

record EeLocalRAlign =
  ra_linear :: mat3
  ra_angular :: mat3

definition align_transpose :: "EeLocalRAlign \<Rightarrow> EeLocalRAlign" where
  "align_transpose r = \<lparr>ra_linear = mat_transpose (ra_linear r), ra_angular = mat_transpose (ra_angular r)\<rparr>"

definition rotate_flow_arm_vectors :: "Row list \<Rightarrow> EeLocalRAlign \<Rightarrow> Row list" where
  "rotate_flow_arm_vectors chunk r = map (map_deltas (\<lambda>d. (mat_vec (ra_linear r) (fst d), mat_vec (ra_angular r) (snd d)))) chunk"

definition apply_rotation_axis_mask :: "bool \<times> bool \<times> bool \<Rightarrow> Row list \<Rightarrow> Row list" where
  "apply_rotation_axis_mask keep chunk =
     (let (kx, ky, kz) = keep; sel = (\<lambda>k v. if k then v else (0::real)) in
      if kx \<and> ky \<and> kz then chunk
      else map (map_deltas (\<lambda>(p, (rx, ry, rz)). (p, (sel kx rx, sel ky ry, sel kz rz)))) chunk)"

definition sample_and_align_chunk :: "EeLocalRAlign option \<Rightarrow> bool \<times> bool \<times> bool \<Rightarrow> Row list option \<Rightarrow> Row list option" where
  "sample_and_align_chunk align keep sampled =
     map_option (\<lambda>chunk. apply_rotation_axis_mask keep
       (case align of None \<Rightarrow> chunk | Some r \<Rightarrow> rotate_flow_arm_vectors chunk (align_transpose r))) sampled"

section \<open>The low-pass over a chunk\<close>

text \<open>One row of \<^verbatim>\<open>np.convolve(padded, taps, mode="valid")\<close>: the taps run backwards.\<close>

definition conv_row :: "real list \<Rightarrow> (arm \<Rightarrow> pose_delta) list \<Rightarrow> nat \<Rightarrow> arm \<Rightarrow> pose_delta" where
  "conv_row taps padded i a =
     foldl (\<lambda>acc (c, d). delta_add acc (delta_scale c (d a))) ((0, 0, 0), (0, 0, 0)) (zip (rev taps) (drop i padded))"

text \<open>An even number of taps makes the result one row too long; the assignment raises and the chunk stays as it is.\<close>

definition band_limit_chunk :: "real list option \<Rightarrow> (arm \<Rightarrow> pose_delta) list option \<Rightarrow> Row list
    \<Rightarrow> (arm \<Rightarrow> pose_delta) list option \<times> Row list" where
  "band_limit_chunk taps_opt ctx chunk =
     (case taps_opt of
        None \<Rightarrow> (ctx, chunk)
      | Some taps \<Rightarrow>
          (let half = length taps div 2; body = map rw_delta chunk in
           if length chunk \<le> half \<or> even (length taps) then (ctx, chunk)
           else let left = (case ctx of Some c \<Rightarrow> if length c = half then c else replicate half (hd body) | None \<Rightarrow> replicate half (hd body));
                    padded = left @ body @ replicate half (last body);
                    out = map (conv_row taps padded) [0..<length body]
                in (Some (if half = 0 then out else drop (length out - half) out),
                    map (\<lambda>(r, d). r\<lparr>rw_delta := d\<rparr>) (zip chunk out))))"

section \<open>From deltas to targets\<close>

record DeltaLimits =
  dl_max_linear_velocity_m_s :: real
  dl_max_angular_velocity_rad_s :: real
  dl_policy_dt_sec :: real
  dl_crossfade_steps :: int

text \<open>A row has six numbers per arm, so the clamp does not raise.\<close>

definition clamp_delta_step :: "DeltaLimits \<Rightarrow> pose_delta \<Rightarrow> pose_delta" where
  "clamp_delta_step l d =
     (case clamp_pose_delta (delta_list d) (dl_max_linear_velocity_m_s l * dl_policy_dt_sec l) (dl_max_angular_velocity_rad_s l * dl_policy_dt_sec l) of
        Inr xs \<Rightarrow> list_delta xs | Inl _ \<Rightarrow> d)"

definition apply_chunk_crossfade :: "DeltaLimits \<Rightarrow> pose_delta option \<Rightarrow> pose_delta \<Rightarrow> int \<Rightarrow> pose_delta" where
  "apply_chunk_crossfade l prev current idx =
     (let k = dl_crossfade_steps l in
      case prev of
        None \<Rightarrow> current
      | Some p \<Rightarrow>
          if k \<le> 0 \<or> k \<le> idx then current
          else let alpha = real_of_int (idx + 1) / real_of_int (k + 1) in delta_add (delta_scale (1 - alpha) p) (delta_scale alpha current))"

text \<open>The emitted delta and the delta the next chunk fades from.\<close>

definition condition_arm_delta :: "DeltaLimits \<Rightarrow> pose_delta option \<Rightarrow> pose_delta \<Rightarrow> int \<Rightarrow> pose_delta \<times> pose_delta option" where
  "condition_arm_delta l prev delta idx =
     (let emitted = apply_chunk_crossfade l prev (clamp_delta_step l delta) idx; k = dl_crossfade_steps l
      in (emitted, if prev = None \<or> k \<le> 0 \<or> k \<le> idx then Some emitted else prev))"

lemma clamp_delta_step_bounds:
  assumes "clamp_delta_step l d = ((x, y, z), (rx, ry, rz))" and "0 \<le> dl_policy_dt_sec l"
  shows "\<bar>x\<bar> \<le> \<bar>dl_max_linear_velocity_m_s l\<bar> * dl_policy_dt_sec l \<and> \<bar>y\<bar> \<le> \<bar>dl_max_linear_velocity_m_s l\<bar> * dl_policy_dt_sec l
    \<and> \<bar>z\<bar> \<le> \<bar>dl_max_linear_velocity_m_s l\<bar> * dl_policy_dt_sec l \<and> \<bar>rx\<bar> \<le> \<bar>dl_max_angular_velocity_rad_s l\<bar> * dl_policy_dt_sec l
    \<and> \<bar>ry\<bar> \<le> \<bar>dl_max_angular_velocity_rad_s l\<bar> * dl_policy_dt_sec l \<and> \<bar>rz\<bar> \<le> \<bar>dl_max_angular_velocity_rad_s l\<bar> * dl_policy_dt_sec l"
proof -
  obtain a b c e f g where d: "d = ((a, b, c), (e, f, g))" by (metis prod.exhaust)
  have "\<bar>m * dl_policy_dt_sec l\<bar> = \<bar>m\<bar> * dl_policy_dt_sec l" for m using assms(2) by (simp add: abs_mult)
  then show ?thesis using assms(1) clamp_value_abs [OF mult_nonneg_nonneg [OF abs_ge_zero assms(2)]]
    by (auto simp: clamp_delta_step_def d delta_list_def clamp_pose_delta_six list_delta_def)
qed

lemma length_band_limit [simp]: "length (snd (band_limit_chunk taps ctx chunk)) = length chunk"
  by (auto simp: band_limit_chunk_def Let_def split: option.splits)

lemma band_limit_off [simp]: "band_limit_chunk None ctx chunk = (ctx, chunk)"
  by (simp add: band_limit_chunk_def)

text \<open>The low-pass leaves the gripper values alone.\<close>

lemma band_limit_grip: "i < length chunk \<Longrightarrow> rw_grip (snd (band_limit_chunk taps ctx chunk) ! i) = rw_grip (chunk ! i)"
  by (auto simp: band_limit_chunk_def Let_def split: option.splits)

end
