(* ===== verification/PrefetchWorker.thy ===== *)
theory PrefetchWorker
  imports Machines FlowRows
begin

text \<open>
  The prefetch worker of \<^verbatim>\<open>policy_runner/flow_inference.py\<close>: the command loop hands one inference request at a
  time to a thread and takes its result later. The state is what both sides share under \<^verbatim>\<open>_stream_lock\<close>, with
  the request the worker holds while it infers. Each critical section is one operation; the generation number
  tells results of before an invalidation from later ones.

  What an inference returns is the parameter \<open>infer\<close> of the operations that complete one, a function of the
  request: requests carry a sequence number of their own, so no two are equal. Timing telemetry is left out.
\<close>

section \<open>Requests and results\<close>

record InferRequest =
  rq_generation :: int
  rq_inference_seq :: int
  rq_payload :: pydict
  rq_observation_step_seq :: int

text \<open>An inference: the chunk, None where there is none, or the exception; the delay sent for the freeze of the
  next rows, if any; the arrival time of the camera frames it saw.\<close>

record Inference =
  inf_chunk :: "Row list option res"
  inf_rtc_delay :: "int option"
  inf_observation_time_ns :: "int option"

record ChunkMeta =
  cm_generation :: int
  cm_inference_seq :: int
  cm_observation_step_seq :: int
  cm_rtc_delay :: "int option"
  cm_preview_recovery_epoch :: int
  cm_observation_time_ns :: int
  cm_freeze_guard_waits :: int

record Mailbox =
  mb_request :: "InferRequest option"
  mb_pending :: bool
  mb_shutdown :: bool
  mb_inflight :: "InferRequest option"
  mb_next_chunk :: "Row list option"
  mb_next_meta :: "ChunkMeta option"
  mb_candidate :: "ChunkMeta option"
  mb_generation :: int
  mb_inference_seq :: int

definition mailbox_init :: Mailbox where
  "mailbox_init = \<lparr>mb_request = None, mb_pending = False, mb_shutdown = False, mb_inflight = None, mb_next_chunk = None,
     mb_next_meta = None, mb_candidate = None, mb_generation = 0, mb_inference_seq = 0\<rparr>"

definition inference_recovery_metadata :: "pydict \<Rightarrow> int option \<Rightarrow> int \<times> int" where
  "inference_recovery_metadata d stamp =
     (let epoch = (case dget d ''preview_recovery'' of PDict block \<Rightarrow> dget block ''epoch'' | _ \<Rightarrow> PNone)
      in (case epoch of PInt e \<Rightarrow> if 0 \<le> e then e else 0 | _ \<Rightarrow> 0,
          case stamp of Some t \<Rightarrow> if 0 < t then t else 0 | None \<Rightarrow> 0))"

definition chunk_meta :: "InferRequest \<Rightarrow> int option \<Rightarrow> int option \<Rightarrow> ChunkMeta" where
  "chunk_meta rq delay stamp =
     (let (epoch, t) = inference_recovery_metadata (rq_payload rq) stamp
      in \<lparr>cm_generation = rq_generation rq, cm_inference_seq = rq_inference_seq rq, cm_observation_step_seq = rq_observation_step_seq rq,
          cm_rtc_delay = delay, cm_preview_recovery_epoch = epoch, cm_observation_time_ns = t, cm_freeze_guard_waits = 0\<rparr>)"

section \<open>The command loop's side\<close>

definition request_prefetch :: "pydict \<Rightarrow> int \<Rightarrow> Mailbox \<Rightarrow> Mailbox" where
  "request_prefetch d emitted m =
     (if mb_shutdown m \<or> mb_pending m \<or> mb_next_chunk m \<noteq> None then m
      else m\<lparr>mb_inference_seq := mb_inference_seq m + 1, mb_pending := True,
             mb_request := Some \<lparr>rq_generation = mb_generation m, rq_inference_seq = mb_inference_seq m + 1, rq_payload = d,
                                 rq_observation_step_seq = emitted\<rparr>\<rparr>)"

definition take_prefetched :: "Mailbox \<Rightarrow> Mailbox \<times> Row list option" where
  "take_prefetched m =
     (m\<lparr>mb_next_chunk := None, mb_next_meta := None,
        mb_candidate := (if mb_next_chunk m \<noteq> None then mb_next_meta m else mb_candidate m)\<rparr>, mb_next_chunk m)"

definition invalidate_mailbox :: "Mailbox \<Rightarrow> Mailbox" where
  "invalidate_mailbox m =
     m\<lparr>mb_generation := mb_generation m + 1, mb_next_chunk := None, mb_next_meta := None, mb_candidate := None, mb_pending := False,
       mb_request := None\<rparr>"

definition close_mailbox :: "Mailbox \<Rightarrow> Mailbox" where
  "close_mailbox m = m\<lparr>mb_shutdown := True\<rparr>"

text \<open>\<^verbatim>\<open>_sample_and_align_chunk_timed\<close>: an inference on the command loop itself.\<close>

definition sample_inline :: "(InferRequest \<Rightarrow> Inference) \<Rightarrow> pydict \<Rightarrow> int \<Rightarrow> Mailbox \<Rightarrow> Mailbox \<times> Row list option res" where
  "sample_inline infer d emitted m =
     (let rq = \<lparr>rq_generation = mb_generation m, rq_inference_seq = mb_inference_seq m + 1, rq_payload = d, rq_observation_step_seq = emitted\<rparr>;
          i = infer rq
      in (m\<lparr>mb_inference_seq := mb_inference_seq m + 1,
            mb_candidate := (case inf_chunk i of Inr (Some _) \<Rightarrow> Some (chunk_meta rq None (inf_observation_time_ns i)) | _ \<Rightarrow> None)\<rparr>,
          inf_chunk i))"

section \<open>The worker's side\<close>

text \<open>One thread: it takes a request only when it holds none.\<close>

definition worker_begin :: "Mailbox \<Rightarrow> Mailbox" where
  "worker_begin m =
     (if mb_shutdown m \<or> mb_inflight m \<noteq> None then m
      else case mb_request m of None \<Rightarrow> m | Some rq \<Rightarrow> m\<lparr>mb_inflight := Some rq, mb_request := None\<rparr>)"

text \<open>The completion of the request it holds, and whether it was a stale one, which runs
  \<^verbatim>\<open>_on_stale_inference_completion\<close> instead of storing anything. An exception counts as no chunk.\<close>

definition worker_finish :: "(InferRequest \<Rightarrow> Inference) \<Rightarrow> Mailbox \<Rightarrow> Mailbox \<times> bool" where
  "worker_finish infer m =
     (case mb_inflight m of
        None \<Rightarrow> (m, False)
      | Some rq \<Rightarrow>
          if rq_generation rq \<noteq> mb_generation m then (m\<lparr>mb_inflight := None\<rparr>, True)
          else let i = infer rq; chunk = (case inf_chunk i of Inr c \<Rightarrow> c | Inl _ \<Rightarrow> None)
               in (m\<lparr>mb_next_chunk := chunk,
                     mb_next_meta := map_option (\<lambda>_. chunk_meta rq (inf_rtc_delay i) (inf_observation_time_ns i)) chunk,
                     mb_pending := False, mb_inflight := None\<rparr>, False))"

section \<open>One request at a time\<close>

text \<open>\<open>mb_pending\<close> says exactly that a request of this generation waits or is being inferred, not both; a result
  waits only when none is; and everything that waits is of this generation.\<close>

definition current_inflight :: "Mailbox \<Rightarrow> bool" where
  "current_inflight m = (case mb_inflight m of None \<Rightarrow> False | Some rq \<Rightarrow> rq_generation rq = mb_generation m)"

definition mailbox_ok :: "Mailbox \<Rightarrow> bool" where
  "mailbox_ok m =
     ((mb_pending m \<longleftrightarrow> mb_request m \<noteq> None \<or> current_inflight m) \<and> \<not> (mb_request m \<noteq> None \<and> current_inflight m)
      \<and> (mb_next_chunk m \<noteq> None \<longrightarrow> \<not> mb_pending m) \<and> (mb_next_chunk m = None \<longleftrightarrow> mb_next_meta m = None)
      \<and> (\<forall>rq. mb_request m = Some rq \<longrightarrow> rq_generation rq = mb_generation m)
      \<and> (\<forall>rq. mb_inflight m = Some rq \<longrightarrow> rq_generation rq \<le> mb_generation m)
      \<and> (\<forall>c. mb_next_meta m = Some c \<longrightarrow> cm_generation c = mb_generation m)
      \<and> (\<forall>c. mb_candidate m = Some c \<longrightarrow> cm_generation c = mb_generation m))"

lemma chunk_meta_simps [simp]:
  "cm_generation (chunk_meta rq d t) = rq_generation rq" "cm_inference_seq (chunk_meta rq d t) = rq_inference_seq rq"
  "cm_observation_step_seq (chunk_meta rq d t) = rq_observation_step_seq rq" "cm_rtc_delay (chunk_meta rq d t) = d"
  by (simp_all add: chunk_meta_def case_prod_beta Let_def)

lemmas mailbox_defs = mailbox_ok_def current_inflight_def

lemma mailbox_ok_init: "mailbox_ok mailbox_init"
  by (simp add: mailbox_defs mailbox_init_def)

lemma mailbox_ok_request: "mailbox_ok m \<Longrightarrow> mailbox_ok (request_prefetch d n m)"
  by (auto simp: mailbox_defs request_prefetch_def split: option.splits)

lemma mailbox_ok_take: "mailbox_ok m \<Longrightarrow> mailbox_ok (fst (take_prefetched m))"
  by (auto simp: mailbox_defs take_prefetched_def split: option.splits)

lemma mailbox_ok_invalidate: "mailbox_ok m \<Longrightarrow> mailbox_ok (invalidate_mailbox m)"
  by (auto simp: mailbox_defs invalidate_mailbox_def split: option.splits)

lemma mailbox_ok_close: "mailbox_ok m \<Longrightarrow> mailbox_ok (close_mailbox m)"
  by (auto simp: mailbox_defs close_mailbox_def split: option.splits)

lemma mailbox_ok_inline: "mailbox_ok m \<Longrightarrow> mailbox_ok (fst (sample_inline infer d n m))"
  by (auto simp: mailbox_defs sample_inline_def Let_def split: option.splits sum.splits)

lemma mailbox_ok_begin: "mailbox_ok m \<Longrightarrow> mailbox_ok (worker_begin m)"
  by (auto simp: mailbox_defs worker_begin_def split: option.splits)

lemma mailbox_ok_finish: "mailbox_ok m \<Longrightarrow> mailbox_ok (fst (worker_finish infer m))"
  by (auto simp: mailbox_defs worker_finish_def Let_def split: option.splits sum.splits)

lemmas mailbox_ok_intros = mailbox_ok_init mailbox_ok_request mailbox_ok_take mailbox_ok_invalidate mailbox_ok_close mailbox_ok_inline
  mailbox_ok_begin mailbox_ok_finish

section \<open>Runs\<close>

datatype MailboxOp = MoRequest pydict int | MoTake | MoInvalidate | MoClose | MoInline pydict int | MoBegin | MoFinish

fun mailbox_step :: "(InferRequest \<Rightarrow> Inference) \<Rightarrow> Mailbox \<Rightarrow> MailboxOp \<Rightarrow> Mailbox \<times> Row list option" where
  "mailbox_step infer m (MoRequest d n) = (request_prefetch d n m, None)"
| "mailbox_step infer m MoTake = take_prefetched m"
| "mailbox_step infer m MoInvalidate = (invalidate_mailbox m, None)"
| "mailbox_step infer m MoClose = (close_mailbox m, None)"
| "mailbox_step infer m (MoInline d n) = (fst (sample_inline infer d n m), None)"
| "mailbox_step infer m MoBegin = (worker_begin m, None)"
| "mailbox_step infer m MoFinish = (fst (worker_finish infer m), None)"

interpretation mailbox: state_machine "mailbox_step infer" mailbox_ok for infer
proof
  show "mailbox_ok (fst (mailbox_step infer m e))" if "mailbox_ok m" for m e
    using that by (cases e) (simp_all add: mailbox_ok_intros)
qed

end
