(* ===== verification/FlowGripper.thy ===== *)
theory FlowGripper
  imports Gripper FlowRows
begin

text \<open>
  The gripper side of the policy source of \<^verbatim>\<open>policy_runner/flow_inference.py\<close>: how the gripper value of a policy row
  becomes the opening of the motion packet and the command of the serial backend (bias, snap, binary presets, the
  open hold at the start, the command dead band), and which opening is fed back to the policy. What the
  backend's \<^verbatim>\<open>current_percent\<close> returns is the argument \<open>backend\<close>. Openings are reals; \<open>fl\<close> rounds one to a double.
\<close>

section \<open>Configuration and state\<close>

record FlowGripperConfig =
  fg_action_absolute :: bool
  fg_close_bias :: real
  fg_close_bias_left :: "real option"
  fg_close_bias_right :: "real option"
  fg_binary :: bool
  fg_open_percent :: real
  fg_close_percent :: real
  fg_binary_threshold :: real
  fg_close_snap_percent :: real
  fg_lookahead_steps :: int
  fg_command_deadband_percent :: real
  fg_open_hold_steps :: int
  fg_proprio_source :: string
  fg_jam_gap_percent :: real
  fg_jam_stall_steps :: int
  fg_jam_move_eps_percent :: real
  fg_command_source :: string

record FlowGripperState =
  gs_targets :: "arm \<Rightarrow> real option"
  gs_last_sent :: "arm \<Rightarrow> real option"
  gs_actual_history :: "arm \<Rightarrow> real list"
  gs_integrate_count :: int
  gs_hold_open_now :: bool
  gs_proprio_last :: "arm \<Rightarrow> real option"
  gs_proprio_last_source :: "arm \<Rightarrow> string option"

definition flow_gripper_init :: FlowGripperState where
  "flow_gripper_init = \<lparr>gs_targets = (\<lambda>_. None), gs_last_sent = (\<lambda>_. None), gs_actual_history = (\<lambda>_. []), gs_integrate_count = 0,
     gs_hold_open_now = False, gs_proprio_last = (\<lambda>_. None), gs_proprio_last_source = (\<lambda>_. None)\<rparr>"

section \<open>From the model's value to an opening\<close>

definition clip_percent :: "real \<Rightarrow> real" where
  "clip_percent x = min 100 (max 0 x)"

definition flow_close_bias :: "FlowGripperConfig \<Rightarrow> arm \<Rightarrow> real" where
  "flow_close_bias c a =
     (if \<not> fg_action_absolute c \<or> fg_binary c then 0
      else case (case a of ArmLeft \<Rightarrow> fg_close_bias_left c | ArmRight \<Rightarrow> fg_close_bias_right c) of
             Some b \<Rightarrow> b | None \<Rightarrow> fg_close_bias c)"

definition map_gripper_opening :: "FlowGripperConfig \<Rightarrow> arm \<Rightarrow> real \<Rightarrow> real" where
  "map_gripper_opening c a raw =
     (if fg_binary c then clip_percent (if fg_binary_threshold c \<le> raw then fg_open_percent c else fg_close_percent c)
      else let mapped = clip_percent (raw - flow_close_bias c a)
           in if 0 < fg_close_snap_percent c \<and> mapped < fg_close_snap_percent c then 0 else mapped)"

definition gripper_hold_open_value :: "FlowGripperConfig \<Rightarrow> real" where
  "gripper_hold_open_value c = (if fg_binary c then clip_percent (fg_open_percent c) else 100)"

definition gripper_step_row :: "FlowGripperConfig \<Rightarrow> Row list \<Rightarrow> nat \<Rightarrow> Row" where
  "gripper_step_row c chunk index =
     (let lead = fg_lookahead_steps c in
      if lead \<le> 0 \<or> \<not> fg_action_absolute c then chunk ! index else chunk ! min (index + nat lead) (length chunk - 1))"

section \<open>Openings of a state payload\<close>

definition positive_or_zero_float :: "pyval \<Rightarrow> real option res" where
  "positive_or_zero_float v =
     (case v of
        PNone \<Rightarrow> Inr None
      | _ \<Rightarrow> (case float_checked v of
                Inr (Fin q) \<Rightarrow> Inr (Some (of_rat q))
              | Inr _ \<Rightarrow> Inr None
              | Inl (OverflowError m) \<Rightarrow> Inl (OverflowError m)
              | Inl _ \<Rightarrow> Inr None))"

fun first_opening :: "pydict \<Rightarrow> string list \<Rightarrow> real option res" where
  "first_opening d [] = Inr None"
| "first_opening d (k # ks) =
     res_bind (positive_or_zero_float (dget d k)) (\<lambda>v. case v of None \<Rightarrow> first_opening d ks | Some x \<Rightarrow> Inr (Some x))"

text \<open>The first number under the keys in the first container that has one.\<close>

fun first_in_containers :: "(pydict \<Rightarrow> bool) \<Rightarrow> pydict \<Rightarrow> string list \<Rightarrow> string list \<Rightarrow> real option res" where
  "first_in_containers usable d [] ks = Inr None"
| "first_in_containers usable d (name # names) ks =
     (case dget d name of
        PDict container \<Rightarrow>
          (if usable container
           then res_bind (first_opening container ks) (\<lambda>v. case v of None \<Rightarrow> first_in_containers usable d names ks | Some x \<Rightarrow> Inr (Some x))
           else first_in_containers usable d names ks)
      | _ \<Rightarrow> first_in_containers usable d names ks)"

definition gripper_value_from_payload :: "pydict \<Rightarrow> arm \<Rightarrow> real option res" where
  "gripper_value_from_payload d a =
     (case dget_or d (side_key a) (PDict []) of
        PDict arm \<Rightarrow>
          res_bind (first_in_containers (\<lambda>_. True) arm [''gripper'', ''gripper_state'']
              [''target_percent'', ''percent'', ''gripper_position'', ''position'', ''target'', ''value'']) (\<lambda>v.
            case v of Some x \<Rightarrow> Inr (Some x)
            | None \<Rightarrow> first_opening arm [''gripper_position'', ''gripper_target'', ''gripper'', ''gripper_value''])
      | _ \<Rightarrow> Inr None)"

definition live_gripper_percent :: "(arm \<Rightarrow> real option) \<Rightarrow> FlowGripperState \<Rightarrow> arm \<Rightarrow> real option" where
  "live_gripper_percent backend g a = (case backend a of Some v \<Rightarrow> Some v | None \<Rightarrow> gs_targets g a)"

definition measured_usable :: "pydict \<Rightarrow> bool" where
  "measured_usable container = (\<not> (dget container ''valid'' = PBool False \<or> dget container ''stale'' = PBool True))"

definition measured_gripper_percent :: "(arm \<Rightarrow> real option) \<Rightarrow> pydict \<Rightarrow> FlowGripperState \<Rightarrow> arm \<Rightarrow> real option res" where
  "measured_gripper_percent backend d g a =
     (case dget d (side_key a) of
        PDict arm \<Rightarrow>
          res_bind (first_in_containers measured_usable arm [''gripper'', ''gripper_state''] [''percent'', ''gripper_position'', ''position'']) (\<lambda>v.
            case v of Some x \<Rightarrow> Inr (Some x)
            | None \<Rightarrow> res_bind (first_opening arm [''gripper_position'', ''gripper'', ''gripper_value'']) (\<lambda>w.
                case w of Some x \<Rightarrow> Inr (Some x) | None \<Rightarrow> Inr (live_gripper_percent backend g a)))
      | _ \<Rightarrow> Inr (live_gripper_percent backend g a))"

section \<open>What the policy is told\<close>

definition note_gripper_actual :: "FlowGripperConfig \<Rightarrow> arm \<Rightarrow> real option \<Rightarrow> FlowGripperState \<Rightarrow> FlowGripperState" where
  "note_gripper_actual c a percent g =
     (case percent of
        None \<Rightarrow> g
      | Some p \<Rightarrow>
          (let history = gs_actual_history g a @ [p]; keep = nat (max 2 ((if fg_jam_stall_steps c = 0 then 3 else fg_jam_stall_steps c) + 1))
           in g\<lparr>gs_actual_history := (gs_actual_history g)(a := drop (length history - keep) history)\<rparr>))"

definition gripper_jammed :: "FlowGripperConfig \<Rightarrow> FlowGripperState \<Rightarrow> arm \<Rightarrow> real \<Rightarrow> real \<Rightarrow> bool" where
  "gripper_jammed c g a actual commanded =
     (if \<bar>actual - commanded\<bar> \<le> fg_jam_gap_percent c then False
      else let window = fg_jam_stall_steps c; history = gs_actual_history g a in
        if window \<le> 0 then True
        else if int (length history) < window + 1 then False
        else let recent = drop (length history - nat (window + 1)) history
             in Max (set recent) - Min (set recent) \<le> fg_jam_move_eps_percent c)"

definition commanded_gripper_percent :: "FlowGripperState \<Rightarrow> arm \<Rightarrow> real option" where
  "commanded_gripper_percent g a = (case gs_last_sent g a of Some v \<Rightarrow> Some v | None \<Rightarrow> gs_targets g a)"

definition proprio_choice :: "FlowGripperConfig \<Rightarrow> FlowGripperState \<Rightarrow> arm \<Rightarrow> real option \<Rightarrow> (real option \<times> string) res" where
  "proprio_choice c g a actual =
     (let mode = py_lower (if fg_proprio_source c = [] then ''actual'' else fg_proprio_source c) in
      if mode = ''actual'' then Inr (actual, ''actual'')
      else case commanded_gripper_percent g a of
             None \<Rightarrow> Inr (actual, ''actual_no_command'')
           | Some cmd \<Rightarrow>
               if mode = ''command'' then Inr (Some cmd, ''command'')
               else if mode = ''hybrid'' then
                 Inr (case actual of
                        Some p \<Rightarrow> if gripper_jammed c g a p cmd then (Some p, ''hybrid_jam'') else (Some cmd, ''hybrid_free'')
                      | None \<Rightarrow> (Some cmd, ''hybrid_free''))
               else Inl (ValueError (''unknown gripper_proprio_source: '' @ repr_str mode)))"

definition proprio_gripper_percent :: "FlowGripperConfig \<Rightarrow> (arm \<Rightarrow> real option) \<Rightarrow> pydict \<Rightarrow> arm \<Rightarrow> FlowGripperState
    \<Rightarrow> FlowGripperState \<times> real option res" where
  "proprio_gripper_percent c backend d a g =
     (case res_bind (measured_gripper_percent backend d g a) (proprio_choice c g a) of
        Inl e \<Rightarrow> (g, Inl e)
      | Inr (resolved, source) \<Rightarrow>
          (g\<lparr>gs_proprio_last := (gs_proprio_last g)(a := resolved), gs_proprio_last_source := (gs_proprio_last_source g)(a := Some source)\<rparr>,
           Inr resolved))"

section \<open>Targets of a step\<close>

definition hold_gripper_within_deadband :: "FlowGripperConfig \<Rightarrow> arm \<Rightarrow> real \<Rightarrow> FlowGripperState \<Rightarrow> FlowGripperState \<times> real" where
  "hold_gripper_within_deadband c a val g =
     (let deadband = fg_command_deadband_percent c; send = (g\<lparr>gs_last_sent := (gs_last_sent g)(a := Some val)\<rparr>, val) in
      case gs_last_sent g a of
        None \<Rightarrow> send
      | Some lst \<Rightarrow> if 0 < deadband \<and> \<not> (val = 0 \<or> lst = 0) \<and> \<bar>val - lst\<bar> \<le> deadband then (g, lst) else send)"

definition gripper_command_for_dispatch :: "FlowGripperConfig \<Rightarrow> arm \<Rightarrow> real \<Rightarrow> FlowGripperState \<Rightarrow> real" where
  "gripper_command_for_dispatch c a raw g =
     (let mapped = map_gripper_opening c a raw in
      if fg_command_deadband_percent c \<le> 0 then mapped else case gs_last_sent g a of None \<Rightarrow> mapped | Some lst \<Rightarrow> lst)"

definition allow_gripper_targets_in_motion_packet :: "string \<Rightarrow> bool \<Rightarrow> (string \<times> string) list \<Rightarrow> bool" where
  "allow_gripper_targets_in_motion_packet rollout_mode allow_real_gripper_motion env =
     (let mode = py_lower (py_strip rollout_mode) in
      if mode = ''real_policy'' then allow_real_gripper_motion \<and> map_of env REAL_GRIPPER_ENV = Some ''1''
      else mode \<in> {''controller_sim'', ''sim_dryrun'', ''offline_eval'', ''real_readonly''})"

text \<open>The inputs of a step that come from elsewhere: the arm mask, whether preview execution lets an arm's gripper move,
  whether the motion packet may carry targets, and the backend's readings.\<close>

record GripperInputs =
  gi_arm_mask :: "arm \<Rightarrow> pyfloat"
  gi_arm_allowed :: "arm \<Rightarrow> bool"
  gi_packet_allowed :: bool
  gi_backend :: "arm \<Rightarrow> real option"

fun note_actuals :: "FlowGripperConfig \<Rightarrow> GripperInputs \<Rightarrow> pydict \<Rightarrow> arm list \<Rightarrow> FlowGripperState \<Rightarrow> FlowGripperState \<times> unit res" where
  "note_actuals c i d [] g = (g, Inr ())"
| "note_actuals c i d (a # as) g =
     (case measured_gripper_percent (gi_backend i) d g a of
        Inl e \<Rightarrow> (g, Inl e)
      | Inr p \<Rightarrow> note_actuals c i d as (note_gripper_actual c a p g))"

definition arm_gripper_target :: "FlowGripperConfig \<Rightarrow> bool \<Rightarrow> Row \<Rightarrow> arm \<Rightarrow> real option \<Rightarrow> FlowGripperState \<Rightarrow> real" where
  "arm_gripper_target c hold_open r a current g =
     (let integrated = (case gs_targets g a of Some t \<Rightarrow> t | None \<Rightarrow> (case current of None \<Rightarrow> 0 | Some v \<Rightarrow> v));
          target = (if fg_action_absolute c then map_gripper_opening c a (rw_grip r a) else integrated + rw_grip r a)
      in if hold_open then gripper_hold_open_value c else target)"

fun integrate_arms :: "FlowGripperConfig \<Rightarrow> GripperInputs \<Rightarrow> pydict \<Rightarrow> Row \<Rightarrow> arm list \<Rightarrow> FlowGripperState \<Rightarrow> (arm \<Rightarrow> real option)
    \<Rightarrow> FlowGripperState \<times> (arm \<Rightarrow> real option) res" where
  "integrate_arms c i d r [] g targets = (g, Inr targets)"
| "integrate_arms c i d r (a # as) g targets =
     (if gi_arm_mask i a \<le> Fin 0 \<or> \<not> gi_arm_allowed i a then integrate_arms c i d r as g targets
      else case gripper_value_from_payload d a of
             Inl e \<Rightarrow> (g, Inl e)
           | Inr v \<Rightarrow>
               (let current = (case v of Some x \<Rightarrow> Some x | None \<Rightarrow> live_gripper_percent (gi_backend i) g a);
                    target = arm_gripper_target c (gs_hold_open_now g) r a current g;
                    (g1, sent) = hold_gripper_within_deadband c a target (g\<lparr>gs_targets := (gs_targets g)(a := Some target)\<rparr>)
                in integrate_arms c i d r as g1 (targets(a := Some sent))))"

definition integrate_gripper_targets :: "FlowGripperConfig \<Rightarrow> GripperInputs \<Rightarrow> Row \<Rightarrow> pydict \<Rightarrow> FlowGripperState
    \<Rightarrow> FlowGripperState \<times> (arm \<Rightarrow> real option) res" where
  "integrate_gripper_targets c i r d g =
     (let g1 = g\<lparr>gs_integrate_count := gs_integrate_count g + 1, gs_hold_open_now := (gs_integrate_count g < fg_open_hold_steps c)\<rparr> in
      case note_actuals c i d [ArmLeft, ArmRight] g1 of
        (g2, Inl e) \<Rightarrow> (g2, Inl e)
      | (g2, Inr _) \<Rightarrow>
          if \<not> gi_packet_allowed i then (g2, Inr (\<lambda>_. None)) else integrate_arms c i d r [ArmLeft, ArmRight] g2 (\<lambda>_. None))"

definition dispatch_row :: "FlowGripperConfig \<Rightarrow> Row \<Rightarrow> FlowGripperState \<Rightarrow> Row" where
  "dispatch_row c r g =
     (if \<not> fg_action_absolute c then r
      else r\<lparr>rw_grip := (\<lambda>a. if gs_hold_open_now g then gripper_hold_open_value c else gripper_command_for_dispatch c a (rw_grip r a) g)\<rparr>)"

definition dispatch_gripper_step :: "(real \<Rightarrow> pyfloat) \<Rightarrow> FlowGripperConfig \<Rightarrow> GripperInputs \<Rightarrow> Row \<Rightarrow> FlowGripperState \<Rightarrow> GripperCommand list res" where
  "dispatch_gripper_step fl c i r g =
     gripper_commands_from_flow_step (map (\<lambda>v. PFloat (fl v)) (row_values (dispatch_row c r g)))
       (map (\<lambda>a. PFloat (if gi_arm_allowed i a then gi_arm_mask i a else Fin 0)) [ArmLeft, ArmRight])
       (if fg_action_absolute c then ''target'' else ''delta'') (fg_command_source c)"

text \<open>The two calls that every executed row makes, in their order.\<close>

definition gripper_row_step :: "(real \<Rightarrow> pyfloat) \<Rightarrow> FlowGripperConfig \<Rightarrow> FlowGripperState \<Rightarrow> GripperInputs \<times> Row \<times> pydict
    \<Rightarrow> FlowGripperState \<times> ((arm \<Rightarrow> real option) \<times> GripperCommand list) res" where
  "gripper_row_step fl c g e =
     (let (i, r, d) = e in
      case integrate_gripper_targets c i r d g of
        (g1, Inl x) \<Rightarrow> (g1, Inl x)
      | (g1, Inr targets) \<Rightarrow> (g1, res_bind (dispatch_gripper_step fl c i r g1) (\<lambda>commands. Inr (targets, commands))))"

section \<open>One decision, two consumers\<close>

lemma clip_percent_range: "0 \<le> clip_percent x" "clip_percent x \<le> 100"
  by (simp_all add: clip_percent_def)

lemma map_gripper_opening_range: "0 \<le> map_gripper_opening c a x \<and> map_gripper_opening c a x \<le> 100"
  by (simp add: map_gripper_opening_def Let_def clip_percent_range)

lemma gripper_hold_open_range: "0 \<le> gripper_hold_open_value c \<and> gripper_hold_open_value c \<le> 100"
  by (simp add: gripper_hold_open_value_def clip_percent_range)

lemma hold_deadband_spec:
  assumes "hold_gripper_within_deadband c a val g = (g', sent)"
  shows "gs_last_sent g' = (gs_last_sent g)(a := Some sent)" and "gs_targets g' = gs_targets g"
    and "gs_integrate_count g' = gs_integrate_count g" and "gs_hold_open_now g' = gs_hold_open_now g"
    and "fg_command_deadband_percent c \<le> 0 \<Longrightarrow> sent = val"
    and "\<bar>sent - val\<bar> \<le> max 0 (fg_command_deadband_percent c)" and "val = 0 \<Longrightarrow> sent = 0"
    and "sent = val \<or> gs_last_sent g a = Some sent"
  using assms by (auto simp: hold_gripper_within_deadband_def Let_def abs_minus_commute split: option.splits if_splits)

text \<open>What the commands so far have left behind: openings in range, and during the open hold nothing but its value.\<close>

definition flow_gripper_ok :: "FlowGripperConfig \<Rightarrow> FlowGripperState \<Rightarrow> bool" where
  "flow_gripper_ok c g =
     ((\<forall>a x. gs_last_sent g a = Some x \<longrightarrow> 0 \<le> x \<and> x \<le> 100)
      \<and> (gs_integrate_count g \<le> fg_open_hold_steps c \<longrightarrow> (\<forall>a x. gs_last_sent g a = Some x \<longrightarrow> x = gripper_hold_open_value c)))"

lemma flow_gripper_ok_init: "flow_gripper_ok c flow_gripper_init"
  by (simp add: flow_gripper_ok_def flow_gripper_init_def)

lemma note_gripper_actual_keeps [simp]:
  "gs_last_sent (note_gripper_actual c a p g) = gs_last_sent g" "gs_hold_open_now (note_gripper_actual c a p g) = gs_hold_open_now g"
  "gs_integrate_count (note_gripper_actual c a p g) = gs_integrate_count g"
  by (simp_all add: note_gripper_actual_def Let_def split: option.splits)

lemma note_actuals_keeps:
  "note_actuals c i d as g = (g', out) \<Longrightarrow>
     gs_last_sent g' = gs_last_sent g \<and> gs_hold_open_now g' = gs_hold_open_now g \<and> gs_integrate_count g' = gs_integrate_count g"
  by (induction as arbitrary: g) (auto split: sum.splits)

lemma arm_target_range: "fg_action_absolute c \<Longrightarrow> 0 \<le> arm_gripper_target c h r a v g \<and> arm_gripper_target c h r a v g \<le> 100"
  by (simp add: arm_gripper_target_def Let_def map_gripper_opening_range gripper_hold_open_range)

text \<open>What a step has settled for an arm it commands: the target and the value sent for it.\<close>

definition settled_arm :: "FlowGripperConfig \<Rightarrow> Row \<Rightarrow> bool \<Rightarrow> arm \<Rightarrow> FlowGripperState \<Rightarrow> bool" where
  "settled_arm c r hold a g =
     (\<exists>v t. gs_last_sent g a = Some v \<and> gs_targets g a = Some t
        \<and> t = (if hold then gripper_hold_open_value c else map_gripper_opening c a (rw_grip r a))
        \<and> (fg_command_deadband_percent c \<le> 0 \<longrightarrow> v = t) \<and> \<bar>v - t\<bar> \<le> max 0 (fg_command_deadband_percent c) \<and> (t = 0 \<longrightarrow> v = 0))"

definition commands_arm :: "GripperInputs \<Rightarrow> arm \<Rightarrow> bool" where
  "commands_arm i a = (\<not> gi_arm_mask i a \<le> Fin 0 \<and> gi_arm_allowed i a)"

lemma settled_arm_cong:
  "gs_last_sent g a = gs_last_sent h a \<Longrightarrow> gs_targets g a = gs_targets h a \<Longrightarrow> settled_arm c r b a g = settled_arm c r b a h"
  by (simp add: settled_arm_def)

definition openings_ok :: "FlowGripperConfig \<Rightarrow> FlowGripperState \<Rightarrow> bool" where
  "openings_ok c g = (\<forall>a x. gs_last_sent g a = Some x \<longrightarrow> 0 \<le> x \<and> x \<le> 100 \<and> (gs_hold_open_now g \<longrightarrow> x = gripper_hold_open_value c))"

lemma integrate_one_arm:
  assumes "hold_gripper_within_deadband c a t (g\<lparr>gs_targets := (gs_targets g)(a := Some t)\<rparr>) = (g1, sent)"
    and "t = arm_gripper_target c (gs_hold_open_now g) r a current g" and "fg_action_absolute c" and "openings_ok c g"
  shows "openings_ok c g1" and "settled_arm c r (gs_hold_open_now g) a g1" and "gs_last_sent g1 a = Some sent"
    and "gs_hold_open_now g1 = gs_hold_open_now g" and "gs_integrate_count g1 = gs_integrate_count g"
    and "b \<noteq> a \<Longrightarrow> gs_last_sent g1 b = gs_last_sent g b \<and> gs_targets g1 b = gs_targets g b"
proof -
  note H = hold_deadband_spec [OF assms(1)]
  have t: "0 \<le> t \<and> t \<le> 100" using assms(2,3) by (simp add: arm_target_range)
  have t': "t = (if gs_hold_open_now g then gripper_hold_open_value c else map_gripper_opening c a (rw_grip r a))"
    using assms(2,3) by (simp add: arm_gripper_target_def Let_def)
  have "0 \<le> sent \<and> sent \<le> 100 \<and> (gs_hold_open_now g \<longrightarrow> sent = gripper_hold_open_value c)"
    using H(8) assms(4) t t' unfolding openings_ok_def by auto
  then show "openings_ok c g1" using H(1,4) assms(4) unfolding openings_ok_def by auto
  show "settled_arm c r (gs_hold_open_now g) a g1" unfolding settled_arm_def using H(1,2,5,6,7) t' by simp
  show "gs_last_sent g1 a = Some sent" "gs_hold_open_now g1 = gs_hold_open_now g" "gs_integrate_count g1 = gs_integrate_count g"
    "b \<noteq> a \<Longrightarrow> gs_last_sent g1 b = gs_last_sent g b \<and> gs_targets g1 b = gs_targets g b"
    using H(1,2,3,4) by simp_all
qed

lemma integrate_arms_spec:
  assumes "integrate_arms c i d r as g tg0 = (g', out)" and "distinct as" and "fg_action_absolute c" and "openings_ok c g"
  shows "gs_hold_open_now g' = gs_hold_open_now g \<and> gs_integrate_count g' = gs_integrate_count g \<and> openings_ok c g'
    \<and> (\<forall>a. a \<notin> set as \<longrightarrow> gs_last_sent g' a = gs_last_sent g a \<and> gs_targets g' a = gs_targets g a)
    \<and> (\<forall>tg a. out = Inr tg \<longrightarrow> (if a \<in> set as \<and> commands_arm i a then tg a = gs_last_sent g' a \<and> settled_arm c r (gs_hold_open_now g) a g'
         else tg a = tg0 a))"
  using assms
proof (induction as arbitrary: g tg0)
  case Nil
  then show ?case by auto
next
  case (Cons a as)
  have as: "distinct as" "a \<notin> set as" using Cons.prems(2) by auto
  show ?case
  proof (cases "commands_arm i a")
    case False
    then have "integrate_arms c i d r as g tg0 = (g', out)" using Cons.prems(1) by (auto simp: commands_arm_def)
    from Cons.IH [OF this as(1) Cons.prems(3,4)] show ?thesis using False by (auto split: if_splits)
  next
    case True
    show ?thesis
    proof (cases "gripper_value_from_payload d a")
      case (Inl e)
      then show ?thesis using Cons.prems True by (auto simp: commands_arm_def)
    next
      case (Inr v)
      define current where "current = (case v of Some x \<Rightarrow> Some x | None \<Rightarrow> live_gripper_percent (gi_backend i) g a)"
      define t where "t = arm_gripper_target c (gs_hold_open_now g) r a current g"
      obtain g1 sent where h: "hold_gripper_within_deadband c a t (g\<lparr>gs_targets := (gs_targets g)(a := Some t)\<rparr>) = (g1, sent)"
        by (rule prod.exhaust)
      note H = integrate_one_arm [OF h t_def Cons.prems(3,4)]
      have rec: "integrate_arms c i d r as g1 (tg0(a := Some sent)) = (g', out)"
        using Cons.prems(1) True Inr h by (simp add: commands_arm_def current_def t_def Let_def)
      note IH = Cons.IH [OF rec as(1) Cons.prems(3) H(1)]
      have a: "gs_last_sent g' a = Some sent" "settled_arm c r (gs_hold_open_now g) a g'"
        using IH as(2) H(2,3) settled_arm_cong [of g' a g1] by simp_all
      have "if b \<in> set (a # as) \<and> commands_arm i b then tg b = gs_last_sent g' b \<and> settled_arm c r (gs_hold_open_now g) b g' else tg b = tg0 b"
        if "out = Inr tg" for tg b
      proof (cases "b = a")
        case True
        have "tg a = Some sent" using IH that as(2) by auto
        then show ?thesis using a True \<open>commands_arm i a\<close> by simp
      next
        case False
        have "if b \<in> set as \<and> commands_arm i b then tg b = gs_last_sent g' b \<and> settled_arm c r (gs_hold_open_now g1) b g'
          else tg b = (tg0(a := Some sent)) b" using IH that by blast
        then show ?thesis using False H(4) by (cases "b \<in> set as \<and> commands_arm i b") auto
      qed
      moreover have "\<forall>b. b \<notin> set (a # as) \<longrightarrow> gs_last_sent g' b = gs_last_sent g b \<and> gs_targets g' b = gs_targets g b"
        using IH H(6) by simp
      ultimately show ?thesis using IH H(4,5) by simp
    qed
  qed
qed

lemma integrate_gripper_spec:
  assumes "integrate_gripper_targets c i r d g = (g', out)" and "fg_action_absolute c" and "flow_gripper_ok c g"
  shows "flow_gripper_ok c g'" and "out = Inr tg \<Longrightarrow> tg a = Some v \<Longrightarrow> commands_arm i a \<and> 0 \<le> v \<and> v \<le> 100
         \<and> v = rw_grip (dispatch_row c r g') a
         \<and> (\<exists>t. gs_targets g' a = Some t \<and> \<bar>v - t\<bar> \<le> max 0 (fg_command_deadband_percent c) \<and> (t = 0 \<longrightarrow> v = 0))"
proof -
  define g1 where "g1 = g\<lparr>gs_integrate_count := gs_integrate_count g + 1, gs_hold_open_now := (gs_integrate_count g < fg_open_hold_steps c)\<rparr>"
  obtain g2 n where n: "note_actuals c i d [ArmLeft, ArmRight] g1 = (g2, n)" by (rule prod.exhaust)
  note N = note_actuals_keeps [OF n]
  have sent: "openings_ok c g2" using N assms(3) by (auto simp: openings_ok_def g1_def flow_gripper_ok_def)
  have cnt: "gs_integrate_count g2 \<le> fg_open_hold_steps c \<longrightarrow> gs_hold_open_now g2" using N by (simp add: g1_def)
  have okI: "flow_gripper_ok c h" if "openings_ok c h" "gs_hold_open_now h = gs_hold_open_now g2" "gs_integrate_count h = gs_integrate_count g2" for h
    using that cnt unfolding flow_gripper_ok_def openings_ok_def by simp
  have r: "integrate_arms c i d r [ArmLeft, ArmRight] g2 (\<lambda>_. None) = (g', out)" if "gi_packet_allowed i \<and> n = Inr ()"
    using assms(1) n that by (simp add: integrate_gripper_targets_def g1_def Let_def)
  have skip: "g' = g2 \<and> (\<forall>tg. out = Inr tg \<longrightarrow> tg = (\<lambda>_. None))" if "\<not> (gi_packet_allowed i \<and> n = Inr ())"
    using assms(1) n that by (cases n) (auto simp: integrate_gripper_targets_def g1_def Let_def)
  note S = integrate_arms_spec [OF r _ assms(2) sent, simplified]
  show "flow_gripper_ok c g'"
    by (cases "gi_packet_allowed i \<and> n = Inr ()") (use S okI sent skip in auto)
  assume o: "out = Inr tg" and tg: "tg a = Some v"
  have allowed: "gi_packet_allowed i \<and> n = Inr ()" using skip o tg by auto
  have all: "a = ArmLeft \<or> a = ArmRight" by (cases a) simp_all
  have arm: "if commands_arm i a then tg a = gs_last_sent g' a \<and> settled_arm c r (gs_hold_open_now g2) a g' else tg a = None"
    using S allowed o all by auto
  then have g: "commands_arm i a" and l: "gs_last_sent g' a = Some v" and st: "settled_arm c r (gs_hold_open_now g2) a g'"
    using tg by (auto split: if_splits)
  have hold: "gs_hold_open_now g' = gs_hold_open_now g2" and sent': "openings_ok c g'" using S allowed by auto
  obtain t where t: "gs_targets g' a = Some t" "t = (if gs_hold_open_now g2 then gripper_hold_open_value c else map_gripper_opening c a (rw_grip r a))"
    "fg_command_deadband_percent c \<le> 0 \<longrightarrow> v = t" "\<bar>v - t\<bar> \<le> max 0 (fg_command_deadband_percent c)" "t = 0 \<longrightarrow> v = 0"
    using st l by (auto simp: settled_arm_def)
  have bounds: "0 \<le> v \<and> v \<le> 100 \<and> (gs_hold_open_now g' \<longrightarrow> v = gripper_hold_open_value c)" using sent' l unfolding openings_ok_def by blast
  then have "v = rw_grip (dispatch_row c r g') a"
    using t l assms(2) hold by (auto simp: dispatch_row_def gripper_command_for_dispatch_def Let_def)
  then show "commands_arm i a \<and> 0 \<le> v \<and> v \<le> 100 \<and> v = rw_grip (dispatch_row c r g') a
         \<and> (\<exists>t. gs_targets g' a = Some t \<and> \<bar>v - t\<bar> \<le> max 0 (fg_command_deadband_percent c) \<and> (t = 0 \<longrightarrow> v = 0))"
    using g bounds t(1,4,5) by blast
qed

lemma row_values_grip [simp]: "row_values r ! 6 = rw_grip r ArmLeft" "row_values r ! 13 = rw_grip r ArmRight" "length (row_values r) = 14"
  by (simp_all add: row_values_def delta_list_def split: prod.splits)

lemma dispatched_command:
  assumes "dispatch_gripper_step fl c i r g = Inr commands" and "\<not> gi_arm_mask i a \<le> Fin 0" and "gi_arm_mask i a \<noteq> NaN" and "gi_arm_allowed i a"
  shows "\<exists>cmd \<in> set commands. gc_arm cmd = side_key a \<and> gc_value cmd = fl (rw_grip (dispatch_row c r g) a)
    \<and> gc_command_type cmd = (if fg_action_absolute c then ''target'' else ''delta'')"
proof -
  have m: "0 < gi_arm_mask i a" using assms(2,3) by (cases "gi_arm_mask i a") (auto simp: zero_pyfloat_def)
  show ?thesis
    using assms m by (cases a) (auto simp: dispatch_gripper_step_def gripper_commands_from_flow_step_def flow_arm_def res_bind_Inr_iff
        gripper_command_def split: if_splits)
qed

interpretation flow_gripper: guarded_machine "gripper_row_step fl c" "flow_gripper_ok c" "\<lambda>_ _. fg_action_absolute c" for fl c
proof
  show "flow_gripper_ok c (fst (gripper_row_step fl c g e))" if "flow_gripper_ok c g" "fg_action_absolute c" for g e
  proof -
    obtain i r d where e: "e = (i, r, d)" by (rule prod_cases3)
    obtain g1 out where s: "integrate_gripper_targets c i r d g = (g1, out)" by (rule prod.exhaust)
    show ?thesis using integrate_gripper_spec(1) [OF s that(2,1)] s by (cases out) (simp_all add: gripper_row_step_def e)
  qed
qed


definition binary_gripper_config :: FlowGripperConfig where
  "binary_gripper_config = \<lparr>fg_action_absolute = True, fg_close_bias = 0, fg_close_bias_left = None, fg_close_bias_right = None, fg_binary = True,
     fg_open_percent = 80, fg_close_percent = 0, fg_binary_threshold = 50, fg_close_snap_percent = 0, fg_lookahead_steps = 0,
     fg_command_deadband_percent = 2, fg_open_hold_steps = 0, fg_proprio_source = ''actual'', fg_jam_gap_percent = 5, fg_jam_stall_steps = 3,
     fg_jam_move_eps_percent = 1, fg_command_source = ''flow''\<rparr>"

definition left_arm_inputs :: GripperInputs where
  "left_arm_inputs = \<lparr>gi_arm_mask = (\<lambda>a. case a of ArmLeft \<Rightarrow> Fin 1 | ArmRight \<Rightarrow> Fin 0), gi_arm_allowed = (\<lambda>_. True), gi_packet_allowed = True,
     gi_backend = (\<lambda>_. None)\<rparr>"


end
