(* ===== verification/FlowTargets.thy ===== *)
theory FlowTargets
  imports TcpConditioner FlowGripper
begin

text \<open>
  From an executed policy row to a command, in \<^verbatim>\<open>policy_runner/flow_inference.py\<close>: the running target pose of an
  arm (\<^verbatim>\<open>_target_payload_for_arm\<close>), the first-order-hold path with its conditioners (\<^verbatim>\<open>_foh_begin_chunk\<close>,
  \<^verbatim>\<open>_foh_tick_intent\<close>), and the overlay frame a chunk is published as. Poses are reals; \<open>fn_round\<close> rounds a number of a
  payload to a double and \<open>fn_rel_rotvec\<close> is the relative rotation vector of \<^verbatim>\<open>scipy\<close>.
\<close>

section \<open>Configuration and state\<close>

record FlowNumerics =
  fn_round :: "real \<Rightarrow> pyfloat"
  fn_rel_rotvec :: "quat \<Rightarrow> quat \<Rightarrow> vec3"

record FlowConfig =
  fc_limits :: DeltaLimits
  fc_gripper :: FlowGripperConfig
  fc_timeout_sec :: pyfloat
  fc_tcp_target_profile :: string
  fc_tcp_tp_mode :: string
  fc_tcp_tp_reanchor_mode :: string
  fc_tcp_tp_blend_steps :: int
  fc_chunk_anchor_source :: string
  fc_chunk_execute_steps :: int
  fc_chunk_overlay_runway_steps :: int
  fc_chunk_activation_mode :: string
  fc_chunk_stitch_mode :: string
  fc_ensemble_period :: int
  fc_ensemble_blend_mode :: string
  fc_action_horizon :: int
  fc_sequential_stream_inference :: bool
  fc_nonblocking_stream_inference :: bool
  fc_stream_prefetch_at :: "int option"
  fc_knot_filter_taps :: "real list option"
  fc_has_overlay_publisher :: bool

record FlowTargets =
  ft_target_pose_by_arm :: "arm \<Rightarrow> pose7 option"
  ft_prev_emitted_twist_by_arm :: "arm \<Rightarrow> pose_delta option"
  ft_conditioners :: "(arm \<Rightarrow> Conditioner) option"
  ft_steps_since_boundary :: int
  ft_tcp_tp_chunk_seq :: int

definition flow_targets_init :: FlowTargets where
  "flow_targets_init = \<lparr>ft_target_pose_by_arm = (\<lambda>_. None), ft_prev_emitted_twist_by_arm = (\<lambda>_. None), ft_conditioners = None,
     ft_steps_since_boundary = 0, ft_tcp_tp_chunk_seq = 0\<rparr>"

definition state_anchor_source :: "FlowConfig \<Rightarrow> string" where
  "state_anchor_source c =
     (let src = fc_chunk_anchor_source c in if src = ''chain'' then ''command'' else if src = ''actual'' then ''auto'' else src)"

definition tcp_tp_foh_active :: "FlowConfig \<Rightarrow> bool" where
  "tcp_tp_foh_active c = (fc_tcp_tp_mode c = ''foh_se3'')"

section \<open>Intents\<close>

definition flow_metadata :: "FlowConfig \<Rightarrow> pydict" where
  "flow_metadata c = [(''action_source'', PStr ''flow_infer''), (''source_conditioning_mode'', PStr (fc_tcp_tp_mode c))]"

text \<open>The intent of the poses of the arms that have one.\<close>

definition flow_pose_intent :: "FlowNumerics \<Rightarrow> FlowConfig \<Rightarrow> (arm \<Rightarrow> pose7 option) \<Rightarrow> (arm \<Rightarrow> real option) \<Rightarrow> CommandIntent option res" where
  "flow_pose_intent nm c poses grip =
     (let numbers = (\<lambda>a. map_option (\<lambda>p. map (fn_round nm) (pose7_list p)) (poses a)); gripper = (\<lambda>a. map_option (fn_round nm) (grip a)) in
      if poses ArmLeft = None \<and> poses ArmRight = None then Inr None
      else res_bind (tcp_pose_target_stand_intent (numbers ArmLeft) (numbers ArmRight) (gripper ArmLeft) (gripper ArmRight)
             (fc_timeout_sec c) (Some (fc_tcp_target_profile c)) (Some (flow_metadata c))) (\<lambda>i. Inr (Some i)))"

section \<open>One step at a time\<close>

definition target_payload_for_arm :: "FlowConfig \<Rightarrow> arm \<Rightarrow> pose_delta \<Rightarrow> pydict \<Rightarrow> FlowTargets \<Rightarrow> FlowTargets \<times> pose7 res" where
  "target_payload_for_arm c a delta d t =
     (let base = (case (if ft_steps_since_boundary t = 0 then None else ft_target_pose_by_arm t a) of
                    Some p \<Rightarrow> Inr p | None \<Rightarrow> pose_from_state_payload d a (state_anchor_source c));
          (emitted, prev) = condition_arm_delta (fc_limits c) (ft_prev_emitted_twist_by_arm t a) delta (ft_steps_since_boundary t)
      in case base of
           Inl e \<Rightarrow> (t, Inl e)
         | Inr p \<Rightarrow>
             (let q = pose_compose_local p emitted
              in (t\<lparr>ft_target_pose_by_arm := (ft_target_pose_by_arm t)(a := Some q),
                    ft_prev_emitted_twist_by_arm := (ft_prev_emitted_twist_by_arm t)(a := prev)\<rparr>, Inr q)))"

fun step_poses :: "FlowConfig \<Rightarrow> (arm \<Rightarrow> pyfloat) \<Rightarrow> Row \<Rightarrow> pydict \<Rightarrow> arm list \<Rightarrow> FlowTargets \<Rightarrow> (arm \<Rightarrow> pose7 option)
    \<Rightarrow> FlowTargets \<times> (arm \<Rightarrow> pose7 option) res" where
  "step_poses c am r d [] t poses = (t, Inr poses)"
| "step_poses c am r d (a # as) t poses =
     (if Fin 0 < am a then
        (case target_payload_for_arm c a (rw_delta r a) d t of
           (t1, Inl e) \<Rightarrow> (t1, Inl e)
         | (t1, Inr p) \<Rightarrow> step_poses c am r d as t1 (poses(a := Some p)))
      else step_poses c am r d as t poses)"

definition tcp_target_pose_step_intent :: "FlowNumerics \<Rightarrow> FlowConfig \<Rightarrow> (arm \<Rightarrow> pyfloat) \<Rightarrow> Row \<Rightarrow> pydict \<Rightarrow> (arm \<Rightarrow> real option)
    \<Rightarrow> FlowTargets \<Rightarrow> FlowTargets \<times> CommandIntent option res" where
  "tcp_target_pose_step_intent nm c am r d grip t =
     (case step_poses c am r d [ArmLeft, ArmRight] t (\<lambda>_. None) of
        (t1, Inl e) \<Rightarrow> (t1, Inl e)
      | (t1, Inr poses) \<Rightarrow> (t1, flow_pose_intent nm c poses grip))"

definition emit_step_intent :: "FlowNumerics \<Rightarrow> FlowConfig \<Rightarrow> (arm \<Rightarrow> pyfloat) \<Rightarrow> Row \<Rightarrow> pydict \<Rightarrow> (arm \<Rightarrow> real option)
    \<Rightarrow> FlowTargets \<Rightarrow> FlowTargets \<times> CommandIntent option res" where
  "emit_step_intent nm c am r d grip t =
     (case tcp_target_pose_step_intent nm c am r d grip t of
        (t1, Inl e) \<Rightarrow> (t1, Inl e)
      | (t1, Inr i) \<Rightarrow> (t1\<lparr>ft_steps_since_boundary := ft_steps_since_boundary t1 + 1\<rparr>, Inr i))"

section \<open>The first-order hold\<close>

definition ensure_tcp_tp_conditioners :: "FlowConfig \<Rightarrow> FlowTargets \<Rightarrow> FlowTargets \<times> (arm \<Rightarrow> Conditioner) res" where
  "ensure_tcp_tp_conditioners c t =
     (case ft_conditioners t of
        Some cs \<Rightarrow> (t, Inr cs)
      | None \<Rightarrow>
          (case conditioner_init ''foh_se3'' (fc_tcp_tp_reanchor_mode c) (Some (dl_policy_dt_sec (fc_limits c))) (fc_tcp_tp_blend_steps c) of
             Inl e \<Rightarrow> (t, Inl e)
           | Inr cd \<Rightarrow> (t\<lparr>ft_conditioners := Some (\<lambda>_. cd)\<rparr>, Inr (\<lambda>_. cd))))"

definition foh_knot_count :: "Row list option \<Rightarrow> int \<Rightarrow> int" where
  "foh_knot_count chunk limit = (case chunk of None \<Rightarrow> 0 | Some rows \<Rightarrow> if limit \<le> 0 then 0 else min (limit + 1) (int (length rows)))"

text \<open>The conditioned deltas of the first rows, and their targets from an anchor.\<close>

definition planned_deltas :: "FlowConfig \<Rightarrow> pose_delta option \<Rightarrow> arm \<Rightarrow> Row list \<Rightarrow> pose_delta list" where
  "planned_deltas c prev a rows = map (\<lambda>i. fst (condition_arm_delta (fc_limits c) prev (rw_delta (rows ! i) a) (int i))) [0..<length rows]"

fun foh_begin_arms :: "FlowConfig \<Rightarrow> (arm \<Rightarrow> pyfloat) \<Rightarrow> pydict \<Rightarrow> real \<Rightarrow> Row list \<Rightarrow> int \<Rightarrow> arm list \<Rightarrow> (arm \<Rightarrow> Conditioner) \<Rightarrow> FlowTargets
    \<Rightarrow> FlowTargets \<times> unit res" where
  "foh_begin_arms c am d now rows seq [] cs t = (t\<lparr>ft_conditioners := Some cs\<rparr>, Inr ())"
| "foh_begin_arms c am d now rows seq (a # as) cs t =
     (if am a \<le> Fin 0 then foh_begin_arms c am d now rows seq as cs t
      else case pose_from_state_payload d a (state_anchor_source c) of
             Inl e \<Rightarrow> (t\<lparr>ft_conditioners := Some cs\<rparr>, Inl e)
           | Inr anchor \<Rightarrow>
               (let deltas = planned_deltas c (ft_prev_emitted_twist_by_arm t a) a rows;
                    continued = map_option (\<lambda>p. integrate p deltas) (cd_prev_emitted (cs a))
                in case begin_chunk (cs a) anchor (integrate anchor deltas) continued now seq of
                     Inl e \<Rightarrow> (t\<lparr>ft_conditioners := Some cs\<rparr>, Inl e)
                   | Inr cd \<Rightarrow> foh_begin_arms c am d now rows seq as (cs(a := cd)) t))"

definition foh_begin_chunk :: "FlowConfig \<Rightarrow> (arm \<Rightarrow> pyfloat) \<Rightarrow> Row list option \<Rightarrow> int \<Rightarrow> pydict \<Rightarrow> real \<Rightarrow> FlowTargets
    \<Rightarrow> FlowTargets \<times> unit res" where
  "foh_begin_chunk c am chunk limit d now t =
     (case ensure_tcp_tp_conditioners c t of
        (t1, Inl e) \<Rightarrow> (t1, Inl e)
      | (t1, Inr cs) \<Rightarrow>
          (let n = foh_knot_count chunk limit in
           case chunk of
             None \<Rightarrow> (t1, Inr ())
           | Some rows \<Rightarrow>
               if n \<le> 0 then (t1, Inr ())
               else let seq = ft_tcp_tp_chunk_seq t1 + 1
                    in foh_begin_arms c am d now (take (nat n) rows) seq [ArmLeft, ArmRight] cs (t1\<lparr>ft_tcp_tp_chunk_seq := seq\<rparr>)))"

definition remember_emitted_deltas_for_step :: "FlowConfig \<Rightarrow> (arm \<Rightarrow> pyfloat) \<Rightarrow> Row \<Rightarrow> int \<Rightarrow> FlowTargets \<Rightarrow> FlowTargets" where
  "remember_emitted_deltas_for_step c am r idx t =
     t\<lparr>ft_prev_emitted_twist_by_arm := (\<lambda>a. if Fin 0 < am a
         then snd (condition_arm_delta (fc_limits c) (ft_prev_emitted_twist_by_arm t a) (rw_delta r a) idx)
         else ft_prev_emitted_twist_by_arm t a)\<rparr>"

fun foh_tick_arms :: "FlowNumerics \<Rightarrow> (arm \<Rightarrow> pyfloat) \<Rightarrow> real \<Rightarrow> bool \<Rightarrow> arm list \<Rightarrow> (arm \<Rightarrow> Conditioner) \<Rightarrow> (arm \<Rightarrow> pose7 option)
    \<Rightarrow> (arm \<Rightarrow> Conditioner) \<times> (arm \<Rightarrow> pose7 option)" where
  "foh_tick_arms nm am now stall [] cs poses = (cs, poses)"
| "foh_tick_arms nm am now stall (a # as) cs poses =
     (if am a \<le> Fin 0 \<or> cd_prev_emitted (cs a) = None \<and> stall then foh_tick_arms nm am now stall as cs poses
      else let (cd, ct) = (if stall then TcpConditioner.hold (fn_rel_rotvec nm) (cs a) else sample (fn_rel_rotvec nm) (cs a) now)
           in foh_tick_arms nm am now stall as (cs(a := cd)) (poses(a := Some (ct_pose ct))))"

definition foh_tick_intent :: "FlowNumerics \<Rightarrow> FlowConfig \<Rightarrow> (arm \<Rightarrow> pyfloat) \<Rightarrow> (arm \<Rightarrow> real option) \<Rightarrow> real \<Rightarrow> bool \<Rightarrow> FlowTargets
    \<Rightarrow> FlowTargets \<times> CommandIntent option res" where
  "foh_tick_intent nm c am grip now stall t =
     (case ensure_tcp_tp_conditioners c t of
        (t1, Inl e) \<Rightarrow> (t1, Inl e)
      | (t1, Inr cs) \<Rightarrow>
          (let (cs1, poses) = foh_tick_arms nm am now stall [ArmLeft, ArmRight] cs (\<lambda>_. None)
           in (t1\<lparr>ft_conditioners := Some cs1\<rparr>, flow_pose_intent nm c poses grip)))"

section \<open>Clearing\<close>

text \<open>\<^verbatim>\<open>_clear_target_pose_state\<close>; an empty selection means both arms.\<close>

definition clear_target_pose_state :: "arm set \<Rightarrow> FlowTargets \<times> FlowGripperState \<Rightarrow> FlowTargets \<times> FlowGripperState" where
  "clear_target_pose_state arms s =
     (let (t, g) = s; sel = (if arms = {} then {ArmLeft, ArmRight} else arms)
      in (t\<lparr>ft_target_pose_by_arm := (\<lambda>a. if a \<in> sel then None else ft_target_pose_by_arm t a),
            ft_conditioners := map_option (\<lambda>cs a. if a \<in> sel then conditioner_reset (cs a) else cs a) (ft_conditioners t)\<rparr>,
          g\<lparr>gs_targets := (\<lambda>a. if a \<in> sel then None else gs_targets g a)\<rparr>))"

section \<open>The overlay\<close>

text \<open>One frame: the seven numbers of every projected pose and the six of its delta, each with the gripper value.\<close>

record OverlayFrame =
  of_seq :: int
  of_points :: "arm \<Rightarrow> (pose7 \<times> real) list option"
  of_deltas :: "arm \<Rightarrow> (pose_delta \<times> real) list option"
  of_execute_steps :: int

record Overlay =
  ov_chain_prev :: "arm \<Rightarrow> pose7 option"
  ov_chain_pending :: "arm \<Rightarrow> pose7 option"
  ov_seq :: int
  ov_last_frame :: "OverlayFrame option"

definition overlay_init :: Overlay where
  "overlay_init = \<lparr>ov_chain_prev = (\<lambda>_. None), ov_chain_pending = (\<lambda>_. None), ov_seq = 0, ov_last_frame = None\<rparr>"

definition overlay_chain_advance :: "Overlay \<Rightarrow> Overlay" where
  "overlay_chain_advance ov =
     ov\<lparr>ov_chain_prev := (\<lambda>a. case ov_chain_pending ov a of Some p \<Rightarrow> Some p | None \<Rightarrow> ov_chain_prev ov a), ov_chain_pending := (\<lambda>_. None)\<rparr>"

definition overlay_anchor :: "FlowConfig \<Rightarrow> pydict \<Rightarrow> arm \<Rightarrow> Overlay \<Rightarrow> pose7 res" where
  "overlay_anchor c d a ov =
     (if fc_chunk_anchor_source c = ''chain''
      then (case ov_chain_prev ov a of Some p \<Rightarrow> Inr p | None \<Rightarrow> pose_from_state_payload d a ''command'')
      else pose_from_state_payload d a (if fc_chunk_anchor_source c = ''actual'' then ''auto'' else fc_chunk_anchor_source c))"

definition overlay_rows :: "FlowConfig \<Rightarrow> Row list \<Rightarrow> int \<Rightarrow> Scheduler option \<Rightarrow> Row list" where
  "overlay_rows c chunk limit sched =
     (let base = take (nat limit) chunk; runway = fc_chunk_overlay_runway_steps c in
      if fc_chunk_stitch_mode c = ''ensemble''
      then base @ (case sched of Some s \<Rightarrow> if 0 < runway then runway_segment s (Some runway) else [] | None \<Rightarrow> [])
      else let extra = min (limit + runway) (int (length chunk)) in if limit < extra then take (nat extra) chunk else base)"

fun overlay_arms :: "FlowConfig \<Rightarrow> (arm \<Rightarrow> pyfloat) \<Rightarrow> FlowTargets \<Rightarrow> pydict \<Rightarrow> Row list \<Rightarrow> nat \<Rightarrow> arm list \<Rightarrow> Overlay
    \<Rightarrow> (arm \<Rightarrow> (pose7 \<times> real) list option) \<times> (arm \<Rightarrow> (pose_delta \<times> real) list option)
    \<Rightarrow> Overlay \<times> ((arm \<Rightarrow> (pose7 \<times> real) list option) \<times> (arm \<Rightarrow> (pose_delta \<times> real) list option)) res" where
  "overlay_arms c am t d rows tail_index [] ov projected = (ov, Inr projected)"
| "overlay_arms c am t d rows tail_index (a # as) ov projected =
     (if am a \<le> Fin 0 then overlay_arms c am t d rows tail_index as ov projected
      else case overlay_anchor c d a ov of
             Inl e \<Rightarrow> (ov, Inl e)
           | Inr anchor \<Rightarrow>
               (let deltas = planned_deltas c (ft_prev_emitted_twist_by_arm t a) a rows; poses = integrate anchor deltas;
                    grips = map (\<lambda>r. rw_grip r a) rows;
                    o1 = (if fc_chunk_anchor_source c = ''chain'' then ov\<lparr>ov_chain_pending := (ov_chain_pending ov)(a := Some (poses ! tail_index))\<rparr> else ov)
                in overlay_arms c am t d rows tail_index as o1
                     ((fst projected)(a := Some (zip poses grips)), (snd projected)(a := Some (zip deltas grips)))))"

definition publish_chunk_overlay :: "FlowConfig \<Rightarrow> (arm \<Rightarrow> pyfloat) \<Rightarrow> FlowTargets \<Rightarrow> Row list option \<Rightarrow> int \<Rightarrow> Scheduler option \<Rightarrow> pydict option
    \<Rightarrow> Overlay \<Rightarrow> Overlay" where
  "publish_chunk_overlay c am t chunk limit sched seen ov =
     (case (chunk, seen) of
        (Some rows, Some d) \<Rightarrow>
          if \<not> fc_has_overlay_publisher c \<or> limit \<le> 0 then ov
          else let shown = overlay_rows c rows limit sched; tail_index = nat (max 0 (min limit (int (length shown)) - 1)) in
            (case overlay_arms c am t d shown tail_index [ArmLeft, ArmRight] ov (\<lambda>_. None, \<lambda>_. None) of
               (o1, Inl _) \<Rightarrow> o1
             | (o1, Inr (points, deltas)) \<Rightarrow>
                 if points ArmLeft = None \<and> points ArmRight = None then o1
                 else o1\<lparr>ov_seq := ov_seq o1 + 1,
                         ov_last_frame := Some \<lparr>of_seq = ov_seq o1 + 1, of_points = points, of_deltas = deltas, of_execute_steps = limit\<rparr>\<rparr>)
      | _ \<Rightarrow> ov)"

end
