(* ===== verification/FlowStream.thy ===== *)
theory FlowStream
  imports PrefetchWorker FlowTargets
begin

text \<open>
  The streamed playback of \<^verbatim>\<open>policy_runner/flow_inference.py\<close>: how the command loop plays the rows of a chunk on a
  grid of policy steps, asks the prefetch worker for the next one, and replaces or drops the one it plays
  (\<^verbatim>\<open>_next_intent_streamed\<close>, \<^verbatim>\<open>_activate_chunk\<close>, \<^verbatim>\<open>_try_ready_event_activation\<close>, \<^verbatim>\<open>_invalidate_policy_chunks\<close>). The worker runs
  between any two of the loop's critical sections: a tick has as input, for each of them, the worker's steps of just before.
  Clock readings are reals. The guidance hooks of remote policies, which do nothing in this class, and the logs are left out.
\<close>

section \<open>State\<close>

record ActiveChunk =
  ac_meta :: "ChunkMeta option"
  ac_activation_reason :: string
  ac_replaced_chunk_steps :: int
  ac_observation_step_seq :: int
  ac_activation_step_seq :: int
  ac_source_start_index :: nat
  ac_original_horizon :: nat
  ac_selected_horizon :: nat
  ac_alignment_outcome :: string

record FlowStream =
  fs_mailbox :: Mailbox
  fs_chunk :: "Row list option"
  fs_chunk_index :: nat
  fs_step_deadline :: real
  fs_current_step_intent :: "CommandIntent option"
  fs_current_gripper_targets :: "arm \<Rightarrow> real option"
  fs_active :: "ActiveChunk option"
  fs_emitted :: int
  fs_stall_count :: int
  fs_ready_discard_count :: int
  fs_freeze_guard_waits :: int
  fs_scheduler :: "Scheduler option"
  fs_filter_context :: "(arm \<Rightarrow> pose_delta) list option"
  fs_targets :: FlowTargets
  fs_gripper :: FlowGripperState
  fs_overlay :: Overlay
  fs_overlay_payload :: "pydict option"
  fs_reset_pose :: "arm \<Rightarrow> pose7 option"
  fs_resume_row_pending :: bool
  fs_candidate_published :: bool
  fs_recovery_heartbeat :: "CommandIntent option"
  fs_last_motion_epoch :: "int option"

definition flow_stream_init :: FlowStream where
  "flow_stream_init = \<lparr>fs_mailbox = mailbox_init, fs_chunk = None, fs_chunk_index = 0, fs_step_deadline = 0, fs_current_step_intent = None,
     fs_current_gripper_targets = (\<lambda>_. None), fs_active = None, fs_emitted = 0, fs_stall_count = 0, fs_ready_discard_count = 0,
     fs_freeze_guard_waits = 0, fs_scheduler = None, fs_filter_context = None, fs_targets = flow_targets_init,
     fs_gripper = flow_gripper_init, fs_overlay = overlay_init, fs_overlay_payload = None, fs_reset_pose = (\<lambda>_. None),
     fs_resume_row_pending = False, fs_candidate_published = False, fs_recovery_heartbeat = None, fs_last_motion_epoch = None\<rparr>"

text \<open>The inputs of a tick: the clock, the state payload, what the gripper side needs, and at each point the steps
  of the worker: to take a request or to complete the one it holds.\<close>

datatype WorkerStep = WorkerBegin | WorkerFinish

record FlowTick =
  tk_now :: real
  tk_payload :: pydict
  tk_gripper :: GripperInputs
  tk_worker :: "nat \<Rightarrow> WorkerStep list"

fun worker_run :: "(InferRequest \<Rightarrow> Inference) \<Rightarrow> WorkerStep list \<Rightarrow> Mailbox \<Rightarrow> Mailbox" where
  "worker_run infer [] m = m"
| "worker_run infer (WorkerBegin # ws) m = worker_run infer ws (worker_begin m)"
| "worker_run infer (WorkerFinish # ws) m = worker_run infer ws (fst (worker_finish infer m))"

definition with_worker :: "(InferRequest \<Rightarrow> Inference) \<Rightarrow> FlowTick \<Rightarrow> nat \<Rightarrow> FlowStream \<Rightarrow> FlowStream" where
  "with_worker infer k n s = s\<lparr>fs_mailbox := worker_run infer (tk_worker k n) (fs_mailbox s)\<rparr>"

section \<open>Deadlines and limits\<close>

definition next_step_deadline :: "FlowConfig \<Rightarrow> real \<Rightarrow> FlowStream \<Rightarrow> real" where
  "next_step_deadline c now s =
     (let dt = dl_policy_dt_sec (fc_limits c); deadline = fs_step_deadline s + dt in if deadline \<le> now then now + dt else deadline)"

definition current_chunk_execute_limit :: "FlowConfig \<Rightarrow> FlowStream \<Rightarrow> int" where
  "current_chunk_execute_limit c s =
     (case fs_chunk s of
        None \<Rightarrow> 0
      | Some rows \<Rightarrow> if fs_scheduler s \<noteq> None then int (length rows) else min (fc_chunk_execute_steps c) (int (length rows)))"

definition stream_prefetch_at :: "FlowConfig \<Rightarrow> FlowStream \<Rightarrow> int" where
  "stream_prefetch_at c s =
     (let limit = current_chunk_execute_limit c s in
      if fc_chunk_activation_mode c = ''ready_event'' then 0
      else if fc_sequential_stream_inference c then limit
      else case fs_scheduler s of
             Some sched \<Rightarrow> int (en_active_kick_at sched)
           | None \<Rightarrow> (case fc_stream_prefetch_at c of
                        Some k \<Rightarrow> max 0 (min k (limit - 1))
                      | None \<Rightarrow> if limit \<le> 4 then max 0 (min 1 (limit - 1)) else max 0 (min 2 (limit - 1))))"

definition stream_hold_intent :: "FlowConfig \<Rightarrow> FlowStream \<Rightarrow> CommandIntent option" where
  "stream_hold_intent c s = (if fc_sequential_stream_inference c then Some (intent_hold (fc_timeout_sec c)) else fs_current_step_intent s)"

section \<open>Activation\<close>

definition activate_chunk :: "FlowConfig \<Rightarrow> (arm \<Rightarrow> pyfloat) \<Rightarrow> Row list \<Rightarrow> real \<Rightarrow> bool \<Rightarrow> FlowStream \<Rightarrow> FlowStream" where
  "activate_chunk c am rows now preserve_step_grid s =
     (let candidate = mb_candidate (fs_mailbox s);
          activation = fs_emitted s;
          observed = (case candidate of Some m \<Rightarrow> cm_observation_step_seq m | None \<Rightarrow> activation);
          start = nat (max 0 (activation - observed));
          active = (\<lambda>selected outcome.
            \<lparr>ac_meta = candidate,
             ac_activation_reason = (if fs_chunk s = None then ''start_or_resume''
                                     else if preserve_step_grid then ''ready_event'' else ''fixed_boundary''),
             ac_replaced_chunk_steps = (if fs_chunk s = None then 0 else int (fs_chunk_index s) + 1),
             ac_observation_step_seq = observed, ac_activation_step_seq = activation, ac_source_start_index = start,
             ac_original_horizon = length rows, ac_selected_horizon = selected, ac_alignment_outcome = outcome\<rparr>);
          s0 = s\<lparr>fs_mailbox := (fs_mailbox s)\<lparr>mb_candidate := None\<rparr>\<rparr>
      in if length rows \<le> start then s0\<lparr>fs_active := Some (active 0 ''exhausted''), fs_chunk := None\<rparr>
         else let (ctx, body) = band_limit_chunk (fc_knot_filter_taps c) (fs_filter_context s) (drop start rows);
                  s1 = s0\<lparr>fs_filter_context := ctx, fs_active := Some (active (length body) ''aligned''), fs_chunk := Some body,
                          fs_chunk_index := 0, fs_targets := (fs_targets s)\<lparr>ft_steps_since_boundary := 0\<rparr>,
                          fs_step_deadline := (if preserve_step_grid then next_step_deadline c now s else now + dl_policy_dt_sec (fc_limits c))\<rparr>
              in s1\<lparr>fs_overlay := publish_chunk_overlay c am (fs_targets s1) (Some body) (current_chunk_execute_limit c s1) (fs_scheduler s1)
                                    (fs_overlay_payload s1) (overlay_chain_advance (fs_overlay s1))\<rparr>)"

definition take_next :: "FlowStream \<Rightarrow> FlowStream \<times> Row list option" where
  "take_next s = (let (m, rows) = take_prefetched (fs_mailbox s) in (s\<lparr>fs_mailbox := m\<rparr>, rows))"

definition freeze_guard_holds :: "FlowConfig \<Rightarrow> FlowStream \<Rightarrow> bool" where
  "freeze_guard_holds c s =
     (let m = fs_mailbox s in
      case (if mb_next_chunk m \<noteq> None then mb_next_meta m else None) of
        None \<Rightarrow> False
      | Some meta \<Rightarrow> (case cm_rtc_delay meta of
                       None \<Rightarrow> False
                     | Some delay \<Rightarrow> fs_emitted s - cm_observation_step_seq meta < delay \<and> fs_chunk s \<noteq> None
                         \<and> int (fs_chunk_index s) + 1 < current_chunk_execute_limit c s))"

definition ready_candidate_invalid :: "Row list \<Rightarrow> FlowStream \<Rightarrow> bool" where
  "ready_candidate_invalid rows s =
     (let candidate = mb_candidate (fs_mailbox s);
          observed = (case candidate of Some m \<Rightarrow> cm_observation_step_seq m | None \<Rightarrow> fs_emitted s)
      in (case candidate of Some m \<Rightarrow> cm_generation m \<noteq> mb_generation (fs_mailbox s) | None \<Rightarrow> False)
         \<or> fs_emitted s < observed \<or> int (length rows) \<le> fs_emitted s - observed)"

definition try_ready_event_activation :: "FlowConfig \<Rightarrow> (InferRequest \<Rightarrow> Inference) \<Rightarrow> FlowTick \<Rightarrow> FlowStream \<Rightarrow> FlowStream \<times> bool" where
  "try_ready_event_activation c infer k s =
     (let s0 = with_worker infer k 0 s in
      if freeze_guard_holds c s0 then (s0\<lparr>fs_freeze_guard_waits := fs_freeze_guard_waits s0 + 1\<rparr>, False)
      else case take_next (with_worker infer k 1 s0) of
             (s1, None) \<Rightarrow> (s1, False)
           | (s1, Some rows) \<Rightarrow>
               (let waited = fs_freeze_guard_waits s1;
                    s2 = (if waited = 0 then s1
                          else s1\<lparr>fs_mailbox := (fs_mailbox s1)\<lparr>mb_candidate := map_option (\<lambda>m. m\<lparr>cm_freeze_guard_waits := waited\<rparr>)
                                     (mb_candidate (fs_mailbox s1))\<rparr>, fs_freeze_guard_waits := 0\<rparr>)
                in if ready_candidate_invalid rows s2
                   then (s2\<lparr>fs_ready_discard_count := fs_ready_discard_count s2 + 1,
                            fs_mailbox := (fs_mailbox s2)\<lparr>mb_candidate := None\<rparr>\<rparr>, False)
                   else (activate_chunk c (gi_arm_mask (tk_gripper k)) rows (tk_now k) True s2, True)))"

section \<open>The ensemble scheduler\<close>

definition ensure_chunk_ensemble :: "FlowConfig \<Rightarrow> FlowStream \<Rightarrow> FlowStream \<times> Scheduler option res" where
  "ensure_chunk_ensemble c s =
     (if fc_chunk_stitch_mode c \<noteq> ''ensemble'' then (s, Inr None)
      else case fs_scheduler s of
             Some sched \<Rightarrow> (s, Inr (Some sched))
           | None \<Rightarrow> (case ensemble_init (fc_ensemble_period c) (fc_action_horizon c) (fc_ensemble_blend_mode c) of
                        Inl e \<Rightarrow> (s, Inl e)
                      | Inr sched \<Rightarrow> (s\<lparr>fs_scheduler := Some sched\<rparr>, Inr (Some sched))))"

text \<open>The seed of a plan. A command pose that holds a number too large for a double would raise here; it reads as the origin.\<close>

definition ensemble_anchor_fn :: "pydict \<Rightarrow> FlowStream \<Rightarrow> arm \<Rightarrow> pose7" where
  "ensemble_anchor_fn d s a =
     (case ov_chain_prev (fs_overlay s) a of
        Some p \<Rightarrow> p
      | None \<Rightarrow> (case pose_from_state_payload d a ''command'' of Inr p \<Rightarrow> p | Inl _ \<Rightarrow> ((0, 0, 0), (0, 0, 0, 1))))"

definition ensemble_wall_now :: "FlowStream \<Rightarrow> int" where
  "ensemble_wall_now s =
     (case fs_scheduler s of
        None \<Rightarrow> 0
      | Some sched \<Rightarrow> en_window_start sched - (case fs_chunk s of Some rows \<Rightarrow> int (length rows) | None \<Rightarrow> 0) + int (fs_chunk_index s))"

definition kick_at_window_start :: "FlowStream \<Rightarrow> FlowStream" where
  "kick_at_window_start s = s\<lparr>fs_scheduler := map_option (\<lambda>sched. note_kick sched (en_window_start sched)) (fs_scheduler s)\<rparr>"

definition request_next :: "pydict \<Rightarrow> FlowStream \<Rightarrow> FlowStream" where
  "request_next d s = s\<lparr>fs_mailbox := request_prefetch d (fs_emitted s) (fs_mailbox s)\<rparr>"

section \<open>A tick\<close>

text \<open>What the first half of a tick ends in: a row to execute, nothing new, or the tick's result.\<close>

datatype StreamMove = MvRow | MvKeep | MvReturn "CommandIntent option"

text \<open>No chunk is being played: a result of the worker, or an inference of the loop itself where that may block.\<close>

definition fetch_chunk :: "FlowConfig \<Rightarrow> (InferRequest \<Rightarrow> Inference) \<Rightarrow> FlowTick \<Rightarrow> FlowStream \<Rightarrow> FlowStream \<times> Row list option res" where
  "fetch_chunk c infer k s =
     (let (s1, taken) = take_next (with_worker infer k 0 s);
          s2 = with_worker infer k 1 s1
      in if taken = None \<and> \<not> mb_pending (fs_mailbox s2) \<and> \<not> fc_nonblocking_stream_inference c
         then let (m, r) = sample_inline infer (tk_payload k) (fs_emitted s2) (fs_mailbox s2) in (s2\<lparr>fs_mailbox := m\<rparr>, r)
         else (s2, Inr taken))"

definition acquire_chunk :: "FlowConfig \<Rightarrow> (InferRequest \<Rightarrow> Inference) \<Rightarrow> FlowTick \<Rightarrow> FlowStream \<Rightarrow> FlowStream \<times> StreamMove res" where
  "acquire_chunk c infer k s =
     (let am = gi_arm_mask (tk_gripper k); (s3, got) = fetch_chunk c infer k s
      in case got of
           Inl e \<Rightarrow> (s3, Inl e)
         | Inr None \<Rightarrow>
             (case ensure_chunk_ensemble c (request_next (tk_payload k) (with_worker infer k 2 s3)) of
                (s4, Inl e) \<Rightarrow> (s4, Inl e)
              | (s4, Inr _) \<Rightarrow> (kick_at_window_start s4, Inr (MvReturn (stream_hold_intent c s4))))
         | Inr (Some rows) \<Rightarrow>
             (case ensure_chunk_ensemble c s3 of
                (s4, Inl e) \<Rightarrow> (s4, Inl e)
              | (s4, Inr None) \<Rightarrow> (activate_chunk c am rows (tk_now k) False s4, Inr MvRow)
              | (s4, Inr (Some sched)) \<Rightarrow>
                  if \<not> en_first_window_built sched
                  then (case ensemble_begin sched rows (ensemble_anchor_fn (tk_payload k) s4) of
                          (sched1, Inl e) \<Rightarrow> (s4\<lparr>fs_scheduler := Some sched1\<rparr>, Inl e)
                        | (sched1, Inr window) \<Rightarrow> (activate_chunk c am window (tk_now k) False (s4\<lparr>fs_scheduler := Some sched1\<rparr>), Inr MvRow))
                  else (case advance sched (Some rows) (ensemble_anchor_fn (tk_payload k) s4) of
                          (sched1, None) \<Rightarrow> (s4\<lparr>fs_scheduler := Some sched1\<rparr>, Inr (MvReturn (stream_hold_intent c s4)))
                        | (sched1, Some window) \<Rightarrow> (activate_chunk c am window (tk_now k) False (s4\<lparr>fs_scheduler := Some sched1\<rparr>), Inr MvRow))))"

text \<open>The next chunk is not there at the boundary.\<close>

definition boundary_stall :: "FlowNumerics \<Rightarrow> FlowConfig \<Rightarrow> (InferRequest \<Rightarrow> Inference) \<Rightarrow> FlowTick \<Rightarrow> FlowStream \<Rightarrow> FlowStream \<times> StreamMove res" where
  "boundary_stall nm c infer k s =
     (let s1 = with_worker infer k 3 (s\<lparr>fs_stall_count := fs_stall_count s + 1, fs_chunk := None\<rparr>);
          s2 = kick_at_window_start (request_next (tk_payload k) s1)
      in if tcp_tp_foh_active c
         then (case foh_tick_intent nm c (gi_arm_mask (tk_gripper k)) (fs_current_gripper_targets s2) (tk_now k) True (fs_targets s2) of
                 (t, Inl e) \<Rightarrow> (s2\<lparr>fs_targets := t\<rparr>, Inl e)
               | (t, Inr i) \<Rightarrow> (s2\<lparr>fs_targets := t, fs_current_step_intent := i\<rparr>, Inr (MvReturn i)))
         else (s2, Inr (MvReturn (stream_hold_intent c s2))))"

definition cross_boundary :: "FlowNumerics \<Rightarrow> FlowConfig \<Rightarrow> (InferRequest \<Rightarrow> Inference) \<Rightarrow> FlowTick \<Rightarrow> FlowStream \<Rightarrow> FlowStream \<times> StreamMove res" where
  "cross_boundary nm c infer k s =
     (let am = gi_arm_mask (tk_gripper k); (s1, taken) = take_next (with_worker infer k 2 s) in
      case ensure_chunk_ensemble c s1 of
        (s2, Inl e) \<Rightarrow> (s2, Inl e)
      | (s2, Inr (Some sched)) \<Rightarrow>
          (case advance sched taken (ensemble_anchor_fn (tk_payload k) s2) of
             (sched1, Some window) \<Rightarrow> (activate_chunk c am window (tk_now k) False (s2\<lparr>fs_scheduler := Some sched1\<rparr>), Inr MvRow)
           | (sched1, None) \<Rightarrow> boundary_stall nm c infer k (s2\<lparr>fs_scheduler := Some sched1\<rparr>))
      | (s2, Inr None) \<Rightarrow>
          (case taken of
             Some rows \<Rightarrow> (activate_chunk c am rows (tk_now k) False s2, Inr MvRow)
           | None \<Rightarrow> boundary_stall nm c infer k s2))"

definition step_due :: "FlowNumerics \<Rightarrow> FlowConfig \<Rightarrow> (InferRequest \<Rightarrow> Inference) \<Rightarrow> FlowTick \<Rightarrow> FlowStream \<Rightarrow> FlowStream \<times> StreamMove res" where
  "step_due nm c infer k s =
     (let (s1, replaced) = (if fc_chunk_activation_mode c = ''ready_event'' then try_ready_event_activation c infer k s else (s, False)) in
      if replaced then (s1, Inr MvRow)
      else if int (fs_chunk_index s1) + 1 < current_chunk_execute_limit c s1
        then (s1\<lparr>fs_chunk_index := fs_chunk_index s1 + 1, fs_step_deadline := next_step_deadline c (tk_now k) s1\<rparr>, Inr MvRow)
      else cross_boundary nm c infer k s1)"

definition advance_stream :: "FlowNumerics \<Rightarrow> FlowConfig \<Rightarrow> (InferRequest \<Rightarrow> Inference) \<Rightarrow> FlowTick \<Rightarrow> FlowStream \<Rightarrow> FlowStream \<times> StreamMove res" where
  "advance_stream nm c infer k s =
     (if fs_resume_row_pending s \<and> fs_chunk s \<noteq> None
        then (s\<lparr>fs_resume_row_pending := False, fs_candidate_published := False, fs_chunk_index := 0,
                fs_step_deadline := tk_now k + dl_policy_dt_sec (fc_limits c)\<rparr>, Inr MvRow)
      else if fs_chunk s = None then acquire_chunk c infer k s
      else if fs_step_deadline s \<le> tk_now k then step_due nm c infer k s
      else (s, Inr MvKeep))"

text \<open>The request for the next chunk, once far enough into this one.\<close>

definition kick_prefetch :: "FlowConfig \<Rightarrow> (InferRequest \<Rightarrow> Inference) \<Rightarrow> FlowTick \<Rightarrow> FlowStream \<Rightarrow> FlowStream" where
  "kick_prefetch c infer k s =
     (let s0 = with_worker infer k 4 s; m = fs_mailbox s0 in
      if fs_chunk s0 \<noteq> None \<and> \<not> mb_pending m \<and> mb_next_chunk m = None \<and> stream_prefetch_at c s0 \<le> int (fs_chunk_index s0)
      then let s1 = request_next (tk_payload k) (with_worker infer k 5 s0)
           in s1\<lparr>fs_scheduler := map_option (\<lambda>sched. note_kick sched (ensemble_wall_now s1)) (fs_scheduler s1)\<rparr>
      else s0)"

definition row_targets :: "FlowNumerics \<Rightarrow> FlowConfig \<Rightarrow> FlowTick \<Rightarrow> Row \<Rightarrow> FlowStream \<Rightarrow> FlowTargets \<times> CommandIntent option res" where
  "row_targets nm c k r s =
     (let am = gi_arm_mask (tk_gripper k); t = fs_targets s; grip = fs_current_gripper_targets s in
      if tcp_tp_foh_active c
      then (case (if fs_chunk_index s = 0
                  then foh_begin_chunk c am (fs_chunk s) (current_chunk_execute_limit c s) (tk_payload k) (tk_now k) t else (t, Inr ())) of
              (t1, Inl e) \<Rightarrow> (t1, Inl e)
            | (t1, Inr _) \<Rightarrow>
                (let t2 = remember_emitted_deltas_for_step c am r (int (fs_chunk_index s)) t1
                 in foh_tick_intent nm c am grip (tk_now k) False (t2\<lparr>ft_steps_since_boundary := ft_steps_since_boundary t2 + 1\<rparr>)))
      else emit_step_intent nm c am r (tk_payload k) grip t)"

definition execute_row :: "FlowNumerics \<Rightarrow> FlowConfig \<Rightarrow> FlowTick \<Rightarrow> Row list \<Rightarrow> FlowStream \<Rightarrow> FlowStream \<times> GripperCommand list \<times> CommandIntent option res" where
  "execute_row nm c k rows s =
     (let i = fs_chunk_index s in
      case gripper_row_step (fn_round nm) (fc_gripper c) (fs_gripper s) (tk_gripper k, gripper_step_row (fc_gripper c) rows i, tk_payload k) of
        (g, Inl e) \<Rightarrow> (s\<lparr>fs_gripper := g\<rparr>, [], Inl e)
      | (g, Inr (grip, commands)) \<Rightarrow>
          (let s1 = s\<lparr>fs_gripper := g, fs_current_gripper_targets := grip\<rparr> in
           case row_targets nm c k (rows ! i) s1 of
             (t, Inl e) \<Rightarrow> (s1\<lparr>fs_targets := t\<rparr>, commands, Inl e)
           | (t, Inr intent) \<Rightarrow>
               (s1\<lparr>fs_targets := t, fs_current_step_intent := intent, fs_emitted := fs_emitted s1 + 1\<rparr>, commands, Inr intent)))"

definition finish_stream_tick :: "FlowNumerics \<Rightarrow> FlowConfig \<Rightarrow> FlowTick \<Rightarrow> bool \<Rightarrow> FlowStream \<Rightarrow> FlowStream \<times> GripperCommand list \<times> CommandIntent option res" where
  "finish_stream_tick nm c k advanced s =
     (case fs_chunk s of
        None \<Rightarrow> (s, [], Inr (fs_current_step_intent s))
      | Some rows \<Rightarrow>
          if advanced then execute_row nm c k rows s
          else if tcp_tp_foh_active c
          then (case foh_tick_intent nm c (gi_arm_mask (tk_gripper k)) (fs_current_gripper_targets s) (tk_now k) False (fs_targets s) of
                  (t, Inl e) \<Rightarrow> (s\<lparr>fs_targets := t\<rparr>, [], Inl e)
                | (t, Inr i) \<Rightarrow> (s\<lparr>fs_targets := t, fs_current_step_intent := i\<rparr>, [], Inr i))
          else (s, [], Inr (fs_current_step_intent s)))"

definition ensure_reset_poses :: "pydict \<Rightarrow> FlowStream \<Rightarrow> FlowStream \<times> unit res" where
  "ensure_reset_poses d s =
     (if fs_reset_pose s ArmLeft \<noteq> None \<and> fs_reset_pose s ArmRight \<noteq> None then (s, Inr ())
      else case pose_from_state_payload d ArmLeft ''auto'' of
             Inl e \<Rightarrow> (s, Inl e)
           | Inr l \<Rightarrow>
               (let s1 = s\<lparr>fs_reset_pose := (fs_reset_pose s)(ArmLeft := Some l)\<rparr> in
                case pose_from_state_payload d ArmRight ''auto'' of
                  Inl e \<Rightarrow> (s1, Inl e)
                | Inr r \<Rightarrow> (s1\<lparr>fs_reset_pose := (fs_reset_pose s1)(ArmRight := Some r)\<rparr>, Inr ())))"

definition next_intent_streamed :: "FlowNumerics \<Rightarrow> FlowConfig \<Rightarrow> (InferRequest \<Rightarrow> Inference) \<Rightarrow> FlowTick \<Rightarrow> FlowStream
    \<Rightarrow> FlowStream \<times> GripperCommand list \<times> CommandIntent option res" where
  "next_intent_streamed nm c infer k s =
     (case ensure_reset_poses (tk_payload k) (s\<lparr>fs_overlay_payload := Some (tk_payload k)\<rparr>) of
        (s0, Inl e) \<Rightarrow> (s0, [], Inl e)
      | (s0, Inr _) \<Rightarrow>
          (case advance_stream nm c infer k s0 of
             (s1, Inl e) \<Rightarrow> (s1, [], Inl e)
           | (s1, Inr (MvReturn i)) \<Rightarrow> (s1, [], Inr i)
           | (s1, Inr mv) \<Rightarrow> finish_stream_tick nm c k (mv = MvRow) (kick_prefetch c infer k s1)))"

section \<open>Invalidation\<close>

definition invalidate_policy_chunks :: "string \<Rightarrow> FlowStream \<Rightarrow> FlowStream" where
  "invalidate_policy_chunks reason s =
     s\<lparr>fs_candidate_published := False, fs_resume_row_pending := False,
       fs_recovery_heartbeat := (if reason = ''preview_recovery'' then fs_recovery_heartbeat s else None),
       fs_scheduler := map_option ensemble_reset (fs_scheduler s), fs_filter_context := None, fs_chunk := None, fs_chunk_index := 0,
       fs_targets := (fs_targets s)\<lparr>ft_steps_since_boundary := 0\<rparr>, fs_current_step_intent := None,
       fs_current_gripper_targets := (\<lambda>_. None), fs_mailbox := invalidate_mailbox (fs_mailbox s)\<rparr>"

definition clear_targets :: "arm set \<Rightarrow> FlowStream \<Rightarrow> FlowStream" where
  "clear_targets arms s = (let (t, g) = clear_target_pose_state arms (fs_targets s, fs_gripper s) in s\<lparr>fs_targets := t, fs_gripper := g\<rparr>)"

text \<open>The arms were moved by someone else: the running targets restart from where they are now. An arm whose pose cannot
  be read keeps its state.\<close>

fun reanchor_arms_to_snapshot :: "pydict \<Rightarrow> arm list \<Rightarrow> FlowStream \<Rightarrow> FlowStream" where
  "reanchor_arms_to_snapshot d [] s = s"
| "reanchor_arms_to_snapshot d (a # as) s =
     (case pose_from_state_payload d a ''auto'' of
        Inl _ \<Rightarrow> reanchor_arms_to_snapshot d as s
      | Inr p \<Rightarrow>
          (let t = fs_targets s; ov = fs_overlay s
           in reanchor_arms_to_snapshot d as
                (s\<lparr>fs_targets := t\<lparr>ft_target_pose_by_arm := (ft_target_pose_by_arm t)(a := Some p),
                                  ft_conditioners := map_option (\<lambda>cs. cs(a := (conditioner_reset (cs a))\<lparr>cd_prev_emitted := Some p\<rparr>)) (ft_conditioners t)\<rparr>,
                   fs_gripper := (fs_gripper s)\<lparr>gs_targets := (gs_targets (fs_gripper s))(a := None)\<rparr>,
                   fs_overlay := ov\<lparr>ov_chain_prev := (ov_chain_prev ov)(a := None), ov_chain_pending := (ov_chain_pending ov)(a := None)\<rparr>\<rparr>)))"

section \<open>Publishing a candidate for recovery\<close>

text \<open>While the server waits for a fresh plan after a stop, one chunk of the right epoch and of a late enough observation is
  put in place, and its first row stays pending (\<^verbatim>\<open>_preview_recovery_intent\<close>).\<close>

definition trunc_real :: "real \<Rightarrow> int" where
  "trunc_real x = (if 0 \<le> x then \<lfloor>x\<rfloor> else \<lceil>x\<rceil>)"

definition recovery_eligible :: "int \<Rightarrow> int \<Rightarrow> real \<Rightarrow> Mailbox \<Rightarrow> bool" where
  "recovery_eligible epoch min_observation_time_ns now m =
     (case mb_candidate m of
        None \<Rightarrow> False
      | Some meta \<Rightarrow> cm_generation meta = mb_generation m \<and> cm_preview_recovery_epoch meta = epoch
          \<and> min_observation_time_ns < cm_observation_time_ns meta \<and> cm_observation_time_ns meta \<le> trunc_real (now * 10 ^ 9))"

definition publish_recovery_candidate :: "FlowConfig \<Rightarrow> (InferRequest \<Rightarrow> Inference) \<Rightarrow> FlowTick \<Rightarrow> int \<Rightarrow> int \<Rightarrow> FlowStream \<Rightarrow> FlowStream" where
  "publish_recovery_candidate c infer k epoch min_observation_time_ns s =
     (if fs_candidate_published s then s
      else case take_next (with_worker infer k 0 s) of
             (s1, None) \<Rightarrow> request_next (tk_payload k) (with_worker infer k 1 s1)
           | (s1, Some rows) \<Rightarrow>
               (let eligible = recovery_eligible epoch min_observation_time_ns (tk_now k) (fs_mailbox s1);
                    s2 = (if eligible then activate_chunk c (gi_arm_mask (tk_gripper k)) rows (tk_now k) False s1 else s1)
                in if eligible \<and> fs_chunk s2 \<noteq> None then s2\<lparr>fs_candidate_published := True, fs_resume_row_pending := True\<rparr>
                   else let s3 = s2\<lparr>fs_ready_discard_count := fs_ready_discard_count s2 + 1,
                                    fs_mailbox := (fs_mailbox s2)\<lparr>mb_candidate := None\<rparr>\<rparr>
                        in request_next (tk_payload k) (with_worker infer k 1 s3)))"

section \<open>Runs\<close>

datatype FlowOp =
    FoTick FlowTick
  | FoRecovery FlowTick int int
  | FoInvalidate string
  | FoClear "arm set"
  | FoReanchor pydict "arm list"

fun flow_step :: "FlowNumerics \<Rightarrow> FlowConfig \<Rightarrow> (InferRequest \<Rightarrow> Inference) \<Rightarrow> FlowStream \<Rightarrow> FlowOp \<Rightarrow> FlowStream \<times> CommandIntent option res" where
  "flow_step nm c infer s (FoTick k) = (let (s', _, out) = next_intent_streamed nm c infer k s in (s', out))"
| "flow_step nm c infer s (FoRecovery k epoch t) = (publish_recovery_candidate c infer k epoch t s, Inr None)"
| "flow_step nm c infer s (FoInvalidate reason) = (invalidate_policy_chunks reason s, Inr None)"
| "flow_step nm c infer s (FoClear arms) = (clear_targets arms s, Inr None)"
| "flow_step nm c infer s (FoReanchor d arms) = (reanchor_arms_to_snapshot d arms s, Inr None)"

end
