(* ===== verification/FlowSource.thy ===== *)
theory FlowSource
  imports FlowStream CommandHistory
begin

text \<open>
  The whole policy source of \<^verbatim>\<open>policy_runner/flow_inference.py\<close> as the command loop calls it: the checks before any policy
  work, the recovery transaction of the server's preview execution, the authority to move a gripper, the
  motion epoch of the server, the hooks of arm initialisation, and \<^verbatim>\<open>next_intent\<close>, streamed or one chunk at a time. A clock reading and the arrival time of
  a snapshot are finite floats, as reals. Whether the cameras deliver is an input.
\<close>

section \<open>State and inputs\<close>

record FlowSource =
  so_stream :: FlowStream
  so_init_suspended_arms :: "arm set"
  so_init_passive :: bool
  so_recovery_enabled :: bool
  so_recovery_epoch :: "int option"
  so_recovery_state :: "string option"
  so_recovery_min_observation_time_ns :: int
  so_recovery_state_max_age_sec :: real
  so_gripper_allowed :: "arm \<Rightarrow> bool"

definition flow_source_init :: FlowSource where
  "flow_source_init = \<lparr>so_stream = flow_stream_init, so_init_suspended_arms = {}, so_init_passive = False, so_recovery_enabled = False,
     so_recovery_epoch = None, so_recovery_state = None, so_recovery_min_observation_time_ns = 0, so_recovery_state_max_age_sec = 0,
     so_gripper_allowed = (\<lambda>_. False)\<rparr>"

record SourceTick =
  st_now :: real
  st_received :: real
  st_payload :: pydict
  st_arm_mask :: "arm \<Rightarrow> pyfloat"
  st_packet_allowed :: bool
  st_backend :: "arm \<Rightarrow> real option"
  st_worker :: "nat \<Rightarrow> WorkerStep list"
  st_cameras_ready :: bool

record SourceConfig =
  sc_flow :: FlowConfig
  sc_enable_async_chunking :: bool
  sc_has_cameras :: bool
  sc_numpy :: Numpy

definition on_stream :: "(FlowStream \<Rightarrow> FlowStream) \<Rightarrow> FlowSource \<Rightarrow> FlowSource" where
  "on_stream f s = s\<lparr>so_stream := f (so_stream s)\<rparr>"

abbreviation preview_profile :: "SourceConfig \<Rightarrow> bool" where
  "preview_profile c \<equiv> fc_tcp_target_profile (sc_flow c) = ''flow_infer_preview''"

section \<open>Numbers of a payload\<close>

text \<open>\<^verbatim>\<open>np.isfinite\<close> takes an integer of at most 64 bits.\<close>

definition np_isfinite :: "pyval \<Rightarrow> bool res" where
  "np_isfinite v =
     (case v of
        PInt i \<Rightarrow> if - (2 ^ 63) \<le> i \<and> i < 2 ^ 64 then Inr True else Inl (TypeError ''ufunc isfinite not supported for the input types'')
      | PFloat f \<Rightarrow> Inr (isfinite f)
      | _ \<Rightarrow> Inl (TypeError ''ufunc isfinite not supported for the input types''))"

text \<open>A number that is not a boolean, if it is finite.\<close>

definition finite_number :: "pyval \<Rightarrow> real option res" where
  "finite_number v =
     (case v of
        PInt i \<Rightarrow> res_bind (np_isfinite v) (\<lambda>_. Inr (Some (real_of_int i)))
      | PFloat (Fin q) \<Rightarrow> Inr (Some (of_rat q))
      | _ \<Rightarrow> Inr None)"

definition round_even :: "real \<Rightarrow> int" where
  "round_even x = (let f = \<lfloor>x\<rfloor>; r = x - real_of_int f in if r < 1 / 2 \<or> r = 1 / 2 \<and> even f then f else f + 1)"

definition age_sec :: "real \<Rightarrow> int \<Rightarrow> real" where
  "age_sec now stamp = real_of_int (round_even (now * 10 ^ 9) - stamp) / 10 ^ 9"

definition unsigned64 :: "pyval \<Rightarrow> int option" where
  "unsigned64 v = (case v of PInt i \<Rightarrow> if 0 \<le> i \<and> i < 2 ^ 64 then Some i else None | _ \<Rightarrow> None)"

fun named_profiles :: "string \<Rightarrow> pyval list \<Rightarrow> pydict list" where
  "named_profiles name [] = []"
| "named_profiles name (PDict p # vs) = (if dget p ''name'' = PStr name then p # named_profiles name vs else named_profiles name vs)"
| "named_profiles name (_ # vs) = named_profiles name vs"

definition list_profiles :: "string \<Rightarrow> pydict \<Rightarrow> pydict list" where
  "list_profiles name d = (case dget d ''chunk_execution_profiles'' of PList vs \<Rightarrow> named_profiles name vs | _ \<Rightarrow> [])"

section \<open>Checks before any policy work\<close>

definition require_chunk_execution_profile :: "SourceConfig \<Rightarrow> pydict \<Rightarrow> unit res" where
  "require_chunk_execution_profile c d =
     (let name = fc_tcp_target_profile (sc_flow c); refused = Inl (ValueError (name @ '' requires exactly one enabled server chunk_execution_profiles entry'')) in
      if name \<notin> {''flow_infer_fresh'', ''flow_infer_preview''} then Inr ()
      else case list_profiles name d of
             [p] \<Rightarrow>
               if dget p ''enabled'' = PBool True \<and> dget p ''controller'' = PStr ''delta_preview'' \<and> dget p ''fresh_chunk_replan'' = PBool True
                  \<and> dget p ''continuous_hold_resume'' = PBool True
               then if name \<noteq> ''flow_infer_preview'' then Inr ()
                    else if dget p ''preview_execution'' \<noteq> PBool True then refused
                    else res_bind (finite_number (dget p ''gripper_state_max_age_sec'')) (\<lambda>m.
                           case m of Some x \<Rightarrow> if 0 < x then Inr () else refused | None \<Rightarrow> refused)
               else refused
           | _ \<Rightarrow> refused)"

definition arm_suspended_for_init :: "(arm \<Rightarrow> pyfloat) \<Rightarrow> FlowSource \<Rightarrow> arm \<Rightarrow> bool" where
  "arm_suspended_for_init am s a = (a \<in> so_init_suspended_arms s \<and> am a = Fin 0)"

definition untared :: "pydict \<Rightarrow> arm \<Rightarrow> bool" where
  "untared d a =
     (case dget d (side_key a) of
        PDict side \<Rightarrow>
          (case dget side ''force_control'' of
             PDict fc \<Rightarrow> dget fc ''enabled'' = PBool True
               \<and> (let ft = as_dict (dget side ''force_torque'')
                  in \<not> (dget ft ''bias_valid'' = PBool True \<and> py_str (dget_or ft ''tare_state'' (PStr [])) = ''accepted''))
           | _ \<Rightarrow> False)
      | _ \<Rightarrow> False)"

definition require_force_control_tare :: "(arm \<Rightarrow> pyfloat) \<Rightarrow> pydict \<Rightarrow> FlowSource \<Rightarrow> unit res" where
  "require_force_control_tare am d s =
     (if list_ex (\<lambda>a. \<not> arm_suspended_for_init am s a \<and> untared d a) [ArmLeft, ArmRight]
      then Inl (ValueError ''force_control is enabled without an accepted F/T tare'') else Inr ())"

section \<open>Preview recovery\<close>

definition without_grippers :: "CommandIntent option \<Rightarrow> CommandIntent option" where
  "without_grippers intent =
     map_option (\<lambda>i. i\<lparr>ci_left := map_option (\<lambda>p. ddel p ''gripper_target'') (ci_left i),
                       ci_right := map_option (\<lambda>p. ddel p ''gripper_target'') (ci_right i)\<rparr>) intent"

text \<open>The recovery block of a snapshot, when it is complete, fresh and consistent: epoch, state, the minimal observation time and
  the maximal age of the state.\<close>

definition recovery_block :: "SourceTick \<Rightarrow> pydict list \<Rightarrow> pyval \<Rightarrow> (int \<times> string \<times> int \<times> real) option res" where
  "recovery_block k matching v =
     (case (matching, v) of
        ([p], PDict block) \<Rightarrow>
          if dget p ''preview_recovery'' \<noteq> PBool True \<or> dget block ''enabled'' \<noteq> PBool True then Inr None
          else (case (unsigned64 (dget block ''epoch''), unsigned64 (dget block ''min_observation_time_ns''), unsigned64 (dget block ''sample_time_ns''),
                      unsigned64 (dget block ''attempts''), dget block ''state'', dget block ''reason'') of
                  (Some epoch, Some min_ns, Some sample_ns, Some _, PStr state, PStr _) \<Rightarrow>
                    if state \<notin> {''tracking'', ''braking'', ''waiting_fresh'', ''starting'', ''paused''} then Inr None
                    else res_bind (finite_number (dget p ''gripper_state_max_age_sec'')) (\<lambda>m.
                      case m of
                        None \<Rightarrow> Inr None
                      | Some max_age \<Rightarrow>
                          Inr (if 0 < max_age \<and> 0 < sample_ns \<and> 0 \<le> age_sec (st_now k) sample_ns \<and> age_sec (st_now k) sample_ns \<le> max_age
                                  \<and> 0 \<le> st_now k - st_received k \<and> st_now k - st_received k \<le> max_age
                                  \<and> (state \<in> {''waiting_fresh'', ''starting''} \<longrightarrow> 0 < min_ns \<and> min_ns \<le> sample_ns)
                               then Some (epoch, state, min_ns, max_age) else None))
                | _ \<Rightarrow> Inr None)
      | _ \<Rightarrow> Inr None)"

text \<open>What a new epoch or the start of braking drops besides the chunks.\<close>

definition drop_plan :: "FlowStream \<Rightarrow> FlowStream" where
  "drop_plan s =
     (let s1 = clear_targets {} (invalidate_policy_chunks ''preview_recovery''
                 (s\<lparr>fs_recovery_heartbeat := (case fs_current_step_intent s of Some i \<Rightarrow> without_grippers (Some i) | None \<Rightarrow> fs_recovery_heartbeat s)\<rparr>))
      in s1\<lparr>fs_active := None, fs_targets := (fs_targets s1)\<lparr>ft_prev_emitted_twist_by_arm := (\<lambda>_. None)\<rparr>,
            fs_overlay := (fs_overlay s1)\<lparr>ov_chain_prev := (\<lambda>_. None), ov_chain_pending := (\<lambda>_. None)\<rparr>,
            fs_candidate_published := False, fs_resume_row_pending := False\<rparr>)"

definition update_preview_recovery :: "SourceConfig \<Rightarrow> SourceTick \<Rightarrow> FlowSource \<Rightarrow> FlowSource \<times> unit res" where
  "update_preview_recovery c k s =
     (if \<not> preview_profile c then (s, Inr ())
      else let matching = list_profiles ''flow_infer_preview'' (st_payload k); v = dget (st_payload k) ''preview_recovery'';
               advertised = (case matching of [p] \<Rightarrow> dget p ''preview_recovery'' = PBool True | _ \<Rightarrow> False);
               enabled = (case v of PDict block \<Rightarrow> dget block ''enabled'' = PBool True | _ \<Rightarrow> False)
           in if \<not> advertised \<and> \<not> so_recovery_enabled s \<and> \<not> enabled then (s, Inr ())
              else case recovery_block k matching v of
                     Inl e \<Rightarrow> (s, Inl e)
                   | Inr None \<Rightarrow> (s, Inl (ValueError ''preview recovery telemetry unavailable, malformed or stale''))
                   | Inr (Some (epoch, state, min_ns, max_age)) \<Rightarrow>
                       (let s1 = s\<lparr>so_recovery_enabled := True\<rparr>;
                            changed = ((case so_recovery_epoch s of Some e \<Rightarrow> epoch \<noteq> e | None \<Rightarrow> state \<noteq> ''tracking'')
                                       \<or> state \<in> {''braking'', ''paused''} \<and> so_recovery_state s \<noteq> Some state);
                            s2 = (if changed then on_stream drop_plan s1 else s1)
                        in (s2\<lparr>so_recovery_epoch := Some epoch, so_recovery_state := Some state, so_recovery_min_observation_time_ns := min_ns,
                               so_recovery_state_max_age_sec := max_age\<rparr>, Inr ())))"

definition recovering :: "FlowSource \<Rightarrow> bool" where
  "recovering s = (so_recovery_enabled s \<and> so_recovery_state s \<noteq> Some ''tracking'')"

definition heartbeat_error_caught :: "pyexc \<Rightarrow> bool" where
  "heartbeat_error_caught e = (lookup_error e \<or> (case e of OverflowError _ \<Rightarrow> True | _ \<Rightarrow> False))"

definition verified_preview_recovery_heartbeat :: "SourceConfig \<Rightarrow> SourceTick \<Rightarrow> FlowSource \<Rightarrow> CommandIntent option res" where
  "verified_preview_recovery_heartbeat c k s =
     (let d = st_payload k; motion = dget d ''motion_state'' in
      if dget d ''fault_latched'' = PBool True \<or> dget d ''send_suppressed'' = PBool True then Inr None
      else case motion of
             PList _ \<Rightarrow> Inl (TypeError ''unhashable type: list'')
           | PDict _ \<Rightarrow> Inl (TypeError ''unhashable type: dict'')
           | _ \<Rightarrow>
               if motion \<in> {PStr ''FaultLatched'', PStr ''EmergencyLatched''} then Inr None
               else (case res_bind (observation_stamp (PDict d)) (\<lambda>(stamp, _).
                        if \<not> (0 \<le> age_sec (st_now k) stamp \<and> age_sec (st_now k) stamp \<le> so_recovery_state_max_age_sec s) then Inr None
                        else res_bind (command_pose (sc_numpy c) d ''left'') (\<lambda>l.
                             res_bind (command_pose (sc_numpy c) d ''right'') (\<lambda>r. Inr (Some (l, r))))) of
                       Inl e \<Rightarrow> if heartbeat_error_caught e then Inr None else Inl e
                     | Inr None \<Rightarrow> Inr None
                     | Inr (Some (l, r)) \<Rightarrow>
                         res_bind (tcp_pose_target_stand_intent (Some l) (Some r) None None (fc_timeout_sec (sc_flow c)) (Some ''flow_infer_preview'')
                             (Some [(''action_source'', PStr ''flow_infer''), (''source_conditioning_mode'', PStr ''preview_recovery_reference'')]))
                           (\<lambda>i. Inr (Some i))))"

section \<open>Authority over the grippers\<close>

definition iterate_profiles :: "pyval \<Rightarrow> pydict list res" where
  "iterate_profiles v =
     (case v of
        PList vs \<Rightarrow> Inr (named_profiles ''flow_infer_preview'' vs)
      | PDict _ \<Rightarrow> Inr []
      | PStr _ \<Rightarrow> Inr []
      | _ \<Rightarrow> Inl (TypeError ''object is not iterable''))"

text \<open>An arm whose preview execution is active on fresh telemetry.\<close>

definition preview_active :: "real \<Rightarrow> real \<Rightarrow> pydict \<Rightarrow> arm \<Rightarrow> bool" where
  "preview_active now max_age execution a =
     (case dget execution (side_key a) of
        PDict state \<Rightarrow>
          (case dget state ''sample_time_ns'' of
             PInt stamp \<Rightarrow> 0 < stamp \<and> dget state ''enabled'' = PBool True \<and> dget state ''active'' = PBool True \<and> dget state ''status'' = PStr ''active''
               \<and> 0 \<le> age_sec now stamp \<and> age_sec now stamp \<le> max_age
           | _ \<Rightarrow> False)
      | _ \<Rightarrow> False)"

definition gripper_authority :: "SourceTick \<Rightarrow> FlowSource \<Rightarrow> (arm \<Rightarrow> bool) res" where
  "gripper_authority k s =
     (let d = st_payload k; none = Inr (\<lambda>_. False) in
      if recovering s then none
      else res_bind (iterate_profiles (dget_or d ''chunk_execution_profiles'' (PList []))) (\<lambda>matching.
        case matching of
          [p] \<Rightarrow>
            res_bind (finite_number (dget p ''gripper_state_max_age_sec'')) (\<lambda>m.
              case m of
                None \<Rightarrow> none
              | Some max_age \<Rightarrow>
                  if max_age \<le> 0 \<or> \<not> (0 \<le> st_now k - st_received k \<and> st_now k - st_received k \<le> max_age) then none
                  else if dget d ''fault_latched'' = PBool True \<or> dget d ''send_suppressed'' = PBool True then none
                  else (case dget d ''preview_execution'' of
                          PDict execution \<Rightarrow>
                            (let allowed = preview_active (st_now k) max_age execution
                             in Inr (if so_recovery_enabled s \<and> \<not> (allowed ArmLeft \<and> allowed ArmRight) then (\<lambda>_. False) else allowed))
                        | _ \<Rightarrow> none))
        | _ \<Rightarrow> none))"

definition update_preview_gripper_authority :: "SourceConfig \<Rightarrow> SourceTick \<Rightarrow> FlowSource \<Rightarrow> FlowSource \<times> unit res" where
  "update_preview_gripper_authority c k s =
     (if \<not> preview_profile c then (s, Inr ())
      else case gripper_authority k s of
             Inl e \<Rightarrow> (s\<lparr>so_gripper_allowed := (\<lambda>_. False)\<rparr>, Inl e)
           | Inr allowed \<Rightarrow> (s\<lparr>so_gripper_allowed := allowed\<rparr>, Inr ()))"

definition preview_gripper_arm_allowed :: "SourceConfig \<Rightarrow> (arm \<Rightarrow> pyfloat) \<Rightarrow> FlowSource \<Rightarrow> arm \<Rightarrow> bool" where
  "preview_gripper_arm_allowed c am s a =
     (\<not> arm_suspended_for_init am s a \<and> \<not> (preview_profile c \<and> recovering s) \<and> (\<not> preview_profile c \<or> so_gripper_allowed s a))"

definition guard_preview_gripper_intent :: "SourceConfig \<Rightarrow> (arm \<Rightarrow> pyfloat) \<Rightarrow> FlowSource \<Rightarrow> CommandIntent option \<Rightarrow> CommandIntent option" where
  "guard_preview_gripper_intent c am s intent =
     (if \<not> preview_profile c then intent
      else let strip = (\<lambda>a p. if preview_gripper_arm_allowed c am s a then p else map_option (\<lambda>q. ddel q ''gripper_target'') p)
           in map_option (\<lambda>i. i\<lparr>ci_left := strip ArmLeft (ci_left i), ci_right := strip ArmRight (ci_right i)\<rparr>) intent)"

section \<open>The motion epoch of the server\<close>

definition handle_server_motion_epoch :: "pydict \<Rightarrow> FlowStream \<Rightarrow> FlowStream" where
  "handle_server_motion_epoch d s =
     (let raw = dget d ''motion_epoch'' in
      case (case raw of PInt _ \<Rightarrow> py_int raw | PFloat _ \<Rightarrow> py_int raw | _ \<Rightarrow> Inl (TypeError [])) of
        Inl _ \<Rightarrow> s
      | Inr epoch \<Rightarrow>
          (case fs_last_motion_epoch s of
             None \<Rightarrow> s\<lparr>fs_last_motion_epoch := Some epoch\<rparr>
           | Some known \<Rightarrow>
               if epoch = known then s
               else let s1 = invalidate_policy_chunks ''server_motion_epoch'' (clear_targets {} (s\<lparr>fs_last_motion_epoch := Some epoch\<rparr>))
                    in s1\<lparr>fs_reset_pose := (case (pose_from_state_payload d ArmLeft ''auto'', pose_from_state_payload d ArmRight ''auto'') of
                            (Inr l, Inr r) \<Rightarrow> (\<lambda>a. case a of ArmLeft \<Rightarrow> Some l | ArmRight \<Rightarrow> Some r)
                          | _ \<Rightarrow> (\<lambda>_. None))\<rparr>))"

section \<open>The next intent\<close>

definition flow_tick :: "SourceConfig \<Rightarrow> SourceTick \<Rightarrow> FlowSource \<Rightarrow> FlowTick" where
  "flow_tick c k s = \<lparr>tk_now = st_now k, tk_payload = st_payload k,
     tk_gripper = \<lparr>gi_arm_mask = st_arm_mask k, gi_arm_allowed = preview_gripper_arm_allowed c (st_arm_mask k) s,
                   gi_packet_allowed = st_packet_allowed k, gi_backend = st_backend k\<rparr>,
     tk_worker = st_worker k\<rparr>"

definition preview_recovery_intent :: "SourceConfig \<Rightarrow> (InferRequest \<Rightarrow> Inference) \<Rightarrow> SourceTick \<Rightarrow> FlowSource
    \<Rightarrow> FlowSource \<times> (bool \<times> CommandIntent option) res" where
  "preview_recovery_intent c infer k s =
     (if \<not> recovering s then (s, Inr (False, None))
      else case (case fs_recovery_heartbeat (so_stream s) of Some h \<Rightarrow> Inr (Some h) | None \<Rightarrow> verified_preview_recovery_heartbeat c k s) of
             Inl e \<Rightarrow> (s, Inl e)
           | Inr h \<Rightarrow>
               (let s1 = on_stream (\<lambda>x. x\<lparr>fs_recovery_heartbeat := h\<rparr>) s;
                    epoch = (case so_recovery_epoch s of Some e \<Rightarrow> e | None \<Rightarrow> - 1)
                in (if so_recovery_state s \<noteq> Some ''waiting_fresh'' then s1
                    else on_stream (publish_recovery_candidate (sc_flow c) infer (flow_tick c k s) epoch (so_recovery_min_observation_time_ns s)) s1,
                    Inr (True, h))))"

text \<open>One chunk at a time: the chunk of this step, or None where the policy has no input.\<close>

definition sync_chunk :: "SourceConfig \<Rightarrow> (InferRequest \<Rightarrow> Inference) \<Rightarrow> SourceTick \<Rightarrow> FlowStream \<Rightarrow> FlowStream \<times> Row list option res" where
  "sync_chunk c infer k s =
     (let limit = current_chunk_execute_limit (sc_flow c) s in
      if sc_has_cameras c \<and> fs_chunk s \<noteq> None \<and> int (fs_chunk_index s) < limit \<and> \<not> st_cameras_ready k
        then (clear_targets {} (s\<lparr>fs_chunk := None, fs_chunk_index := 0\<rparr>), Inr None)
      else if fs_chunk s = None \<or> limit \<le> int (fs_chunk_index s)
        then let (m, got) = sample_inline infer (st_payload k) (fs_emitted s) (fs_mailbox s); s1 = s\<lparr>fs_mailbox := m\<rparr> in
          (case got of
             Inl e \<Rightarrow> (s1, Inl e)
           | Inr None \<Rightarrow> (clear_targets {} (s1\<lparr>fs_chunk := None\<rparr>), Inr None)
           | Inr (Some rows) \<Rightarrow>
               (let s2 = s1\<lparr>fs_chunk := Some rows, fs_chunk_index := 0, fs_targets := (fs_targets s1)\<lparr>ft_steps_since_boundary := 0\<rparr>\<rparr>
                in (s2\<lparr>fs_overlay := publish_chunk_overlay (sc_flow c) (st_arm_mask k) (fs_targets s2) (Some rows)
                         (current_chunk_execute_limit (sc_flow c) s2) (fs_scheduler s2) (fs_overlay_payload s2) (fs_overlay s2)\<rparr>, Inr (Some rows))))
      else (s, Inr (fs_chunk s)))"

definition next_intent_sync :: "FlowNumerics \<Rightarrow> SourceConfig \<Rightarrow> (InferRequest \<Rightarrow> Inference) \<Rightarrow> SourceTick \<Rightarrow> GripperInputs \<Rightarrow> FlowStream
    \<Rightarrow> FlowStream \<times> GripperCommand list \<times> CommandIntent option res" where
  "next_intent_sync nm c infer k g s =
     (case ensure_reset_poses (st_payload k) s of
        (s0, Inl e) \<Rightarrow> (s0, [], Inl e)
      | (s0, Inr _) \<Rightarrow>
          (case sync_chunk c infer k s0 of
             (s1, Inl e) \<Rightarrow> (s1, [], Inl e)
           | (s1, Inr None) \<Rightarrow> (s1, [], Inr None)
           | (s1, Inr (Some rows)) \<Rightarrow>
               (let i = fs_chunk_index s1; fc = sc_flow c in
                if length rows \<le> i then (s1, [], Inl (IndexError ''index is out of bounds for axis 0''))
                else let s2 = s1\<lparr>fs_chunk_index := i + 1\<rparr> in
                  (case gripper_row_step (fn_round nm) (fc_gripper fc) (fs_gripper s2) (g, gripper_step_row (fc_gripper fc) rows i, st_payload k) of
                     (gs, Inl e) \<Rightarrow> (s2\<lparr>fs_gripper := gs\<rparr>, [], Inl e)
                   | (gs, Inr (grip, commands)) \<Rightarrow>
                       (case emit_step_intent nm fc (st_arm_mask k) (rows ! i) (st_payload k) grip (fs_targets s2) of
                          (t, out) \<Rightarrow> (s2\<lparr>fs_gripper := gs, fs_targets := t\<rparr>, commands, out))))))"

definition policy_intent :: "FlowNumerics \<Rightarrow> SourceConfig \<Rightarrow> (InferRequest \<Rightarrow> Inference) \<Rightarrow> SourceTick \<Rightarrow> FlowSource
    \<Rightarrow> FlowSource \<times> GripperCommand list \<times> CommandIntent option res" where
  "policy_intent nm c infer k s =
     (let ft = flow_tick c k s;
          (st, commands, out) = (if sc_enable_async_chunking c then next_intent_streamed nm (sc_flow c) infer ft (so_stream s)
                                 else next_intent_sync nm c infer k (tk_gripper ft) (so_stream s))
      in (s\<lparr>so_stream := st\<rparr>, commands, res_bind out (\<lambda>i. Inr (guard_preview_gripper_intent c (st_arm_mask k) s i))))"

definition next_intent :: "FlowNumerics \<Rightarrow> SourceConfig \<Rightarrow> (InferRequest \<Rightarrow> Inference) \<Rightarrow> SourceTick \<Rightarrow> FlowSource
    \<Rightarrow> FlowSource \<times> GripperCommand list \<times> CommandIntent option res" where
  "next_intent nm c infer k s =
     (case res_bind (require_chunk_execution_profile c (st_payload k)) (\<lambda>_. require_force_control_tare (st_arm_mask k) (st_payload k) s) of
        Inl e \<Rightarrow> (s, [], Inl e)
      | Inr _ \<Rightarrow>
          if arm_suspended_for_init (st_arm_mask k) s ArmLeft \<and> arm_suspended_for_init (st_arm_mask k) s ArmRight then (s, [], Inr None)
          else (case update_preview_recovery c k s of
                  (s1, Inl e) \<Rightarrow> (s1, [], Inl e)
                | (s1, Inr _) \<Rightarrow>
                    (case update_preview_gripper_authority c k s1 of
                       (s2, Inl e) \<Rightarrow> (s2, [], Inl e)
                     | (s2, Inr _) \<Rightarrow>
                         (case preview_recovery_intent c infer k
                            (on_stream (\<lambda>x. handle_server_motion_epoch (st_payload k) (x\<lparr>fs_overlay_payload := Some (st_payload k)\<rparr>)) s2) of
                            (s3, Inl e) \<Rightarrow> (s3, [], Inl e)
                          | (s3, Inr (True, h)) \<Rightarrow> (s3, [], Inr h)
                          | (s3, Inr (False, _)) \<Rightarrow> policy_intent nm c infer k s3))))"

section \<open>Hooks of arm initialisation\<close>

definition set_arm_init_suspension :: "string list \<Rightarrow> bool \<Rightarrow> FlowSource \<Rightarrow> FlowSource \<times> unit res" where
  "set_arm_init_suspension arms passive s =
     (if \<not> set arms \<subseteq> {''left'', ''right''} then (s, Inl (ValueError ''invalid InitMotion suspension arms''))
      else let s1 = (if passive \<and> \<not> so_init_passive s then on_stream (\<lambda>x. invalidate_policy_chunks ''external_init_start'' (clear_targets {} x)) s else s)
           in (s1\<lparr>so_init_suspended_arms := {a. side_key a \<in> set arms}, so_init_passive := passive\<rparr>, Inr ()))"

definition override_leaves_no_peer :: "(arm \<Rightarrow> pyfloat) \<Rightarrow> arm list \<Rightarrow> bool" where
  "override_leaves_no_peer am arms = (\<not> list_ex (\<lambda>a. a \<notin> set arms \<and> Fin 0 < am a) [ArmLeft, ArmRight])"

definition on_arm_init_override_start :: "(arm \<Rightarrow> pyfloat) \<Rightarrow> arm list \<Rightarrow> FlowSource \<Rightarrow> FlowSource" where
  "on_arm_init_override_start am arms =
     on_stream (\<lambda>x. let x1 = clear_targets (set arms) x in if override_leaves_no_peer am arms then invalidate_policy_chunks ''arm_init_start'' x1 else x1)"

definition on_arm_init_override_done :: "arm list \<Rightarrow> pydict \<Rightarrow> FlowSource \<Rightarrow> FlowSource" where
  "on_arm_init_override_done arms d = on_stream (\<lambda>x. invalidate_policy_chunks ''arm_init_done'' (reanchor_arms_to_snapshot d arms x))"

definition on_arm_init_override_cancel :: "arm list \<Rightarrow> pydict \<Rightarrow> FlowSource \<Rightarrow> FlowSource" where
  "on_arm_init_override_cancel arms d = on_stream (\<lambda>x. invalidate_policy_chunks ''arm_init_cancel'' (reanchor_arms_to_snapshot d arms x))"

definition on_arm_init_override_failed :: "FlowSource \<Rightarrow> FlowSource" where
  "on_arm_init_override_failed = on_stream (invalidate_policy_chunks ''arm_init_failed'')"

definition close_source :: "FlowSource \<Rightarrow> FlowSource" where
  "close_source = on_stream (\<lambda>x. x\<lparr>fs_mailbox := close_mailbox (fs_mailbox x)\<rparr>)"

section \<open>Runs\<close>

datatype SourceOp =
    SoNext SourceTick
  | SoSuspend "string list" bool
  | SoInitStart "arm \<Rightarrow> pyfloat" "arm list"
  | SoInitDone "arm list" pydict
  | SoInitCancel "arm list" pydict
  | SoInitFailed
  | SoClose

fun source_step :: "FlowNumerics \<Rightarrow> SourceConfig \<Rightarrow> (InferRequest \<Rightarrow> Inference) \<Rightarrow> FlowSource \<Rightarrow> SourceOp
    \<Rightarrow> FlowSource \<times> GripperCommand list \<times> CommandIntent option res" where
  "source_step nm c infer s (SoNext k) = next_intent nm c infer k s"
| "source_step nm c infer s (SoSuspend arms passive) = (fst (set_arm_init_suspension arms passive s), [], Inr None)"
| "source_step nm c infer s (SoInitStart am arms) = (on_arm_init_override_start am arms s, [], Inr None)"
| "source_step nm c infer s (SoInitDone arms d) = (on_arm_init_override_done arms d s, [], Inr None)"
| "source_step nm c infer s (SoInitCancel arms d) = (on_arm_init_override_cancel arms d s, [], Inr None)"
| "source_step nm c infer s SoInitFailed = (on_arm_init_override_failed s, [], Inr None)"
| "source_step nm c infer s SoClose = (close_source s, [], Inr None)"

end
