(* ===== verification/FlowPlayback.thy ===== *)
theory FlowPlayback
  imports FlowStream
begin

text \<open>
  What the streamed playback guarantees, in the default stitch mode: which chunk and which row of it an executed policy
  step comes from, and how fast rows can follow each other.
\<close>

section \<open>Results of the worker\<close>

text \<open>The rows and the metadata of a result are those of one inference: of a request of this generation, numbered
  after \<open>N\<close>, whose observation is not from the future.\<close>

definition inferred :: "(InferRequest \<Rightarrow> Inference) \<Rightarrow> int \<Rightarrow> int \<Rightarrow> int \<Rightarrow> Row list \<Rightarrow> ChunkMeta \<Rightarrow> bool" where
  "inferred infer N e gen rows m =
     (\<exists>rq. inf_chunk (infer rq) = Inr (Some rows) \<and> N < rq_inference_seq rq \<and> rq_observation_step_seq rq \<le> e \<and> rq_generation rq = gen
        \<and> cm_generation m = gen \<and> cm_inference_seq m = rq_inference_seq rq \<and> cm_observation_step_seq m = rq_observation_step_seq rq)"

definition request_fresh :: "int \<Rightarrow> int \<Rightarrow> InferRequest \<Rightarrow> bool" where
  "request_fresh N e rq = (N < rq_inference_seq rq \<and> rq_observation_step_seq rq \<le> e)"

definition mail_fresh :: "(InferRequest \<Rightarrow> Inference) \<Rightarrow> int \<Rightarrow> int \<Rightarrow> Mailbox \<Rightarrow> bool" where
  "mail_fresh infer N e m =
     (N \<le> mb_inference_seq m \<and> (\<forall>rq. mb_request m = Some rq \<longrightarrow> request_fresh N e rq)
      \<and> (\<forall>rq. mb_inflight m = Some rq \<longrightarrow> rq_generation rq = mb_generation m \<longrightarrow> request_fresh N e rq)
      \<and> (\<forall>rows. mb_next_chunk m = Some rows \<longrightarrow> (\<exists>meta. mb_next_meta m = Some meta \<and> inferred infer N e (mb_generation m) rows meta)))"

lemmas mail_defs = mail_fresh_def request_fresh_def

lemma inferred_mono: "inferred infer N e gen rows m \<Longrightarrow> e \<le> e' \<Longrightarrow> inferred infer N e' gen rows m"
  by (auto simp: inferred_def)

lemma mail_fresh_mono: "mail_fresh infer N e m \<Longrightarrow> e \<le> e' \<Longrightarrow> mail_fresh infer N e' m"
  unfolding mail_defs by (meson inferred_mono order_trans)

lemma mail_fresh_candidate [simp]: "mail_fresh infer N e (m\<lparr>mb_candidate := x\<rparr>) = mail_fresh infer N e m"
  by (simp add: mail_fresh_def)

lemma mail_fresh_begin:
  assumes "mail_fresh infer N e m"
  shows "mail_fresh infer N e (worker_begin m)"
  using assms by (auto simp: worker_begin_def mail_defs split: option.splits)

lemma mail_fresh_finish:
  assumes "mail_fresh infer N e m"
  shows "mail_fresh infer N e (fst (worker_finish infer m))"
proof (cases "mb_inflight m")
  case None
  then show ?thesis using assms by (simp add: worker_finish_def)
next
  case (Some rq)
  show ?thesis
  proof (cases "rq_generation rq = mb_generation m")
    case False
    then show ?thesis using assms Some by (simp add: worker_finish_def mail_defs)
  next
    case True
    then have "request_fresh N e rq" using assms Some by (simp add: mail_fresh_def)
    then show ?thesis using assms Some True
      by (cases "inf_chunk (infer rq)") (auto simp: worker_finish_def Let_def mail_defs inferred_def)
  qed
qed

lemma mail_fresh_run: "mail_fresh infer N e m \<Longrightarrow> mail_fresh infer N e (worker_run infer ws m)"
  by (induction infer ws m rule: worker_run.induct) (simp_all add: mail_fresh_begin mail_fresh_finish)

lemma mail_fresh_request: "mail_fresh infer N e m \<Longrightarrow> mail_fresh infer N e (request_prefetch d e m)"
  by (auto simp: request_prefetch_def mail_defs)

lemma mail_fresh_take:
  assumes "mail_fresh infer N e m" and "take_prefetched m = (m', taken)"
  shows "mail_fresh infer N e m'" and "mb_generation m' = mb_generation m"
    and "taken = Some rows \<Longrightarrow> \<exists>meta. mb_candidate m' = Some meta \<and> inferred infer N e (mb_generation m') rows meta"
  using assms by (auto simp: take_prefetched_def mail_defs)

lemma mail_fresh_inline:
  assumes "mail_fresh infer N e m" and "sample_inline infer d e m = (m', got)"
  shows "mail_fresh infer N e m'" and "mb_generation m' = mb_generation m"
    and "got = Inr (Some rows) \<Longrightarrow> \<exists>meta. mb_candidate m' = Some meta \<and> inferred infer N e (mb_generation m') rows meta"
proof -
  let ?rq = "\<lparr>rq_generation = mb_generation m, rq_inference_seq = mb_inference_seq m + 1, rq_payload = d, rq_observation_step_seq = e\<rparr>"
  show "mail_fresh infer N e m'" "mb_generation m' = mb_generation m"
    using assms by (auto simp: sample_inline_def Let_def mail_defs inferred_def)
  assume g: "got = Inr (Some rows)"
  have i: "inf_chunk (infer ?rq) = Inr (Some rows)" using assms(2) g by (simp add: sample_inline_def Let_def)
  have m': "m' = m\<lparr>mb_inference_seq := mb_inference_seq m + 1, mb_candidate := Some (chunk_meta ?rq None (inf_observation_time_ns (infer ?rq)))\<rparr>"
    using assms(2) i by (simp add: sample_inline_def Let_def)
  have "N \<le> mb_inference_seq m" using assms(1) by (simp add: mail_fresh_def)
  then show "\<exists>meta. mb_candidate m' = Some meta \<and> inferred infer N e (mb_generation m') rows meta"
    unfolding m' inferred_def using i by (intro exI conjI) (rule refl | simp)+
qed

lemma mailbox_ok_candidate:
  "mailbox_ok m \<Longrightarrow> (\<And>x. y = Some x \<Longrightarrow> cm_generation x = mb_generation m) \<Longrightarrow> mailbox_ok (m\<lparr>mb_candidate := y\<rparr>)"
  by (auto simp: mailbox_defs split: option.splits)

lemma mailbox_ok_no_candidate: "mailbox_ok m \<Longrightarrow> mailbox_ok (m\<lparr>mb_candidate := None\<rparr>)"
  by (rule mailbox_ok_candidate) simp_all

lemma mailbox_ok_run: "mailbox_ok m \<Longrightarrow> mailbox_ok (worker_run infer ws m)"
  by (induction infer ws m rule: worker_run.induct) (simp_all add: mailbox_ok_intros)

lemma mb_generation_begin [simp]: "mb_generation (worker_begin m) = mb_generation m"
  by (simp add: worker_begin_def split: option.splits)

lemma mb_generation_finish [simp]: "mb_generation (fst (worker_finish infer m)) = mb_generation m"
  by (simp add: worker_finish_def Let_def split: option.splits)

lemma mb_generation_run [simp]: "mb_generation (worker_run infer ws m) = mb_generation m"
  by (induction infer ws m rule: worker_run.induct) simp_all

lemma mb_generation_request [simp]: "mb_generation (request_prefetch d e m) = mb_generation m"
  by (simp add: request_prefetch_def)

section \<open>The chunk being played\<close>

text \<open>The rows being played are those of one inference from the row of the activation step on, after the low-pass;
  \<open>pending\<close> says that the row at the index is still to be executed.\<close>

definition played_chunk :: "(InferRequest \<Rightarrow> Inference) \<Rightarrow> FlowConfig \<Rightarrow> int \<Rightarrow> bool \<Rightarrow> FlowStream \<Rightarrow> Row list \<Rightarrow> bool" where
  "played_chunk infer c N pending s rows =
     ((\<exists>rq raw ctx. inf_chunk (infer rq) = Inr (Some raw) \<and> N < rq_inference_seq rq \<and> rq_generation rq = mb_generation (fs_mailbox s)
        \<and> (let first = fs_emitted s - int (fs_chunk_index s) - (if pending then 0 else 1) - rq_observation_step_seq rq
           in 0 \<le> first \<and> first < int (length raw) \<and> rows = snd (band_limit_chunk (fc_knot_filter_taps c) ctx (drop (nat first) raw))))
     \<and> fs_chunk_index s < length rows)"

definition chunk_ok :: "(InferRequest \<Rightarrow> Inference) \<Rightarrow> FlowConfig \<Rightarrow> int \<Rightarrow> bool \<Rightarrow> FlowStream \<Rightarrow> bool" where
  "chunk_ok infer c N pending s = (\<forall>rows. fs_chunk s = Some rows \<longrightarrow> played_chunk infer c N pending s rows)"

text \<open>Everything else that a tick keeps, in the middle of one too.\<close>

definition mid_ok :: "(InferRequest \<Rightarrow> Inference) \<Rightarrow> int \<Rightarrow> FlowStream \<Rightarrow> bool" where
  "mid_ok infer N s =
     (mailbox_ok (fs_mailbox s) \<and> fs_scheduler s = None \<and> mail_fresh infer N (fs_emitted s) (fs_mailbox s)
      \<and> fs_resume_row_pending s = fs_candidate_published s \<and> (fs_resume_row_pending s \<longrightarrow> fs_chunk s \<noteq> None \<and> fs_chunk_index s = 0))"

definition stream_ok :: "(InferRequest \<Rightarrow> Inference) \<Rightarrow> FlowConfig \<Rightarrow> int \<Rightarrow> FlowStream \<Rightarrow> bool" where
  "stream_ok infer c N s = (mid_ok infer N s \<and> chunk_ok infer c N (fs_resume_row_pending s) s)"

lemma chunk_ok_cong:
  "fs_chunk s = fs_chunk s' \<Longrightarrow> fs_chunk_index s = fs_chunk_index s' \<Longrightarrow> fs_emitted s = fs_emitted s' \<Longrightarrow>
     mb_generation (fs_mailbox s) = mb_generation (fs_mailbox s') \<Longrightarrow> chunk_ok infer c N p s = chunk_ok infer c N p s'"
  by (simp add: chunk_ok_def played_chunk_def)

lemma stream_ok_frame [simp]:
  "stream_ok infer c N (s\<lparr>fs_reset_pose := x1\<rparr>) = stream_ok infer c N s"
  "stream_ok infer c N (s\<lparr>fs_overlay_payload := x2\<rparr>) = stream_ok infer c N s"
  "stream_ok infer c N (s\<lparr>fs_targets := x3\<rparr>) = stream_ok infer c N s"
  "stream_ok infer c N (s\<lparr>fs_gripper := x4\<rparr>) = stream_ok infer c N s"
  "stream_ok infer c N (s\<lparr>fs_overlay := x5\<rparr>) = stream_ok infer c N s"
  by (simp_all add: stream_ok_def mid_ok_def chunk_ok_def played_chunk_def)

lemma chunk_ok_None: "fs_chunk s = None \<Longrightarrow> chunk_ok infer c N p s"
  by (simp add: chunk_ok_def)

lemma mid_ok_worker: "mid_ok infer N s \<Longrightarrow> mid_ok infer N (with_worker infer k n s)"
  by (simp add: mid_ok_def with_worker_def mail_fresh_run mailbox_ok_run)

lemma mid_ok_request: "mid_ok infer N s \<Longrightarrow> mid_ok infer N (request_next d s)"
  by (simp add: mid_ok_def request_next_def mail_fresh_request mailbox_ok_request)

lemma with_worker_simps [simp]:
  "fs_chunk (with_worker infer k n s) = fs_chunk s" "fs_chunk_index (with_worker infer k n s) = fs_chunk_index s"
  "fs_emitted (with_worker infer k n s) = fs_emitted s" "mb_generation (fs_mailbox (with_worker infer k n s)) = mb_generation (fs_mailbox s)"
  "fs_resume_row_pending (with_worker infer k n s) = fs_resume_row_pending s" "fs_step_deadline (with_worker infer k n s) = fs_step_deadline s"
  "fs_scheduler (with_worker infer k n s) = fs_scheduler s" "fs_candidate_published (with_worker infer k n s) = fs_candidate_published s"
  by (simp_all add: with_worker_def)

lemma request_next_simps [simp]:
  "fs_chunk (request_next d s) = fs_chunk s" "fs_chunk_index (request_next d s) = fs_chunk_index s"
  "fs_emitted (request_next d s) = fs_emitted s" "mb_generation (fs_mailbox (request_next d s)) = mb_generation (fs_mailbox s)"
  "fs_resume_row_pending (request_next d s) = fs_resume_row_pending s" "fs_step_deadline (request_next d s) = fs_step_deadline s"
  "fs_scheduler (request_next d s) = fs_scheduler s" "fs_candidate_published (request_next d s) = fs_candidate_published s"
  by (simp_all add: request_next_def)

lemma chunk_ok_worker [simp]: "chunk_ok infer c N p (with_worker infer k n s) = chunk_ok infer c N p s"
  by (rule chunk_ok_cong) simp_all

lemma chunk_ok_request [simp]: "chunk_ok infer c N p (request_next d s) = chunk_ok infer c N p s"
  by (rule chunk_ok_cong) simp_all

text \<open>A candidate that comes with its metadata.\<close>

definition candidate_ok :: "(InferRequest \<Rightarrow> Inference) \<Rightarrow> int \<Rightarrow> Row list \<Rightarrow> FlowStream \<Rightarrow> bool" where
  "candidate_ok infer N rows s =
     (\<exists>meta. mb_candidate (fs_mailbox s) = Some meta \<and> inferred infer N (fs_emitted s) (mb_generation (fs_mailbox s)) rows meta)"

lemma take_next_ok:
  assumes "mid_ok infer N s" and "take_next s = (s', taken)"
  shows "mid_ok infer N s'" and "chunk_ok infer c N p s' = chunk_ok infer c N p s" and "fs_chunk s' = fs_chunk s"
    and "fs_chunk_index s' = fs_chunk_index s" and "fs_emitted s' = fs_emitted s" and "fs_step_deadline s' = fs_step_deadline s"
    and "fs_resume_row_pending s' = fs_resume_row_pending s" and "taken = Some rows \<Longrightarrow> candidate_ok infer N rows s'"
proof -
  obtain m where m: "take_prefetched (fs_mailbox s) = (m, taken)" and s': "s' = s\<lparr>fs_mailbox := m\<rparr>"
    using assms(2) by (auto simp: take_next_def split: prod.splits)
  note T = mail_fresh_take [OF _ m, of infer N "fs_emitted s"]
  have ok: "mailbox_ok m" using mailbox_ok_take [of "fs_mailbox s"] assms(1) m by (simp add: mid_ok_def)
  show "mid_ok infer N s'" using assms(1) T(1) ok by (simp add: mid_ok_def s')
  show "chunk_ok infer c N p s' = chunk_ok infer c N p s" using assms(1) T(2) by (intro chunk_ok_cong) (simp_all add: s' mid_ok_def)
  show "taken = Some rows \<Longrightarrow> candidate_ok infer N rows s'" using assms(1) T(3) by (simp add: candidate_ok_def s' mid_ok_def)
qed (use assms(2) in \<open>auto simp: take_next_def split: prod.splits\<close>)

text \<open>Activation: what is played from now on is the candidate from the row of this policy step on, or nothing.\<close>

lemma activate_chunk_frame:
  "fs_emitted (activate_chunk c am rows now p s) = fs_emitted s"
  "fs_scheduler (activate_chunk c am rows now p s) = fs_scheduler s"
  "fs_resume_row_pending (activate_chunk c am rows now p s) = fs_resume_row_pending s"
  "fs_candidate_published (activate_chunk c am rows now p s) = fs_candidate_published s"
  "fs_mailbox (activate_chunk c am rows now p s) = (fs_mailbox s)\<lparr>mb_candidate := None\<rparr>"
  "fs_chunk (activate_chunk c am rows now p s) = None \<Longrightarrow> fs_step_deadline (activate_chunk c am rows now p s) = fs_step_deadline s"
  "fs_chunk (activate_chunk c am rows now p s) \<noteq> None \<Longrightarrow> fs_chunk_index (activate_chunk c am rows now p s) = 0
     \<and> fs_step_deadline (activate_chunk c am rows now p s) = (if p then next_step_deadline c now s else now + dl_policy_dt_sec (fc_limits c))"
  by (simp_all add: activate_chunk_def Let_def split: prod.splits if_splits)

lemma activate_chunk_ok:
  assumes "mid_ok infer N s" and "candidate_ok infer N rows s" and "\<not> fs_resume_row_pending s"
  shows "mid_ok infer N (activate_chunk c am rows now p s)" and "chunk_ok infer c N True (activate_chunk c am rows now p s)"
proof -
  let ?s = "activate_chunk c am rows now p s"
  have mb: "mailbox_ok ((fs_mailbox s)\<lparr>mb_candidate := None\<rparr>)" using assms(1) by (simp add: mid_ok_def mailbox_ok_no_candidate)
  then show "mid_ok infer N ?s" using assms(1,3) by (simp add: mid_ok_def activate_chunk_frame)
  obtain meta rq where cand: "mb_candidate (fs_mailbox s) = Some meta" and rq: "inf_chunk (infer rq) = Inr (Some rows)"
    "N < rq_inference_seq rq" "rq_observation_step_seq rq \<le> fs_emitted s" "rq_generation rq = mb_generation (fs_mailbox s)"
    "cm_observation_step_seq meta = rq_observation_step_seq rq"
    using assms(2) unfolding candidate_ok_def inferred_def by blast
  define start where "start = fs_emitted s - rq_observation_step_seq rq"
  have start: "0 \<le> start" "nat (max 0 (fs_emitted s - cm_observation_step_seq meta)) = nat start" using rq(3,5) by (simp_all add: start_def)
  show "chunk_ok infer c N True ?s"
  proof (cases "length rows \<le> nat start")
    case True
    then show ?thesis using cand start by (intro chunk_ok_None) (simp add: activate_chunk_def Let_def)
  next
    case False
    obtain ctx body where b: "band_limit_chunk (fc_knot_filter_taps c) (fs_filter_context s) (drop (nat start) rows) = (ctx, body)"
      by (rule prod.exhaust)
    have f: "fs_chunk ?s = Some body" "fs_chunk_index ?s = 0" "fs_emitted ?s = fs_emitted s" "mb_generation (fs_mailbox ?s) = mb_generation (fs_mailbox s)"
      using cand start b False by (simp_all add: activate_chunk_def Let_def)
    have len: "length body = length rows - nat start"
      using length_band_limit [of "fc_knot_filter_taps c" "fs_filter_context s" "drop (nat start) rows"] b by simp
    have "start < int (length rows)" using False start(1) by linarith
    then have "played_chunk infer c N True ?s body" unfolding played_chunk_def Let_def f
      using rq b start(1) len False by (intro conjI exI [of _ rq] exI [of _ rows] exI [of _ "fs_filter_context s"]) (simp_all add: start_def)
    then show ?thesis using f(1) by (simp add: chunk_ok_def)
  qed
qed

section \<open>The first half of a tick\<close>

lemma ensure_boundary [simp]: "fc_chunk_stitch_mode c \<noteq> ''ensemble'' \<Longrightarrow> ensure_chunk_ensemble c s = (s, Inr None)"
  by (simp add: ensure_chunk_ensemble_def)

lemma kick_boundary: "mid_ok infer N s \<Longrightarrow> kick_at_window_start s = s"
  by (cases s) (simp add: kick_at_window_start_def mid_ok_def)

text \<open>The deadline after a move: a new row sets it on the grid or from now; a chunk is dropped only once it has passed.\<close>

definition deadline_moved :: "FlowConfig \<Rightarrow> real \<Rightarrow> bool \<Rightarrow> FlowStream \<Rightarrow> FlowStream \<Rightarrow> bool" where
  "deadline_moved c now row s s' =
     (if row \<and> fs_chunk s' \<noteq> None
      then fs_step_deadline s' = now + dl_policy_dt_sec (fc_limits c) \<and> (fs_chunk s \<noteq> None \<longrightarrow> fs_step_deadline s \<le> now)
           \<or> fs_step_deadline s \<le> now \<and> fs_step_deadline s' = next_step_deadline c now s
      else fs_step_deadline s' = fs_step_deadline s \<and> (fs_chunk s' = None \<longrightarrow> fs_chunk s = None \<or> fs_step_deadline s \<le> now))"

definition moved :: "(InferRequest \<Rightarrow> Inference) \<Rightarrow> FlowConfig \<Rightarrow> int \<Rightarrow> real \<Rightarrow> bool \<Rightarrow> FlowStream \<Rightarrow> FlowStream \<Rightarrow> bool" where
  "moved infer c N now row s s' =
     (mid_ok infer N s' \<and> chunk_ok infer c N row s' \<and> \<not> fs_resume_row_pending s' \<and> fs_emitted s' = fs_emitted s \<and> deadline_moved c now row s s')"

lemma deadline_moved_after:
  "deadline_moved c now True s s' \<Longrightarrow> fs_chunk s' = Some rows \<Longrightarrow> 0 < dl_policy_dt_sec (fc_limits c) \<Longrightarrow> now < fs_step_deadline s'"
  by (auto simp: deadline_moved_def next_step_deadline_def Let_def split: if_splits)

lemma moved_activate:
  assumes "mid_ok infer N s1" and "candidate_ok infer N rows s1" and "\<not> fs_resume_row_pending s1"
    and "fs_emitted s1 = fs_emitted s" and "fs_step_deadline s1 = fs_step_deadline s" and "fs_chunk s = None \<or> fs_step_deadline s \<le> now"
    and "p \<Longrightarrow> fs_step_deadline s \<le> now"
  shows "moved infer c N now True s (activate_chunk c am rows now p s1)"
  using activate_chunk_ok [OF assms(1,2,3), of c am now p] assms activate_chunk_frame [of c am rows now p s1]
  by (auto simp: moved_def deadline_moved_def next_step_deadline_def)

lemma inline_ok:
  assumes "mid_ok infer N s" and "sample_inline infer d (fs_emitted s) (fs_mailbox s) = (m, got)"
  shows "mid_ok infer N (s\<lparr>fs_mailbox := m\<rparr>)" and "got = Inr (Some rows) \<Longrightarrow> candidate_ok infer N rows (s\<lparr>fs_mailbox := m\<rparr>)"
proof -
  have fresh: "mail_fresh infer N (fs_emitted s) (fs_mailbox s)" and ok: "mailbox_ok m"
    using assms mailbox_ok_inline [of "fs_mailbox s" infer d "fs_emitted s"] by (simp_all add: mid_ok_def)
  note I = mail_fresh_inline [OF fresh assms(2)]
  show "mid_ok infer N (s\<lparr>fs_mailbox := m\<rparr>)" using assms(1) I(1) ok by (simp add: mid_ok_def)
  show "got = Inr (Some rows) \<Longrightarrow> candidate_ok infer N rows (s\<lparr>fs_mailbox := m\<rparr>)" using I(3) by (simp add: candidate_ok_def)
qed

lemma fetch_chunk_ok:
  assumes ok: "mid_ok infer N s" and a: "fetch_chunk c infer k s = (s3, got)"
  shows "mid_ok infer N s3" and "got = Inr (Some rows) \<Longrightarrow> candidate_ok infer N rows s3" and "fs_chunk s3 = fs_chunk s"
    and "fs_emitted s3 = fs_emitted s" and "fs_step_deadline s3 = fs_step_deadline s" and "fs_resume_row_pending s3 = fs_resume_row_pending s"
proof -
  obtain s1 taken where t: "take_next (with_worker infer k 0 s) = (s1, taken)" by (rule prod.exhaust)
  note T = take_next_ok [OF mid_ok_worker [OF ok] t]
  define s2 where "s2 = with_worker infer k 1 s1"
  have ok2: "mid_ok infer N s2" using T(1) by (simp add: s2_def mid_ok_worker)
  have cand2: "candidate_ok infer N rows s2" if "taken = Some rows" for rows
  proof -
    have "mb_candidate (worker_run infer ws m) = mb_candidate m" for ws and m :: Mailbox
      by (induction infer ws m rule: worker_run.induct)
         (simp_all add: worker_begin_def worker_finish_def Let_def split: option.splits)
    then show ?thesis using T(8) [OF that] by (simp add: candidate_ok_def s2_def with_worker_def)
  qed
  obtain m r0 where i: "sample_inline infer (tk_payload k) (fs_emitted s2) (fs_mailbox s2) = (m, r0)" by (rule prod.exhaust)
  note I = inline_ok [OF ok2 i]
  have out: "s3 = s2\<lparr>fs_mailbox := m\<rparr> \<and> got = r0 \<or> s3 = s2 \<and> got = Inr taken"
    using a t i by (auto simp: fetch_chunk_def Let_def s2_def [symmetric] simp del: One_nat_def split: if_splits)
  then show "mid_ok infer N s3" "got = Inr (Some rows) \<Longrightarrow> candidate_ok infer N rows s3" using ok2 I cand2 by auto
  show "fs_chunk s3 = fs_chunk s" "fs_emitted s3 = fs_emitted s" "fs_step_deadline s3 = fs_step_deadline s"
    "fs_resume_row_pending s3 = fs_resume_row_pending s" using out T(3-7) by (auto simp: s2_def)
qed

lemma acquire_chunk_ok:
  assumes b: "fc_chunk_stitch_mode c \<noteq> ''ensemble''" and ok: "mid_ok infer N s" and n: "fs_chunk s = None"
    and r: "\<not> fs_resume_row_pending s" and a: "acquire_chunk c infer k s = (s', Inr mv)"
  shows "moved infer c N (tk_now k) (mv = MvRow) s s' \<and> mv \<noteq> MvKeep"
proof -
  obtain s3 got where f: "fetch_chunk c infer k s = (s3, got)" by (rule prod.exhaust)
  note F = fetch_chunk_ok [OF ok f]
  have f3: "fs_chunk s3 = None" "\<not> fs_resume_row_pending s3" using F(3,6) n r by simp_all
  show ?thesis
  proof (cases got)
    case (Inl e)
    then show ?thesis using a f by (simp add: acquire_chunk_def)
  next
    case (Inr x)
    show ?thesis
    proof (cases x)
      case None
      let ?s4 = "request_next (tk_payload k) (with_worker infer k 2 s3)"
      have ok4: "mid_ok infer N ?s4" using F(1) by (simp add: mid_ok_worker mid_ok_request)
      then have "s' = ?s4" "\<exists>i. mv = MvReturn i" using a b f Inr None kick_boundary [OF ok4] by (auto simp: acquire_chunk_def)
      then show ?thesis using ok4 F(4,5) f3 n by (auto simp: moved_def deadline_moved_def chunk_ok_None)
    next
      case (Some rows)
      then have "s' = activate_chunk c (gi_arm_mask (tk_gripper k)) rows (tk_now k) False s3" "mv = MvRow"
        using a b f Inr by (simp_all add: acquire_chunk_def)
      then show ?thesis using moved_activate [OF F(1) F(2) f3(2) F(4,5), of rows] Inr Some n by auto
    qed
  qed
qed

lemma boundary_stall_ok:
  assumes ok: "mid_ok infer N s1" and r: "\<not> fs_resume_row_pending s1" and e: "fs_emitted s1 = fs_emitted s" "fs_step_deadline s1 = fs_step_deadline s"
    and d: "fs_step_deadline s \<le> tk_now k" and a: "boundary_stall nm c infer k s1 = (s', Inr mv)"
  shows "moved infer c N (tk_now k) (mv = MvRow) s s' \<and> mv \<noteq> MvKeep"
proof -
  define s0 where "s0 = s1\<lparr>fs_stall_count := fs_stall_count s1 + 1, fs_chunk := None\<rparr>"
  define s2 where "s2 = request_next (tk_payload k) (with_worker infer k 3 s0)"
  have "mid_ok infer N s0" using ok r by (simp add: s0_def mid_ok_def)
  then have ok2: "mid_ok infer N s2" by (simp add: s2_def mid_ok_worker mid_ok_request)
  have f: "fs_chunk s2 = None" "fs_emitted s2 = fs_emitted s" "fs_step_deadline s2 = fs_step_deadline s" "\<not> fs_resume_row_pending s2"
    using r e by (simp_all add: s2_def s0_def)
  have "\<exists>t i. mv = MvReturn i \<and> (s' = s2 \<or> s' = s2\<lparr>fs_targets := t, fs_current_step_intent := i\<rparr>)"
    using a kick_boundary [OF ok2] by (auto simp: boundary_stall_def Let_def s0_def [symmetric] s2_def [symmetric] split: if_splits prod.splits sum.splits)
  then show ?thesis using ok2 f d by (auto simp: moved_def deadline_moved_def mid_ok_def chunk_ok_None)
qed

lemma cross_boundary_ok:
  assumes b: "fc_chunk_stitch_mode c \<noteq> ''ensemble''" and ok: "mid_ok infer N s1" and r: "\<not> fs_resume_row_pending s1"
    and e: "fs_emitted s1 = fs_emitted s" "fs_step_deadline s1 = fs_step_deadline s" and d: "fs_step_deadline s \<le> tk_now k"
    and a: "cross_boundary nm c infer k s1 = (s', Inr mv)"
  shows "moved infer c N (tk_now k) (mv = MvRow) s s' \<and> mv \<noteq> MvKeep"
proof -
  obtain s2 taken where t: "take_next (with_worker infer k 2 s1) = (s2, taken)" by (rule prod.exhaust)
  note T = take_next_ok [OF mid_ok_worker [OF ok] t]
  have f: "\<not> fs_resume_row_pending s2" "fs_emitted s2 = fs_emitted s" "fs_step_deadline s2 = fs_step_deadline s"
    using T(5-7) r e by simp_all
  show ?thesis
  proof (cases taken)
    case None
    then have "boundary_stall nm c infer k s2 = (s', Inr mv)" using a b t by (simp add: cross_boundary_def)
    from boundary_stall_ok [OF T(1) f d this] show ?thesis .
  next
    case (Some rows)
    then have "s' = activate_chunk c (gi_arm_mask (tk_gripper k)) rows (tk_now k) False s2" "mv = MvRow"
      using a b t by (simp_all add: cross_boundary_def)
    then show ?thesis using moved_activate [OF T(1) T(8) [OF Some] f, of "tk_now k" False] d by simp
  qed
qed

lemma try_ready_ok:
  assumes ok: "mid_ok infer N s" and ck: "chunk_ok infer c N False s" and r: "\<not> fs_resume_row_pending s"
    and d: "fs_step_deadline s \<le> tk_now k" and a: "try_ready_event_activation c infer k s = (s', done)"
  shows "if done then moved infer c N (tk_now k) True s s'
         else mid_ok infer N s' \<and> chunk_ok infer c N False s' \<and> \<not> fs_resume_row_pending s' \<and> fs_emitted s' = fs_emitted s
              \<and> fs_step_deadline s' = fs_step_deadline s \<and> fs_chunk s' = fs_chunk s \<and> fs_chunk_index s' = fs_chunk_index s"
proof -
  define s0 where "s0 = with_worker infer k 0 s"
  have ok0: "mid_ok infer N s0" "chunk_ok infer c N False s0" using ok ck by (simp_all add: s0_def mid_ok_worker)
  obtain s1 taken where t: "take_next (with_worker infer k 1 s0) = (s1, taken)" by (rule prod.exhaust)
  note T = take_next_ok [OF mid_ok_worker [OF ok0(1)] t]
  have ck1: "chunk_ok infer c N False s1" using T(2) ok0(2) by simp
  have f1: "\<not> fs_resume_row_pending s1" "fs_emitted s1 = fs_emitted s" "fs_step_deadline s1 = fs_step_deadline s" "fs_chunk s1 = fs_chunk s"
    "fs_chunk_index s1 = fs_chunk_index s" using T(3-7) r by (simp_all add: s0_def)
  consider (guard) "freeze_guard_holds c s0" | (none) "\<not> freeze_guard_holds c s0" "taken = None"
    | (some) rows where "\<not> freeze_guard_holds c s0" "taken = Some rows" by (cases taken) auto
  then show ?thesis
  proof cases
    case guard
    then have "s' = s0\<lparr>fs_freeze_guard_waits := fs_freeze_guard_waits s0 + 1\<rparr>" "\<not> done"
      using a by (simp_all add: try_ready_event_activation_def s0_def [symmetric])
    then show ?thesis using ok0 r by (auto simp: mid_ok_def s0_def chunk_ok_def played_chunk_def)
  next
    case none
    then have "s' = s1" "\<not> done" using a t by (simp_all add: try_ready_event_activation_def s0_def [symmetric])
    then show ?thesis using T(1) ck1 f1 by simp
  next
    case some
    define w where "w = fs_freeze_guard_waits s1"
    define s2 where "s2 = (if w = 0 then s1 else s1\<lparr>fs_mailbox := (fs_mailbox s1)\<lparr>mb_candidate := map_option (\<lambda>m. m\<lparr>cm_freeze_guard_waits := w\<rparr>)
        (mb_candidate (fs_mailbox s1))\<rparr>, fs_freeze_guard_waits := 0\<rparr>)"
    have mb: "mailbox_ok (fs_mailbox s1)" using T(1) by (simp add: mid_ok_def)
    have "\<And>x. mb_candidate (fs_mailbox s1) = Some x \<Longrightarrow> cm_generation x = mb_generation (fs_mailbox s1)" using mb by (simp add: mailbox_ok_def)
    then have "mailbox_ok (fs_mailbox s2)" using mb by (auto simp: s2_def intro!: mailbox_ok_candidate)
    then have ok2: "mid_ok infer N s2" using T(1) by (simp add: mid_ok_def s2_def)
    have ck2: "chunk_ok infer c N False s2" using ck1 by (auto simp: s2_def chunk_ok_def played_chunk_def)
    have c2: "candidate_ok infer N rows s2" using T(8) [OF some(2)] by (auto simp: s2_def candidate_ok_def inferred_def)
    have f2: "\<not> fs_resume_row_pending s2" "fs_emitted s2 = fs_emitted s" "fs_step_deadline s2 = fs_step_deadline s" "fs_chunk s2 = fs_chunk s"
      "fs_chunk_index s2 = fs_chunk_index s" using f1 by (simp_all add: s2_def)
    have a': "(if ready_candidate_invalid rows s2
        then (s2\<lparr>fs_ready_discard_count := fs_ready_discard_count s2 + 1, fs_mailbox := (fs_mailbox s2)\<lparr>mb_candidate := None\<rparr>\<rparr>, False)
        else (activate_chunk c (gi_arm_mask (tk_gripper k)) rows (tk_now k) True s2, True)) = (s', done)"
      unfolding s2_def w_def using a t some by (simp only: try_ready_event_activation_def s0_def [symmetric] Let_def prod.case option.case if_False not_False_eq_True simp_thms)
    show ?thesis
    proof (cases "ready_candidate_invalid rows s2")
      case True
      then have "s' = s2\<lparr>fs_ready_discard_count := fs_ready_discard_count s2 + 1, fs_mailbox := (fs_mailbox s2)\<lparr>mb_candidate := None\<rparr>\<rparr>" "\<not> done"
        using a' by auto
      then show ?thesis using ok2 ck2 f2 by (simp add: mid_ok_def mailbox_ok_no_candidate chunk_ok_def played_chunk_def)
    next
      case False
      then have "s' = activate_chunk c (gi_arm_mask (tk_gripper k)) rows (tk_now k) True s2" "done" using a' by auto
      then show ?thesis using moved_activate [OF ok2 c2 f2(1,2,3), of "tk_now k" True] d by simp
    qed
  qed
qed

lemma next_row_ok:
  assumes ok: "mid_ok infer N s1" and ck: "chunk_ok infer c N False s1" and r: "\<not> fs_resume_row_pending s1"
    and e: "fs_emitted s1 = fs_emitted s" "fs_step_deadline s1 = fs_step_deadline s" and d: "fs_step_deadline s \<le> now"
    and i: "int (fs_chunk_index s1) + 1 < current_chunk_execute_limit c s1"
  shows "moved infer c N now True s (s1\<lparr>fs_chunk_index := fs_chunk_index s1 + 1, fs_step_deadline := next_step_deadline c now s1\<rparr>)"
proof -
  let ?s = "s1\<lparr>fs_chunk_index := fs_chunk_index s1 + 1, fs_step_deadline := next_step_deadline c now s1\<rparr>"
  have "chunk_ok infer c N True ?s" unfolding chunk_ok_def
  proof (intro allI impI)
    fix rows assume "fs_chunk ?s = Some rows"
    then have rows: "fs_chunk s1 = Some rows" by simp
    then have p: "played_chunk infer c N False s1 rows" using ck by (simp add: chunk_ok_def)
    have "fs_chunk_index s1 + 1 < length rows" using i rows ok by (simp add: current_chunk_execute_limit_def mid_ok_def)
    then show "played_chunk infer c N True ?s rows" using p by (simp add: played_chunk_def algebra_simps)
  qed
  moreover have "fs_chunk s1 \<noteq> None" using i by (cases "fs_chunk s1") (simp_all add: current_chunk_execute_limit_def)
  ultimately show ?thesis using ok r e d by (auto simp: moved_def mid_ok_def deadline_moved_def next_step_deadline_def Let_def)
qed

lemma step_due_ok:
  assumes b: "fc_chunk_stitch_mode c \<noteq> ''ensemble''" and ok: "mid_ok infer N s" and ck: "chunk_ok infer c N False s"
    and r: "\<not> fs_resume_row_pending s" and d: "fs_step_deadline s \<le> tk_now k" and a: "step_due nm c infer k s = (s', Inr mv)"
  shows "moved infer c N (tk_now k) (mv = MvRow) s s' \<and> mv \<noteq> MvKeep"
proof -
  obtain s1 dn where t: "(if fc_chunk_activation_mode c = ''ready_event'' then try_ready_event_activation c infer k s else (s, False)) = (s1, dn)"
    by (rule prod.exhaust)
  have T: "if dn then moved infer c N (tk_now k) True s s1
         else mid_ok infer N s1 \<and> chunk_ok infer c N False s1 \<and> \<not> fs_resume_row_pending s1 \<and> fs_emitted s1 = fs_emitted s
              \<and> fs_step_deadline s1 = fs_step_deadline s"
    using t try_ready_ok [OF ok ck r d, of s1 dn] ok ck r by (auto split: if_splits)
  have a': "(if dn then (s1, Inr MvRow)
      else if int (fs_chunk_index s1) + 1 < current_chunk_execute_limit c s1
        then (s1\<lparr>fs_chunk_index := fs_chunk_index s1 + 1, fs_step_deadline := next_step_deadline c (tk_now k) s1\<rparr>, Inr MvRow)
      else cross_boundary nm c infer k s1) = (s', Inr mv)"
    using a t by (simp only: step_due_def Let_def prod.case)
  show ?thesis
  proof (cases dn)
    case True
    then show ?thesis using T a' by auto
  next
    case False
    then have T': "mid_ok infer N s1" "chunk_ok infer c N False s1" "\<not> fs_resume_row_pending s1" "fs_emitted s1 = fs_emitted s"
      "fs_step_deadline s1 = fs_step_deadline s" using T by simp_all
    show ?thesis
    proof (cases "int (fs_chunk_index s1) + 1 < current_chunk_execute_limit c s1")
      case True
      then show ?thesis using next_row_ok [OF T' d True] a' False by auto
    next
      case False
      then have "cross_boundary nm c infer k s1 = (s', Inr mv)" using a' \<open>\<not> dn\<close> by simp
      from cross_boundary_ok [OF b T'(1,3,4,5) d this] show ?thesis .
    qed
  qed
qed

lemma advance_stream_ok:
  assumes b: "fc_chunk_stitch_mode c \<noteq> ''ensemble''" and ok: "stream_ok infer c N s" and a: "advance_stream nm c infer k s = (s', Inr mv)"
  shows "mid_ok infer N s' \<and> chunk_ok infer c N (mv = MvRow) s' \<and> \<not> fs_resume_row_pending s' \<and> fs_emitted s' = fs_emitted s
    \<and> (\<not> fs_resume_row_pending s \<longrightarrow> deadline_moved c (tk_now k) (mv = MvRow) s s')
    \<and> (mv = MvRow \<longrightarrow> fs_chunk s' \<noteq> None \<longrightarrow> \<not> fs_resume_row_pending s \<longrightarrow> fs_chunk s = None \<or> fs_step_deadline s \<le> tk_now k)
    \<and> (mv = MvRow \<longrightarrow> fs_chunk s' \<noteq> None \<longrightarrow> 0 < dl_policy_dt_sec (fc_limits c) \<longrightarrow> tk_now k < fs_step_deadline s')"
proof (cases "fs_resume_row_pending s")
  case True
  let ?s = "s\<lparr>fs_resume_row_pending := False, fs_candidate_published := False, fs_chunk_index := 0,
                fs_step_deadline := tk_now k + dl_policy_dt_sec (fc_limits c)\<rparr>"
  have idx: "fs_chunk s \<noteq> None" "fs_chunk_index s = 0" using ok True by (auto simp: stream_ok_def mid_ok_def)
  then have "s' = ?s" "mv = MvRow" using a True by (auto simp: advance_stream_def)
  moreover have "chunk_ok infer c N True ?s" using ok True idx by (auto simp: stream_ok_def chunk_ok_def played_chunk_def)
  ultimately show ?thesis using ok True by (simp add: stream_ok_def mid_ok_def)
next
  case False
  then have ok': "mid_ok infer N s" "chunk_ok infer c N False s" using ok by (simp_all add: stream_ok_def)
  consider (none) "fs_chunk s = None" | (due) "fs_chunk s \<noteq> None" "fs_step_deadline s \<le> tk_now k"
    | (wait) "fs_chunk s \<noteq> None" "\<not> fs_step_deadline s \<le> tk_now k" by blast
  then show ?thesis
  proof cases
    case none
    then have "acquire_chunk c infer k s = (s', Inr mv)" using a False by (simp add: advance_stream_def)
    from acquire_chunk_ok [OF b ok'(1) none False this] none show ?thesis by (auto simp: moved_def dest: deadline_moved_after)
  next
    case due
    then have "step_due nm c infer k s = (s', Inr mv)" using a False by (auto simp: advance_stream_def)
    from step_due_ok [OF b ok' False due(2) this] due show ?thesis by (auto simp: moved_def dest: deadline_moved_after)
  next
    case wait
    then have "s' = s" "mv = MvKeep" using a False by (auto simp: advance_stream_def)
    then show ?thesis using ok' False wait by (simp add: deadline_moved_def)
  qed
qed

section \<open>The second half\<close>

lemma kick_prefetch_ok:
  assumes "mid_ok infer N s"
  shows "mid_ok infer N (kick_prefetch c infer k s)" and "chunk_ok infer c' N p (kick_prefetch c infer k s) = chunk_ok infer c' N p s"
    and "fs_chunk (kick_prefetch c infer k s) = fs_chunk s" and "fs_chunk_index (kick_prefetch c infer k s) = fs_chunk_index s"
    and "fs_emitted (kick_prefetch c infer k s) = fs_emitted s" and "fs_step_deadline (kick_prefetch c infer k s) = fs_step_deadline s"
    and "fs_resume_row_pending (kick_prefetch c infer k s) = fs_resume_row_pending s"
proof -
  define s0 s1 where "s0 = with_worker infer k 4 s" and "s1 = request_next (tk_payload k) (with_worker infer k 5 s0)"
  have ok: "mid_ok infer N s0" "mid_ok infer N s1" using assms by (simp_all add: s0_def s1_def mid_ok_worker mid_ok_request)
  have "s1\<lparr>fs_scheduler := map_option f (fs_scheduler s1)\<rparr> = s1" for f using ok(2) by (cases s1) (simp add: mid_ok_def)
  then have "kick_prefetch c infer k s = s1 \<or> kick_prefetch c infer k s = s0"
    by (simp add: kick_prefetch_def Let_def s0_def [symmetric] s1_def [symmetric])
  then show "mid_ok infer N (kick_prefetch c infer k s)" "chunk_ok infer c' N p (kick_prefetch c infer k s) = chunk_ok infer c' N p s"
    "fs_chunk (kick_prefetch c infer k s) = fs_chunk s" "fs_chunk_index (kick_prefetch c infer k s) = fs_chunk_index s"
    "fs_emitted (kick_prefetch c infer k s) = fs_emitted s" "fs_step_deadline (kick_prefetch c infer k s) = fs_step_deadline s"
    "fs_resume_row_pending (kick_prefetch c infer k s) = fs_resume_row_pending s"
    using ok by (auto simp: s0_def s1_def)
qed

lemma execute_row_frame:
  assumes "execute_row nm c k rows s = (s', cmds, Inr out)"
  shows "fs_mailbox s' = fs_mailbox s" "fs_chunk s' = fs_chunk s" "fs_chunk_index s' = fs_chunk_index s" "fs_emitted s' = fs_emitted s + 1"
    "fs_scheduler s' = fs_scheduler s" "fs_resume_row_pending s' = fs_resume_row_pending s" "fs_candidate_published s' = fs_candidate_published s"
    "fs_step_deadline s' = fs_step_deadline s"
  using assms by (auto simp: execute_row_def Let_def split: prod.splits sum.splits)

lemma finish_stream_tick_frame:
  assumes "finish_stream_tick nm c k advanced s = (s', cmds, Inr out)"
  shows "fs_mailbox s' = fs_mailbox s \<and> fs_chunk s' = fs_chunk s \<and> fs_chunk_index s' = fs_chunk_index s
    \<and> fs_emitted s' = fs_emitted s + (if advanced \<and> fs_chunk s \<noteq> None then 1 else 0) \<and> fs_scheduler s' = fs_scheduler s
    \<and> fs_resume_row_pending s' = fs_resume_row_pending s \<and> fs_candidate_published s' = fs_candidate_published s
    \<and> fs_step_deadline s' = fs_step_deadline s"
proof (cases "fs_chunk s")
  case None
  then show ?thesis using assms by (simp add: finish_stream_tick_def)
next
  case (Some rows)
  note E = execute_row_frame [of nm c k rows s s' cmds out]
  show ?thesis using assms Some E by (auto simp: finish_stream_tick_def split: if_splits prod.splits sum.splits)
qed

lemma ensure_reset_frame:
  assumes "ensure_reset_poses d s = (s', out)"
  shows "s' = s\<lparr>fs_reset_pose := fs_reset_pose s'\<rparr>"
  using assms by (cases s) (auto simp: ensure_reset_poses_def Let_def split: if_splits sum.splits)

text \<open>A whole tick: whether it executed a row, and which.\<close>

definition tick_spec :: "(InferRequest \<Rightarrow> Inference) \<Rightarrow> FlowConfig \<Rightarrow> int \<Rightarrow> real \<Rightarrow> FlowStream \<Rightarrow> FlowStream \<Rightarrow> bool" where
  "tick_spec infer c N now s s' =
     (stream_ok infer c N s' \<and> \<not> fs_resume_row_pending s'
      \<and> (\<exists>row. fs_emitted s' = fs_emitted s + (if row then 1 else 0) \<and> (row \<longrightarrow> fs_chunk s' \<noteq> None)
           \<and> (row \<longrightarrow> 0 < dl_policy_dt_sec (fc_limits c) \<longrightarrow> now < fs_step_deadline s')
           \<and> (\<not> fs_resume_row_pending s \<longrightarrow>
                deadline_moved c now row s s' \<and> (row \<longrightarrow> fs_chunk s = None \<or> fs_step_deadline s \<le> now))))"

lemma tick_ok:
  assumes b: "fc_chunk_stitch_mode c \<noteq> ''ensemble''" and ok: "stream_ok infer c N s"
    and a: "next_intent_streamed nm c infer k s = (s', cmds, Inr out)"
  shows "tick_spec infer c N (tk_now k) s s'"
proof -
  define sp where "sp = s\<lparr>fs_overlay_payload := Some (tk_payload k)\<rparr>"
  obtain s0 u where e: "ensure_reset_poses (tk_payload k) sp = (s0, u)" by (rule prod.exhaust)
  have s0: "s0 = sp\<lparr>fs_reset_pose := fs_reset_pose s0\<rparr>" by (rule ensure_reset_frame [OF e])
  have ok0: "stream_ok infer c N s0"
    using ok by (subst s0) (simp add: sp_def)
  have f0: "fs_chunk s0 = fs_chunk s" "fs_emitted s0 = fs_emitted s" "fs_step_deadline s0 = fs_step_deadline s"
    "fs_resume_row_pending s0 = fs_resume_row_pending s" by (subst s0, simp add: sp_def)+
  obtain s1 x where m: "advance_stream nm c infer k s0 = (s1, x)" by (rule prod.exhaust)
  obtain mv where x: "x = Inr mv" and u: "u = Inr ()"
    using a e m by (cases x; cases u) (simp_all add: next_intent_streamed_def sp_def)
  note M = advance_stream_ok [OF b ok0 m [unfolded x]]
  show ?thesis
  proof (cases "\<exists>i. mv = MvReturn i")
    case True
    then have "s' = s1" "mv \<noteq> MvRow" using a e m x u by (auto simp: next_intent_streamed_def sp_def)
    then show ?thesis using M f0 by (auto simp: tick_spec_def stream_ok_def deadline_moved_def intro!: exI [of _ False])
  next
    case False
    define s2 where "s2 = kick_prefetch c infer k s1"
    have t: "finish_stream_tick nm c k (mv = MvRow) s2 = (s', cmds, Inr out)"
      using a e m x u False by (cases mv) (simp_all add: next_intent_streamed_def sp_def s2_def)
    note F = finish_stream_tick_frame [OF t]
    have "mid_ok infer N s1" using M by blast
    note K = kick_prefetch_ok [OF this, where c = c and k = k, folded s2_def]
    define row where "row = (mv = MvRow \<and> fs_chunk s1 \<noteq> None)"
    have e': "fs_emitted s' = fs_emitted s + (if row then 1 else 0)" using F K M f0 by (simp add: row_def)
    have "chunk_ok infer c N (mv = MvRow) s2" using K(2) M by blast
    then have ck: "chunk_ok infer c N False s'"
      using F K(3) by (cases "mv = MvRow") (auto simp: chunk_ok_def played_chunk_def algebra_simps)
    have "mid_ok infer N s'" using K(1) F mail_fresh_mono [of infer N "fs_emitted s2" "fs_mailbox s2" "fs_emitted s'"]
      by (simp add: mid_ok_def)
    moreover have "\<not> fs_resume_row_pending s'" using F K M by simp
    moreover have "row \<longrightarrow> fs_chunk s' \<noteq> None" using F K(3) by (simp add: row_def)
    moreover have "row \<longrightarrow> 0 < dl_policy_dt_sec (fc_limits c) \<longrightarrow> tk_now k < fs_step_deadline s'"
      using M F K(6) by (auto simp: row_def)
    moreover have "deadline_moved c (tk_now k) row s s'" if "\<not> fs_resume_row_pending s"
    proof -
      have "deadline_moved c (tk_now k) (mv = MvRow) s0 s1" using M f0(4) that by blast
      moreover have "fs_chunk s' = fs_chunk s1" "fs_step_deadline s' = fs_step_deadline s1" using F K(3,6) by simp_all
      ultimately show ?thesis unfolding row_def using f0 by (auto simp: deadline_moved_def next_step_deadline_def split: if_splits)
    qed
    moreover have "row \<longrightarrow> fs_chunk s = None \<or> fs_step_deadline s \<le> tk_now k" if "\<not> fs_resume_row_pending s"
      using M f0 that by (simp add: row_def)
    ultimately show ?thesis using ck e' unfolding tick_spec_def stream_ok_def
      by (intro conjI exI [of _ row]) ((simp only: simp_thms if_False; fail) | blast)+
  qed
qed

section \<open>The other operations\<close>

lemma recovery_ok:
  assumes ok: "stream_ok infer c N s"
  shows "stream_ok infer c N (publish_recovery_candidate c infer k epoch t s)"
proof (cases "fs_candidate_published s")
  case True
  then show ?thesis using ok by (simp add: publish_recovery_candidate_def)
next
  case False
  then have ok': "mid_ok infer N s" "chunk_ok infer c N False s" "\<not> fs_resume_row_pending s" using ok by (auto simp: stream_ok_def mid_ok_def)
  obtain s1 taken where tk: "take_next (with_worker infer k 0 s) = (s1, taken)" by (rule prod.exhaust)
  note T = take_next_ok [OF mid_ok_worker [OF ok'(1)] tk]
  have again: "stream_ok infer c N (request_next (tk_payload k) (with_worker infer k 1 x))"
    if "mid_ok infer N x" "chunk_ok infer c N False x" "\<not> fs_resume_row_pending x" for x
    using that by (simp add: stream_ok_def mid_ok_worker mid_ok_request)
  have s1: "mid_ok infer N s1" "chunk_ok infer c N False s1" "\<not> fs_resume_row_pending s1"
    using T(1,2,7) ok'(2,3) by simp_all
  show ?thesis
  proof (cases taken)
    case None
    then show ?thesis using again [OF s1] tk False by (simp add: publish_recovery_candidate_def)
  next
    case (Some rows)
    define el where "el = recovery_eligible epoch t (tk_now k) (fs_mailbox s1)"
    define s2 where "s2 = (if el then activate_chunk c (gi_arm_mask (tk_gripper k)) rows (tk_now k) False s1 else s1)"
    define s3 where "s3 = s2\<lparr>fs_ready_discard_count := fs_ready_discard_count s2 + 1, fs_mailbox := (fs_mailbox s2)\<lparr>mb_candidate := None\<rparr>\<rparr>"
    have out: "publish_recovery_candidate c infer k epoch t s =
        (if el \<and> fs_chunk s2 \<noteq> None then s2\<lparr>fs_candidate_published := True, fs_resume_row_pending := True\<rparr>
         else request_next (tk_payload k) (with_worker infer k 1 s3))"
      unfolding publish_recovery_candidate_def s3_def s2_def el_def using False tk Some by (simp only: Let_def prod.case option.case if_False)
    note A = activate_chunk_ok [OF s1(1) T(8) [OF Some] s1(3), of c "gi_arm_mask (tk_gripper k)" "tk_now k" False]
    have r2: "\<not> fs_resume_row_pending s2" using s1(3) by (simp add: s2_def activate_chunk_frame)
    have m2: "mid_ok infer N s2" using s1(1) A(1) by (simp add: s2_def)
    show ?thesis
    proof (cases "el \<and> fs_chunk s2 \<noteq> None")
      case True
      then have "fs_chunk_index s2 = 0" "chunk_ok infer c N True s2" using A(2) activate_chunk_frame(7) by (auto simp: s2_def)
      then have "stream_ok infer c N (s2\<lparr>fs_candidate_published := True, fs_resume_row_pending := True\<rparr>)"
        using m2 True by (auto simp: stream_ok_def mid_ok_def chunk_ok_def played_chunk_def)
      then show ?thesis using out True by simp
    next
      case nope: False
      have "chunk_ok infer c N False s2" using nope s1(2) by (cases el) (auto simp: s2_def intro: chunk_ok_None)
      then have "chunk_ok infer c N False s3" by (auto simp: s3_def chunk_ok_def played_chunk_def)
      moreover have "mid_ok infer N s3" using m2 by (simp add: s3_def mid_ok_def mailbox_ok_no_candidate)
      ultimately have "stream_ok infer c N (request_next (tk_payload k) (with_worker infer k 1 s3))"
        using again r2 by (simp add: s3_def)
      moreover have "publish_recovery_candidate c infer k epoch t s = request_next (tk_payload k) (with_worker infer k 1 s3)"
        unfolding out by (rule if_not_P [OF nope])
      ultimately show ?thesis by (simp only:)
    qed
  qed
qed

lemma invalidate_ok:
  assumes "mailbox_ok (fs_mailbox s)" and "fs_scheduler s = None" and "N \<le> mb_inference_seq (fs_mailbox s)"
  shows "stream_ok infer c N (invalidate_policy_chunks reason s)"
proof -
  have "rq_generation rq \<noteq> mb_generation (fs_mailbox s) + 1" if "mb_inflight (fs_mailbox s) = Some rq" for rq
    using assms(1) that by (fastforce simp: mailbox_ok_def)
  then have "mail_fresh infer N (fs_emitted s) (invalidate_mailbox (fs_mailbox s))"
    using assms(3) by (auto simp: mail_fresh_def invalidate_mailbox_def)
  then show ?thesis using assms mailbox_ok_invalidate
    by (simp add: stream_ok_def mid_ok_def invalidate_policy_chunks_def chunk_ok_def)
qed

lemma reanchor_ok: "stream_ok infer c N (reanchor_arms_to_snapshot d as s) = stream_ok infer c N s"
  by (induction d as s rule: reanchor_arms_to_snapshot.induct) (simp_all add: Let_def split: sum.splits)

lemma clear_targets_ok: "stream_ok infer c N (clear_targets arms s) = stream_ok infer c N s"
  by (simp add: clear_targets_def split: prod.splits)

lemma flow_step_ok:
  assumes b: "fc_chunk_stitch_mode c \<noteq> ''ensemble''" and ok: "stream_ok infer c N s" and r: "snd (flow_step nm c infer s op) = Inr out"
  shows "stream_ok infer c N (fst (flow_step nm c infer s op))"
proof (cases op)
  case (FoTick k)
  obtain s' cmds x where t: "next_intent_streamed nm c infer k s = (s', cmds, x)" by (rule prod_cases3)
  then show ?thesis using tick_ok [OF b ok, of nm k s' cmds out] r by (simp add: FoTick tick_spec_def)
next
  case (FoInvalidate reason)
  have "mailbox_ok (fs_mailbox s)" "fs_scheduler s = None" "N \<le> mb_inference_seq (fs_mailbox s)"
    using ok by (simp_all add: stream_ok_def mid_ok_def mail_fresh_def)
  from invalidate_ok [OF this] show ?thesis by (simp add: FoInvalidate)
qed (use ok in \<open>simp_all add: recovery_ok clear_targets_ok reanchor_ok\<close>)

interpretation playback: guarded_machine "flow_step nm c infer" "stream_ok infer c N" "\<lambda>_ out. fc_chunk_stitch_mode c \<noteq> ''ensemble'' \<and> (\<exists>i. out = Inr i)"
  for nm c infer N
proof
  show "stream_ok infer c N (fst (flow_step nm c infer s op))"
    if "stream_ok infer c N s" "fc_chunk_stitch_mode c \<noteq> ''ensemble'' \<and> (\<exists>i. snd (flow_step nm c infer s op) = Inr i)" for s op
    using that flow_step_ok by metis
qed

lemma stream_ok_init: "N \<le> 0 \<Longrightarrow> stream_ok infer c N flow_stream_init"
  by (simp add: stream_ok_def mid_ok_def flow_stream_init_def mailbox_ok_init chunk_ok_def) (simp add: mail_fresh_def mailbox_init_def)

abbreviation no_raise :: "FlowOp \<Rightarrow> CommandIntent option res \<Rightarrow> bool" where
  "no_raise \<equiv> \<lambda>_ out. \<exists>i. out = Inr i"

lemma calls_ok_append:
  "calls_ok ok step s (xs @ ys) \<longleftrightarrow> calls_ok ok step s xs \<and> calls_ok ok step (state_after step s xs) ys"
  by (induction xs arbitrary: s) auto

lemma playback_run:
  assumes "fc_chunk_stitch_mode c \<noteq> ''ensemble''" and "stream_ok infer c N s" and "calls_ok no_raise (flow_step nm c infer) s ops"
  shows "stream_ok infer c N (state_after (flow_step nm c infer) s ops)"
  by (rule playback.inv_ok_run [OF assms(2)], rule calls_ok_mono [OF assms(3)]) (simp add: assms(1))

section \<open>A small run\<close>

definition flow_demo_numerics :: FlowNumerics where
  "flow_demo_numerics = \<lparr>fn_round = (\<lambda>_. Fin 0), fn_rel_rotvec = (\<lambda>_ _. (0, 0, 0))\<rparr>"

definition flow_demo_gripper_config :: FlowGripperConfig where
  "flow_demo_gripper_config = \<lparr>fg_action_absolute = True, fg_close_bias = 0, fg_close_bias_left = None, fg_close_bias_right = None, fg_binary = False,
     fg_open_percent = 100, fg_close_percent = 0, fg_binary_threshold = 50, fg_close_snap_percent = 0, fg_lookahead_steps = 0,
     fg_command_deadband_percent = 0, fg_open_hold_steps = 0, fg_proprio_source = ''actual'', fg_jam_gap_percent = 5, fg_jam_stall_steps = 3,
     fg_jam_move_eps_percent = 1, fg_command_source = ''flow''\<rparr>"

definition flow_demo_config :: FlowConfig where
  "flow_demo_config = \<lparr>fc_limits = \<lparr>dl_max_linear_velocity_m_s = 1, dl_max_angular_velocity_rad_s = 1, dl_policy_dt_sec = 1 / 30, dl_crossfade_steps = 0\<rparr>,
     fc_gripper = flow_demo_gripper_config, fc_timeout_sec = Fin 1, fc_tcp_target_profile = ''flow_infer_smooth'', fc_tcp_tp_mode = ''legacy_step_hold'',
     fc_tcp_tp_reanchor_mode = ''measured_blend'', fc_tcp_tp_blend_steps = 2, fc_chunk_anchor_source = ''actual'', fc_chunk_execute_steps = 2,
     fc_chunk_overlay_runway_steps = 0, fc_chunk_activation_mode = ''fixed_steps'', fc_chunk_stitch_mode = ''boundary'', fc_ensemble_period = 6,
     fc_ensemble_blend_mode = ''linear'', fc_action_horizon = 3, fc_sequential_stream_inference = False, fc_nonblocking_stream_inference = False,
     fc_stream_prefetch_at = None, fc_knot_filter_taps = None, fc_has_overlay_publisher = False\<rparr>"

definition flow_demo_row :: "real \<Rightarrow> Row" where
  "flow_demo_row x = \<lparr>rw_delta = (\<lambda>_. ((x, 0, 0), (0, 0, 0))), rw_grip = (\<lambda>_. 50)\<rparr>"

definition flow_demo_infer :: "InferRequest \<Rightarrow> Inference" where
  "flow_demo_infer rq = \<lparr>inf_chunk = Inr (Some [flow_demo_row 1, flow_demo_row 2, flow_demo_row 3]), inf_rtc_delay = None, inf_observation_time_ns = None\<rparr>"

definition flow_demo_tick :: "real \<Rightarrow> FlowTick" where
  "flow_demo_tick t = \<lparr>tk_now = t, tk_payload = [],
     tk_gripper = \<lparr>gi_arm_mask = (\<lambda>_. Fin 0), gi_arm_allowed = (\<lambda>_. True), gi_packet_allowed = True, gi_backend = (\<lambda>_. None)\<rparr>,
     tk_worker = (\<lambda>_. [])\<rparr>"

definition flow_demo_start :: "int \<Rightarrow> FlowStream" where
  "flow_demo_start g = flow_stream_init\<lparr>fs_mailbox := mailbox_init\<lparr>mb_generation := g\<rparr>\<rparr>"

lemmas flow_demo_defs = flow_demo_numerics_def flow_demo_gripper_config_def flow_demo_config_def flow_demo_infer_def flow_demo_tick_def flow_stream_init_def
  flow_demo_start_def flow_targets_init_def flow_gripper_init_def overlay_init_def mailbox_init_def

lemma flow_demo_source: "automatic_tracking_pose_source (PDict []) = ''actual''"
  by code_simp

lemma flow_demo_pose: "pose_from_state_payload [] a ''auto'' = Inr ((0, 0, 0), (0, 0, 0, 1))"
  by (simp add: pose_from_state_payload_def flow_demo_source pose_from_state_arm_def state_pose_block_def state_quaternion_def
      float_or_zero_def Let_def dget_or_def py_or_def as_dict_def float_checked_def float_overflows_def)

lemma flow_demo_grip:
  assumes "gs_targets g = (\<lambda>_. None)"
  shows "\<exists>g'. gripper_row_step (fn_round flow_demo_numerics) (fc_gripper flow_demo_config) g (tk_gripper (flow_demo_tick t), r, []) = (g', Inr (\<lambda>_. None, []))
    \<and> gs_targets g' = (\<lambda>_. None)"
  using assms by (simp add: gripper_row_step_def integrate_gripper_targets_def flow_demo_defs measured_gripper_percent_def live_gripper_percent_def
      note_gripper_actual_def dispatch_gripper_step_def gripper_commands_from_flow_step_def flow_arm_def Let_def)

lemma flow_demo_execute:
  assumes "gs_targets (fs_gripper s) = (\<lambda>_. None)"
  shows "\<exists>g t'. execute_row flow_demo_numerics flow_demo_config (flow_demo_tick t) rows s =
    (s\<lparr>fs_gripper := g, fs_current_gripper_targets := (\<lambda>_. None), fs_targets := t', fs_current_step_intent := None, fs_emitted := fs_emitted s + 1\<rparr>, [], Inr None)
    \<and> gs_targets g = (\<lambda>_. None)"
proof -
  have p: "tk_payload (flow_demo_tick t) = []" by (simp add: flow_demo_tick_def)
  obtain g where g: "gripper_row_step (fn_round flow_demo_numerics) (fc_gripper flow_demo_config) (fs_gripper s)
      (tk_gripper (flow_demo_tick t), gripper_step_row (fc_gripper flow_demo_config) rows (fs_chunk_index s), []) = (g, Inr (\<lambda>_. None, []))"
    and "gs_targets g = (\<lambda>_. None)" using flow_demo_grip [OF assms] by blast
  moreover define s1 where "s1 = s\<lparr>fs_gripper := g, fs_current_gripper_targets := (\<lambda>_. None)\<rparr>"
  moreover obtain t' where "row_targets flow_demo_numerics flow_demo_config (flow_demo_tick t) (rows ! fs_chunk_index s) s1 = (t', Inr None)"
    by (auto simp: row_targets_def Let_def flow_demo_defs tcp_tp_foh_active_def emit_step_intent_def tcp_target_pose_step_intent_def flow_pose_intent_def)
  ultimately show ?thesis by (auto simp: execute_row_def p)
qed

text \<open>The first tick infers a chunk and executes its first row; the second executes the next row.\<close>

lemma flow_demo_first_tick:
  "\<exists>s1. next_intent_streamed flow_demo_numerics flow_demo_config flow_demo_infer (flow_demo_tick 0) (flow_demo_start g) = (s1, [], Inr None) \<and> fs_emitted s1 = 1
     \<and> fs_chunk s1 = Some [flow_demo_row 1, flow_demo_row 2, flow_demo_row 3] \<and> fs_chunk_index s1 = 0 \<and> fs_step_deadline s1 = 1 / 30
     \<and> fs_scheduler s1 = None \<and> \<not> fs_resume_row_pending s1 \<and> gs_targets (fs_gripper s1) = (\<lambda>_. None) \<and> fs_reset_pose s1 ArmLeft \<noteq> None
     \<and> fs_reset_pose s1 ArmRight \<noteq> None"
proof -
  have p: "tk_payload (flow_demo_tick t) = []" for t by (simp add: flow_demo_tick_def)
  define s0 where "s0 = (flow_demo_start g)\<lparr>fs_overlay_payload := Some [],
    fs_reset_pose := (\<lambda>_. None)(ArmLeft := Some ((0, 0, 0), (0, 0, 0, 1)), ArmRight := Some ((0, 0, 0), (0, 0, 0, 1)))\<rparr>"
  have e: "ensure_reset_poses [] ((flow_demo_start g)\<lparr>fs_overlay_payload := Some []\<rparr>) = (s0, Inr ())"
    by (simp add: ensure_reset_poses_def flow_demo_start_def flow_stream_init_def flow_demo_pose s0_def)
  obtain s1 where a: "advance_stream flow_demo_numerics flow_demo_config flow_demo_infer (flow_demo_tick 0) s0 = (s1, Inr MvRow)"
    and f: "fs_emitted s1 = 0" "fs_chunk s1 = Some [flow_demo_row 1, flow_demo_row 2, flow_demo_row 3]" "fs_chunk_index s1 = 0" "fs_step_deadline s1 = 1 / 30"
    "fs_scheduler s1 = None" "\<not> fs_resume_row_pending s1" "gs_targets (fs_gripper s1) = (\<lambda>_. None)" "fs_reset_pose s1 ArmLeft \<noteq> None"
    "fs_reset_pose s1 ArmRight \<noteq> None"
    unfolding s0_def
    by (simp add: advance_stream_def acquire_chunk_def fetch_chunk_def Let_def take_next_def with_worker_def take_prefetched_def sample_inline_def ensure_chunk_ensemble_def
        activate_chunk_def band_limit_chunk_def chunk_meta_def inference_recovery_metadata_def publish_chunk_overlay_def overlay_chain_advance_def flow_demo_defs)
  have k: "kick_prefetch flow_demo_config flow_demo_infer (flow_demo_tick 0) s1 = s1"
    using f by (simp add: kick_prefetch_def Let_def with_worker_def stream_prefetch_at_def current_chunk_execute_limit_def flow_demo_defs)
  obtain g t' where "execute_row flow_demo_numerics flow_demo_config (flow_demo_tick 0) [flow_demo_row 1, flow_demo_row 2, flow_demo_row 3] s1 =
    (s1\<lparr>fs_gripper := g, fs_current_gripper_targets := (\<lambda>_. None), fs_targets := t', fs_current_step_intent := None, fs_emitted := fs_emitted s1 + 1\<rparr>, [], Inr None)"
    "gs_targets g = (\<lambda>_. None)" using flow_demo_execute [OF f(7)] by blast
  then show ?thesis using a k f e by (simp add: next_intent_streamed_def p finish_stream_tick_def)
qed

lemma flow_demo_next_tick:
  assumes "fs_chunk s1 = Some [flow_demo_row 1, flow_demo_row 2, flow_demo_row 3]" "fs_chunk_index s1 = 0" "fs_step_deadline s1 = 1 / 30"
    "fs_scheduler s1 = None" "\<not> fs_resume_row_pending s1" "gs_targets (fs_gripper s1) = (\<lambda>_. None)" "fs_reset_pose s1 ArmLeft \<noteq> None"
    "fs_reset_pose s1 ArmRight \<noteq> None"
  shows "\<exists>s2. next_intent_streamed flow_demo_numerics flow_demo_config flow_demo_infer (flow_demo_tick (1 / 30)) s1 = (s2, [], Inr None) \<and> fs_emitted s2 = fs_emitted s1 + 1"
proof -
  have p: "tk_payload (flow_demo_tick t) = []" for t by (simp add: flow_demo_tick_def)
  define s0 where "s0 = s1\<lparr>fs_overlay_payload := Some []\<rparr>"
  define sa where "sa = s0\<lparr>fs_chunk_index := Suc 0, fs_step_deadline := next_step_deadline flow_demo_config (1 / 30) s0\<rparr>"
  have e: "ensure_reset_poses [] s0 = (s0, Inr ())" using assms by (simp add: ensure_reset_poses_def s0_def)
  have a: "advance_stream flow_demo_numerics flow_demo_config flow_demo_infer (flow_demo_tick (1 / 30)) s0 = (sa, Inr MvRow)"
    using assms by (simp add: advance_stream_def step_due_def s0_def sa_def flow_demo_config_def flow_demo_tick_def current_chunk_execute_limit_def)
  have sa: "fs_chunk sa = Some [flow_demo_row 1, flow_demo_row 2, flow_demo_row 3]" "gs_targets (fs_gripper sa) = (\<lambda>_. None)" "fs_emitted sa = fs_emitted s1"
    using assms by (simp_all add: sa_def s0_def)
  define sk where "sk = kick_prefetch flow_demo_config flow_demo_infer (flow_demo_tick (1 / 30)) sa"
  have sk: "fs_chunk sk = fs_chunk sa" "fs_gripper sk = fs_gripper sa" "fs_emitted sk = fs_emitted sa"
    by (simp_all add: sk_def kick_prefetch_def Let_def with_worker_def request_next_def)
  obtain g t' where "execute_row flow_demo_numerics flow_demo_config (flow_demo_tick (1 / 30)) [flow_demo_row 1, flow_demo_row 2, flow_demo_row 3] sk =
    (sk\<lparr>fs_gripper := g, fs_current_gripper_targets := (\<lambda>_. None), fs_targets := t', fs_current_step_intent := None, fs_emitted := fs_emitted sk + 1\<rparr>, [], Inr None)"
    using flow_demo_execute [of sk "1 / 30" "[flow_demo_row 1, flow_demo_row 2, flow_demo_row 3]"] sa(2) sk(2) by auto
  then show ?thesis using a e sa sk by (simp add: next_intent_streamed_def p finish_stream_tick_def s0_def [symmetric] sk_def [symmetric])
qed

section \<open>Where an executed row comes from\<close>

lemma played_row:
  assumes "fs_chunk s' = Some rows" and "stream_ok infer c N s'" and "\<not> fs_resume_row_pending s'" and "fs_emitted s' = n + 1"
  shows "\<exists>rq raw. inf_chunk (infer rq) = Inr (Some raw) \<and> N < rq_inference_seq rq \<and> rq_observation_step_seq rq \<le> n
    \<and> n - rq_observation_step_seq rq < int (length raw)
    \<and> rw_grip (rows ! fs_chunk_index s') = rw_grip (raw ! nat (n - rq_observation_step_seq rq))
    \<and> (fc_knot_filter_taps c = None \<longrightarrow> rows ! fs_chunk_index s' = raw ! nat (n - rq_observation_step_seq rq))"
proof -
  define i where "i = fs_chunk_index s'"
  have "played_chunk infer c N False s' rows" using assms by (simp add: stream_ok_def chunk_ok_def)
  then obtain rq raw ctx first where rq: "inf_chunk (infer rq) = Inr (Some raw)" "N < rq_inference_seq rq"
    and first: "first = n - int i - rq_observation_step_seq rq" "0 \<le> first"
    and rows: "rows = snd (band_limit_chunk (fc_knot_filter_taps c) ctx (drop (nat first) raw))" and i: "i < length rows"
    using assms(4) by (auto simp: played_chunk_def Let_def i_def)
  have len: "i < length (drop (nat first) raw)" using i rows by simp
  have idx: "nat (n - rq_observation_step_seq rq) = nat first + i" "rq_observation_step_seq rq \<le> n" using first by linarith+
  have "drop (nat first) raw ! i = raw ! nat (n - rq_observation_step_seq rq)" using len idx by (simp add: add.commute)
  moreover have "rw_grip (rows ! i) = rw_grip (drop (nat first) raw ! i)" unfolding rows by (rule band_limit_grip [OF len])
  moreover have "rows ! i = drop (nat first) raw ! i" if "fc_knot_filter_taps c = None" using that rows by simp
  moreover have "n - rq_observation_step_seq rq < int (length raw)" using len idx by simp
  ultimately show ?thesis using rq idx(2) unfolding i_def by metis
qed



section \<open>The pace\<close>

text \<open>A tick that executes a row comes after the deadline, and moves it by a step or more.\<close>

definition paced :: "FlowConfig \<Rightarrow> real \<Rightarrow> int \<Rightarrow> real \<Rightarrow> FlowStream \<Rightarrow> bool" where
  "paced c d0 e0 t s =
     (\<not> fs_resume_row_pending s \<and> d0 + dl_policy_dt_sec (fc_limits c) * real_of_int (fs_emitted s - e0) \<le> fs_step_deadline s
      \<and> (fs_chunk s = None \<longrightarrow> fs_step_deadline s \<le> t))"

lemma paced_tick:
  assumes "tick_spec infer c N now s s'" and "paced c d0 e0 t s" and "t \<le> now"
  shows "paced c d0 e0 now s'" and "fs_emitted s' = fs_emitted s + 1 \<Longrightarrow> fs_step_deadline s \<le> now"
proof -
  obtain row where row: "fs_emitted s' = fs_emitted s + (if row then 1 else 0)" "row \<longrightarrow> fs_chunk s' \<noteq> None"
    "deadline_moved c now row s s'" "row \<longrightarrow> fs_chunk s = None \<or> fs_step_deadline s \<le> now"
    using assms(1,2) by (auto simp: tick_spec_def paced_def)
  have due: "fs_step_deadline s \<le> now" if "row" using row(4) that assms(2,3) by (auto simp: paced_def)
  then show "fs_emitted s' = fs_emitted s + 1 \<Longrightarrow> fs_step_deadline s \<le> now" using row(1) by (simp split: if_splits)
  let ?dt = "dl_policy_dt_sec (fc_limits c)"
  have later: "fs_step_deadline s + ?dt \<le> fs_step_deadline s'" if "row"
    using row(2,3) due that by (auto simp: deadline_moved_def next_step_deadline_def Let_def split: if_splits)
  have same: "fs_step_deadline s' = fs_step_deadline s \<and> (fs_chunk s' = None \<longrightarrow> fs_chunk s = None \<or> fs_step_deadline s \<le> now)" if "\<not> row"
    using row(3) that by (simp add: deadline_moved_def)
  have "d0 + ?dt * real_of_int (fs_emitted s' - e0) \<le> fs_step_deadline s'"
  proof (cases row)
    case True
    have "real_of_int (fs_emitted s' - e0) = real_of_int (fs_emitted s - e0) + 1" using row(1) True by simp
    then have "?dt * real_of_int (fs_emitted s' - e0) = ?dt * real_of_int (fs_emitted s - e0) + ?dt" by (simp only: distrib_left mult_1_right)
    then show ?thesis using assms(2) later [OF True] by (simp add: paced_def)
  next
    case False
    then show ?thesis using assms(2) row(1) same by (simp add: paced_def)
  qed
  moreover have "fs_chunk s' = None \<longrightarrow> fs_step_deadline s' \<le> now"
    using row(2) same assms(2,3) by (cases row) (auto simp: paced_def)
  moreover have "\<not> fs_resume_row_pending s'" using assms(1) by (simp add: tick_spec_def)
  ultimately show "paced c d0 e0 now s'" by (simp add: paced_def)
qed

lemma flow_tick_spec:
  assumes "fc_chunk_stitch_mode c \<noteq> ''ensemble''" and "stream_ok infer c N s" and "snd (flow_step nm c infer s (FoTick k)) = Inr i"
  shows "tick_spec infer c N (tk_now k) s (fst (flow_step nm c infer s (FoTick k)))"
proof -
  obtain s' cmds x where t: "next_intent_streamed nm c infer k s = (s', cmds, x)" by (rule prod_cases3)
  then show ?thesis using tick_ok [OF assms(1,2), of nm k s' cmds i] assms(3) by simp
qed

lemma paced_run:
  assumes "fc_chunk_stitch_mode c \<noteq> ''ensemble''" and "stream_ok infer c N s" and "paced c d0 e0 t s"
    and "calls_ok no_raise (flow_step nm c infer) s (map FoTick ks)" and "sorted (t # map tk_now ks)"
  shows "paced c d0 e0 (last (t # map tk_now ks)) (state_after (flow_step nm c infer) s (map FoTick ks))
    \<and> stream_ok infer c N (state_after (flow_step nm c infer) s (map FoTick ks))"
  using assms
proof (induction ks arbitrary: s t)
  case (Cons k ks)
  let ?s = "fst (flow_step nm c infer s (FoTick k))"
  obtain i where i: "snd (flow_step nm c infer s (FoTick k)) = Inr i" using Cons.prems(4) by auto
  note T = flow_tick_spec [OF assms(1) Cons.prems(2) i]
  have "paced c d0 e0 (tk_now k) ?s" using paced_tick(1) [OF T Cons.prems(3)] Cons.prems(5) by simp
  moreover have "stream_ok infer c N ?s" using T by (simp add: tick_spec_def)
  ultimately show ?case using Cons.IH [of ?s "tk_now k"] Cons.prems(4,5) assms(1) by simp
qed simp

text \<open>(C9) Policy steps are never played faster than they were trained. Between two ticks that execute a row, with any ticks in between and a clock that
  does not run backwards, more time passes than one step period for every row executed in between: lateness is corrected on
  the grid, but a backlog is never fired in a burst.\<close>

theorem policy_steps_are_paced:
  assumes "fc_chunk_stitch_mode c \<noteq> ''ensemble''" and "0 < dl_policy_dt_sec (fc_limits c)"
    and "calls_ok no_raise (flow_step nm c infer) flow_stream_init (ops @ map FoTick (k0 # ks @ [k]))"
    and "sorted (map tk_now (k0 # ks @ [k]))"
    and "s = state_after (flow_step nm c infer) flow_stream_init ops" and "s0 = fst (flow_step nm c infer s (FoTick k0))"
    and "fs_emitted s0 = fs_emitted s + 1"
    and "s1 = state_after (flow_step nm c infer) s0 (map FoTick ks)" and "fs_emitted (fst (flow_step nm c infer s1 (FoTick k))) = fs_emitted s1 + 1"
  shows "dl_policy_dt_sec (fc_limits c) * real_of_int (fs_emitted s1 - fs_emitted s0) < tk_now k - tk_now k0"
proof -
  let ?step = "flow_step nm c infer"
  have calls: "calls_ok no_raise ?step flow_stream_init ops" "\<exists>i. snd (?step s (FoTick k0)) = Inr i"
    "calls_ok no_raise ?step s0 (map FoTick ks)" "\<exists>i. snd (?step s1 (FoTick k)) = Inr i"
    using assms(3,5,6,8) by (simp_all add: calls_ok_append calls_ok_snoc del: flow_step.simps)
  have "stream_ok infer c 0 s" unfolding assms(5) by (rule playback_run [OF assms(1) stream_ok_init calls(1)]) simp
  with flow_tick_spec [OF assms(1)] calls(2) have t0: "tick_spec infer c 0 (tk_now k0) s s0" unfolding assms(6) by blast
  then have ok0: "stream_ok infer c 0 s0" and d0: "tk_now k0 < fs_step_deadline s0" and p0: "paced c (fs_step_deadline s0) (fs_emitted s0) (tk_now k0) s0"
    using assms(2,7) by (auto simp: tick_spec_def paced_def split: if_splits)
  have sorted: "sorted (tk_now k0 # map tk_now ks)" "last (tk_now k0 # map tk_now ks) \<le> tk_now k"
    using assms(4) by (auto simp: sorted_append last_map)
  note R = paced_run [OF assms(1) ok0 p0 calls(3) sorted(1), folded assms(8)]
  from R flow_tick_spec [OF assms(1)] calls(4) have t1: "tick_spec infer c 0 (tk_now k) s1 (fst (?step s1 (FoTick k)))" by blast
  have "fs_step_deadline s1 \<le> tk_now k" using paced_tick(2) [OF t1 _ sorted(2) assms(9)] R by blast
  then show ?thesis using R d0 by (simp add: paced_def)
qed

theorem policy_steps_are_paced_witness:
  "\<exists>s0 s1. s0 = fst (flow_step flow_demo_numerics flow_demo_config flow_demo_infer flow_stream_init (FoTick (flow_demo_tick 0)))
     \<and> s1 = fst (flow_step flow_demo_numerics flow_demo_config flow_demo_infer s0 (FoTick (flow_demo_tick (1 / 30))))
     \<and> fs_emitted s0 = 1 \<and> fs_emitted s1 = 2 \<and> 1 / 30 * real_of_int (fs_emitted s0 - fs_emitted s0) < 1 / 30 - 0"
proof -
  let ?step = "flow_step flow_demo_numerics flow_demo_config flow_demo_infer"
  have i: "flow_demo_start 0 = flow_stream_init" by (simp add: flow_demo_defs)
  obtain s0 where t0: "next_intent_streamed flow_demo_numerics flow_demo_config flow_demo_infer (flow_demo_tick 0) flow_stream_init = (s0, [], Inr None)"
    "fs_emitted s0 = 1" and f: "fs_chunk s0 = Some [flow_demo_row 1, flow_demo_row 2, flow_demo_row 3]" "fs_chunk_index s0 = 0" "fs_step_deadline s0 = 1 / 30"
    "fs_scheduler s0 = None" "\<not> fs_resume_row_pending s0" "gs_targets (fs_gripper s0) = (\<lambda>_. None)" "fs_reset_pose s0 ArmLeft \<noteq> None"
    "fs_reset_pose s0 ArmRight \<noteq> None" using flow_demo_first_tick [of 0] unfolding i by blast
  obtain s1 where t1: "next_intent_streamed flow_demo_numerics flow_demo_config flow_demo_infer (flow_demo_tick (1 / 30)) s0 = (s1, [], Inr None)"
    "fs_emitted s1 = fs_emitted s0 + 1" using flow_demo_next_tick [OF f] by blast
  have dt: "dl_policy_dt_sec (fc_limits flow_demo_config) = 1 / 30" "fc_chunk_stitch_mode flow_demo_config \<noteq> ''ensemble''"
    "\<And>t. tk_now (flow_demo_tick t) = t" "fs_emitted flow_stream_init = 0"
    by (simp_all add: flow_demo_config_def flow_demo_tick_def flow_stream_init_def)
  from policy_steps_are_paced [where ops = "[]" and ks = "[]" and ?k0.0 = "flow_demo_tick 0" and k = "flow_demo_tick (1 / 30)"
      and nm = flow_demo_numerics and infer = flow_demo_infer, OF dt(2) _ _ _ refl refl _ refl]
  have "1 / 30 * real_of_int (fs_emitted s0 - fs_emitted s0) < 1 / 30 - 0" using t0 t1 dt by simp
  then show ?thesis using t0 t1 by auto
qed

end
