(* ===== verification/FlowAuthority.thy ===== *)
theory FlowAuthority
  imports FlowSource FlowPlayback
begin

text \<open>
  When the policy source may move a gripper under preview execution: only on fresh telemetry that says that the server is executing that arm's
  plan, in every call and on both ways out, the intent and the commands of the serial backend.
\<close>

section \<open>The heartbeat\<close>

lemma heartbeat_frame [simp]:
  "fs_recovery_heartbeat (with_worker infer k n s) = fs_recovery_heartbeat s"
  "fs_recovery_heartbeat (request_next d s) = fs_recovery_heartbeat s"
  "fs_recovery_heartbeat (kick_at_window_start s) = fs_recovery_heartbeat s"
  "fs_recovery_heartbeat (activate_chunk c am rows now p s) = fs_recovery_heartbeat s"
  "fs_recovery_heartbeat (fst (take_next s)) = fs_recovery_heartbeat s"
  "fs_recovery_heartbeat (kick_prefetch c infer k s) = fs_recovery_heartbeat s"
  "fs_recovery_heartbeat (fst (ensure_chunk_ensemble c s)) = fs_recovery_heartbeat s"
  "fs_recovery_heartbeat (fst (ensure_reset_poses d s)) = fs_recovery_heartbeat s"
  "fs_recovery_heartbeat (clear_targets arms s) = fs_recovery_heartbeat s"
  "fs_recovery_heartbeat (fst (execute_row nm c k rows s)) = fs_recovery_heartbeat s"
  by (simp_all add: with_worker_def request_next_def kick_at_window_start_def activate_chunk_def take_next_def kick_prefetch_def
      ensure_chunk_ensemble_def ensure_reset_poses_def clear_targets_def execute_row_def Let_def split: prod.splits option.splits sum.splits)

lemma take_next_heartbeat: "take_next s = (s', rows) \<Longrightarrow> fs_recovery_heartbeat s' = fs_recovery_heartbeat s"
  using heartbeat_frame(5) [of s] by simp

lemma ensure_ensemble_heartbeat: "ensure_chunk_ensemble c s = (s', x) \<Longrightarrow> fs_recovery_heartbeat s' = fs_recovery_heartbeat s"
  using heartbeat_frame(7) [of c s] by simp

lemmas heartbeat_dest = take_next_heartbeat ensure_ensemble_heartbeat

lemma finish_heartbeat: "fs_recovery_heartbeat (fst (finish_stream_tick nm c k adv s)) = fs_recovery_heartbeat s"
  by (auto simp: finish_stream_tick_def split: prod.splits option.splits sum.splits)

lemma try_ready_heartbeat: "fs_recovery_heartbeat (fst (try_ready_event_activation c infer k s)) = fs_recovery_heartbeat s"
  by (auto simp: try_ready_event_activation_def Let_def dest: heartbeat_dest split: prod.splits option.splits)

lemma fetch_heartbeat: "fetch_chunk c infer k s = (s', got) \<Longrightarrow> fs_recovery_heartbeat s' = fs_recovery_heartbeat s"
  by (auto simp: fetch_chunk_def Let_def dest!: take_next_heartbeat split: prod.splits if_splits)

lemma acquire_heartbeat: "fs_recovery_heartbeat (fst (acquire_chunk c infer k s)) = fs_recovery_heartbeat s"
proof -
  obtain s3 got where f: "fetch_chunk c infer k s = (s3, got)" by (rule prod.exhaust)
  note h = fetch_heartbeat [OF f]
  show ?thesis
  proof (cases got)
    case (Inl e)
    then show ?thesis using f h by (simp add: acquire_chunk_def)
  next
    case (Inr x)
    show ?thesis
    proof (cases x)
      case None
      then show ?thesis using f h Inr ensure_ensemble_heartbeat [of c] by (fastforce simp: acquire_chunk_def split: prod.splits sum.splits)
    next
      case (Some rows)
      obtain s4 u where e: "ensure_chunk_ensemble c s3 = (s4, u)" by (rule prod.exhaust)
      then show ?thesis using f h Inr Some ensure_ensemble_heartbeat [OF e]
        by (cases u) (simp_all add: acquire_chunk_def Let_def split: prod.splits sum.splits option.splits)
    qed
  qed
qed

lemma stall_heartbeat: "fs_recovery_heartbeat (fst (boundary_stall nm c infer k s)) = fs_recovery_heartbeat s"
  by (auto simp: boundary_stall_def Let_def split: prod.splits sum.splits)

lemma cross_heartbeat: "fs_recovery_heartbeat (fst (cross_boundary nm c infer k s)) = fs_recovery_heartbeat s"
  by (auto simp: cross_boundary_def Let_def stall_heartbeat dest!: heartbeat_dest split: prod.splits option.splits sum.splits)

lemma due_heartbeat: "fs_recovery_heartbeat (fst (step_due nm c infer k s)) = fs_recovery_heartbeat s"
  using try_ready_heartbeat [of c infer k s] by (auto simp: step_due_def Let_def cross_heartbeat split: prod.splits)

lemma advance_heartbeat: "fs_recovery_heartbeat (fst (advance_stream nm c infer k s)) = fs_recovery_heartbeat s"
  by (simp add: advance_stream_def acquire_heartbeat due_heartbeat)

lemma streamed_heartbeat: "fs_recovery_heartbeat (fst (next_intent_streamed nm c infer k s)) = fs_recovery_heartbeat s"
proof -
  let ?p = "s\<lparr>fs_overlay_payload := Some (tk_payload k)\<rparr>"
  obtain s0 u where e: "ensure_reset_poses (tk_payload k) ?p = (s0, u)" by (rule prod.exhaust)
  obtain s1 x where a: "advance_stream nm c infer k s0 = (s1, x)" by (rule prod.exhaust)
  have "fs_recovery_heartbeat s0 = fs_recovery_heartbeat s" "fs_recovery_heartbeat s1 = fs_recovery_heartbeat s0"
    using heartbeat_frame(8) [of "tk_payload k" ?p] advance_heartbeat [of nm c infer k s0] e a by simp_all
  then show ?thesis using e a finish_heartbeat [of nm c k _ "kick_prefetch c infer k s1"]
    by (auto simp: next_intent_streamed_def split: sum.splits StreamMove.splits)
qed

lemma recovery_heartbeat: "fs_recovery_heartbeat (publish_recovery_candidate c infer k e t s) = fs_recovery_heartbeat s"
  by (auto simp: publish_recovery_candidate_def Let_def dest!: heartbeat_dest split: prod.splits option.splits)

lemma reanchor_heartbeat: "fs_recovery_heartbeat (reanchor_arms_to_snapshot d as s) = fs_recovery_heartbeat s"
  by (induction d as s rule: reanchor_arms_to_snapshot.induct) (simp_all add: Let_def split: sum.splits)

lemma invalidate_heartbeat: "fs_recovery_heartbeat (invalidate_policy_chunks r s) \<in> {fs_recovery_heartbeat s, None}"
  by (simp add: invalidate_policy_chunks_def)

lemma epoch_heartbeat: "fs_recovery_heartbeat (handle_server_motion_epoch d s) \<in> {fs_recovery_heartbeat s, None}"
  by (auto simp: handle_server_motion_epoch_def Let_def invalidate_policy_chunks_def split: sum.splits option.splits)

lemma sync_heartbeat: "fs_recovery_heartbeat (fst (next_intent_sync nm c infer k g s)) = fs_recovery_heartbeat s"
proof -
  obtain s0 u where e: "ensure_reset_poses (st_payload k) s = (s0, u)" by (rule prod.exhaust)
  have s0: "fs_recovery_heartbeat s0 = fs_recovery_heartbeat s" using heartbeat_frame(8) [of "st_payload k" s] e by simp
  obtain s1 x where a: "sync_chunk c infer k s0 = (s1, x)" by (rule prod.exhaust)
  have "fs_recovery_heartbeat (fst (sync_chunk c infer k s0)) = fs_recovery_heartbeat s0"
    by (simp add: sync_chunk_def Let_def split: prod.splits sum.splits option.splits)
  then have "fs_recovery_heartbeat s1 = fs_recovery_heartbeat s" using a s0 by simp
  then show ?thesis using e a s0 by (auto simp: next_intent_sync_def Let_def split: sum.splits option.splits prod.splits)
qed

section \<open>Intents without gripper targets\<close>

fun ci_arm :: "arm \<Rightarrow> CommandIntent \<Rightarrow> pydict option" where
  "ci_arm ArmLeft i = ci_left i"
| "ci_arm ArmRight i = ci_right i"

definition targets_gripper :: "CommandIntent option \<Rightarrow> arm \<Rightarrow> bool" where
  "targets_gripper intent a = (\<exists>i p. intent = Some i \<and> ci_arm a i = Some p \<and> map_of p ''gripper_target'' \<noteq> None)"

lemma without_grippers_none: "\<not> targets_gripper (without_grippers i) a"
  by (cases a) (auto simp: targets_gripper_def without_grippers_def map_of_ddel)

lemma plain_payload_none: "pose_target_arm_payload pose None = Inr p \<Longrightarrow> map_of p ''gripper_target'' = None"
  by (auto simp: pose_target_arm_payload_def Let_def split: option.splits if_splits)

lemma plain_intent_none:
  "tcp_pose_target_stand_intent l r None None t prof meta = Inr i \<Longrightarrow> \<not> targets_gripper (Some i) a"
  by (cases a) (auto simp: targets_gripper_def tcp_pose_target_stand_intent_def res_bind_Inr_iff intent_of_def dest: plain_payload_none)

lemma verified_heartbeat_none:
  assumes "verified_preview_recovery_heartbeat c k s = Inr h"
  shows "\<not> targets_gripper h a"
proof (cases h)
  case None
  then show ?thesis by (simp add: targets_gripper_def)
next
  case (Some i)
  show ?thesis using assms unfolding Some
    by (auto simp: verified_preview_recovery_heartbeat_def Let_def res_bind_Inr_iff dest: plain_intent_none [where a = a]
        split: if_splits pyval.splits sum.splits option.splits prod.splits)
qed

definition heartbeat_ok :: "FlowSource \<Rightarrow> bool" where
  "heartbeat_ok s = (\<forall>a. \<not> targets_gripper (fs_recovery_heartbeat (so_stream s)) a)"

lemma no_heartbeat_ok: "\<not> targets_gripper None a"
  by (simp add: targets_gripper_def)

lemma drop_plan_heartbeat: "\<not> targets_gripper (fs_recovery_heartbeat s) a \<Longrightarrow> \<not> targets_gripper (fs_recovery_heartbeat (drop_plan s)) a"
  by (auto simp: drop_plan_def Let_def invalidate_policy_chunks_def without_grippers_none split: option.splits)

lemma recovery_update_ok: "heartbeat_ok s \<Longrightarrow> heartbeat_ok (fst (update_preview_recovery c k s))"
  by (auto simp: update_preview_recovery_def heartbeat_ok_def Let_def on_stream_def drop_plan_heartbeat split: sum.splits option.splits)

lemma authority_update_ok: "heartbeat_ok s \<Longrightarrow> heartbeat_ok (fst (update_preview_gripper_authority c k s))"
  by (simp add: update_preview_gripper_authority_def heartbeat_ok_def split: sum.splits)

lemma epoch_update_ok:
  "heartbeat_ok s \<Longrightarrow> heartbeat_ok (on_stream (\<lambda>x. handle_server_motion_epoch d (x\<lparr>fs_overlay_payload := o'\<rparr>)) s)"
  using epoch_heartbeat [of d "(so_stream s)\<lparr>fs_overlay_payload := o'\<rparr>"] by (auto simp: heartbeat_ok_def on_stream_def no_heartbeat_ok)

lemma recovery_intent_ok:
  assumes "heartbeat_ok s" and "preview_recovery_intent c infer k s = (s', out)"
  shows "heartbeat_ok s'" and "out = Inr (True, h) \<Longrightarrow> \<not> targets_gripper h a" and "out = Inr (False, h) \<Longrightarrow> s' = s \<and> \<not> recovering s"
  using assms verified_heartbeat_none [of c k s]
  by (auto simp: preview_recovery_intent_def heartbeat_ok_def on_stream_def recovery_heartbeat Let_def split: if_splits sum.splits option.splits)

lemma policy_intent_heartbeat: "heartbeat_ok s \<Longrightarrow> heartbeat_ok (fst (policy_intent nm c infer k s))"
  using streamed_heartbeat [of nm "sc_flow c" infer "flow_tick c k s" "so_stream s"]
    sync_heartbeat [of nm c infer k "tk_gripper (flow_tick c k s)" "so_stream s"]
  by (auto simp: policy_intent_def heartbeat_ok_def Let_def split: prod.splits if_splits)

text \<open>A call that gets past the checks, as one sequence of states.\<close>

lemma next_intent_cases:
  assumes "next_intent nm c infer k s = (s', cmds, out)" and "heartbeat_ok s"
  obtains (stopped) "cmds = []" "\<And>a. \<not> targets_gripper (case out of Inl _ \<Rightarrow> None | Inr i \<Rightarrow> i) a" "heartbeat_ok s'"
  | (policy) s1 s2 s3 where "update_preview_gripper_authority c k s1 = (s2, Inr ())"
      "s3 = on_stream (\<lambda>x. handle_server_motion_epoch (st_payload k) (x\<lparr>fs_overlay_payload := Some (st_payload k)\<rparr>)) s2"
      "\<not> recovering s3" "policy_intent nm c infer k s3 = (s', cmds, out)" "heartbeat_ok s3"
proof -
  let ?ok = "res_bind (require_chunk_execution_profile c (st_payload k)) (\<lambda>_. require_force_control_tare (st_arm_mask k) (st_payload k) s)"
  let ?both = "arm_suspended_for_init (st_arm_mask k) s ArmLeft \<and> arm_suspended_for_init (st_arm_mask k) s ArmRight"
  let ?epoch = "on_stream (\<lambda>x. handle_server_motion_epoch (st_payload k) (x\<lparr>fs_overlay_payload := Some (st_payload k)\<rparr>))"
  obtain s1 u1 where r: "update_preview_recovery c k s = (s1, u1)" by (rule prod.exhaust)
  obtain s2 u2 where a: "update_preview_gripper_authority c k s1 = (s2, u2)" by (rule prod.exhaust)
  obtain s4 p where i: "preview_recovery_intent c infer k (?epoch s2) = (s4, p)" by (rule prod.exhaust)
  have h1: "heartbeat_ok s1" and h2: "heartbeat_ok s2" and h3: "heartbeat_ok (?epoch s2)"
    using recovery_update_ok [OF assms(2), of c k] authority_update_ok [of s1 c k] epoch_update_ok [of s2] r a by simp_all
  note I = recovery_intent_ok [OF h3 i]
  note n = assms(1) [unfolded next_intent_def]
  consider (refused) e where "?ok = Inl e" | (suspended) "?ok = Inr ()" ?both | (recovery) e where "?ok = Inr ()" "\<not> ?both" "u1 = Inl e"
    | (authority) e where "?ok = Inr ()" "\<not> ?both" "u1 = Inr ()" "u2 = Inl e"
    | (intent) e where "?ok = Inr ()" "\<not> ?both" "u1 = Inr ()" "u2 = Inr ()" "p = Inl e"
    | (blocked) h where "?ok = Inr ()" "\<not> ?both" "u1 = Inr ()" "u2 = Inr ()" "p = Inr (True, h)"
    | (go) h where "?ok = Inr ()" "\<not> ?both" "u1 = Inr ()" "u2 = Inr ()" "p = Inr (False, h)"
    by (cases ?ok; cases u1; cases u2; cases p) auto
  then show thesis
  proof cases
    case refused
    then have "s' = s" "cmds = []" "out = Inl e" using n by simp_all
    then show thesis using stopped assms(2) by (simp add: no_heartbeat_ok)
  next
    case suspended
    then have "s' = s" "cmds = []" "out = Inr None" using n by simp_all
    then show thesis using stopped assms(2) by (simp add: no_heartbeat_ok)
  next
    case recovery
    then have "s' = s1" "cmds = []" "out = Inl e" using n r by (simp_all only: sum.case prod.case if_False prod.inject simp_thms)
    then show thesis using stopped h1 by (simp add: no_heartbeat_ok)
  next
    case authority
    then have "s' = s2" "cmds = []" "out = Inl e" using n r a by (simp_all only: sum.case prod.case if_False prod.inject simp_thms)
    then show thesis using stopped h2 by (simp add: no_heartbeat_ok)
  next
    case intent
    then have "s' = s4" "cmds = []" "out = Inl e" using n r a i by (simp_all only: sum.case prod.case if_False prod.inject simp_thms)
    then show thesis using stopped I(1) by (simp add: no_heartbeat_ok)
  next
    case blocked
    then have "s' = s4" "cmds = []" "out = Inr h" using n r a i by (simp_all only: sum.case prod.case if_False bool.case prod.inject simp_thms)
    then show thesis using stopped I(1) I(2) [OF blocked(5)] by simp
  next
    case go
    then have "policy_intent nm c infer k s4 = (s', cmds, out)" using n r a i by (simp only: sum.case prod.case if_False bool.case)
    then show thesis using policy [of s1 s2 "?epoch s2"] a I(3) [OF go(5)] h3 go(4) by simp
  qed
qed

lemma heartbeat_ok_stream:
  assumes "\<And>x. fs_recovery_heartbeat (f x) \<in> {fs_recovery_heartbeat x, None}" and "heartbeat_ok s"
  shows "heartbeat_ok (on_stream f s)"
  using assms(1) [of "so_stream s"] assms(2) by (auto simp: heartbeat_ok_def on_stream_def no_heartbeat_ok)

lemma source_step_heartbeat: "heartbeat_ok s \<Longrightarrow> heartbeat_ok (fst (source_step nm c infer s op))"
proof (cases op)
  case (SoNext k)
  assume ok: "heartbeat_ok s"
  obtain s' cmds out where n: "next_intent nm c infer k s = (s', cmds, out)" by (rule prod_cases3)
  show ?thesis using n ok
  proof (cases rule: next_intent_cases)
    case (policy s1 s2 s3)
    then show ?thesis using policy_intent_heartbeat [OF policy(5), of nm c infer k] n SoNext by simp
  qed (simp add: n SoNext)
next
  case (SoSuspend arms pv)
  assume ok: "heartbeat_ok s"
  have "heartbeat_ok (on_stream (\<lambda>x. invalidate_policy_chunks ''external_init_start'' (clear_targets {} x)) s)"
    using ok by (intro heartbeat_ok_stream) (simp_all add: invalidate_policy_chunks_def)
  then show ?thesis using ok by (simp add: SoSuspend set_arm_init_suspension_def heartbeat_ok_def Let_def)
next
  case (SoInitStart am arms)
  assume "heartbeat_ok s"
  then show ?thesis unfolding SoInitStart source_step.simps fst_conv on_arm_init_override_start_def
    by (intro heartbeat_ok_stream) (simp_all add: invalidate_policy_chunks_def Let_def)
next
  case (SoInitDone arms d)
  assume "heartbeat_ok s"
  then show ?thesis unfolding SoInitDone source_step.simps fst_conv on_arm_init_override_done_def
    by (intro heartbeat_ok_stream) (simp_all add: invalidate_policy_chunks_def)
next
  case (SoInitCancel arms d)
  assume "heartbeat_ok s"
  then show ?thesis unfolding SoInitCancel source_step.simps fst_conv on_arm_init_override_cancel_def
    by (intro heartbeat_ok_stream) (simp_all add: invalidate_policy_chunks_def)
next
  case SoInitFailed
  assume "heartbeat_ok s"
  then show ?thesis unfolding SoInitFailed source_step.simps fst_conv on_arm_init_override_failed_def
    by (intro heartbeat_ok_stream) (simp_all add: invalidate_policy_chunks_def)
next
  case SoClose
  assume "heartbeat_ok s"
  then show ?thesis unfolding SoClose source_step.simps fst_conv close_source_def by (intro heartbeat_ok_stream) simp_all
qed

interpretation flow_source: state_machine "source_step nm c infer" heartbeat_ok for nm c infer
  by unfold_locales (rule source_step_heartbeat)

section \<open>Authority\<close>

definition gripper_authorised :: "SourceTick \<Rightarrow> FlowSource \<Rightarrow> arm \<Rightarrow> bool" where
  "gripper_authorised k s a =
     (\<not> arm_suspended_for_init (st_arm_mask k) s a \<and> \<not> recovering s
      \<and> (\<exists>p max_age execution. list_profiles ''flow_infer_preview'' (st_payload k) = [p]
           \<and> finite_number (dget p ''gripper_state_max_age_sec'') = Inr (Some max_age)
           \<and> 0 \<le> st_now k - st_received k \<and> st_now k - st_received k \<le> max_age
           \<and> dget (st_payload k) ''fault_latched'' \<noteq> PBool True \<and> dget (st_payload k) ''send_suppressed'' \<noteq> PBool True
           \<and> dget (st_payload k) ''preview_execution'' = PDict execution \<and> preview_active (st_now k) max_age execution a
           \<and> (so_recovery_enabled s \<longrightarrow> preview_active (st_now k) max_age execution ArmLeft \<and> preview_active (st_now k) max_age execution ArmRight)))"

lemma iterate_list_profiles:
  "iterate_profiles (dget_or d ''chunk_execution_profiles'' (PList [])) = Inr [p] \<Longrightarrow> list_profiles ''flow_infer_preview'' d = [p]"
  by (auto simp: iterate_profiles_def list_profiles_def dget_or_def split: pyval.splits option.splits)

lemma gripper_authority_sound:
  assumes "gripper_authority k s = Inr allowed" and "allowed a" and "\<not> arm_suspended_for_init (st_arm_mask k) s a"
  shows "gripper_authorised k s a"
proof -
  have nr: "\<not> recovering s" using assms(1,2) by (auto simp: gripper_authority_def Let_def)
  obtain ms where ms: "iterate_profiles (dget_or (st_payload k) ''chunk_execution_profiles'' (PList [])) = Inr ms"
    using assms(1) nr by (cases "iterate_profiles (dget_or (st_payload k) ''chunk_execution_profiles'' (PList []))") (simp_all add: gripper_authority_def Let_def)
  obtain p where "ms = [p]"
  proof (cases ms)
    case (Cons p rest)
    then show ?thesis using that assms(1,2) nr ms by (cases rest) (auto simp: gripper_authority_def Let_def)
  qed (use assms(1,2) nr ms in \<open>auto simp: gripper_authority_def Let_def\<close>)
  then have p: "iterate_profiles (dget_or (st_payload k) ''chunk_execution_profiles'' (PList [])) = Inr [p]" using ms by simp
  obtain m where m: "finite_number (dget p ''gripper_state_max_age_sec'') = Inr (Some m)"
    using assms(1,2) nr p by (auto simp: gripper_authority_def Let_def res_bind_Inr_iff split: option.splits)
  have fresh: "\<not> (m \<le> 0 \<or> \<not> (0 \<le> st_now k - st_received k \<and> st_now k - st_received k \<le> m))"
    using assms(1,2) nr p m by (auto simp: gripper_authority_def Let_def split: if_splits)
  have clear: "\<not> (dget (st_payload k) ''fault_latched'' = PBool True \<or> dget (st_payload k) ''send_suppressed'' = PBool True)"
    using assms(1,2) nr p m fresh by (auto simp: gripper_authority_def Let_def split: if_splits)
  obtain execution where e: "dget (st_payload k) ''preview_execution'' = PDict execution"
    using assms(1,2) nr p m fresh clear by (auto simp: gripper_authority_def Let_def split: pyval.splits)
  have "allowed = (if so_recovery_enabled s \<and> \<not> (preview_active (st_now k) m execution ArmLeft \<and> preview_active (st_now k) m execution ArmRight)
      then (\<lambda>_. False) else preview_active (st_now k) m execution)"
    using assms(1) nr p m fresh clear e by (simp add: gripper_authority_def Let_def)
  then show ?thesis using assms(2,3) nr iterate_list_profiles [OF p] m fresh clear e unfolding gripper_authorised_def
    by (intro conjI exI [of _ p] exI [of _ m] exI [of _ execution]) (auto split: if_splits)
qed

lemma authorised_cong:
  "recovering s = recovering s' \<Longrightarrow> so_recovery_enabled s = so_recovery_enabled s' \<Longrightarrow> so_init_suspended_arms s = so_init_suspended_arms s' \<Longrightarrow>
     gripper_authorised k s a = gripper_authorised k s' a"
  by (simp add: gripper_authorised_def arm_suspended_for_init_def)

lemma allowed_authorised:
  assumes "preview_profile c" and "update_preview_gripper_authority c k s1 = (s2, Inr ())" and "preview_gripper_arm_allowed c (st_arm_mask k) s3 a"
    and "s3 = on_stream f s2"
  shows "gripper_authorised k s3 a"
proof -
  obtain allowed where al: "gripper_authority k s1 = Inr allowed" and s2: "s2 = s1\<lparr>so_gripper_allowed := allowed\<rparr>"
    using assms(1,2) by (auto simp: update_preview_gripper_authority_def split: sum.splits)
  have "allowed a" "\<not> arm_suspended_for_init (st_arm_mask k) s1 a"
    using assms(1,3,4) s2 by (auto simp: preview_gripper_arm_allowed_def on_stream_def arm_suspended_for_init_def)
  from gripper_authority_sound [OF al this] show ?thesis
    by (subst authorised_cong [of s3 s1]) (simp_all add: assms(4) s2 on_stream_def recovering_def)
qed

section \<open>Where commands come from\<close>

lemma row_step_commands:
  assumes "gripper_row_step fl c g (i, r, d) = (g', Inr (targets, cmds))" and "cmd \<in> set cmds"
  shows "\<exists>a. gc_arm cmd = side_key a \<and> gi_arm_allowed i a"
proof -
  obtain g1 where "dispatch_gripper_step fl c i r g1 = Inr cmds"
    using assms(1) by (auto simp: gripper_row_step_def res_bind_Inr_iff split: prod.splits sum.splits)
  then have "gc_arm cmd = side_key ArmLeft \<and> gi_arm_allowed i ArmLeft \<or> gc_arm cmd = side_key ArmRight \<and> gi_arm_allowed i ArmRight"
    using assms(2) by (auto simp: dispatch_gripper_step_def gripper_commands_from_flow_step_def flow_arm_def res_bind_Inr_iff gripper_command_def
        zero_pyfloat_def split: if_splits)
  then show ?thesis by blast
qed

lemma execute_commands:
  assumes "execute_row nm c k rows s = (s', cmds, out)" and "cmd \<in> set cmds"
  shows "\<exists>a. gc_arm cmd = side_key a \<and> gi_arm_allowed (tk_gripper k) a"
proof -
  obtain g x where g: "gripper_row_step (fn_round nm) (fc_gripper c) (fs_gripper s)
      (tk_gripper k, gripper_step_row (fc_gripper c) rows (fs_chunk_index s), tk_payload k) = (g, x)" by (rule prod.exhaust)
  show ?thesis
  proof (cases x)
    case (Inl e)
    then show ?thesis using assms g by (simp add: execute_row_def)
  next
    case (Inr y)
    obtain grip commands where y: "y = (grip, commands)" by (rule prod.exhaust)
    then have "cmds = commands" using assms(1) g Inr by (auto simp: execute_row_def Let_def split: prod.splits sum.splits)
    then show ?thesis using row_step_commands [of _ _ _ _ _ _ g grip commands cmd] g Inr y assms(2) by blast
  qed
qed

lemma streamed_commands:
  assumes "next_intent_streamed nm c infer k s = (s', cmds, out)" and "cmd \<in> set cmds"
  shows "\<exists>a. gc_arm cmd = side_key a \<and> gi_arm_allowed (tk_gripper k) a"
proof -
  obtain adv x where "finish_stream_tick nm c k adv x = (s', cmds, out)"
    using assms by (auto simp: next_intent_streamed_def split: prod.splits sum.splits StreamMove.splits)
  then obtain rows y where "execute_row nm c k rows y = (s', cmds, out)"
    using assms(2) by (auto simp: finish_stream_tick_def split: option.splits if_splits prod.splits sum.splits)
  then show ?thesis using execute_commands assms(2) by blast
qed

lemma sync_commands:
  assumes "next_intent_sync nm c infer k g s = (s', cmds, out)" and "cmd \<in> set cmds"
  shows "\<exists>a. gc_arm cmd = side_key a \<and> gi_arm_allowed g a"
proof -
  obtain x r gs grip where "gripper_row_step (fn_round nm) (fc_gripper (sc_flow c)) x (g, r, st_payload k) = (gs, Inr (grip, cmds))"
    using assms by (auto simp: next_intent_sync_def Let_def split: prod.splits sum.splits option.splits if_splits)
  from row_step_commands [OF this assms(2)] show ?thesis .
qed

lemma guard_arm:
  "preview_profile c \<Longrightarrow> guard_preview_gripper_intent c am s (Some i) = Some j \<Longrightarrow>
     ci_arm a j = (if preview_gripper_arm_allowed c am s a then ci_arm a i else map_option (\<lambda>q. ddel q ''gripper_target'') (ci_arm a i))"
  by (cases a) (auto simp: guard_preview_gripper_intent_def Let_def)

lemma guard_targets:
  assumes "preview_profile c" and "targets_gripper (guard_preview_gripper_intent c am s i) a"
  shows "preview_gripper_arm_allowed c am s a"
proof -
  obtain j q where j: "guard_preview_gripper_intent c am s i = Some j" "ci_arm a j = Some q" "map_of q ''gripper_target'' \<noteq> None"
    using assms(2) by (auto simp: targets_gripper_def)
  then obtain z where "i = Some z" using assms(1) by (cases i) (simp_all add: guard_preview_gripper_intent_def)
  from guard_arm [OF assms(1) j(1) [unfolded this], of a] j(2,3) show ?thesis by (cases "ci_arm a z") (auto simp: map_of_ddel split: if_splits)
qed

section \<open>No gripper moves without authority\<close>

text \<open>(C7) Under preview execution a gripper is moved only on fresh telemetry. In any run of the source, with exceptions or without,
  every gripper command a call hands to the backend and every gripper target in the intent it returns is for an arm that is not suspended
  for initialisation, while the server is not recovering, and whose preview execution this very snapshot reports as enabled and active, with a sample no
  older than the profile allows, in a snapshot received as recently, with no fault latched and sending not suppressed; under a recovery contract, for both arms at
  once. This covers the heartbeat that is sent during recovery, cached intents, and both the streamed and the chunkwise mode.\<close>

theorem gripper_moves_only_with_authority:
  assumes "fc_tcp_target_profile (sc_flow c) = ''flow_infer_preview''" and "s = state_after (source_step nm c infer) flow_source_init ops"
    and "next_intent nm c infer k s = (s', cmds, out)"
  shows "(\<forall>cmd. cmd \<in> set cmds \<longrightarrow> (\<exists>a. gc_arm cmd = side_key a \<and> gripper_authorised k s' a))
    \<and> (\<forall>i a. out = Inr i \<longrightarrow> targets_gripper i a \<longrightarrow> gripper_authorised k s' a)"
proof -
  have ok: "heartbeat_ok s" unfolding assms(2)
    by (rule flow_source.inv_run) (simp add: heartbeat_ok_def flow_source_init_def flow_stream_init_def no_heartbeat_ok)
  show ?thesis using assms(3) ok
  proof (cases rule: next_intent_cases)
    case stopped
    then show ?thesis by auto
  next
    case (policy s1 s2 s3)
    note auth = allowed_authorised [OF assms(1) policy(1) _ policy(2)]
    obtain st out0 where st: "s' = s3\<lparr>so_stream := st\<rparr>" and out: "out = res_bind out0 (\<lambda>i. Inr (guard_preview_gripper_intent c (st_arm_mask k) s3 i))"
      and src: "next_intent_streamed nm (sc_flow c) infer (flow_tick c k s3) (so_stream s3) = (st, cmds, out0)
        \<or> next_intent_sync nm c infer k (tk_gripper (flow_tick c k s3)) (so_stream s3) = (st, cmds, out0)"
      using policy(4) by (auto simp: policy_intent_def Let_def split: prod.splits if_splits)
    have cong: "gripper_authorised k s' a = gripper_authorised k s3 a" for a by (rule authorised_cong) (simp_all add: st recovering_def)
    have "\<exists>a. gc_arm cmd = side_key a \<and> preview_gripper_arm_allowed c (st_arm_mask k) s3 a" if "cmd \<in> set cmds" for cmd
      using src streamed_commands [OF _ that] sync_commands [OF _ that] by (fastforce simp: flow_tick_def)
    moreover have "preview_gripper_arm_allowed c (st_arm_mask k) s3 a" if "out = Inr i" "targets_gripper i a" for i a
      using that out guard_targets [OF assms(1)] by (auto simp: res_bind_Inr_iff)
    ultimately show ?thesis using auth cong by metis
  qed
qed

text \<open>A snapshot of a server that executes the left arm's plan, and the first call of the source on it.\<close>

definition preview_config :: SourceConfig where
  "preview_config = \<lparr>sc_flow = flow_demo_config\<lparr>fc_tcp_target_profile := ''flow_infer_preview''\<rparr>, sc_enable_async_chunking = True, sc_has_cameras = False,
     sc_numpy = \<lparr>np_asarray = (\<lambda>_. Inr None), np_norm = (\<lambda>_. Fin 1)\<rparr>\<rparr>"

definition preview_payload :: pydict where
  "preview_payload =
     [(''chunk_execution_profiles'', PList [PDict [(''name'', PStr ''flow_infer_preview''), (''enabled'', PBool True), (''controller'', PStr ''delta_preview''),
         (''fresh_chunk_replan'', PBool True), (''continuous_hold_resume'', PBool True), (''preview_execution'', PBool True),
         (''gripper_state_max_age_sec'', PFloat (Fin 1))]]),
      (''preview_execution'', PDict [(''left'', PDict [(''sample_time_ns'', PInt 1000000000), (''enabled'', PBool True), (''active'', PBool True),
         (''status'', PStr ''active'')])])]"

definition preview_tick :: SourceTick where
  "preview_tick = \<lparr>st_now = 1, st_received = 1, st_payload = preview_payload, st_arm_mask = (\<lambda>a. case a of ArmLeft \<Rightarrow> Fin 1 | ArmRight \<Rightarrow> Fin 0),
     st_packet_allowed = True, st_backend = (\<lambda>_. None), st_worker = (\<lambda>_. []), st_cameras_ready = True\<rparr>"

lemma preview_keys [simp]:
  "dget_or preview_payload ''left'' v = v" "dget_or preview_payload ''right'' v = v" "dget_or preview_payload ''motion_epoch'' v = v"
  "dget_or preview_payload ''preview_recovery'' v = v" "dget_or preview_payload ''fault_latched'' v = v" "dget_or preview_payload ''send_suppressed'' v = v"
  "dget_or preview_payload ''preview_execution'' v = PDict [(''left'', PDict [(''sample_time_ns'', PInt 1000000000), (''enabled'', PBool True),
     (''active'', PBool True), (''status'', PStr ''active'')])]"
  by (simp_all add: preview_payload_def)

lemma preview_pose: "pose_from_state_payload preview_payload a ''auto'' = Inr ((0, 0, 0), (0, 0, 0, 1))"
proof -
  have "pose_from_state_payload preview_payload a ''auto'' = pose_from_state_payload [] a ''auto''"
    by (cases a) (simp_all add: pose_from_state_payload_def)
  then show ?thesis by (simp add: flow_demo_pose)
qed

lemma preview_checks:
  "require_chunk_execution_profile preview_config preview_payload = Inr ()"
  "require_force_control_tare am preview_payload flow_source_init = Inr ()"
  "update_preview_recovery preview_config preview_tick flow_source_init = (flow_source_init, Inr ())"
  by (simp_all add: require_chunk_execution_profile_def preview_config_def list_profiles_def preview_payload_def finite_number_def
      require_force_control_tare_def untared_def update_preview_recovery_def preview_tick_def flow_source_init_def)

lemma preview_authority:
  "\<exists>allowed. update_preview_gripper_authority preview_config preview_tick flow_source_init = (flow_source_init\<lparr>so_gripper_allowed := allowed\<rparr>, Inr ()) \<and> allowed ArmLeft"
proof -
  have age: "age_sec 1 1000000000 = 0" by (simp add: age_sec_def round_even_def)
  have prof: "iterate_profiles (dget_or preview_payload ''chunk_execution_profiles'' (PList [])) = Inr [[(''name'', PStr ''flow_infer_preview''), (''enabled'', PBool True),
         (''controller'', PStr ''delta_preview''),
         (''fresh_chunk_replan'', PBool True), (''continuous_hold_resume'', PBool True), (''preview_execution'', PBool True),
         (''gripper_state_max_age_sec'', PFloat (Fin 1))]]" by (simp add: iterate_profiles_def preview_payload_def)
  show ?thesis
    using prof age by (simp add: update_preview_gripper_authority_def preview_config_def gripper_authority_def preview_tick_def recovering_def flow_source_init_def
        finite_number_def preview_active_def Let_def)
qed

lemma preview_streamed:
  assumes "tk_payload k = preview_payload" and "tk_now k = 1" and "tk_worker k = (\<lambda>_. [])" and "gi_arm_mask (tk_gripper k) = st_arm_mask preview_tick"
    and "gi_arm_allowed (tk_gripper k) ArmLeft" and "gi_packet_allowed (tk_gripper k)" and "gi_backend (tk_gripper k) = (\<lambda>_. None)"
    and "s = flow_stream_init\<lparr>fs_overlay_payload := p\<rparr>"
  shows "\<exists>s' cmds out. next_intent_streamed flow_demo_numerics (sc_flow preview_config) flow_demo_infer k s = (s', cmds, out) \<and> cmds \<noteq> []"
proof -
  define s0 where "s0 = flow_stream_init\<lparr>fs_overlay_payload := Some preview_payload,
    fs_reset_pose := (\<lambda>_. None)(ArmLeft := Some ((0, 0, 0), (0, 0, 0, 1)), ArmRight := Some ((0, 0, 0), (0, 0, 0, 1)))\<rparr>"
  have e: "ensure_reset_poses preview_payload (s\<lparr>fs_overlay_payload := Some preview_payload\<rparr>) = (s0, Inr ())"
    by (simp add: ensure_reset_poses_def assms(8) flow_stream_init_def preview_pose s0_def)
  obtain s1 where a: "advance_stream flow_demo_numerics (sc_flow preview_config) flow_demo_infer k s0 = (s1, Inr MvRow)"
    and f: "fs_chunk s1 = Some [flow_demo_row 1, flow_demo_row 2, flow_demo_row 3]" "fs_chunk_index s1 = 0" "fs_scheduler s1 = None"
    "fs_gripper s1 = flow_gripper_init"
    unfolding s0_def using assms
    by (simp add: advance_stream_def acquire_chunk_def fetch_chunk_def Let_def take_next_def with_worker_def take_prefetched_def sample_inline_def
        ensure_chunk_ensemble_def activate_chunk_def band_limit_chunk_def chunk_meta_def inference_recovery_metadata_def publish_chunk_overlay_def
        overlay_chain_advance_def preview_config_def flow_demo_defs)
  have kp: "kick_prefetch (sc_flow preview_config) flow_demo_infer k s1 = s1"
    using f assms(3) by (simp add: kick_prefetch_def Let_def with_worker_def stream_prefetch_at_def current_chunk_execute_limit_def preview_config_def flow_demo_defs)
  have "\<exists>g grip cmds. gripper_row_step (fn_round flow_demo_numerics) (fc_gripper (sc_flow preview_config)) flow_gripper_init
      (tk_gripper k, flow_demo_row 1, preview_payload) = (g, Inr (grip, cmds)) \<and> cmds \<noteq> []"
    using assms(4-7)
    by (simp add: gripper_row_step_def integrate_gripper_targets_def preview_tick_def preview_config_def flow_demo_config_def flow_demo_gripper_config_def
        flow_gripper_init_def flow_demo_row_def measured_gripper_percent_def live_gripper_percent_def note_gripper_actual_def gripper_value_from_payload_def
        arm_gripper_target_def map_gripper_opening_def flow_close_bias_def clip_percent_def hold_gripper_within_deadband_def dispatch_gripper_step_def
        dispatch_row_def gripper_command_for_dispatch_def row_values_def delta_list_def gripper_commands_from_flow_step_def flow_arm_def
        gripper_command_def positive_or_zero_float_def Let_def)
  then obtain g grip cmds where g: "gripper_row_step (fn_round flow_demo_numerics) (fc_gripper (sc_flow preview_config)) flow_gripper_init
      (tk_gripper k, flow_demo_row 1, preview_payload) = (g, Inr (grip, cmds))" "cmds \<noteq> []" by blast
  have row: "gripper_step_row (fc_gripper (sc_flow preview_config)) [flow_demo_row 1, flow_demo_row 2, flow_demo_row 3] 0 = flow_demo_row 1"
    by (simp add: gripper_step_row_def preview_config_def flow_demo_config_def flow_demo_gripper_config_def)
  have "\<exists>s' out. execute_row flow_demo_numerics (sc_flow preview_config) k [flow_demo_row 1, flow_demo_row 2, flow_demo_row 3] s1 = (s', cmds, out)"
    using g(1) f(2,4) assms(1) row by (auto simp: execute_row_def Let_def split: prod.splits sum.splits)
  then show ?thesis using e a kp f(1) assms(1) g(2) by (auto simp: next_intent_streamed_def finish_stream_tick_def)
qed

theorem gripper_moves_only_with_authority_witness:
  "\<exists>s' cmds out cmd a. next_intent flow_demo_numerics preview_config flow_demo_infer preview_tick flow_source_init = (s', cmds, out)
     \<and> cmd \<in> set cmds \<and> gc_arm cmd = side_key a \<and> gripper_authorised preview_tick s' a"
proof -
  obtain allowed where au: "update_preview_gripper_authority preview_config preview_tick flow_source_init = (flow_source_init\<lparr>so_gripper_allowed := allowed\<rparr>, Inr ())"
    and left: "allowed ArmLeft" using preview_authority by blast
  define s3 where "s3 = on_stream (\<lambda>x. handle_server_motion_epoch preview_payload (x\<lparr>fs_overlay_payload := Some preview_payload\<rparr>))
    (flow_source_init\<lparr>so_gripper_allowed := allowed\<rparr>)"
  have s3: "so_stream s3 = flow_stream_init\<lparr>fs_overlay_payload := Some preview_payload\<rparr>" "so_init_suspended_arms s3 = {}"
    "so_recovery_enabled s3 = False" "so_gripper_allowed s3 = allowed"
    by (simp_all add: s3_def on_stream_def handle_server_motion_epoch_def flow_source_init_def)
  have tick: "st_payload preview_tick = preview_payload" "tk_now (flow_tick preview_config preview_tick s3) = 1"
    "tk_payload (flow_tick preview_config preview_tick s3) = preview_payload" "tk_worker (flow_tick preview_config preview_tick s3) = (\<lambda>_. [])"
    "gi_arm_mask (tk_gripper (flow_tick preview_config preview_tick s3)) = st_arm_mask preview_tick"
    "gi_packet_allowed (tk_gripper (flow_tick preview_config preview_tick s3))"
    "gi_backend (tk_gripper (flow_tick preview_config preview_tick s3)) = (\<lambda>_. None)"
    "gi_arm_allowed (tk_gripper (flow_tick preview_config preview_tick s3)) ArmLeft"
    using s3 left by (simp_all add: flow_tick_def preview_tick_def preview_gripper_arm_allowed_def arm_suspended_for_init_def recovering_def preview_config_def)
  obtain st cmds out0 where st: "next_intent_streamed flow_demo_numerics (sc_flow preview_config) flow_demo_infer (flow_tick preview_config preview_tick s3)
      (so_stream s3) = (st, cmds, out0)" "cmds \<noteq> []" using preview_streamed [OF tick(3,2,4,5,8,6,7) s3(1)] by blast
  have pol: "\<exists>out. policy_intent flow_demo_numerics preview_config flow_demo_infer preview_tick s3 = (s3\<lparr>so_stream := st\<rparr>, cmds, out)"
    using st(1) by (simp add: policy_intent_def preview_config_def)
  have rec: "preview_recovery_intent preview_config flow_demo_infer preview_tick s3 = (s3, Inr (False, None))"
    using s3(3) by (simp add: preview_recovery_intent_def recovering_def)
  have "\<not> arm_suspended_for_init (st_arm_mask preview_tick) flow_source_init ArmLeft" by (simp add: arm_suspended_for_init_def flow_source_init_def)
  then obtain out where n: "next_intent flow_demo_numerics preview_config flow_demo_infer preview_tick flow_source_init = (s3\<lparr>so_stream := st\<rparr>, cmds, out)"
    using pol rec preview_checks au by (auto simp: next_intent_def tick(1) s3_def)
  have prof: "fc_tcp_target_profile (sc_flow preview_config) = ''flow_infer_preview''" by (simp add: preview_config_def)
  obtain cmd where cmd: "cmd \<in> set cmds" using st(2) by (cases cmds) auto
  from gripper_moves_only_with_authority [where ops = "[]", OF prof _ n]
  obtain a where "gc_arm cmd = side_key a" "gripper_authorised preview_tick (s3\<lparr>so_stream := st\<rparr>) a" using cmd by auto
  then show ?thesis using n cmd by blast
qed

end
