(* ===== verification/FlowSafety.thy ===== *)
theory FlowSafety
  imports FlowAuthority
begin

text \<open>
  The policy source and arm initialisation together: what the whole source, streamed, may execute after an arm was moved by
  someone else.
\<close>

section \<open>The source keeps the playback's invariant\<close>

abbreviation source_returns :: "SourceOp \<Rightarrow> GripperCommand list \<times> CommandIntent option res \<Rightarrow> bool" where
  "source_returns \<equiv> \<lambda>_ out. \<exists>i. snd out = Inr i"

lemma drop_plan_ok:
  assumes "stream_ok infer c N s"
  shows "stream_ok infer c N (drop_plan s)"
proof -
  define s1 where "s1 = s\<lparr>fs_recovery_heartbeat := (case fs_current_step_intent s of Some i \<Rightarrow> without_grippers (Some i) | None \<Rightarrow> fs_recovery_heartbeat s)\<rparr>"
  have "mailbox_ok (fs_mailbox s1)" "fs_scheduler s1 = None" "N \<le> mb_inference_seq (fs_mailbox s1)"
    using assms by (simp_all add: s1_def stream_ok_def mid_ok_def mail_fresh_def)
  from invalidate_ok [OF this, of infer c "''preview_recovery''"]
  have ok: "stream_ok infer c N (clear_targets {} (invalidate_policy_chunks ''preview_recovery'' s1))" by (simp add: clear_targets_ok)
  have frame: "stream_ok infer c N (x\<lparr>fs_active := a, fs_targets := t, fs_overlay := v, fs_candidate_published := False, fs_resume_row_pending := False\<rparr>)"
    if "stream_ok infer c N x" "fs_chunk x = None" for x a t v
    using that by (simp add: stream_ok_def mid_ok_def chunk_ok_def)
  have "fs_chunk (clear_targets {} (invalidate_policy_chunks ''preview_recovery'' s1)) = None"
    by (simp add: clear_targets_def invalidate_policy_chunks_def split: prod.splits)
  from frame [OF ok this] show ?thesis unfolding drop_plan_def s1_def [symmetric] Let_def .
qed

lemma epoch_ok:
  assumes "stream_ok infer c N s"
  shows "stream_ok infer c N (handle_server_motion_epoch d s)"
proof -
  have upd: "stream_ok infer c N (s\<lparr>fs_last_motion_epoch := e\<rparr>) = stream_ok infer c N s" for e
    by (simp add: stream_ok_def mid_ok_def chunk_ok_def played_chunk_def)
  have inv: "stream_ok infer c N (invalidate_policy_chunks r (clear_targets {} (s\<lparr>fs_last_motion_epoch := e\<rparr>)))" for e r
  proof -
    let ?x = "clear_targets {} (s\<lparr>fs_last_motion_epoch := e\<rparr>)"
    have "stream_ok infer c N ?x" using assms upd by (simp add: clear_targets_ok)
    then show ?thesis by (intro invalidate_ok) (simp_all add: stream_ok_def mid_ok_def mail_fresh_def)
  qed
  show ?thesis using assms upd inv by (auto simp: handle_server_motion_epoch_def Let_def split: sum.splits option.splits)
qed

definition source_ok :: "(InferRequest \<Rightarrow> Inference) \<Rightarrow> SourceConfig \<Rightarrow> int \<Rightarrow> FlowSource \<Rightarrow> bool" where
  "source_ok infer c N s = stream_ok infer (sc_flow c) N (so_stream s)"

lemma source_ok_on: "(stream_ok infer (sc_flow c) N (so_stream s) \<Longrightarrow> stream_ok infer (sc_flow c) N (f (so_stream s))) \<Longrightarrow>
    source_ok infer c N s \<Longrightarrow> source_ok infer c N (on_stream f s)"
  by (simp add: source_ok_def on_stream_def)

lemma source_ok_recovery: "source_ok infer c N s \<Longrightarrow> source_ok infer c N (fst (update_preview_recovery c k s))"
  by (auto simp: update_preview_recovery_def source_ok_def Let_def on_stream_def drop_plan_ok split: sum.splits option.splits)

lemma source_ok_authority: "source_ok infer c N s \<Longrightarrow> source_ok infer c N (fst (update_preview_gripper_authority c k s))"
  by (simp add: update_preview_gripper_authority_def source_ok_def split: sum.splits)

lemma heartbeat_update: "stream_ok infer c N (s\<lparr>fs_recovery_heartbeat := h\<rparr>) = stream_ok infer c N s"
  by (simp add: stream_ok_def mid_ok_def chunk_ok_def played_chunk_def)

lemma source_ok_recovery_intent: "source_ok infer c N s \<Longrightarrow> source_ok infer c N (fst (preview_recovery_intent c infer k s))"
  by (auto simp: preview_recovery_intent_def source_ok_def on_stream_def Let_def heartbeat_update recovery_ok split: sum.splits option.splits)

lemma source_ok_policy:
  assumes "sc_enable_async_chunking c" and "fc_chunk_stitch_mode (sc_flow c) \<noteq> ''ensemble''" and "source_ok infer c N s"
    and "policy_intent nm c infer k s = (s', cmds, Inr out)"
  shows "tick_spec infer (sc_flow c) N (st_now k) (so_stream s) (so_stream s')"
proof -
  obtain st out0 where "next_intent_streamed nm (sc_flow c) infer (flow_tick c k s) (so_stream s) = (st, cmds, Inr out0)" "so_stream s' = st"
    using assms(1,4) by (auto simp: policy_intent_def Let_def res_bind_Inr_iff split: prod.splits)
  then show ?thesis using tick_ok [OF assms(2) assms(3) [unfolded source_ok_def]] by (fastforce simp: flow_tick_def)
qed

lemma emitted_frame:
  "fs_emitted (clear_targets arms x) = fs_emitted x" "fs_emitted (invalidate_policy_chunks r x) = fs_emitted x" "fs_emitted (drop_plan x) = fs_emitted x"
  "fs_emitted (handle_server_motion_epoch d x) = fs_emitted x" "fs_emitted (publish_recovery_candidate c infer k e t x) = fs_emitted x"
proof -
  show clear: "fs_emitted (clear_targets arms x) = fs_emitted x" for arms x by (simp add: clear_targets_def split: prod.splits)
  show inv: "fs_emitted (invalidate_policy_chunks r x) = fs_emitted x" for r x by (simp add: invalidate_policy_chunks_def)
  show "fs_emitted (drop_plan x) = fs_emitted x" by (simp add: drop_plan_def Let_def clear inv)
  show "fs_emitted (handle_server_motion_epoch d x) = fs_emitted x"
    by (simp add: handle_server_motion_epoch_def Let_def clear inv split: sum.splits option.splits)
  have "fs_emitted x' = fs_emitted y" if "take_next y = (x', rows)" for y x' rows using that by (auto simp: take_next_def split: prod.splits)
  then show "fs_emitted (publish_recovery_candidate c infer k e t x) = fs_emitted x"
    by (fastforce simp: publish_recovery_candidate_def Let_def activate_chunk_frame split: prod.splits option.splits)
qed

lemma source_emitted:
  "fs_emitted (so_stream (fst (update_preview_recovery c k s))) = fs_emitted (so_stream s)"
  "fs_emitted (so_stream (fst (update_preview_gripper_authority c k s))) = fs_emitted (so_stream s)"
  "fs_emitted (so_stream (fst (preview_recovery_intent c infer k s))) = fs_emitted (so_stream s)"
  by (auto simp: update_preview_recovery_def update_preview_gripper_authority_def preview_recovery_intent_def on_stream_def emitted_frame Let_def
      split: sum.splits option.splits)

text \<open>A call that returns: either no row is executed, or it is a tick of the playback.\<close>

lemma next_intent_ok:
  assumes "sc_enable_async_chunking c" and "fc_chunk_stitch_mode (sc_flow c) \<noteq> ''ensemble''" and "source_ok infer c N s"
    and "next_intent nm c infer k s = (s', cmds, Inr out)"
  shows "source_ok infer c N s' \<and> (\<exists>x. source_ok infer c N x \<and> fs_emitted (so_stream x) = fs_emitted (so_stream s)
    \<and> (so_stream s' = so_stream x \<or> tick_spec infer (sc_flow c) N (st_now k) (so_stream x) (so_stream s')))"
proof -
  let ?epoch = "on_stream (\<lambda>x. handle_server_motion_epoch (st_payload k) (x\<lparr>fs_overlay_payload := Some (st_payload k)\<rparr>))"
  obtain s1 u1 where r: "update_preview_recovery c k s = (s1, u1)" by (rule prod.exhaust)
  obtain s2 u2 where a: "update_preview_gripper_authority c k s1 = (s2, u2)" by (rule prod.exhaust)
  obtain s4 p where i: "preview_recovery_intent c infer k (?epoch s2) = (s4, p)" by (rule prod.exhaust)
  have ok1: "source_ok infer c N s1" using source_ok_recovery [OF assms(3), of k] r by simp
  have ok2: "source_ok infer c N s2" using source_ok_authority [OF ok1, of k] a by simp
  have "source_ok infer c N (?epoch s2)" using ok2 by (intro source_ok_on) (simp_all add: epoch_ok)
  then have ok4: "source_ok infer c N s4" using source_ok_recovery_intent [of infer c N "?epoch s2" k] i by simp
  have e4: "fs_emitted (so_stream s4) = fs_emitted (so_stream s)"
    using source_emitted(1) [of c k s] source_emitted(2) [of c k s1] source_emitted(3) [of c infer k "?epoch s2"] r a i
    by (simp add: on_stream_def emitted_frame)
  have "s' \<in> {s, s4} \<or> policy_intent nm c infer k s4 = (s', cmds, Inr out)"
    using assms(4) r a i by (auto simp: next_intent_def split: sum.splits if_splits bool.splits)
  then show ?thesis
  proof
    assume "s' \<in> {s, s4}"
    then show ?thesis using assms(3) ok4 e4 by auto
  next
    assume "policy_intent nm c infer k s4 = (s', cmds, Inr out)"
    note t = source_ok_policy [OF assms(1,2) ok4 this]
    then have "source_ok infer c N s'" by (simp add: tick_spec_def source_ok_def)
    then show ?thesis using t ok4 e4 by blast
  qed
qed

lemma source_invalidate:
  assumes "source_ok infer c N s" and "\<And>x. stream_ok infer (sc_flow c) N x \<Longrightarrow> stream_ok infer (sc_flow c) N (f x)"
  shows "source_ok infer c N (on_stream (\<lambda>x. invalidate_policy_chunks r (f x)) s)"
proof -
  have "mailbox_ok (fs_mailbox (f (so_stream s)))" "fs_scheduler (f (so_stream s)) = None" "N \<le> mb_inference_seq (fs_mailbox (f (so_stream s)))"
    using assms(2) [OF assms(1) [unfolded source_ok_def]] by (simp_all add: stream_ok_def mid_ok_def mail_fresh_def)
  from invalidate_ok [OF this] show ?thesis by (simp add: source_ok_def on_stream_def)
qed

lemma close_ok:
  assumes "stream_ok infer c N s"
  shows "stream_ok infer c N (s\<lparr>fs_mailbox := close_mailbox (fs_mailbox s)\<rparr>)"
proof -
  let ?s = "s\<lparr>fs_mailbox := close_mailbox (fs_mailbox s)\<rparr>"
  have "chunk_ok infer c N p ?s = chunk_ok infer c N p s" for p by (rule chunk_ok_cong) (simp_all add: close_mailbox_def)
  moreover have "mail_fresh infer N e (close_mailbox m) = mail_fresh infer N e m" for e m by (simp add: close_mailbox_def mail_fresh_def)
  ultimately show ?thesis using assms mailbox_ok_close [of "fs_mailbox s"] by (auto simp: stream_ok_def mid_ok_def)
qed

lemma source_step_ok:
  assumes "sc_enable_async_chunking c" and "fc_chunk_stitch_mode (sc_flow c) \<noteq> ''ensemble''" and ok: "source_ok infer c N s"
    and ret: "snd (snd (source_step nm c infer s op)) = Inr i"
  shows "source_ok infer c N (fst (source_step nm c infer s op))"
proof (cases op)
  case (SoNext k)
  obtain s' cmds out where "next_intent nm c infer k s = (s', cmds, out)" by (rule prod_cases3)
  then show ?thesis using next_intent_ok [OF assms(1,2) ok, of nm k s' cmds i] ret SoNext by simp
next
  case (SoSuspend arms pv)
  have "source_ok infer c N (on_stream (\<lambda>x. invalidate_policy_chunks ''external_init_start'' (clear_targets {} x)) s)"
    by (rule source_invalidate [OF ok]) (simp add: clear_targets_ok)
  then show ?thesis using ok by (simp add: SoSuspend set_arm_init_suspension_def source_ok_def Let_def)
next
  case (SoInitStart am arms)
  have "source_ok infer c N (on_stream (\<lambda>x. invalidate_policy_chunks ''arm_init_start'' (clear_targets (set arms) x)) s)"
    by (rule source_invalidate [OF ok]) (simp add: clear_targets_ok)
  then show ?thesis using ok by (simp add: SoInitStart on_arm_init_override_start_def source_ok_def on_stream_def clear_targets_ok Let_def)
next
  case (SoInitDone arms d)
  show ?thesis unfolding SoInitDone source_step.simps fst_conv on_arm_init_override_done_def by (rule source_invalidate [OF ok]) (simp add: reanchor_ok)
next
  case (SoInitCancel arms d)
  show ?thesis unfolding SoInitCancel source_step.simps fst_conv on_arm_init_override_cancel_def by (rule source_invalidate [OF ok]) (simp add: reanchor_ok)
next
  case SoInitFailed
  show ?thesis unfolding SoInitFailed source_step.simps fst_conv on_arm_init_override_failed_def by (rule source_invalidate [OF ok])
next
  case SoClose
  then show ?thesis using ok close_ok by (simp add: close_source_def source_ok_def on_stream_def)
qed

interpretation streamed_source: guarded_machine "source_step nm c infer" "source_ok infer c N"
  "\<lambda>op out. sc_enable_async_chunking c \<and> fc_chunk_stitch_mode (sc_flow c) \<noteq> ''ensemble'' \<and> source_returns op out" for nm c infer N
proof
  show "source_ok infer c N (fst (source_step nm c infer s op))"
    if "source_ok infer c N s" "sc_enable_async_chunking c \<and> fc_chunk_stitch_mode (sc_flow c) \<noteq> ''ensemble'' \<and> source_returns op (snd (source_step nm c infer s op))"
    for s op using that source_step_ok by metis
qed

lemma streamed_source_run:
  assumes "sc_enable_async_chunking c" and "fc_chunk_stitch_mode (sc_flow c) \<noteq> ''ensemble''" and "source_ok infer c N s"
    and "calls_ok source_returns (source_step nm c infer) s ops"
  shows "source_ok infer c N (state_after (source_step nm c infer) s ops)"
  by (rule streamed_source.inv_ok_run [OF assms(3)], rule calls_ok_mono [OF assms(4)]) (simp add: assms(1,2))

section \<open>Nothing planned before an arm was moved is executed after it\<close>

lemma override_end_ok:
  assumes "source_ok infer c M s" and "op \<in> {SoInitDone arms d, SoInitCancel arms d, SoInitFailed}" and "N = mb_inference_seq (fs_mailbox (so_stream s))"
  shows "source_ok infer c N (fst (source_step nm c infer s op))"
proof -
  have frame: "fs_mailbox (reanchor_arms_to_snapshot d as x) = fs_mailbox x \<and> fs_scheduler (reanchor_arms_to_snapshot d as x) = fs_scheduler x" for as x
    by (induction d as x rule: reanchor_arms_to_snapshot.induct) (simp_all add: Let_def split: sum.splits)
  have "mailbox_ok (fs_mailbox (so_stream s))" "fs_scheduler (so_stream s) = None" using assms(1) by (simp_all add: source_ok_def stream_ok_def mid_ok_def)
  then show ?thesis using assms(2,3) frame
    by (auto simp: source_ok_def on_arm_init_override_done_def on_arm_init_override_cancel_def on_arm_init_override_failed_def on_stream_def
        intro!: invalidate_ok)
qed


definition smooth_config :: SourceConfig where
  "smooth_config = \<lparr>sc_flow = flow_demo_config, sc_enable_async_chunking = True, sc_has_cameras = False,
     sc_numpy = \<lparr>np_asarray = (\<lambda>_. Inr None), np_norm = (\<lambda>_. Fin 1)\<rparr>\<rparr>"

definition smooth_tick :: SourceTick where
  "smooth_tick = \<lparr>st_now = 0, st_received = 0, st_payload = [], st_arm_mask = (\<lambda>_. Fin 0), st_packet_allowed = True, st_backend = (\<lambda>_. None),
     st_worker = (\<lambda>_. []), st_cameras_ready = True\<rparr>"


end
