(* ===== verification/Spec2Isabelle.thy ===== *)
theory Spec2Isabelle
  imports RunLoop GripperServer TcpConditioner ChunkEnsemble UmiSafety CommandHistory FlowSafety
begin

text \<open>
  A verification of \<^verbatim>\<open>policy_runner\<close>, the Python process that drives two robot arms and their
  grippers from a policy or an operator. It is one process: a command loop at the servo rate reads the
  robot's state stream, asks an action source for an intent, lets the arm-init override replace the
  arms it has latched, passes the result through the safety gate, holds a lease on the servo server,
  arms motion and sends numbered UDP packets, while it records episodes and answers control datagrams.
  The C++ servo server at the other end of the UDP link is not part of the model.

  \<^bold>\<open>Theories and sources\<close> (under \<^verbatim>\<open>src/policy_runner/policy_runner/\<close>)

  \<^item> \<open>PyPrelude\<close> models what the code uses of Python: exceptions as values of \<open>pyexc\<close>, results \<open>'a res\<close>,
    floats as exact rationals with the infinities and NaN, JSON values, dictionaries as association lists
    with insertion order, \<^verbatim>\<open>str\<close>, \<^verbatim>\<open>int\<close>, \<^verbatim>\<open>float\<close> and string methods. \<open>Machines\<close> has runs of a step
    function over a list of calls, and the locales \<open>history_machine\<close>, \<open>state_machine\<close> and
    \<open>guarded_machine\<close> that turn a per-call law into a property of every run, the last for runs whose
    calls meet a condition such as not raising. Every stateful component interprets one of them.
  \<^item> \<open>StateClient\<close>: \<^verbatim>\<open>robot_state_client.py\<close> (endpoints, readbacks, ROI and stall trackers, waiting for
    a lease). \<open>CommandClient\<close>: \<^verbatim>\<open>servo_command_client.py\<close> (intents, packets, lease token).
    \<open>SafetyGate\<close>: \<^verbatim>\<open>safety.py\<close>, \<^verbatim>\<open>geometry.py\<close> and the safety section of \<^verbatim>\<open>config.py\<close>.
  \<^item> \<open>ArmInit\<close>: \<^verbatim>\<open>arm_init_control.py\<close>, the override that takes an arm to its init pose. \<open>RolloutModes\<close>:
    \<^verbatim>\<open>rollout_modes.py\<close>, what each mode may do and the rollout summary. \<open>EpisodeRecording\<close> and
    \<open>RecordControl\<close>: \<^verbatim>\<open>recording.py\<close> and \<^verbatim>\<open>record_control.py\<close>.
  \<^item> \<open>RunLoop\<close>: \<^verbatim>\<open>run()\<close> of \<^verbatim>\<open>main.py\<close> stage by stage (\<open>abort_stage\<close>, \<open>control_stage\<close>,
    \<open>intent_stage\<close>, \<open>lease_stage\<close>, \<open>send_stage\<close>, \<open>finish_tick\<close>), one tick as \<open>tick\<close>, all ticks
    as \<open>run_loop\<close>. It composes the five components above; its properties span them.
  \<^item> \<open>JawGeometry\<close> and \<open>Gripper\<close>: \<^verbatim>\<open>gripper.py\<close>, the four-bar jaw over the reals, then commands, gate,
    dispatch, the serial backend and its telemetry parser. The locale \<open>gripper_backend\<close> is the contract
    dispatch relies on; it is interpreted on the no-op and on the serial backend. \<open>GripperServer\<close>:
    \<^verbatim>\<open>gripper_server.py\<close>, the process that owns the serial backend, with its contact search.
  \<^item> \<open>PoseAlgebra\<close>: the quaternion and pose functions of \<^verbatim>\<open>flow_dataset.py\<close> and the interpolation of
    \<^verbatim>\<open>tcp_target_pose_conditioner.py\<close>. \<open>TcpConditioner\<close>: the rest of the latter. \<open>ChunkEnsemble\<close>:
    \<^verbatim>\<open>chunk_ensemble.py\<close>, which blends overlapping policy chunks.
  \<^item> \<open>SpaceMouseRegistry\<close>: \<^verbatim>\<open>spacemouse_registry.py\<close>; its locale \<open>versioned\<close> is the contract of a
    generation number. \<open>TeleopMux\<close>: \<^verbatim>\<open>action_sources/teleop_mux.py\<close>; its locale \<open>spacemouse_source\<close> is
    what the SpaceMouse source promises the multiplexer, and \<open>teleop_pair\<close> adds what the UMI source promises. \<open>PoseTarget\<close>: \<^verbatim>\<open>action_sources/tcp_pose_target.py\<close>.
    \<open>RotationMath\<close> and \<open>DualSpaceMouse\<close>: \<^verbatim>\<open>action_sources/dual_spacemouse_pose_target.py\<close>, its rotation
    arithmetic and its state machine, which interprets that locale. \<open>CommandHistory\<close>:
    \<^verbatim>\<open>servo_command_history.py\<close>.
  \<^item> \<^verbatim>\<open>action_sources/umi_dual_cartesian.py\<close>: \<open>UmiPoseMath\<close> has its transforms, quaternions, interpolation and
    clamps (the matrix and angle functions it shares word for word with the SpaceMouse source are those of
    \<open>RotationMath\<close>); \<open>UmiReaders\<close> the samples, the UDP and the scripted reader, both interpretations of
    \<open>sample_reader\<close>, and the moving average; \<open>UmiTeleop\<close> the source, one definition per step of
    \<^verbatim>\<open>_target_for_side\<close>, with its sections of \<^verbatim>\<open>config.py\<close>; \<open>UmiSafety\<close> what the source guarantees, alone and
    with the SpaceMouse source behind the multiplexer.
  \<^item> \<^verbatim>\<open>flow_inference.py\<close>, the policy source: \<open>FlowRows\<close> has the rows of a chunk and the poses of a state payload
    (\<^verbatim>\<open>flow_dataset.py\<close>); \<open>PrefetchWorker\<close> the mailbox the command loop shares with the inference thread, with its
    generation number; \<open>FlowGripper\<close> the gripper value of a row on its way to the motion packet and to the serial
    backend; \<open>FlowTargets\<close> the running targets, the first-order hold over the conditioner and the overlay frame;
    \<open>FlowStream\<close> the streamed playback over all of these, with the ensemble scheduler; \<open>FlowSource\<close> the whole source: checks,
    preview recovery, authority over the grippers, motion epochs, arm-init hooks, \<^verbatim>\<open>next_intent\<close>. \<open>FlowPlayback\<close>,
    \<open>FlowAuthority\<close> and \<open>FlowSafety\<close> have what is shown of it. What an inference returns is the parameter \<open>infer\<close>, and the
    steps of the worker thread are inputs of a tick, at every point where the loop lets go of the lock.

  A record of a theory has the attributes of the class it models, with a prefix, and each method is
  a function of the same name where HOL allows it, taking the object's state and returning the new
  state with the method's result or exception. Sockets, clocks, serial ports, HID devices and the
  results of numpy and scipy calls are arguments: outcomes handed to an operation, or functions of
  the iteration for a loop. Threads are sequences of their critical sections in any order.

  \<^bold>\<open>What is shown\<close>

  \<^item> Command path: every packet passed the gate on that tick's fresh state; motion comes after ArmMotion;
    a latched arm never gets the policy's payload; a foreign lease stops motion and starts a back-off; a
    read-only run uses no socket; the gate's verdict in full; packets are numbered; the lease token is the
    client's own; the pacer keeps its grid.
  \<^item> Trackers and waiting: stall and ROI reports mean what they say; waiting for a lease returns.
  \<^item> Modes and recording: the gates of \<^verbatim>\<open>real_policy\<close>; exact summary counters; rectangular files; fresh
    episode names; the supervisor's invariant; draining and dispatching control datagrams, with exactly
    the inputs on which they raise.
  \<^item> Grippers: the gate protects the backend; dispatch accounts for every command and its threads are
    equivalent to a sequence; targets stay in range and writes are spaced in every run; a truncated
    frame costs one frame; the bisection inverts the jaw geometry. The gripper server never opens a jaw
    past its target, and a grip verdict means sustained current.
  \<^item> Policy chunks: seams of the ensemble and chunk boundaries of the conditioner do not jump; the rows
    handed out replay to the targets recorded as executed; emitted poses are proper.
  \<^item> Policy source: after an invalidation, and after an arm-init override, only rows planned since are executed, each at
    its own policy step, whatever the worker does; steps are never fired in a burst; a gripper moves under preview
    execution only with authority from fresh telemetry; the two gripper sinks agree.
  \<^item> Teleoperation: sound assignments and optimistic concurrency of the registry; an arm follows a stick
    only with a dead-man or a neutral start, and its target never runs away from the arm; a new assignment
    holds first; one owner at a time, and the hand-over to a live source; observed command deltas are causal and
    never mix epochs.
  \<^item> UMI source: an arm moves only while its clutch is held or within the release grace; targets advance by
    bounded steps, stay in the workspace and near the arm; a closed activity gate keeps the target; a read returns
    the newest packet; quaternions and matrices correspond; it is never engaged together with the SpaceMouse
    source; a malformed packet raises.

  \<^bold>\<open>Loops and bounds.\<close> The lease wait and the homing wait are \<open>partial_function (option)\<close>, with None for
  not returning, and are proved to return when the clock advances past the deadline. Draining sockets is
  bounded by its limit, the bisection by its 64 rounds; all other recursion is structural or has a
  measure. Nothing uses fuel. Floating point is exact: no theorem depends on rounding, and
  \<open>JawGeometry\<close>, \<open>PoseAlgebra\<close>, \<open>TcpConditioner\<close>, \<open>ChunkEnsemble\<close>, \<open>RotationMath\<close>, \<open>UmiPoseMath\<close>, the
  poses of \<open>DualSpaceMouse\<close> and \<open>UmiTeleop\<close>, and the poses, openings and clocks of the policy source use the reals, where a NaN cannot arise and float32 rows are not
  rounded; the numbers of a tracker sample or of a live pose are taken as finite.

  \<^bold>\<open>Not modelled\<close>: command line and configuration files other than the sections named above; step logs and timing
  telemetry; the readers of \<^verbatim>\<open>spacemouse.py\<close> and the USB pairing of the grippers, which are device access; of the policy
  source, the loading of a model, the image and proprioception tensors and the polling of cameras; the remote and
  point-cloud policies built on it, whose work is tensor code and a remote service; the latency probe, the
  simulated gripper and the sockets of the gripper server; the reader threads of the sockets; image transport and
  previews; learning code and dataset tools, which are offline and tensor code; the Qt application of the operator;
  the scripts and the C++ servers.
\<close>

end
